(* ===== verification/Prelude.thy ===== *)
theory Prelude
  imports Main "HOL-Library.Word" "HOL-Library.Char_ord" "HOL-Library.List_Lexorder"
    "HOL-Library.Product_Lexorder"
begin

text \<open>
  What every component of the workspace shares: results (\<open>Result<T, E>\<close>) as sums, machine
  integers with checked arithmetic, strings as byte lists with the byte classes the
  validators test, decimal rendering, the length-prefixed field encoding of the canonical
  digests, and poisonable mutexes.

  Conventions. \<open>Err e\<close> of the source is \<^term>\<open>Inl e\<close>, \<open>Ok x\<close> is \<^term>\<open>Inr x\<close>.
  A \<open>String\<close> is the list of its UTF-8 bytes, so \<^const>\<open>length\<close> is \<open>str::len\<close> and
  the list order is the order of \<open>str\<close>. \<open>usize\<close> values that count elements or bytes are
  natural numbers, with the overflow test of \<open>checked_add\<close> written out at 64 bits; \<open>u64\<close>
  and \<open>u32\<close> values that take part in arithmetic are words.
\<close>

named_theorems result_simps \<open>rules that take a result apart\<close>
named_theorems btree_simps \<open>rules for the sorted maps\<close>
named_theorems canonical_simps \<open>rules that flatten canonical encodings to one field list\<close>
named_theorems checked_simps \<open>rules for checked machine arithmetic\<close>

type_synonym u8 = "8 word"
type_synonym u32 = "32 word"
type_synonym u64 = "64 word"
type_synonym usize = nat

section \<open>Results\<close>

type_synonym ('a, 'e) result = "'e + 'a"

fun and_then :: "('a, 'e) result \<Rightarrow> ('a \<Rightarrow> ('b, 'e) result) \<Rightarrow> ('b, 'e) result" where
  "and_then (Inl e) f = Inl e"
| "and_then (Inr x) f = f x"

fun map_err :: "('e \<Rightarrow> 'f) \<Rightarrow> ('a, 'e) result \<Rightarrow> ('a, 'f) result" where
  "map_err f (Inl e) = Inl (f e)"
| "map_err f (Inr x) = Inr x"

fun ok_or :: "'a option \<Rightarrow> 'e \<Rightarrow> ('a, 'e) result" where
  "ok_or None e = Inl e"
| "ok_or (Some x) e = Inr x"

fun is_ok :: "('a, 'e) result \<Rightarrow> bool" where
  "is_ok (Inl e) = False"
| "is_ok (Inr x) = True"

definition ensure :: "bool \<Rightarrow> 'e \<Rightarrow> (unit, 'e) result" where
  "ensure b e = (if b then Inr () else Inl e)"

fun try_fold :: "('s \<Rightarrow> 'a \<Rightarrow> ('s, 'e) result) \<Rightarrow> 's \<Rightarrow> 'a list \<Rightarrow> ('s, 'e) result" where
  "try_fold f s [] = Inr s"
| "try_fold f s (x # xs) = and_then (f s x) (\<lambda>s'. try_fold f s' xs)"

fun try_map :: "('a \<Rightarrow> ('b, 'e) result) \<Rightarrow> 'a list \<Rightarrow> ('b list, 'e) result" where
  "try_map f [] = Inr []"
| "try_map f (x # xs) = and_then (f x) (\<lambda>y. and_then (try_map f xs) (\<lambda>ys. Inr (y # ys)))"

lemma and_then_Inr [result_simps]:
  "and_then r f = Inr y \<longleftrightarrow> (\<exists>x. r = Inr x \<and> f x = Inr y)"
  by (cases r) auto

lemma and_then_Inl [result_simps]:
  "and_then r f = Inl e \<longleftrightarrow> r = Inl e \<or> (\<exists>x. r = Inr x \<and> f x = Inl e)"
  by (cases r) auto

lemma map_err_Inr [result_simps]: "map_err f r = Inr x \<longleftrightarrow> r = Inr x"
  by (cases r) auto

lemma map_err_Inl [result_simps]: "map_err f r = Inl e \<longleftrightarrow> (\<exists>d. r = Inl d \<and> e = f d)"
  by (cases r) auto

lemma ok_or_Inr [result_simps]: "ok_or m e = Inr x \<longleftrightarrow> m = Some x"
  by (cases m) auto

lemma ok_or_Inl [result_simps]: "ok_or m e = Inl d \<longleftrightarrow> m = None \<and> d = e"
  by (cases m) auto

lemma ensure_Inr [result_simps]: "ensure b e = Inr u \<longleftrightarrow> b"
  by (simp add: ensure_def)

lemma ensure_Inl [result_simps]: "ensure b e = Inl d \<longleftrightarrow> \<not> b \<and> d = e"
  by (auto simp: ensure_def)

lemma ensure_eval [simp]: "ensure True e = Inr ()" "ensure False e = Inl e"
  by (simp_all add: ensure_def)

lemma is_ok_iff [result_simps]: "is_ok r \<longleftrightarrow> (\<exists>x. r = Inr x)"
  by (cases r) auto

lemma try_fold_append:
  "try_fold f s (xs @ ys) = and_then (try_fold f s xs) (\<lambda>s'. try_fold f s' ys)"
proof (induction xs arbitrary: s)
  case (Cons x xs)
  then show ?case by (cases "f s x") auto
qed simp

lemma try_map_Inr:
  "try_map f xs = Inr ys \<longleftrightarrow> list_all2 (\<lambda>x y. f x = Inr y) xs ys"
proof (induction xs arbitrary: ys)
  case (Cons x xs)
  then show ?case by (cases ys) (auto simp: result_simps)
qed auto

section \<open>Checked machine arithmetic\<close>

definition usize_max :: nat where
  "usize_max = 18446744073709551615"

definition usize_checked_add :: "usize \<Rightarrow> usize \<Rightarrow> usize option" where
  "usize_checked_add a b = (if a + b \<le> usize_max then Some (a + b) else None)"

definition checked_add :: "'a::len word \<Rightarrow> 'a word \<Rightarrow> 'a word option" where
  "checked_add a b = (if unat a + unat b < 2 ^ LENGTH('a) then Some (a + b) else None)"

definition checked_sub :: "'a::len word \<Rightarrow> 'a word \<Rightarrow> 'a word option" where
  "checked_sub a b = (if b \<le> a then Some (a - b) else None)"

text \<open>\<open>u64::try_from\<close> and its kin on a length: fails when the width is too small.\<close>

definition try_from_nat :: "nat \<Rightarrow> 'a::len word option" where
  "try_from_nat n = (if n < 2 ^ LENGTH('a) then Some (of_nat n) else None)"

lemma usize_checked_add_Some [checked_simps]:
  "usize_checked_add a b = Some c \<longleftrightarrow> c = a + b \<and> a + b \<le> usize_max"
  by (auto simp: usize_checked_add_def)

lemma usize_checked_add_None [checked_simps]:
  "usize_checked_add a b = None \<longleftrightarrow> usize_max < a + b"
  by (auto simp: usize_checked_add_def)

lemma checked_add_Some [checked_simps]:
  "checked_add a b = Some (c :: 'a::len word)
     \<longleftrightarrow> unat a + unat b < 2 ^ LENGTH('a) \<and> c = a + b"
  by (auto simp: checked_add_def)

lemma checked_add_None [checked_simps]:
  "checked_add a (b :: 'a::len word) = None \<longleftrightarrow> 2 ^ LENGTH('a) \<le> unat a + unat b"
  by (auto simp: checked_add_def)

lemma checked_sub_Some [checked_simps]:
  "checked_sub a b = Some (c :: 'a::len word) \<longleftrightarrow> b \<le> a \<and> c = a - b"
  by (auto simp: checked_sub_def)

lemma checked_sub_None [checked_simps]: "checked_sub a (b :: 'a::len word) = None \<longleftrightarrow> a < b"
  by (auto simp: checked_sub_def)

lemma unat_checked_add:
  "checked_add a b = Some (c :: 'a::len word) \<Longrightarrow> unat c = unat a + unat b"
  by (auto simp: checked_simps unat_word_ariths)

lemma unat_checked_sub:
  "checked_sub a b = Some (c :: 'a::len word) \<Longrightarrow> unat c = unat a - unat b \<and> unat b \<le> unat a"
  by (auto simp: checked_simps unat_sub word_le_nat_alt)

lemma unat_u64_less: "unat (w :: u64) < 18446744073709551616"
proof -
  have "unat w < 2 ^ LENGTH(64)" by (rule unsigned_less)
  then show ?thesis by simp
qed

lemma try_from_nat_Some [checked_simps]:
  "try_from_nat n = Some (w :: 'a::len word) \<longleftrightarrow> n < 2 ^ LENGTH('a) \<and> w = of_nat n"
  by (auto simp: try_from_nat_def)

lemma unat_try_from_nat: "try_from_nat n = Some (w :: 'a::len word) \<Longrightarrow> unat w = n"
  by (auto simp: try_from_nat_def unat_of_nat split: if_splits)

section \<open>Bytes, characters and strings\<close>

definition is_ascii_lowercase :: "char \<Rightarrow> bool" where
  "is_ascii_lowercase c \<longleftrightarrow> CHR ''a'' \<le> c \<and> c \<le> CHR ''z''"

definition is_ascii_uppercase :: "char \<Rightarrow> bool" where
  "is_ascii_uppercase c \<longleftrightarrow> CHR ''A'' \<le> c \<and> c \<le> CHR ''Z''"

definition is_ascii_digit :: "char \<Rightarrow> bool" where
  "is_ascii_digit c \<longleftrightarrow> CHR ''0'' \<le> c \<and> c \<le> CHR ''9''"

definition is_ascii_alphanumeric :: "char \<Rightarrow> bool" where
  "is_ascii_alphanumeric c \<longleftrightarrow>
     is_ascii_lowercase c \<or> is_ascii_uppercase c \<or> is_ascii_digit c"

definition is_ascii_hexdigit :: "char \<Rightarrow> bool" where
  "is_ascii_hexdigit c \<longleftrightarrow> is_ascii_digit c
     \<or> (CHR ''a'' \<le> c \<and> c \<le> CHR ''f'') \<or> (CHR ''A'' \<le> c \<and> c \<le> CHR ''F'')"

lemmas ascii_defs = is_ascii_lowercase_def is_ascii_uppercase_def is_ascii_digit_def
  is_ascii_alphanumeric_def is_ascii_hexdigit_def

text \<open>\<open>str::contains\<close> on a string pattern: the pattern's bytes occur as one run.\<close>

fun starts_with :: "string \<Rightarrow> string \<Rightarrow> bool" where
  "starts_with s [] = True"
| "starts_with [] (p # ps) = False"
| "starts_with (c # cs) (p # ps) = (c = p \<and> starts_with cs ps)"

fun str_contains :: "string \<Rightarrow> string \<Rightarrow> bool" where
  "str_contains [] pat = starts_with [] pat"
| "str_contains (c # cs) pat = (starts_with (c # cs) pat \<or> str_contains cs pat)"

lemma starts_with_iff: "starts_with s p \<longleftrightarrow> (\<exists>r. s = p @ r)"
  by (induction s p rule: starts_with.induct) auto

lemma str_contains_iff: "str_contains s p \<longleftrightarrow> (\<exists>a b. s = a @ p @ b)"
proof (induction s)
  case Nil
  show ?case by (auto simp: starts_with_iff)
next
  case (Cons c cs)
  have "(\<exists>a b. c # cs = a @ p @ b)
      \<longleftrightarrow> (\<exists>b. c # cs = p @ b) \<or> (\<exists>a b. cs = a @ p @ b)"
    by (metis append_Cons append_Nil list.exhaust list.inject)
  with Cons show ?case by (simp add: starts_with_iff)
qed

text \<open>
  The white space of \<open>char::is_whitespace\<close> (the Unicode property \<open>White_Space\<close>) on UTF-8
  bytes: one equation per encoding length. \<open>s.trim().is_empty()\<close> holds exactly when the
  whole string is white space.
\<close>

fun blank :: "string \<Rightarrow> bool" where
  "blank [] = True"
| "blank (c # cs) =
     (if (CHR 0x09 \<le> c \<and> c \<le> CHR 0x0D) \<or> c = CHR 0x20 then blank cs
      else case cs of
        [] \<Rightarrow> False
      | d # ds \<Rightarrow>
          if c = CHR 0xC2 then (d = CHR 0x85 \<or> d = CHR 0xA0) \<and> blank ds
          else (case ds of
            [] \<Rightarrow> False
          | e # es \<Rightarrow>
              ((c = CHR 0xE1 \<and> d = CHR 0x9A \<and> e = CHR 0x80)
               \<or> (c = CHR 0xE2 \<and> d = CHR 0x80
                    \<and> ((CHR 0x80 \<le> e \<and> e \<le> CHR 0x8A) \<or> e = CHR 0xA8 \<or> e = CHR 0xA9
                        \<or> e = CHR 0xAF))
               \<or> (c = CHR 0xE2 \<and> d = CHR 0x81 \<and> e = CHR 0x9F)
               \<or> (c = CHR 0xE3 \<and> d = CHR 0x80 \<and> e = CHR 0x80)) \<and> blank es))"

text \<open>
  The shape most identifier grammars of the workspace have: a bounded length, a class for
  the first byte and a class for the others.
\<close>

fun first_rest :: "(char \<Rightarrow> bool) \<Rightarrow> (char \<Rightarrow> bool) \<Rightarrow> string \<Rightarrow> bool" where
  "first_rest p q [] = False"
| "first_rest p q (c # cs) = (p c \<and> list_all q cs)"

definition lower_or_digit :: "char \<Rightarrow> bool" where
  "lower_or_digit c \<longleftrightarrow> is_ascii_lowercase c \<or> is_ascii_digit c"

lemma first_rest_all: "first_rest p q s \<Longrightarrow> (\<And>c. p c \<Longrightarrow> q c) \<Longrightarrow> list_all q s"
  by (cases s) auto

section \<open>Decimal rendering\<close>

definition digit_char :: "nat \<Rightarrow> char" where
  "digit_char d = char_of (48 + d)"

fun nat_to_string :: "nat \<Rightarrow> string" where
  "nat_to_string n =
     (if n < 10 then [digit_char n] else nat_to_string (n div 10) @ [digit_char (n mod 10)])"

declare nat_to_string.simps [simp del]

definition word_to_string :: "'a::len word \<Rightarrow> string" where
  "word_to_string w = nat_to_string (unat w)"

lemma digit_char_eq: "d < 10 \<Longrightarrow> e < 10 \<Longrightarrow> digit_char d = digit_char e \<longleftrightarrow> d = e"
  by (auto simp: digit_char_def char_of_eq_iff take_bit_eq_mod)

lemma digit_char_digit: "d < 10 \<Longrightarrow> is_ascii_digit (digit_char d)"
  by (auto simp: digit_char_def is_ascii_digit_def less_eq_char_def take_bit_eq_mod)

lemma nat_to_string_digits: "c \<in> set (nat_to_string n) \<Longrightarrow> is_ascii_digit c"
proof (induction n rule: nat_to_string.induct)
  case (1 n)
  show ?case
  proof (cases "n < 10")
    case True
    with "1.prems" show ?thesis by (simp add: nat_to_string.simps [of n] digit_char_digit)
  next
    case False
    with 1 show ?thesis
      by (auto simp: nat_to_string.simps [of n] digit_char_digit)
  qed
qed

lemma nat_to_string_nonempty [simp]: "nat_to_string n \<noteq> []"
  by (subst nat_to_string.simps) simp

lemma nat_to_string_long: "10 \<le> n \<Longrightarrow> 2 \<le> length (nat_to_string n)"
  by (subst nat_to_string.simps) (cases "nat_to_string (n div 10)", auto)

lemma nat_to_string_inject [simp]: "nat_to_string m = nat_to_string n \<longleftrightarrow> m = n"
proof
  show "nat_to_string m = nat_to_string n \<Longrightarrow> m = n"
  proof (induction m arbitrary: n rule: nat_to_string.induct)
    case (1 m)
    show ?case
    proof (cases "m < 10 \<or> n < 10")
      case True
      have "length (nat_to_string m) = length (nat_to_string n)" using "1.prems" by simp
      with True have "m < 10 \<and> n < 10"
        using nat_to_string_long [of m] nat_to_string_long [of n]
        by (cases "m < 10"; cases "n < 10") (auto simp: nat_to_string.simps)
      with "1.prems" show ?thesis
        by (simp add: nat_to_string.simps [of m] nat_to_string.simps [of n] digit_char_eq)
    next
      case False
      with "1.prems" have eqs: "nat_to_string (m div 10) = nat_to_string (n div 10)"
        "m mod 10 = n mod 10"
        by (simp_all add: nat_to_string.simps [of m] nat_to_string.simps [of n] digit_char_eq)
      with "1.IH" False have "m div 10 = n div 10" by simp
      with eqs(2) show ?thesis by (metis div_mult_mod_eq)
    qed
  qed
qed simp

lemma word_to_string_inject [simp]: "word_to_string v = word_to_string w \<longleftrightarrow> v = w"
  by (simp add: word_to_string_def unsigned_word_eqI word_unat_eq_iff)

section \<open>The length-prefixed field encoding\<close>

text \<open>
  \<open>fields\<close> of \<open>policy/src/lib.rs\<close> and \<open>evaluation/src/canonical.rs\<close>, which are the same
  function: every value is written as its decimal length, a colon, its bytes and a newline.
\<close>

definition lp_field :: "string \<Rightarrow> string" where
  "lp_field v = nat_to_string (length v) @ CHR '':'' # v @ [CHR 0x0A]"

definition lp_fields :: "string list \<Rightarrow> string" where
  "lp_fields vs = concat (map lp_field vs)"

lemma colon_not_digit [simp]: "\<not> is_ascii_digit (CHR '':'')"
  by (simp add: is_ascii_digit_def)

lemma colon_notin_nat_to_string [simp]: "CHR '':'' \<notin> set (nat_to_string n)"
  using nat_to_string_digits [of "CHR '':''" n] by auto

lemma split_at_first:
  assumes "xs @ c # ys = xs' @ c # ys'" and "c \<notin> set xs" and "c \<notin> set xs'"
  shows "xs = xs' \<and> ys = ys'"
  using assms
proof (induction xs arbitrary: xs')
  case Nil
  then show ?case by (cases xs') auto
next
  case (Cons x xs)
  then show ?case by (cases xs') auto
qed

lemma lp_field_prefix_free:
  assumes "lp_field v @ r = lp_field w @ s"
  shows "v = w \<and> r = s"
proof -
  from assms have eq: "nat_to_string (length v) @ CHR '':'' # (v @ CHR 0x0A # r)
      = nat_to_string (length w) @ CHR '':'' # (w @ CHR 0x0A # s)"
    by (simp add: lp_field_def)
  from split_at_first [OF eq] have "length v = length w" "v @ CHR 0x0A # r = w @ CHR 0x0A # s"
    by auto
  then show ?thesis by simp
qed

lemma lp_field_nonempty [simp]: "lp_field v \<noteq> []"
  by (simp add: lp_field_def)

lemma lp_fields_simps:
  "lp_fields [] = []" "lp_fields (v # vs) = lp_field v @ lp_fields vs"
  by (simp_all add: lp_fields_def)

lemma lp_fields_join [canonical_simps]:
  "lp_fields vs @ lp_fields ws = lp_fields (vs @ ws)"
  "lp_fields vs @ lp_fields ws @ r = lp_fields (vs @ ws) @ r"
  "concat (map (\<lambda>t. lp_fields (f t)) ts) = lp_fields (concat (map f ts))"
  by (simp_all add: lp_fields_def, induction ts) auto

lemma lp_fields_inject_lemma: "lp_fields vs = lp_fields ws \<Longrightarrow> vs = ws"
proof (induction vs arbitrary: ws)
  case Nil
  then show ?case by (cases ws) (auto simp: lp_fields_simps)
next
  case (Cons v vs)
  from Cons.prems obtain w ws' where ws: "ws = w # ws'"
    by (cases ws) (auto simp: lp_fields_simps)
  with Cons.prems have "v = w \<and> lp_fields vs = lp_fields ws'"
    by (auto simp: lp_fields_simps dest: lp_field_prefix_free)
  with Cons.IH ws show ?case by blast
qed

lemma lp_fields_inject [simp]: "lp_fields vs = lp_fields ws \<longleftrightarrow> vs = ws"
  using lp_fields_inject_lemma by blast

section \<open>Fixed-width big-endian numbers\<close>

text \<open>\<open>to_be_bytes\<close> of an integer of \<open>k\<close> bytes.\<close>

fun be_bytes :: "nat \<Rightarrow> nat \<Rightarrow> string" where
  "be_bytes 0 n = []"
| "be_bytes (Suc k) n = be_bytes k (n div 256) @ [char_of (n mod 256)]"

lemma length_be_bytes [simp]: "length (be_bytes k n) = k"
  by (induction k arbitrary: n) auto

lemma be_bytes_inject:
  "m < 256 ^ k \<Longrightarrow> n < 256 ^ k \<Longrightarrow> be_bytes k m = be_bytes k n \<longleftrightarrow> m = n"
proof (induction k arbitrary: m n)
  case (Suc k)
  have "m div 256 < 256 ^ k" "n div 256 < 256 ^ k" using Suc.prems by auto
  with Suc.IH have "be_bytes k (m div 256) = be_bytes k (n div 256) \<longleftrightarrow> m div 256 = n div 256" by blast
  moreover have "char_of (m mod 256) = (char_of (n mod 256) :: char) \<longleftrightarrow> m mod 256 = n mod 256"
    by (simp add: char_of_eq_iff take_bit_eq_mod)
  ultimately show ?case by (simp, metis div_mult_mod_eq)
qed simp

section \<open>Mutexes\<close>

text \<open>
  A \<open>std::sync::Mutex\<close> is poisoned once a thread has panicked while holding it; \<open>lock\<close> then
  fails. Each operation of an adapter runs under one lock, so it is a function of the state.
\<close>

record 's mutex =
  poisoned :: bool
  guarded :: 's

definition mutex_new :: "'s \<Rightarrow> 's mutex" where
  "mutex_new s = \<lparr>poisoned = False, guarded = s\<rparr>"

definition lock :: "'s mutex \<Rightarrow> 'e \<Rightarrow> ('s, 'e) result" where
  "lock m e = (if poisoned m then Inl e else Inr (guarded m))"

lemma lock_Inr [result_simps]: "lock m e = Inr s \<longleftrightarrow> \<not> poisoned m \<and> s = guarded m"
  by (auto simp: lock_def)

lemma lock_Inl [result_simps]: "lock m e = Inl d \<longleftrightarrow> poisoned m \<and> d = e"
  by (auto simp: lock_def)

lemma lock_new [simp]: "lock (mutex_new s) e = Inr s"
  by (simp add: lock_def mutex_new_def)

lemma mutex_new_sel [simp]: "poisoned (mutex_new s) = False" "guarded (mutex_new s) = s"
  by (simp_all add: mutex_new_def)

end
