(* ===== verification/Collections.thy ===== *)
theory Collections
  imports Prelude
begin

text \<open>
  The ordered collections of the Rust standard library the workspace uses. A
  \<open>BTreeMap<K, V>\<close> is the list of its entries in strictly ascending key order, which is also
  the order its iterators yield; a \<open>BTreeSet\<close> is the strictly ascending list of its elements.
  The lemmas say what an insertion or a removal does to lookups, to the number of entries
  and to a sum over the entries, which is what the stores' counters are about.
\<close>

type_synonym ('k, 'v) btree_map = "('k \<times> 'v) list"

definition bt_ok :: "('k::linorder, 'v) btree_map \<Rightarrow> bool" where
  "bt_ok m \<longleftrightarrow> sorted_wrt (<) (map fst m)"

abbreviation bt_get :: "('k::linorder, 'v) btree_map \<Rightarrow> 'k \<Rightarrow> 'v option" where
  "bt_get \<equiv> map_of"

fun bt_insert :: "'k::linorder \<Rightarrow> 'v \<Rightarrow> ('k, 'v) btree_map \<Rightarrow> ('k, 'v) btree_map" where
  "bt_insert k v [] = [(k, v)]"
| "bt_insert k v (e # m) =
     (if fst e = k then (k, v) # m
      else if k < fst e then (k, v) # e # m
      else e # bt_insert k v m)"

definition bt_remove :: "'k::linorder \<Rightarrow> ('k, 'v) btree_map \<Rightarrow> ('k, 'v) btree_map" where
  "bt_remove k m = filter (\<lambda>e. fst e \<noteq> k) m"

definition bt_contains_key :: "('k::linorder, 'v) btree_map \<Rightarrow> 'k \<Rightarrow> bool" where
  "bt_contains_key m k = (bt_get m k \<noteq> None)"

definition bt_values :: "('k, 'v) btree_map \<Rightarrow> 'v list" where
  "bt_values m = map snd m"

text \<open>\<open>iter.collect::<BTreeMap<_, _>>()\<close>: a later entry replaces an earlier one.\<close>

definition bt_collect :: "('k::linorder \<times> 'v) list \<Rightarrow> ('k, 'v) btree_map" where
  "bt_collect es = foldl (\<lambda>m e. bt_insert (fst e) (snd e) m) [] es"

text \<open>
  \<open>iter.collect::<BTreeSet<_>>()\<close> and the pair \<open>sort(); dedup()\<close> on a vector.
\<close>

definition bs_collect :: "'a::linorder list \<Rightarrow> 'a list" where
  "bs_collect xs = sort (remdups xs)"

definition sort_dedup :: "'a::linorder list \<Rightarrow> 'a list" where
  "sort_dedup xs = remdups_adj (sort xs)"

section \<open>Lookups and order\<close>

lemma bt_ok_Nil [simp]: "bt_ok []"
  by (simp add: bt_ok_def)

lemma bt_ok_Cons [btree_simps]:
  "bt_ok (e # m) \<longleftrightarrow> (\<forall>k\<in>fst ` set m. fst e < k) \<and> bt_ok m"
  by (simp add: bt_ok_def)

lemma bt_ok_distinct: "bt_ok m \<Longrightarrow> distinct (map fst m)"
  by (induction m) (auto simp: btree_simps)

lemma fst_set_bt_insert [simp]: "fst ` set (bt_insert k v m) = insert k (fst ` set m)"
  by (induction m) (auto simp: image_iff)

lemma bt_ok_insert [simp, intro]: "bt_ok m \<Longrightarrow> bt_ok (bt_insert k v m)"
proof (induction m)
  case (Cons e m)
  consider "fst e = k" | "k < fst e" | "fst e < k" by (metis neqE)
  then show ?case
    using Cons by cases (force simp: btree_simps)+
qed (simp add: bt_ok_def)

lemma bt_ok_filter [simp, intro]: "bt_ok m \<Longrightarrow> bt_ok (filter P m)"
  by (induction m) (auto simp: btree_simps)

lemma bt_ok_remove [simp, intro]: "bt_ok m \<Longrightarrow> bt_ok (bt_remove k m)"
  by (simp add: bt_remove_def)

lemma bt_get_insert [simp]: "bt_get (bt_insert k v m) = (bt_get m)(k \<mapsto> v)"
  by (induction m) (auto simp: fun_eq_iff)

lemma bt_get_remove [simp]: "bt_get (bt_remove k m) = (bt_get m)(k := None)"
  by (induction m) (auto simp: bt_remove_def fun_eq_iff)

lemma bt_insert_again [simp]: "bt_insert k v (bt_insert k w m) = bt_insert k v m"
  by (induction m) auto

lemma bt_insert_not_Nil [simp]: "bt_insert k v m \<noteq> []"
  by (cases m) auto

lemma bt_contains_key_iff: "bt_contains_key m k \<longleftrightarrow> k \<in> fst ` set m"
  by (simp add: bt_contains_key_def map_of_eq_None_iff)

lemma bt_get_above:
  "bt_ok (e # m) \<Longrightarrow> k \<le> fst e \<Longrightarrow> bt_get m k = None"
  by (auto simp: btree_simps map_of_eq_None_iff)

lemma bt_get_iff: "bt_ok m \<Longrightarrow> bt_get m k = Some v \<longleftrightarrow> (k, v) \<in> set m"
  by (simp add: bt_ok_distinct)

lemma set_bt_insert:
  assumes "bt_ok m"
  shows "set (bt_insert k v m) = insert (k, v) {e \<in> set m. fst e \<noteq> k}"
proof -
  have "bt_ok (bt_insert k v m)" using assms by simp
  then have "(a, b) \<in> set (bt_insert k v m) \<longleftrightarrow> bt_get (bt_insert k v m) a = Some b" for a b
    by (rule bt_get_iff [symmetric])
  then show ?thesis using assms by (auto simp: bt_get_iff split: if_splits)
qed

lemma set_bt_remove: "set (bt_remove k m) = {e \<in> set m. fst e \<noteq> k}"
  by (auto simp: bt_remove_def)

lemma bt_ok_ext:
  assumes "bt_ok m" and "bt_ok n" and "bt_get m = bt_get n"
  shows "m = n"
proof -
  have set_eq: "set m = set n" using assms bt_get_iff by (metis set_eqI surj_pair)
  have "map fst m = map fst n"
    using assms(1,2) set_eq unfolding bt_ok_def
    by (intro strict_sorted_equal) auto
  moreover have "inj_on fst (set m)"
    using bt_ok_distinct [OF assms(1)] by (simp add: distinct_map)
  ultimately show ?thesis
    using set_eq by (intro map_inj_on [where f = fst]) auto
qed

lemma bt_ok_collect [simp]: "bt_ok (bt_collect es)"
proof -
  have "bt_ok m \<Longrightarrow> bt_ok (foldl (\<lambda>m e. bt_insert (fst e) (snd e) m) m es)"
    for m :: "('a, 'b) btree_map"
    by (induction es arbitrary: m) auto
  then show ?thesis by (simp add: bt_collect_def)
qed

section \<open>Counting and summing over the entries\<close>

lemma length_bt_insert:
  "bt_ok m \<Longrightarrow> length (bt_insert k v m) = (case bt_get m k of None \<Rightarrow> Suc (length m) | Some _ \<Rightarrow> length m)"
proof (induction m)
  case (Cons e m)
  then show ?case
    using bt_get_above [OF Cons.prems, of k]
    by (cases e) (auto simp: btree_simps split: option.splits)
qed simp

lemma sum_bt_insert:
  fixes f :: "'k::linorder \<times> 'v \<Rightarrow> nat"
  assumes "bt_ok m"
  shows "sum_list (map f (bt_insert k v m)) + (case bt_get m k of None \<Rightarrow> 0 | Some w \<Rightarrow> f (k, w))
       = sum_list (map f m) + f (k, v)"
  using assms
proof (induction m)
  case (Cons e m)
  then show ?case
    using bt_get_above [OF Cons.prems, of k]
    by (cases e) (auto simp: btree_simps split: option.splits)
qed simp

lemma sum_bt_remove:
  fixes f :: "'k::linorder \<times> 'v \<Rightarrow> nat"
  assumes "bt_ok m"
  shows "sum_list (map f (bt_remove k m)) + (case bt_get m k of None \<Rightarrow> 0 | Some w \<Rightarrow> f (k, w))
       = sum_list (map f m)"
  using assms
proof (induction m)
  case (Cons e m)
  then show ?case
    using bt_get_above [OF Cons.prems, of k]
    by (cases e) (auto simp: btree_simps bt_remove_def split: option.splits)
qed (simp add: bt_remove_def)

lemma sum_list_member:
  fixes f :: "'a \<Rightarrow> nat"
  shows "x \<in> set xs \<Longrightarrow> f x \<le> sum_list (map f xs)"
  by (induction xs) auto

lemma sum_bt_get:
  fixes f :: "'k::linorder \<times> 'v \<Rightarrow> nat"
  shows "bt_get m k = Some v \<Longrightarrow> f (k, v) \<le> sum_list (map f m)"
  using map_of_SomeD [of m k v] sum_list_member [of "(k, v)" m f] by blast

lemma bt_remove_absent: "bt_get m k = None \<Longrightarrow> bt_remove k m = m"
  by (auto simp: bt_remove_def map_of_eq_None_iff filter_id_conv)

lemma length_bt_remove:
  "bt_ok m \<Longrightarrow> length (bt_remove k m) = (case bt_get m k of None \<Rightarrow> length m | Some _ \<Rightarrow> length m - 1)"
  using sum_bt_remove [of m "\<lambda>_. 1" k] by (auto simp: sum_list_triv split: option.splits)

section \<open>Selecting entries by key\<close>

lemma filter_bt_insert:
  "bt_ok m \<Longrightarrow> filter (\<lambda>e. P (fst e)) (bt_insert k v m) =
     (if P k then bt_insert k v (filter (\<lambda>e. P (fst e)) m) else filter (\<lambda>e. P (fst e)) m)"
proof (induction m)
  case (Cons e m)
  have front: "bt_insert k v (filter (\<lambda>e. P (fst e)) m) = (k, v) # filter (\<lambda>e. P (fst e)) m"
    if "k < fst e"
  proof (cases "filter (\<lambda>e. P (fst e)) m")
    case (Cons d ds)
    then have "d \<in> set m" by (metis filter_is_subset list.set_intros(1) subsetD)
    with that Cons.prems \<open>bt_ok (e # m)\<close> have "k < fst d" by (force simp: btree_simps)
    with Cons show ?thesis by simp
  qed simp
  from Cons show ?case by (auto simp: btree_simps front)
qed simp

lemma bt_get_filter: "bt_get (filter (\<lambda>e. P (fst e)) m) k = (if P k then bt_get m k else None)"
  by (induction m) auto

lemma filter_bt_remove:
  "filter (\<lambda>e. P (fst e)) (bt_remove k m) =
     (if P k then bt_remove k (filter (\<lambda>e. P (fst e)) m) else filter (\<lambda>e. P (fst e)) m)"
  by (induction m) (auto simp: bt_remove_def)

text \<open>In a sorted list the entries of one group that nothing smaller precedes are a prefix.\<close>

lemma takeWhile_group:
  fixes g :: "'k::linorder \<Rightarrow> 'b::linorder"
  assumes "bt_ok m" and "mono g" and "\<And>e. e \<in> set m \<Longrightarrow> b \<le> g (fst e)"
  shows "takeWhile (\<lambda>e. g (fst e) = b) m = filter (\<lambda>e. g (fst e) = b) m"
  using assms(1,3)
proof (induction m)
  case (Cons e m)
  show ?case
  proof (cases "g (fst e) = b")
    case True
    with Cons show ?thesis by (simp add: btree_simps)
  next
    case False
    with Cons.prems(2) [of e] have "b < g (fst e)" by simp
    moreover have "g (fst e) \<le> g (fst d)" if "d \<in> set m" for d
    proof (rule monoD [OF assms(2)])
      show "fst e \<le> fst d" using that Cons.prems(1) by (force simp: btree_simps)
    qed
    ultimately have "\<forall>d\<in>set m. g (fst d) \<noteq> b" by force
    with False show ?thesis by simp
  qed
qed simp

section \<open>Sets\<close>

lemma bs_collect_set [simp]: "set (bs_collect xs) = set xs"
  by (simp add: bs_collect_def)

lemma bs_collect_strict: "sorted_wrt (<) (bs_collect xs)"
  by (simp add: bs_collect_def strict_sorted_iff)

lemma bs_collect_distinct [simp]: "distinct (bs_collect xs)"
  by (simp add: bs_collect_def)

lemma bs_collect_id: "sorted_wrt (<) xs \<Longrightarrow> bs_collect xs = xs"
  by (simp add: bs_collect_def strict_sorted_iff sorted_sort_id)

lemma bs_collect_idem [simp]: "bs_collect (bs_collect xs) = bs_collect xs"
  by (simp add: bs_collect_id bs_collect_strict)

lemma bs_collect_eq_iff: "bs_collect xs = bs_collect ys \<longleftrightarrow> set xs = set ys"
  using bs_collect_set strict_sorted_equal bs_collect_strict by metis

lemma strict_sorted_remdups_adj: "sorted xs \<Longrightarrow> sorted_wrt (<) (remdups_adj xs)"
  by (induction xs rule: remdups_adj.induct) (auto simp: order_le_less)

lemma sort_dedup_eq: "sort_dedup xs = bs_collect xs"
proof -
  have "sorted_wrt (<) (sort_dedup xs)"
    by (simp add: sort_dedup_def strict_sorted_remdups_adj)
  moreover have "set (sort_dedup xs) = set xs" by (simp add: sort_dedup_def)
  ultimately show ?thesis
    using bs_collect_strict [of xs] by (intro strict_sorted_equal) auto
qed

end
