(* ===== verification/Contracts.thy ===== *)
theory Contracts
  imports Collections
begin

text \<open>
  The contracts several components share, as locales over an operation step
  \<open>step s op = (result, s')\<close>: an invariant every operation keeps, a specification machine an
  adapter implements, and the isolation of tenants, weak (an operation of one tenant leaves
  the others' view alone) and strong (what a tenant observes is a function of its own
  operations). The consequences for whole histories are proved here once; each component
  interprets the locales with its own operations.
\<close>

fun run :: "('s \<Rightarrow> 'op \<Rightarrow> 'r \<times> 's) \<Rightarrow> 's \<Rightarrow> 'op list \<Rightarrow> 's" where
  "run step s [] = s"
| "run step s (op # ops) = run step (snd (step s op)) ops"

fun outputs :: "('s \<Rightarrow> 'op \<Rightarrow> 'r \<times> 's) \<Rightarrow> 's \<Rightarrow> 'op list \<Rightarrow> 'r list" where
  "outputs step s [] = []"
| "outputs step s (op # ops) = fst (step s op) # outputs step (snd (step s op)) ops"

lemma run_append: "run step s (xs @ ys) = run step (run step s xs) ys"
  by (induction xs arbitrary: s) auto

locale invariant_machine =
  fixes step :: "'s \<Rightarrow> 'op \<Rightarrow> 'r \<times> 's"
    and inv :: "'s \<Rightarrow> bool"
  assumes step_inv: "inv s \<Longrightarrow> inv (snd (step s op))"
begin

lemma run_inv: "inv s \<Longrightarrow> inv (run step s ops)"
  by (induction ops arbitrary: s) (auto intro: step_inv)

lemma output_inv:
  assumes "inv s" and "r \<in> set (outputs step s ops)"
  shows "\<exists>s' op. inv s' \<and> op \<in> set ops \<and> r = fst (step s' op)"
  using assms
proof (induction ops arbitrary: s)
  case (Cons op ops)
  show ?case
  proof (cases "r = fst (step s op)")
    case True
    with Cons.prems show ?thesis by auto
  next
    case False
    with Cons.prems have "r \<in> set (outputs step (snd (step s op)) ops)" by simp
    with Cons.IH [OF step_inv [OF Cons.prems(1)]] show ?thesis by (meson list.set_intros(2))
  qed
qed simp

end

locale refinement_machine = invariant_machine step inv
  for step :: "'s \<Rightarrow> 'op \<Rightarrow> 'r \<times> 's" and inv :: "'s \<Rightarrow> bool" +
  fixes abs :: "'s \<Rightarrow> 'a"
    and astep :: "'a \<Rightarrow> 'op \<Rightarrow> 'r \<times> 'a"
  assumes simulates: "inv s \<Longrightarrow> astep (abs s) op = map_prod id abs (step s op)"
begin

lemma run_refines: "inv s \<Longrightarrow> run astep (abs s) ops = abs (run step s ops)"
  by (induction ops arbitrary: s) (auto simp: simulates intro: step_inv)

lemma outputs_refine: "inv s \<Longrightarrow> outputs astep (abs s) ops = outputs step s ops"
  by (induction ops arbitrary: s) (auto simp: simulates intro: step_inv)

end

locale tenant_frame =
  fixes step :: "'s \<Rightarrow> 'op \<Rightarrow> 'r \<times> 's"
    and tenant :: "'op \<Rightarrow> 't"
    and view :: "'s \<Rightarrow> 't \<Rightarrow> 'v"
  assumes foreign_step: "tenant op \<noteq> t \<Longrightarrow> view (snd (step s op)) t = view s t"
begin

lemma foreign_run:
  "\<forall>op\<in>set ops. tenant op \<noteq> t \<Longrightarrow> view (run step s ops) t = view s t"
  by (induction ops arbitrary: s) (auto simp: foreign_step)

end

locale tenant_isolation = tenant_frame step tenant view
  for step :: "'s \<Rightarrow> 'op \<Rightarrow> 'r \<times> 's" and tenant :: "'op \<Rightarrow> 't" and view :: "'s \<Rightarrow> 't \<Rightarrow> 'v" +
  assumes own_step: "view s (tenant op) = view s' (tenant op)
    \<Longrightarrow> fst (step s op) = fst (step s' op)
      \<and> view (snd (step s op)) (tenant op) = view (snd (step s' op)) (tenant op)"
begin

text \<open>
  Purging the other tenants' operations changes nothing a tenant sees: the classical
  unwinding argument, over the history.
\<close>

lemma purge_view:
  assumes "view s t = view s' t"
  shows "view (run step s ops) t = view (run step s' (filter (\<lambda>op. tenant op = t) ops)) t"
  using assms
proof (induction ops arbitrary: s s')
  case (Cons op ops)
  show ?case
  proof (cases "tenant op = t")
    case True
    with own_step [of s op s'] Cons.prems
    have "view (snd (step s op)) t = view (snd (step s' op)) t" by simp
    from Cons.IH [OF this] True show ?thesis by simp
  next
    case False
    then have "view (snd (step s op)) t = view s' t" using Cons.prems by (simp add: foreign_step)
    from Cons.IH [OF this] False show ?thesis by simp
  qed
qed simp

lemma purge_outputs:
  assumes "view s t = view s' t"
  shows "map snd (filter (\<lambda>p. tenant (fst p) = t) (zip ops (outputs step s ops)))
       = outputs step s' (filter (\<lambda>op. tenant op = t) ops)"
  using assms
proof (induction ops arbitrary: s s')
  case (Cons op ops)
  show ?case
  proof (cases "tenant op = t")
    case True
    with own_step [of s op s'] Cons.prems
    have "view (snd (step s op)) t = view (snd (step s' op)) t"
      "fst (step s op) = fst (step s' op)" by simp_all
    with Cons.IH True show ?thesis by simp
  next
    case False
    then have "view (snd (step s op)) t = view s' t" using Cons.prems by (simp add: foreign_step)
    with Cons.IH False show ?thesis by simp
  qed
qed simp

end

end
