(* ===== verification/Policy.thy ===== *)
theory Policy
  imports Contracts
begin

text \<open>
  The policy crate: trusted request contexts, the closed capability list, grants with their
  canonical form, the canonical bytes a decision digest is taken over
  (\<open>policy/src/lib.rs\<close>), and the static grant resolver (\<open>policy/src/memory.rs\<close>).
  SHA-256 is the \<open>sha2\<close> crate; the digest function is the parameter \<open>sha256_hex\<close> of the
  definitions that use it, and no lemma here assumes anything of it.
\<close>

section \<open>Data\<close>

definition MAX_LOGICAL_ID_BYTES :: nat where "MAX_LOGICAL_ID_BYTES = 128"
definition MAX_TOOL_IDS :: nat where "MAX_TOOL_IDS = 64"
definition MAX_TOOL_ID_BYTES :: nat where "MAX_TOOL_ID_BYTES = 128"
definition MAX_STATIC_GRANT_RECORDS :: nat where "MAX_STATIC_GRANT_RECORDS = 1024"

type_synonym tenant_id = string
type_synonym principal_id = string
type_synonym request_id = string
type_synonym correlation_id = string

record trusted_context_v1 =
  tc_tenant_id :: tenant_id
  tc_principal_id :: principal_id
  tc_request_id :: request_id
  tc_correlation_id :: correlation_id

datatype capability_v1 =
    AgentDefinitionValidate | AgentDefinitionGet | AgentDefinitionList | AgentDefinitionRegister
  | AgentInvoke | WorkflowValidate | WorkflowStart | WorkflowGet | WorkflowList | WorkflowCancel
  | EvaluationValidate | EvaluationEvaluate | EvaluationGet
  | ObservabilityTelemetryQuery | ObservabilityTelemetryStatus
  | MemoryRemember | MemoryRecall | MemorySearch | MemoryForget | MemoryStatus
  | SandboxStart | SandboxExecute | SandboxStatus | SandboxStop

fun capability_as_str :: "capability_v1 \<Rightarrow> string" where
  "capability_as_str AgentDefinitionValidate = ''agent_definition_validate''"
| "capability_as_str AgentDefinitionGet = ''agent_definition_get''"
| "capability_as_str AgentDefinitionList = ''agent_definition_list''"
| "capability_as_str AgentDefinitionRegister = ''agent_definition_register''"
| "capability_as_str AgentInvoke = ''agent_invoke''"
| "capability_as_str WorkflowValidate = ''workflow_validate''"
| "capability_as_str WorkflowStart = ''workflow_start''"
| "capability_as_str WorkflowGet = ''workflow_get''"
| "capability_as_str WorkflowList = ''workflow_list''"
| "capability_as_str WorkflowCancel = ''workflow_cancel''"
| "capability_as_str EvaluationValidate = ''evaluation_validate''"
| "capability_as_str EvaluationEvaluate = ''evaluation_evaluate''"
| "capability_as_str EvaluationGet = ''evaluation_get''"
| "capability_as_str ObservabilityTelemetryQuery = ''observability_telemetry_query''"
| "capability_as_str ObservabilityTelemetryStatus = ''observability_telemetry_status''"
| "capability_as_str MemoryRemember = ''memory_remember''"
| "capability_as_str MemoryRecall = ''memory_recall''"
| "capability_as_str MemorySearch = ''memory_search''"
| "capability_as_str MemoryForget = ''memory_forget''"
| "capability_as_str MemoryStatus = ''memory_status''"
| "capability_as_str SandboxStart = ''sandbox_start''"
| "capability_as_str SandboxExecute = ''sandbox_execute''"
| "capability_as_str SandboxStatus = ''sandbox_status''"
| "capability_as_str SandboxStop = ''sandbox_stop''"

text \<open>The derived \<open>Ord\<close> of an enum without data is the order of its declaration.\<close>

fun capability_index :: "capability_v1 \<Rightarrow> nat" where
  "capability_index AgentDefinitionValidate = 0"
| "capability_index AgentDefinitionGet = 1"
| "capability_index AgentDefinitionList = 2"
| "capability_index AgentDefinitionRegister = 3"
| "capability_index AgentInvoke = 4"
| "capability_index WorkflowValidate = 5"
| "capability_index WorkflowStart = 6"
| "capability_index WorkflowGet = 7"
| "capability_index WorkflowList = 8"
| "capability_index WorkflowCancel = 9"
| "capability_index EvaluationValidate = 10"
| "capability_index EvaluationEvaluate = 11"
| "capability_index EvaluationGet = 12"
| "capability_index ObservabilityTelemetryQuery = 13"
| "capability_index ObservabilityTelemetryStatus = 14"
| "capability_index MemoryRemember = 15"
| "capability_index MemoryRecall = 16"
| "capability_index MemorySearch = 17"
| "capability_index MemoryForget = 18"
| "capability_index MemoryStatus = 19"
| "capability_index SandboxStart = 20"
| "capability_index SandboxExecute = 21"
| "capability_index SandboxStatus = 22"
| "capability_index SandboxStop = 23"

definition capability_list :: "capability_v1 list" where
  "capability_list =
     [AgentDefinitionValidate, AgentDefinitionGet, AgentDefinitionList, AgentDefinitionRegister,
      AgentInvoke, WorkflowValidate, WorkflowStart, WorkflowGet, WorkflowList, WorkflowCancel,
      EvaluationValidate, EvaluationEvaluate, EvaluationGet, ObservabilityTelemetryQuery,
      ObservabilityTelemetryStatus, MemoryRemember, MemoryRecall, MemorySearch, MemoryForget,
      MemoryStatus, SandboxStart, SandboxExecute, SandboxStatus, SandboxStop]"

lemma capability_list_all: "a \<in> set capability_list"
  by (cases a) (simp_all add: capability_list_def)

lemma inject_on_capabilities:
  "distinct (map f capability_list) \<Longrightarrow> f a = f b \<longleftrightarrow> a = b"
  using capability_list_all by (auto simp: distinct_map inj_on_def)

lemma capability_index_inject [simp]: "capability_index a = capability_index b \<longleftrightarrow> a = b"
  by (rule inject_on_capabilities) code_simp

instantiation capability_v1 :: linorder
begin

definition less_eq_capability_v1 :: "capability_v1 \<Rightarrow> capability_v1 \<Rightarrow> bool" where
  "less_eq_capability_v1 a b \<longleftrightarrow> capability_index a \<le> capability_index b"

definition less_capability_v1 :: "capability_v1 \<Rightarrow> capability_v1 \<Rightarrow> bool" where
  "less_capability_v1 a b \<longleftrightarrow> capability_index a < capability_index b"

instance
  by standard (auto simp: less_eq_capability_v1_def less_capability_v1_def order_antisym)

end

record grant_v1 =
  allowed_tool_ids :: "string list"
  memory_enabled :: bool
  knowledge_enabled :: bool
  sandbox_execution_allowed :: bool
  communication_allowed :: bool

record authorization_request_v1 =
  ar_context :: trusted_context_v1
  ar_capability :: capability_v1

datatype safe_deny_reason_v1 = Denied

fun safe_deny_reason_as_str :: "safe_deny_reason_v1 \<Rightarrow> string" where
  "safe_deny_reason_as_str Denied = ''denied''"

datatype authorization_decision_v1 =
    Allow (effective_grant: grant_v1) (decision_digest_of: string)
  | Deny safe_deny_reason_v1

datatype policy_error = InvalidId | InvalidGrant | LimitExceeded

section \<open>Identifiers and grants\<close>

definition is_logical_id :: "string \<Rightarrow> bool" where
  "is_logical_id value \<longleftrightarrow> length value \<le> MAX_LOGICAL_ID_BYTES
     \<and> first_rest lower_or_digit (\<lambda>b. lower_or_digit b \<or> b = CHR ''_'' \<or> b = CHR ''-'') value"

definition logical_id_new :: "string \<Rightarrow> (string, policy_error) result" where
  "logical_id_new value = (if is_logical_id value then Inr value else Inl InvalidId)"

definition is_tool_id :: "string \<Rightarrow> bool" where
  "is_tool_id value \<longleftrightarrow> value \<noteq> [] \<and> length value \<le> MAX_TOOL_ID_BYTES
     \<and> is_ascii_alphanumeric (hd value) \<and> is_ascii_alphanumeric (last value)
     \<and> list_all (\<lambda>b. is_ascii_lowercase b \<or> is_ascii_digit b
         \<or> b = CHR ''-'' \<or> b = CHR ''_'' \<or> b = CHR ''.'') value"

definition canonical_tools :: "string list \<Rightarrow> (string list, policy_error) result" where
  "canonical_tools tools =
     (let tools = bs_collect tools in
      if length tools > MAX_TOOL_IDS then Inl LimitExceeded
      else if list_ex (\<lambda>t. \<not> is_tool_id t) tools then Inl InvalidGrant
      else Inr tools)"

definition validate_grant :: "grant_v1 \<Rightarrow> (unit, policy_error) result" where
  "validate_grant grant =
     (if length (allowed_tool_ids grant) > MAX_TOOL_IDS then Inl LimitExceeded
      else if list_ex (\<lambda>t. \<not> is_tool_id t) (allowed_tool_ids grant) then Inl InvalidGrant
      else Inr ())"

definition grant_new :: "string list \<Rightarrow> bool \<Rightarrow> bool \<Rightarrow> bool \<Rightarrow> bool \<Rightarrow> (grant_v1, policy_error) result"
where
  "grant_new tools memory knowledge sandbox communication =
     and_then (canonical_tools tools) (\<lambda>tools.
       let grant = \<lparr>allowed_tool_ids = tools, memory_enabled = memory,
             knowledge_enabled = knowledge, sandbox_execution_allowed = sandbox,
             communication_allowed = communication\<rparr>
       in and_then (validate_grant grant) (\<lambda>_. Inr grant))"

definition canonical_grant :: "grant_v1 \<Rightarrow> (grant_v1, policy_error) result" where
  "canonical_grant grant = grant_new (allowed_tool_ids grant) (memory_enabled grant)
     (knowledge_enabled grant) (sandbox_execution_allowed grant) (communication_allowed grant)"

definition boolean :: "bool \<Rightarrow> string" where
  "boolean b = (if b then ''true'' else ''false'')"

definition grant_canonical_bytes :: "grant_v1 \<Rightarrow> (string, policy_error) result" where
  "grant_canonical_bytes grant =
     and_then (canonical_grant grant) (\<lambda>grant. Inr
       (lp_fields [''policy-grant-v1'', nat_to_string (length (allowed_tool_ids grant))]
        @ concat (map (\<lambda>t. lp_fields [t]) (allowed_tool_ids grant))
        @ lp_fields [boolean (memory_enabled grant), boolean (knowledge_enabled grant),
            boolean (sandbox_execution_allowed grant), boolean (communication_allowed grant)]))"

definition grant_digest :: "(string \<Rightarrow> string) \<Rightarrow> grant_v1 \<Rightarrow> (string, policy_error) result" where
  "grant_digest sha256_hex grant =
     and_then (grant_canonical_bytes grant) (\<lambda>bytes. Inr (sha256_hex bytes))"

section \<open>Decisions\<close>

definition decision_canonical_bytes ::
    "authorization_request_v1 \<Rightarrow> authorization_decision_v1 \<Rightarrow> (string, policy_error) result" where
  "decision_canonical_bytes request decision =
     (let context = ar_context request;
          bytes = lp_fields [''policy-decision-v1'', tc_tenant_id context, tc_principal_id context,
            tc_request_id context, tc_correlation_id context,
            capability_as_str (ar_capability request)]
      in case decision of
           Allow grant digest \<Rightarrow>
             and_then (canonical_grant grant) (\<lambda>grant. Inr
               (bytes @ lp_fields [''allow'', ''grant-present'']
                @ lp_fields [nat_to_string (length (allowed_tool_ids grant))]
                @ concat (map (\<lambda>t. lp_fields [t]) (allowed_tool_ids grant))
                @ lp_fields [boolean (memory_enabled grant), boolean (knowledge_enabled grant),
                    boolean (sandbox_execution_allowed grant),
                    boolean (communication_allowed grant)]))
         | Deny safe_reason \<Rightarrow>
             Inr (bytes @ lp_fields [''deny'', safe_deny_reason_as_str safe_reason, ''grant-absent'']))"

definition decision_digest :: "(string \<Rightarrow> string) \<Rightarrow> authorization_request_v1
    \<Rightarrow> authorization_decision_v1 \<Rightarrow> (string, policy_error) result" where
  "decision_digest sha256_hex request decision =
     and_then (decision_canonical_bytes request decision) (\<lambda>bytes. Inr (sha256_hex bytes))"

definition allow_decision :: "(string \<Rightarrow> string) \<Rightarrow> authorization_request_v1 \<Rightarrow> grant_v1
    \<Rightarrow> (authorization_decision_v1, policy_error) result" where
  "allow_decision sha256_hex request grant =
     and_then (canonical_grant grant) (\<lambda>grant.
       and_then (decision_digest sha256_hex request (Allow grant [])) (\<lambda>digest.
         Inr (Allow grant digest)))"

definition deny_decision :: authorization_decision_v1 where
  "deny_decision = Deny Denied"

section \<open>The static resolver\<close>

datatype grant_key_v1 =
  GrantKeyV1 (gk_tenant_id: tenant_id) (gk_principal_id: principal_id) (gk_capability: capability_v1)

fun grant_key_tuple :: "grant_key_v1 \<Rightarrow> tenant_id \<times> principal_id \<times> capability_v1" where
  "grant_key_tuple (GrantKeyV1 t p c) = (t, p, c)"

lemma grant_key_tuple_inject [simp]: "grant_key_tuple a = grant_key_tuple b \<longleftrightarrow> a = b"
  by (cases a; cases b) simp

text \<open>The derived \<open>Ord\<close> of a struct is lexicographic in its fields.\<close>

instantiation grant_key_v1 :: linorder
begin

definition less_eq_grant_key_v1 :: "grant_key_v1 \<Rightarrow> grant_key_v1 \<Rightarrow> bool" where
  "less_eq_grant_key_v1 a b \<longleftrightarrow> grant_key_tuple a \<le> grant_key_tuple b"

definition less_grant_key_v1 :: "grant_key_v1 \<Rightarrow> grant_key_v1 \<Rightarrow> bool" where
  "less_grant_key_v1 a b \<longleftrightarrow> grant_key_tuple a < grant_key_tuple b"

instance
proof
  fix a b c :: grant_key_v1
  show "a < b \<longleftrightarrow> a \<le> b \<and> \<not> b \<le> a"
    by (simp add: less_eq_grant_key_v1_def less_grant_key_v1_def less_le_not_le)
  show "a \<le> a" by (simp add: less_eq_grant_key_v1_def)
  show "a \<le> b \<Longrightarrow> b \<le> c \<Longrightarrow> a \<le> c"
    unfolding less_eq_grant_key_v1_def by (rule order_trans)
  show "a \<le> b \<Longrightarrow> b \<le> a \<Longrightarrow> a = b"
    unfolding less_eq_grant_key_v1_def using order_antisym grant_key_tuple_inject by blast
  show "a \<le> b \<or> b \<le> a" by (simp add: less_eq_grant_key_v1_def linear)
qed

end

datatype static_policy_resolver_error =
  DuplicateGrantKey | InvalidStaticGrant policy_error | StaticLimitExceeded

type_synonym static_policy_resolver = "(grant_key_v1, grant_v1) btree_map"

definition resolver_add :: "static_policy_resolver \<Rightarrow> grant_key_v1 \<times> grant_v1
    \<Rightarrow> (static_policy_resolver, static_policy_resolver_error) result" where
  "resolver_add resolved entry =
     (if length resolved \<ge> MAX_STATIC_GRANT_RECORDS then Inl StaticLimitExceeded
      else and_then (map_err InvalidStaticGrant (canonical_grant (snd entry))) (\<lambda>grant.
        if bt_contains_key resolved (fst entry) then Inl DuplicateGrantKey
        else Inr (bt_insert (fst entry) grant resolved)))"

definition static_policy_resolver_new :: "(grant_key_v1 \<times> grant_v1) list
    \<Rightarrow> (static_policy_resolver, static_policy_resolver_error) result" where
  "static_policy_resolver_new grants = try_fold resolver_add [] grants"

definition request_grant_key :: "authorization_request_v1 \<Rightarrow> grant_key_v1" where
  "request_grant_key request = GrantKeyV1 (tc_tenant_id (ar_context request))
     (tc_principal_id (ar_context request)) (ar_capability request)"

definition authorize :: "(string \<Rightarrow> string) \<Rightarrow> static_policy_resolver \<Rightarrow> authorization_request_v1
    \<Rightarrow> authorization_decision_v1" where
  "authorize sha256_hex resolver request =
     (case bt_get resolver (request_grant_key request) of
        None \<Rightarrow> deny_decision
      | Some grant \<Rightarrow> (case allow_decision sha256_hex request grant of
            Inl _ \<Rightarrow> deny_decision
          | Inr decision \<Rightarrow> decision))"

section \<open>Grants are canonicalised\<close>

definition grant_ok :: "grant_v1 \<Rightarrow> bool" where
  "grant_ok g \<longleftrightarrow> length (bs_collect (allowed_tool_ids g)) \<le> MAX_TOOL_IDS
     \<and> (\<forall>t\<in>set (allowed_tool_ids g). is_tool_id t)"

definition canonical_form :: "grant_v1 \<Rightarrow> grant_v1" where
  "canonical_form g = g\<lparr>allowed_tool_ids := bs_collect (allowed_tool_ids g)\<rparr>"

lemma canonical_form_sel [simp]:
  "allowed_tool_ids (canonical_form g) = bs_collect (allowed_tool_ids g)"
  by (simp add: canonical_form_def)

lemma canonical_grant_Inr:
  "canonical_grant g = Inr c \<longleftrightarrow> grant_ok g \<and> c = canonical_form g"
  by (auto simp: canonical_form_def canonical_grant_def grant_new_def canonical_tools_def validate_grant_def
      grant_ok_def Let_def list_ex_iff result_simps split: if_splits)

lemma canonical_grant_ok: "canonical_grant g = Inr c \<Longrightarrow> grant_ok c \<and> canonical_grant c = Inr c"
  by (auto simp: canonical_grant_Inr grant_ok_def canonical_form_def)

lemma canonical_form_eq_iff:
  "canonical_form h = canonical_form g \<longleftrightarrow>
     set (allowed_tool_ids h) = set (allowed_tool_ids g)
     \<and> memory_enabled h = memory_enabled g \<and> knowledge_enabled h = knowledge_enabled g
     \<and> sandbox_execution_allowed h = sandbox_execution_allowed g
     \<and> communication_allowed h = communication_allowed g"
  by (cases h, cases g) (simp add: canonical_form_def bs_collect_eq_iff)

lemma grant_ok_cong:
  "set (allowed_tool_ids h) = set (allowed_tool_ids g) \<Longrightarrow> grant_ok h = grant_ok g"
  using bs_collect_eq_iff [of "allowed_tool_ids h" "allowed_tool_ids g"] by (simp add: grant_ok_def)

text \<open>A canonical grant has the given grant's tools, strictly ascending, and its flags; it
  is its own canonical form and passes validation; and two grants have the same canonical form
  exactly when they grant the same tools and flags, so the canonical form is a normal form of
  what a grant means.\<close>

lemma canonical_grant_normal_form:
  assumes "canonical_grant g = Inr c"
  shows "set (allowed_tool_ids c) = set (allowed_tool_ids g)
    \<and> sorted_wrt (<) (allowed_tool_ids c) \<and> length (allowed_tool_ids c) \<le> 64
    \<and> validate_grant c = Inr () \<and> canonical_grant c = Inr c
    \<and> (canonical_grant h = Inr c \<longleftrightarrow>
         set (allowed_tool_ids h) = set (allowed_tool_ids g)
         \<and> memory_enabled h = memory_enabled g \<and> knowledge_enabled h = knowledge_enabled g
         \<and> sandbox_execution_allowed h = sandbox_execution_allowed g
         \<and> communication_allowed h = communication_allowed g)"
proof -
  from assms have ok: "grant_ok g" and c: "c = canonical_form g"
    by (simp_all add: canonical_grant_Inr)
  have "canonical_grant c = Inr c" using canonical_grant_ok [OF assms] by simp
  moreover have "validate_grant c = Inr ()"
    using ok c by (auto simp: validate_grant_def grant_ok_def list_ex_iff)
  moreover have "length (allowed_tool_ids c) \<le> 64"
    using ok c by (simp add: grant_ok_def MAX_TOOL_IDS_def)
  moreover have "canonical_grant h = Inr c \<longleftrightarrow> canonical_form h = canonical_form g"
    using ok c grant_ok_cong [of h g] by (auto simp: canonical_grant_Inr canonical_form_eq_iff)
  ultimately show ?thesis
    by (simp add: c bs_collect_strict canonical_form_eq_iff)
qed

lemma canonical_grant_normal_form_witness:
  "set (allowed_tool_ids \<lparr>allowed_tool_ids = [''tool-a'', ''tool-b''], memory_enabled = True,
      knowledge_enabled = False, sandbox_execution_allowed = True, communication_allowed = False\<rparr>)
    = set [''tool-b'', ''tool-a'', ''tool-a'']"
proof -
  let ?g = "\<lparr>allowed_tool_ids = [''tool-b'', ''tool-a'', ''tool-a''], memory_enabled = True,
      knowledge_enabled = False, sandbox_execution_allowed = True, communication_allowed = False\<rparr>"
  let ?c = "\<lparr>allowed_tool_ids = [''tool-a'', ''tool-b''], memory_enabled = True,
      knowledge_enabled = False, sandbox_execution_allowed = True, communication_allowed = False\<rparr>"
  have "canonical_grant ?g = Inr ?c" by code_simp
  from canonical_grant_normal_form [OF this] show ?thesis by simp
qed

section \<open>A decision's bytes bind the request and the grant\<close>

lemma capability_as_str_inject [simp]:
  "capability_as_str a = capability_as_str b \<longleftrightarrow> a = b"
  by (rule inject_on_capabilities) code_simp

lemma boolean_inject [simp]: "boolean a = boolean b \<longleftrightarrow> a = b"
  by (simp add: boolean_def)

definition request_fields :: "authorization_request_v1 \<Rightarrow> string list" where
  "request_fields r = [''policy-decision-v1'', tc_tenant_id (ar_context r),
     tc_principal_id (ar_context r), tc_request_id (ar_context r),
     tc_correlation_id (ar_context r), capability_as_str (ar_capability r)]"

definition grant_fields :: "grant_v1 \<Rightarrow> string list" where
  "grant_fields g = nat_to_string (length (allowed_tool_ids g)) # allowed_tool_ids g
     @ map boolean [memory_enabled g, knowledge_enabled g, sandbox_execution_allowed g,
         communication_allowed g]"

lemma request_fields_inject:
  assumes "request_fields r @ vs = request_fields s @ ws"
  shows "r = s \<and> vs = ws"
proof -
  have "ar_context r = ar_context s" "ar_capability r = ar_capability s" "vs = ws"
    using assms by (auto simp: request_fields_def intro: trusted_context_v1.equality)
  then show ?thesis by (auto intro: authorization_request_v1.equality)
qed

lemma grant_fields_inject: "grant_fields g = grant_fields h \<Longrightarrow> g = h"
  by (cases g, cases h) (auto simp: grant_fields_def)

lemma decision_canonical_bytes_Allow [result_simps]:
  "decision_canonical_bytes r (Allow g d) = Inr b \<longleftrightarrow>
     (\<exists>c. canonical_grant g = Inr c
        \<and> b = lp_fields (request_fields r @ [''allow'', ''grant-present''] @ grant_fields c))"
  by (auto simp: decision_canonical_bytes_def Let_def result_simps canonical_simps
      request_fields_def grant_fields_def)

lemma decision_canonical_bytes_Deny [result_simps]:
  "decision_canonical_bytes r (Deny s) = Inr b \<longleftrightarrow>
     b = lp_fields (request_fields r @ [''deny'', safe_deny_reason_as_str s, ''grant-absent''])"
  by (auto simp: decision_canonical_bytes_def Let_def canonical_simps request_fields_def)

text \<open>The bytes a decision digest is taken over determine the whole request (tenant,
  principal, request and correlation identifiers and capability) and the decision up to the
  canonical form of the grant, so evidence of one decision can never be replayed for another
  request, another capability or another grant.\<close>

lemma decision_bytes_bind_request:
  assumes "decision_canonical_bytes r d = Inr b" and "decision_canonical_bytes r' d' = Inr b"
  shows "r = r' \<and> (case (d, d') of
      (Allow g _, Allow g' _) \<Rightarrow> canonical_grant g = canonical_grant g'
    | (Deny s, Deny s') \<Rightarrow> s = s'
    | _ \<Rightarrow> False)"
proof (cases d; cases d')
  fix g x g' x' assume d: "d = Allow g x" "d' = Allow g' x'"
  with assms obtain c c' where c: "canonical_grant g = Inr c" "canonical_grant g' = Inr c'"
    and eq: "request_fields r @ [''allow'', ''grant-present''] @ grant_fields c
           = request_fields r' @ [''allow'', ''grant-present''] @ grant_fields c'"
    by (auto simp: result_simps)
  from request_fields_inject [OF eq] have "r = r'" "grant_fields c = grant_fields c'" by auto
  with c d show ?thesis using grant_fields_inject by auto
next
  fix g x s assume "d = Allow g x" "d' = Deny s"
  with assms show ?thesis by (auto simp: result_simps dest: request_fields_inject)
next
  fix g x s assume "d = Deny s" "d' = Allow g x"
  with assms show ?thesis by (auto simp: result_simps dest: request_fields_inject)
next
  fix s s' assume "d = Deny s" "d' = Deny s'"
  with assms have "request_fields r @ [''deny'', safe_deny_reason_as_str s, ''grant-absent'']
      = request_fields r' @ [''deny'', safe_deny_reason_as_str s', ''grant-absent'']"
    by (simp only: result_simps) (simp only: lp_fields_inject)
  from request_fields_inject [OF this] \<open>d = Deny s\<close> \<open>d' = Deny s'\<close> show ?thesis
    by (cases s; cases s') simp
qed

definition sample_request :: "string \<Rightarrow> capability_v1 \<Rightarrow> authorization_request_v1" where
  "sample_request request_id capability =
     \<lparr>ar_context = \<lparr>tc_tenant_id = ''tenant'', tc_principal_id = ''principal'',
        tc_request_id = request_id, tc_correlation_id = ''correlation''\<rparr>,
      ar_capability = capability\<rparr>"

lemma decision_bytes_bind_request_witness:
  "\<not> (\<exists>b. decision_canonical_bytes (sample_request ''request'' AgentInvoke) deny_decision = Inr b
        \<and> decision_canonical_bytes (sample_request ''other'' AgentInvoke) deny_decision = Inr b)
   \<and> decision_canonical_bytes (sample_request ''request'' AgentInvoke) deny_decision
       = Inr (concat (map (\<lambda>l. l @ [CHR 0x0A]) [''18:policy-decision-v1'', ''6:tenant'',
           ''9:principal'', ''7:request'', ''11:correlation'', ''12:agent_invoke'', ''4:deny'',
           ''6:denied'', ''12:grant-absent'']))"
proof
  show "\<not> (\<exists>b. decision_canonical_bytes (sample_request ''request'' AgentInvoke) deny_decision = Inr b
        \<and> decision_canonical_bytes (sample_request ''other'' AgentInvoke) deny_decision = Inr b)"
    using decision_bytes_bind_request [of "sample_request ''request'' AgentInvoke" deny_decision _
        "sample_request ''other'' AgentInvoke" deny_decision]
    by (auto simp: sample_request_def)
qed code_simp

section \<open>The static resolver\<close>

definition resolver_ok :: "static_policy_resolver \<Rightarrow> bool" where
  "resolver_ok r \<longleftrightarrow> bt_ok r \<and> length r \<le> MAX_STATIC_GRANT_RECORDS
     \<and> (\<forall>g\<in>snd ` set r. canonical_grant g = Inr g)"

lemma try_fold_resolver_add:
  assumes "bt_ok r" and "length r \<le> MAX_STATIC_GRANT_RECORDS"
  shows "try_fold resolver_add r gs = Inr r' \<longleftrightarrow>
     (length r + length gs \<le> MAX_STATIC_GRANT_RECORDS \<and> distinct (map fst gs)
      \<and> (\<forall>k\<in>fst ` set gs. bt_get r k = None) \<and> (\<forall>g\<in>snd ` set gs. grant_ok g)
      \<and> r' = foldl (\<lambda>m e. bt_insert (fst e) (canonical_form (snd e)) m) r gs)"
  using assms
proof (induction gs arbitrary: r)
  case (Cons e gs)
  let ?c = "canonical_form (snd e)"
  have add: "resolver_add r e = Inr r1 \<longleftrightarrow> length r < MAX_STATIC_GRANT_RECORDS
      \<and> grant_ok (snd e) \<and> bt_get r (fst e) = None \<and> r1 = bt_insert (fst e) ?c r" for r1
    by (auto simp: resolver_add_def result_simps canonical_grant_Inr bt_contains_key_def
        split: if_splits)
  show ?case
  proof (cases "length r < MAX_STATIC_GRANT_RECORDS \<and> grant_ok (snd e) \<and> bt_get r (fst e) = None")
    case True
    let ?r1 = "bt_insert (fst e) ?c r"
    from True Cons.prems have r1: "bt_ok ?r1" "length ?r1 = Suc (length r)"
      by (simp_all add: length_bt_insert)
    have step: "try_fold resolver_add r (e # gs) = try_fold resolver_add ?r1 gs"
      using True by (simp add: add [THEN iffD2])
    have keys: "(\<forall>k\<in>fst ` set gs. bt_get ?r1 k = None) \<longleftrightarrow>
        fst e \<notin> fst ` set gs \<and> (\<forall>k\<in>fst ` set gs. bt_get r k = None)"
      unfolding bt_get_insert by (metis fun_upd_apply option.distinct(1))
    from True have "length ?r1 \<le> MAX_STATIC_GRANT_RECORDS" using r1(2) by simp
    from Cons.IH [OF r1(1) this] show ?thesis
      unfolding step keys r1(2) using True by auto
  next
    case False
    then have "\<nexists>r1. resolver_add r e = Inr r1" using add by blast
    then have "try_fold resolver_add r (e # gs) \<noteq> Inr r'" by (auto simp: result_simps)
    with False show ?thesis by auto
  qed
qed auto

lemma foldl_bt_insert_get:
  assumes "distinct (map fst gs)"
  shows "bt_get (foldl (\<lambda>m e. bt_insert (fst e) (f (snd e)) m) m gs) k =
     (case map_of gs k of None \<Rightarrow> bt_get m k | Some g \<Rightarrow> Some (f g))"
  using assms
proof (induction gs arbitrary: m)
  case (Cons e gs)
  then show ?case by (cases e) (auto split: option.splits dest: map_of_SomeD intro: rev_image_eqI)
qed simp

lemma static_policy_resolver_new_Inr:
  "static_policy_resolver_new gs = Inr r \<longleftrightarrow>
     (length gs \<le> MAX_STATIC_GRANT_RECORDS \<and> distinct (map fst gs)
      \<and> (\<forall>g\<in>snd ` set gs. grant_ok g)
      \<and> r = foldl (\<lambda>m e. bt_insert (fst e) (canonical_form (snd e)) m) [] gs)"
  by (simp add: static_policy_resolver_new_def try_fold_resolver_add)

lemma resolver_lookup:
  assumes "static_policy_resolver_new gs = Inr r"
  shows "bt_get r k = map_option canonical_form (map_of gs k)"
  using assms by (auto simp: static_policy_resolver_new_Inr
      foldl_bt_insert_get [where f = canonical_form]
      split: option.splits)

text \<open>The static resolver is built exactly from at most 1024 records with pairwise distinct
  keys and valid grants; any other configuration is an error.\<close>

lemma static_policy_resolver_new_ok:
  "is_ok (static_policy_resolver_new gs) \<longleftrightarrow>
     length gs \<le> 1024 \<and> distinct (map fst gs)
     \<and> list_all (\<lambda>entry. is_ok (canonical_grant (snd entry))) gs"
  by (auto simp: result_simps static_policy_resolver_new_Inr canonical_grant_Inr
      MAX_STATIC_GRANT_RECORDS_def list_all_iff)

text \<open>C19: A resolver built from a list of records decides by the record for exactly the request's
  tenant, principal and capability: without one it denies, and with one it allows that record's
  canonical grant under a digest that verifies against the request. No configured grant is
  silently turned into a denial.\<close>

theorem authorize_decides_by_record:
  assumes "static_policy_resolver_new gs = Inr r"
  shows "authorize H r req = (case map_of gs (request_grant_key req) of
      None \<Rightarrow> Deny Denied
    | Some g \<Rightarrow> let c = canonical_form g
        in Allow c (H (lp_fields (request_fields req @ [''allow'', ''grant-present''] @ grant_fields c))))
    \<and> (\<forall>c dg. authorize H r req = Allow c dg \<longrightarrow>
         canonical_grant c = Inr c \<and> decision_digest H req (Allow c dg) = Inr dg)"
proof -
  have allow: "allow_decision H req c = Inr (Allow c
      (H (lp_fields (request_fields req @ [''allow'', ''grant-present''] @ grant_fields c))))"
    and digest: "decision_digest H req (Allow c dg) = Inr
      (H (lp_fields (request_fields req @ [''allow'', ''grant-present''] @ grant_fields c)))"
    if "canonical_grant c = Inr c" for c dg
    using that by (auto simp: allow_decision_def decision_digest_def result_simps)
  show ?thesis
  proof (cases "map_of gs (request_grant_key req)")
    case None
    then show ?thesis by (simp add: authorize_def deny_decision_def resolver_lookup [OF assms])
  next
    case (Some g)
    let ?c = "canonical_form g"
    from Some have "g \<in> snd ` set gs" by (auto dest: map_of_SomeD intro: rev_image_eqI)
    with assms have "canonical_grant g = Inr ?c"
      by (auto simp: static_policy_resolver_new_Inr canonical_grant_Inr)
    then have c: "canonical_grant ?c = Inr ?c" using canonical_grant_ok by blast
    with Some show ?thesis
      by (auto simp: authorize_def resolver_lookup [OF assms] allow digest Let_def)
  qed
qed

definition sample_grant :: grant_v1 where
  "sample_grant = \<lparr>allowed_tool_ids = [''tool''], memory_enabled = True, knowledge_enabled = False,
     sandbox_execution_allowed = False, communication_allowed = False\<rparr>"

theorem authorize_decides_by_record_witness:
  "\<exists>dg r. static_policy_resolver_new
        [(GrantKeyV1 ''tenant'' ''principal'' AgentInvoke, sample_grant)] = Inr r
     \<and> authorize rev r (sample_request ''request'' AgentInvoke) = Allow sample_grant dg
     \<and> authorize rev r (sample_request ''request'' WorkflowStart) = Deny Denied"
proof -
  let ?gs = "[(GrantKeyV1 ''tenant'' ''principal'' AgentInvoke, sample_grant)]"
  let ?r = "[(GrantKeyV1 ''tenant'' ''principal'' AgentInvoke, sample_grant)]"
  have r: "static_policy_resolver_new ?gs = Inr ?r" by code_simp
  have "authorize rev ?r (sample_request ''request'' WorkflowStart) = Deny Denied"
    using authorize_decides_by_record [OF r, of rev "sample_request ''request'' WorkflowStart"]
    by (simp add: request_grant_key_def sample_request_def)
  moreover have "\<exists>dg. authorize rev ?r (sample_request ''request'' AgentInvoke) = Allow sample_grant dg"
    using authorize_decides_by_record [OF r, of rev "sample_request ''request'' AgentInvoke"]
    by (simp add: request_grant_key_def sample_request_def sample_grant_def canonical_form_def bs_collect_def Let_def)
  ultimately show ?thesis using r by blast
qed

end
