(* ===== verification/Storage.thy ===== *)
theory Storage
  imports Contracts
begin

text \<open>
  The storage crate: the bounded data model and its validation (\<open>storage/src/model.rs\<close>,
  \<open>storage/src/validation.rs\<close>), the configuration (\<open>storage/src/settings.rs\<close>) and the
  process-local adapter \<open>LocalObjectStore\<close> (\<open>storage/src/local.rs\<close>) with its cached quota
  counters, at their machine widths. Every operation of the adapter runs under one mutex, so
  an operation is a function from the store to a result and the new store.
\<close>

section \<open>Data\<close>

type_synonym bytes = "u8 list"

definition MAX_TENANT_ID_BYTES :: nat where "MAX_TENANT_ID_BYTES = 128"
definition MAX_NAMESPACE_BYTES :: nat where "MAX_NAMESPACE_BYTES = 128"
definition MAX_OBJECT_KEY_BYTES :: nat where "MAX_OBJECT_KEY_BYTES = 1024"
definition MAX_OBJECT_VALUE_BYTES :: nat where "MAX_OBJECT_VALUE_BYTES = 1048576"
definition MAX_LIST_LIMIT :: u32 where "MAX_LIST_LIMIT = 1000"
definition MAX_OBJECTS_PER_TENANT :: u64 where "MAX_OBJECTS_PER_TENANT = 100000"
definition MAX_VALUE_BYTES_PER_TENANT :: u64 where "MAX_VALUE_BYTES_PER_TENANT = 1073741824"
definition MAX_OBJECTS_GLOBAL :: u64 where "MAX_OBJECTS_GLOBAL = 1000000"
definition MAX_VALUE_BYTES_GLOBAL :: u64 where "MAX_VALUE_BYTES_GLOBAL = 8589934592"

datatype storage_error =
    InvalidTenantId | InvalidNamespace | InvalidObjectKey | InvalidValue | InvalidListLimit
  | InvalidLimits | LimitExceeded | RevisionExhausted | LockUnavailable | CorruptStore
  | OperationFailed

fun code :: "storage_error \<Rightarrow> string" where
  "code InvalidTenantId = ''invalid_tenant_id''"
| "code InvalidNamespace = ''invalid_namespace''"
| "code InvalidObjectKey = ''invalid_object_key''"
| "code InvalidValue = ''invalid_value''"
| "code InvalidListLimit = ''invalid_list_limit''"
| "code InvalidLimits = ''invalid_limits''"
| "code LimitExceeded = ''limit_exceeded''"
| "code RevisionExhausted = ''revision_exhausted''"
| "code LockUnavailable = ''lock_unavailable''"
| "code CorruptStore = ''corrupt_store''"
| "code OperationFailed = ''operation_failed''"

type_synonym tenant_id = string
type_synonym namespace_id = string
type_synonym object_key = bytes
type_synonym object_value = bytes
type_synonym object_version = u64

record storage_scope =
  sc_tenant_id :: tenant_id
  sc_namespace :: namespace_id

record list_request =
  after_key :: "object_key option"
  limit :: u32

datatype put_condition = PutAny | PutIfAbsent | PutIfVersion object_version
datatype delete_condition = DeleteAny | DeleteIfVersion object_version
datatype put_outcome = Created object_version | Replaced object_version | PutConflict
datatype delete_outcome = Deleted | NotFound | DeleteConflict

record stored_object =
  so_version :: object_version
  so_value :: object_value

record object_metadata =
  om_key :: object_key
  om_version :: object_version
  om_size_bytes :: u32

record list_page =
  lp_objects :: "object_metadata list"
  has_more :: bool

record storage_limits =
  max_objects_per_tenant :: u64
  max_value_bytes_per_tenant :: u64
  max_objects_global :: u64
  max_value_bytes_global :: u64

datatype persistence_guarantee = Volatile | CleanRestart | ImmediateCommit

record store_guarantees =
  persistence :: persistence_guarantee
  shared_across_processes :: bool
  per_operation_atomic :: bool
  conditional_writes :: bool
  eviction :: bool
  sg_limits :: storage_limits

section \<open>Validation and constructors\<close>

definition validate_logical_id :: "string \<Rightarrow> nat \<Rightarrow> storage_error \<Rightarrow> (unit, storage_error) result" where
  "validate_logical_id value maximum error =
     (case (try_from_nat (length value) :: 16 word option) of
        None \<Rightarrow> Inl error
      | Some len \<Rightarrow>
          if unat len = 0 \<or> unat len > maximum \<or> \<not> is_ascii_alphanumeric (hd value)
             \<or> \<not> list_all (\<lambda>b. is_ascii_alphanumeric b
                   \<or> b = CHR ''.'' \<or> b = CHR ''_'' \<or> b = CHR ''-'') value
          then Inl error else Inr ())"

definition validate_tenant_id :: "string \<Rightarrow> (unit, storage_error) result" where
  "validate_tenant_id value = validate_logical_id value MAX_TENANT_ID_BYTES InvalidTenantId"

definition validate_namespace :: "string \<Rightarrow> (unit, storage_error) result" where
  "validate_namespace value = validate_logical_id value MAX_NAMESPACE_BYTES InvalidNamespace"

definition validate_key :: "bytes \<Rightarrow> (16 word, storage_error) result" where
  "validate_key value =
     and_then (ok_or (try_from_nat (length value)) InvalidObjectKey) (\<lambda>len.
       if unat len = 0 \<or> unat len > MAX_OBJECT_KEY_BYTES then Inl InvalidObjectKey else Inr len)"

definition validate_value :: "bytes \<Rightarrow> (u32, storage_error) result" where
  "validate_value value =
     and_then (ok_or (try_from_nat (length value)) InvalidValue) (\<lambda>len.
       if unat len > MAX_OBJECT_VALUE_BYTES then Inl InvalidValue else Inr len)"

definition validate_limits :: "u64 \<Rightarrow> u64 \<Rightarrow> u64 \<Rightarrow> u64 \<Rightarrow> (unit, storage_error) result" where
  "validate_limits objects_tenant bytes_tenant objects_global bytes_global =
     (if objects_tenant = 0 \<or> objects_tenant > MAX_OBJECTS_PER_TENANT
         \<or> bytes_tenant = 0 \<or> bytes_tenant > MAX_VALUE_BYTES_PER_TENANT
         \<or> objects_global = 0 \<or> objects_global > MAX_OBJECTS_GLOBAL
         \<or> bytes_global = 0 \<or> bytes_global > MAX_VALUE_BYTES_GLOBAL
         \<or> objects_tenant > objects_global \<or> bytes_tenant > bytes_global
      then Inl InvalidLimits else Inr ())"

definition tenant_id_new :: "string \<Rightarrow> (tenant_id, storage_error) result" where
  "tenant_id_new value = and_then (validate_tenant_id value) (\<lambda>_. Inr value)"

definition namespace_new :: "string \<Rightarrow> (namespace_id, storage_error) result" where
  "namespace_new value = and_then (validate_namespace value) (\<lambda>_. Inr value)"

definition object_key_new :: "bytes \<Rightarrow> (object_key, storage_error) result" where
  "object_key_new value = and_then (validate_key value) (\<lambda>_. Inr value)"

definition object_key_minimum :: object_key where
  "object_key_minimum = [0]"

definition object_value_new :: "bytes \<Rightarrow> (object_value, storage_error) result" where
  "object_value_new value = and_then (validate_value value) (\<lambda>_. Inr value)"

definition from_revision :: "u64 \<Rightarrow> (object_version, storage_error) result" where
  "from_revision revision = (if revision = 0 then Inl CorruptStore else Inr revision)"

definition list_limit_new :: "u32 \<Rightarrow> (u32, storage_error) result" where
  "list_limit_new value =
     (if value = 0 \<or> value > MAX_LIST_LIMIT then Inl InvalidListLimit else Inr value)"

definition storage_limits_new :: "u64 \<Rightarrow> u64 \<Rightarrow> u64 \<Rightarrow> u64 \<Rightarrow> (storage_limits, storage_error) result"
where
  "storage_limits_new objects_tenant bytes_tenant objects_global bytes_global =
     and_then (validate_limits objects_tenant bytes_tenant objects_global bytes_global) (\<lambda>_.
       Inr \<lparr>max_objects_per_tenant = objects_tenant, max_value_bytes_per_tenant = bytes_tenant,
            max_objects_global = objects_global, max_value_bytes_global = bytes_global\<rparr>)"

section \<open>Settings\<close>

datatype storage_backend = Local | Redb

record storage_config_v1 =
  cfg_backend :: storage_backend
  cfg_max_objects_per_tenant :: u64
  cfg_max_value_bytes_per_tenant :: u64
  cfg_max_objects_global :: u64
  cfg_max_value_bytes_global :: u64

record storage_settings =
  st_backend :: storage_backend
  st_limits :: storage_limits

definition settings_try_from :: "storage_config_v1 \<Rightarrow> (storage_settings, storage_error) result" where
  "settings_try_from config =
     and_then (storage_limits_new (cfg_max_objects_per_tenant config)
         (cfg_max_value_bytes_per_tenant config) (cfg_max_objects_global config)
         (cfg_max_value_bytes_global config)) (\<lambda>limits.
       Inr \<lparr>st_backend = cfg_backend config, st_limits = limits\<rparr>)"

section \<open>The local adapter\<close>

type_synonym identity = "tenant_id \<times> namespace_id \<times> object_key"

record entry =
  e_version :: object_version
  e_value :: object_value

record counters =
  c_objects :: u64
  c_value_bytes :: u64

definition counters_default :: counters where
  "counters_default = \<lparr>c_objects = 0, c_value_bytes = 0\<rparr>"

record state =
  objects :: "(identity, entry) btree_map"
  revision :: u64
  tenants :: "(tenant_id, counters) btree_map"
  global :: counters

definition state_default :: state where
  "state_default = \<lparr>objects = [], revision = 0, tenants = [], global = counters_default\<rparr>"

record local_object_store =
  ls_state :: "state mutex"
  ls_limits :: storage_limits

definition local_object_store_new :: "storage_limits \<Rightarrow> local_object_store" where
  "local_object_store_new limits = \<lparr>ls_state = mutex_new state_default, ls_limits = limits\<rparr>"

definition identity_of :: "storage_scope \<Rightarrow> object_key \<Rightarrow> identity" where
  "identity_of scope key = (sc_tenant_id scope, sc_namespace scope, key)"

definition counter_update :: "counters \<Rightarrow> u64 \<Rightarrow> u64 \<Rightarrow> u64 \<Rightarrow> (counters, storage_error) result" where
  "counter_update c objs old_bytes new_bytes =
     and_then (ok_or (checked_sub (c_value_bytes c) old_bytes) OperationFailed) (\<lambda>rest.
       and_then (ok_or (checked_add rest new_bytes) LimitExceeded) (\<lambda>total.
         Inr \<lparr>c_objects = objs, c_value_bytes = total\<rparr>))"

definition checked_put_counters :: "storage_limits \<Rightarrow> counters \<Rightarrow> counters \<Rightarrow> u64 option \<Rightarrow> u64
    \<Rightarrow> (counters \<times> counters, storage_error) result" where
  "checked_put_counters limits tenant glob old_bytes new_bytes =
     and_then (if old_bytes \<noteq> None then Inr (c_objects tenant, c_objects glob)
       else and_then (ok_or (checked_add (c_objects tenant) 1) LimitExceeded) (\<lambda>t.
         and_then (ok_or (checked_add (c_objects glob) 1) LimitExceeded) (\<lambda>g. Inr (t, g))))
       (\<lambda>(tenant_objects, global_objects).
         let old = (case old_bytes of None \<Rightarrow> 0 | Some b \<Rightarrow> b) in
         and_then (counter_update tenant tenant_objects old new_bytes) (\<lambda>tenant'.
           and_then (counter_update glob global_objects old new_bytes) (\<lambda>global'.
             if c_objects tenant' > max_objects_per_tenant limits
                \<or> c_value_bytes tenant' > max_value_bytes_per_tenant limits
                \<or> c_objects global' > max_objects_global limits
                \<or> c_value_bytes global' > max_value_bytes_global limits
             then Inl LimitExceeded
             else Inr (tenant', global'))))"

definition put_condition_matches :: "put_condition \<Rightarrow> entry option \<Rightarrow> bool" where
  "put_condition_matches condition current =
     (case (condition, current) of
        (PutAny, _) \<Rightarrow> True
      | (PutIfAbsent, None) \<Rightarrow> True
      | (PutIfVersion expected, Some entry) \<Rightarrow> expected = e_version entry
      | _ \<Rightarrow> False)"

definition put_state :: "storage_limits \<Rightarrow> state \<Rightarrow> storage_scope \<Rightarrow> object_key \<Rightarrow> object_value
    \<Rightarrow> put_condition \<Rightarrow> (put_outcome \<times> state, storage_error) result" where
  "put_state limits s scope key value condition =
     (let ident = identity_of scope key; current = bt_get (objects s) ident in
      if \<not> put_condition_matches condition current then Inr (PutConflict, s)
      else
        and_then (ok_or (checked_add (revision s) 1) RevisionExhausted) (\<lambda>rev.
        and_then (from_revision rev) (\<lambda>version.
        and_then (case current of
            None \<Rightarrow> Inr None
          | Some entry \<Rightarrow> and_then (ok_or (try_from_nat (length (e_value entry))) OperationFailed)
              (\<lambda>b. Inr (Some b))) (\<lambda>old_bytes.
        and_then (ok_or (try_from_nat (length value)) OperationFailed) (\<lambda>new_bytes.
        let tenant = (case bt_get (tenants s) (sc_tenant_id scope) of
              None \<Rightarrow> counters_default | Some c \<Rightarrow> c) in
        and_then (checked_put_counters limits tenant (global s) old_bytes new_bytes)
          (\<lambda>(tenant', global').
          Inr (if current = None then Created version else Replaced version,
               s\<lparr>objects := bt_insert ident \<lparr>e_version = version, e_value = value\<rparr> (objects s),
                 tenants := bt_insert (sc_tenant_id scope) tenant' (tenants s),
                 global := global', revision := rev\<rparr>)))))))"

definition counter_release :: "counters \<Rightarrow> u64 \<Rightarrow> (counters, storage_error) result" where
  "counter_release c old_bytes =
     and_then (ok_or (checked_sub (c_objects c) 1) OperationFailed) (\<lambda>objs.
       and_then (ok_or (checked_sub (c_value_bytes c) old_bytes) OperationFailed) (\<lambda>bytes.
         Inr \<lparr>c_objects = objs, c_value_bytes = bytes\<rparr>))"

definition delete_state :: "state \<Rightarrow> storage_scope \<Rightarrow> object_key \<Rightarrow> delete_condition
    \<Rightarrow> (delete_outcome \<times> state, storage_error) result" where
  "delete_state s scope key condition =
     (let ident = identity_of scope key in
      case bt_get (objects s) ident of
        None \<Rightarrow> Inr (NotFound, s)
      | Some current \<Rightarrow>
          if (case condition of DeleteAny \<Rightarrow> False
                | DeleteIfVersion expected \<Rightarrow> expected \<noteq> e_version current)
          then Inr (DeleteConflict, s)
          else
            and_then (ok_or (try_from_nat (length (e_value current))) OperationFailed) (\<lambda>old_bytes.
            and_then (ok_or (bt_get (tenants s) (sc_tenant_id scope)) OperationFailed) (\<lambda>held.
            and_then (counter_release held old_bytes) (\<lambda>tenant.
            and_then (counter_release (global s) old_bytes) (\<lambda>global'.
            if c_objects tenant = 0 \<and> c_value_bytes tenant \<noteq> 0 then Inl OperationFailed
            else Inr (Deleted,
              s\<lparr>objects := bt_remove ident (objects s),
                tenants := (if c_objects tenant = 0 then bt_remove (sc_tenant_id scope) (tenants s)
                  else bt_insert (sc_tenant_id scope) tenant (tenants s)),
                global := global'\<rparr>))))))"

fun list_loop :: "storage_scope \<Rightarrow> nat \<Rightarrow> object_metadata list \<Rightarrow> (identity \<times> entry) list
    \<Rightarrow> (list_page, storage_error) result" where
  "list_loop scope lim acc [] = Inr \<lparr>lp_objects = acc, has_more = False\<rparr>"
| "list_loop scope lim acc (((tenant, namespace, key), entry) # rest) =
     (if tenant \<noteq> sc_tenant_id scope \<or> namespace \<noteq> sc_namespace scope
      then Inr \<lparr>lp_objects = acc, has_more = False\<rparr>
      else if length acc = lim then Inr \<lparr>lp_objects = acc, has_more = True\<rparr>
      else and_then (ok_or (try_from_nat (length (e_value entry))) OperationFailed) (\<lambda>size.
        list_loop scope lim
          (acc @ [\<lparr>om_key = key, om_version = e_version entry, om_size_bytes = size\<rparr>]) rest))"

definition list_state :: "state \<Rightarrow> storage_scope \<Rightarrow> list_request \<Rightarrow> (list_page, storage_error) result"
where
  "list_state s scope request =
     list_loop scope (unat (limit request)) []
       (filter (\<lambda>e. case after_key request of
            None \<Rightarrow> identity_of scope object_key_minimum \<le> fst e
          | Some key \<Rightarrow> identity_of scope key < fst e) (objects s))"

definition get_state :: "state \<Rightarrow> storage_scope \<Rightarrow> object_key \<Rightarrow> stored_object option" where
  "get_state s scope key = map_option (\<lambda>entry. \<lparr>so_version = e_version entry, so_value = e_value entry\<rparr>)
     (bt_get (objects s) (identity_of scope key))"

section \<open>The port's operations\<close>

definition get :: "local_object_store \<Rightarrow> storage_scope \<Rightarrow> object_key
    \<Rightarrow> (stored_object option, storage_error) result" where
  "get store scope key =
     and_then (lock (ls_state store) OperationFailed) (\<lambda>s. Inr (get_state s scope key))"

definition commit :: "local_object_store \<Rightarrow> ('a \<times> state, storage_error) result
    \<Rightarrow> ('a, storage_error) result \<times> local_object_store" where
  "commit store r = (case r of
      Inl e \<Rightarrow> (Inl e, store)
    | Inr (a, s) \<Rightarrow> (Inr a, store\<lparr>ls_state := (ls_state store)\<lparr>guarded := s\<rparr>\<rparr>))"

definition put :: "local_object_store \<Rightarrow> storage_scope \<Rightarrow> object_key \<Rightarrow> object_value \<Rightarrow> put_condition
    \<Rightarrow> (put_outcome, storage_error) result \<times> local_object_store" where
  "put store scope key value condition =
     commit store (and_then (lock (ls_state store) OperationFailed) (\<lambda>s.
       put_state (ls_limits store) s scope key value condition))"

definition delete :: "local_object_store \<Rightarrow> storage_scope \<Rightarrow> object_key \<Rightarrow> delete_condition
    \<Rightarrow> (delete_outcome, storage_error) result \<times> local_object_store" where
  "delete store scope key condition =
     commit store (and_then (lock (ls_state store) OperationFailed) (\<lambda>s.
       delete_state s scope key condition))"

definition list :: "local_object_store \<Rightarrow> storage_scope \<Rightarrow> list_request
    \<Rightarrow> (list_page, storage_error) result" where
  "list store scope request =
     and_then (lock (ls_state store) OperationFailed) (\<lambda>s. list_state s scope request)"

definition guarantees :: "local_object_store \<Rightarrow> store_guarantees" where
  "guarantees store = \<lparr>persistence = Volatile, shared_across_processes = False,
     per_operation_atomic = True, conditional_writes = True, eviction = False,
     sg_limits = ls_limits store\<rparr>"

end
