(* ===== verification/Storage_Proofs.thy ===== *)
theory Storage_Proofs
  imports Storage
begin

text \<open>
  Correctness of the local object store. The specification keeps the objects and the revision
  only and recomputes every quota from the objects; the adapter's cached counters refine it.
  The invariant ties the counters to the objects, the versions to the revision and the entries
  to their bounds, and the contract locales lift both to every history of calls.
\<close>

section \<open>The specification\<close>

definition total_bytes :: "(identity \<times> entry) list \<Rightarrow> nat" where
  "total_bytes es = sum_list (map (\<lambda>e. length (e_value (snd e))) es)"

definition tenant_entries :: "tenant_id \<Rightarrow> (identity \<times> entry) list \<Rightarrow> (identity \<times> entry) list" where
  "tenant_entries t es = filter (\<lambda>e. fst (fst e) = t) es"

definition fits :: "storage_limits \<Rightarrow> (identity \<times> entry) list \<Rightarrow> (identity \<times> entry) list \<Rightarrow> bool" where
  "fits limits of_tenant all \<longleftrightarrow>
     length of_tenant \<le> unat (max_objects_per_tenant limits)
     \<and> total_bytes of_tenant \<le> unat (max_value_bytes_per_tenant limits)
     \<and> length all \<le> unat (max_objects_global limits)
     \<and> total_bytes all \<le> unat (max_value_bytes_global limits)"

record spec_store =
  sp_limits :: storage_limits
  sp_objects :: "(identity, entry) btree_map"
  sp_revision :: u64

definition spec_put :: "spec_store \<Rightarrow> storage_scope \<Rightarrow> object_key \<Rightarrow> object_value \<Rightarrow> put_condition
    \<Rightarrow> (put_outcome, storage_error) result \<times> spec_store" where
  "spec_put sp scope key value condition =
     (let ident = identity_of scope key; current = bt_get (sp_objects sp) ident;
          version = sp_revision sp + 1;
          objs = bt_insert ident \<lparr>e_version = version, e_value = value\<rparr> (sp_objects sp) in
      if \<not> put_condition_matches condition current then (Inr PutConflict, sp)
      else if sp_revision sp = - 1 then (Inl RevisionExhausted, sp)
      else if \<not> fits (sp_limits sp) (tenant_entries (sc_tenant_id scope) objs) objs
      then (Inl LimitExceeded, sp)
      else (Inr (if current = None then Created version else Replaced version),
            sp\<lparr>sp_objects := objs, sp_revision := version\<rparr>))"

definition spec_delete :: "spec_store \<Rightarrow> storage_scope \<Rightarrow> object_key \<Rightarrow> delete_condition
    \<Rightarrow> (delete_outcome, storage_error) result \<times> spec_store" where
  "spec_delete sp scope key condition =
     (case bt_get (sp_objects sp) (identity_of scope key) of
        None \<Rightarrow> (Inr NotFound, sp)
      | Some current \<Rightarrow>
          if condition = DeleteAny \<or> condition = DeleteIfVersion (e_version current)
          then (Inr Deleted, sp\<lparr>sp_objects := bt_remove (identity_of scope key) (sp_objects sp)\<rparr>)
          else (Inr DeleteConflict, sp))"

definition scope_entries :: "storage_scope \<Rightarrow> object_key option \<Rightarrow> (identity \<times> entry) list
    \<Rightarrow> (identity \<times> entry) list" where
  "scope_entries scope after es = filter (\<lambda>((t, n, k), e).
     t = sc_tenant_id scope \<and> n = sc_namespace scope \<and> (case after of None \<Rightarrow> True | Some a \<Rightarrow> a < k)) es"

definition metadata :: "identity \<times> entry \<Rightarrow> object_metadata" where
  "metadata = (\<lambda>((t, n, k), e).
     \<lparr>om_key = k, om_version = e_version e, om_size_bytes = of_nat (length (e_value e))\<rparr>)"

definition spec_list :: "spec_store \<Rightarrow> storage_scope \<Rightarrow> list_request \<Rightarrow> list_page" where
  "spec_list sp scope request =
     (let es = scope_entries scope (after_key request) (sp_objects sp); lim = unat (limit request)
      in \<lparr>lp_objects = map metadata (take lim es), has_more = lim < length es\<rparr>)"

section \<open>The invariant\<close>

definition counts :: "counters \<Rightarrow> (identity \<times> entry) list \<Rightarrow> bool" where
  "counts c es \<longleftrightarrow> unat (c_objects c) = length es \<and> unat (c_value_bytes c) = total_bytes es"

definition entry_ok :: "u64 \<Rightarrow> identity \<times> entry \<Rightarrow> bool" where
  "entry_ok r = (\<lambda>((t, n, k), e). k \<noteq> [] \<and> length k \<le> MAX_OBJECT_KEY_BYTES
     \<and> length (e_value e) \<le> MAX_OBJECT_VALUE_BYTES \<and> 0 < e_version e \<and> e_version e \<le> r)"

definition state_inv :: "storage_limits \<Rightarrow> state \<Rightarrow> bool" where
  "state_inv limits s \<longleftrightarrow>
     bt_ok (objects s) \<and> bt_ok (tenants s)
     \<and> list_all (entry_ok (revision s)) (objects s)
     \<and> inj_on (\<lambda>e. e_version (snd e)) (set (objects s))
     \<and> counts (global s) (objects s)
     \<and> (\<forall>t. fits limits (tenant_entries t (objects s)) (objects s))
     \<and> (\<forall>t. case bt_get (tenants s) t of
           None \<Rightarrow> tenant_entries t (objects s) = []
         | Some c \<Rightarrow> tenant_entries t (objects s) \<noteq> [] \<and> counts c (tenant_entries t (objects s)))"

definition local_inv :: "local_object_store \<Rightarrow> bool" where
  "local_inv store \<longleftrightarrow> \<not> poisoned (ls_state store)
     \<and> state_inv (ls_limits store) (guarded (ls_state store))"

definition local_abs :: "local_object_store \<Rightarrow> spec_store" where
  "local_abs store = \<lparr>sp_limits = ls_limits store, sp_objects = objects (guarded (ls_state store)),
     sp_revision = revision (guarded (ls_state store))\<rparr>"

section \<open>Counters\<close>

lemma total_bytes_simps [simp]:
  "total_bytes [] = 0"
  "total_bytes (e # es) = length (e_value (snd e)) + total_bytes es"
  by (simp_all add: total_bytes_def)

lemma total_bytes_insert:
  "bt_ok es \<Longrightarrow> total_bytes (bt_insert k v es)
      + (case bt_get es k of None \<Rightarrow> 0 | Some w \<Rightarrow> length (e_value w))
    = total_bytes es + length (e_value v)"
  using sum_bt_insert [of es "\<lambda>e. length (e_value (snd e))" k v]
  by (simp add: total_bytes_def split: option.splits)

lemma total_bytes_remove:
  "bt_ok es \<Longrightarrow> bt_get es k = Some w \<Longrightarrow> total_bytes (bt_remove k es) + length (e_value w) = total_bytes es"
  using sum_bt_remove [of es "\<lambda>e. length (e_value (snd e))" k] by (simp add: total_bytes_def)

lemma tenant_entries_insert:
  "bt_ok es \<Longrightarrow> tenant_entries t (bt_insert k v es) =
     (if fst k = t then bt_insert k v (tenant_entries t es) else tenant_entries t es)"
  unfolding tenant_entries_def by (rule filter_bt_insert)

lemma tenant_entries_remove:
  "tenant_entries t (bt_remove k es) =
     (if fst k = t then bt_remove k (tenant_entries t es) else tenant_entries t es)"
  unfolding tenant_entries_def by (rule filter_bt_remove)

lemma tenant_entries_get:
  "bt_get (tenant_entries t es) k = (if fst k = t then bt_get es k else None)"
  unfolding tenant_entries_def by (rule bt_get_filter)

lemma bt_ok_tenant_entries [simp, intro]: "bt_ok es \<Longrightarrow> bt_ok (tenant_entries t es)"
  by (simp add: tenant_entries_def)

lemma total_bytes_tenant_entries: "total_bytes (tenant_entries t es) \<le> total_bytes es"
  by (induction es) (auto simp: tenant_entries_def)

lemma length_tenant_entries: "length (tenant_entries t es) \<le> length es"
  by (simp add: tenant_entries_def)

text \<open>
  One counter against the entries it counts, before and after a write: \<open>es'\<close> has \<open>new\<close> bytes
  where \<open>es\<close> had \<open>old\<close>, and one entry more exactly when the key is new.
\<close>

lemma counter_update_Inr:
  assumes "unat (c_value_bytes c) = total_bytes es"
    and "total_bytes es' + unat old = total_bytes es + unat new" and "unat old \<le> total_bytes es"
    and "counter_update c objs old new = Inr c'"
  shows "c_objects c' = objs \<and> unat (c_value_bytes c') = total_bytes es'"
  using assms by (auto simp: counter_update_def result_simps dest!: unat_checked_add unat_checked_sub)

lemma counter_update_Inl:
  assumes "unat (c_value_bytes c) = total_bytes es"
    and "total_bytes es' + unat old = total_bytes es + unat new" and "unat old \<le> total_bytes es"
    and "counter_update c objs old new = Inl e"
  shows "e = LimitExceeded \<and> 2 ^ 64 \<le> total_bytes es'"
  using assms
  by (auto simp: counter_update_def result_simps checked_simps word_less_nat_alt
      word_le_nat_alt unat_sub)

definition written :: "u64 option \<Rightarrow> u64 \<Rightarrow> (identity \<times> entry) list \<Rightarrow> (identity \<times> entry) list \<Rightarrow> bool" where
  "written old_bytes new es es' \<longleftrightarrow>
     length es' = length es + (case old_bytes of None \<Rightarrow> 1 | Some _ \<Rightarrow> 0)
     \<and> total_bytes es' + unat (case old_bytes of None \<Rightarrow> 0 | Some b \<Rightarrow> b) = total_bytes es + unat new
     \<and> unat (case old_bytes of None \<Rightarrow> 0 | Some b \<Rightarrow> b) \<le> total_bytes es"

definition object_counts :: "counters \<Rightarrow> counters \<Rightarrow> u64 option \<Rightarrow> (u64 \<times> u64, storage_error) result" where
  "object_counts t g ob =
     (if ob \<noteq> None then Inr (c_objects t, c_objects g)
      else and_then (ok_or (checked_add (c_objects t) 1) LimitExceeded) (\<lambda>t.
        and_then (ok_or (checked_add (c_objects g) 1) LimitExceeded) (\<lambda>g. Inr (t, g))))"

lemma object_counts_Inr:
  assumes "object_counts t g ob = Inr (n, m)" and "counts t T" and "counts g G"
    and "written ob nb T T'" and "written ob nb G G'"
  shows "unat n = length T' \<and> unat m = length G'"
  using assms
  by (auto simp: object_counts_def counts_def written_def result_simps split: if_splits option.splits
      dest!: unat_checked_add)

lemma object_counts_Inl:
  assumes "object_counts t g ob = Inl e" and "counts t T" and "counts g G"
    and "written ob nb T T'" and "written ob nb G G'"
  shows "e = LimitExceeded \<and> (2 ^ 64 \<le> length T' \<or> 2 ^ 64 \<le> length G')"
  using assms
  by (auto simp: object_counts_def counts_def written_def result_simps checked_simps
      split: if_splits option.splits)

lemma checked_put_counters_alt:
  "checked_put_counters limits t g ob nb =
     and_then (object_counts t g ob) (\<lambda>(n, m).
       let old = (case ob of None \<Rightarrow> 0 | Some b \<Rightarrow> b) in
       and_then (counter_update t n old nb) (\<lambda>t'.
         and_then (counter_update g m old nb) (\<lambda>g'.
           if c_objects t' > max_objects_per_tenant limits
              \<or> c_value_bytes t' > max_value_bytes_per_tenant limits
              \<or> c_objects g' > max_objects_global limits
              \<or> c_value_bytes g' > max_value_bytes_global limits
           then Inl LimitExceeded else Inr (t', g'))))"
  by (simp add: checked_put_counters_def object_counts_def)

lemma within_limits_iff:
  assumes "counts t T" and "counts g G"
  shows "(c_objects t > max_objects_per_tenant limits
       \<or> c_value_bytes t > max_value_bytes_per_tenant limits
       \<or> c_objects g > max_objects_global limits
       \<or> c_value_bytes g > max_value_bytes_global limits) \<longleftrightarrow> \<not> fits limits T G"
  using assms by (auto simp: counts_def fits_def word_less_nat_alt)

lemma overflow_not_fits:
  assumes "2 ^ 64 \<le> length T \<or> 2 ^ 64 \<le> length G \<or> 2 ^ 64 \<le> total_bytes T \<or> 2 ^ 64 \<le> total_bytes G"
  shows "\<not> fits limits T G"
  using assms unat_u64_less [of "max_objects_per_tenant limits"]
    unat_u64_less [of "max_value_bytes_per_tenant limits"]
    unat_u64_less [of "max_objects_global limits"] unat_u64_less [of "max_value_bytes_global limits"]
  by (auto simp: fits_def)

lemma checked_put_counters_correct:
  assumes "counts t T" and "counts g G" and "written ob nb T T'" and "written ob nb G G'"
  shows "if fits limits T' G'
    then \<exists>t' g'. checked_put_counters limits t g ob nb = Inr (t', g') \<and> counts t' T' \<and> counts g' G'
    else checked_put_counters limits t g ob nb = Inl LimitExceeded"
proof (cases "object_counts t g ob")
  case (Inl e)
  with object_counts_Inl [OF Inl assms] overflow_not_fits [of T' G' limits] show ?thesis
    by (auto simp: checked_put_counters_alt)
next
  case (Inr nm)
  then obtain n m where nm: "object_counts t g ob = Inr (n, m)" by (cases nm) auto
  let ?old = "case ob of None \<Rightarrow> 0 | Some b \<Rightarrow> b"
  from assms have T: "unat (c_value_bytes t) = total_bytes T"
      "total_bytes T' + unat ?old = total_bytes T + unat nb" "unat ?old \<le> total_bytes T"
    and G: "unat (c_value_bytes g) = total_bytes G"
      "total_bytes G' + unat ?old = total_bytes G + unat nb" "unat ?old \<le> total_bytes G"
    by (auto simp: counts_def written_def)
  show ?thesis
  proof (cases "counter_update t n ?old nb")
    case (Inl e)
    from counter_update_Inl [OF T Inl] overflow_not_fits [of T' G' limits] nm Inl show ?thesis
      by (auto simp: checked_put_counters_alt)
  next
    case t': (Inr t')
    show ?thesis
    proof (cases "counter_update g m ?old nb")
      case (Inl e)
      from counter_update_Inl [OF G Inl] overflow_not_fits [of T' G' limits] nm t' Inl show ?thesis
        by (auto simp: checked_put_counters_alt)
    next
      case g': (Inr g')
      have "counts t' T'" "counts g' G'"
        using object_counts_Inr [OF nm assms] counter_update_Inr [OF T t'] counter_update_Inr [OF G g']
        by (auto simp: counts_def)
      with within_limits_iff [OF this, of limits] nm t' g' show ?thesis
        by (simp add: checked_put_counters_alt)
    qed
  qed
qed

lemma counter_release_correct:
  assumes "counts c es" and "bt_ok es" and "bt_get es k = Some w"
    and "try_from_nat (length (e_value w)) = Some (ob :: u64)"
  shows "\<exists>c'. counter_release c ob = Inr c' \<and> counts c' (bt_remove k es)"
proof -
  from assms have "Suc 0 \<le> length es" by (cases es) auto
  moreover have "length (e_value w) \<le> total_bytes es"
    using total_bytes_remove [OF assms(2,3)] by simp
  ultimately have "checked_sub (c_objects c) 1 = Some (c_objects c - 1)"
      "checked_sub (c_value_bytes c) ob = Some (c_value_bytes c - ob)"
    using assms(1) unat_try_from_nat [OF assms(4)]
    by (auto simp: counts_def checked_simps word_le_nat_alt)
  then show ?thesis
    using assms total_bytes_remove [OF assms(2,3)] unat_try_from_nat [OF assms(4)]
    by (auto simp: counter_release_def counts_def length_bt_remove dest!: unat_checked_sub)
qed

section \<open>Writes and deletions\<close>

lemma try_from_value [simp]:
  "length v \<le> MAX_OBJECT_VALUE_BYTES \<Longrightarrow> try_from_nat (length v) = Some (of_nat (length v) :: u64)"
  by (simp add: try_from_nat_def MAX_OBJECT_VALUE_BYTES_def)

lemma unat_of_value [simp]:
  "length v \<le> MAX_OBJECT_VALUE_BYTES \<Longrightarrow> unat (of_nat (length v) :: u64) = length v"
  by (simp add: MAX_OBJECT_VALUE_BYTES_def unat_of_nat)

lemma written_insert:
  assumes "bt_ok es" and "length (e_value v) \<le> MAX_OBJECT_VALUE_BYTES"
    and "\<And>w. bt_get es k = Some w \<Longrightarrow> length (e_value w) \<le> MAX_OBJECT_VALUE_BYTES"
  shows "written (map_option (\<lambda>w. of_nat (length (e_value w))) (bt_get es k))
    (of_nat (length (e_value v))) es (bt_insert k v es)"
  using total_bytes_insert [OF assms(1), of k v] sum_bt_get [of es k _ "\<lambda>e. length (e_value (snd e))"] assms
  by (cases "bt_get es k") (auto simp: written_def length_bt_insert total_bytes_def)

lemma state_inv_current:
  assumes "state_inv limits s" and "bt_get (objects s) k = Some w"
  shows "length (e_value w) \<le> MAX_OBJECT_VALUE_BYTES" and "e_version w \<le> revision s" and "0 < e_version w"
  using assms map_of_SomeD [OF assms(2)]
  by (cases k; force simp: state_inv_def list_all_iff entry_ok_def)+

lemma checked_add_one:
  "checked_add (r :: u64) 1 = (if r = - 1 then None else Some (r + 1))"
proof -
  have "unat (- 1 :: u64) = 18446744073709551615"
    by (simp add: unsigned_minus_1_eq_mask mask_eq_exp_minus_1)
  then have "unat r + 1 < 18446744073709551616 \<longleftrightarrow> r \<noteq> - 1"
    using unat_u64_less [of r] by (auto simp: word_unat_eq_iff)
  then show ?thesis by (simp add: checked_add_def)
qed

lemma succ_nonzero: "(r :: u64) \<noteq> - 1 \<Longrightarrow> r + 1 \<noteq> 0"
  by (metis add_eq_0_iff2)

text \<open>The counters a write looks at count the entries it is going to change.\<close>

lemma tenant_counts:
  assumes "state_inv limits s"
  shows "counts (case bt_get (tenants s) t of None \<Rightarrow> counters_default | Some c \<Rightarrow> c)
    (tenant_entries t (objects s))"
proof -
  from assms have "case bt_get (tenants s) t of None \<Rightarrow> tenant_entries t (objects s) = []
    | Some c \<Rightarrow> tenant_entries t (objects s) \<noteq> [] \<and> counts c (tenant_entries t (objects s))"
    by (simp add: state_inv_def)
  then show ?thesis
    by (cases "bt_get (tenants s) t") (simp_all add: counts_def counters_default_def)
qed

definition counters_of :: "(identity \<times> entry) list \<Rightarrow> counters" where
  "counters_of es = \<lparr>c_objects = of_nat (length es), c_value_bytes = of_nat (total_bytes es)\<rparr>"

lemma counts_unique: "counts c es \<Longrightarrow> c = counters_of es"
  by (auto simp: counts_def counters_of_def intro!: counters.equality dest!: sym [of "unat _"])

lemma put_state_correct:
  fixes scope key
  assumes inv: "state_inv limits s" and val: "length value \<le> MAX_OBJECT_VALUE_BYTES"
  defines "ident \<equiv> identity_of scope key" and "t \<equiv> sc_tenant_id scope"
  defines "objs \<equiv> bt_insert ident \<lparr>e_version = revision s + 1, e_value = value\<rparr> (objects s)"
  shows "put_state limits s scope key value condition =
    (if \<not> put_condition_matches condition (bt_get (objects s) ident) then Inr (PutConflict, s)
     else if revision s = - 1 then Inl RevisionExhausted
     else if \<not> fits limits (tenant_entries t objs) objs then Inl LimitExceeded
     else Inr (if bt_get (objects s) ident = None then Created (revision s + 1)
                 else Replaced (revision s + 1),
       s\<lparr>objects := objs, revision := revision s + 1,
         tenants := bt_insert t (counters_of (tenant_entries t objs)) (tenants s),
         global := counters_of objs\<rparr>))"
proof -
  let ?cur = "bt_get (objects s) ident"
  let ?ob = "map_option (\<lambda>w. of_nat (length (e_value w)) :: u64) ?cur"
  let ?tc = "case bt_get (tenants s) t of None \<Rightarrow> counters_default | Some c \<Rightarrow> c"
  have ok: "bt_ok (objects s)" and g: "counts (global s) (objects s)"
    using inv by (auto simp: state_inv_def)
  have fst_ident: "fst ident = t" by (simp add: ident_def t_def identity_of_def)
  have old: "try_from_nat (length (e_value w)) = Some (of_nat (length (e_value w)) :: u64)"
    if "?cur = Some w" for w
    using state_inv_current(1) [OF inv that] by simp
  have W: "written ?ob (of_nat (length value)) (objects s) objs"
    unfolding objs_def using written_insert [OF ok, of "\<lparr>e_version = revision s + 1, e_value = value\<rparr>" ident]
      val state_inv_current(1) [OF inv] by simp
  have Wt: "written ?ob (of_nat (length value)) (tenant_entries t (objects s)) (tenant_entries t objs)"
    using written_insert [OF bt_ok_tenant_entries [OF ok, of t],
        of "\<lparr>e_version = revision s + 1, e_value = value\<rparr>" ident]
      val state_inv_current(1) [OF inv]
    by (simp add: objs_def tenant_entries_insert [OF ok] tenant_entries_get fst_ident)
  have C: "if fits limits (tenant_entries t objs) objs
      then \<exists>t' g'. checked_put_counters limits ?tc (global s) ?ob (of_nat (length value)) = Inr (t', g')
        \<and> counts t' (tenant_entries t objs) \<and> counts g' objs
      else checked_put_counters limits ?tc (global s) ?ob (of_nat (length value)) = Inl LimitExceeded"
    by (rule checked_put_counters_correct [OF tenant_counts [OF inv] g Wt W])
  show ?thesis
    using C val
    by (auto simp: put_state_def Let_def checked_add_one from_revision_def succ_nonzero
        old ident_def [symmetric] t_def [symmetric] objs_def [symmetric]
        split: if_splits dest!: counts_unique)
qed

lemma fits_in_words:
  assumes "fits limits T G"
  shows "length T < 2 ^ 64" "length G < 2 ^ 64" "total_bytes T < 2 ^ 64" "total_bytes G < 2 ^ 64"
  using assms overflow_not_fits [of T G limits] by (meson not_le)+

lemma counts_counters_of: "fits limits T G \<Longrightarrow> counts (counters_of T) T \<and> counts (counters_of G) G"
  using fits_in_words [of limits T G] by (simp add: counts_def counters_of_def unat_of_nat)

lemma state_invD:
  assumes "state_inv limits s"
  shows "bt_ok (objects s)" "bt_ok (tenants s)" "list_all (entry_ok (revision s)) (objects s)"
    "inj_on (\<lambda>e. e_version (snd e)) (set (objects s))" "counts (global s) (objects s)"
    "fits limits (tenant_entries t (objects s)) (objects s)"
    "bt_get (tenants s) t = None \<Longrightarrow> tenant_entries t (objects s) = []"
    "bt_get (tenants s) t = Some c \<Longrightarrow>
       tenant_entries t (objects s) \<noteq> [] \<and> counts c (tenant_entries t (objects s))"
  using assms by (auto simp: state_inv_def split: option.splits dest: spec [of _ t])

lemma entry_ok_mono: "entry_ok r e \<Longrightarrow> r \<le> r' \<Longrightarrow> entry_ok r' e"
  by (cases e) (auto simp: entry_ok_def)

lemma succ_greater: "(r :: u64) \<noteq> - 1 \<Longrightarrow> r < r + 1"
  using checked_add_one [of r] by (auto simp: checked_simps word_less_nat_alt unat_word_ariths)

lemma put_state_inv:
  fixes scope key
  assumes inv: "state_inv limits s" and key: "key \<noteq> []" "length key \<le> MAX_OBJECT_KEY_BYTES"
    and val: "length value \<le> MAX_OBJECT_VALUE_BYTES"
    and put: "put_state limits s scope key value condition = Inr (r, s')"
  shows "state_inv limits s'"
proof (cases "r = PutConflict")
  case True
  with put inv show ?thesis
    by (simp add: put_state_correct [OF inv val] split: if_splits)
next
  case False
  define t where "t = sc_tenant_id scope"
  define ident where "ident = identity_of scope key"
  define v where "v = \<lparr>e_version = revision s + 1, e_value = value\<rparr>"
  define objs where "objs = bt_insert ident v (objects s)"
  from put False have rev: "revision s \<noteq> - 1" and fit: "fits limits (tenant_entries t objs) objs"
    and s': "s' = s\<lparr>objects := objs, revision := revision s + 1,
         tenants := bt_insert t (counters_of (tenant_entries t objs)) (tenants s),
         global := counters_of objs\<rparr>"
    by (auto simp: put_state_correct [OF inv val] t_def ident_def v_def objs_def split: if_splits)
  note old = state_invD [OF inv]
  have fst_ident: "fst ident = t" by (simp add: ident_def t_def identity_of_def)
  have set_objs: "set objs = insert (ident, v) {e \<in> set (objects s). fst e \<noteq> ident}"
    unfolding objs_def by (rule set_bt_insert [OF old(1)])
  have below: "e_version (snd e) < revision s + 1" if "e \<in> set (objects s)" for e
    using that old(3) succ_greater [OF rev] by (force simp: list_all_iff entry_ok_def)
  have "entry_ok (revision s + 1) (ident, v)"
    using key val succ_greater [OF rev] succ_nonzero [OF rev]
    by (simp add: entry_ok_def ident_def identity_of_def v_def word_neq_0_conv)
  then have "list_all (entry_ok (revision s + 1)) objs"
    using old(3) entry_ok_mono succ_greater [OF rev] by (fastforce simp: list_all_iff set_objs)
  moreover have "inj_on (\<lambda>e. e_version (snd e)) (set objs)"
    using old(4) below by (force simp: set_objs inj_on_def v_def)
  moreover have others: "tenant_entries u objs = tenant_entries u (objects s)" if "u \<noteq> t" for u
    using that fst_ident by (simp add: objs_def tenant_entries_insert [OF old(1)])
  then have "fits limits (tenant_entries u objs) objs" for u
    using fit old(6) [of u] by (cases "u = t") (auto simp: fits_def)
  moreover have "tenant_entries t objs \<noteq> []"
    by (simp add: objs_def tenant_entries_insert [OF old(1)] fst_ident)
  ultimately show ?thesis
    using old counts_counters_of [OF fit] others
    by (auto simp: state_inv_def s' objs_def [symmetric] split: option.splits)
      (simp_all add: objs_def)
qed

lemma delete_state_correct:
  fixes scope key
  assumes inv: "state_inv limits s"
  defines "ident \<equiv> identity_of scope key" and "t \<equiv> sc_tenant_id scope"
  defines "objs \<equiv> bt_remove ident (objects s)"
  shows "delete_state s scope key condition =
    (case bt_get (objects s) ident of
       None \<Rightarrow> Inr (NotFound, s)
     | Some current \<Rightarrow>
         if condition = DeleteAny \<or> condition = DeleteIfVersion (e_version current)
         then Inr (Deleted, s\<lparr>objects := objs,
           tenants := (if tenant_entries t objs = [] then bt_remove t (tenants s)
             else bt_insert t (counters_of (tenant_entries t objs)) (tenants s)),
           global := counters_of objs\<rparr>)
         else Inr (DeleteConflict, s))"
proof (cases "bt_get (objects s) ident")
  case None
  then show ?thesis by (simp add: delete_state_def ident_def)
next
  case (Some w)
  note old = state_invD [OF inv]
  let ?ob = "of_nat (length (e_value w)) :: u64"
  have fst_ident: "fst ident = t" by (simp add: ident_def t_def identity_of_def)
  have size: "try_from_nat (length (e_value w)) = Some ?ob"
    using state_inv_current(1) [OF inv Some] by simp
  have getT: "bt_get (tenant_entries t (objects s)) ident = Some w"
    by (simp add: tenant_entries_get fst_ident Some)
  then have "tenant_entries t (objects s) \<noteq> []" by auto
  with old(7) [of t] old(8) [of t] obtain c where c: "bt_get (tenants s) t = Some c"
    "counts c (tenant_entries t (objects s))" by (cases "bt_get (tenants s) t") auto
  from counter_release_correct [OF c(2) bt_ok_tenant_entries [OF old(1)] getT size]
  obtain c' where c': "counter_release c ?ob = Inr c'" "counts c' (tenant_entries t objs)"
    by (auto simp: objs_def tenant_entries_remove fst_ident)
  from counter_release_correct [OF old(5,1) Some size]
  obtain g' where g': "counter_release (global s) ?ob = Inr g'" "counts g' objs"
    by (auto simp: objs_def)
  have zero: "c_objects c' = 0 \<longleftrightarrow> tenant_entries t objs = []" "c_objects c' = 0 \<Longrightarrow> c_value_bytes c' = 0"
    using c'(2) by (auto simp: counts_def unat_eq_zero)
  have "delete_state s scope key condition =
    (if (case condition of DeleteAny \<Rightarrow> False | DeleteIfVersion expected \<Rightarrow> expected \<noteq> e_version w)
     then Inr (DeleteConflict, s)
     else Inr (Deleted, s\<lparr>objects := objs,
        tenants := (if c_objects c' = 0 then bt_remove t (tenants s) else bt_insert t c' (tenants s)),
        global := g'\<rparr>))"
    using zero(2) by (auto simp: delete_state_def Let_def Some size c(1) c'(1) g'(1)
        ident_def [symmetric] t_def [symmetric] objs_def [symmetric])
  then show ?thesis
    using zero(1) counts_unique [OF c'(2)] counts_unique [OF g'(2)]
    by (auto simp: Some split: delete_condition.splits)
qed

lemma delete_state_inv:
  assumes inv: "state_inv limits s" and del: "delete_state s scope key condition = Inr (r, s')"
  shows "state_inv limits s'"
proof (cases "r = Deleted")
  case False
  with del inv show ?thesis
    by (simp add: delete_state_correct [OF inv] split: option.splits if_splits)
next
  case True
  define t where "t = sc_tenant_id scope"
  define ident where "ident = identity_of scope key"
  define objs where "objs = bt_remove ident (objects s)"
  from del True have s': "s' = s\<lparr>objects := objs,
      tenants := (if tenant_entries t objs = [] then bt_remove t (tenants s)
        else bt_insert t (counters_of (tenant_entries t objs)) (tenants s)),
      global := counters_of objs\<rparr>"
    by (auto simp: delete_state_correct [OF inv] t_def ident_def objs_def
        split: option.splits if_splits)
  note old = state_invD [OF inv]
  have fst_ident: "fst ident = t" by (simp add: ident_def t_def identity_of_def)
  have sub: "set objs \<subseteq> set (objects s)" by (auto simp: objs_def set_bt_remove)
  have ok: "bt_ok objs" by (simp add: objs_def old(1))
  have others: "tenant_entries u objs = tenant_entries u (objects s)" if "u \<noteq> t" for u
    using that fst_ident by (simp add: objs_def tenant_entries_remove)
  have shrink: "length (bt_remove ident es) \<le> length es \<and> total_bytes (bt_remove ident es) \<le> total_bytes es"
    for es :: "(identity \<times> entry) list"
    by (induction es) (auto simp: bt_remove_def le_SucI)
  have fits: "fits limits (tenant_entries u objs) objs" for u
    using old(6) [of u] shrink [of "objects s"] shrink [of "tenant_entries u (objects s)"]
    by (auto simp: fits_def objs_def tenant_entries_remove fst_ident)
  have "list_all (entry_ok (revision s)) objs" "inj_on (\<lambda>e. e_version (snd e)) (set objs)"
    using old(3,4) sub by (auto simp: list_all_iff intro: inj_on_subset)
  then show ?thesis
    using ok old(2,7,8) fits counts_counters_of [OF fits] others
    by (auto simp: state_inv_def s' split: option.splits)
qed

section \<open>Listing\<close>

definition in_scope :: "storage_scope \<Rightarrow> identity \<times> entry \<Rightarrow> bool" where
  "in_scope scope = (\<lambda>((t, n, k), e). t = sc_tenant_id scope \<and> n = sc_namespace scope)"

lemma list_loop_correct:
  assumes "list_all (\<lambda>e. length (e_value (snd e)) \<le> MAX_OBJECT_VALUE_BYTES) es" and "length acc \<le> lim"
  shows "list_loop scope lim acc es =
    Inr \<lparr>lp_objects = acc @ map metadata (take (lim - length acc) (takeWhile (in_scope scope) es)),
         has_more = lim - length acc < length (takeWhile (in_scope scope) es)\<rparr>"
  using assms
proof (induction scope lim acc es rule: list_loop.induct)
  case (2 scope lim acc t n k e rest)
  have size: "try_from_nat (length (e_value e)) = Some (of_nat (length (e_value e)) :: u32)"
    using "2.prems"(1) by (simp add: try_from_nat_def MAX_OBJECT_VALUE_BYTES_def)
  show ?case
  proof (cases "in_scope scope ((t, n, k), e) \<and> length acc < lim")
    case True
    then have "lim - length acc = Suc (lim - Suc (length acc))" by arith
    with True "2.IH" "2.prems" size show ?thesis by (auto simp: in_scope_def metadata_def)
  next
    case False
    with "2.prems" show ?thesis by (auto simp: in_scope_def)
  qed
qed simp

lemma identity_group_mono: "mono (\<lambda>i :: identity. (fst i, fst (snd i)))"
  by (rule monoI) (auto simp: less_eq_prod_def less_prod_def)

lemma object_key_minimum_le: "k \<noteq> [] \<Longrightarrow> object_key_minimum \<le> k"
  by (cases k) (auto simp: object_key_minimum_def word_neq_0_conv)

lemma list_state_correct:
  assumes inv: "state_inv limits s"
  shows "list_state s scope request =
    Inr (let es = scope_entries scope (after_key request) (objects s); lim = unat (limit request)
         in \<lparr>lp_objects = map metadata (take lim es), has_more = lim < length es\<rparr>)"
proof -
  let ?b = "(sc_tenant_id scope, sc_namespace scope)"
  let ?g = "\<lambda>i :: identity. (fst i, fst (snd i))"
  let ?P = "\<lambda>e :: identity \<times> entry. case after_key request of
      None \<Rightarrow> identity_of scope object_key_minimum \<le> fst e | Some key \<Rightarrow> identity_of scope key < fst e"
  note old = state_invD [OF inv]
  have group: "in_scope scope = (\<lambda>e. ?g (fst e) = ?b)" by (auto simp: in_scope_def fun_eq_iff)
  have "takeWhile (in_scope scope) (filter ?P (objects s)) = filter (in_scope scope) (filter ?P (objects s))"
    unfolding group
  proof (rule takeWhile_group [OF bt_ok_filter [OF old(1)] identity_group_mono])
    fix e assume "e \<in> set (filter ?P (objects s))"
    then have "?P e" by simp
    moreover obtain t n k v where "e = ((t, n, k), v)" by (metis surj_pair)
    ultimately show "?b \<le> ?g (fst e)"
      by (auto simp: identity_of_def less_eq_prod_def less_prod_def split: option.splits)
  qed
  also have "\<dots> = scope_entries scope (after_key request) (objects s)"
  proof -
    have "(?P e \<and> in_scope scope e) = (case e of ((t, n, k), v) \<Rightarrow> t = sc_tenant_id scope
        \<and> n = sc_namespace scope \<and> (case after_key request of None \<Rightarrow> True | Some a \<Rightarrow> a < k))"
      if "e \<in> set (objects s)" for e
    proof -
      obtain t n k v where e: "e = ((t, n, k), v)" by (metis surj_pair)
      with that old(3) have "k \<noteq> []" by (auto simp: list_all_iff entry_ok_def)
      from object_key_minimum_le [OF this] show ?thesis
        by (auto simp: e in_scope_def identity_of_def less_eq_prod_def less_prod_def split: option.splits)
    qed
    then show ?thesis unfolding scope_entries_def filter_filter by (intro filter_cong) auto
  qed
  finally have scoped: "takeWhile (in_scope scope) (filter ?P (objects s))
    = scope_entries scope (after_key request) (objects s)" .
  have "list_all (\<lambda>e. length (e_value (snd e)) \<le> MAX_OBJECT_VALUE_BYTES) (filter ?P (objects s))"
    using old(3) by (auto simp: list_all_iff entry_ok_def)
  from list_loop_correct [OF this, of "[]"] show ?thesis
    by (simp add: list_state_def scoped Let_def)
qed

section \<open>Histories\<close>

text \<open>
  A caller's operation carries raw strings and bytes; the model types are built by their
  constructors first, and a constructor's error is the operation's result.
\<close>

datatype storage_op =
    OpGet string string bytes
  | OpPut string string bytes bytes put_condition
  | OpDelete string string bytes delete_condition
  | OpList string string "bytes option" u32

datatype storage_call =
    CallGet storage_scope object_key
  | CallPut storage_scope object_key object_value put_condition
  | CallDelete storage_scope object_key delete_condition
  | CallList storage_scope list_request

datatype storage_reply =
    GetReply "stored_object option"
  | PutReply put_outcome
  | DeleteReply delete_outcome
  | ListReply list_page

definition scope_of :: "string \<Rightarrow> string \<Rightarrow> (storage_scope, storage_error) result" where
  "scope_of tenant namespace =
     and_then (tenant_id_new tenant) (\<lambda>t. and_then (namespace_new namespace) (\<lambda>n.
       Inr \<lparr>sc_tenant_id = t, sc_namespace = n\<rparr>))"

fun call_of :: "storage_op \<Rightarrow> (storage_call, storage_error) result" where
  "call_of (OpGet t n k) =
     and_then (scope_of t n) (\<lambda>sc. and_then (object_key_new k) (\<lambda>key. Inr (CallGet sc key)))"
| "call_of (OpPut t n k v c) =
     and_then (scope_of t n) (\<lambda>sc. and_then (object_key_new k) (\<lambda>key.
       and_then (object_value_new v) (\<lambda>value. Inr (CallPut sc key value c))))"
| "call_of (OpDelete t n k c) =
     and_then (scope_of t n) (\<lambda>sc. and_then (object_key_new k) (\<lambda>key. Inr (CallDelete sc key c)))"
| "call_of (OpList t n a l) =
     and_then (scope_of t n) (\<lambda>sc.
       and_then (case a of None \<Rightarrow> Inr None | Some k \<Rightarrow> and_then (object_key_new k) (\<lambda>key. Inr (Some key)))
         (\<lambda>after. and_then (list_limit_new l) (\<lambda>lim.
           Inr (CallList sc \<lparr>after_key = after, limit = lim\<rparr>))))"

fun storage_perform :: "local_object_store \<Rightarrow> storage_call
    \<Rightarrow> (storage_reply, storage_error) result \<times> local_object_store" where
  "storage_perform store (CallGet sc k) = (and_then (get store sc k) (\<lambda>r. Inr (GetReply r)), store)"
| "storage_perform store (CallPut sc k v c) =
     (let (r, store') = put store sc k v c in (and_then r (\<lambda>r. Inr (PutReply r)), store'))"
| "storage_perform store (CallDelete sc k c) =
     (let (r, store') = delete store sc k c in (and_then r (\<lambda>r. Inr (DeleteReply r)), store'))"
| "storage_perform store (CallList sc req) = (and_then (list store sc req) (\<lambda>r. Inr (ListReply r)), store)"

fun spec_perform :: "spec_store \<Rightarrow> storage_call \<Rightarrow> (storage_reply, storage_error) result \<times> spec_store"
where
  "spec_perform sp (CallGet sc k) =
     (Inr (GetReply (map_option (\<lambda>e. \<lparr>so_version = e_version e, so_value = e_value e\<rparr>)
        (bt_get (sp_objects sp) (identity_of sc k)))), sp)"
| "spec_perform sp (CallPut sc k v c) =
     (let (r, sp') = spec_put sp sc k v c in (and_then r (\<lambda>r. Inr (PutReply r)), sp'))"
| "spec_perform sp (CallDelete sc k c) =
     (let (r, sp') = spec_delete sp sc k c in (and_then r (\<lambda>r. Inr (DeleteReply r)), sp'))"
| "spec_perform sp (CallList sc req) = (Inr (ListReply (spec_list sp sc req)), sp)"

definition storage_step :: "local_object_store \<Rightarrow> storage_op
    \<Rightarrow> (storage_reply, storage_error) result \<times> local_object_store" where
  "storage_step store op = (case call_of op of Inl e \<Rightarrow> (Inl e, store) | Inr c \<Rightarrow> storage_perform store c)"

definition spec_step :: "spec_store \<Rightarrow> storage_op \<Rightarrow> (storage_reply, storage_error) result \<times> spec_store"
where
  "spec_step sp op = (case call_of op of Inl e \<Rightarrow> (Inl e, sp) | Inr c \<Rightarrow> spec_perform sp c)"

definition spec_new :: "storage_limits \<Rightarrow> spec_store" where
  "spec_new limits = \<lparr>sp_limits = limits, sp_objects = [], sp_revision = 0\<rparr>"

fun call_ok :: "storage_call \<Rightarrow> bool" where
  "call_ok (CallPut sc k v c) \<longleftrightarrow>
     k \<noteq> [] \<and> length k \<le> MAX_OBJECT_KEY_BYTES \<and> length v \<le> MAX_OBJECT_VALUE_BYTES"
| "call_ok _ \<longleftrightarrow> True"

lemma object_key_new_Inr [result_simps]:
  "object_key_new k = Inr k' \<longleftrightarrow> k' = k \<and> k \<noteq> [] \<and> length k \<le> MAX_OBJECT_KEY_BYTES"
  by (auto simp: object_key_new_def validate_key_def result_simps checked_simps unat_of_nat
      MAX_OBJECT_KEY_BYTES_def split: if_splits dest!: dvd_imp_le)

lemma object_value_new_Inr [result_simps]:
  "object_value_new v = Inr v' \<longleftrightarrow> v' = v \<and> length v \<le> MAX_OBJECT_VALUE_BYTES"
  by (auto simp: object_value_new_def validate_value_def result_simps checked_simps unat_of_nat
      MAX_OBJECT_VALUE_BYTES_def split: if_splits)

lemma call_of_ok: "call_of op = Inr c \<Longrightarrow> call_ok c"
  by (cases op) (auto simp: result_simps)

lemma commit_inv:
  assumes "local_inv store" and "\<And>a s. r = Inr (a, s) \<Longrightarrow> state_inv (ls_limits store) s"
  shows "local_inv (snd (commit store r))"
  using assms by (auto simp: commit_def local_inv_def split: sum.split)

lemma perform_refines:
  assumes "local_inv store" and "call_ok c"
  shows "local_inv (snd (storage_perform store c))"
    and "spec_perform (local_abs store) c = map_prod id local_abs (storage_perform store c)"
proof -
  have inv: "state_inv (ls_limits store) (guarded (ls_state store))" and up: "\<not> poisoned (ls_state store)"
    using assms(1) by (auto simp: local_inv_def)
  note ops = get_def put_def delete_def list_def get_state_def lock_def up
  show "local_inv (snd (storage_perform store c))"
    using assms put_state_inv [OF inv] delete_state_inv [OF inv]
    by (cases c) (auto simp: ops case_prod_beta intro!: commit_inv)
  show "spec_perform (local_abs store) c = map_prod id local_abs (storage_perform store c)"
    using assms(2)
    by (cases c) (auto simp: ops local_abs_def commit_def spec_put_def spec_delete_def spec_list_def Let_def
        put_state_correct [OF inv] delete_state_correct [OF inv] list_state_correct [OF inv]
        split: option.split)
qed

interpretation store: refinement_machine storage_step local_inv local_abs spec_step
proof
  fix s op
  assume inv: "local_inv s"
  show "local_inv (snd (storage_step s op))"
    using inv perform_refines(1) [OF inv call_of_ok]
    by (auto simp: storage_step_def split: sum.split)
  show "spec_step (local_abs s) op = map_prod id local_abs (storage_step s op)"
    using perform_refines(2) [OF inv call_of_ok]
    by (auto simp: storage_step_def spec_step_def split: sum.split)
qed

lemma local_inv_new [simp]: "local_inv (local_object_store_new limits)"
  by (simp add: local_inv_def local_object_store_new_def state_default_def state_inv_def
      counts_def counters_default_def fits_def tenant_entries_def)

lemma local_abs_new [simp]: "local_abs (local_object_store_new limits) = spec_new limits"
  by (simp add: local_abs_def local_object_store_new_def state_default_def spec_new_def)

lemma ls_limits_new [simp]: "ls_limits (local_object_store_new limits) = limits"
  by (simp add: local_object_store_new_def)

lemma commit_limits [simp]: "ls_limits (snd (commit store r)) = ls_limits store"
  by (simp add: commit_def split: sum.split prod.split)

lemma storage_step_limits [simp]: "ls_limits (snd (storage_step store op)) = ls_limits store"
proof (cases "call_of op")
  case (Inr c)
  then show ?thesis
    by (cases c) (simp_all add: storage_step_def put_def delete_def case_prod_beta)
qed (simp add: storage_step_def)

lemma run_limits [simp]: "ls_limits (run storage_step store ops) = ls_limits store"
  by (induction ops arbitrary: store) auto

abbreviation reached :: "storage_limits \<Rightarrow> storage_op list \<Rightarrow> local_object_store" where
  "reached limits ops \<equiv> run storage_step (local_object_store_new limits) ops"

lemma reached_inv: "local_inv (reached limits ops)"
  by (rule store.run_inv) simp

lemma reached_state_inv: "state_inv limits (guarded (ls_state (reached limits ops)))"
  using reached_inv [of limits ops]
  by (simp add: local_inv_def)

fun op_tenant :: "storage_op \<Rightarrow> string" where
  "op_tenant (OpGet t n k) = t"
| "op_tenant (OpPut t n k v c) = t"
| "op_tenant (OpDelete t n k c) = t"
| "op_tenant (OpList t n a l) = t"

definition tenant_view :: "local_object_store \<Rightarrow> tenant_id \<Rightarrow> namespace_id \<times> object_key \<Rightarrow> entry option" where
  "tenant_view store t = (\<lambda>nk. bt_get (objects (guarded (ls_state store))) (t, nk))"

lemma scope_of_tenant: "scope_of t n = Inr sc \<Longrightarrow> sc_tenant_id sc = t"
  by (auto simp: scope_of_def tenant_id_new_def result_simps)

lemma put_state_objects:
  assumes "put_state limits s scope key value condition = Inr (r, s')"
  shows "objects s' = (case r of
      PutConflict \<Rightarrow> objects s
    | Created w \<Rightarrow> bt_insert (identity_of scope key) \<lparr>e_version = w, e_value = value\<rparr> (objects s)
    | Replaced w \<Rightarrow> bt_insert (identity_of scope key) \<lparr>e_version = w, e_value = value\<rparr> (objects s))"
  using assms by (auto simp: put_state_def Let_def result_simps split: if_splits)

lemma delete_state_objects:
  assumes "delete_state s scope key condition = Inr (r, s')"
  shows "objects s' = (if r = Deleted then bt_remove (identity_of scope key) (objects s) else objects s)"
  using assms by (auto simp: delete_state_def Let_def result_simps split: if_splits option.splits)

lemma commit_objects:
  assumes "\<And>a s. r = Inr (a, s) \<Longrightarrow> bt_get (objects s) i = bt_get (objects (guarded (ls_state store))) i"
  shows "bt_get (objects (guarded (ls_state (snd (commit store r))))) i
    = bt_get (objects (guarded (ls_state store))) i"
  using assms by (auto simp: commit_def split: sum.split)

fun call_tenant :: "storage_call \<Rightarrow> tenant_id" where
  "call_tenant (CallGet sc k) = sc_tenant_id sc"
| "call_tenant (CallPut sc k v c) = sc_tenant_id sc"
| "call_tenant (CallDelete sc k c) = sc_tenant_id sc"
| "call_tenant (CallList sc r) = sc_tenant_id sc"

lemma call_of_tenant: "call_of op = Inr c \<Longrightarrow> call_tenant c = op_tenant op"
  by (cases op) (auto simp: result_simps scope_of_tenant)

lemma perform_frame:
  "call_tenant c \<noteq> t \<Longrightarrow> tenant_view (snd (storage_perform s c)) t = tenant_view s t"
  by (cases c) (auto simp: tenant_view_def fun_eq_iff result_simps put_def delete_def
      case_prod_beta identity_of_def intro!: commit_objects dest!: put_state_objects delete_state_objects
      split: put_outcome.splits if_splits)

interpretation store_frame: tenant_frame storage_step op_tenant tenant_view
proof
  fix op t s
  assume "op_tenant op \<noteq> t"
  then show "tenant_view (snd (storage_step s op)) t = tenant_view s t"
    by (auto simp: storage_step_def perform_frame dest: call_of_tenant split: sum.split)
qed

end
