(* ===== verification/Storage_Properties.thy ===== *)
theory Storage_Properties
  imports Storage_Proofs
begin

text \<open>
  What a caller of the local object store can rely on, for every history of calls from a new
  store: the specification it implements, its quotas, the versions it issues, conditional
  writes, pagination and the separation of tenants.
\<close>

section \<open>Versions\<close>

fun issued :: "(storage_reply, storage_error) result \<Rightarrow> object_version list" where
  "issued (Inr (PutReply (Created v))) = [v]"
| "issued (Inr (PutReply (Replaced v))) = [v]"
| "issued _ = []"

definition expected_error :: "(storage_reply, storage_error) result \<Rightarrow> bool" where
  "expected_error r = (case r of
     Inl e \<Rightarrow> e \<notin> {OperationFailed, CorruptStore, LockUnavailable, InvalidLimits} | Inr _ \<Rightarrow> True)"

lemma spec_step_revision:
  "issued (fst (spec_step sp op)) = [] \<and> sp_revision (snd (spec_step sp op)) = sp_revision sp
   \<or> issued (fst (spec_step sp op)) = [sp_revision (snd (spec_step sp op))]
     \<and> sp_revision sp < sp_revision (snd (spec_step sp op))"
proof (cases "call_of op")
  case (Inr c)
  then show ?thesis
    by (cases c) (auto simp: spec_step_def spec_put_def spec_delete_def Let_def succ_greater
        split: option.splits)
qed (simp add: spec_step_def)

lemma spec_versions:
  "sorted_wrt (<) (concat (map issued (outputs spec_step sp ops)))
   \<and> list_all (\<lambda>v. sp_revision sp < v) (concat (map issued (outputs spec_step sp ops)))"
proof (induction ops arbitrary: sp)
  case (Cons op ops)
  from spec_step_revision [of sp op] Cons.IH [of "snd (spec_step sp op)"] show ?case
    by (auto simp: list_all_iff intro: order.strict_trans)
qed simp

lemma call_of_error: "call_of op = Inl e \<Longrightarrow> expected_error (Inl e)"
  by (cases op)
    (auto simp: result_simps scope_of_def tenant_id_new_def namespace_new_def validate_tenant_id_def
      validate_namespace_def validate_logical_id_def object_key_new_def validate_key_def
      object_value_new_def validate_value_def list_limit_new_def expected_error_def
      split: option.splits if_splits)

lemma spec_step_expected: "expected_error (fst (spec_step sp op))"
proof (cases "call_of op")
  case (Inl e)
  with call_of_error show ?thesis by (simp add: spec_step_def)
next
  case (Inr c)
  then show ?thesis
    by (cases c) (auto simp: spec_step_def spec_put_def spec_delete_def Let_def expected_error_def
        split: option.splits)
qed

section \<open>Pagination\<close>

text \<open>The loop of a caller that reads a scope page by page, with fuel for the pages.\<close>

fun drain :: "nat \<Rightarrow> local_object_store \<Rightarrow> storage_scope \<Rightarrow> object_key option \<Rightarrow> u32
    \<Rightarrow> (object_metadata list, storage_error) result option" where
  "drain 0 store scope after lim = None"
| "drain (Suc n) store scope after lim =
     (case list store scope \<lparr>after_key = after, limit = lim\<rparr> of
        Inl e \<Rightarrow> Some (Inl e)
      | Inr page \<Rightarrow>
          if has_more page
          then map_option (\<lambda>r. and_then r (\<lambda>rest. Inr (lp_objects page @ rest)))
            (drain n store scope (Some (om_key (last (lp_objects page)))) lim)
          else Some (Inr (lp_objects page)))"

abbreviation entry_key :: "identity \<times> entry \<Rightarrow> object_key" where
  "entry_key e \<equiv> snd (snd (fst e))"

lemma filter_above_nth:
  fixes f :: "'a \<Rightarrow> 'b::linorder"
  assumes "sorted_wrt (<) (map f es)" and "i < length es"
  shows "filter (\<lambda>e. f (es ! i) < f e) es = drop (Suc i) es"
  using assms
proof (induction es arbitrary: i)
  case (Cons e es)
  show ?case
  proof (cases i)
    case 0
    with Cons.prems show ?thesis by (simp add: filter_id_conv)
  next
    case (Suc j)
    with Cons.prems have "f e < f (es ! j)" by simp
    then have "\<not> f (es ! j) < f e" by simp
    with Suc Cons show ?thesis by simp
  qed
qed simp

lemma scope_entries_sorted:
  assumes "bt_ok es"
  shows "sorted_wrt (<) (map entry_key (scope_entries scope after es))"
proof -
  have "sorted_wrt (\<lambda>d e. fst d < fst e) (scope_entries scope after es)"
    using assms by (simp add: scope_entries_def bt_ok_def sorted_wrt_map sorted_wrt_filter)
  then show ?thesis
    unfolding sorted_wrt_map
    by (rule sorted_wrt_mono_rel [rotated]) (auto simp: scope_entries_def less_prod_def)
qed

lemma scope_entries_next:
  assumes ok: "bt_ok es" and i: "i < length (scope_entries scope after es)"
  shows "scope_entries scope (Some (entry_key (scope_entries scope after es ! i))) es
    = drop (Suc i) (scope_entries scope after es)"
proof -
  let ?es = "scope_entries scope after es" and ?k = "entry_key (scope_entries scope after es ! i)"
  have "?es ! i \<in> set ?es" using i by simp
  then have above: "case after of None \<Rightarrow> True | Some a \<Rightarrow> a < ?k"
    by (auto simp: scope_entries_def split: option.splits)
  have "scope_entries scope (Some ?k) es = filter (\<lambda>e. ?k < entry_key e) ?es"
    unfolding scope_entries_def filter_filter
    using above by (intro filter_cong) (auto simp: scope_entries_def split: option.splits)
  then show ?thesis
    by (simp add: filter_above_nth [OF scope_entries_sorted [OF ok] i])
qed

lemma drain_correct:
  assumes "local_inv store" and "lim \<noteq> 0"
    and "length (scope_entries scope after (objects (guarded (ls_state store)))) < n"
  shows "drain n store scope after lim =
    Some (Inr (map metadata (scope_entries scope after (objects (guarded (ls_state store))))))"
  using assms(3)
proof (induction n arbitrary: after)
  case (Suc n)
  let ?es = "scope_entries scope after (objects (guarded (ls_state store)))"
  have inv: "state_inv (ls_limits store) (guarded (ls_state store))" and up: "\<not> poisoned (ls_state store)"
    using assms(1) by (auto simp: local_inv_def)
  have page: "list store scope \<lparr>after_key = after, limit = lim\<rparr> =
      Inr \<lparr>lp_objects = map metadata (take (unat lim) ?es), has_more = unat lim < length ?es\<rparr>"
    by (simp add: list_def lock_def up list_state_correct [OF inv] Let_def)
  show ?case
  proof (cases "unat lim < length ?es")
    case False
    then show ?thesis by (simp add: page)
  next
    case True
    have pos: "0 < unat lim" using assms(2) by (simp add: unat_gt_0)
    with True have ne: "?es \<noteq> []" "take (unat lim) ?es \<noteq> []" by auto
    have "om_key (last (map metadata (take (unat lim) ?es))) = entry_key (?es ! (unat lim - 1))"
      using True pos ne by (simp add: last_map last_conv_nth metadata_def case_prod_beta)
    moreover have "scope_entries scope (Some (entry_key (?es ! (unat lim - 1)))) (objects (guarded (ls_state store)))
      = drop (unat lim) ?es"
      using scope_entries_next [OF state_invD(1) [OF inv], of "unat lim - 1" scope after] True pos by simp
    moreover have "drain n store scope (Some (entry_key (?es ! (unat lim - 1)))) lim
      = Some (Inr (map metadata (drop (unat lim) ?es)))"
      using Suc.IH [of "Some (entry_key (?es ! (unat lim - 1)))"] Suc.prems True pos calculation by simp
    ultimately show ?thesis
      using True by (simp add: page flip: map_append)
  qed
qed simp

section \<open>A history to run\<close>

definition demo_limits :: storage_limits where
  "demo_limits = \<lparr>max_objects_per_tenant = 2, max_value_bytes_per_tenant = 4,
     max_objects_global = 3, max_value_bytes_global = 6\<rparr>"

definition demo_ops :: "storage_op list" where
  "demo_ops = [OpPut ''acme'' ''docs'' [1] [7, 7] PutAny, OpPut ''acme'' ''docs'' [2] [8] PutIfAbsent,
     OpPut ''zeta'' ''docs'' [1] [9] PutAny, OpPut ''acme'' ''docs'' [3] [] PutAny]"

abbreviation demo_scope :: storage_scope where
  "demo_scope \<equiv> \<lparr>sc_tenant_id = ''acme'', sc_namespace = ''docs''\<rparr>"

lemma object_key_new_eq:
  "object_key_new k = (if k \<noteq> [] \<and> length k \<le> 1024 then Inr k else Inl InvalidObjectKey)"
  by (auto simp: object_key_new_def validate_key_def try_from_nat_def MAX_OBJECT_KEY_BYTES_def unat_of_nat)

lemma object_value_new_eq:
  "object_value_new v = (if length v \<le> 1048576 then Inr v else Inl InvalidValue)"
  by (auto simp: object_value_new_def validate_value_def try_from_nat_def MAX_OBJECT_VALUE_BYTES_def
      unat_of_nat)

lemma demo_scopes:
  "scope_of ''acme'' ''docs'' = Inr demo_scope"
  "scope_of ''zeta'' ''docs'' = Inr \<lparr>sc_tenant_id = ''zeta'', sc_namespace = ''docs''\<rparr>"
  by (simp_all add: scope_of_def tenant_id_new_def namespace_new_def validate_tenant_id_def
      validate_namespace_def validate_logical_id_def try_from_nat_def ascii_defs less_eq_char_def
      MAX_TENANT_ID_BYTES_def MAX_NAMESPACE_BYTES_def)

lemma demo_spec:
  "run spec_step (spec_new demo_limits) demo_ops =
     \<lparr>sp_limits = demo_limits, sp_objects =
       [((''acme'', ''docs'', [1]), \<lparr>e_version = 1, e_value = [7, 7]\<rparr>),
        ((''acme'', ''docs'', [2]), \<lparr>e_version = 2, e_value = [8]\<rparr>),
        ((''zeta'', ''docs'', [1]), \<lparr>e_version = 3, e_value = [9]\<rparr>)], sp_revision = 3\<rparr>"
  by (simp add: demo_ops_def spec_step_def demo_scopes object_key_new_eq object_value_new_eq
      spec_new_def demo_limits_def spec_put_def put_condition_matches_def fits_def tenant_entries_def
      identity_of_def Let_def)

lemma demo_abs: "local_abs (reached demo_limits demo_ops) = run spec_step (spec_new demo_limits) demo_ops"
  using store.run_refines [of "local_object_store_new demo_limits" demo_ops] by simp

lemma demo_objects:
  "objects (guarded (ls_state (reached demo_limits demo_ops))) = sp_objects (run spec_step (spec_new demo_limits) demo_ops)"
  unfolding demo_abs [symmetric] by (simp add: local_abs_def)

lemma demo_put:
  "fst (put (reached demo_limits demo_ops) demo_scope [1] [5] (PutIfVersion 1)) = Inr (Replaced 4)"
proof -
  have "spec_perform (local_abs (reached demo_limits demo_ops)) (CallPut demo_scope [1] [5] (PutIfVersion 1))
    = map_prod id local_abs (storage_perform (reached demo_limits demo_ops)
        (CallPut demo_scope [1] [5] (PutIfVersion 1)))"
    by (rule perform_refines(2) [OF reached_inv])
      (simp add: MAX_OBJECT_KEY_BYTES_def MAX_OBJECT_VALUE_BYTES_def)
  moreover have "fst (spec_put (run spec_step (spec_new demo_limits) demo_ops) demo_scope [1] [5]
    (PutIfVersion 1)) = Inr (Replaced 4)"
    unfolding demo_spec
    by (simp add: spec_put_def put_condition_matches_def fits_def tenant_entries_def
        identity_of_def Let_def demo_limits_def)
  ultimately show ?thesis
    by (cases "fst (put (reached demo_limits demo_ops) demo_scope [1] [5] (PutIfVersion 1))")
      (auto simp: demo_abs case_prod_beta prod_eq_iff)
qed

section \<open>Properties\<close>

text \<open>C1: For every sequence of calls with arbitrary (also invalid) arguments, a new local store
  returns exactly the results of the specification, which keeps no counters and decides every
  quota by counting the stored objects and their bytes. In particular the cached counters never
  make a write fail or succeed wrongly, and a failed call leaves the store as it was.\<close>

theorem local_store_refines_spec:
  "outputs storage_step (local_object_store_new limits) ops = outputs spec_step (spec_new limits) ops"
  using store.outputs_refine [of "local_object_store_new limits" ops] by simp

text \<open>C3: In every reachable state of the store each tenant's objects and bytes and the totals
  are within the configured limits, the cached counters are exactly these numbers, a tenant
  has a counter exactly when it has an object, and no two objects share a version.\<close>

theorem local_store_quota_invariant:
  "let s = guarded (ls_state (reached limits ops));
       mine = filter (\<lambda>e. fst (fst e) = t) (objects s) in
   length mine \<le> unat (max_objects_per_tenant limits)
   \<and> total_bytes mine \<le> unat (max_value_bytes_per_tenant limits)
   \<and> length (objects s) \<le> unat (max_objects_global limits)
   \<and> total_bytes (objects s) \<le> unat (max_value_bytes_global limits)
   \<and> unat (c_objects (global s)) = length (objects s)
   \<and> unat (c_value_bytes (global s)) = total_bytes (objects s)
   \<and> (case bt_get (tenants s) t of
        None \<Rightarrow> mine = []
      | Some c \<Rightarrow> mine \<noteq> [] \<and> unat (c_objects c) = length mine \<and> unat (c_value_bytes c) = total_bytes mine)
   \<and> inj_on (\<lambda>e. e_version (snd e)) (set (objects s))"
  using state_invD(4,5) [OF reached_state_inv] state_invD(6-8) [OF reached_state_inv, where t = t]
  by (auto simp: Let_def fits_def counts_def tenant_entries_def split: option.split)

text \<open>Over any history the versions the store issues are strictly increasing, hence never
  reused, and no call ends in an internal error (\<open>OperationFailed\<close>, \<open>CorruptStore\<close>,
  \<open>LockUnavailable\<close>): the checked subtractions and conversions of the adapter never fail.\<close>

lemma local_store_versions_increase:
  "sorted_wrt (<) (concat (map issued (outputs storage_step (local_object_store_new limits) ops)))
   \<and> list_all expected_error (outputs storage_step (local_object_store_new limits) ops)"
proof -
  have "list_all expected_error (outputs spec_step sp ops)" for sp
    by (induction ops arbitrary: sp) (simp_all add: spec_step_expected)
  from this [of "spec_new limits"] show ?thesis
    using spec_versions [of "spec_new limits" ops] store.outputs_refine [of "local_object_store_new limits" ops]
    by simp
qed

text \<open>A write answers a conflict exactly when its condition does not match the current
  object, and then changes nothing. Otherwise, if it succeeds, its version is greater than the
  replaced one, a read of the key returns the new version and value, every other key of every
  scope reads as before, and a second write conditional on the old version conflicts.\<close>

lemma put_then_get:
  assumes "put (reached limits ops) scope key value condition = (Inr r, store)"
    and "object_value_new value = Inr value"
  shows "(r = PutConflict \<longleftrightarrow>
      \<not> put_condition_matches condition
        (bt_get (objects (guarded (ls_state (reached limits ops)))) (identity_of scope key)))
    \<and> (if r = PutConflict then store = reached limits ops
       else \<exists>v. r \<in> {Created v, Replaced v}
         \<and> get store scope key = Inr (Some \<lparr>so_version = v, so_value = value\<rparr>)
         \<and> (\<forall>old. get (reached limits ops) scope key = Inr (Some old) \<longrightarrow> so_version old < v
              \<and> fst (put store scope key value' (PutIfVersion (so_version old))) = Inr PutConflict)
         \<and> (\<forall>scope' key'. identity_of scope' key' \<noteq> identity_of scope key \<longrightarrow>
              get store scope' key' = get (reached limits ops) scope' key'))"
proof -
  have inv: "state_inv limits (guarded (ls_state (reached limits ops)))"
    and up: "\<not> poisoned (ls_state (reached limits ops))"
    using reached_inv [of limits ops] reached_state_inv by (auto simp: local_inv_def)
  have val: "length value \<le> MAX_OBJECT_VALUE_BYTES" using assms(2) by (simp add: result_simps)
  obtain s' where put: "put_state limits (guarded (ls_state (reached limits ops))) scope key value condition
      = Inr (r, s')" and store: "store = (reached limits ops)\<lparr>ls_state :=
        (ls_state (reached limits ops))\<lparr>guarded := s'\<rparr>\<rparr>"
    using assms(1) by (auto simp: put_def commit_def lock_def up split: sum.splits)
  note below = order.strict_trans1 [OF state_inv_current(2) [OF inv] succ_greater]
  show ?thesis
    using put below below [THEN less_imp_neq] unfolding put_state_correct [OF inv val]
    by (auto simp: store get_def get_state_def lock_def up put_def commit_def put_state_def Let_def
        put_condition_matches_def identity_of_def split: if_splits)
qed

lemma put_then_get_witness:
  "\<exists>store. put (reached demo_limits demo_ops) demo_scope [1] [5] (PutIfVersion 1) = (Inr (Replaced 4), store)
     \<and> get store demo_scope [1] = Inr (Some \<lparr>so_version = 4, so_value = [5]\<rparr>)
     \<and> get store demo_scope [2] = get (reached demo_limits demo_ops) demo_scope [2]"
proof -
  have ok: "object_value_new [5] = Inr [5 :: u8]" by (simp add: object_value_new_eq)
  obtain store where put: "put (reached demo_limits demo_ops) demo_scope [1] [5] (PutIfVersion 1)
    = (Inr (Replaced 4), store)" using demo_put by (metis prod.collapse)
  from put_then_get [OF put ok, of "[]"] put show ?thesis by (auto simp: identity_of_def)
qed

text \<open>C27: A caller that pages through a scope, passing the last key it saw as the next cursor,
  gets every object of the scope exactly once, in key order, with its version and size, and the
  loop ends, for every valid page size.\<close>

theorem pages_tile_scope:
  assumes "list_limit_new lim = Inr lim"
  shows "drain (Suc (length (objects (guarded (ls_state (reached limits ops)))))) (reached limits ops)
      scope None lim
    = Some (Inr (map metadata (filter (\<lambda>((t, n, k), e). t = sc_tenant_id scope \<and> n = sc_namespace scope)
        (objects (guarded (ls_state (reached limits ops)))))))"
proof -
  have "lim \<noteq> 0" using assms by (auto simp: list_limit_new_def split: if_splits)
  then show ?thesis
    by (subst drain_correct [OF reached_inv]) (simp_all add: scope_entries_def less_Suc_eq_le)
qed

theorem pages_tile_scope_witness:
  "list_limit_new 1 = Inr 1
   \<and> drain 4 (reached demo_limits demo_ops) demo_scope None 1
     = Some (Inr [\<lparr>om_key = [1], om_version = 1, om_size_bytes = 2\<rparr>,
                  \<lparr>om_key = [2], om_version = 2, om_size_bytes = 1\<rparr>])"
proof -
  have lim: "list_limit_new 1 = Inr 1" by (simp add: list_limit_new_def MAX_LIST_LIMIT_def)
  with pages_tile_scope [OF lim, of demo_limits demo_ops demo_scope] show ?thesis
    by (simp add: demo_objects demo_spec metadata_def numeral_eq_Suc del: drain.simps)
qed

text \<open>Calls of other tenants, whatever they are, change nothing a tenant reads: every get
  and every page of a listing returns the same as before them.\<close>

lemma tenants_are_separate:
  assumes "list_all (\<lambda>op. op_tenant op \<noteq> sc_tenant_id scope) others"
  shows "get (reached limits (ops @ others)) scope key = get (reached limits ops) scope key
    \<and> list (reached limits (ops @ others)) scope request = list (reached limits ops) scope request"
proof -
  let ?a = "reached limits ops" and ?b = "reached limits (ops @ others)" and ?t = "sc_tenant_id scope"
  let ?os = "\<lambda>s. objects (guarded (ls_state s))"
  have view: "tenant_view ?b ?t = tenant_view ?a ?t"
    using store_frame.foreign_run [of others ?t ?a] assms by (simp add: list_all_iff run_append)
  have inv: "state_inv limits (guarded (ls_state ?a))" "state_inv limits (guarded (ls_state ?b))"
    by (rule reached_state_inv)+
  have up: "\<not> poisoned (ls_state ?a)" "\<not> poisoned (ls_state ?b)"
    using reached_inv by (auto simp: local_inv_def)
  have "tenant_entries ?t (?os ?b) = tenant_entries ?t (?os ?a)"
    using view state_invD(1) [OF inv(1)] state_invD(1) [OF inv(2)]
    by (intro bt_ok_ext) (auto simp: fun_eq_iff tenant_entries_get tenant_view_def)
  moreover have "scope_entries scope after es = scope_entries scope after (tenant_entries ?t es)" for after es
    unfolding scope_entries_def tenant_entries_def filter_filter by (rule filter_cong) auto
  ultimately have "scope_entries scope after (?os ?b) = scope_entries scope after (?os ?a)" for after
    by metis
  then show ?thesis
    using view by (simp add: get_def list_def lock_def up get_state_def list_state_correct [OF inv(1)]
        list_state_correct [OF inv(2)] tenant_view_def identity_of_def fun_eq_iff)
qed

lemma tenants_are_separate_witness:
  "get (reached demo_limits (demo_ops @ [OpDelete ''zeta'' ''docs'' [1] DeleteAny])) demo_scope [1]
     = get (reached demo_limits demo_ops) demo_scope [1]"
  using tenants_are_separate [of demo_scope "[OpDelete ''zeta'' ''docs'' [1] DeleteAny]"] by simp

end
