(* ===== verification/Memory.thy ===== *)
theory Memory
  imports Contracts
begin

text \<open>
  The memory crate: records, queries and their validation (\<open>memory/src/model.rs\<close>,
  \<open>memory/src/validation.rs\<close>), the error taxonomy (\<open>memory/src/error.rs\<close>), the configuration
  (\<open>memory/src/settings.rs\<close>), the in-process store nested by tenant and namespace
  (\<open>memory/src/local.rs\<close>) and the service (\<open>memory/src/service.rs\<close>), which is generic in the
  store: its functions take the port's operations as arguments, as the source takes \<open>S: MemoryStore\<close>.
\<close>

section \<open>Data\<close>

definition MAX_CONTENT_BYTES :: nat where "MAX_CONTENT_BYTES = 32 * 1024"
definition MAX_METADATA_ENTRY_BYTES :: nat where "MAX_METADATA_ENTRY_BYTES = 1024"
definition MAX_METADATA_ENTRIES :: nat where "MAX_METADATA_ENTRIES = 32"
definition MAX_ID_BYTES :: nat where "MAX_ID_BYTES = 128"
definition MAX_TAGS :: nat where "MAX_TAGS = 16"
definition MAX_QUERY_LIMIT :: u32 where "MAX_QUERY_LIMIT = 256"
definition MAX_PARTITION_RECORDS :: nat where "MAX_PARTITION_RECORDS = 4096"
definition MAX_TENANT_NAMESPACES :: nat where "MAX_TENANT_NAMESPACES = 64"
definition MAX_RECORD_BYTES :: nat where
  "MAX_RECORD_BYTES = MAX_CONTENT_BYTES + MAX_METADATA_ENTRIES * 2 * MAX_METADATA_ENTRY_BYTES
     + MAX_TAGS * MAX_ID_BYTES"
definition MAX_TERM_BYTES :: nat where "MAX_TERM_BYTES = 1024"

datatype public_error_code =
    PubInvalidId | PubInvalidRecord | PubInvalidQuery | PubLimitExceeded | PubNotFound
  | PubTenantMismatch | PubUnauthorized | PubAdapterFailure

fun public_error_code_as_str :: "public_error_code \<Rightarrow> string" where
  "public_error_code_as_str PubInvalidId = ''invalid_id''"
| "public_error_code_as_str PubInvalidRecord = ''invalid_record''"
| "public_error_code_as_str PubInvalidQuery = ''invalid_query''"
| "public_error_code_as_str PubLimitExceeded = ''limit_exceeded''"
| "public_error_code_as_str PubNotFound = ''not_found''"
| "public_error_code_as_str PubTenantMismatch = ''tenant_mismatch''"
| "public_error_code_as_str PubUnauthorized = ''unauthorized''"
| "public_error_code_as_str PubAdapterFailure = ''adapter_failure''"

datatype memory_error =
    InvalidId | InvalidRecord | InvalidQuery | LimitExceeded | NotFound | TenantMismatch
  | Unauthorized | AdapterFailure

fun public_code :: "memory_error \<Rightarrow> public_error_code" where
  "public_code InvalidId = PubInvalidId"
| "public_code InvalidRecord = PubInvalidRecord"
| "public_code InvalidQuery = PubInvalidQuery"
| "public_code LimitExceeded = PubLimitExceeded"
| "public_code NotFound = PubNotFound"
| "public_code TenantMismatch = PubNotFound"
| "public_code Unauthorized = PubUnauthorized"
| "public_code AdapterFailure = PubAdapterFailure"

datatype memory_kind = Factual | Preference | Procedural | Episodic

fun memory_kind_as_str :: "memory_kind \<Rightarrow> string" where
  "memory_kind_as_str Factual = ''factual''"
| "memory_kind_as_str Preference = ''preference''"
| "memory_kind_as_str Procedural = ''procedural''"
| "memory_kind_as_str Episodic = ''episodic''"

definition memory_kind_all :: "memory_kind list" where
  "memory_kind_all = [Factual, Preference, Procedural, Episodic]"

text \<open>The derived order of \<open>MemoryKind\<close> is the order of its variants.\<close>

fun memory_kind_index :: "memory_kind \<Rightarrow> nat" where
  "memory_kind_index Factual = 0"
| "memory_kind_index Preference = 1"
| "memory_kind_index Procedural = 2"
| "memory_kind_index Episodic = 3"

instantiation memory_kind :: linorder
begin

definition less_eq_memory_kind :: "memory_kind \<Rightarrow> memory_kind \<Rightarrow> bool" where
  "less_eq_memory_kind a b \<longleftrightarrow> memory_kind_index a \<le> memory_kind_index b"

definition less_memory_kind :: "memory_kind \<Rightarrow> memory_kind \<Rightarrow> bool" where
  "less_memory_kind a b \<longleftrightarrow> memory_kind_index a < memory_kind_index b"

instance
proof
  fix a b :: memory_kind
  show "a \<le> b \<Longrightarrow> b \<le> a \<Longrightarrow> a = b"
    by (cases a; cases b) (simp_all add: less_eq_memory_kind_def)
qed (auto simp: less_eq_memory_kind_def less_memory_kind_def)

end

type_synonym tenant_id = string
type_synonym namespace_id = string
type_synonym record_key = string
type_synonym run_id = string
type_synonym timestamp = u64

record provenance =
  pv_run_id :: run_id
  pv_recorded_at :: timestamp

type_synonym metadata = "(string, string) btree_map"

record memory_record =
  mr_tenant_id :: tenant_id
  mr_namespace :: namespace_id
  mr_key :: record_key
  mr_kind :: memory_kind
  mr_content :: string
  mr_tags :: "string list"
  mr_metadata :: metadata
  mr_provenance :: "provenance option"

record memory_query =
  q_kinds :: "memory_kind list"
  q_tags :: "string list"
  q_term :: "string option"
  q_since :: "timestamp option"
  q_until :: "timestamp option"
  q_limit :: u32

datatype write_outcome = Created | Replaced

section \<open>Validation\<close>

definition is_logical_id :: "string \<Rightarrow> bool" where
  "is_logical_id value \<longleftrightarrow> value \<noteq> [] \<and> length value \<le> MAX_ID_BYTES
     \<and> is_ascii_alphanumeric (hd value) \<and> \<not> is_ascii_uppercase (hd value)
     \<and> list_all (\<lambda>b. is_ascii_lowercase b \<or> is_ascii_digit b
          \<or> b = CHR ''_'' \<or> b = CHR ''-'' \<or> b = CHR ''.'') value"

definition logical_id_new :: "string \<Rightarrow> (string, memory_error) result" where
  "logical_id_new value = (if is_logical_id value then Inr value else Inl InvalidId)"

definition provenance_new :: "string \<Rightarrow> u64 \<Rightarrow> (provenance, memory_error) result" where
  "provenance_new run_text recorded_at_micros =
     and_then (logical_id_new run_text) (\<lambda>r. Inr \<lparr>pv_run_id = r, pv_recorded_at = recorded_at_micros\<rparr>)"

definition is_tag :: "string \<Rightarrow> bool" where
  "is_tag value = is_logical_id value"

fun validate_metadata :: "metadata \<Rightarrow> (unit, memory_error) result" where
  "validate_metadata [] = Inr ()"
| "validate_metadata ((key, value) # rest) =
     (if key = [] then Inl InvalidRecord
      else if length key > MAX_METADATA_ENTRY_BYTES \<or> length value > MAX_METADATA_ENTRY_BYTES
      then Inl LimitExceeded
      else validate_metadata rest)"

definition validate_record :: "memory_record \<Rightarrow> (unit, memory_error) result" where
  "validate_record record =
     (if mr_content record = [] then Inl InvalidRecord
      else if length (mr_content record) > MAX_CONTENT_BYTES then Inl LimitExceeded
      else if length (mr_tags record) > MAX_TAGS then Inl LimitExceeded
      else if \<not> list_all is_tag (mr_tags record) then Inl InvalidRecord
      else if length (sort_dedup (mr_tags record)) \<noteq> length (sort (mr_tags record)) then Inl InvalidRecord
      else if length (mr_metadata record) > MAX_METADATA_ENTRIES then Inl LimitExceeded
      else validate_metadata (mr_metadata record))"

definition validated :: "memory_record \<Rightarrow> (memory_record, memory_error) result" where
  "validated record = and_then (validate_record record) (\<lambda>_. Inr record)"

definition validate_term :: "string option \<Rightarrow> (unit, memory_error) result" where
  "validate_term t = (case t of
      None \<Rightarrow> Inr ()
    | Some term \<Rightarrow> if term = [] then Inl InvalidQuery
        else if length term > MAX_TERM_BYTES then Inl LimitExceeded else Inr ())"

definition validate_query :: "memory_query \<Rightarrow> (unit, memory_error) result" where
  "validate_query query =
     (if q_limit query = 0 \<or> q_limit query > MAX_QUERY_LIMIT then Inl LimitExceeded
      else if length (q_tags query) > MAX_TAGS then Inl LimitExceeded
      else if \<not> list_all is_tag (q_tags query) then Inl InvalidQuery
      else and_then (validate_term (q_term query)) (\<lambda>_.
        if length (q_kinds query) > length memory_kind_all then Inl InvalidQuery
        else if length (sort_dedup (q_kinds query)) \<noteq> length (q_kinds query) then Inl InvalidQuery
        else case (q_since query, q_until query) of
            (Some since, Some until) \<Rightarrow> if since \<ge> until then Inl InvalidQuery else Inr ()
          | _ \<Rightarrow> Inr ()))"

definition query_all :: "u32 \<Rightarrow> (memory_query, memory_error) result" where
  "query_all limit =
     (let query = \<lparr>q_kinds = [], q_tags = [], q_term = None, q_since = None, q_until = None,
        q_limit = limit\<rparr> in
      and_then (validate_query query) (\<lambda>_. Inr query))"

definition query_matches :: "memory_query \<Rightarrow> memory_record \<Rightarrow> bool" where
  "query_matches query record =
     (if q_kinds query \<noteq> [] \<and> mr_kind record \<notin> set (q_kinds query) then False
      else if \<not> list_all (\<lambda>tag. list_ex (\<lambda>held. held = tag) (mr_tags record)) (q_tags query) then False
      else if (case q_term query of None \<Rightarrow> False
          | Some term \<Rightarrow> \<not> str_contains (mr_content record) term) then False
      else case (q_since query, q_until query, mr_provenance record) of
          (None, None, _) \<Rightarrow> True
        | (_, _, None) \<Rightarrow> False
        | (since, until, Some provenance) \<Rightarrow>
            (case since of None \<Rightarrow> True | Some bound \<Rightarrow> pv_recorded_at provenance \<ge> bound)
            \<and> (case until of None \<Rightarrow> True | Some bound \<Rightarrow> pv_recorded_at provenance < bound))"

definition check_capacity :: "nat \<Rightarrow> bool \<Rightarrow> nat \<Rightarrow> bool \<Rightarrow> (unit, memory_error) result" where
  "check_capacity tenant_namespaces namespace_is_new partition_records key_is_new =
     (if namespace_is_new \<and> tenant_namespaces \<ge> MAX_TENANT_NAMESPACES then Inl LimitExceeded
      else if key_is_new \<and> partition_records \<ge> MAX_PARTITION_RECORDS then Inl LimitExceeded
      else Inr ())"

section \<open>The in-process store\<close>

type_synonym partition = "(string, memory_record) btree_map"
type_synonym tenant = "(string, partition) btree_map"

record in_process_store =
  ips_tenants :: "(string, tenant) btree_map mutex"

definition in_process_store_new :: in_process_store where
  "in_process_store_new = \<lparr>ips_tenants = mutex_new []\<rparr>"

definition or_default :: "(string, ('a list)) btree_map \<Rightarrow> string \<Rightarrow> (string, 'a list) btree_map" where
  "or_default m k = (if bt_contains_key m k then m else bt_insert k [] m)"

definition entry_value :: "(string, 'a list) btree_map \<Rightarrow> string \<Rightarrow> 'a list" where
  "entry_value m k = (case bt_get m k of None \<Rightarrow> [] | Some v \<Rightarrow> v)"

definition put_tenants :: "(string, tenant) btree_map \<Rightarrow> memory_record
    \<Rightarrow> (write_outcome, memory_error) result \<times> (string, tenant) btree_map" where
  "put_tenants tenants record =
     (let tenants = or_default tenants (mr_tenant_id record);
          tenant = entry_value tenants (mr_tenant_id record);
          part = bt_get tenant (mr_namespace record) in
      case check_capacity (length tenant) (part = None)
          (case part of None \<Rightarrow> 0 | Some p \<Rightarrow> length p)
          (case part of None \<Rightarrow> True | Some held \<Rightarrow> \<not> bt_contains_key held (mr_key record)) of
        Inl e \<Rightarrow> (Inl e, tenants)
      | Inr _ \<Rightarrow>
          let tenant = or_default tenant (mr_namespace record);
              p = entry_value tenant (mr_namespace record) in
          (Inr (if bt_get p (mr_key record) \<noteq> None then Replaced else Created),
           bt_insert (mr_tenant_id record)
             (bt_insert (mr_namespace record) (bt_insert (mr_key record) record p) tenant) tenants))"

definition put :: "in_process_store \<Rightarrow> memory_record
    \<Rightarrow> (write_outcome, memory_error) result \<times> in_process_store" where
  "put store record =
     (case validate_record record of
        Inl e \<Rightarrow> (Inl e, store)
      | Inr _ \<Rightarrow> (case lock (ips_tenants store) AdapterFailure of
          Inl e \<Rightarrow> (Inl e, store)
        | Inr tenants \<Rightarrow>
            let (r, tenants') = put_tenants tenants record in
            (r, store\<lparr>ips_tenants := (ips_tenants store)\<lparr>guarded := tenants'\<rparr>\<rparr>)))"

definition get :: "in_process_store \<Rightarrow> tenant_id \<Rightarrow> namespace_id \<Rightarrow> record_key
    \<Rightarrow> (memory_record option, memory_error) result" where
  "get store t n k =
     and_then (lock (ips_tenants store) AdapterFailure) (\<lambda>tenants.
       Inr (Option.bind (Option.bind (bt_get tenants t) (\<lambda>tenant. bt_get tenant n))
         (\<lambda>part. bt_get part k)))"

definition query :: "in_process_store \<Rightarrow> tenant_id \<Rightarrow> namespace_id \<Rightarrow> memory_query
    \<Rightarrow> (memory_record list, memory_error) result" where
  "query store t n q =
     and_then (validate_query q) (\<lambda>_.
       and_then (lock (ips_tenants store) AdapterFailure) (\<lambda>tenants.
         case Option.bind (bt_get tenants t) (\<lambda>tenant. bt_get tenant n) of
           None \<Rightarrow> Inr []
         | Some part \<Rightarrow> Inr (take (unat (q_limit q)) (filter (query_matches q) (bt_values part)))))"

definition delete_tenants :: "(string, tenant) btree_map \<Rightarrow> tenant_id \<Rightarrow> namespace_id \<Rightarrow> record_key
    \<Rightarrow> bool \<times> (string, tenant) btree_map" where
  "delete_tenants tenants t n k =
     (case bt_get tenants t of
        None \<Rightarrow> (False, tenants)
      | Some tenant \<Rightarrow> (case bt_get tenant n of
          None \<Rightarrow> (False, tenants)
        | Some part \<Rightarrow>
            let removed = bt_get part k \<noteq> None; part = bt_remove k part;
                tenant = (if part = [] then bt_remove n tenant else bt_insert n part tenant) in
            (removed, if tenant = [] then bt_remove t tenants else bt_insert t tenant tenants)))"

definition delete :: "in_process_store \<Rightarrow> tenant_id \<Rightarrow> namespace_id \<Rightarrow> record_key
    \<Rightarrow> (bool, memory_error) result \<times> in_process_store" where
  "delete store t n k =
     (case lock (ips_tenants store) AdapterFailure of
        Inl e \<Rightarrow> (Inl e, store)
      | Inr tenants \<Rightarrow>
          let (removed, tenants') = delete_tenants tenants t n k in
          (Inr removed, store\<lparr>ips_tenants := (ips_tenants store)\<lparr>guarded := tenants'\<rparr>\<rparr>))"

record store_guarantees =
  durable_across_restart :: bool
  visible_across_processes :: bool
  crash_atomic :: bool

definition guarantees_in_process :: store_guarantees where
  "guarantees_in_process =
     \<lparr>durable_across_restart = False, visible_across_processes = False, crash_atomic = False\<rparr>"

section \<open>The service\<close>

record memory_context =
  ctx_tenant_id :: tenant_id

record remember_request =
  rq_namespace :: namespace_id
  rq_key :: record_key
  rq_kind :: memory_kind
  rq_content :: string
  rq_tags :: "string list"
  rq_metadata :: metadata
  rq_run_id :: "run_id option"

record 's memory_service =
  sv_store :: 's
  result_ceiling :: u32

definition memory_service_new :: "'s \<Rightarrow> 's memory_service" where
  "memory_service_new store = \<lparr>sv_store = store, result_ceiling = MAX_QUERY_LIMIT\<rparr>"

definition with_result_ceiling :: "'s \<Rightarrow> u32 \<Rightarrow> ('s memory_service, memory_error) result" where
  "with_result_ceiling store ceiling =
     (if ceiling = 0 \<or> ceiling > MAX_QUERY_LIMIT then Inl LimitExceeded
      else Inr \<lparr>sv_store = store, result_ceiling = ceiling\<rparr>)"

definition remembered :: "timestamp \<Rightarrow> memory_context \<Rightarrow> remember_request \<Rightarrow> memory_record" where
  "remembered now context request =
     \<lparr>mr_tenant_id = ctx_tenant_id context, mr_namespace = rq_namespace request,
      mr_key = rq_key request, mr_kind = rq_kind request, mr_content = rq_content request,
      mr_tags = rq_tags request, mr_metadata = rq_metadata request,
      mr_provenance = map_option (\<lambda>r. \<lparr>pv_run_id = r, pv_recorded_at = now\<rparr>) (rq_run_id request)\<rparr>"

definition remember :: "('s \<Rightarrow> memory_record \<Rightarrow> (write_outcome, memory_error) result \<times> 's)
    \<Rightarrow> 's memory_service \<Rightarrow> timestamp \<Rightarrow> memory_context \<Rightarrow> remember_request
    \<Rightarrow> (write_outcome, memory_error) result \<times> 's memory_service" where
  "remember put_op service now context request =
     (let record = remembered now context request in
      case validate_record record of
        Inl e \<Rightarrow> (Inl e, service)
      | Inr _ \<Rightarrow> let (r, store) = put_op (sv_store service) record in (r, service\<lparr>sv_store := store\<rparr>))"

definition is_addressed :: "memory_context \<Rightarrow> namespace_id \<Rightarrow> record_key option \<Rightarrow> memory_record \<Rightarrow> bool"
where
  "is_addressed context namespace key record \<longleftrightarrow>
     mr_tenant_id record = ctx_tenant_id context \<and> mr_namespace record = namespace
     \<and> (case key of None \<Rightarrow> True | Some addressed \<Rightarrow> mr_key record = addressed)"

definition recall :: "('s \<Rightarrow> tenant_id \<Rightarrow> namespace_id \<Rightarrow> record_key
      \<Rightarrow> (memory_record option, memory_error) result)
    \<Rightarrow> 's memory_service \<Rightarrow> memory_context \<Rightarrow> namespace_id \<Rightarrow> record_key
    \<Rightarrow> (memory_record option, memory_error) result" where
  "recall get_op service context namespace key =
     and_then (get_op (sv_store service) (ctx_tenant_id context) namespace key) (\<lambda>found.
       Inr (case found of None \<Rightarrow> None
         | Some record \<Rightarrow> if is_addressed context namespace (Some key) record then Some record else None))"

definition search :: "('s \<Rightarrow> tenant_id \<Rightarrow> namespace_id \<Rightarrow> memory_query
      \<Rightarrow> (memory_record list, memory_error) result)
    \<Rightarrow> 's memory_service \<Rightarrow> memory_context \<Rightarrow> namespace_id \<Rightarrow> memory_query
    \<Rightarrow> (memory_record list, memory_error) result" where
  "search query_op service context namespace q =
     and_then (validate_query q) (\<lambda>_.
       if q_limit q > result_ceiling service then Inl LimitExceeded
       else and_then (query_op (sv_store service) (ctx_tenant_id context) namespace q) (\<lambda>found.
         Inr (take (unat (q_limit q)) (filter (is_addressed context namespace None) found))))"

definition forget :: "('s \<Rightarrow> tenant_id \<Rightarrow> namespace_id \<Rightarrow> record_key
      \<Rightarrow> (bool, memory_error) result \<times> 's)
    \<Rightarrow> 's memory_service \<Rightarrow> memory_context \<Rightarrow> namespace_id \<Rightarrow> record_key
    \<Rightarrow> (bool, memory_error) result \<times> 's memory_service" where
  "forget delete_op service context namespace key =
     (let (r, store) = delete_op (sv_store service) (ctx_tenant_id context) namespace key in
      (r, service\<lparr>sv_store := store\<rparr>))"

section \<open>Settings\<close>

datatype memory_backend = InProcess | AgenticInProcess

fun memory_backend_as_str :: "memory_backend \<Rightarrow> string" where
  "memory_backend_as_str InProcess = ''in_process''"
| "memory_backend_as_str AgenticInProcess = ''agentic_in_process''"

record memory_config_v1 =
  mc_backend :: memory_backend
  mc_default_namespace :: string
  mc_max_query_limit :: u32

definition default_limit :: u32 where "default_limit = 64"

record memory_settings =
  ms_backend :: memory_backend
  ms_default_namespace :: namespace_id
  ms_max_query_limit :: u32

definition settings_from_config :: "memory_config_v1 \<Rightarrow> (memory_settings, memory_error) result" where
  "settings_from_config config =
     (if mc_max_query_limit config = 0 \<or> mc_max_query_limit config > MAX_QUERY_LIMIT
      then Inl LimitExceeded
      else and_then (logical_id_new (mc_default_namespace config)) (\<lambda>namespace.
        Inr \<lparr>ms_backend = mc_backend config, ms_default_namespace = namespace,
             ms_max_query_limit = mc_max_query_limit config\<rparr>))"

end
