(* ===== verification/Memory_Proofs.thy ===== *)
theory Memory_Proofs
  imports Memory
begin

text \<open>
  The contract of the \<open>MemoryStore\<close> port as a locale over an abstract store that maps a tenant
  and a namespace to the sorted records of that partition, the consequences for the service,
  proved once for every conforming store, and the proof that the in-process store conforms.
\<close>

section \<open>The abstract store\<close>

type_synonym parts = "tenant_id \<Rightarrow> namespace_id \<Rightarrow> partition"

definition namespaces :: "parts \<Rightarrow> tenant_id \<Rightarrow> namespace_id set" where
  "namespaces m t = {n. m t n \<noteq> []}"

definition at_capacity :: "parts \<Rightarrow> memory_record \<Rightarrow> bool" where
  "at_capacity m r \<longleftrightarrow>
     (let part = m (mr_tenant_id r) (mr_namespace r) in
      part = [] \<and> MAX_TENANT_NAMESPACES \<le> card (namespaces m (mr_tenant_id r))
      \<or> bt_get part (mr_key r) = None \<and> MAX_PARTITION_RECORDS \<le> length part)"

definition update_part :: "parts \<Rightarrow> tenant_id \<Rightarrow> namespace_id \<Rightarrow> partition \<Rightarrow> parts" where
  "update_part m t n p = m(t := (m t)(n := p))"

definition spec_put :: "parts \<Rightarrow> memory_record \<Rightarrow> (write_outcome, memory_error) result \<times> parts" where
  "spec_put m r =
     (let part = m (mr_tenant_id r) (mr_namespace r) in
      case validate_record r of
        Inl e \<Rightarrow> (Inl e, m)
      | Inr _ \<Rightarrow>
          if at_capacity m r then (Inl LimitExceeded, m)
          else (Inr (if bt_get part (mr_key r) = None then Created else Replaced),
                update_part m (mr_tenant_id r) (mr_namespace r) (bt_insert (mr_key r) r part)))"

definition spec_get :: "parts \<Rightarrow> tenant_id \<Rightarrow> namespace_id \<Rightarrow> record_key
    \<Rightarrow> (memory_record option, memory_error) result" where
  "spec_get m t n k = Inr (bt_get (m t n) k)"

definition spec_query :: "parts \<Rightarrow> tenant_id \<Rightarrow> namespace_id \<Rightarrow> memory_query
    \<Rightarrow> (memory_record list, memory_error) result" where
  "spec_query m t n q = and_then (validate_query q) (\<lambda>_.
     Inr (take (unat (q_limit q)) (filter (query_matches q) (bt_values (m t n)))))"

definition spec_delete :: "parts \<Rightarrow> tenant_id \<Rightarrow> namespace_id \<Rightarrow> record_key
    \<Rightarrow> (bool, memory_error) result \<times> parts" where
  "spec_delete m t n k =
     (Inr (bt_get (m t n) k \<noteq> None), update_part m t n (bt_remove k (m t n)))"

section \<open>Histories of the service\<close>

datatype memory_op =
    Remember timestamp memory_context remember_request
  | Recall memory_context namespace_id record_key
  | Search memory_context namespace_id memory_query
  | Forget memory_context namespace_id record_key

datatype memory_reply =
    Remembered write_outcome | Recalled "memory_record option" | Found "memory_record list" | Forgot bool

fun memory_op_tenant :: "memory_op \<Rightarrow> tenant_id" where
  "memory_op_tenant (Remember now c r) = ctx_tenant_id c"
| "memory_op_tenant (Recall c n k) = ctx_tenant_id c"
| "memory_op_tenant (Search c n q) = ctx_tenant_id c"
| "memory_op_tenant (Forget c n k) = ctx_tenant_id c"

definition reply :: "('a \<Rightarrow> memory_reply) \<Rightarrow> ('a, memory_error) result \<Rightarrow> (memory_reply, memory_error) result"
where
  "reply f r = and_then r (\<lambda>x. Inr (f x))"

fun service_step :: "('s \<Rightarrow> memory_record \<Rightarrow> (write_outcome, memory_error) result \<times> 's)
    \<Rightarrow> ('s \<Rightarrow> tenant_id \<Rightarrow> namespace_id \<Rightarrow> record_key \<Rightarrow> (memory_record option, memory_error) result)
    \<Rightarrow> ('s \<Rightarrow> tenant_id \<Rightarrow> namespace_id \<Rightarrow> memory_query \<Rightarrow> (memory_record list, memory_error) result)
    \<Rightarrow> ('s \<Rightarrow> tenant_id \<Rightarrow> namespace_id \<Rightarrow> record_key \<Rightarrow> (bool, memory_error) result \<times> 's)
    \<Rightarrow> 's memory_service \<Rightarrow> memory_op
    \<Rightarrow> (memory_reply, memory_error) result \<times> 's memory_service" where
  "service_step p g q d sv (Remember now c r) = map_prod (reply Remembered) id (remember p sv now c r)"
| "service_step p g q d sv (Recall c n k) = (reply Recalled (recall g sv c n k), sv)"
| "service_step p g q d sv (Search c n r) = (reply Found (search q sv c n r), sv)"
| "service_step p g q d sv (Forget c n k) = map_prod (reply Forgot) id (forget d sv c n k)"

abbreviation spec_service_step where
  "spec_service_step \<equiv> service_step spec_put spec_get spec_query spec_delete"

section \<open>The port's contract\<close>

locale memory_store =
  fixes put_op :: "'s \<Rightarrow> memory_record \<Rightarrow> (write_outcome, memory_error) result \<times> 's"
    and get_op :: "'s \<Rightarrow> tenant_id \<Rightarrow> namespace_id \<Rightarrow> record_key \<Rightarrow> (memory_record option, memory_error) result"
    and query_op :: "'s \<Rightarrow> tenant_id \<Rightarrow> namespace_id \<Rightarrow> memory_query
      \<Rightarrow> (memory_record list, memory_error) result"
    and delete_op :: "'s \<Rightarrow> tenant_id \<Rightarrow> namespace_id \<Rightarrow> record_key \<Rightarrow> (bool, memory_error) result \<times> 's"
    and store_inv :: "'s \<Rightarrow> bool"
    and parts_of :: "'s \<Rightarrow> parts"
  assumes put_inv: "store_inv s \<Longrightarrow> store_inv (snd (put_op s r))"
    and put_refines: "store_inv s \<Longrightarrow> map_prod id parts_of (put_op s r) = spec_put (parts_of s) r"
    and get_refines: "store_inv s \<Longrightarrow> get_op s t n k = spec_get (parts_of s) t n k"
    and query_refines: "store_inv s \<Longrightarrow> query_op s t n q = spec_query (parts_of s) t n q"
    and delete_inv: "store_inv s \<Longrightarrow> store_inv (snd (delete_op s t n k))"
    and delete_refines: "store_inv s \<Longrightarrow> map_prod id parts_of (delete_op s t n k) = spec_delete (parts_of s) t n k"
begin

definition service_inv :: "'s memory_service \<Rightarrow> bool" where
  "service_inv sv = store_inv (sv_store sv)"

definition service_abs :: "'s memory_service \<Rightarrow> parts memory_service" where
  "service_abs sv = \<lparr>sv_store = parts_of (sv_store sv), result_ceiling = result_ceiling sv\<rparr>"

lemma spec_put_eq: "store_inv s \<Longrightarrow> put_op s r = (a, s') \<Longrightarrow> spec_put (parts_of s) r = (a, parts_of s')"
  using put_refines [of s r] by simp

lemma spec_delete_eq:
  "store_inv s \<Longrightarrow> delete_op s t n k = (a, s') \<Longrightarrow> spec_delete (parts_of s) t n k = (a, parts_of s')"
  using delete_refines [of s t n k] by simp

end

sublocale memory_store \<subseteq> service: refinement_machine
  "service_step put_op get_op query_op delete_op" service_inv service_abs spec_service_step
proof
  fix sv op
  assume inv: "service_inv sv"
  then show "service_inv (snd (service_step put_op get_op query_op delete_op sv op))"
    using put_inv delete_inv
    by (cases op) (auto simp: service_inv_def remember_def forget_def case_prod_beta Let_def split: sum.split)
  from inv have st: "store_inv (sv_store sv)" by (simp add: service_inv_def)
  show "spec_service_step (service_abs sv) op
    = map_prod id service_abs (service_step put_op get_op query_op delete_op sv op)"
    by (cases op)
      (auto simp: service_abs_def remember_def recall_def search_def forget_def Let_def
        get_refines [OF st] query_refines [OF st]
        split: sum.split prod.split dest: spec_put_eq [OF st] spec_delete_eq [OF st])
qed

section \<open>The in-process store conforms\<close>

definition tenant_ok :: "tenant \<Rightarrow> bool" where
  "tenant_ok tenant \<longleftrightarrow> bt_ok tenant \<and> (\<forall>n p. bt_get tenant n = Some p \<longrightarrow> p \<noteq> [] \<and> bt_ok p)"

definition ips_inv :: "in_process_store \<Rightarrow> bool" where
  "ips_inv store \<longleftrightarrow> \<not> poisoned (ips_tenants store) \<and> bt_ok (guarded (ips_tenants store))
     \<and> (\<forall>t tenant. bt_get (guarded (ips_tenants store)) t = Some tenant \<longrightarrow> tenant \<noteq> [] \<and> tenant_ok tenant)"

definition ips_parts :: "in_process_store \<Rightarrow> parts" where
  "ips_parts store t n = entry_value (entry_value (guarded (ips_tenants store)) t) n"

lemma entry_value_or_default [simp]: "entry_value (or_default m k) j = entry_value m j"
  by (simp add: entry_value_def or_default_def bt_contains_key_def split: option.split)

lemma entry_value_insert [simp]: "entry_value (bt_insert k v m) j = (if j = k then v else entry_value m j)"
  by (simp add: entry_value_def)

lemma entry_value_remove [simp]: "entry_value (bt_remove k m) j = (if j = k then [] else entry_value m j)"
  by (simp add: entry_value_def)

lemma entry_value_Some [simp]: "bt_get m k = Some v \<Longrightarrow> entry_value m k = v"
  by (simp add: entry_value_def)

lemma entry_value_None [simp]: "bt_get m k = None \<Longrightarrow> entry_value m k = []"
  by (simp add: entry_value_def)

lemma insert_or_default [simp]: "bt_insert k v (or_default m k) = bt_insert k v m"
  by (simp add: or_default_def)

lemma tenant_ok_Nil [simp]: "tenant_ok []"
  by (simp add: tenant_ok_def)

lemma tenant_okD:
  assumes "tenant_ok tenant"
  shows "bt_ok tenant" and "bt_get tenant n = Some p \<Longrightarrow> p \<noteq> []" and "bt_ok (entry_value tenant n)"
    and "bt_get tenant n = None \<longleftrightarrow> entry_value tenant n = []"
  using assms by (auto simp: tenant_ok_def entry_value_def split: option.splits)

lemma tenant_namespaces:
  assumes "tenant_ok tenant"
  shows "length tenant = card {n. entry_value tenant n \<noteq> []}"
proof -
  have "{n. entry_value tenant n \<noteq> []} = fst ` set tenant"
    using tenant_okD(4) [OF assms] by (auto simp: map_of_eq_None_iff)
  then show ?thesis
    using bt_ok_distinct [OF tenant_okD(1) [OF assms]]
    by (metis distinct_card length_map list.set_map)
qed

lemma ips_invD:
  assumes "ips_inv store"
  shows "\<not> poisoned (ips_tenants store)" and "bt_ok (guarded (ips_tenants store))"
    and "tenant_ok (entry_value (guarded (ips_tenants store)) t)"
  using assms by (auto simp: ips_inv_def entry_value_def split: option.splits)

lemma put_tenants_correct:
  assumes ok: "tenant_ok (entry_value tenants (mr_tenant_id r))"
    and capacity: "at_capacity (\<lambda>t n. entry_value (entry_value tenants t) n) r = full"
  shows "put_tenants tenants r =
    (let part = entry_value (entry_value tenants (mr_tenant_id r)) (mr_namespace r) in
     if full then (Inl LimitExceeded, or_default tenants (mr_tenant_id r))
     else (Inr (if bt_get part (mr_key r) = None then Created else Replaced),
           bt_insert (mr_tenant_id r) (bt_insert (mr_namespace r) (bt_insert (mr_key r) r part)
             (entry_value tenants (mr_tenant_id r))) tenants))"
proof -
  let ?tenant = "entry_value tenants (mr_tenant_id r)"
  let ?part = "entry_value ?tenant (mr_namespace r)"
  have "check_capacity (length ?tenant) (bt_get ?tenant (mr_namespace r) = None)
      (case bt_get ?tenant (mr_namespace r) of None \<Rightarrow> 0 | Some p \<Rightarrow> length p)
      (case bt_get ?tenant (mr_namespace r) of None \<Rightarrow> True | Some held \<Rightarrow> \<not> bt_contains_key held (mr_key r))
    = (if full then Inl LimitExceeded else Inr ())"
    using tenant_namespaces [OF ok] tenant_okD(4) [OF ok, of "mr_namespace r"] capacity
    by (cases "bt_get ?tenant (mr_namespace r)")
      (auto simp: check_capacity_def at_capacity_def namespaces_def Let_def bt_contains_key_def
        MAX_PARTITION_RECORDS_def)
  then show ?thesis
    by (cases full) (auto simp: put_tenants_def Let_def)
qed

text \<open>
  A tenant without an entry has no namespaces, so the capacity test cannot refuse its first
  record: the empty tenant \<open>entry().or_default()\<close> creates before the test is always filled.
\<close>

lemma fresh_tenant_not_full:
  assumes "entry_value tenants (mr_tenant_id r) = []"
  shows "\<not> at_capacity (\<lambda>t n. entry_value (entry_value tenants t) n) r"
  using assms by (simp add: at_capacity_def namespaces_def Let_def MAX_TENANT_NAMESPACES_def
      MAX_PARTITION_RECORDS_def entry_value_def)

lemma put_correct:
  assumes inv: "ips_inv store"
  shows "put store r =
    (let (t, n, k) = (mr_tenant_id r, mr_namespace r, mr_key r);
         tenants = guarded (ips_tenants store); part = ips_parts store t n in
     case validate_record r of
       Inl e \<Rightarrow> (Inl e, store)
     | Inr _ \<Rightarrow> if at_capacity (ips_parts store) r then (Inl LimitExceeded, store)
         else (Inr (if bt_get part k = None then Created else Replaced),
           store\<lparr>ips_tenants := (ips_tenants store)\<lparr>guarded :=
             bt_insert t (bt_insert n (bt_insert k r part) (entry_value tenants t)) tenants\<rparr>\<rparr>))"
proof -
  let ?tenants = "guarded (ips_tenants store)" and ?t = "mr_tenant_id r"
  have eq: "ips_parts store = (\<lambda>t n. entry_value (entry_value ?tenants t) n)"
    by (simp add: ips_parts_def fun_eq_iff)
  have "or_default ?tenants ?t = ?tenants" if "at_capacity (ips_parts store) r"
  proof -
    from that fresh_tenant_not_full have "entry_value ?tenants ?t \<noteq> []" unfolding eq by blast
    then show ?thesis by (auto simp: or_default_def bt_contains_key_def entry_value_def split: option.splits)
  qed
  then show ?thesis
    using put_tenants_correct [OF ips_invD(3) [OF inv], of r] ips_invD(1) [OF inv]
    by (auto simp: put_def lock_def Let_def eq split: sum.split)
qed

lemma bt_remove_last:
  assumes "tenant_ok tenant" and "bt_ok p"
  shows "tenant_ok (if bt_remove k p = [] then bt_remove n tenant else bt_insert n (bt_remove k p) tenant)"
  using assms by (auto simp: tenant_ok_def split: if_splits)

lemma delete_tenants_correct:
  assumes ok: "bt_ok tenants" "\<And>t tenant. bt_get tenants t = Some tenant \<Longrightarrow> tenant \<noteq> [] \<and> tenant_ok tenant"
    and del: "delete_tenants tenants t n k = (removed, tenants')"
  shows "(removed \<longleftrightarrow> bt_get (entry_value (entry_value tenants t) n) k \<noteq> None) \<and> bt_ok tenants'
    \<and> (\<forall>u tenant. bt_get tenants' u = Some tenant \<longrightarrow> tenant \<noteq> [] \<and> tenant_ok tenant)
    \<and> (\<forall>u m. entry_value (entry_value tenants' u) m =
      (if u = t \<and> m = n then bt_remove k (entry_value (entry_value tenants t) n)
       else entry_value (entry_value tenants u) m))"
proof -
  consider (none) "bt_get tenants t = None"
    | (no_ns) tn where "bt_get tenants t = Some tn" "bt_get tn n = None"
    | (found) tn p where "bt_get tenants t = Some tn" "bt_get tn n = Some p"
    by fastforce
  then show ?thesis
  proof cases
    case none
    then show ?thesis using ok del by (auto simp: delete_tenants_def bt_remove_def)
  next
    case no_ns
    then show ?thesis using ok del by (auto simp: delete_tenants_def bt_remove_def)
  next
    case found
    define tn' where "tn' = (if bt_remove k p = [] then bt_remove n tn else bt_insert n (bt_remove k p) tn)"
    from ok(2) [OF found(1)] found(2) have "tenant_ok tn" "bt_ok p" by (auto simp: tenant_ok_def)
    then have tn': "tenant_ok tn'" unfolding tn'_def by (rule bt_remove_last)
    have val: "entry_value tn' m = (if m = n then bt_remove k p else entry_value tn m)" for m
      by (simp add: tn'_def)
    from del found have removed: "removed = (bt_get p k \<noteq> None)"
      and tenants': "tenants' = (if tn' = [] then bt_remove t tenants else bt_insert t tn' tenants)"
      by (auto simp: delete_tenants_def Let_def tn'_def)
    have get: "entry_value tenants' u = (if u = t then tn' else entry_value tenants u)" for u
      by (simp add: tenants')
    have "\<forall>u tenant. bt_get tenants' u = Some tenant \<longrightarrow> tenant \<noteq> [] \<and> tenant_ok tenant"
      using ok(2) tn' by (auto simp: tenants' split: if_splits)
    moreover have "bt_ok tenants'" using ok(1) by (simp add: tenants')
    ultimately show ?thesis using found removed by (simp add: get val)
  qed
qed

interpretation ips: memory_store put get query delete ips_inv ips_parts
proof
  fix store r t n k q
  assume inv: "ips_inv store"
  note ok = ips_invD [OF inv]
  show "ips_inv (snd (put store r))"
    using inv ok tenant_okD(3) [OF ok(3)]
    by (auto simp: put_correct [OF inv] ips_inv_def ips_parts_def tenant_ok_def Let_def split: sum.split)
  show "map_prod id ips_parts (put store r) = spec_put (ips_parts store) r"
    by (auto simp: put_correct [OF inv] spec_put_def Let_def ips_parts_def update_part_def fun_eq_iff
        split: sum.split)
  show "get store t n k = spec_get (ips_parts store) t n k"
    using ok(1) by (auto simp: get_def spec_get_def lock_def ips_parts_def entry_value_def split: option.split)
  show "query store t n q = spec_query (ips_parts store) t n q"
    using ok(1) by (auto simp: query_def spec_query_def lock_def ips_parts_def entry_value_def bt_values_def
        split: option.split)
  obtain removed tenants' where del: "delete_tenants (guarded (ips_tenants store)) t n k = (removed, tenants')"
    by fastforce
  have all: "bt_get (guarded (ips_tenants store)) u = Some tenant \<Longrightarrow> tenant \<noteq> [] \<and> tenant_ok tenant" for u tenant
    using inv by (simp add: ips_inv_def)
  note D = delete_tenants_correct [OF ok(2) all del]
  have delete: "delete store t n k
    = (Inr removed, store\<lparr>ips_tenants := (ips_tenants store)\<lparr>guarded := tenants'\<rparr>\<rparr>)"
    using ok(1) by (simp add: delete_def lock_def del)
  show "ips_inv (snd (delete store t n k))"
    using D ok(1) by (simp add: delete ips_inv_def)
  show "map_prod id ips_parts (delete store t n k) = spec_delete (ips_parts store) t n k"
    using D by (simp add: delete spec_delete_def ips_parts_def update_part_def fun_eq_iff)
qed

end
