(* ===== verification/Memory_Properties.thy ===== *)
theory Memory_Properties
  imports Memory_Proofs
begin

text \<open>
  What holds of the memory service over the in-process store for every history, and what the
  service guarantees over any store at all.
\<close>

abbreviation local_service_step where
  "local_service_step \<equiv> service_step put get query delete"

section \<open>Noninterference\<close>

definition memory_view :: "in_process_store memory_service \<Rightarrow> tenant_id \<Rightarrow> u32 \<times> bool \<times> tenant" where
  "memory_view sv t = (result_ceiling sv, poisoned (ips_tenants (sv_store sv)),
     entry_value (guarded (ips_tenants (sv_store sv))) t)"

lemma put_tenants_own:
  assumes "entry_value a (mr_tenant_id r) = entry_value b (mr_tenant_id r)"
  shows "fst (put_tenants a r) = fst (put_tenants b r)
    \<and> entry_value (snd (put_tenants a r)) (mr_tenant_id r) = entry_value (snd (put_tenants b r)) (mr_tenant_id r)"
  using assms by (simp add: put_tenants_def Let_def split: sum.split)

lemma put_tenants_foreign:
  "t \<noteq> mr_tenant_id r \<Longrightarrow> entry_value (snd (put_tenants a r)) t = entry_value a t"
  by (simp add: put_tenants_def Let_def split: sum.split)

text \<open>A tenant without an entry and one with an empty entry are the same to a deletion.\<close>

lemma delete_tenants_view:
  "delete_tenants a t n k =
     (let tenant = entry_value a t in
      case bt_get tenant n of
        None \<Rightarrow> (False, a)
      | Some part \<Rightarrow>
          let tenant' = (if bt_remove k part = [] then bt_remove n tenant
                else bt_insert n (bt_remove k part) tenant) in
          (bt_get part k \<noteq> None, if tenant' = [] then bt_remove t a else bt_insert t tenant' a))"
  by (cases "bt_get a t") (auto simp: delete_tenants_def Let_def split: option.split)

lemma delete_tenants_own:
  assumes "entry_value a t = entry_value b t"
  shows "fst (delete_tenants a t n k) = fst (delete_tenants b t n k)
    \<and> entry_value (snd (delete_tenants a t n k)) t = entry_value (snd (delete_tenants b t n k)) t"
  using assms by (auto simp: delete_tenants_view Let_def split: option.split)

lemma delete_tenants_foreign:
  "u \<noteq> t \<Longrightarrow> entry_value (snd (delete_tenants a t n k)) u = entry_value a u"
  by (auto simp: delete_tenants_view Let_def split: option.split)

lemma reads_by_view:
  "get store t n k = and_then (lock (ips_tenants store) AdapterFailure) (\<lambda>tenants.
     Inr (Option.bind (bt_get (entry_value tenants t) n) (\<lambda>part. bt_get part k)))"
  "query store t n q = and_then (validate_query q) (\<lambda>_.
     and_then (lock (ips_tenants store) AdapterFailure) (\<lambda>tenants.
       case bt_get (entry_value tenants t) n of
         None \<Rightarrow> Inr []
       | Some part \<Rightarrow> Inr (take (unat (q_limit q)) (filter (query_matches q) (bt_values part)))))"
  by (auto simp: get_def query_def lock_def entry_value_def split: option.split sum.split)

interpretation ips_isolation: tenant_isolation local_service_step memory_op_tenant memory_view
proof
  fix op t sv
  assume foreign: "memory_op_tenant op \<noteq> t"
  then show "memory_view (snd (local_service_step sv op)) t = memory_view sv t"
    by (cases op) (auto simp: memory_view_def remember_def forget_def put_def delete_def lock_def Let_def
        remembered_def case_prod_beta put_tenants_foreign delete_tenants_foreign split: sum.split)
next
  fix sv sv' :: "in_process_store memory_service" and op
  assume same: "memory_view sv (memory_op_tenant op) = memory_view sv' (memory_op_tenant op)"
  show "fst (local_service_step sv op) = fst (local_service_step sv' op)
    \<and> memory_view (snd (local_service_step sv op)) (memory_op_tenant op)
      = memory_view (snd (local_service_step sv' op)) (memory_op_tenant op)"
  proof (cases op)
    case (Remember now c r)
    with same put_tenants_own [of "guarded (ips_tenants (sv_store sv))" "remembered now c r"
        "guarded (ips_tenants (sv_store sv'))"]
    show ?thesis
      by (auto simp: memory_view_def remember_def put_def lock_def Let_def remembered_def case_prod_beta
          split: sum.split)
  next
    case (Recall c n k)
    with same show ?thesis by (simp add: memory_view_def recall_def reads_by_view lock_def)
  next
    case (Search c n q)
    with same show ?thesis by (simp add: memory_view_def search_def reads_by_view lock_def)
  next
    case (Forget c n k)
    with same delete_tenants_own [of "guarded (ips_tenants (sv_store sv))" "ctx_tenant_id c"
        "guarded (ips_tenants (sv_store sv'))" n k]
    show ?thesis
      by (auto simp: memory_view_def forget_def delete_def lock_def Let_def case_prod_beta)
  qed
qed

section \<open>The invariant of the abstract store\<close>

definition record_at :: "tenant_id \<Rightarrow> namespace_id \<Rightarrow> record_key \<times> memory_record \<Rightarrow> bool" where
  "record_at t n e \<longleftrightarrow> mr_tenant_id (snd e) = t \<and> mr_namespace (snd e) = n \<and> mr_key (snd e) = fst e
     \<and> validate_record (snd e) = Inr ()"

definition parts_inv :: "parts \<Rightarrow> bool" where
  "parts_inv m \<longleftrightarrow> (\<forall>t. finite (namespaces m t) \<and> card (namespaces m t) \<le> MAX_TENANT_NAMESPACES
     \<and> (\<forall>n. bt_ok (m t n) \<and> list_all (record_at t n) (m t n) \<and> length (m t n) \<le> MAX_PARTITION_RECORDS))"

lemma update_part_apply: "update_part m t n p u v = (if u = t \<and> v = n then p else m u v)"
  by (simp add: update_part_def)

lemma parts_invD:
  assumes "parts_inv m"
  shows "finite (namespaces m t)" "card (namespaces m t) \<le> MAX_TENANT_NAMESPACES"
    "bt_ok (m t n)" "list_all (record_at t n) (m t n)" "length (m t n) \<le> MAX_PARTITION_RECORDS"
  using assms by (auto simp: parts_inv_def)

lemma namespaces_update:
  "namespaces (update_part m t n p) u =
     (if u = t then (if p = [] then namespaces m t - {n} else insert n (namespaces m t)) else namespaces m u)"
  by (auto simp: namespaces_def update_part_def)

lemma parts_inv_put: "parts_inv m \<Longrightarrow> parts_inv (snd (spec_put m r))"
proof (cases "is_ok (fst (spec_put m r))")
  case False
  assume "parts_inv m"
  with False show ?thesis by (auto simp: spec_put_def Let_def split: sum.splits if_splits)
next
  case True
  assume inv: "parts_inv m"
  let ?t = "mr_tenant_id r" and ?n = "mr_namespace r"
  let ?part = "m ?t ?n"
  from True have valid: "validate_record r = Inr ()" and room: "\<not> at_capacity m r"
    and m': "snd (spec_put m r) = update_part m ?t ?n (bt_insert (mr_key r) r ?part)"
    by (auto simp: spec_put_def Let_def split: sum.splits if_splits)
  note ok = parts_invD(3-5,1,2) [OF inv]
  have "length (bt_insert (mr_key r) r ?part) \<le> MAX_PARTITION_RECORDS"
    using room ok(3) [of ?t ?n] by (auto simp: length_bt_insert ok(1) at_capacity_def Let_def split: option.split)
  moreover have "list_all (record_at ?t ?n) (bt_insert (mr_key r) r ?part)"
    using ok(2) [of ?t ?n] valid by (auto simp: list_all_iff set_bt_insert [OF ok(1)] record_at_def)
  moreover have "card (insert ?n (namespaces m ?t)) \<le> MAX_TENANT_NAMESPACES"
    using room ok(4,5) [of ?t] by (auto simp: card_insert_if at_capacity_def Let_def namespaces_def)
  ultimately show ?thesis
    unfolding m' parts_inv_def using ok by (auto simp: namespaces_update update_part_apply)
qed

lemma parts_inv_delete: "parts_inv m \<Longrightarrow> parts_inv (snd (spec_delete m t n k))"
proof -
  assume inv: "parts_inv m"
  have "length (bt_remove k (m t n)) \<le> length (m t n)" by (simp add: bt_remove_def)
  moreover have "card (namespaces m t - {n}) \<le> card (namespaces m t)"
    using inv by (intro card_mono) (auto simp: parts_inv_def)
  moreover have "insert n (namespaces m t) = namespaces m t" if "bt_remove k (m t n) \<noteq> []"
    using that by (auto simp: namespaces_def bt_remove_def)
  ultimately show ?thesis
    using inv unfolding parts_inv_def
    by (auto simp: spec_delete_def namespaces_update update_part_apply list_all_iff set_bt_remove
        intro: order_trans)
qed

interpretation parts_machine: invariant_machine spec_service_step "\<lambda>sv. parts_inv (sv_store sv)"
proof
  fix sv :: "parts memory_service" and op
  assume "parts_inv (sv_store sv)"
  then show "parts_inv (sv_store (snd (spec_service_step sv op)))"
    using parts_inv_put parts_inv_delete
    by (cases op) (auto simp: remember_def forget_def case_prod_beta Let_def split: sum.split)
qed

section \<open>Reachable services\<close>

abbreviation local_service :: "u32 \<Rightarrow> in_process_store memory_service" where
  "local_service ceiling \<equiv> \<lparr>sv_store = in_process_store_new, result_ceiling = ceiling\<rparr>"

abbreviation reached_service :: "u32 \<Rightarrow> memory_op list \<Rightarrow> in_process_store memory_service" where
  "reached_service ceiling ops \<equiv> run local_service_step (local_service ceiling) ops"

abbreviation empty_service :: "u32 \<Rightarrow> parts memory_service" where
  "empty_service ceiling \<equiv> \<lparr>sv_store = \<lambda>t n. [], result_ceiling = ceiling\<rparr>"

lemma ips_inv_new: "ips_inv in_process_store_new"
  by (simp add: ips_inv_def in_process_store_new_def)

lemma service_inv_new: "ips.service_inv (local_service ceiling)"
  by (simp add: ips.service_inv_def ips_inv_new)

lemma service_abs_new: "ips.service_abs (local_service ceiling) = empty_service ceiling"
  by (simp add: ips.service_abs_def ips_parts_def in_process_store_new_def entry_value_def fun_eq_iff)

lemma reached_store_inv: "ips_inv (sv_store (reached_service ceiling ops))"
  using ips.service.run_inv [OF service_inv_new] by (simp add: ips.service_inv_def)

lemma reached_parts:
  "ips_parts (sv_store (reached_service ceiling ops)) = sv_store (run spec_service_step (empty_service ceiling) ops)"
  "result_ceiling (reached_service ceiling ops) = result_ceiling (run spec_service_step (empty_service ceiling) ops)"
  using ips.service.run_refines [OF service_inv_new, of ceiling ops]
  by (simp_all add: service_abs_new) (simp_all add: ips.service_abs_def)

lemma reached_parts_inv: "parts_inv (ips_parts (sv_store (reached_service ceiling ops)))"
  unfolding reached_parts
  by (rule parts_machine.run_inv) (simp add: parts_inv_def namespaces_def)

lemma step_ceiling: "result_ceiling (snd (local_service_step sv op)) = result_ceiling sv"
  by (cases op) (auto simp: remember_def forget_def case_prod_beta Let_def split: sum.split)

lemma reached_ceiling [simp]: "result_ceiling (reached_service ceiling ops) = ceiling"
proof -
  have "result_ceiling (run local_service_step sv ops) = result_ceiling sv" for sv
    by (induction ops arbitrary: sv) (simp_all add: step_ceiling)
  then show ?thesis by simp
qed

section \<open>Properties\<close>

text \<open>C2: Noninterference of tenants. In any interleaving of calls of any tenants, the results a
  tenant gets from the service over the in-process store are exactly the results it would have
  got had the other tenants made no call: nothing of another tenant is observable, neither its
  records nor their number nor their absence.\<close>

theorem memory_noninterference:
  "map snd (filter (\<lambda>p. memory_op_tenant (fst p) = t)
       (zip ops (outputs local_service_step (local_service ceiling) ops)))
   = outputs local_service_step (local_service ceiling) (filter (\<lambda>op. memory_op_tenant op = t) ops)"
  by (rule ips_isolation.purge_outputs [OF refl])

text \<open>C10: For every history the service over the in-process store returns what it returns over
  the abstract store, a sorted map of records per tenant and namespace: a write is refused
  exactly for an invalid record, a 65th namespace or a 4097th record of a partition, and no call
  fails with an adapter failure.\<close>

theorem memory_refines_abstract_store:
  "outputs local_service_step (local_service ceiling) ops
   = outputs spec_service_step (empty_service ceiling) ops"
  using ips.service.outputs_refine [OF service_inv_new, of ceiling ops] by (simp add: service_abs_new)

text \<open>C21: In every reachable state each tenant holds between one and 64 namespaces, each namespace
  between one and 4096 records (emptied levels are reclaimed), and every record is valid and
  stored under its own tenant, namespace and key.\<close>

theorem memory_capacity_invariant:
  "list_all (\<lambda>(t, tenant). tenant \<noteq> [] \<and> length tenant \<le> 64
     \<and> list_all (\<lambda>(n, part). part \<noteq> [] \<and> length part \<le> 4096 \<and> list_all (record_at t n) part) tenant)
   (guarded (ips_tenants (sv_store (reached_service ceiling ops))))"
proof -
  let ?store = "sv_store (reached_service ceiling ops)"
  let ?tenants = "guarded (ips_tenants ?store)"
  have part: "part \<noteq> [] \<and> length part \<le> 4096 \<and> list_all (record_at t n) part"
    if t: "(t, tenant) \<in> set ?tenants" and n: "(n, part) \<in> set tenant" for t tenant n part
  proof -
    have get: "bt_get ?tenants t = Some tenant"
      using t bt_get_iff [OF ips_invD(2) [OF reached_store_inv]] by simp
    then have ok: "tenant_ok tenant" using reached_store_inv by (simp add: ips_inv_def)
    with n have "bt_get tenant n = Some part" using bt_get_iff [OF tenant_okD(1)] by simp
    moreover from this get have "ips_parts ?store t n = part" by (simp add: ips_parts_def)
    ultimately show ?thesis
      using reached_parts_inv [of ceiling ops] tenant_okD(2) [OF ok]
      by (auto simp: parts_inv_def MAX_PARTITION_RECORDS_def)
  qed
  have "tenant \<noteq> [] \<and> length tenant \<le> 64" if "(t, tenant) \<in> set ?tenants" for t tenant
  proof -
    have get: "bt_get ?tenants t = Some tenant"
      using that bt_get_iff [OF ips_invD(2) [OF reached_store_inv]] by simp
    then have ok: "tenant \<noteq> []" "tenant_ok tenant" using reached_store_inv by (auto simp: ips_inv_def)
    have "namespaces (ips_parts ?store) t = {n. entry_value tenant n \<noteq> []}"
      using get by (simp add: namespaces_def ips_parts_def)
    then show ?thesis
      using ok tenant_namespaces [OF ok(2)] parts_invD(2) [OF reached_parts_inv, of ceiling ops t]
      by (simp add: MAX_TENANT_NAMESPACES_def)
  qed
  with part show ?thesis by (fastforce simp: list_all_iff)
qed

text \<open>A call that returns an error leaves the store exactly as it was, although the source
  creates the tenant's entry before it tests the capacity.\<close>

lemma memory_failure_leaves_no_trace:
  assumes "fst (local_service_step (reached_service ceiling ops) op) = Inl e"
  shows "snd (local_service_step (reached_service ceiling ops) op) = reached_service ceiling ops"
proof (cases op)
  case (Remember now c r)
  with assms show ?thesis
    by (auto simp: remember_def reply_def Let_def put_correct [OF reached_store_inv] split: sum.splits if_splits)
next
  case (Forget c n k)
  with assms ips_invD(1) [OF reached_store_inv, of ceiling ops] show ?thesis
    by (auto simp: forget_def reply_def delete_def lock_def case_prod_beta)
qed (use assms in auto)

definition demo_context :: memory_context where
  "demo_context = \<lparr>ctx_tenant_id = ''acme''\<rparr>"

definition demo_request :: remember_request where
  "demo_request = \<lparr>rq_namespace = ''notes'', rq_key = ''k1'', rq_kind = Factual, rq_content = ''sky'',
     rq_tags = [], rq_metadata = [(''a'', ''b'')], rq_run_id = Some ''run-1''\<rparr>"

definition demo_bad_request :: remember_request where
  "demo_bad_request = demo_request\<lparr>rq_content := []\<rparr>"

lemma demo_valid: "validate_record (remembered now demo_context demo_request) = Inr ()"
  by (simp add: validate_record_def remembered_def demo_request_def sort_dedup_def MAX_CONTENT_BYTES_def
      MAX_TAGS_def MAX_METADATA_ENTRIES_def MAX_METADATA_ENTRY_BYTES_def)

lemma memory_failure_leaves_no_trace_witness:
  "fst (local_service_step (reached_service 8 []) (Remember 5 demo_context demo_bad_request)) = Inl InvalidRecord
   \<and> snd (local_service_step (reached_service 8 []) (Remember 5 demo_context demo_bad_request)) = reached_service 8 []"
proof -
  have "fst (local_service_step (reached_service 8 []) (Remember 5 demo_context demo_bad_request)) = Inl InvalidRecord"
    by (simp add: remember_def reply_def validate_record_def remembered_def demo_bad_request_def)
  with memory_failure_leaves_no_trace [OF this] show ?thesis by simp
qed

lemma remembered_address [simp]:
  "mr_tenant_id (remembered now c r) = ctx_tenant_id c"
  "mr_namespace (remembered now c r) = rq_namespace r"
  "mr_key (remembered now c r) = rq_key r"
  by (simp_all add: remembered_def)

lemma recall_reached:
  assumes "ips_inv (sv_store sv)" and "parts_inv (ips_parts (sv_store sv))"
  shows "recall get sv c n k = Inr (bt_get (ips_parts (sv_store sv) (ctx_tenant_id c) n) k)"
proof -
  have "record_at (ctx_tenant_id c) n (k, r)"
    if "bt_get (ips_parts (sv_store sv) (ctx_tenant_id c) n) k = Some r" for r
    using map_of_SomeD [OF that] parts_invD(4) [OF assms(2), of "ctx_tenant_id c" n] by (auto simp: list_all_iff)
  then show ?thesis
    by (auto simp: recall_def ips.get_refines [OF assms(1)] spec_get_def is_addressed_def record_at_def
        split: option.split)
qed

text \<open>After a successful remember, recall returns the record with the caller's tenant and the
  service's clock reading, the outcome says whether a record was there before, every other
  record of the tenant is as before, and after forget the record is gone and forget reports it.\<close>

lemma remember_recall_forget:
  assumes "remember put (reached_service ceiling ops) now c r = (Inr w, sv)"
  shows "recall get sv c (rq_namespace r) (rq_key r) = Inr (Some (remembered now c r))
    \<and> (w = Created \<longleftrightarrow> recall get (reached_service ceiling ops) c (rq_namespace r) (rq_key r) = Inr None)
    \<and> (recall get sv c n k = recall get (reached_service ceiling ops) c n k
        \<or> (n, k) = (rq_namespace r, rq_key r))
    \<and> fst (forget delete sv c (rq_namespace r) (rq_key r)) = Inr True
    \<and> recall get (snd (forget delete sv c (rq_namespace r) (rq_key r))) c (rq_namespace r) (rq_key r) = Inr None"
proof -
  let ?sv = "reached_service ceiling ops"
  have old: "ips_inv (sv_store ?sv)" "parts_inv (ips_parts (sv_store ?sv))"
    by (rule reached_store_inv reached_parts_inv)+
  from assms obtain store where put: "put (sv_store ?sv) (remembered now c r) = (Inr w, store)"
    and sv: "sv = ?sv\<lparr>sv_store := store\<rparr>"
    by (auto simp: remember_def Let_def split: sum.splits prod.splits)
  note spec = ips.spec_put_eq [OF old(1) put]
  have new: "ips_inv store" "parts_inv (ips_parts store)"
    using ips.put_inv [OF old(1), of "remembered now c r"] put parts_inv_put [OF old(2), of "remembered now c r"] spec
    by auto
  obtain b store' where del: "delete store (ctx_tenant_id c) (rq_namespace r) (rq_key r) = (b, store')"
    by fastforce
  note spec' = ips.spec_delete_eq [OF new(1) del]
  have gone: "ips_inv store'" "parts_inv (ips_parts store')"
    using ips.delete_inv [OF new(1), of "ctx_tenant_id c" "rq_namespace r" "rq_key r"] del
      parts_inv_delete [OF new(2), of "ctx_tenant_id c" "rq_namespace r" "rq_key r"] spec' by auto
  from spec have "w = (if bt_get (ips_parts (sv_store ?sv) (ctx_tenant_id c) (rq_namespace r)) (rq_key r) = None
      then Created else Replaced)"
    and "ips_parts store = update_part (ips_parts (sv_store ?sv)) (ctx_tenant_id c) (rq_namespace r)
      (bt_insert (rq_key r) (remembered now c r) (ips_parts (sv_store ?sv) (ctx_tenant_id c) (rq_namespace r)))"
    by (auto simp: spec_put_def Let_def split: sum.splits if_splits)
  moreover from spec' have
    "ips_parts store' = update_part (ips_parts store) (ctx_tenant_id c) (rq_namespace r)
      (bt_remove (rq_key r) (ips_parts store (ctx_tenant_id c) (rq_namespace r)))"
    "b = Inr (bt_get (ips_parts store (ctx_tenant_id c) (rq_namespace r)) (rq_key r) \<noteq> None)"
    by (auto simp: spec_delete_def)
  moreover have "recall get ?sv c n k = Inr (bt_get (ips_parts (sv_store ?sv) (ctx_tenant_id c) n) k)"
    "recall get (?sv\<lparr>sv_store := store\<rparr>) c n k = Inr (bt_get (ips_parts store (ctx_tenant_id c) n) k)"
    "recall get (?sv\<lparr>sv_store := store'\<rparr>) c n k = Inr (bt_get (ips_parts store' (ctx_tenant_id c) n) k)" for n k
    using old new gone by (simp_all add: recall_reached)
  ultimately show ?thesis
    by (auto simp: sv forget_def del update_part_apply)
qed

lemma remember_recall_forget_witness:
  "\<exists>sv. remember put (reached_service 8 []) 5 demo_context demo_request = (Inr Created, sv)
     \<and> recall get sv demo_context ''notes'' ''k1'' = Inr (Some (remembered 5 demo_context demo_request))"
proof -
  have "spec_put (ips_parts (sv_store (reached_service 8 []))) (remembered 5 demo_context demo_request)
      = (Inr Created, snd (spec_put (ips_parts (sv_store (reached_service 8 []))) (remembered 5 demo_context demo_request)))"
    by (simp add: spec_put_def demo_valid at_capacity_def Let_def reached_parts namespaces_def
        MAX_TENANT_NAMESPACES_def MAX_PARTITION_RECORDS_def del: run.simps) (simp add: run.simps)
  then have "fst (put in_process_store_new (remembered 5 demo_context demo_request)) = Inr Created"
    using ips.put_refines [OF ips_inv_new, of "remembered 5 demo_context demo_request"]
    by (simp add: prod_eq_iff)
  then obtain sv where sv: "remember put (reached_service 8 []) 5 demo_context demo_request = (Inr Created, sv)"
    by (simp add: remember_def demo_valid case_prod_beta)
  from remember_recall_forget [OF sv] sv show ?thesis by (simp add: demo_request_def)
qed

text \<open>Search over the in-process store returns, for a valid query within the ceiling, the first
  \<open>limit\<close> records of the tenant's namespace in key order that satisfy every filter: one of the
  kinds, all the tags, the term as a substring, and a recorded time in the half-open window.\<close>

lemma search_exact:
  assumes "validate_query q = Inr ()" and "q_limit q \<le> ceiling"
  shows "search query (reached_service ceiling ops) c n q =
    Inr (take (unat (q_limit q)) (filter (\<lambda>r.
        (q_kinds q = [] \<or> mr_kind r \<in> set (q_kinds q))
        \<and> set (q_tags q) \<subseteq> set (mr_tags r)
        \<and> (\<forall>term. q_term q = Some term \<longrightarrow> (\<exists>a b. mr_content r = a @ term @ b))
        \<and> (q_since q = None \<and> q_until q = None
            \<or> (\<exists>p. mr_provenance r = Some p \<and> (\<forall>b. q_since q = Some b \<longrightarrow> b \<le> pv_recorded_at p)
                \<and> (\<forall>b. q_until q = Some b \<longrightarrow> pv_recorded_at p < b))))
      (map snd (ips_parts (sv_store (reached_service ceiling ops)) (ctx_tenant_id c) n))))"
proof -
  let ?sv = "reached_service ceiling ops"
  let ?part = "ips_parts (sv_store ?sv) (ctx_tenant_id c) n"
  have "list_all (record_at (ctx_tenant_id c) n) ?part"
    by (rule parts_invD(4) [OF reached_parts_inv])
  then have "filter (is_addressed c n None) (take m (filter (query_matches q) (bt_values ?part)))
      = take m (filter (query_matches q) (bt_values ?part))" for m
    unfolding filter_id_conv
    by (fastforce simp: list_all_iff record_at_def is_addressed_def bt_values_def dest: in_set_takeD)
  moreover have "query_matches q = (\<lambda>r.
        (q_kinds q = [] \<or> mr_kind r \<in> set (q_kinds q))
        \<and> set (q_tags q) \<subseteq> set (mr_tags r)
        \<and> (\<forall>term. q_term q = Some term \<longrightarrow> (\<exists>a b. mr_content r = a @ term @ b))
        \<and> (q_since q = None \<and> q_until q = None
            \<or> (\<exists>p. mr_provenance r = Some p \<and> (\<forall>b. q_since q = Some b \<longrightarrow> b \<le> pv_recorded_at p)
                \<and> (\<forall>b. q_until q = Some b \<longrightarrow> pv_recorded_at p < b))))"
    by (auto simp: fun_eq_iff query_matches_def str_contains_iff list_all_iff list_ex_iff split: option.splits)
  ultimately show ?thesis
    using assms by (simp add: search_def ips.query_refines [OF reached_store_inv] spec_query_def bt_values_def)
qed

lemma search_exact_witness:
  "\<exists>q. query_all 2 = Inr q \<and> search query (reached_service 8 []) demo_context ''notes'' q = Inr []"
proof -
  obtain q where q: "query_all 2 = Inr q" "validate_query q = Inr ()" "q_limit q \<le> 8"
    by (simp add: query_all_def validate_query_def validate_term_def sort_dedup_def MAX_QUERY_LIMIT_def)
  from search_exact [OF q(2,3), of "[]" demo_context "''notes''"] q(1) show ?thesis
    by (simp add: ips_parts_def in_process_store_new_def entry_value_def)
qed

text \<open>C24: Whatever store the service is composed with, also one that ignores the port's contract,
  recall never returns a record of another tenant, namespace or key, and search never returns a
  record of another tenant or namespace nor more records than asked for and allowed.\<close>

theorem service_contains_hostile_store:
  fixes get_op :: "'s \<Rightarrow> tenant_id \<Rightarrow> namespace_id \<Rightarrow> record_key \<Rightarrow> (memory_record option, memory_error) result"
    and query_op :: "'s \<Rightarrow> tenant_id \<Rightarrow> namespace_id \<Rightarrow> memory_query \<Rightarrow> (memory_record list, memory_error) result"
  assumes "recall get_op sv c n k = Inr (Some r)" and "search query_op sv c n q = Inr rs"
  shows "mr_tenant_id r = ctx_tenant_id c \<and> mr_namespace r = n \<and> mr_key r = k
    \<and> list_all (\<lambda>r. mr_tenant_id r = ctx_tenant_id c \<and> mr_namespace r = n) rs
    \<and> length rs \<le> unat (q_limit q) \<and> q_limit q \<le> result_ceiling sv \<and> q_limit q \<le> 256"
  using assms
  by (auto simp: recall_def search_def result_simps is_addressed_def list_all_iff validate_query_def
      MAX_QUERY_LIMIT_def not_less split: option.splits if_splits dest!: in_set_takeD)

definition leaky_record :: memory_record where
  "leaky_record = remembered 1 demo_context demo_request"

theorem service_contains_hostile_store_witness:
  "\<exists>q. search (\<lambda>_ _ _ _. Inr [leaky_record\<lparr>mr_tenant_id := ''zeta''\<rparr>, leaky_record])
      (memory_service_new ()) demo_context ''notes'' q = Inr [leaky_record] \<and> q_limit q \<le> 256"
proof -
  obtain q where q: "validate_query q = Inr ()" "q_limit q = 2"
    using that [of "\<lparr>q_kinds = [], q_tags = [], q_term = None, q_since = None, q_until = None, q_limit = 2\<rparr>"]
    by (simp add: validate_query_def validate_term_def sort_dedup_def MAX_QUERY_LIMIT_def)
  have search: "search (\<lambda>_ _ _ _. Inr [leaky_record\<lparr>mr_tenant_id := ''zeta''\<rparr>, leaky_record])
      (memory_service_new ()) demo_context ''notes'' q = Inr [leaky_record]"
    using q by (simp add: search_def memory_service_new_def MAX_QUERY_LIMIT_def is_addressed_def
        leaky_record_def demo_context_def demo_request_def remembered_def)
  have "recall (\<lambda>_ _ _ _. Inr (Some leaky_record)) (memory_service_new ()) demo_context ''notes'' ''k1''
      = Inr (Some leaky_record)"
    by (simp add: recall_def is_addressed_def leaky_record_def demo_request_def)
  from service_contains_hostile_store [OF this search] search show ?thesis by blast
qed

end
