(* ===== verification/Knowledge.thy ===== *)
theory Knowledge
  imports Contracts
begin

text \<open>
  The knowledge crate: identifiers, queries, limits and documents (\<open>knowledge/src/model.rs\<close>,
  \<open>knowledge/src/validation.rs\<close>), the service that checks an index's whole answer before it
  shows any of it (\<open>knowledge/src/service.rs\<close>) and the static index
  (\<open>knowledge/src/static.rs\<close>). The contract of the \<open>KnowledgeIndex\<close> port is a locale; the
  service's behaviour over a conforming index is proved in it.
\<close>

section \<open>Data\<close>

definition MAX_IDENTIFIER_BYTES :: nat where "MAX_IDENTIFIER_BYTES = 128"
definition MAX_QUERY_BYTES :: nat where "MAX_QUERY_BYTES = 16 * 1024"
definition MAX_SEARCH_LIMIT :: u32 where "MAX_SEARCH_LIMIT = 64"
definition MAX_DOCUMENT_TEXT_BYTES :: nat where "MAX_DOCUMENT_TEXT_BYTES = 16 * 1024"
definition MAX_RESULT_TEXT_BYTES :: nat where "MAX_RESULT_TEXT_BYTES = 64 * 1024"
definition MAX_STATIC_DOCUMENTS :: nat where "MAX_STATIC_DOCUMENTS = 10000"
definition MAX_STATIC_TEXT_BYTES :: nat where "MAX_STATIC_TEXT_BYTES = 64 * 1024 * 1024"

datatype knowledge_error = InvalidRequest | LimitExceeded | Unavailable | ProtocolViolation

fun knowledge_error_display :: "knowledge_error \<Rightarrow> string" where
  "knowledge_error_display InvalidRequest = ''invalid_request''"
| "knowledge_error_display LimitExceeded = ''limit_exceeded''"
| "knowledge_error_display Unavailable = ''unavailable''"
| "knowledge_error_display ProtocolViolation = ''protocol_violation''"

definition is_identifier_start :: "char \<Rightarrow> bool" where
  "is_identifier_start byte \<longleftrightarrow> is_ascii_lowercase byte \<or> is_ascii_digit byte"

definition is_identifier_continue :: "char \<Rightarrow> bool" where
  "is_identifier_continue byte \<longleftrightarrow> is_identifier_start byte \<or> byte = CHR ''_'' \<or> byte = CHR ''-''"

definition validate_identifier :: "string \<Rightarrow> (unit, knowledge_error) result" where
  "validate_identifier value =
     (if value = [] \<or> length value > MAX_IDENTIFIER_BYTES \<or> \<not> is_identifier_start (hd value)
         \<or> \<not> list_all is_identifier_continue (tl value)
      then Inl InvalidRequest else Inr ())"

definition checked_add_with_limit :: "nat \<Rightarrow> nat \<Rightarrow> nat \<Rightarrow> (nat, knowledge_error) result" where
  "checked_add_with_limit acc additional limit =
     and_then (ok_or (usize_checked_add acc additional) LimitExceeded) (\<lambda>acc.
       if acc > limit then Inl LimitExceeded else Inr acc)"

text \<open>
  \<open>TenantId\<close>, \<open>PrincipalId\<close>, \<open>NamespaceId\<close> and \<open>DocumentId\<close> are one macro's instances.
  \<open>!value.chars().any(|c| !c.is_whitespace())\<close> is \<^const>\<open>blank\<close>.
\<close>

definition identifier_new :: "string \<Rightarrow> (string, knowledge_error) result" where
  "identifier_new value = and_then (validate_identifier value) (\<lambda>_. Inr value)"

definition query_new :: "string \<Rightarrow> (string, knowledge_error) result" where
  "query_new value =
     (if length value > MAX_QUERY_BYTES \<or> blank value then Inl InvalidRequest else Inr value)"

definition search_limit_new :: "u32 \<Rightarrow> (u32, knowledge_error) result" where
  "search_limit_new value =
     (if value > MAX_SEARCH_LIMIT then Inl InvalidRequest
      else if value = 0 then Inl InvalidRequest else Inr value)"

record search_context =
  sc_tenant_id :: string
  sc_principal_id :: string

record search_request =
  sr_context :: search_context
  sr_namespace :: string
  sr_query :: string
  sr_limit :: u32

record knowledge_document =
  kd_tenant_id :: string
  kd_namespace :: string
  kd_document_id :: string
  kd_text :: string

definition knowledge_document_new :: "string \<Rightarrow> string \<Rightarrow> string \<Rightarrow> string
    \<Rightarrow> (knowledge_document, knowledge_error) result" where
  "knowledge_document_new tenant namespace document_id text =
     (if text = [] \<or> length text > MAX_DOCUMENT_TEXT_BYTES then Inl InvalidRequest
      else Inr \<lparr>kd_tenant_id = tenant, kd_namespace = namespace, kd_document_id = document_id,
                kd_text = text\<rparr>)"

record knowledge_hit =
  kh_document_id :: string
  kh_text :: string

record search_result =
  hits :: "knowledge_hit list"

section \<open>The service\<close>

fun check_documents :: "search_request \<Rightarrow> string option \<Rightarrow> nat \<Rightarrow> knowledge_document list
    \<Rightarrow> (unit, knowledge_error) result" where
  "check_documents request previous_id total_text_bytes [] = Inr ()"
| "check_documents request previous_id total_text_bytes (document # rest) =
     (if kd_tenant_id document \<noteq> sc_tenant_id (sr_context request)
         \<or> kd_namespace document \<noteq> sr_namespace request
      then Inl ProtocolViolation
      else if (case previous_id of None \<Rightarrow> False | Some previous \<Rightarrow> previous \<ge> kd_document_id document)
      then Inl ProtocolViolation
      else and_then (checked_add_with_limit total_text_bytes (length (kd_text document))
          MAX_RESULT_TEXT_BYTES) (\<lambda>acc.
        check_documents request (Some (kd_document_id document)) acc rest))"

definition hit_of :: "knowledge_document \<Rightarrow> knowledge_hit" where
  "hit_of document = \<lparr>kh_document_id = kd_document_id document, kh_text = kd_text document\<rparr>"

definition service_search :: "(search_request \<Rightarrow> (knowledge_document list, knowledge_error) result)
    \<Rightarrow> search_request \<Rightarrow> (search_result, knowledge_error) result" where
  "service_search index_search request =
     and_then (index_search request) (\<lambda>documents.
       if length documents > unat (sr_limit request) then Inl LimitExceeded
       else and_then (check_documents request None 0 documents) (\<lambda>_.
         Inr \<lparr>hits = map hit_of documents\<rparr>))"

section \<open>The static index\<close>

type_synonym scoped_document_id = "string \<times> string \<times> string"

record static_knowledge_index =
  documents :: "(scoped_document_id, knowledge_document) btree_map"

definition scoped_id :: "knowledge_document \<Rightarrow> scoped_document_id" where
  "scoped_id d = (kd_tenant_id d, kd_namespace d, kd_document_id d)"

fun static_index_fill :: "nat \<Rightarrow> (scoped_document_id, knowledge_document) btree_map
    \<Rightarrow> knowledge_document list
    \<Rightarrow> ((scoped_document_id, knowledge_document) btree_map, knowledge_error) result" where
  "static_index_fill acc ordered [] = Inr ordered"
| "static_index_fill acc ordered (document # rest) =
     and_then (checked_add_with_limit acc (length (kd_text document)) MAX_STATIC_TEXT_BYTES) (\<lambda>acc.
       if bt_get ordered (scoped_id document) \<noteq> None then Inl InvalidRequest
       else static_index_fill acc (bt_insert (scoped_id document) document ordered) rest)"

definition static_index_new :: "knowledge_document list \<Rightarrow> (static_knowledge_index, knowledge_error) result"
where
  "static_index_new docs =
     (if length docs > MAX_STATIC_DOCUMENTS then Inl LimitExceeded
      else and_then (static_index_fill 0 [] docs) (\<lambda>ordered. Inr \<lparr>documents = ordered\<rparr>))"

definition document_matches :: "search_request \<Rightarrow> knowledge_document \<Rightarrow> bool" where
  "document_matches request document \<longleftrightarrow>
     kd_tenant_id document = sc_tenant_id (sr_context request)
     \<and> kd_namespace document = sr_namespace request
     \<and> str_contains (kd_text document) (sr_query request)"

definition static_search :: "static_knowledge_index \<Rightarrow> search_request
    \<Rightarrow> (knowledge_document list, knowledge_error) result" where
  "static_search index request =
     Inr (take (unat (sr_limit request)) (filter (document_matches request) (bt_values (documents index))))"

section \<open>The index contract and the service over it\<close>

definition text_bytes :: "knowledge_document list \<Rightarrow> nat" where
  "text_bytes ds = sum_list (map (\<lambda>d. length (kd_text d)) ds)"

definition in_scope :: "search_request \<Rightarrow> knowledge_document \<Rightarrow> bool" where
  "in_scope request d \<longleftrightarrow> kd_tenant_id d = sc_tenant_id (sr_context request)
     \<and> kd_namespace d = sr_namespace request"

lemma checked_add_with_limit_Inr [result_simps]:
  "checked_add_with_limit a b l = Inr t \<longleftrightarrow> t = a + b \<and> a + b \<le> usize_max \<and> a + b \<le> l"
  by (auto simp: checked_add_with_limit_def result_simps checked_simps split: if_splits)

lemma checked_add_with_limit_Inl [result_simps]:
  "checked_add_with_limit a b l = Inl e \<longleftrightarrow> e = LimitExceeded \<and> (usize_max < a + b \<or> l < a + b)"
  by (auto simp: checked_add_with_limit_def result_simps checked_simps split: if_splits)

lemma check_documents_Inr:
  "check_documents request prev acc ds = Inr () \<longleftrightarrow>
     list_all (in_scope request) ds \<and> sorted_wrt (<) (map kd_document_id ds)
     \<and> (\<forall>p d. prev = Some p \<longrightarrow> d \<in> set ds \<longrightarrow> p < kd_document_id d)
     \<and> (ds = [] \<or> acc + text_bytes ds \<le> MAX_RESULT_TEXT_BYTES)"
proof (induction ds arbitrary: prev acc)
  case (Cons d ds)
  have "acc + b \<le> MAX_RESULT_TEXT_BYTES \<Longrightarrow> acc + b \<le> usize_max" for b
    by (simp add: MAX_RESULT_TEXT_BYTES_def usize_max_def)
  with Cons.IH show ?case
    by (cases prev; cases ds)
      (auto simp: result_simps in_scope_def text_bytes_def not_le)
qed simp

lemma check_documents_Inl:
  assumes "list_all (in_scope request) ds" and "sorted_wrt (<) (map kd_document_id ds)"
    and "\<And>p d. prev = Some p \<Longrightarrow> d \<in> set ds \<Longrightarrow> p < kd_document_id d"
    and "check_documents request prev acc ds = Inl e"
  shows "e = LimitExceeded"
  using assms
proof (induction ds arbitrary: prev acc)
  case (Cons d ds)
  from Cons.prems(1) have scope: "\<not> (kd_tenant_id d \<noteq> sc_tenant_id (sr_context request)
      \<or> kd_namespace d \<noteq> sr_namespace request)" by (simp add: in_scope_def)
  from Cons.prems(3) have "\<not> (case prev of None \<Rightarrow> False | Some p \<Rightarrow> p \<ge> kd_document_id d)"
    by (cases prev) (auto simp: not_le)
  with Cons.prems(4) scope consider (limit) "e = LimitExceeded"
    | (rest) acc' where "check_documents request (Some (kd_document_id d)) acc' ds = Inl e"
    by (auto simp: result_simps)
  then show ?case
  proof cases
    case rest
    then show ?thesis using Cons.prems(1,2) by (intro Cons.IH [OF _ _ _ rest]) auto
  qed
qed simp

locale knowledge_index =
  fixes index_search :: "'i \<Rightarrow> search_request \<Rightarrow> (knowledge_document list, knowledge_error) result"
    and index_inv :: "'i \<Rightarrow> bool"
  assumes returns: "index_inv i \<Longrightarrow> \<exists>ds. index_search i request = Inr ds"
    and scoped: "index_inv i \<Longrightarrow> index_search i request = Inr ds \<Longrightarrow> list_all (in_scope request) ds"
    and ordered: "index_inv i \<Longrightarrow> index_search i request = Inr ds \<Longrightarrow> sorted_wrt (<) (map kd_document_id ds)"
    and bounded: "index_inv i \<Longrightarrow> index_search i request = Inr ds \<Longrightarrow> length ds \<le> unat (sr_limit request)"
begin

lemma service_total:
  assumes "index_inv i" and "index_search i request = Inr ds"
  shows "service_search (index_search i) request =
    (if text_bytes ds \<le> MAX_RESULT_TEXT_BYTES then Inr \<lparr>hits = map hit_of ds\<rparr> else Inl LimitExceeded)"
proof (cases "check_documents request None 0 ds")
  case (Inl e)
  moreover from this have "e = LimitExceeded"
    using check_documents_Inl [OF scoped [OF assms] ordered [OF assms] _ Inl] by simp
  moreover from Inl have "\<not> text_bytes ds \<le> MAX_RESULT_TEXT_BYTES"
    using check_documents_Inr [of request None 0 ds] scoped [OF assms] ordered [OF assms] by auto
  ultimately show ?thesis
    using assms(2) bounded [OF assms] by (simp add: service_search_def)
next
  case (Inr u)
  then have "text_bytes ds \<le> MAX_RESULT_TEXT_BYTES"
    using check_documents_Inr [of request None 0 ds] by (auto simp: text_bytes_def)
  with Inr show ?thesis using assms(2) bounded [OF assms] by (simp add: service_search_def)
qed

end

section \<open>The static index conforms\<close>

definition static_inv :: "static_knowledge_index \<Rightarrow> bool" where
  "static_inv index \<longleftrightarrow> bt_ok (documents index)
     \<and> list_all (\<lambda>e. fst e = scoped_id (snd e)) (documents index)
     \<and> length (documents index) \<le> MAX_STATIC_DOCUMENTS
     \<and> text_bytes (bt_values (documents index)) \<le> MAX_STATIC_TEXT_BYTES"

lemma static_values_sorted:
  assumes "static_inv index"
  shows "sorted_wrt (<) (map scoped_id (bt_values (documents index)))"
proof -
  have "map scoped_id (bt_values (documents index)) = map fst (documents index)"
    using assms by (auto simp: static_inv_def bt_values_def list_all_iff)
  with assms show ?thesis by (simp add: static_inv_def bt_ok_def)
qed

interpretation static: knowledge_index static_search static_inv
proof
  fix i request ds
  assume inv: "static_inv i"
  show "\<exists>ds. static_search i request = Inr ds" by (simp add: static_search_def)
  assume ds: "static_search i request = Inr ds"
  let ?sel = "filter (document_matches request) (bt_values (documents i))"
  have ds': "ds = take (unat (sr_limit request)) ?sel" using ds by (simp add: static_search_def)
  show "list_all (in_scope request) ds"
    unfolding ds' list_all_iff
    by (auto simp: document_matches_def in_scope_def dest: in_set_takeD)
  show "length ds \<le> unat (sr_limit request)" by (simp add: ds')
  have "sorted_wrt (\<lambda>a b. scoped_id a < scoped_id b) ?sel"
    using static_values_sorted [OF inv] by (simp add: sorted_wrt_map sorted_wrt_filter)
  then have "sorted_wrt (\<lambda>a b. kd_document_id a < kd_document_id b) ?sel"
    by (rule sorted_wrt_mono_rel [rotated]) (auto simp: document_matches_def scoped_id_def)
  then show "sorted_wrt (<) (map kd_document_id ds)"
    by (simp add: ds' sorted_wrt_map sorted_wrt_take)
qed

lemma static_index_fill_Inr:
  "static_index_fill acc m ds = Inr m' \<longleftrightarrow>
     (ds = [] \<or> acc + text_bytes ds \<le> MAX_STATIC_TEXT_BYTES) \<and> distinct (map scoped_id ds)
     \<and> (\<forall>d\<in>set ds. bt_get m (scoped_id d) = None)
     \<and> m' = foldl (\<lambda>m d. bt_insert (scoped_id d) d m) m ds"
proof (induction ds arbitrary: acc m)
  case (Cons d ds)
  have "static_index_fill acc m (d # ds) = Inr m' \<longleftrightarrow>
      acc + length (kd_text d) \<le> MAX_STATIC_TEXT_BYTES \<and> bt_get m (scoped_id d) = None
      \<and> static_index_fill (acc + length (kd_text d)) (bt_insert (scoped_id d) d m) ds = Inr m'"
    by (auto simp: result_simps MAX_STATIC_TEXT_BYTES_def usize_max_def)
  also have "\<dots> \<longleftrightarrow> acc + text_bytes (d # ds) \<le> MAX_STATIC_TEXT_BYTES \<and> distinct (map scoped_id (d # ds))
      \<and> (\<forall>x\<in>set (d # ds). bt_get m (scoped_id x) = None)
      \<and> m' = foldl (\<lambda>m d. bt_insert (scoped_id d) d m) m (d # ds)"
    unfolding Cons.IH by (auto simp: text_bytes_def intro: rev_image_eqI)
  finally show ?case by simp
qed auto

lemma filled_index:
  assumes "bt_ok m" and "distinct (map scoped_id ds)" and "\<forall>d\<in>set ds. bt_get m (scoped_id d) = None"
  defines "m' \<equiv> foldl (\<lambda>m d. bt_insert (scoped_id d) d m) m ds"
  shows "bt_ok m' \<and> set m' = set m \<union> (\<lambda>d. (scoped_id d, d)) ` set ds \<and> length m' = length m + length ds
    \<and> text_bytes (bt_values m') = text_bytes (bt_values m) + text_bytes ds"
  using assms(1-3) unfolding m'_def
proof (induction ds arbitrary: m)
  case (Cons d ds)
  let ?m = "bt_insert (scoped_id d) d m"
  have absent: "bt_get m (scoped_id d) = None" using Cons.prems by simp
  then have "set ?m = insert (scoped_id d, d) (set m)"
    unfolding set_bt_insert [OF Cons.prems(1)] map_of_eq_None_iff by force
  moreover have "length ?m = Suc (length m)" using Cons.prems absent by (simp add: length_bt_insert)
  moreover have "text_bytes (bt_values ?m) = text_bytes (bt_values m) + length (kd_text d)"
    using sum_bt_insert [OF Cons.prems(1), of "\<lambda>e. length (kd_text (snd e))" "scoped_id d" d] absent
    by (simp add: text_bytes_def bt_values_def comp_def)
  moreover have "\<forall>x\<in>set ds. bt_get ?m (scoped_id x) = None"
    using Cons.prems(2,3) by (auto intro: rev_image_eqI)
  ultimately show ?case using Cons.IH [of ?m] Cons.prems by (auto simp: text_bytes_def)
qed (simp add: text_bytes_def)

lemma static_index_new_Inr:
  "static_index_new docs = Inr index \<longleftrightarrow>
     length docs \<le> MAX_STATIC_DOCUMENTS \<and> text_bytes docs \<le> MAX_STATIC_TEXT_BYTES
     \<and> distinct (map scoped_id docs)
     \<and> index = \<lparr>documents = foldl (\<lambda>m d. bt_insert (scoped_id d) d m) [] docs\<rparr>"
  by (auto simp: static_index_new_def result_simps static_index_fill_Inr text_bytes_def
      split: if_splits)

lemma sort_key_unique:
  fixes f :: "'a \<Rightarrow> 'b::linorder"
  assumes "sorted_wrt (<) (map f ys)" and "set ys = set xs" and "distinct (map f xs)"
  shows "ys = sort_key f xs"
proof -
  have "sorted_wrt (<) (map f (sort_key f xs))"
    using assms(3) by (simp add: strict_sorted_iff distinct_map)
  then have "map f ys = map f (sort_key f xs)"
    using assms(1,2) by (intro strict_sorted_equal) auto
  moreover have "inj_on f (set xs)" using assms(3) by (simp add: distinct_map)
  ultimately show ?thesis using assms(2) by (intro map_inj_on [where f = f]) auto
qed

lemma static_index_new_inv:
  assumes "static_index_new docs = Inr index"
  shows "static_inv index" and "bt_values (documents index) = sort_key scoped_id docs"
proof -
  note new = assms [unfolded static_index_new_Inr]
  have fill: "bt_ok (documents index)" "set (documents index) = (\<lambda>d. (scoped_id d, d)) ` set docs"
    "length (documents index) = length docs" "text_bytes (bt_values (documents index)) = text_bytes docs"
    using filled_index [of "[]" docs] new by (auto simp: bt_values_def text_bytes_def)
  then show inv: "static_inv index" using new by (auto simp: static_inv_def list_all_iff)
  have "set (bt_values (documents index)) = set docs"
    using fill(2) by (auto simp: bt_values_def image_iff)
  then show "bt_values (documents index) = sort_key scoped_id docs"
    using static_values_sorted [OF inv] new by (intro sort_key_unique) auto
qed

section \<open>Properties\<close>

text \<open>A static index can be built from exactly the corpora of at most 10000 documents and
  64 MiB of text in which no two documents share tenant, namespace and identifier.\<close>

lemma static_index_new_ok:
  "is_ok (static_index_new docs) \<longleftrightarrow>
     length docs \<le> 10000 \<and> text_bytes docs \<le> 67108864 \<and> distinct (map scoped_id docs)"
  by (auto simp: is_ok_iff static_index_new_Inr MAX_STATIC_DOCUMENTS_def MAX_STATIC_TEXT_BYTES_def)

text \<open>Over a static index the service returns the first \<open>limit\<close> documents of the caller's
  tenant and namespace that contain the query, in the order of their identifiers; it refuses
  exactly when their text exceeds 64 KiB, and never reports a protocol violation.\<close>

lemma static_service_search:
  assumes "static_index_new docs = Inr index"
  shows "service_search (static_search index) request =
    (let found = take (unat (sr_limit request)) (filter (\<lambda>d.
           kd_tenant_id d = sc_tenant_id (sr_context request) \<and> kd_namespace d = sr_namespace request
           \<and> (\<exists>a b. kd_text d = a @ sr_query request @ b)) (sort_key scoped_id docs)) in
     if text_bytes found \<le> 65536
     then Inr \<lparr>hits = map (\<lambda>d. \<lparr>kh_document_id = kd_document_id d, kh_text = kd_text d\<rparr>) found\<rparr>
     else Inl LimitExceeded)"
proof -
  have "static_search index request = Inr (take (unat (sr_limit request)) (filter (\<lambda>d.
      kd_tenant_id d = sc_tenant_id (sr_context request) \<and> kd_namespace d = sr_namespace request
      \<and> (\<exists>a b. kd_text d = a @ sr_query request @ b)) (sort_key scoped_id docs)))"
    by (simp add: static_search_def static_index_new_inv(2) [OF assms] document_matches_def [abs_def]
        str_contains_iff)
  from static.service_total [OF static_index_new_inv(1) [OF assms] this] show ?thesis
    by (simp add: Let_def MAX_RESULT_TEXT_BYTES_def hit_of_def [abs_def])
qed

definition demo_docs :: "knowledge_document list" where
  "demo_docs =
     [\<lparr>kd_tenant_id = ''acme'', kd_namespace = ''n'', kd_document_id = ''d2'', kd_text = ''blue sky''\<rparr>,
      \<lparr>kd_tenant_id = ''acme'', kd_namespace = ''n'', kd_document_id = ''d1'', kd_text = ''a sky''\<rparr>,
      \<lparr>kd_tenant_id = ''zeta'', kd_namespace = ''n'', kd_document_id = ''d0'', kd_text = ''sky''\<rparr>]"

definition demo_request :: search_request where
  "demo_request = \<lparr>sr_context = \<lparr>sc_tenant_id = ''acme'', sc_principal_id = ''p''\<rparr>, sr_namespace = ''n'',
     sr_query = ''sky'', sr_limit = 5\<rparr>"

lemma demo_sorted:
  "sort_key scoped_id demo_docs =
     [\<lparr>kd_tenant_id = ''acme'', kd_namespace = ''n'', kd_document_id = ''d1'', kd_text = ''a sky''\<rparr>,
      \<lparr>kd_tenant_id = ''acme'', kd_namespace = ''n'', kd_document_id = ''d2'', kd_text = ''blue sky''\<rparr>,
      \<lparr>kd_tenant_id = ''zeta'', kd_namespace = ''n'', kd_document_id = ''d0'', kd_text = ''sky''\<rparr>]"
  by code_simp

lemma demo_index: "\<exists>index. static_index_new demo_docs = Inr index"
proof -
  have "distinct (map scoped_id demo_docs)" by code_simp
  moreover have "length demo_docs \<le> MAX_STATIC_DOCUMENTS" "text_bytes demo_docs \<le> MAX_STATIC_TEXT_BYTES"
    by (simp_all add: demo_docs_def text_bytes_def MAX_STATIC_DOCUMENTS_def MAX_STATIC_TEXT_BYTES_def)
  ultimately show ?thesis by (simp add: static_index_new_Inr)
qed

lemma static_service_search_witness:
  "\<exists>index. static_index_new demo_docs = Inr index \<and> service_search (static_search index) demo_request
     = Inr \<lparr>hits = [\<lparr>kh_document_id = ''d1'', kh_text = ''a sky''\<rparr>,
                     \<lparr>kh_document_id = ''d2'', kh_text = ''blue sky''\<rparr>]\<rparr>"
proof -
  obtain index where index: "static_index_new demo_docs = Inr index" using demo_index by blast
  have sky: "\<exists>a b. ''a sky'' = a @ ''sky'' @ b" "\<exists>a b. ''blue sky'' = a @ ''sky'' @ b"
    by (rule str_contains_iff [THEN iffD1], simp)+
  from static_service_search [OF index, of demo_request] sky index show ?thesis
    unfolding demo_sorted by (simp add: demo_request_def text_bytes_def)
qed

text \<open>Whatever index the service is given, a result it returns is a projection of documents
  that all belong to the caller's tenant and namespace, in strictly ascending order without
  duplicates, at most \<open>limit\<close> of them and with at most 64 KiB of text.\<close>

lemma service_search_safe:
  assumes "service_search index_search request = Inr r"
  shows "\<exists>ds. index_search request = Inr ds \<and> hits r = map hit_of ds
    \<and> list_all (\<lambda>d. kd_tenant_id d = sc_tenant_id (sr_context request)
        \<and> kd_namespace d = sr_namespace request) ds
    \<and> sorted_wrt (<) (map kh_document_id (hits r))
    \<and> length (hits r) \<le> unat (sr_limit request)
    \<and> sum_list (map (\<lambda>h. length (kh_text h)) (hits r)) \<le> 65536"
proof -
  from assms obtain ds where ds: "index_search request = Inr ds" "\<not> length ds > unat (sr_limit request)"
    "check_documents request None 0 ds = Inr ()" "r = \<lparr>hits = map hit_of ds\<rparr>"
    by (auto simp: service_search_def result_simps split: if_splits)
  then have "list_all (in_scope request) ds" "sorted_wrt (<) (map kd_document_id ds)"
    "ds = [] \<or> text_bytes ds \<le> 65536"
    by (auto simp: check_documents_Inr MAX_RESULT_TEXT_BYTES_def)
  with ds show ?thesis
    by (intro exI [of _ ds]) (auto simp: in_scope_def [abs_def] hit_of_def text_bytes_def comp_def)
qed

lemma service_search_safe_witness:
  "service_search (\<lambda>_. Inr [demo_docs ! 1]) demo_request = Inr \<lparr>hits = [hit_of (demo_docs ! 1)]\<rparr>
   \<and> kd_tenant_id (demo_docs ! 1) = ''acme''"
proof -
  have "service_search (\<lambda>_. Inr [demo_docs ! 1]) demo_request = Inr \<lparr>hits = [hit_of (demo_docs ! 1)]\<rparr>"
    by (simp add: service_search_def demo_docs_def demo_request_def checked_add_with_limit_def
        usize_checked_add_def usize_max_def MAX_RESULT_TEXT_BYTES_def)
  from service_search_safe [OF this] this show ?thesis by (simp add: demo_request_def)
qed

end
