(* ===== verification/Agent.thy ===== *)
theory Agent
  imports Knowledge
begin

text \<open>
  The agent crate without its model gateway (\<open>agent/src/lib.rs\<close>): agent definitions and their
  validation against a reference catalog, capability ceilings and their intersection with a
  definition, the registry of built-in and user definitions over the in-memory definition
  store, the resolved capability scope and its digest, the fixed tool registry and the
  in-memory memory adapter, and the accounting of output bytes. SHA-256 is a parameter.
\<close>

section \<open>Identifiers and errors\<close>

datatype public_error_code =
    PubInvalidRequest | PubInvalidDefinition | PubInvalidReference | PubReferenceUnavailable
  | PubNotFound | PubBuiltinProtected | PubUnknownTool | PubToolDisallowed | PubMemoryDenied
  | PubKnowledgeDenied | PubSandboxDenied | PubAdapterFailure | PubLimitExceeded | PubCancelled
  | PubDeadlineExceeded

datatype definition_error =
    InvalidRequest | InvalidId | InvalidDefinition | InvalidReference | ReferenceUnavailable
  | NotFound | BuiltinProtected | UnknownTool string | ToolDisallowed string | MemoryDenied
  | KnowledgeDenied | SandboxDenied | AdapterFailure | LimitExceeded | Cancelled | DeadlineExceeded

fun public_code :: "definition_error \<Rightarrow> public_error_code" where
  "public_code InvalidRequest = PubInvalidRequest"
| "public_code InvalidId = PubInvalidDefinition"
| "public_code InvalidDefinition = PubInvalidDefinition"
| "public_code InvalidReference = PubInvalidReference"
| "public_code ReferenceUnavailable = PubReferenceUnavailable"
| "public_code NotFound = PubNotFound"
| "public_code BuiltinProtected = PubBuiltinProtected"
| "public_code (UnknownTool _) = PubUnknownTool"
| "public_code (ToolDisallowed _) = PubToolDisallowed"
| "public_code MemoryDenied = PubMemoryDenied"
| "public_code KnowledgeDenied = PubKnowledgeDenied"
| "public_code SandboxDenied = PubSandboxDenied"
| "public_code AdapterFailure = PubAdapterFailure"
| "public_code LimitExceeded = PubLimitExceeded"
| "public_code Cancelled = PubCancelled"
| "public_code DeadlineExceeded = PubDeadlineExceeded"

definition id_tail :: "char \<Rightarrow> bool" where
  "id_tail b \<longleftrightarrow> is_ascii_lowercase b \<or> is_ascii_digit b \<or> b = CHR ''_'' \<or> b = CHR ''-''"

definition agent_id_new :: "string \<Rightarrow> (string, definition_error) result" where
  "agent_id_new value =
     (if length value \<le> 128 \<and> first_rest lower_or_digit id_tail value then Inr value else Inl InvalidId)"

definition invocation_id_new :: "string \<Rightarrow> (string, definition_error) result" where
  "invocation_id_new value =
     (if length value \<le> 128 \<and> first_rest lower_or_digit id_tail value then Inr value else Inl InvalidRequest)"

record invocation_context_v1 =
  ic_tenant_id :: string
  ic_principal_id :: string
  ic_request_id :: string
  ic_correlation_id :: string

section \<open>Definitions\<close>

definition MAX_TOOL_CALLS :: u32 where "MAX_TOOL_CALLS = 64"
definition MAX_OUTPUT_BYTES :: u32 where "MAX_OUTPUT_BYTES = 65536"
definition MAX_INPUT_BYTES :: nat where "MAX_INPUT_BYTES = 16384"
definition MAX_CAPABILITY_REFERENCES :: nat where "MAX_CAPABILITY_REFERENCES = 64"

record memory_policy =
  mp_enabled :: bool
  mp_max_items :: u32

record knowledge_policy =
  kp_enabled :: bool
  kp_namespace :: string
  kp_max_results :: u32

record execution_limits =
  el_max_tool_calls :: u32
  el_max_output_bytes :: u32

text \<open>
  \<open>ModelPolicy\<close>, \<open>SandboxPolicy\<close> and \<open>CommunicationPolicy\<close> have one field each, which stands for
  them; \<open>DefinitionVersion\<close> has the single value \<open>V1\<close>, whose wire form is \<open>"v1"\<close>.
\<close>

record agent_definition_v1 =
  ad_id :: string
  ad_name :: string
  ad_description :: string
  ad_model_reference :: string
  ad_instructions :: string
  ad_skills :: "string list"
  ad_steering :: "string list"
  ad_allowed_tool_ids :: "string list"
  ad_memory :: memory_policy
  ad_knowledge :: knowledge_policy
  ad_allow_execution :: bool
  ad_allow_messages :: bool
  ad_limits :: execution_limits

record agent_summary =
  as_id :: string
  as_name :: string
  as_description :: string

definition summary_of :: "agent_definition_v1 \<Rightarrow> agent_summary" where
  "summary_of d = \<lparr>as_id = ad_id d, as_name = ad_name d, as_description = ad_description d\<rparr>"

definition valid_reference :: "string \<Rightarrow> bool" where
  "valid_reference value \<longleftrightarrow> value \<noteq> [] \<and> length value \<le> 128
     \<and> is_ascii_alphanumeric (hd value) \<and> is_ascii_alphanumeric (last value)
     \<and> list_all (\<lambda>b. is_ascii_lowercase b \<or> is_ascii_digit b
          \<or> b = CHR ''-'' \<or> b = CHR ''_'' \<or> b = CHR ''.'') value"

definition validate_definition :: "agent_definition_v1 \<Rightarrow> (unit, definition_error) result" where
  "validate_definition d =
     (if blank (ad_name d) \<or> blank (ad_description d) \<or> blank (ad_instructions d)
         \<or> length (ad_instructions d) > MAX_INPUT_BYTES
         \<or> length (ad_skills d) > MAX_CAPABILITY_REFERENCES
         \<or> length (ad_steering d) > MAX_CAPABILITY_REFERENCES
         \<or> length (ad_allowed_tool_ids d) > MAX_CAPABILITY_REFERENCES
         \<or> el_max_tool_calls (ad_limits d) = 0 \<or> el_max_tool_calls (ad_limits d) > MAX_TOOL_CALLS
         \<or> el_max_output_bytes (ad_limits d) = 0 \<or> el_max_output_bytes (ad_limits d) > MAX_OUTPUT_BYTES
         \<or> (mp_enabled (ad_memory d) \<and> mp_max_items (ad_memory d) = 0)
         \<or> (kp_enabled (ad_knowledge d) \<and> kp_max_results (ad_knowledge d) = 0)
         \<or> kp_max_results (ad_knowledge d) > MAX_SEARCH_LIMIT
         \<or> \<not> is_ok (identifier_new (kp_namespace (ad_knowledge d)))
      then Inl InvalidDefinition
      else if \<not> valid_reference (ad_model_reference d) \<or> \<not> list_all valid_reference (ad_skills d)
         \<or> \<not> list_all valid_reference (ad_steering d) \<or> \<not> list_all valid_reference (ad_allowed_tool_ids d)
      then Inl InvalidReference
      else Inr ())"

section \<open>Capability ceilings\<close>

record effective_capability_ceiling_v1 =
  cc_allowed_tool_ids :: "string list"
  cc_memory_enabled :: bool
  cc_knowledge_enabled :: bool
  cc_sandbox_execution_allowed :: bool
  cc_communication_allowed :: bool

definition validate_effective_capability_ceiling :: "effective_capability_ceiling_v1
    \<Rightarrow> (unit, definition_error) result" where
  "validate_effective_capability_ceiling ceiling =
     (if length (cc_allowed_tool_ids ceiling) > MAX_CAPABILITY_REFERENCES then Inl InvalidDefinition
      else if list_all valid_reference (cc_allowed_tool_ids ceiling) then Inr ()
      else Inl InvalidReference)"

definition full_definition :: "agent_definition_v1 \<Rightarrow> effective_capability_ceiling_v1" where
  "full_definition d =
     \<lparr>cc_allowed_tool_ids = ad_allowed_tool_ids d, cc_memory_enabled = mp_enabled (ad_memory d),
      cc_knowledge_enabled = kp_enabled (ad_knowledge d),
      cc_sandbox_execution_allowed = ad_allow_execution d,
      cc_communication_allowed = ad_allow_messages d\<rparr>"

definition intersect :: "effective_capability_ceiling_v1 \<Rightarrow> agent_definition_v1
    \<Rightarrow> (effective_capability_ceiling_v1, definition_error) result" where
  "intersect ceiling d =
     and_then (validate_effective_capability_ceiling ceiling) (\<lambda>_.
       Inr \<lparr>cc_allowed_tool_ids = sort_dedup (filter (\<lambda>tool_id.
              tool_id \<in> set (bs_collect (ad_allowed_tool_ids d))) (cc_allowed_tool_ids ceiling)),
            cc_memory_enabled = (cc_memory_enabled ceiling \<and> mp_enabled (ad_memory d)),
            cc_knowledge_enabled = (cc_knowledge_enabled ceiling \<and> kp_enabled (ad_knowledge d)),
            cc_sandbox_execution_allowed =
              (cc_sandbox_execution_allowed ceiling \<and> ad_allow_execution d),
            cc_communication_allowed = (cc_communication_allowed ceiling \<and> ad_allow_messages d)\<rparr>)"

section \<open>Reference catalogs\<close>

text \<open>A \<open>ReferenceCatalog\<close> is its four operations; the static catalog is four sets.\<close>

record reference_catalog =
  contains_model :: "string \<Rightarrow> (bool, definition_error) result"
  contains_skill :: "string \<Rightarrow> (bool, definition_error) result"
  contains_steering :: "string \<Rightarrow> (bool, definition_error) result"
  contains_tool :: "string \<Rightarrow> (bool, definition_error) result"

definition static_reference_catalog :: "string list \<Rightarrow> string list \<Rightarrow> string list \<Rightarrow> string list
    \<Rightarrow> reference_catalog" where
  "static_reference_catalog models skills steering tools =
     \<lparr>contains_model = (\<lambda>r. Inr (r \<in> set (bs_collect models))),
      contains_skill = (\<lambda>r. Inr (r \<in> set (bs_collect skills))),
      contains_steering = (\<lambda>r. Inr (r \<in> set (bs_collect steering))),
      contains_tool = (\<lambda>r. Inr (r \<in> set (bs_collect tools)))\<rparr>"

fun require_all :: "(string \<Rightarrow> (bool, definition_error) result) \<Rightarrow> string list
    \<Rightarrow> (unit, definition_error) result" where
  "require_all contains [] = Inr ()"
| "require_all contains (reference # rest) =
     and_then (map_err (\<lambda>_. ReferenceUnavailable) (contains reference)) (\<lambda>found.
       if \<not> found then Inl ReferenceUnavailable else require_all contains rest)"

definition validate_references :: "agent_definition_v1 \<Rightarrow> reference_catalog
    \<Rightarrow> (unit, definition_error) result" where
  "validate_references d catalog =
     and_then (require_all (contains_model catalog) [ad_model_reference d]) (\<lambda>_.
     and_then (require_all (contains_skill catalog) (ad_skills d)) (\<lambda>_.
     and_then (require_all (contains_steering catalog) (ad_steering d)) (\<lambda>_.
     require_all (contains_tool catalog) (ad_allowed_tool_ids d))))"

section \<open>The definition store and the registry\<close>

record in_memory_definition_store =
  ds_definitions :: "(string, agent_definition_v1) btree_map mutex"

definition definition_store_default :: in_memory_definition_store where
  "definition_store_default = \<lparr>ds_definitions = mutex_new []\<rparr>"

definition store_load :: "in_memory_definition_store \<Rightarrow> string
    \<Rightarrow> (agent_definition_v1 option, definition_error) result" where
  "store_load store agent = and_then (lock (ds_definitions store) AdapterFailure) (\<lambda>items. Inr (bt_get items agent))"

definition store_list :: "in_memory_definition_store \<Rightarrow> (agent_definition_v1 list, definition_error) result"
where
  "store_list store = and_then (lock (ds_definitions store) AdapterFailure) (\<lambda>items. Inr (bt_values items))"

definition store_save :: "in_memory_definition_store \<Rightarrow> agent_definition_v1
    \<Rightarrow> (unit, definition_error) result \<times> in_memory_definition_store" where
  "store_save store d = (case lock (ds_definitions store) AdapterFailure of
      Inl e \<Rightarrow> (Inl e, store)
    | Inr items \<Rightarrow> (Inr (), store\<lparr>ds_definitions := (ds_definitions store)\<lparr>guarded := bt_insert (ad_id d) d items\<rparr>\<rparr>))"

definition store_delete :: "in_memory_definition_store \<Rightarrow> string
    \<Rightarrow> (unit, definition_error) result \<times> in_memory_definition_store" where
  "store_delete store agent = (case lock (ds_definitions store) AdapterFailure of
      Inl e \<Rightarrow> (Inl e, store)
    | Inr items \<Rightarrow> (Inr (), store\<lparr>ds_definitions := (ds_definitions store)\<lparr>guarded := bt_remove agent items\<rparr>\<rparr>))"

record agent_registry =
  ar_builtins :: "(string, agent_definition_v1) btree_map"
  ar_store :: in_memory_definition_store
  ar_catalog :: reference_catalog

definition registry_validate :: "reference_catalog \<Rightarrow> agent_definition_v1 \<Rightarrow> (unit, definition_error) result"
where
  "registry_validate catalog d =
     and_then (validate_definition d) (\<lambda>_. validate_references d catalog)"

definition registry_index :: "reference_catalog \<Rightarrow> (string, agent_definition_v1) btree_map
    \<Rightarrow> agent_definition_v1 \<Rightarrow> ((string, agent_definition_v1) btree_map, definition_error) result" where
  "registry_index catalog indexed d =
     and_then (registry_validate catalog d) (\<lambda>_.
       if bt_get indexed (ad_id d) \<noteq> None then Inl InvalidDefinition
       else Inr (bt_insert (ad_id d) d indexed))"

definition agent_registry_new :: "agent_definition_v1 list \<Rightarrow> in_memory_definition_store \<Rightarrow> reference_catalog
    \<Rightarrow> (agent_registry, definition_error) result" where
  "agent_registry_new builtins store catalog =
     and_then (try_fold (registry_index catalog) [] builtins) (\<lambda>indexed.
       Inr \<lparr>ar_builtins = indexed, ar_store = store, ar_catalog = catalog\<rparr>)"

definition registry_get :: "agent_registry \<Rightarrow> string \<Rightarrow> (agent_definition_v1, definition_error) result" where
  "registry_get registry agent = (case bt_get (ar_builtins registry) agent of
      Some d \<Rightarrow> Inr d
    | None \<Rightarrow>
        and_then (store_load (ar_store registry) agent) (\<lambda>found.
        and_then (ok_or found NotFound) (\<lambda>d.
        and_then (registry_validate (ar_catalog registry) d) (\<lambda>_. Inr d))))"

definition registry_merge :: "reference_catalog \<Rightarrow> (string, agent_definition_v1) btree_map
    \<Rightarrow> agent_definition_v1 \<Rightarrow> ((string, agent_definition_v1) btree_map, definition_error) result" where
  "registry_merge catalog merged d =
     and_then (registry_validate catalog d) (\<lambda>_.
       Inr (if bt_contains_key merged (ad_id d) then merged else bt_insert (ad_id d) d merged))"

definition registry_list :: "agent_registry \<Rightarrow> (agent_summary list, definition_error) result" where
  "registry_list registry =
     and_then (store_list (ar_store registry)) (\<lambda>ds.
     and_then (try_fold (registry_merge (ar_catalog registry)) (ar_builtins registry) ds) (\<lambda>merged.
       Inr (map summary_of (bt_values merged))))"

definition registry_register :: "agent_registry \<Rightarrow> agent_definition_v1
    \<Rightarrow> (unit, definition_error) result \<times> agent_registry" where
  "registry_register registry d = (case registry_validate (ar_catalog registry) d of
      Inl e \<Rightarrow> (Inl e, registry)
    | Inr _ \<Rightarrow>
        if bt_contains_key (ar_builtins registry) (ad_id d) then (Inl BuiltinProtected, registry)
        else let (r, store) = store_save (ar_store registry) d in (r, registry\<lparr>ar_store := store\<rparr>))"

definition registry_delete :: "agent_registry \<Rightarrow> string \<Rightarrow> (unit, definition_error) result \<times> agent_registry"
where
  "registry_delete registry agent =
     (if bt_contains_key (ar_builtins registry) agent then (Inl BuiltinProtected, registry)
      else let (r, store) = store_delete (ar_store registry) agent in (r, registry\<lparr>ar_store := store\<rparr>))"

section \<open>The resolved capability scope and its digest\<close>

record resolved_capability_scope =
  rs_agent_id :: string
  rs_model_reference :: string
  rs_instructions :: string
  rs_skills :: "string list"
  rs_steering :: "string list"
  rs_allowed_tool_ids :: "string list"
  rs_memory :: memory_policy
  rs_knowledge :: knowledge_policy
  rs_allow_execution :: bool
  rs_allow_messages :: bool
  rs_limits :: execution_limits
  rs_digest :: string

definition digest_field :: "string \<Rightarrow> string \<Rightarrow> string" where
  "digest_field name value =
     be_bytes 8 (length name) @ name @ be_bytes 8 (length value) @ value"

definition digest_list :: "string \<Rightarrow> string list \<Rightarrow> string" where
  "digest_list name values =
     digest_field name (be_bytes 8 (length values)) @ concat (map (digest_field name) values)"

definition digest_bool :: "bool \<Rightarrow> string" where
  "digest_bool b = [char_of (if b then 1 else 0 :: nat)]"

definition digest_number :: "u32 \<Rightarrow> string" where
  "digest_number n = be_bytes 4 (unat n)"

definition CAPABILITY_SCOPE_DIGEST_FORMAT :: string where
  "CAPABILITY_SCOPE_DIGEST_FORMAT = ''agent-core.capability-scope.sha256.v1''"

definition scope_bytes :: "resolved_capability_scope \<Rightarrow> string" where
  "scope_bytes s =
     digest_field ''format'' CAPABILITY_SCOPE_DIGEST_FORMAT
     @ digest_field ''version'' ''v1''
     @ digest_field ''agent'' (rs_agent_id s)
     @ digest_field ''model'' (rs_model_reference s)
     @ digest_field ''instructions'' (rs_instructions s)
     @ digest_list ''skill'' (rs_skills s)
     @ digest_list ''steering'' (rs_steering s)
     @ digest_list ''tool'' (rs_allowed_tool_ids s)
     @ digest_field ''memory_enabled'' (digest_bool (mp_enabled (rs_memory s)))
     @ digest_field ''knowledge_enabled'' (digest_bool (kp_enabled (rs_knowledge s)))
     @ digest_field ''sandbox_allowed'' (digest_bool (rs_allow_execution s))
     @ digest_field ''communication_allowed'' (digest_bool (rs_allow_messages s))
     @ digest_field ''memory_max_items'' (digest_number (mp_max_items (rs_memory s)))
     @ digest_field ''knowledge_namespace'' (kp_namespace (rs_knowledge s))
     @ digest_field ''knowledge_max_results'' (digest_number (kp_max_results (rs_knowledge s)))
     @ digest_field ''max_tool_calls'' (digest_number (el_max_tool_calls (rs_limits s)))
     @ digest_field ''max_output_bytes'' (digest_number (el_max_output_bytes (rs_limits s)))"

definition digest_scope :: "(string \<Rightarrow> string) \<Rightarrow> resolved_capability_scope \<Rightarrow> string" where
  "digest_scope sha256_hex scope = sha256_hex (scope_bytes scope)"

definition scope_from_definition :: "(string \<Rightarrow> string) \<Rightarrow> agent_definition_v1 \<Rightarrow> string list
    \<Rightarrow> effective_capability_ceiling_v1 \<Rightarrow> resolved_capability_scope" where
  "scope_from_definition sha256_hex d tools ceiling =
     (let scope = \<lparr>rs_agent_id = ad_id d, rs_model_reference = ad_model_reference d,
        rs_instructions = ad_instructions d, rs_skills = sort_dedup (ad_skills d),
        rs_steering = sort_dedup (ad_steering d),
        rs_allowed_tool_ids = sort_dedup (filter (\<lambda>tool_id.
          tool_id \<in> set (bs_collect (cc_allowed_tool_ids ceiling))) tools),
        rs_memory = \<lparr>mp_enabled = (mp_enabled (ad_memory d) \<and> cc_memory_enabled ceiling),
          mp_max_items = mp_max_items (ad_memory d)\<rparr>,
        rs_knowledge = \<lparr>kp_enabled = (kp_enabled (ad_knowledge d) \<and> cc_knowledge_enabled ceiling),
          kp_namespace = kp_namespace (ad_knowledge d), kp_max_results = kp_max_results (ad_knowledge d)\<rparr>,
        rs_allow_execution = (ad_allow_execution d \<and> cc_sandbox_execution_allowed ceiling),
        rs_allow_messages = (ad_allow_messages d \<and> cc_communication_allowed ceiling),
        rs_limits = ad_limits d, rs_digest = []\<rparr> in
      scope\<lparr>rs_digest := digest_scope sha256_hex scope\<rparr>)"

definition capability_scope_digest :: "(string \<Rightarrow> string) \<Rightarrow> agent_definition_v1 \<Rightarrow> string list \<Rightarrow> string" where
  "capability_scope_digest sha256_hex d tools =
     rs_digest (scope_from_definition sha256_hex d tools (full_definition d))"

definition capability_scope_digest_with_ceiling :: "(string \<Rightarrow> string) \<Rightarrow> agent_definition_v1
    \<Rightarrow> string list \<Rightarrow> effective_capability_ceiling_v1 \<Rightarrow> (string, definition_error) result" where
  "capability_scope_digest_with_ceiling sha256_hex d tools ceiling =
     and_then (intersect ceiling d) (\<lambda>c. Inr (rs_digest (scope_from_definition sha256_hex d tools c)))"

section \<open>Local adapters and output accounting\<close>

definition fixed_tool_resolve :: "(string, string) btree_map \<Rightarrow> string \<Rightarrow> (string, definition_error) result"
where
  "fixed_tool_resolve tools agent = (if bt_contains_key tools agent then Inr agent else Inl (UnknownTool agent))"

definition fixed_tool_invoke :: "(string, string) btree_map \<Rightarrow> string \<Rightarrow> (string, definition_error) result"
where
  "fixed_tool_invoke tools tool = ok_or (bt_get tools tool) (UnknownTool tool)"

definition memory_recall :: "(string, string list) btree_map mutex \<Rightarrow> string \<Rightarrow> string \<Rightarrow> u32
    \<Rightarrow> (string list, definition_error) result" where
  "memory_recall values tenant query limit =
     and_then (lock values AdapterFailure) (\<lambda>m.
       Inr (take (unat limit) (filter (\<lambda>v. str_contains v query)
         (case bt_get m tenant of None \<Rightarrow> [] | Some vs \<Rightarrow> vs))))"

definition memory_write :: "(string, string list) btree_map mutex \<Rightarrow> string \<Rightarrow> string
    \<Rightarrow> (unit, definition_error) result \<times> (string, string list) btree_map mutex" where
  "memory_write values tenant value = (case lock values AdapterFailure of
      Inl e \<Rightarrow> (Inl e, values)
    | Inr m \<Rightarrow> (Inr (), values\<lparr>guarded := bt_insert tenant
        ((case bt_get m tenant of None \<Rightarrow> [] | Some vs \<Rightarrow> vs) @ [value]) m\<rparr>))"

definition deny_sandbox :: "(string, definition_error) result" where
  "deny_sandbox = Inl SandboxDenied"

fun map_knowledge_error :: "knowledge_error \<Rightarrow> definition_error" where
  "map_knowledge_error knowledge_error.InvalidRequest = InvalidDefinition"
| "map_knowledge_error knowledge_error.LimitExceeded = LimitExceeded"
| "map_knowledge_error knowledge_error.Unavailable = AdapterFailure"
| "map_knowledge_error knowledge_error.ProtocolViolation = AdapterFailure"

definition checked_output_bytes :: "string \<Rightarrow> nat \<Rightarrow> u32 \<Rightarrow> (nat, definition_error) result" where
  "checked_output_bytes value used limit =
     and_then (ok_or (usize_checked_add used (length value)) LimitExceeded) (\<lambda>t.
       if t \<le> unat limit then Inr t else Inl LimitExceeded)"

definition checked_values_output_bytes :: "string list \<Rightarrow> nat \<Rightarrow> u32 \<Rightarrow> (nat, definition_error) result" where
  "checked_values_output_bytes values used limit =
     try_fold (\<lambda>t value. checked_output_bytes value t limit) used values"

end
