(* ===== verification/Agent_Properties.thy ===== *)
theory Agent_Properties
  imports Agent
begin

text \<open>
  Capability ceilings never elevate, the scope digest binds the whole scope, and the registry
  serves its built-in definitions unchanged and every user definition as last registered.
\<close>

section \<open>The digest encoding\<close>

lemma digest_field_append:
  assumes "length v < 2 ^ 64" and "length w < 2 ^ 64"
  shows "digest_field n v @ r = digest_field n w @ r' \<longleftrightarrow> v = w \<and> r = r'"
proof -
  have "be_bytes 8 (length v) = be_bytes 8 (length w) \<longleftrightarrow> length v = length w"
    using assms by (intro be_bytes_inject) simp_all
  then show ?thesis by (auto simp: digest_field_def)
qed

lemma digest_field_inject:
  "length v < 2 ^ 64 \<Longrightarrow> length w < 2 ^ 64 \<Longrightarrow> digest_field n v = digest_field n w \<longleftrightarrow> v = w"
  using digest_field_append [of v w n "[]" "[]"] by simp

lemma digest_fields_append:
  assumes "length vs = length ws" and "list_all (\<lambda>v. length v < 2 ^ 64) vs" and "list_all (\<lambda>v. length v < 2 ^ 64) ws"
  shows "concat (map (digest_field n) vs) @ r = concat (map (digest_field n) ws) @ r' \<longleftrightarrow> vs = ws \<and> r = r'"
  using assms by (induction vs ws rule: list_induct2) (auto simp: digest_field_append)

definition list_fits :: "string list \<Rightarrow> bool" where
  "list_fits vs \<longleftrightarrow> length vs < 2 ^ 64 \<and> list_all (\<lambda>v. length v < 2 ^ 64) vs"

lemma digest_list_append:
  assumes "list_fits vs" and "list_fits ws"
  shows "digest_list n vs @ r = digest_list n ws @ r' \<longleftrightarrow> vs = ws \<and> r = r'"
proof -
  have "be_bytes 8 (length vs) = be_bytes 8 (length ws) \<longleftrightarrow> length vs = length ws"
    using assms by (intro be_bytes_inject) (simp_all add: list_fits_def)
  moreover have "concat (map (digest_field n) vs) @ r = concat (map (digest_field n) ws) @ r'
      \<longleftrightarrow> vs = ws \<and> r = r'" if "length vs = length ws"
    using assms that by (intro digest_fields_append) (simp_all add: list_fits_def)
  ultimately show ?thesis
    by (auto simp: digest_list_def digest_field_append)
qed

lemma digest_bool_inject [simp]: "digest_bool a = digest_bool b \<longleftrightarrow> a = b"
  by (auto simp: digest_bool_def)

lemma digest_number_inject [simp]: "digest_number a = digest_number b \<longleftrightarrow> a = b"
proof -
  have "unat w < 256 ^ 4" for w :: u32
    using unsigned_less [of w] by simp
  then show ?thesis by (simp add: digest_number_def be_bytes_inject word_unat_eq_iff)
qed

lemma digest_lengths [simp]:
  "length (digest_bool b) = 1" "length (digest_number n) = 4"
  by (simp_all add: digest_bool_def digest_number_def)

text \<open>Every string and vector of a process is shorter than \<open>2 ^ 64\<close> bytes.\<close>

definition scope_fits :: "resolved_capability_scope \<Rightarrow> bool" where
  "scope_fits s \<longleftrightarrow> list_fits [rs_agent_id s, rs_model_reference s, rs_instructions s, kp_namespace (rs_knowledge s)]
     \<and> list_fits (rs_skills s) \<and> list_fits (rs_steering s) \<and> list_fits (rs_allowed_tool_ids s)"

lemma scope_bytes_inject:
  assumes "scope_fits s" and "scope_fits s'" and "scope_bytes s = scope_bytes s'"
  shows "s\<lparr>rs_digest := []\<rparr> = s'\<lparr>rs_digest := []\<rparr>"
proof -
  from assms(3) have "rs_agent_id s = rs_agent_id s' \<and> rs_model_reference s = rs_model_reference s'
    \<and> rs_instructions s = rs_instructions s' \<and> rs_skills s = rs_skills s' \<and> rs_steering s = rs_steering s'
    \<and> rs_allowed_tool_ids s = rs_allowed_tool_ids s'
    \<and> mp_enabled (rs_memory s) = mp_enabled (rs_memory s')
    \<and> kp_enabled (rs_knowledge s) = kp_enabled (rs_knowledge s')
    \<and> rs_allow_execution s = rs_allow_execution s' \<and> rs_allow_messages s = rs_allow_messages s'
    \<and> mp_max_items (rs_memory s) = mp_max_items (rs_memory s')
    \<and> kp_namespace (rs_knowledge s) = kp_namespace (rs_knowledge s')
    \<and> kp_max_results (rs_knowledge s) = kp_max_results (rs_knowledge s')
    \<and> el_max_tool_calls (rs_limits s) = el_max_tool_calls (rs_limits s')
    \<and> el_max_output_bytes (rs_limits s) = el_max_output_bytes (rs_limits s')"
    using assms(1,2) unfolding scope_bytes_def scope_fits_def append_assoc
    by (simp add: digest_field_append digest_field_inject digest_list_append list_fits_def)
  then show ?thesis
    by (intro resolved_capability_scope.equality) (auto intro: memory_policy.equality
        knowledge_policy.equality execution_limits.equality)
qed

section \<open>Registry histories\<close>

datatype registry_op = Register agent_definition_v1 | Delete string

fun registry_step :: "agent_registry \<Rightarrow> registry_op \<Rightarrow> (unit, definition_error) result \<times> agent_registry" where
  "registry_step registry (Register d) = registry_register registry d"
| "registry_step registry (Delete i) = registry_delete registry i"

abbreviation stored :: "agent_registry \<Rightarrow> (string, agent_definition_v1) btree_map" where
  "stored registry \<equiv> guarded (ds_definitions (ar_store registry))"

definition registry_inv :: "agent_registry \<Rightarrow> bool" where
  "registry_inv registry \<longleftrightarrow> \<not> poisoned (ds_definitions (ar_store registry))
     \<and> bt_ok (ar_builtins registry) \<and> bt_ok (stored registry)
     \<and> (\<forall>i d. bt_get (ar_builtins registry) i = Some d \<or> bt_get (stored registry) i = Some d \<longrightarrow>
          ad_id d = i \<and> registry_validate (ar_catalog registry) d = Inr ())
     \<and> (\<forall>i. bt_get (stored registry) i \<noteq> None \<longrightarrow> bt_get (ar_builtins registry) i = None)"

lemma registry_step_Register:
  assumes "registry_inv registry"
  shows "registry_register registry d =
    (case registry_validate (ar_catalog registry) d of Inl e \<Rightarrow> (Inl e, registry)
     | Inr _ \<Rightarrow> if bt_get (ar_builtins registry) (ad_id d) \<noteq> None then (Inl BuiltinProtected, registry)
         else (Inr (), registry\<lparr>ar_store := (ar_store registry)\<lparr>ds_definitions :=
           (ds_definitions (ar_store registry))\<lparr>guarded := bt_insert (ad_id d) d (stored registry)\<rparr>\<rparr>\<rparr>))"
  using assms by (simp add: registry_register_def store_save_def lock_def registry_inv_def
      bt_contains_key_def split: sum.split)

lemma registry_step_Delete:
  assumes "registry_inv registry"
  shows "registry_delete registry i =
    (if bt_get (ar_builtins registry) i \<noteq> None then (Inl BuiltinProtected, registry)
     else (Inr (), registry\<lparr>ar_store := (ar_store registry)\<lparr>ds_definitions :=
           (ds_definitions (ar_store registry))\<lparr>guarded := bt_remove i (stored registry)\<rparr>\<rparr>\<rparr>))"
  using assms by (simp add: registry_delete_def store_delete_def lock_def registry_inv_def bt_contains_key_def)

lemmas registry_step_cases = registry_step_Register registry_step_Delete

text \<open>The user definitions after a history: the last valid registration of each identifier.\<close>

fun users_after :: "reference_catalog \<Rightarrow> (string, agent_definition_v1) btree_map
    \<Rightarrow> (string \<rightharpoonup> agent_definition_v1) \<Rightarrow> registry_op \<Rightarrow> (string \<rightharpoonup> agent_definition_v1)" where
  "users_after catalog builtins m (Register d) =
     (if registry_validate catalog d = Inr () \<and> bt_get builtins (ad_id d) = None then m(ad_id d \<mapsto> d) else m)"
| "users_after catalog builtins m (Delete i) = (if bt_get builtins i = None then m(i := None) else m)"

definition spec_registry_step :: "(reference_catalog \<times> (string, agent_definition_v1) btree_map
      \<times> (string \<rightharpoonup> agent_definition_v1)) \<Rightarrow> registry_op
    \<Rightarrow> (unit, definition_error) result \<times> (reference_catalog \<times> (string, agent_definition_v1) btree_map
      \<times> (string \<rightharpoonup> agent_definition_v1))" where
  "spec_registry_step = (\<lambda>(catalog, builtins, users) op.
     (case op of
        Register d \<Rightarrow> and_then (registry_validate catalog d) (\<lambda>_.
          if bt_get builtins (ad_id d) \<noteq> None then Inl BuiltinProtected else Inr ())
      | Delete i \<Rightarrow> if bt_get builtins i \<noteq> None then Inl BuiltinProtected else Inr (),
      (catalog, builtins, users_after catalog builtins users op)))"

definition registry_abs :: "agent_registry \<Rightarrow> reference_catalog \<times> (string, agent_definition_v1) btree_map
    \<times> (string \<rightharpoonup> agent_definition_v1)" where
  "registry_abs registry = (ar_catalog registry, ar_builtins registry, bt_get (stored registry))"

interpretation registry: refinement_machine registry_step registry_inv registry_abs spec_registry_step
proof
  fix registry op
  assume inv: "registry_inv registry"
  show "registry_inv (snd (registry_step registry op))"
    using inv by (cases op) (auto simp: registry_step_cases [OF inv] registry_inv_def split: sum.split)
  show "spec_registry_step (registry_abs registry) op = map_prod id registry_abs (registry_step registry op)"
    by (cases op) (auto simp: registry_step_cases [OF inv] spec_registry_step_def registry_abs_def split: sum.split)
qed

lemma run_spec_registry:
  "run spec_registry_step (catalog, builtins, users) ops
   = (catalog, builtins, foldl (users_after catalog builtins) users ops)"
  by (induction ops arbitrary: users) (simp_all add: spec_registry_step_def)

lemma registry_index_Inr:
  "registry_index catalog m d = Inr m' \<longleftrightarrow> registry_validate catalog d = Inr ()
     \<and> bt_get m (ad_id d) = None \<and> m' = bt_insert (ad_id d) d m"
  by (auto simp: registry_index_def result_simps split: if_splits)

lemma registry_fold_Inr:
  assumes "try_fold (registry_index catalog) m ds = Inr m'" and "bt_ok m"
  shows "bt_ok m' \<and> (\<forall>i d. bt_get m' i = Some d \<longleftrightarrow> bt_get m i = Some d \<or> d \<in> set ds \<and> ad_id d = i)
    \<and> (\<forall>d\<in>set ds. registry_validate catalog d = Inr () \<and> bt_get m (ad_id d) = None)"
  using assms
proof (induction ds arbitrary: m)
  case (Cons d ds)
  from Cons.prems(1) have valid: "registry_validate catalog d = Inr ()" and absent: "bt_get m (ad_id d) = None"
    and rest: "try_fold (registry_index catalog) (bt_insert (ad_id d) d m) ds = Inr m'"
    by (auto simp: result_simps registry_index_Inr)
  from Cons.IH [OF rest] Cons.prems(2) valid absent show ?case
    by (auto split: if_splits)
qed auto

lemma registry_new_inv:
  assumes "agent_registry_new builtins definition_store_default catalog = Inr registry"
  shows "registry_inv registry" and "ar_catalog registry = catalog" and "stored registry = []"
    and "bt_get (ar_builtins registry) i = Some d \<longleftrightarrow> d \<in> set builtins \<and> ad_id d = i"
proof -
  from assms obtain m where m: "try_fold (registry_index catalog) [] builtins = Inr m"
    "registry = \<lparr>ar_builtins = m, ar_store = definition_store_default, ar_catalog = catalog\<rparr>"
    by (auto simp: agent_registry_new_def result_simps)
  note fold = registry_fold_Inr [OF m(1) bt_ok_Nil]
  from fold m(2) show "registry_inv registry" "ar_catalog registry = catalog" "stored registry = []"
    "bt_get (ar_builtins registry) i = Some d \<longleftrightarrow> d \<in> set builtins \<and> ad_id d = i"
    by (auto simp: registry_inv_def definition_store_default_def)
qed

lemma registry_get_reached:
  assumes "registry_inv registry"
  shows "registry_get registry i = (case bt_get (ar_builtins registry) i of Some d \<Rightarrow> Inr d
    | None \<Rightarrow> ok_or (bt_get (stored registry) i) NotFound)"
proof -
  have "registry_validate (ar_catalog registry) d = Inr ()" if "bt_get (stored registry) i = Some d" for d
    using that assms by (simp add: registry_inv_def)
  then show ?thesis
    using assms by (cases "bt_get (stored registry) i")
      (auto simp: registry_get_def store_load_def lock_def registry_inv_def split: option.split)
qed

section \<open>A registry to run\<close>

definition demo_definition :: agent_definition_v1 where
  "demo_definition = \<lparr>ad_id = ''a1'', ad_name = ''n'', ad_description = ''d'', ad_model_reference = ''p.m'',
     ad_instructions = ''do'', ad_skills = [], ad_steering = [], ad_allowed_tool_ids = [''t1'', ''t2''],
     ad_memory = \<lparr>mp_enabled = True, mp_max_items = 3\<rparr>,
     ad_knowledge = \<lparr>kp_enabled = False, kp_namespace = ''kn'', kp_max_results = 0\<rparr>,
     ad_allow_execution = False, ad_allow_messages = False,
     ad_limits = \<lparr>el_max_tool_calls = 2, el_max_output_bytes = 100\<rparr>\<rparr>"

definition demo_catalog :: reference_catalog where
  "demo_catalog = static_reference_catalog [''p.m''] [] [] [''t1'', ''t2'']"

lemma demo_id: "ad_id demo_definition = ''a1''"
  by (simp add: demo_definition_def)

lemma demo_blank: "\<not> blank ''n''" "\<not> blank ''d''" "\<not> blank ''do''"
  by code_simp+

lemma demo_references: "valid_reference ''p.m''" "valid_reference ''t1''" "valid_reference ''t2''"
  by (simp_all add: valid_reference_def ascii_defs less_eq_char_def)

lemma demo_identifier: "is_ok (identifier_new ''kn'')"
  by (simp add: identifier_new_def validate_identifier_def MAX_IDENTIFIER_BYTES_def is_identifier_start_def
      is_identifier_continue_def ascii_defs less_eq_char_def)

lemma demo_definition_valid: "registry_validate demo_catalog (demo_definition\<lparr>ad_id := i\<rparr>) = Inr ()"
  by (simp add: registry_validate_def validate_definition_def demo_definition_def demo_blank demo_references
      demo_identifier MAX_INPUT_BYTES_def MAX_CAPABILITY_REFERENCES_def MAX_TOOL_CALLS_def MAX_OUTPUT_BYTES_def
      MAX_SEARCH_LIMIT_def validate_references_def demo_catalog_def static_reference_catalog_def)

lemma demo_registry:
  "\<exists>registry. agent_registry_new [demo_definition] definition_store_default demo_catalog = Inr registry"
  using demo_definition_valid [of "ad_id demo_definition"]
  by (simp add: agent_registry_new_def registry_index_def)

section \<open>Properties\<close>

text \<open>Intersecting a ceiling with a definition never elevates: the effective tools are exactly
  the tools both allow, sorted and without duplicates, every flag is the conjunction, the result
  is itself a valid ceiling and a fixed point, and the scope resolved under it offers only tools
  that the definition, the ceiling and the tool registry all have.\<close>

lemma ceiling_never_elevates:
  assumes "intersect ceiling d = Inr c"
  shows "set (cc_allowed_tool_ids c) = set (cc_allowed_tool_ids ceiling) \<inter> set (ad_allowed_tool_ids d)
    \<and> sorted_wrt (<) (cc_allowed_tool_ids c)
    \<and> (cc_memory_enabled c \<longleftrightarrow> cc_memory_enabled ceiling \<and> mp_enabled (ad_memory d))
    \<and> (cc_knowledge_enabled c \<longleftrightarrow> cc_knowledge_enabled ceiling \<and> kp_enabled (ad_knowledge d))
    \<and> (cc_sandbox_execution_allowed c \<longleftrightarrow> cc_sandbox_execution_allowed ceiling \<and> ad_allow_execution d)
    \<and> (cc_communication_allowed c \<longleftrightarrow> cc_communication_allowed ceiling \<and> ad_allow_messages d)
    \<and> validate_effective_capability_ceiling c = Inr () \<and> intersect c d = Inr c
    \<and> set (rs_allowed_tool_ids (scope_from_definition sha256_hex d tools c))
        = set tools \<inter> set (cc_allowed_tool_ids ceiling) \<inter> set (ad_allowed_tool_ids d)"
proof -
  let ?both = "filter (\<lambda>t. t \<in> set (ad_allowed_tool_ids d)) (cc_allowed_tool_ids ceiling)"
  from assms have valid: "length (cc_allowed_tool_ids ceiling) \<le> MAX_CAPABILITY_REFERENCES"
    "list_all valid_reference (cc_allowed_tool_ids ceiling)"
    and c: "c = \<lparr>cc_allowed_tool_ids = bs_collect ?both,
            cc_memory_enabled = (cc_memory_enabled ceiling \<and> mp_enabled (ad_memory d)),
            cc_knowledge_enabled = (cc_knowledge_enabled ceiling \<and> kp_enabled (ad_knowledge d)),
            cc_sandbox_execution_allowed = (cc_sandbox_execution_allowed ceiling \<and> ad_allow_execution d),
            cc_communication_allowed = (cc_communication_allowed ceiling \<and> ad_allow_messages d)\<rparr>"
    by (auto simp: intersect_def result_simps validate_effective_capability_ceiling_def sort_dedup_eq
        split: if_splits)
  have "length (bs_collect ?both) = card (set ?both)"
    by (metis bs_collect_distinct bs_collect_set distinct_card)
  also have "\<dots> \<le> length (cc_allowed_tool_ids ceiling)"
    by (rule order_trans [OF card_length length_filter_le])
  finally have len: "length (bs_collect ?both) \<le> MAX_CAPABILITY_REFERENCES" using valid(1) by simp
  then have ok: "validate_effective_capability_ceiling c = Inr ()"
    using valid(2) by (auto simp: c validate_effective_capability_ceiling_def list_all_iff)
  have "filter (\<lambda>t. t \<in> set (ad_allowed_tool_ids d)) (bs_collect ?both) = bs_collect ?both"
    by (rule filter_True) simp
  then have "intersect c d = Inr c"
    using ok by (simp add: intersect_def) (simp add: c sort_dedup_eq)
  with ok show ?thesis
    by (auto simp: c bs_collect_strict scope_from_definition_def Let_def sort_dedup_eq)
qed

lemma ceiling_never_elevates_witness:
  "\<exists>c. intersect \<lparr>cc_allowed_tool_ids = [''t9'', ''t1''], cc_memory_enabled = True, cc_knowledge_enabled = True,
        cc_sandbox_execution_allowed = True, cc_communication_allowed = False\<rparr> demo_definition = Inr c
     \<and> set (cc_allowed_tool_ids c) = {''t1''} \<and> \<not> cc_sandbox_execution_allowed c"
proof -
  let ?ceiling = "\<lparr>cc_allowed_tool_ids = [''t9'', ''t1''], cc_memory_enabled = True, cc_knowledge_enabled = True,
        cc_sandbox_execution_allowed = True, cc_communication_allowed = False\<rparr>"
  have "valid_reference ''t9''" by (simp add: valid_reference_def ascii_defs less_eq_char_def)
  then obtain c where c: "intersect ?ceiling demo_definition = Inr c"
    by (simp add: intersect_def validate_effective_capability_ceiling_def MAX_CAPABILITY_REFERENCES_def
        demo_references)
  from ceiling_never_elevates [OF c] c show ?thesis by (auto simp: demo_definition_def)
qed

text \<open>The digest binds the complete scope: two scopes with the same digested bytes are the
  same scope (agent, model, instructions, skills, steering, tools, every policy and limit), so
  under a collision-free hash equal digests mean equal scopes.\<close>

lemma scope_digest_binds:
  assumes "scope_fits s" and "scope_fits s'"
    and "inj_on sha256_hex {scope_bytes s, scope_bytes s'}"
  shows "digest_scope sha256_hex s = digest_scope sha256_hex s' \<longleftrightarrow> s\<lparr>rs_digest := []\<rparr> = s'\<lparr>rs_digest := []\<rparr>"
proof
  assume "digest_scope sha256_hex s = digest_scope sha256_hex s'"
  then have "sha256_hex (scope_bytes s) = sha256_hex (scope_bytes s')" by (simp add: digest_scope_def)
  then have "scope_bytes s = scope_bytes s'" by (rule inj_onD [OF assms(3)]) simp_all
  then show "s\<lparr>rs_digest := []\<rparr> = s'\<lparr>rs_digest := []\<rparr>" by (rule scope_bytes_inject [OF assms(1,2)])
next
  have same: "scope_bytes (x\<lparr>rs_digest := []\<rparr>) = scope_bytes x" for x by (simp add: scope_bytes_def)
  assume "s\<lparr>rs_digest := []\<rparr> = s'\<lparr>rs_digest := []\<rparr>"
  then have "scope_bytes s = scope_bytes s'" by (metis same)
  then show "digest_scope sha256_hex s = digest_scope sha256_hex s'" by (simp add: digest_scope_def)
qed

lemma scope_digest_binds_witness:
  "digest_scope (\<lambda>x. x) (scope_from_definition (\<lambda>x. x) demo_definition [''t1''] (full_definition demo_definition))
   \<noteq> digest_scope (\<lambda>x. x) (scope_from_definition (\<lambda>x. x) demo_definition [] (full_definition demo_definition))"
proof -
  let ?s = "scope_from_definition (\<lambda>x. x) demo_definition [''t1''] (full_definition demo_definition)"
  let ?s' = "scope_from_definition (\<lambda>x. x) demo_definition [] (full_definition demo_definition)"
  have "scope_fits ?s" "scope_fits ?s'"
    by (simp_all add: scope_fits_def list_fits_def scope_from_definition_def Let_def demo_definition_def
        full_definition_def sort_dedup_eq bs_collect_def)
  moreover have "rs_allowed_tool_ids ?s \<noteq> rs_allowed_tool_ids ?s'"
    by (simp add: scope_from_definition_def Let_def demo_definition_def full_definition_def sort_dedup_eq
        bs_collect_def)
  then have "?s\<lparr>rs_digest := []\<rparr> \<noteq> ?s'\<lparr>rs_digest := []\<rparr>"
    by (metis resolved_capability_scope.select_convs(6) resolved_capability_scope.surjective
        resolved_capability_scope.update_convs(12))
  ultimately show ?thesis
    using scope_digest_binds [of ?s ?s' "\<lambda>x. x"] by (simp add: inj_on_def)
qed

text \<open>After any history of registrations and deletions from a new registry, a lookup returns
  the built-in definition if the identifier is a built-in one, otherwise the last definition
  validly registered and not deleted since, otherwise not found: built-ins cannot be shadowed,
  replaced or deleted, and revalidation on lookup never fails.\<close>

lemma registry_serves_last_registration:
  assumes "agent_registry_new builtins definition_store_default catalog = Inr registry"
  shows "registry_get (run registry_step registry ops) i =
    (case bt_get (ar_builtins registry) i of
       Some d \<Rightarrow> Inr d
     | None \<Rightarrow> ok_or (foldl (users_after catalog (ar_builtins registry)) Map.empty ops i) NotFound)
    \<and> (bt_get (ar_builtins registry) i = Some d \<longleftrightarrow> d \<in> set builtins \<and> ad_id d = i)"
proof -
  note new = registry_new_inv [OF assms]
  have abs: "registry_abs registry = (catalog, ar_builtins registry, Map.empty)"
    using new(2,3) by (simp add: registry_abs_def)
  have "registry_abs (run registry_step registry ops)
    = (catalog, ar_builtins registry, foldl (users_after catalog (ar_builtins registry)) Map.empty ops)"
    unfolding registry.run_refines [OF new(1), symmetric] abs by (rule run_spec_registry)
  then have "ar_builtins (run registry_step registry ops) = ar_builtins registry"
    "bt_get (stored (run registry_step registry ops)) = foldl (users_after catalog (ar_builtins registry)) Map.empty ops"
    by (simp_all add: registry_abs_def)
  then show ?thesis
    using new(4) [of i d]
    by (cases "bt_get (ar_builtins registry) i") (simp_all add: registry_get_reached [OF registry.run_inv [OF new(1)]])
qed

lemma registry_serves_last_registration_witness:
  "\<exists>registry. agent_registry_new [demo_definition] definition_store_default demo_catalog = Inr registry
     \<and> registry_get (run registry_step registry [Register (demo_definition\<lparr>ad_id := ''b2''\<rparr>), Delete ''a1'']) ''b2''
         = Inr (demo_definition\<lparr>ad_id := ''b2''\<rparr>)
     \<and> registry_get (run registry_step registry [Register (demo_definition\<lparr>ad_id := ''b2''\<rparr>), Delete ''a1'']) ''a1''
         = Inr demo_definition"
proof -
  obtain registry where new: "agent_registry_new [demo_definition] definition_store_default demo_catalog = Inr registry"
    using demo_registry by blast
  let ?ops = "[Register (demo_definition\<lparr>ad_id := ''b2''\<rparr>), Delete ''a1'']"
  have builtin: "bt_get (ar_builtins registry) ''a1'' = Some demo_definition"
    using registry_new_inv(4) [OF new, of "''a1''" demo_definition] demo_id by simp
  have user: "bt_get (ar_builtins registry) ''b2'' = None"
  proof (cases "bt_get (ar_builtins registry) ''b2''")
    case (Some d)
    with registry_new_inv(4) [OF new] have "d = demo_definition" "ad_id d = ''b2''" by auto
    then show ?thesis using demo_id by simp
  qed
  have "foldl (users_after demo_catalog (ar_builtins registry)) Map.empty ?ops ''b2''
    = Some (demo_definition\<lparr>ad_id := ''b2''\<rparr>)"
    by (simp add: demo_definition_valid user builtin)
  with registry_serves_last_registration [OF new, of ?ops "''b2''"] user
  have b2: "registry_get (run registry_step registry ?ops) ''b2'' = Inr (demo_definition\<lparr>ad_id := ''b2''\<rparr>)"
    by (simp only: option.case ok_or.simps)
  from registry_serves_last_registration [OF new, of ?ops "''a1''"] builtin
  have a1: "registry_get (run registry_step registry ?ops) ''a1'' = Inr demo_definition"
    by (simp only: option.case)
  from new b2 a1 show ?thesis by blast
qed

end
