(* ===== verification/Json.thy ===== *)
theory Json
  imports Collections "HOL-Library.Multiset"
begin

text \<open>
  JSON values as \<open>serde_json\<close> presents them: a document is parsed into a value whose objects
  list their members in document order (what the deserializer hands to a visitor), while a
  \<open>serde_json::Value\<close> keeps each object as a map sorted by key (the crate is built without
  \<open>preserve_order\<close>). Parsing text and printing values are parameters of the components that
  use them; the visitors and normalizations of the workspace are defined here.
\<close>

datatype json =
    JNull
  | JBool bool
  | JNumber string
  | JString string
  | JArray "json list"
  | JObject "(string \<times> json) list"

text \<open>\<open>DuplicateRejectingVisitor\<close> of \<open>llm-gateway/src/validation.rs\<close>: fails on a repeated key.\<close>

fun visit :: "json \<Rightarrow> json option"
  and visit_seq :: "json list \<Rightarrow> json list option"
  and visit_map :: "(string, json) btree_map \<Rightarrow> (string \<times> json) list \<Rightarrow> (string, json) btree_map option"
where
  "visit JNull = Some JNull"
| "visit (JBool b) = Some (JBool b)"
| "visit (JNumber n) = Some (JNumber n)"
| "visit (JString s) = Some (JString s)"
| "visit (JArray vs) = map_option JArray (visit_seq vs)"
| "visit (JObject es) = map_option JObject (visit_map [] es)"
| "visit_seq [] = Some []"
| "visit_seq (v # vs) = Option.bind (visit v) (\<lambda>w. map_option (\<lambda>ws. w # ws) (visit_seq vs))"
| "visit_map acc [] = Some acc"
| "visit_map acc ((k, v) # es) =
     (if bt_contains_key acc k then None
      else Option.bind (visit v) (\<lambda>w. visit_map (bt_insert k w acc) es))"

text \<open>
  The plain visitor of \<open>serde_json::Value\<close>: a repeated key overwrites. \<open>canonical_value\<close> of
  \<open>workflow/src/lib.rs\<close> and \<open>sort_value\<close> of \<open>llm-gateway/src/validation.rs\<close> rebuild every object
  from its members.
\<close>

fun value_of :: "json \<Rightarrow> json"
  and value_map :: "(string, json) btree_map \<Rightarrow> (string \<times> json) list \<Rightarrow> (string, json) btree_map"
  and value_seq :: "json list \<Rightarrow> json list"
where
  "value_of JNull = JNull"
| "value_of (JBool b) = JBool b"
| "value_of (JNumber n) = JNumber n"
| "value_of (JString s) = JString s"
| "value_of (JArray vs) = JArray (value_seq vs)"
| "value_of (JObject es) = JObject (value_map [] es)"
| "value_map acc [] = acc"
| "value_map acc ((k, v) # es) = value_map (bt_insert k (value_of v) acc) es"
| "value_seq [] = []"
| "value_seq (v # vs) = value_of v # value_seq vs"

text \<open>A document no object of which repeats a key, and a value whose objects are sorted maps.\<close>

fun distinct_keys :: "json \<Rightarrow> bool" where
  "distinct_keys (JArray vs) \<longleftrightarrow> (\<forall>v\<in>set vs. distinct_keys v)"
| "distinct_keys (JObject es) \<longleftrightarrow> distinct (map fst es) \<and> (\<forall>e\<in>set es. distinct_keys (snd e))"
| "distinct_keys _ \<longleftrightarrow> True"

fun normal :: "json \<Rightarrow> bool" where
  "normal (JArray vs) \<longleftrightarrow> (\<forall>v\<in>set vs. normal v)"
| "normal (JObject es) \<longleftrightarrow> bt_ok es \<and> (\<forall>e\<in>set es. normal (snd e))"
| "normal _ \<longleftrightarrow> True"

section \<open>The visitor decides distinct keys and normalizes\<close>

lemma visit_eq:
  "visit v = (if distinct_keys v then Some (value_of v) else None)"
  "visit_seq vs = (if \<forall>v\<in>set vs. distinct_keys v then Some (value_seq vs) else None)"
  "visit_map acc es = (if distinct (map fst es) \<and> (\<forall>e\<in>set es. distinct_keys (snd e))
       \<and> (\<forall>e\<in>set es. \<not> bt_contains_key acc (fst e)) then Some (value_map acc es) else None)"
proof (induction v and vs and acc es rule: visit_visit_seq_visit_map.induct)
  case (10 acc k v es)
  have "bt_contains_key (bt_insert k w acc) j \<longleftrightarrow> j = k \<or> bt_contains_key acc j" for w j
    by (auto simp: bt_contains_key_iff)
  then show ?case using 10 by (auto simp: image_iff)
qed (auto simp: bt_contains_key_def)

lemma value_map_eq:
  "value_map acc es = foldl (\<lambda>m e. bt_insert (fst e) (value_of (snd e)) m) acc es"
  by (induction es arbitrary: acc) auto

lemma value_seq_eq: "value_seq vs = map value_of vs"
  by (induction vs) auto

lemma bt_ok_fold_insert:
  "bt_ok acc \<Longrightarrow> bt_ok (foldl (\<lambda>m e. bt_insert (fst e) (f (snd e)) m) acc es)"
  by (induction es arbitrary: acc) auto

lemma set_fold_insert:
  "bt_ok acc \<Longrightarrow> set (foldl (\<lambda>m e. bt_insert (fst e) (f (snd e)) m) acc es)
     \<subseteq> set acc \<union> (\<lambda>e. (fst e, f (snd e))) ` set es"
proof (induction es arbitrary: acc)
  case (Cons e es)
  from Cons.IH [of "bt_insert (fst e) (f (snd e)) acc"] Cons.prems show ?case
    by (auto simp: set_bt_insert)
qed simp

lemma normal_value_of: "normal (value_of v)"
proof (induction v)
  case (JObject es)
  have "normal (snd x)" if "x \<in> set (value_map [] es)" for x
  proof -
    have "x \<in> (\<lambda>e. (fst e, value_of (snd e))) ` set es"
      using that set_fold_insert [OF bt_ok_Nil, of value_of es] by (auto simp: value_map_eq)
    then show ?thesis using JObject by (force simp: snds.simps)
  qed
  then show ?case by (simp add: value_map_eq bt_ok_fold_insert)
qed (auto simp: value_seq_eq)

text \<open>A sorted map of distinct keys is determined by its entries, so the order of the members
  in the document does not matter.\<close>

lemma get_fold_insert:
  assumes "distinct (map fst es)"
  shows "bt_get (foldl (\<lambda>m e. bt_insert (fst e) (f (snd e)) m) acc es) =
    (\<lambda>k. case map_of es k of None \<Rightarrow> bt_get acc k | Some v \<Rightarrow> Some (f v))"
  using assms
proof (induction es arbitrary: acc)
  case (Cons e es)
  have "map_of es (fst e) = None" using Cons.prems by (auto simp: map_of_eq_None_iff)
  with Cons show ?case by (cases e) (auto simp: fun_eq_iff split: option.split)
qed (simp add: fun_eq_iff)

lemma value_of_normal: "normal v \<Longrightarrow> value_of v = v"
proof (induction v)
  case (JArray vs)
  then show ?case by (simp add: value_seq_eq map_idI)
next
  case (JObject es)
  have distinct: "distinct (map fst es)" and ok: "bt_ok es" using JObject.prems by (auto simp: bt_ok_distinct)
  have "value_of (snd e) = snd e" if "e \<in> set es" for e
    using JObject.IH [OF that, of "snd e"] JObject.prems that by (cases e) (auto simp: snds.simps)
  then have "value_of w = w" if "map_of es k = Some w" for k w
    using map_of_SomeD [OF that] by force
  then have "bt_get (value_map [] es) k = bt_get es k" for k
    unfolding value_map_eq get_fold_insert [OF distinct] by (cases "map_of es k") auto
  then have "value_map [] es = es"
    using ok by (intro bt_ok_ext) (auto simp: value_map_eq bt_ok_fold_insert)
  then show ?case by simp
qed auto

section \<open>Reordering members\<close>

inductive reordered :: "json \<Rightarrow> json \<Rightarrow> bool" where
  same: "reordered v v"
| array: "list_all2 reordered vs ws \<Longrightarrow> reordered (JArray vs) (JArray ws)"
| object: "list_all2 (\<lambda>d e. fst d = fst e \<and> reordered (snd d) (snd e)) es fs \<Longrightarrow> mset fs = mset gs
    \<Longrightarrow> reordered (JObject es) (JObject gs)"

lemma value_of_reordered:
  assumes "reordered v w" and "distinct_keys v"
  shows "value_of v = value_of w \<and> distinct_keys w"
  using assms
proof (induction rule: reordered.induct)
  case (array vs ws)
  have "value_of a = value_of b \<and> distinct_keys b" if "(a, b) \<in> set (zip vs ws)" for a b
  proof -
    from that have "a \<in> set vs" by (rule set_zip_leftD)
    with array that show ?thesis by (auto simp: list_all2_iff)
  qed
  moreover have "length vs = length ws" using array by (simp add: list_all2_lengthD)
  ultimately have "list_all2 (\<lambda>a b. value_of a = value_of b \<and> distinct_keys b) vs ws"
    by (auto simp: list_all2_iff)
  then show ?case
    by (auto simp: value_seq_eq list_all2_conv_all_nth intro!: nth_equalityI) (metis in_set_conv_nth)
next
  case (object es fs gs)
  have pair: "fst d = fst e \<and> value_of (snd d) = value_of (snd e) \<and> distinct_keys (snd e)"
    if "(d, e) \<in> set (zip es fs)" for d e
  proof -
    from that have "d \<in> set es" by (rule set_zip_leftD)
    with object that show ?thesis by (auto simp: list_all2_iff)
  qed
  moreover have "length es = length fs" using object by (simp add: list_all2_lengthD)
  ultimately have all: "list_all2 (\<lambda>d e. fst d = fst e \<and> value_of (snd d) = value_of (snd e)
      \<and> distinct_keys (snd e)) es fs"
    by (auto simp: list_all2_iff)
  then have keys: "map fst es = map fst fs"
    and vals: "map (\<lambda>e. (fst e, value_of (snd e))) es = map (\<lambda>e. (fst e, value_of (snd e))) fs"
    by (auto simp: list_all2_conv_all_nth intro!: nth_equalityI)
  from all have deep: "\<forall>e\<in>set fs. distinct_keys (snd e)"
    by (simp add: list_all2_conv_all_nth all_set_conv_all_nth)
  have sets: "set fs = set gs" using object by (metis mset_eq_setD)
  have dist: "distinct (map fst fs)" using keys object.prems by simp
  moreover have "mset (map fst fs) = mset (map fst gs)" using object by simp
  ultimately have distg: "distinct (map fst gs)" by (metis mset_eq_imp_distinct_iff)
  have lookup: "map_of fs = map_of gs" using dist distg sets by (rule map_of_inject_set [THEN iffD2])
  have step: "foldl (\<lambda>m e. bt_insert (fst e) (value_of (snd e)) m) [] xs
      = foldl (\<lambda>m e. bt_insert (fst e) (snd e) m) [] (map (\<lambda>e. (fst e, value_of (snd e))) xs)" for xs
    by (simp add: foldl_map)
  have "value_map [] es = value_map [] fs" unfolding value_map_eq step vals ..
  also have "\<dots> = value_map [] gs"
    using dist distg lookup
    by (intro bt_ok_ext) (auto simp: value_map_eq bt_ok_fold_insert get_fold_insert)
  finally show ?case using distg deep sets by simp
qed simp

end
