(* ===== verification/Gateway.thy ===== *)
theory Gateway
  imports Contracts Json
begin

text \<open>
  The framework-free part of the LLM gateway crate: limits and validation
  (\<open>llm-gateway/src/validation.rs\<close>), requests and responses (\<open>llm-gateway/src/model.rs\<close>), the
  request-relative check of a response (\<open>llm-gateway/src/service.rs\<close>), the preflight of an
  invocation control (\<open>llm-gateway/src/port.rs\<close>) and the static provider
  (\<open>llm-gateway/src/static.rs\<close>). \<open>serde_json\<close> is a parameter: \<open>parse\<close> from text to the members the
  deserializer presents, \<open>print\<close> from a value to its compact text.
\<close>

section \<open>Limits and validation\<close>

definition MAX_IDENTIFIER_BYTES :: nat where "MAX_IDENTIFIER_BYTES = 256"
definition MAX_TOOL_NAME_BYTES :: nat where "MAX_TOOL_NAME_BYTES = 128"
definition MAX_PROMPT_TEXT_BYTES :: nat where "MAX_PROMPT_TEXT_BYTES = 16 * 1024"
definition MAX_PROMPT_BYTES :: nat where "MAX_PROMPT_BYTES = 32 * 1024"
definition MAX_TOOLS :: nat where "MAX_TOOLS = 64"
definition MAX_TOOL_DESCRIPTION_BYTES :: nat where "MAX_TOOL_DESCRIPTION_BYTES = 4 * 1024"
definition MAX_JSON_OBJECT_BYTES :: nat where "MAX_JSON_OBJECT_BYTES = 16 * 1024"
definition MAX_TOOL_SCHEMAS_BYTES :: nat where "MAX_TOOL_SCHEMAS_BYTES = 64 * 1024"
definition MAX_RESPONSE_TEXT_BYTES :: nat where "MAX_RESPONSE_TEXT_BYTES = 64 * 1024"
definition MAX_TOOL_CALLS :: nat where "MAX_TOOL_CALLS = 64"
definition MAX_TOOL_ARGUMENTS_BYTES :: nat where "MAX_TOOL_ARGUMENTS_BYTES = 64 * 1024"
definition MAX_OUTPUT_TOKENS :: u32 where "MAX_OUTPUT_TOKENS = 1000000"
definition MAX_REPORTED_TOKENS :: u32 where "MAX_REPORTED_TOKENS = 1000000"
definition MAX_TOTAL_TOKENS :: u32 where "MAX_TOTAL_TOKENS = 2000000"

datatype llm_error =
    InvalidRequest | LimitExceeded | Unsupported | Cancelled | DeadlineExceeded | Authentication
  | RateLimited | Unavailable | ProviderRejected | ProtocolViolation

fun llm_error_display :: "llm_error \<Rightarrow> string" where
  "llm_error_display InvalidRequest = ''invalid request''"
| "llm_error_display LimitExceeded = ''limit exceeded''"
| "llm_error_display Unsupported = ''unsupported operation''"
| "llm_error_display Cancelled = ''operation cancelled''"
| "llm_error_display DeadlineExceeded = ''deadline exceeded''"
| "llm_error_display Authentication = ''authentication failed''"
| "llm_error_display RateLimited = ''rate limited''"
| "llm_error_display Unavailable = ''provider unavailable''"
| "llm_error_display ProviderRejected = ''provider rejected request''"
| "llm_error_display ProtocolViolation = ''provider protocol violation''"

definition validate_len :: "nat \<Rightarrow> nat \<Rightarrow> (unit, llm_error) result" where
  "validate_len actual maximum = (if actual > maximum then Inl LimitExceeded else Inr ())"

definition validate_identifier :: "string \<Rightarrow> (unit, llm_error) result" where
  "validate_identifier value =
     (if value = [] then Inl InvalidRequest else validate_len (length value) MAX_IDENTIFIER_BYTES)"

definition tool_name_byte :: "char \<Rightarrow> bool" where
  "tool_name_byte b \<longleftrightarrow> is_ascii_alphanumeric b \<or> b \<in> set ''_.:-''"

definition validate_tool_name :: "string \<Rightarrow> (unit, llm_error) result" where
  "validate_tool_name value =
     and_then (validate_len (length value) MAX_TOOL_NAME_BYTES) (\<lambda>_.
       if \<not> first_rest is_ascii_alphanumeric tool_name_byte value then Inl InvalidRequest else Inr ())"

definition checked_sum :: "nat list \<Rightarrow> nat \<Rightarrow> (nat, llm_error) result" where
  "checked_sum values maximum =
     and_then (try_fold (\<lambda>acc value. ok_or (usize_checked_add acc value) LimitExceeded) 0 values) (\<lambda>acc.
       and_then (validate_len acc maximum) (\<lambda>_. Inr acc))"

definition canonical_object :: "(string \<Rightarrow> json option) \<Rightarrow> (json \<Rightarrow> string) \<Rightarrow> string
    \<Rightarrow> (string, llm_error) result" where
  "canonical_object parse print input =
     and_then (ok_or (Option.bind (parse input) visit) InvalidRequest) (\<lambda>value.
       case value of
         JObject object \<Rightarrow>
           let canonical = print (JObject (value_map [] object)) in
           and_then (validate_len (length canonical) MAX_JSON_OBJECT_BYTES) (\<lambda>_. Inr canonical)
       | _ \<Rightarrow> Inl InvalidRequest)"

definition validate_object_schema :: "(string \<Rightarrow> json option) \<Rightarrow> string \<Rightarrow> (unit, llm_error) result" where
  "validate_object_schema parse canonical =
     and_then (ok_or (parse canonical) InvalidRequest) (\<lambda>value.
       case value_of value of
         JObject object \<Rightarrow> if bt_get object ''type'' = Some (JString ''object'') then Inr () else Inl Unsupported
       | _ \<Rightarrow> Inl Unsupported)"

section \<open>Requests and responses\<close>

definition identifier_new :: "string \<Rightarrow> (string, llm_error) result" where
  "identifier_new value = and_then (validate_identifier value) (\<lambda>_. Inr value)"

definition tool_name_new :: "string \<Rightarrow> (string, llm_error) result" where
  "tool_name_new value = and_then (validate_tool_name value) (\<lambda>_. Inr value)"

record prompt =
  pr_system :: "string option"
  pr_input :: string

definition prompt_new :: "string option \<Rightarrow> string \<Rightarrow> (prompt, llm_error) result" where
  "prompt_new system input =
     and_then (validate_len (length input) MAX_PROMPT_TEXT_BYTES) (\<lambda>_.
     and_then (case system of None \<Rightarrow> Inr () | Some s \<Rightarrow> validate_len (length s) MAX_PROMPT_TEXT_BYTES) (\<lambda>_.
     and_then (checked_sum [case system of None \<Rightarrow> 0 | Some s \<Rightarrow> length s, length input] MAX_PROMPT_BYTES) (\<lambda>_.
       Inr \<lparr>pr_system = system, pr_input = input\<rparr>)))"

type_synonym json_object = string

definition json_object_new :: "(string \<Rightarrow> json option) \<Rightarrow> (json \<Rightarrow> string) \<Rightarrow> string
    \<Rightarrow> (json_object, llm_error) result" where
  "json_object_new parse print input = canonical_object parse print input"

record tool_definition =
  td_name :: string
  td_description :: string
  td_input_schema :: json_object

definition tool_definition_new :: "(string \<Rightarrow> json option) \<Rightarrow> string \<Rightarrow> string \<Rightarrow> json_object
    \<Rightarrow> (tool_definition, llm_error) result" where
  "tool_definition_new parse name description schema =
     and_then (validate_len (length description) MAX_TOOL_DESCRIPTION_BYTES) (\<lambda>_.
     and_then (validate_object_schema parse schema) (\<lambda>_.
       Inr \<lparr>td_name = name, td_description = description, td_input_schema = schema\<rparr>))"

definition generation_limits_new :: "u32 \<Rightarrow> (u32, llm_error) result" where
  "generation_limits_new max_output_tokens =
     (if \<not> (1 \<le> max_output_tokens \<and> max_output_tokens \<le> MAX_OUTPUT_TOKENS) then Inl LimitExceeded
      else Inr max_output_tokens)"

record generate_request =
  gr_provider_id :: string
  gr_model_id :: string
  gr_prompt :: prompt
  gr_tools :: "tool_definition list"
  gr_max_output_tokens :: u32

definition generate_request_new :: "string \<Rightarrow> string \<Rightarrow> prompt \<Rightarrow> tool_definition list \<Rightarrow> u32
    \<Rightarrow> (generate_request, llm_error) result" where
  "generate_request_new provider model prompt tools limits =
     and_then (validate_len (length tools) MAX_TOOLS) (\<lambda>_.
       if \<not> distinct (map td_name tools) then Inl InvalidRequest
       else and_then (checked_sum (map (\<lambda>t. length (td_input_schema t)) tools) MAX_TOOL_SCHEMAS_BYTES) (\<lambda>_.
         Inr \<lparr>gr_provider_id = provider, gr_model_id = model, gr_prompt = prompt, gr_tools = tools,
              gr_max_output_tokens = limits\<rparr>))"

definition declares_tool :: "generate_request \<Rightarrow> string \<Rightarrow> bool" where
  "declares_tool request name = list_ex (\<lambda>t. td_name t = name) (gr_tools request)"

record tool_call =
  tc_name :: string
  tc_arguments :: json_object

definition tool_call_new :: "string \<Rightarrow> json_object \<Rightarrow> (tool_call, llm_error) result" where
  "tool_call_new name arguments =
     and_then (validate_len (length arguments) MAX_JSON_OBJECT_BYTES) (\<lambda>_.
       Inr \<lparr>tc_name = name, tc_arguments = arguments\<rparr>)"

record token_usage =
  tu_input_tokens :: u32
  tu_output_tokens :: u32
  tu_total_tokens :: u32

definition token_usage_new :: "u32 \<Rightarrow> u32 \<Rightarrow> u32 option \<Rightarrow> (token_usage, llm_error) result" where
  "token_usage_new input_tokens output_tokens reported_total =
     (if input_tokens > MAX_REPORTED_TOKENS \<or> output_tokens > MAX_REPORTED_TOKENS then Inl LimitExceeded
      else and_then (ok_or (checked_add input_tokens output_tokens) LimitExceeded) (\<lambda>total_tokens.
        if total_tokens > MAX_TOTAL_TOKENS then Inl LimitExceeded
        else if (case reported_total of None \<Rightarrow> False | Some reported \<Rightarrow> reported \<noteq> total_tokens)
        then Inl ProtocolViolation
        else Inr \<lparr>tu_input_tokens = input_tokens, tu_output_tokens = output_tokens,
                  tu_total_tokens = total_tokens\<rparr>))"

datatype finish_reason = Stop | Length | ToolCalls | ContentFilter | Other
datatype idempotency_disposition = IdemUnsupported | IdemAccepted

record generation_evidence =
  ge_provider_id :: string
  ge_model_id :: string
  ge_provider_request_id :: "string option"
  ge_finish_reason :: finish_reason
  ge_token_usage :: "token_usage option"
  ge_idempotency :: idempotency_disposition

record generate_response =
  gp_text :: string
  gp_tool_calls :: "tool_call list"
  gp_evidence :: generation_evidence

definition assemble_generate_response :: "generate_request \<Rightarrow> string \<Rightarrow> tool_call list \<Rightarrow> string option
    \<Rightarrow> finish_reason \<Rightarrow> token_usage option \<Rightarrow> idempotency_disposition
    \<Rightarrow> (generate_response, llm_error) result" where
  "assemble_generate_response request text tool_calls request_id reason usage idempotency =
     and_then (validate_len (length text) MAX_RESPONSE_TEXT_BYTES) (\<lambda>_.
     and_then (validate_len (length tool_calls) MAX_TOOL_CALLS) (\<lambda>_.
       if list_ex (\<lambda>call. \<not> declares_tool request (tc_name call)) tool_calls then Inl ProtocolViolation
       else and_then (checked_sum (map (\<lambda>c. length (tc_arguments c)) tool_calls) MAX_TOOL_ARGUMENTS_BYTES) (\<lambda>_.
         Inr \<lparr>gp_text = text, gp_tool_calls = tool_calls,
              gp_evidence = \<lparr>ge_provider_id = gr_provider_id request, ge_model_id = gr_model_id request,
                ge_provider_request_id = request_id, ge_finish_reason = reason, ge_token_usage = usage,
                ge_idempotency = idempotency\<rparr>\<rparr>)))"

section \<open>Controls and the static provider\<close>

text \<open>What an invocation control's signals say at the moment they are read.\<close>

record invocation_control =
  is_cancelled :: bool
  is_elapsed :: bool

definition preflight :: "invocation_control \<Rightarrow> (unit, llm_error) result" where
  "preflight control =
     (if is_cancelled control then Inl Cancelled
      else if is_elapsed control then Inl DeadlineExceeded else Inr ())"

record static_fixture =
  sf_text :: string
  sf_tool_calls :: "tool_call list"
  sf_provider_request_id :: "string option"
  sf_finish_reason :: finish_reason
  sf_token_usage :: "token_usage option"
  sf_idempotency :: idempotency_disposition

definition validate_fixture :: "string \<Rightarrow> tool_call list \<Rightarrow> (unit, llm_error) result" where
  "validate_fixture text tool_calls =
     and_then (validate_len (length text) MAX_RESPONSE_TEXT_BYTES) (\<lambda>_.
     and_then (validate_len (length tool_calls) MAX_TOOL_CALLS) (\<lambda>_.
     and_then (checked_sum (map (\<lambda>c. length (tc_arguments c)) tool_calls) MAX_TOOL_ARGUMENTS_BYTES) (\<lambda>_.
       Inr ())))"

definition static_fixture_new :: "string \<Rightarrow> tool_call list \<Rightarrow> string option \<Rightarrow> finish_reason
    \<Rightarrow> token_usage option \<Rightarrow> idempotency_disposition \<Rightarrow> (static_fixture, llm_error) result" where
  "static_fixture_new text tool_calls request_id reason usage idempotency =
     and_then (validate_fixture text tool_calls) (\<lambda>_.
       Inr \<lparr>sf_text = text, sf_tool_calls = tool_calls, sf_provider_request_id = request_id,
            sf_finish_reason = reason, sf_token_usage = usage, sf_idempotency = idempotency\<rparr>)"

definition static_generate :: "(static_fixture, llm_error) result \<Rightarrow> generate_request
    \<Rightarrow> invocation_control \<Rightarrow> (generate_response, llm_error) result" where
  "static_generate provider request control =
     and_then (preflight control) (\<lambda>_.
     and_then provider (\<lambda>fixture.
       assemble_generate_response request (sf_text fixture) (sf_tool_calls fixture)
         (sf_provider_request_id fixture) (sf_finish_reason fixture) (sf_token_usage fixture)
         (sf_idempotency fixture)))"

section \<open>Sums and bounds\<close>

lemma validate_len_Inr [result_simps]: "validate_len a m = Inr u \<longleftrightarrow> a \<le> m"
  by (simp add: validate_len_def not_less)

lemma validate_len_Inl [result_simps]: "validate_len a m = Inl e \<longleftrightarrow> m < a \<and> e = LimitExceeded"
  by (auto simp: validate_len_def)

lemma try_fold_sum:
  "try_fold (\<lambda>acc value. ok_or (usize_checked_add acc value) LimitExceeded) acc vs =
     (if vs = [] \<or> acc + sum_list vs \<le> usize_max then Inr (acc + sum_list vs)
      else Inl LimitExceeded)"
proof (induction vs arbitrary: acc)
  case (Cons v ws)
  then show ?case by (cases ws) (auto simp: usize_checked_add_def)
qed simp

lemma checked_sum_eq:
  assumes "maximum \<le> usize_max"
  shows "checked_sum vs maximum =
    (if sum_list vs \<le> maximum then Inr (sum_list vs) else Inl LimitExceeded)"
  using assms by (cases vs) (auto simp: checked_sum_def try_fold_sum validate_len_def)

lemma checked_sum_Inr:
  assumes "maximum \<le> usize_max"
  shows "checked_sum vs maximum = Inr n \<longleftrightarrow> sum_list vs \<le> maximum \<and> n = sum_list vs"
  using checked_sum_eq [OF assms, of vs] by auto

lemma limits_fit [simp]:
  "MAX_PROMPT_BYTES \<le> usize_max" "MAX_TOOL_SCHEMAS_BYTES \<le> usize_max" "MAX_TOOL_ARGUMENTS_BYTES \<le> usize_max"
  by (simp_all add: MAX_PROMPT_BYTES_def MAX_TOOL_SCHEMAS_BYTES_def MAX_TOOL_ARGUMENTS_BYTES_def usize_max_def)

section \<open>Properties\<close>

text \<open>A canonical JSON object does not depend on the order of the members in its text: two
  documents that differ only by reordering the members of their objects, at any depth, have the
  same canonical text, and a document that repeats a key in any object is refused.\<close>

lemma canonical_object_order_free:
  assumes "parse a = Some v" and "parse b = Some w" and "reordered v w"
  shows "(distinct_keys v \<longrightarrow> canonical_object parse print a = canonical_object parse print b)
    \<and> (\<not> distinct_keys v \<longrightarrow> canonical_object parse print a = Inl InvalidRequest)"
  using assms value_of_reordered [OF assms(3)]
  by (auto simp: canonical_object_def visit_eq)

fun demo_print :: "json \<Rightarrow> string" where
  "demo_print (JObject es) = concat (map fst es)"
| "demo_print _ = ''v''"

definition demo_parse :: "string \<Rightarrow> json option" where
  "demo_parse s =
     (if s = ''ab'' then Some (JObject [(''a'', JNull), (''b'', JBool True)])
      else if s = ''ba'' then Some (JObject [(''b'', JBool True), (''a'', JNull)]) else None)"

lemma canonical_object_order_free_witness:
  "canonical_object demo_parse demo_print ''ab'' = canonical_object demo_parse demo_print ''ba''
   \<and> canonical_object demo_parse demo_print ''ba'' = Inr ''ab''"
proof -
  have "reordered (JObject [(''a'', JNull), (''b'', JBool True)]) (JObject [(''b'', JBool True), (''a'', JNull)])"
    by (rule reordered.object [where fs = "[(''a'', JNull), (''b'', JBool True)]"]) (auto intro: reordered.same)
  with canonical_object_order_free [of demo_parse "''ab''" _ "''ba''" _ demo_print]
  have "canonical_object demo_parse demo_print ''ab'' = canonical_object demo_parse demo_print ''ba''"
    by (simp add: demo_parse_def)
  moreover have "canonical_object demo_parse demo_print ''ba'' = Inr ''ab''"
    by (simp add: canonical_object_def demo_parse_def bt_contains_key_def validate_len_def MAX_JSON_OBJECT_BYTES_def)
  ultimately show ?thesis by simp
qed

text \<open>A response is assembled only if every tool call names a tool the request declares and
  the text, the number of calls and their arguments are within the limits, and its evidence
  names the provider and model of the request. The static provider returns such a response or
  its configured error, and nothing once the invocation is cancelled or past its deadline.\<close>

lemma static_generate_safe:
  assumes "static_generate provider request control = Inr response"
  shows "\<not> is_cancelled control \<and> \<not> is_elapsed control
    \<and> list_all (\<lambda>c. \<exists>t\<in>set (gr_tools request). td_name t = tc_name c) (gp_tool_calls response)
    \<and> length (gp_text response) \<le> 65536 \<and> length (gp_tool_calls response) \<le> 64
    \<and> sum_list (map (\<lambda>c. length (tc_arguments c)) (gp_tool_calls response)) \<le> 65536
    \<and> ge_provider_id (gp_evidence response) = gr_provider_id request
    \<and> ge_model_id (gp_evidence response) = gr_model_id request"
  using assms checked_sum_Inr [OF limits_fit(3)]
  by (auto simp: static_generate_def assemble_generate_response_def preflight_def result_simps
      declares_tool_def list_ex_iff list_all_iff MAX_RESPONSE_TEXT_BYTES_def MAX_TOOL_CALLS_def
      MAX_TOOL_ARGUMENTS_BYTES_def split: if_splits)

definition demo_request :: generate_request where
  "demo_request = \<lparr>gr_provider_id = ''p'', gr_model_id = ''m'', gr_prompt = \<lparr>pr_system = None, pr_input = ''hi''\<rparr>,
     gr_tools = [\<lparr>td_name = ''t'', td_description = [], td_input_schema = ''{}''\<rparr>], gr_max_output_tokens = 5\<rparr>"

lemma static_generate_safe_witness:
  "\<exists>fixture response.
     static_fixture_new ''ok'' [\<lparr>tc_name = ''t'', tc_arguments = ''{}''\<rparr>] None Stop None IdemUnsupported = Inr fixture
     \<and> static_generate (Inr fixture) demo_request \<lparr>is_cancelled = False, is_elapsed = False\<rparr> = Inr response
     \<and> ge_model_id (gp_evidence response) = ''m''"
proof -
  obtain fixture where fixture: "static_fixture_new ''ok'' [\<lparr>tc_name = ''t'', tc_arguments = ''{}''\<rparr>] None Stop
      None IdemUnsupported = Inr fixture" "sf_text fixture = ''ok''"
      "sf_tool_calls fixture = [\<lparr>tc_name = ''t'', tc_arguments = ''{}''\<rparr>]"
    by (simp add: static_fixture_new_def validate_fixture_def validate_len_def checked_sum_eq
        MAX_RESPONSE_TEXT_BYTES_def MAX_TOOL_CALLS_def MAX_TOOL_ARGUMENTS_BYTES_def usize_max_def)
  then obtain response where response:
    "static_generate (Inr fixture) demo_request \<lparr>is_cancelled = False, is_elapsed = False\<rparr> = Inr response"
    by (simp add: static_generate_def preflight_def assemble_generate_response_def validate_len_def
        checked_sum_eq declares_tool_def demo_request_def MAX_RESPONSE_TEXT_BYTES_def MAX_TOOL_CALLS_def
        MAX_TOOL_ARGUMENTS_BYTES_def usize_max_def)
  from static_generate_safe [OF response] fixture(1) response show ?thesis by (auto simp: demo_request_def)
qed

end
