(* ===== verification/Agent_Runtime.thy ===== *)
theory Agent_Runtime
  imports Agent_Properties Gateway
begin

text \<open>
  The local agent runtime of the agent crate (\<open>LocalAgentRuntime\<close> in \<open>agent/src/lib.rs\<close>): the
  tools offered to the model, the plan made of the model's tool calls, and the execution of the
  plan through the tool, memory, knowledge and sandbox ports.

  The ports and the cancellation and deadline signals are a record of operations on a world
  \<open>'w\<close>, so that every order of calls and every change the environment makes between two of them
  can be observed. A world-passing computation keeps the world it reached when it fails.
\<close>

section \<open>Computations on a world\<close>

type_synonym ('a, 'w) io = "'w \<Rightarrow> ('a, definition_error) result \<times> 'w"

definition io_then :: "('a, 'w) io \<Rightarrow> ('a \<Rightarrow> ('b, 'w) io) \<Rightarrow> ('b, 'w) io" where
  "io_then m f w = (case m w of (Inl e, w') \<Rightarrow> (Inl e, w') | (Inr a, w') \<Rightarrow> f a w')"

definition io_of :: "('a, definition_error) result \<Rightarrow> ('a, 'w) io" where
  "io_of r w = (r, w)"

section \<open>Requests, events and results\<close>

definition MAX_MEMORY_WRITE_VALUE_BYTES :: nat where "MAX_MEMORY_WRITE_VALUE_BYTES = 16384"
definition MAX_TOOL_REQUEST_INPUT_BYTES :: nat where "MAX_TOOL_REQUEST_INPUT_BYTES = 16384"
definition MAX_SANDBOX_ARGUMENTS :: nat where "MAX_SANDBOX_ARGUMENTS = 32"
definition MAX_SANDBOX_ARGUMENT_BYTES :: nat where "MAX_SANDBOX_ARGUMENT_BYTES = 4096"

text \<open>\<open>ToolDescriptor\<close> has the single field \<open>id\<close>, which stands for it.\<close>

record tool_request =
  tr_context :: invocation_context_v1
  tr_agent_id :: string
  tr_capability_scope :: resolved_capability_scope
  tr_input :: string

record memory_request =
  mq_context :: invocation_context_v1
  mq_agent_id :: string
  mq_capability_scope :: resolved_capability_scope
  mq_query :: string
  mq_limit :: u32

record sandbox_request =
  sq_context :: invocation_context_v1
  sq_agent_id :: string
  sq_capability_scope :: resolved_capability_scope
  sq_action :: string
  sq_arguments :: "string list"

record knowledge_result =
  kr_document_id :: string
  kr_text :: string

datatype invocation_event =
    ModelInvoked
  | MemoryRecalled "string list"
  | MemoryWritten
  | KnowledgeSearched "knowledge_result list"
  | SandboxCompleted string
  | ToolCompleted string string

datatype invocation_model_finish_reason = MStop | MLength | MToolCalls | MContentFilter | MOther

record invocation_model_token_usage =
  mt_input_tokens :: u32
  mt_output_tokens :: u32
  mt_total_tokens :: u32

datatype invocation_model_idempotency = MUnsupported | MAccepted

record invocation_model_evidence =
  me_provider_id :: string
  me_model_id :: string
  me_provider_request_id :: "string option"
  me_finish_reason :: invocation_model_finish_reason
  me_token_usage :: "invocation_model_token_usage option"
  me_idempotency :: invocation_model_idempotency

record invocation_result =
  ir_capability_scope_digest :: string
  ir_events :: "invocation_event list"
  ir_output :: string
  ir_model_evidence :: invocation_model_evidence

datatype planned_effect =
    PlanTool string string
  | PlanMemoryRecall string
  | PlanMemoryWrite string
  | PlanKnowledgeSearch string
  | PlanSandboxExecute string "string list"

text \<open>The ports of the runtime and the readings of its invocation control.\<close>

record 'w agent_ports =
  port_resolve :: "string \<Rightarrow> (string, 'w) io"
  port_generate :: "generate_request \<Rightarrow> 'w \<Rightarrow> (generate_response, llm_error) result \<times> 'w"
  port_control :: "'w \<Rightarrow> invocation_control \<times> 'w"
  port_invoke :: "string \<Rightarrow> tool_request \<Rightarrow> (string, 'w) io"
  port_recall :: "memory_request \<Rightarrow> (string list, 'w) io"
  port_write :: "memory_request \<Rightarrow> string \<Rightarrow> (unit, 'w) io"
  port_search :: "search_request \<Rightarrow> 'w \<Rightarrow> (knowledge_document list, knowledge_error) result \<times> 'w"
  port_execute :: "sandbox_request \<Rightarrow> (string, 'w) io"

section \<open>Tools offered to the model\<close>

definition MEMORY_RECALL_TOOL :: string where "MEMORY_RECALL_TOOL = ''factory.memory.recall''"
definition MEMORY_WRITE_TOOL :: string where "MEMORY_WRITE_TOOL = ''factory.memory.write''"
definition KNOWLEDGE_SEARCH_TOOL :: string where "KNOWLEDGE_SEARCH_TOOL = ''factory.knowledge.search''"
definition SANDBOX_EXECUTE_TOOL :: string where "SANDBOX_EXECUTE_TOOL = ''factory.sandbox.execute''"

definition RESERVED_TOOL_NAMES :: "string list" where
  "RESERVED_TOOL_NAMES =
     [MEMORY_RECALL_TOOL, MEMORY_WRITE_TOOL, KNOWLEDGE_SEARCH_TOOL, SANDBOX_EXECUTE_TOOL]"

definition STRING_ARGUMENT_SCHEMA :: string where
  "STRING_ARGUMENT_SCHEMA = ''{\"additionalProperties\":false,\"properties\":{\"input\":{\"type\":\"string\"}},\"required\":[\"input\"],\"type\":\"object\"}''"
definition QUERY_SCHEMA :: string where
  "QUERY_SCHEMA = ''{\"additionalProperties\":false,\"properties\":{\"query\":{\"type\":\"string\"}},\"required\":[\"query\"],\"type\":\"object\"}''"
definition VALUE_SCHEMA :: string where
  "VALUE_SCHEMA = ''{\"additionalProperties\":false,\"properties\":{\"value\":{\"type\":\"string\"}},\"required\":[\"value\"],\"type\":\"object\"}''"
definition SANDBOX_SCHEMA :: string where
  "SANDBOX_SCHEMA = ''{\"additionalProperties\":false,\"properties\":{\"action\":{\"type\":\"string\"},\"arguments\":{\"items\":{\"type\":\"string\"},\"type\":\"array\"}},\"required\":[\"action\",\"arguments\"],\"type\":\"object\"}''"

fun map_gateway_error :: "llm_error \<Rightarrow> definition_error" where
  "map_gateway_error llm_error.LimitExceeded = definition_error.LimitExceeded"
| "map_gateway_error llm_error.Cancelled = definition_error.Cancelled"
| "map_gateway_error llm_error.DeadlineExceeded = definition_error.DeadlineExceeded"
| "map_gateway_error llm_error.InvalidRequest = InvalidDefinition"
| "map_gateway_error Unsupported = AdapterFailure"
| "map_gateway_error Authentication = AdapterFailure"
| "map_gateway_error RateLimited = AdapterFailure"
| "map_gateway_error llm_error.Unavailable = AdapterFailure"
| "map_gateway_error ProviderRejected = AdapterFailure"
| "map_gateway_error llm_error.ProtocolViolation = AdapterFailure"

text \<open>\<open>str::split_once\<close>: the parts before and after the first occurrence.\<close>

fun split_once :: "char \<Rightarrow> string \<Rightarrow> (string \<times> string) option" where
  "split_once c [] = None"
| "split_once c (b # bs) =
     (if b = c then Some ([], bs) else map_option (\<lambda>(l, r). (b # l, r)) (split_once c bs))"

definition parse_model_reference :: "string \<Rightarrow> (string \<times> string, definition_error) result" where
  "parse_model_reference reference =
     and_then (ok_or (Option.bind (split_once CHR ''.'' reference) (\<lambda>(provider, model).
         if provider \<noteq> [] \<and> model \<noteq> [] \<and> CHR ''.'' \<notin> set model then Some (provider, model) else None))
       InvalidReference) (\<lambda>(provider, model).
     and_then (map_err map_gateway_error (Gateway.identifier_new provider)) (\<lambda>provider_id.
     and_then (map_err map_gateway_error (Gateway.identifier_new model)) (\<lambda>model_id.
       Inr (provider_id, model_id))))"

type_synonym json_parse = "string \<Rightarrow> json option"
type_synonym json_print = "json \<Rightarrow> string"

definition gateway_tool :: "json_parse \<Rightarrow> json_print \<Rightarrow> string \<Rightarrow> string \<Rightarrow> string
    \<Rightarrow> (tool_definition, definition_error) result" where
  "gateway_tool parse print name description schema =
     and_then (map_err map_gateway_error (json_object_new parse print schema)) (\<lambda>object.
       map_err map_gateway_error (tool_definition_new parse name description object))"

definition gateway_tool_name :: "json_parse \<Rightarrow> json_print \<Rightarrow> string \<Rightarrow> string
    \<Rightarrow> (tool_definition, definition_error) result" where
  "gateway_tool_name parse print name schema =
     and_then (map_err map_gateway_error (tool_name_new name)) (\<lambda>tool_name.
       gateway_tool parse print tool_name ''Agent reserved capability'' schema)"

fun gateway_ordinary :: "json_parse \<Rightarrow> json_print \<Rightarrow> tool_definition list \<Rightarrow> (string, string) btree_map
    \<Rightarrow> string list \<Rightarrow> (tool_definition list \<times> (string, string) btree_map, definition_error) result" where
  "gateway_ordinary parse print definitions ordinary [] = Inr (definitions, ordinary)"
| "gateway_ordinary parse print definitions ordinary (tool # resolved) =
     (if tool \<in> set RESERVED_TOOL_NAMES then Inl InvalidReference
      else and_then (map_err map_gateway_error (tool_name_new tool)) (\<lambda>name.
        if bt_contains_key ordinary name then Inl InvalidDefinition
        else and_then (gateway_tool parse print name ''Agent tool'' STRING_ARGUMENT_SCHEMA) (\<lambda>def.
          gateway_ordinary parse print (definitions @ [def]) (bt_insert name tool ordinary) resolved)))"

definition gateway_reserved :: "resolved_capability_scope \<Rightarrow> (string \<times> string) list" where
  "gateway_reserved scope =
     (if mp_enabled (rs_memory scope)
      then [(MEMORY_RECALL_TOOL, QUERY_SCHEMA), (MEMORY_WRITE_TOOL, VALUE_SCHEMA)] else [])
     @ (if kp_enabled (rs_knowledge scope) then [(KNOWLEDGE_SEARCH_TOOL, QUERY_SCHEMA)] else [])
     @ (if rs_allow_execution scope then [(SANDBOX_EXECUTE_TOOL, SANDBOX_SCHEMA)] else [])"

definition gateway_tools :: "json_parse \<Rightarrow> json_print \<Rightarrow> string list \<Rightarrow> resolved_capability_scope
    \<Rightarrow> (tool_definition list \<times> (string, string) btree_map, definition_error) result" where
  "gateway_tools parse print resolved scope =
     and_then (gateway_ordinary parse print [] [] resolved) (\<lambda>(definitions, ordinary).
     and_then (try_map (\<lambda>(name, schema). gateway_tool_name parse print name schema) (gateway_reserved scope))
       (\<lambda>reserved. Inr (definitions @ reserved, ordinary)))"

section \<open>Arguments of the model's calls\<close>

fun as_str :: "json \<Rightarrow> string option" where
  "as_str (JString s) = Some s"
| "as_str _ = None"

fun as_array :: "json \<Rightarrow> json list option" where
  "as_array (JArray vs) = Some vs"
| "as_array _ = None"

fun as_object :: "json \<Rightarrow> (string, json) btree_map option" where
  "as_object (JObject es) = Some es"
| "as_object _ = None"

definition argument_object :: "json_parse \<Rightarrow> json_object \<Rightarrow> ((string, json) btree_map, definition_error) result"
where
  "argument_object parse arguments =
     and_then (ok_or (map_option value_of (parse arguments)) AdapterFailure) (\<lambda>value.
       ok_or (as_object value) AdapterFailure)"

definition strict_string_argument :: "json_parse \<Rightarrow> json_object \<Rightarrow> string \<Rightarrow> (string, definition_error) result"
where
  "strict_string_argument parse arguments field =
     and_then (argument_object parse arguments) (\<lambda>object.
       if length object \<noteq> 1 then Inl InvalidDefinition
       else ok_or (Option.bind (bt_get object field) as_str) InvalidDefinition)"

definition strict_sandbox_arguments :: "json_parse \<Rightarrow> json_object
    \<Rightarrow> (string \<times> string list, definition_error) result" where
  "strict_sandbox_arguments parse arguments =
     and_then (argument_object parse arguments) (\<lambda>object.
       if length object \<noteq> 2 then Inl InvalidDefinition
       else and_then (ok_or (Option.bind (bt_get object ''action'') as_str) InvalidDefinition) (\<lambda>action.
         and_then (ok_or (Option.bind (bt_get object ''arguments'') as_array) InvalidDefinition) (\<lambda>items.
         and_then (try_map (\<lambda>value. ok_or (as_str value) InvalidDefinition) items) (\<lambda>args.
           Inr (action, args)))))"

section \<open>The plan\<close>

definition bounded_string :: "json_parse \<Rightarrow> json_object \<Rightarrow> string \<Rightarrow> nat \<Rightarrow> (string, definition_error) result"
where
  "bounded_string parse arguments field limit =
     and_then (strict_string_argument parse arguments field) (\<lambda>s.
       if length s > limit then Inl definition_error.LimitExceeded else Inr s)"

definition plan_call :: "json_parse \<Rightarrow> (string, string) btree_map \<Rightarrow> resolved_capability_scope \<Rightarrow> tool_call
    \<Rightarrow> (planned_effect, definition_error) result" where
  "plan_call parse ordinary scope call =
     (let name = tc_name call; arguments = tc_arguments call in
      case bt_get ordinary name of
        Some tool \<Rightarrow>
          if tool \<notin> set (rs_allowed_tool_ids scope) then Inl (ToolDisallowed tool)
          else and_then (bounded_string parse arguments ''input'' MAX_TOOL_REQUEST_INPUT_BYTES) (\<lambda>input.
            Inr (PlanTool tool input))
      | None \<Rightarrow>
          if name = MEMORY_RECALL_TOOL then
            (if \<not> mp_enabled (rs_memory scope) then Inl MemoryDenied
             else and_then (bounded_string parse arguments ''query'' MAX_INPUT_BYTES) (\<lambda>query.
               Inr (PlanMemoryRecall query)))
          else if name = MEMORY_WRITE_TOOL then
            (if \<not> mp_enabled (rs_memory scope) then Inl MemoryDenied
             else and_then (bounded_string parse arguments ''value'' MAX_MEMORY_WRITE_VALUE_BYTES) (\<lambda>value.
               Inr (PlanMemoryWrite value)))
          else if name = KNOWLEDGE_SEARCH_TOOL then
            (if \<not> kp_enabled (rs_knowledge scope) then Inl KnowledgeDenied
             else and_then (bounded_string parse arguments ''query'' MAX_INPUT_BYTES) (\<lambda>query.
               Inr (PlanKnowledgeSearch query)))
          else if name = SANDBOX_EXECUTE_TOOL then
            (if \<not> rs_allow_execution scope then Inl SandboxDenied
             else and_then (strict_sandbox_arguments parse arguments) (\<lambda>(action, args).
               if length action > MAX_INPUT_BYTES \<or> length args > MAX_SANDBOX_ARGUMENTS
                  \<or> list_ex (\<lambda>value. length value > MAX_SANDBOX_ARGUMENT_BYTES) args
               then Inl definition_error.LimitExceeded else Inr (PlanSandboxExecute action args)))
          else Inl (ToolDisallowed name))"

section \<open>Effects\<close>

definition io_preflight :: "'w agent_ports \<Rightarrow> (unit, 'w) io" where
  "io_preflight ports w =
     (let (control, w') = port_control ports w in (map_err map_gateway_error (preflight control), w'))"

definition checked_knowledge_results_output_bytes :: "knowledge_result list \<Rightarrow> nat \<Rightarrow> u32
    \<Rightarrow> (nat, definition_error) result" where
  "checked_knowledge_results_output_bytes results used limit =
     try_fold (\<lambda>t result. checked_output_bytes (kr_text result) t limit) used results"

definition search_request_of :: "invocation_context_v1 \<Rightarrow> resolved_capability_scope \<Rightarrow> string
    \<Rightarrow> (search_request, definition_error) result" where
  "search_request_of context scope query = map_err map_knowledge_error
     (and_then (Knowledge.identifier_new (ic_tenant_id context)) (\<lambda>tenant.
      and_then (Knowledge.identifier_new (ic_principal_id context)) (\<lambda>principal.
      and_then (Knowledge.identifier_new (kp_namespace (rs_knowledge scope))) (\<lambda>namespace.
      and_then (query_new query) (\<lambda>q.
      and_then (search_limit_new (kp_max_results (rs_knowledge scope))) (\<lambda>limit.
        Inr \<lparr>sr_context = \<lparr>sc_tenant_id = tenant, sc_principal_id = principal\<rparr>, sr_namespace = namespace,
             sr_query = q, sr_limit = limit\<rparr>))))))"

text \<open>\<open>KnowledgeService::search\<close> over the world's index: the service makes one call of the index.\<close>

definition io_search :: "'w agent_ports \<Rightarrow> search_request \<Rightarrow> (search_result, 'w) io" where
  "io_search ports request w =
     (let (answer, w') = port_search ports request w in
      (map_err map_knowledge_error (service_search (\<lambda>_. answer) request), w'))"

text \<open>What each branch of the loop over the plan does once its preflight passed.\<close>

definition effect_call :: "'w agent_ports \<Rightarrow> invocation_context_v1 \<Rightarrow> string \<Rightarrow> resolved_capability_scope
    \<Rightarrow> nat \<Rightarrow> planned_effect \<Rightarrow> (nat \<times> invocation_event, 'w) io" where
  "effect_call ports context agent scope output_bytes effect = (case effect of
       PlanTool tool input \<Rightarrow>
         io_then (port_invoke ports tool \<lparr>tr_context = context, tr_agent_id = agent,
             tr_capability_scope = scope, tr_input = input\<rparr>) (\<lambda>output.
         io_then (io_of (checked_output_bytes output output_bytes (el_max_output_bytes (rs_limits scope)))) (\<lambda>n.
           io_of (Inr (n, ToolCompleted tool output))))
     | PlanMemoryRecall query \<Rightarrow>
         io_then (port_recall ports \<lparr>mq_context = context, mq_agent_id = agent, mq_capability_scope = scope,
             mq_query = query, mq_limit = mp_max_items (rs_memory scope)\<rparr>) (\<lambda>items.
         io_then (io_of (checked_values_output_bytes items output_bytes (el_max_output_bytes (rs_limits scope)))) (\<lambda>n.
           io_of (Inr (n, MemoryRecalled items))))
     | PlanMemoryWrite value \<Rightarrow>
         io_then (port_write ports \<lparr>mq_context = context, mq_agent_id = agent, mq_capability_scope = scope,
             mq_query = [], mq_limit = mp_max_items (rs_memory scope)\<rparr> value) (\<lambda>_.
           io_of (Inr (output_bytes, MemoryWritten)))
     | PlanKnowledgeSearch query \<Rightarrow>
         io_then (io_of (search_request_of context scope query)) (\<lambda>request.
         io_then (io_search ports request) (\<lambda>found.
           let results = map (\<lambda>h. \<lparr>kr_document_id = kh_document_id h, kr_text = kh_text h\<rparr>) (hits found) in
           io_then (io_of (checked_knowledge_results_output_bytes results output_bytes
             (el_max_output_bytes (rs_limits scope)))) (\<lambda>n.
             io_of (Inr (n, KnowledgeSearched results)))))
     | PlanSandboxExecute action args \<Rightarrow>
         io_then (port_execute ports \<lparr>sq_context = context, sq_agent_id = agent, sq_capability_scope = scope,
             sq_action = action, sq_arguments = args\<rparr>) (\<lambda>output.
         io_then (io_of (checked_output_bytes output output_bytes (el_max_output_bytes (rs_limits scope)))) (\<lambda>n.
           io_of (Inr (n, SandboxCompleted output)))))"

definition run_effect :: "'w agent_ports \<Rightarrow> invocation_context_v1 \<Rightarrow> string \<Rightarrow> resolved_capability_scope
    \<Rightarrow> nat \<Rightarrow> planned_effect \<Rightarrow> (nat \<times> invocation_event, 'w) io" where
  "run_effect ports context agent scope output_bytes effect =
     io_then (io_preflight ports) (\<lambda>_. effect_call ports context agent scope output_bytes effect)"

fun run_effects :: "'w agent_ports \<Rightarrow> invocation_context_v1 \<Rightarrow> string \<Rightarrow> resolved_capability_scope
    \<Rightarrow> nat \<Rightarrow> invocation_event list \<Rightarrow> planned_effect list \<Rightarrow> (nat \<times> invocation_event list, 'w) io" where
  "run_effects ports context agent scope output_bytes events [] = io_of (Inr (output_bytes, events))"
| "run_effects ports context agent scope output_bytes events (effect # plan) =
     io_then (run_effect ports context agent scope output_bytes effect) (\<lambda>(n, event).
       run_effects ports context agent scope n (events @ [event]) plan)"

section \<open>The invocation\<close>

fun project_finish_reason :: "finish_reason \<Rightarrow> invocation_model_finish_reason" where
  "project_finish_reason Stop = MStop"
| "project_finish_reason Length = MLength"
| "project_finish_reason ToolCalls = MToolCalls"
| "project_finish_reason ContentFilter = MContentFilter"
| "project_finish_reason Other = MOther"

fun project_idempotency :: "idempotency_disposition \<Rightarrow> invocation_model_idempotency" where
  "project_idempotency IdemUnsupported = MUnsupported"
| "project_idempotency IdemAccepted = MAccepted"

definition project_model_evidence :: "generation_evidence \<Rightarrow> invocation_model_evidence" where
  "project_model_evidence evidence =
     \<lparr>me_provider_id = ge_provider_id evidence, me_model_id = ge_model_id evidence,
      me_provider_request_id = ge_provider_request_id evidence,
      me_finish_reason = project_finish_reason (ge_finish_reason evidence),
      me_token_usage = map_option (\<lambda>u. \<lparr>mt_input_tokens = tu_input_tokens u,
        mt_output_tokens = tu_output_tokens u, mt_total_tokens = tu_total_tokens u\<rparr>) (ge_token_usage evidence),
      me_idempotency = project_idempotency (ge_idempotency evidence)\<rparr>"

fun resolve_all :: "'w agent_ports \<Rightarrow> string list \<Rightarrow> (string list, 'w) io" where
  "resolve_all ports [] = io_of (Inr [])"
| "resolve_all ports (tool_id # rest) =
     io_then (port_resolve ports tool_id) (\<lambda>tool.
     io_then (resolve_all ports rest) (\<lambda>tools. io_of (Inr (tool # tools))))"

definition io_generate :: "'w agent_ports \<Rightarrow> generate_request \<Rightarrow> (generate_response, 'w) io" where
  "io_generate ports request w =
     (let (answer, w') = port_generate ports request w in (map_err map_gateway_error answer, w'))"

definition prepare_request :: "json_parse \<Rightarrow> json_print \<Rightarrow> agent_definition_v1 \<Rightarrow> string \<Rightarrow> string list
    \<Rightarrow> resolved_capability_scope \<Rightarrow> (generate_request \<times> (string, string) btree_map, definition_error) result"
where
  "prepare_request parse print d input resolved scope =
     and_then (parse_model_reference (ad_model_reference d)) (\<lambda>(provider_id, model_id).
     and_then (gateway_tools parse print resolved scope) (\<lambda>(tool_definitions, ordinary).
     and_then (map_err map_gateway_error (prompt_new (Some (ad_instructions d)) input)) (\<lambda>prompt.
     and_then (map_err map_gateway_error (generation_limits_new (el_max_output_bytes (ad_limits d)))) (\<lambda>limits.
     and_then (map_err map_gateway_error (generate_request_new provider_id model_id prompt tool_definitions limits))
       (\<lambda>request. Inr (request, ordinary))))))"

definition plan_response :: "json_parse \<Rightarrow> agent_definition_v1 \<Rightarrow> (string, string) btree_map
    \<Rightarrow> resolved_capability_scope \<Rightarrow> generate_response \<Rightarrow> (nat \<times> planned_effect list, definition_error) result"
where
  "plan_response parse d ordinary scope response =
     (let calls = gp_tool_calls response in
      if length calls > unat (el_max_tool_calls (ad_limits d)) \<or> length calls > unat Agent.MAX_TOOL_CALLS
      then Inl definition_error.LimitExceeded
      else and_then (checked_output_bytes (gp_text response) 0 (el_max_output_bytes (ad_limits d))) (\<lambda>output_bytes.
        and_then (try_map (plan_call parse ordinary scope) calls) (\<lambda>plan. Inr (output_bytes, plan))))"

text \<open>The steps of \<open>invoke_definition\<close> after the model answered, from the request on, and in full.\<close>

definition apply_response :: "json_parse \<Rightarrow> 'w agent_ports \<Rightarrow> invocation_context_v1 \<Rightarrow> string
    \<Rightarrow> agent_definition_v1 \<Rightarrow> resolved_capability_scope \<Rightarrow> (string, string) btree_map \<Rightarrow> generate_response
    \<Rightarrow> (invocation_result, 'w) io" where
  "apply_response parse ports context agent d scope ordinary response =
     io_then (io_preflight ports) (\<lambda>_.
     io_then (io_of (plan_response parse d ordinary scope response)) (\<lambda>(output_bytes, plan).
     io_then (run_effects ports context agent scope output_bytes [ModelInvoked] plan) (\<lambda>(_, events).
       io_of (Inr \<lparr>ir_capability_scope_digest = rs_digest scope, ir_events = events,
         ir_output = gp_text response,
         ir_model_evidence = project_model_evidence (gp_evidence response)\<rparr>))))"

definition invoke_model :: "json_parse \<Rightarrow> json_print \<Rightarrow> 'w agent_ports \<Rightarrow> invocation_context_v1 \<Rightarrow> string
    \<Rightarrow> string \<Rightarrow> agent_definition_v1 \<Rightarrow> string list \<Rightarrow> resolved_capability_scope \<Rightarrow> (invocation_result, 'w) io" where
  "invoke_model parse print ports context agent input d resolved scope =
     io_then (io_of (prepare_request parse print d input resolved scope)) (\<lambda>(request, ordinary).
     io_then (io_generate ports request) (\<lambda>response.
       apply_response parse ports context agent d scope ordinary response))"

definition invoke_definition :: "(string \<Rightarrow> string) \<Rightarrow> json_parse \<Rightarrow> json_print \<Rightarrow> 'w agent_ports
    \<Rightarrow> invocation_context_v1 \<Rightarrow> string \<Rightarrow> string \<Rightarrow> agent_definition_v1 \<Rightarrow> effective_capability_ceiling_v1
    \<Rightarrow> (invocation_result, 'w) io" where
  "invoke_definition sha256_hex parse print ports context agent input d ceiling =
     (if length input > MAX_INPUT_BYTES then io_of (Inl definition_error.LimitExceeded)
      else
        io_then (io_of (intersect ceiling d)) (\<lambda>effective_ceiling.
        io_then (resolve_all ports (cc_allowed_tool_ids effective_ceiling)) (\<lambda>resolved.
          invoke_model parse print ports context agent input d resolved
            (scope_from_definition sha256_hex d resolved effective_ceiling))))"

definition invoke :: "(string \<Rightarrow> string) \<Rightarrow> json_parse \<Rightarrow> json_print \<Rightarrow> 'w agent_ports \<Rightarrow> agent_registry
    \<Rightarrow> invocation_context_v1 \<Rightarrow> string \<Rightarrow> string \<Rightarrow> (invocation_result, 'w) io" where
  "invoke sha256_hex parse print ports registry context agent input =
     io_then (io_of (registry_get registry agent)) (\<lambda>d.
       invoke_definition sha256_hex parse print ports context agent input d (full_definition d))"

definition invoke_with_ceiling :: "(string \<Rightarrow> string) \<Rightarrow> json_parse \<Rightarrow> json_print \<Rightarrow> 'w agent_ports
    \<Rightarrow> agent_registry \<Rightarrow> invocation_context_v1 \<Rightarrow> string \<Rightarrow> string \<Rightarrow> effective_capability_ceiling_v1
    \<Rightarrow> (invocation_result, 'w) io" where
  "invoke_with_ceiling sha256_hex parse print ports registry context agent input ceiling =
     io_then (io_of (validate_effective_capability_ceiling ceiling)) (\<lambda>_.
     io_then (io_of (registry_get registry agent)) (\<lambda>d.
       invoke_definition sha256_hex parse print ports context agent input d ceiling))"

end
