(* ===== verification/Agent_Runtime_Properties.thy ===== *)
theory Agent_Runtime_Properties
  imports Agent_Runtime
begin

text \<open>
  What an invocation of the local agent runtime does to its ports. The ports of any runtime are
  wrapped so that the world also keeps the sequence of calls made; the traces of the runtime's
  computations are then described compositionally by \<open>emits\<close>.
\<close>

section \<open>Traces of port calls\<close>

datatype port_call =
    CallResolve string
  | CallGenerate generate_request
  | CallPreflight invocation_control
  | CallTool string tool_request
  | CallRecall memory_request
  | CallWrite memory_request string
  | CallSearch search_request
  | CallExecute sandbox_request

fun is_effect :: "port_call \<Rightarrow> bool" where
  "is_effect (CallTool _ _) \<longleftrightarrow> True"
| "is_effect (CallRecall _) \<longleftrightarrow> True"
| "is_effect (CallWrite _ _) \<longleftrightarrow> True"
| "is_effect (CallSearch _) \<longleftrightarrow> True"
| "is_effect (CallExecute _) \<longleftrightarrow> True"
| "is_effect _ \<longleftrightarrow> False"

type_synonym 'w trace_world = "'w \<times> port_call list"

definition note_call :: "port_call \<Rightarrow> ('w \<Rightarrow> 'r \<times> 'w) \<Rightarrow> 'w trace_world \<Rightarrow> 'r \<times> 'w trace_world" where
  "note_call c operation = (\<lambda>(w, log). let (r, w') = operation w in (r, (w', log @ [c])))"

definition logged :: "'w agent_ports \<Rightarrow> 'w trace_world agent_ports" where
  "logged ports =
     \<lparr>port_resolve = (\<lambda>i. note_call (CallResolve i) (port_resolve ports i)),
      port_generate = (\<lambda>q. note_call (CallGenerate q) (port_generate ports q)),
      port_control = (\<lambda>(w, log). let (c, w') = port_control ports w in (c, (w', log @ [CallPreflight c]))),
      port_invoke = (\<lambda>t q. note_call (CallTool t q) (port_invoke ports t q)),
      port_recall = (\<lambda>q. note_call (CallRecall q) (port_recall ports q)),
      port_write = (\<lambda>q v. note_call (CallWrite q v) (port_write ports q v)),
      port_search = (\<lambda>q. note_call (CallSearch q) (port_search ports q)),
      port_execute = (\<lambda>q. note_call (CallExecute q) (port_execute ports q))\<rparr>"

definition emits :: "('a, 'w trace_world) io \<Rightarrow> (('a, definition_error) result \<Rightarrow> port_call list \<Rightarrow> bool) \<Rightarrow> bool"
where
  "emits m P \<longleftrightarrow> (\<forall>w log. \<exists>r w' t. m (w, log) = (r, (w', log @ t)) \<and> P r t)"

named_theorems emits_intros

lemma emitsD:
  assumes "emits m P" and "m (w, log) = (r, (w', log'))"
  obtains t where "log' = log @ t" "P r t"
  using assms unfolding emits_def by (metis prod.inject)

lemma emits_mono: "emits m P \<Longrightarrow> (\<And>r t. P r t \<Longrightarrow> Q r t) \<Longrightarrow> emits m Q"
  unfolding emits_def by metis

lemma emits_of: "P r [] \<Longrightarrow> emits (io_of r) P"
  by (simp add: emits_def io_of_def)

lemma emits_then:
  assumes "emits m P"
    and "\<And>e t. P (Inl e) t \<Longrightarrow> Q (Inl e) t"
    and "\<And>a t. P (Inr a) t \<Longrightarrow> emits (f a) (\<lambda>r s. Q r (t @ s))"
  shows "emits (io_then m f) Q"
  unfolding emits_def
proof (intro allI)
  fix w log
  from assms(1) obtain r w' t where m: "m (w, log) = (r, (w', log @ t))" "P r t"
    unfolding emits_def by meson
  show "\<exists>r w' t. io_then m f (w, log) = (r, (w', log @ t)) \<and> Q r t"
  proof (cases r)
    case (Inl e)
    with m assms(2) show ?thesis by (auto simp: io_then_def)
  next
    case (Inr a)
    with m assms(3) have "emits (f a) (\<lambda>r s. Q r (t @ s))" by simp
    then obtain r2 w2 s where "f a (w', log @ t) = (r2, (w2, (log @ t) @ s))" "Q r2 (t @ s)"
      unfolding emits_def by meson
    with m Inr show ?thesis by (auto simp: io_then_def)
  qed
qed

lemma emits_of_then:
  assumes "\<And>e. r = Inl e \<Longrightarrow> Q (Inl e) []" and "\<And>a. r = Inr a \<Longrightarrow> emits (f a) Q"
  shows "emits (io_then (io_of r) f) Q"
  by (rule emits_then [where P = "\<lambda>r' t. r' = r \<and> t = []"]) (use assms in \<open>auto intro: emits_of\<close>)

lemma emits_note: "(\<And>r. P r [c]) \<Longrightarrow> emits (note_call c operation) P"
  by (auto simp: emits_def note_call_def split: prod.splits)

lemma emits_ports [emits_intros]:
  "emits (port_resolve (logged ports) i) (\<lambda>r t. t = [CallResolve i])"
  "emits (port_invoke (logged ports) tool q1) (\<lambda>r t. t = [CallTool tool q1])"
  "emits (port_recall (logged ports) q2) (\<lambda>r t. t = [CallRecall q2])"
  "emits (port_write (logged ports) q2 v) (\<lambda>r t. t = [CallWrite q2 v])"
  "emits (port_execute (logged ports) q3) (\<lambda>r t. t = [CallExecute q3])"
  by (simp_all add: logged_def emits_note)

lemma emits_preflight:
  "emits (io_preflight (logged ports)) (\<lambda>r t. \<exists>c. t = [CallPreflight c] \<and> r = map_err map_gateway_error (preflight c))"
  by (auto simp: emits_def io_preflight_def logged_def split: prod.splits)

lemma emits_search:
  "emits (io_search (logged ports) q) (\<lambda>r t. t = [CallSearch q]
     \<and> (\<exists>answer. r = map_err map_knowledge_error (service_search (\<lambda>_. answer) q)))"
  by (auto simp: emits_def io_search_def logged_def note_call_def split: prod.splits)

lemma emits_generate:
  "emits (io_generate (logged ports) q) (\<lambda>r t. t = [CallGenerate q])"
  by (auto simp: emits_def io_generate_def logged_def note_call_def split: prod.splits)

lemma emits_resolve_all:
  "emits (resolve_all (logged ports) ids) (\<lambda>r t. list_all (\<lambda>c. \<exists>i\<in>set ids. c = CallResolve i) t)"
proof (induction ids)
  case (Cons i ids)
  show ?case
    unfolding resolve_all.simps
    by (rule emits_then [OF emits_ports(1)], simp)
      (auto intro!: emits_then [OF Cons] emits_of simp: list_all_iff)
qed (simp add: emits_of)

section \<open>What a planned effect may do\<close>

text \<open>The calls an effect may make under a scope, with the caller's context and agent.\<close>

fun permitted :: "invocation_context_v1 \<Rightarrow> string \<Rightarrow> resolved_capability_scope \<Rightarrow> port_call \<Rightarrow> bool" where
  "permitted context agent scope (CallTool tool q) \<longleftrightarrow>
     tool \<in> set (rs_allowed_tool_ids scope) \<and> tr_context q = context \<and> tr_agent_id q = agent
     \<and> tr_capability_scope q = scope \<and> length (tr_input q) \<le> 16384"
| "permitted context agent scope (CallRecall q) \<longleftrightarrow>
     mp_enabled (rs_memory scope) \<and> mq_context q = context \<and> mq_agent_id q = agent
     \<and> mq_capability_scope q = scope \<and> length (mq_query q) \<le> 16384
     \<and> mq_limit q = mp_max_items (rs_memory scope)"
| "permitted context agent scope (CallWrite q value) \<longleftrightarrow>
     mp_enabled (rs_memory scope) \<and> mq_context q = context \<and> mq_agent_id q = agent
     \<and> mq_capability_scope q = scope \<and> length value \<le> 16384"
| "permitted context agent scope (CallSearch q) \<longleftrightarrow>
     kp_enabled (rs_knowledge scope) \<and> sc_tenant_id (sr_context q) = ic_tenant_id context
     \<and> sc_principal_id (sr_context q) = ic_principal_id context
     \<and> sr_namespace q = kp_namespace (rs_knowledge scope)
     \<and> sr_limit q = kp_max_results (rs_knowledge scope) \<and> length (sr_query q) \<le> 16384"
| "permitted context agent scope (CallExecute q) \<longleftrightarrow>
     rs_allow_execution scope \<and> sq_context q = context \<and> sq_agent_id q = agent
     \<and> sq_capability_scope q = scope \<and> length (sq_action q) \<le> 16384 \<and> length (sq_arguments q) \<le> 32
     \<and> list_all (\<lambda>a. length a \<le> 4096) (sq_arguments q)"
| "permitted context agent scope _ \<longleftrightarrow> True"

fun plan_permitted :: "resolved_capability_scope \<Rightarrow> planned_effect \<Rightarrow> bool" where
  "plan_permitted scope (PlanTool tool input) \<longleftrightarrow> tool \<in> set (rs_allowed_tool_ids scope) \<and> length input \<le> 16384"
| "plan_permitted scope (PlanMemoryRecall query) \<longleftrightarrow> mp_enabled (rs_memory scope) \<and> length query \<le> 16384"
| "plan_permitted scope (PlanMemoryWrite value) \<longleftrightarrow> mp_enabled (rs_memory scope) \<and> length value \<le> 16384"
| "plan_permitted scope (PlanKnowledgeSearch query) \<longleftrightarrow> kp_enabled (rs_knowledge scope) \<and> length query \<le> 16384"
| "plan_permitted scope (PlanSandboxExecute action args) \<longleftrightarrow> rs_allow_execution scope
     \<and> length action \<le> 16384 \<and> length args \<le> 32 \<and> list_all (\<lambda>a. length a \<le> 4096) args"

lemmas runtime_limits = MAX_INPUT_BYTES_def MAX_MEMORY_WRITE_VALUE_BYTES_def
  MAX_TOOL_REQUEST_INPUT_BYTES_def MAX_SANDBOX_ARGUMENTS_def MAX_SANDBOX_ARGUMENT_BYTES_def

lemma plan_call_permitted:
  "plan_call parse ordinary scope call = Inr effect \<Longrightarrow> plan_permitted scope effect"
  by (auto simp: plan_call_def bounded_string_def Let_def result_simps runtime_limits list_ex_iff list_all_iff
      not_less split: option.splits if_splits prod.splits)

text \<open>The calls of a plan in order: each effect directly after a reading that let it pass, and
  nothing after a reading that did not.\<close>

definition passes :: "invocation_control \<Rightarrow> bool" where
  "passes c \<longleftrightarrow> \<not> is_cancelled c \<and> \<not> is_elapsed c"

inductive guarded_trace :: "port_call list \<Rightarrow> nat \<Rightarrow> bool" where
  finished: "guarded_trace [] n"
| stopped: "guarded_trace [CallPreflight c] (Suc n)"
| effect: "passes c \<Longrightarrow> is_effect e \<Longrightarrow> guarded_trace t n \<Longrightarrow> guarded_trace (CallPreflight c # e # t) (Suc n)"

lemma preflight_Inr [result_simps]: "preflight c = Inr u \<longleftrightarrow> passes c"
  by (simp add: preflight_def passes_def)

lemma map_err_simps [result_simps]:
  "map_err f r = Inr a \<longleftrightarrow> r = Inr a" "map_err f r = Inl e \<longleftrightarrow> (\<exists>x. r = Inl x \<and> e = f x)"
  by (cases r; auto)+

fun event_bytes :: "invocation_event \<Rightarrow> nat" where
  "event_bytes (MemoryRecalled items) = sum_list (map length items)"
| "event_bytes (KnowledgeSearched results) = sum_list (map (\<lambda>r. length (kr_text r)) results)"
| "event_bytes (SandboxCompleted output) = length output"
| "event_bytes (ToolCompleted _ output) = length output"
| "event_bytes _ = 0"

definition events_bytes :: "invocation_event list \<Rightarrow> nat" where
  "events_bytes events = sum_list (map event_bytes events)"

lemma checked_output_bytes_Inr:
  "checked_output_bytes v used limit = Inr n \<Longrightarrow> n = used + length v \<and> n \<le> unat limit"
  by (auto simp: checked_output_bytes_def result_simps checked_simps split: if_splits)

lemma checked_fold_Inr:
  "try_fold (\<lambda>t x. checked_output_bytes (f x) t limit) used xs = Inr n \<Longrightarrow> used \<le> unat limit
     \<Longrightarrow> n = used + sum_list (map (\<lambda>x. length (f x)) xs) \<and> n \<le> unat limit"
proof (induction xs arbitrary: used)
  case (Cons x xs)
  then obtain m where m: "checked_output_bytes (f x) used limit = Inr m"
    "try_fold (\<lambda>t x. checked_output_bytes (f x) t limit) m xs = Inr n"
    by (auto simp: result_simps)
  from checked_output_bytes_Inr [OF m(1)] Cons.IH [OF m(2)] show ?case by auto
qed simp


section \<open>Traces of a plan and of an invocation\<close>

text \<open>One effect: a reading, then, if it lets the effect pass, at most one permitted call.\<close>

definition effect_trace :: "invocation_context_v1 \<Rightarrow> string \<Rightarrow> resolved_capability_scope \<Rightarrow> nat
    \<Rightarrow> (nat \<times> invocation_event, definition_error) result \<Rightarrow> port_call list \<Rightarrow> bool" where
  "effect_trace context agent scope used r t \<longleftrightarrow>
     (\<exists>c. t = [CallPreflight c] \<and> (\<exists>e. r = Inl e))
     \<or> (\<exists>c e. t = [CallPreflight c, e] \<and> passes c \<and> is_effect e \<and> permitted context agent scope e
         \<and> (\<forall>n event. r = Inr (n, event) \<longrightarrow> n = used + event_bytes event
              \<and> n \<le> unat (el_max_output_bytes (rs_limits scope))))"

lemma emits_call_then:
  assumes "emits m (\<lambda>r t. t = [e])" and "passes c" "is_effect e" "permitted context agent scope e"
    and "\<And>a n event. check a = Inr n \<Longrightarrow> n = used + event_bytes (mk a)
      \<and> n \<le> unat (el_max_output_bytes (rs_limits scope))"
  shows "emits (io_then m (\<lambda>a. io_then (io_of (check a)) (\<lambda>n. io_of (Inr (n, mk a)))))
    (\<lambda>r t. effect_trace context agent scope used r (CallPreflight c # t))"
  by (rule emits_then [OF assms(1)], use assms in \<open>simp add: effect_trace_def\<close>)
    (rule emits_of_then, use assms in \<open>auto simp: effect_trace_def intro!: emits_of\<close>)

lemma search_request_of_Inr:
  "search_request_of context scope query = Inr q \<Longrightarrow>
     sc_tenant_id (sr_context q) = ic_tenant_id context
     \<and> sc_principal_id (sr_context q) = ic_principal_id context
     \<and> sr_namespace q = kp_namespace (rs_knowledge scope)
     \<and> sr_limit q = kp_max_results (rs_knowledge scope) \<and> sr_query q = query"
  by (auto simp: search_request_of_def Knowledge.identifier_new_def query_new_def search_limit_new_def
      result_simps split: if_splits)

lemma emits_search_call:
  assumes "kp_enabled (rs_knowledge scope)" "length query \<le> 16384" "passes c"
    and "used \<le> unat (el_max_output_bytes (rs_limits scope))"
  shows "emits (effect_call (logged ports) context agent scope used (PlanKnowledgeSearch query))
    (\<lambda>r t. effect_trace context agent scope used r (CallPreflight c # t))"
  unfolding effect_call_def planned_effect.case
proof (rule emits_of_then)
  fix q
  assume "search_request_of context scope query = Inr q"
  from search_request_of_Inr [OF this] have q: "permitted context agent scope (CallSearch q)"
    using assms(1,2) by simp
  have search: "emits (io_search (logged ports) q) (\<lambda>r t. t = [CallSearch q])"
    by (rule emits_mono [OF emits_search]) simp
  show "emits (io_then (io_search (logged ports) q) (\<lambda>found.
      let results = map (\<lambda>h. \<lparr>kr_document_id = kh_document_id h, kr_text = kh_text h\<rparr>) (hits found) in
      io_then (io_of (checked_knowledge_results_output_bytes results used
        (el_max_output_bytes (rs_limits scope)))) (\<lambda>n. io_of (Inr (n, KnowledgeSearched results)))))
    (\<lambda>r t. effect_trace context agent scope used r (CallPreflight c # t))"
    unfolding Let_def
    by (rule emits_call_then [OF search assms(3)])
      (use q assms(4) checked_fold_Inr in \<open>fastforce simp: checked_knowledge_results_output_bytes_def\<close>)+
qed (simp add: effect_trace_def)

lemma emits_effect_call:
  assumes "plan_permitted scope effect" and "passes c"
    and "used \<le> unat (el_max_output_bytes (rs_limits scope))"
  shows "emits (effect_call (logged ports) context agent scope used effect)
    (\<lambda>r t. effect_trace context agent scope used r (CallPreflight c # t))"
proof (cases effect)
  case (PlanTool tool input)
  then show ?thesis using assms unfolding PlanTool effect_call_def planned_effect.case
    by (intro emits_call_then [OF emits_ports(2)]) (auto dest: checked_output_bytes_Inr)
next
  case (PlanMemoryRecall query)
  then show ?thesis using assms unfolding PlanMemoryRecall effect_call_def planned_effect.case
    by (intro emits_call_then [OF emits_ports(3)])
      (auto simp: checked_values_output_bytes_def dest: checked_fold_Inr [where f = "\<lambda>x. x"])
next
  case (PlanMemoryWrite val)
  then show ?thesis using assms unfolding PlanMemoryWrite effect_call_def planned_effect.case
    by (intro emits_then [OF emits_ports(4)] emits_of) (auto simp: effect_trace_def)
next
  case (PlanKnowledgeSearch query)
  then show ?thesis using assms by (auto intro: emits_search_call)
next
  case (PlanSandboxExecute action args)
  then show ?thesis using assms unfolding PlanSandboxExecute effect_call_def planned_effect.case
    by (intro emits_call_then [OF emits_ports(5)]) (auto dest: checked_output_bytes_Inr)
qed

lemma emits_run_effect:
  assumes "plan_permitted scope effect" and "used \<le> unat (el_max_output_bytes (rs_limits scope))"
  shows "emits (run_effect (logged ports) context agent scope used effect)
    (effect_trace context agent scope used)"
  unfolding run_effect_def
  by (rule emits_then [OF emits_preflight])
    (auto simp: effect_trace_def [of _ _ _ _ "Inl _"] eq_commute [of "Inr _"] result_simps
      intro!: emits_effect_call assms)

text \<open>A whole plan: guarded, permitted, and accounted for in the bytes of the events.\<close>

definition plan_trace :: "invocation_context_v1 \<Rightarrow> string \<Rightarrow> resolved_capability_scope \<Rightarrow> nat
    \<Rightarrow> invocation_event list \<Rightarrow> nat \<Rightarrow> (nat \<times> invocation_event list, definition_error) result
    \<Rightarrow> port_call list \<Rightarrow> bool" where
  "plan_trace context agent scope used events n r t \<longleftrightarrow>
     guarded_trace t n \<and> list_all (permitted context agent scope) t
     \<and> (\<forall>m evs. r = Inr (m, evs) \<longrightarrow> m + events_bytes events = used + events_bytes evs
          \<and> m \<le> unat (el_max_output_bytes (rs_limits scope)))"

lemma emits_run_effects:
  assumes "list_all (plan_permitted scope) plan" and "used \<le> unat (el_max_output_bytes (rs_limits scope))"
  shows "emits (run_effects (logged ports) context agent scope used events plan)
    (plan_trace context agent scope used events (length plan))"
  using assms
proof (induction plan arbitrary: used events)
  case Nil
  then show ?case by (simp add: emits_of plan_trace_def guarded_trace.finished)
next
  case (Cons effect plan)
  then have permit: "plan_permitted scope effect" "list_all (plan_permitted scope) plan" by auto
  show ?case
    unfolding run_effects.simps
  proof (rule emits_then [OF emits_run_effect [OF permit(1) Cons.prems(2)]])
    fix e t
    assume "effect_trace context agent scope used (Inl e) t"
    then show "plan_trace context agent scope used events (length (effect # plan)) (Inl e) t"
      by (auto simp: effect_trace_def plan_trace_def intro: guarded_trace.intros)
  next
    fix a t
    assume "effect_trace context agent scope used (Inr a) t"
    then obtain m event c e where a: "a = (m, event)" and t: "t = [CallPreflight c, e]"
      and e: "passes c" "is_effect e" "permitted context agent scope e"
      and m: "m = used + event_bytes event" "m \<le> unat (el_max_output_bytes (rs_limits scope))"
      by (cases a) (auto simp: effect_trace_def)
    show "emits (case a of (n, event) \<Rightarrow> run_effects (logged ports) context agent scope n (events @ [event]) plan)
        (\<lambda>r s. plan_trace context agent scope used events (length (effect # plan)) r (t @ s))"
      unfolding a prod.case
      by (rule emits_mono [OF Cons.IH [OF permit(2) m(2)]])
        (use e m t in \<open>auto simp: plan_trace_def events_bytes_def intro: guarded_trace.effect\<close>)
  qed
qed

text \<open>An invocation: tools are resolved, the model is called once, one reading follows, and only
  then the plan runs.\<close>

definition bounded_plan :: "agent_definition_v1 \<Rightarrow> nat \<Rightarrow> bool" where
  "bounded_plan d n \<longleftrightarrow> n \<le> 64 \<and> n \<le> unat (el_max_tool_calls (ad_limits d))"

definition within_output :: "agent_definition_v1 \<Rightarrow> (invocation_result, definition_error) result \<Rightarrow> bool" where
  "within_output d r \<longleftrightarrow> (\<forall>result. r = Inr result \<longrightarrow>
     length (ir_output result) + events_bytes (ir_events result) \<le> unat (el_max_output_bytes (ad_limits d)))"

definition early :: "port_call \<Rightarrow> bool" where
  "early x \<longleftrightarrow> \<not> is_effect x \<and> (\<forall>c. x \<noteq> CallPreflight c)"

definition reply_trace :: "invocation_context_v1 \<Rightarrow> string \<Rightarrow> agent_definition_v1 \<Rightarrow> resolved_capability_scope
    \<Rightarrow> (invocation_result, definition_error) result \<Rightarrow> port_call list \<Rightarrow> bool" where
  "reply_trace context agent d scope r t \<longleftrightarrow>
     (\<exists>c u n. t = CallPreflight c # u \<and> (\<not> passes c \<longrightarrow> u = []) \<and> guarded_trace u n \<and> bounded_plan d n
        \<and> list_all (permitted context agent scope) u \<and> within_output d r)"

definition invocation_trace :: "invocation_context_v1 \<Rightarrow> string \<Rightarrow> agent_definition_v1
    \<Rightarrow> resolved_capability_scope set \<Rightarrow> (invocation_result, definition_error) result \<Rightarrow> port_call list \<Rightarrow> bool"
where
  "invocation_trace context agent d scopes r t \<longleftrightarrow>
     (\<exists>e. r = Inl e) \<and> list_all early t
     \<or> (\<exists>us v scope. t = us @ v \<and> list_all early us \<and> scope \<in> scopes \<and> reply_trace context agent d scope r v)"

lemma plan_response_Inr:
  assumes "plan_response parse d ordinary scope response = Inr (used, plan)"
  shows "bounded_plan d (length plan) \<and> list_all (plan_permitted scope) plan
    \<and> used = length (gp_text response) \<and> used \<le> unat (el_max_output_bytes (ad_limits d))"
proof -
  from assms have plan: "try_map (plan_call parse ordinary scope) (gp_tool_calls response) = Inr plan"
    and used: "checked_output_bytes (gp_text response) 0 (el_max_output_bytes (ad_limits d)) = Inr used"
    and n: "length (gp_tool_calls response) \<le> unat (el_max_tool_calls (ad_limits d))"
      "length (gp_tool_calls response) \<le> unat Agent.MAX_TOOL_CALLS"
    by (auto simp: plan_response_def Let_def result_simps not_less split: if_splits)
  from plan have "list_all2 (\<lambda>c p. plan_call parse ordinary scope c = Inr p) (gp_tool_calls response) plan"
    by (simp add: try_map_Inr)
  then have "length plan = length (gp_tool_calls response)" "list_all (plan_permitted scope) plan"
    by (auto simp: list_all2_conv_all_nth list_all_length intro: plan_call_permitted)
  with n checked_output_bytes_Inr [OF used] show ?thesis
    by (simp add: bounded_plan_def Agent.MAX_TOOL_CALLS_def)
qed

lemma emits_execution:
  assumes "plan_response parse d ordinary scope response = Inr (used, plan)"
    and "rs_limits scope = ad_limits d"
  shows "emits (io_then (run_effects (logged ports) context agent scope used [ModelInvoked] plan) (\<lambda>(_, events).
      io_of (Inr \<lparr>ir_capability_scope_digest = rs_digest scope, ir_events = events,
        ir_output = gp_text response, ir_model_evidence = project_model_evidence (gp_evidence response)\<rparr>)))
    (\<lambda>r u. guarded_trace u (length plan) \<and> list_all (permitted context agent scope) u \<and> within_output d r)"
proof -
  from plan_response_Inr [OF assms(1)] assms(2)
  have "list_all (plan_permitted scope) plan" "used \<le> unat (el_max_output_bytes (rs_limits scope))"
    and used: "used = length (gp_text response)" by simp_all
  from emits_run_effects [OF this(1,2)] show ?thesis
    by (rule emits_then)
      (auto simp: plan_trace_def used assms(2) events_bytes_def within_output_def intro!: emits_of)
qed

lemma emits_apply_response:
  assumes "rs_limits scope = ad_limits d"
  shows "emits (apply_response parse (logged ports) context agent d scope ordinary response)
    (reply_trace context agent d scope)"
proof -
  have stop: "reply_trace context agent d scope (Inl e) [CallPreflight c]" for c e
    unfolding reply_trace_def within_output_def
    by (intro exI [of _ c] exI [of _ "[]"] exI [of _ 0]) (simp add: guarded_trace.finished bounded_plan_def)
  show ?thesis
    unfolding apply_response_def
    by (rule emits_then [OF emits_preflight]; clarsimp simp: stop; rule emits_of_then; clarsimp simp: stop)
      (rule emits_mono, erule emits_execution [OF _ assms],
        auto simp: reply_trace_def eq_commute [of "Inr _"] result_simps dest: plan_response_Inr)
qed

lemma emits_invoke_model:
  assumes "rs_limits scope = ad_limits d" and "scope \<in> scopes" and "list_all early us"
  shows "emits (invoke_model parse print (logged ports) context agent input d resolved scope)
    (\<lambda>r v. invocation_trace context agent d scopes r (us @ v))"
  unfolding invoke_model_def
proof (rule emits_of_then, use assms(3) in \<open>simp add: invocation_trace_def\<close>, clarsimp,
    rule emits_then [OF emits_generate])
  fix request ordinary response t
  assume t: "t = [CallGenerate request]"
  show "emits (apply_response parse (logged ports) context agent d scope ordinary response)
      (\<lambda>r s. invocation_trace context agent d scopes r (us @ t @ s))"
  proof (rule emits_mono [OF emits_apply_response [OF assms(1)]])
    fix r s
    assume "reply_trace context agent d scope r s"
    moreover have "us @ t @ s = (us @ t) @ s" "list_all early (us @ t)"
      using assms(3) t by (simp_all add: early_def)
    ultimately show "invocation_trace context agent d scopes r (us @ t @ s)"
      using assms(2) unfolding invocation_trace_def by blast
  qed
qed (use assms(3) in \<open>simp add: invocation_trace_def early_def [of "CallGenerate _"]\<close>)

lemma rs_limits_scope [simp]:
  "rs_limits (scope_from_definition sha256_hex d resolved effective) = ad_limits d"
  by (simp add: scope_from_definition_def Let_def)

lemma emits_invoke_definition:
  "emits (invoke_definition sha256_hex parse print (logged ports) context agent input d ceiling)
     (invocation_trace context agent d
       {scope_from_definition sha256_hex d resolved effective | resolved effective. intersect ceiling d = Inr effective})"
    (is "emits _ (invocation_trace _ _ _ ?scopes)")
proof -
  have resolve: "emits (io_then (resolve_all (logged ports) ids) (\<lambda>resolved.
      invoke_model parse print (logged ports) context agent input d resolved
        (scope_from_definition sha256_hex d resolved effective))) (invocation_trace context agent d ?scopes)"
    if "intersect ceiling d = Inr effective" for ids effective
    by (rule emits_then [OF emits_resolve_all], force simp: invocation_trace_def early_def list_all_iff)
      (rule emits_invoke_model, use that in \<open>auto simp: early_def list_all_iff\<close>)
  show ?thesis
    unfolding invoke_definition_def
    by (auto intro!: emits_of emits_of_then resolve simp: invocation_trace_def [of _ _ _ _ "Inl _"])
qed

lemma emits_invoke_with_ceiling:
  "emits (invoke_with_ceiling sha256_hex parse print (logged ports) registry context agent input ceiling)
     (\<lambda>r t. (\<exists>e. r = Inl e) \<and> t = []
        \<or> (\<exists>d. registry_get registry agent = Inr d \<and> invocation_trace context agent d
             {scope_from_definition sha256_hex d resolved effective | resolved effective.
                intersect ceiling d = Inr effective} r t))"
  unfolding invoke_with_ceiling_def
  by (intro emits_of_then emits_mono [OF emits_invoke_definition]) auto

section \<open>Authorization\<close>

text \<open>What a definition and a ceiling together allow, stated on them alone.\<close>

fun authorized :: "invocation_context_v1 \<Rightarrow> string \<Rightarrow> agent_definition_v1 \<Rightarrow> effective_capability_ceiling_v1
    \<Rightarrow> port_call \<Rightarrow> bool" where
  "authorized context agent d ceiling (CallTool tool q) \<longleftrightarrow>
     tool \<in> set (cc_allowed_tool_ids ceiling) \<and> tool \<in> set (ad_allowed_tool_ids d)
     \<and> tr_context q = context \<and> tr_agent_id q = agent \<and> length (tr_input q) \<le> 16384"
| "authorized context agent d ceiling (CallRecall q) \<longleftrightarrow>
     cc_memory_enabled ceiling \<and> mp_enabled (ad_memory d) \<and> mq_context q = context \<and> mq_agent_id q = agent
     \<and> mq_limit q = mp_max_items (ad_memory d) \<and> length (mq_query q) \<le> 16384"
| "authorized context agent d ceiling (CallWrite q value) \<longleftrightarrow>
     cc_memory_enabled ceiling \<and> mp_enabled (ad_memory d) \<and> mq_context q = context \<and> mq_agent_id q = agent
     \<and> length value \<le> 16384"
| "authorized context agent d ceiling (CallSearch q) \<longleftrightarrow>
     cc_knowledge_enabled ceiling \<and> kp_enabled (ad_knowledge d)
     \<and> sc_tenant_id (sr_context q) = ic_tenant_id context \<and> sc_principal_id (sr_context q) = ic_principal_id context
     \<and> sr_namespace q = kp_namespace (ad_knowledge d) \<and> sr_limit q = kp_max_results (ad_knowledge d)"
| "authorized context agent d ceiling (CallExecute q) \<longleftrightarrow>
     cc_sandbox_execution_allowed ceiling \<and> ad_allow_execution d \<and> sq_context q = context \<and> sq_agent_id q = agent
     \<and> length (sq_arguments q) \<le> 32 \<and> list_all (\<lambda>a. length a \<le> 4096) (sq_arguments q)"
| "authorized context agent d ceiling _ \<longleftrightarrow> True"

lemma scope_within:
  assumes "intersect ceiling d = Inr effective"
  shows "set (rs_allowed_tool_ids (scope_from_definition sha256_hex d resolved effective))
      \<subseteq> set (cc_allowed_tool_ids ceiling) \<inter> set (ad_allowed_tool_ids d)"
    and "mp_enabled (rs_memory (scope_from_definition sha256_hex d resolved effective))
      \<Longrightarrow> cc_memory_enabled ceiling \<and> mp_enabled (ad_memory d)"
    and "kp_enabled (rs_knowledge (scope_from_definition sha256_hex d resolved effective))
      \<Longrightarrow> cc_knowledge_enabled ceiling \<and> kp_enabled (ad_knowledge d)"
    and "rs_allow_execution (scope_from_definition sha256_hex d resolved effective)
      \<Longrightarrow> cc_sandbox_execution_allowed ceiling \<and> ad_allow_execution d"
  using assms by (auto simp: intersect_def result_simps scope_from_definition_def Let_def sort_dedup_eq)

lemma scope_policies [simp]:
  "mp_max_items (rs_memory (scope_from_definition sha256_hex d resolved effective)) = mp_max_items (ad_memory d)"
  "kp_namespace (rs_knowledge (scope_from_definition sha256_hex d resolved effective)) = kp_namespace (ad_knowledge d)"
  "kp_max_results (rs_knowledge (scope_from_definition sha256_hex d resolved effective)) = kp_max_results (ad_knowledge d)"
  by (simp_all add: scope_from_definition_def Let_def)

lemma permitted_authorized:
  assumes "permitted context agent (scope_from_definition sha256_hex d resolved effective) e"
    and "intersect ceiling d = Inr effective"
  shows "authorized context agent d ceiling e"
  using assms(1) scope_within [OF assms(2), of sha256_hex resolved] by (cases e) auto

lemma guarded_trace_count: "guarded_trace t n \<Longrightarrow> length (filter is_effect t) \<le> n"
  by (induction rule: guarded_trace.induct) auto

lemma guarded_trace_order:
  "guarded_trace t n \<Longrightarrow>
     (\<forall>pre e post. t = pre @ e # post \<longrightarrow> is_effect e \<longrightarrow> (\<exists>us c. pre = us @ [CallPreflight c] \<and> passes c))
     \<and> (\<forall>pre c post. t = pre @ CallPreflight c # post \<longrightarrow> \<not> passes c \<longrightarrow> post = [])"
proof (induction rule: guarded_trace.induct)
  case (stopped c n)
  then show ?case by (auto simp: Cons_eq_append_conv)
next
  case (effect c e t n)
  then show ?case by (fastforce simp: Cons_eq_append_conv)
qed simp

lemma early_effects: "list_all early t \<Longrightarrow> filter is_effect t = []"
  by (auto simp: list_all_iff early_def filter_empty_conv)

lemma split_after:
  "us @ ys = pre @ e # post \<Longrightarrow> e \<notin> set us \<Longrightarrow> \<exists>v. pre = us @ v \<and> ys = v @ e # post"
  by (induction us arbitrary: pre) (auto simp: Cons_eq_append_conv)

text \<open>The two shapes of a trace, as the properties below use them.\<close>

lemma invoke_trace_cases:
  assumes "invoke_with_ceiling sha256_hex parse print (logged ports) registry context agent input ceiling (w, [])
      = (r, (w', log))"
  obtains (early) e where "r = Inl e" "list_all early log"
  | (reply) us c u n d resolved effective where "registry_get registry agent = Inr d"
      "intersect ceiling d = Inr effective" "log = us @ CallPreflight c # u" "list_all early us"
      "\<not> passes c \<longrightarrow> u = []" "guarded_trace u n" "bounded_plan d n"
      "list_all (permitted context agent (scope_from_definition sha256_hex d resolved effective)) u"
      "within_output d r"
proof -
  from emitsD [OF emits_invoke_with_ceiling assms] obtain t where "log = [] @ t"
    and t: "(\<exists>e. r = Inl e) \<and> t = [] \<or> (\<exists>d. registry_get registry agent = Inr d \<and> invocation_trace context agent d
             {scope_from_definition sha256_hex d resolved effective | resolved effective.
                intersect ceiling d = Inr effective} r t)" by blast
  then have "log = t" by simp
  from t that(1) show thesis unfolding \<open>log = t\<close>
    by (auto simp: invocation_trace_def reply_trace_def intro: that(2) [unfolded \<open>log = t\<close>])
qed

section \<open>Calls outside the capabilities\<close>

definition grantable :: "agent_definition_v1 \<Rightarrow> effective_capability_ceiling_v1 \<Rightarrow> string \<Rightarrow> bool" where
  "grantable d ceiling name \<longleftrightarrow>
     name \<in> set (cc_allowed_tool_ids ceiling) \<inter> set (ad_allowed_tool_ids d)
     \<or> name \<in> {MEMORY_RECALL_TOOL, MEMORY_WRITE_TOOL} \<and> cc_memory_enabled ceiling \<and> mp_enabled (ad_memory d)
     \<or> name = KNOWLEDGE_SEARCH_TOOL \<and> cc_knowledge_enabled ceiling \<and> kp_enabled (ad_knowledge d)
     \<or> name = SANDBOX_EXECUTE_TOOL \<and> cc_sandbox_execution_allowed ceiling \<and> ad_allow_execution d"

lemma gateway_ordinary_names:
  "gateway_ordinary parse print defs ordinary resolved = Inr (defs', ordinary') \<Longrightarrow>
     \<forall>n t. bt_get ordinary n = Some t \<longrightarrow> t = n \<Longrightarrow> bt_get ordinary' n = Some t \<Longrightarrow> t = n"
proof (induction resolved arbitrary: defs ordinary)
  case (Cons tool resolved)
  have name: "tool_name_new tool = Inr name \<Longrightarrow> name = tool" for name
    by (simp add: tool_name_new_def result_simps)
  from Cons.prems(1) have "tool_name_new tool = Inr tool"
    by (cases "tool_name_new tool") (auto dest: name split: if_splits)
  with Cons.prems(1) obtain def where
    "gateway_ordinary parse print (defs @ [def]) (bt_insert tool tool ordinary) resolved = Inr (defs', ordinary')"
    by (cases "gateway_tool parse print tool ''Agent tool'' STRING_ARGUMENT_SCHEMA") (simp_all split: if_splits)
  moreover have "\<forall>n t. bt_get (bt_insert tool tool ordinary) n = Some t \<longrightarrow> t = n"
    using Cons.prems(2) by (metis bt_get_insert fun_upd_apply option.inject)
  ultimately show ?case by (rule Cons.IH [OF _ _ Cons.prems(3)])
qed auto

lemma prepare_request_names:
  "prepare_request parse print d input resolved scope = Inr (request, ordinary) \<Longrightarrow>
     bt_get ordinary n = Some t \<Longrightarrow> t = n"
  by (auto simp: prepare_request_def gateway_tools_def result_simps dest: gateway_ordinary_names)

lemma plan_call_grantable:
  assumes "plan_call parse ordinary (scope_from_definition sha256_hex d resolved effective) call = Inr effect"
    and "\<And>n t. bt_get ordinary n = Some t \<Longrightarrow> t = n" and "intersect ceiling d = Inr effective"
  shows "grantable d ceiling (tc_name call)"
  using assms(1) assms(2) scope_within [OF assms(3), of sha256_hex resolved]
  by (auto simp: plan_call_def Let_def grantable_def split: option.splits if_splits)

lemma plan_response_denied:
  assumes "\<not> grantable d ceiling (tc_name call)" and "call \<in> set (gp_tool_calls response)"
    and "\<And>n t. bt_get ordinary n = Some t \<Longrightarrow> t = n" and "intersect ceiling d = Inr effective"
  shows "\<exists>e. plan_response parse d ordinary (scope_from_definition sha256_hex d resolved effective) response = Inl e"
proof (rule ccontr)
  assume "\<nexists>e. plan_response parse d ordinary (scope_from_definition sha256_hex d resolved effective) response = Inl e"
  then obtain plan where "try_map (plan_call parse ordinary (scope_from_definition sha256_hex d resolved effective))
      (gp_tool_calls response) = Inr plan"
    by (cases "plan_response parse d ordinary (scope_from_definition sha256_hex d resolved effective) response")
      (auto simp: plan_response_def Let_def result_simps split: if_splits)
  then obtain effect where "plan_call parse ordinary (scope_from_definition sha256_hex d resolved effective) call = Inr effect"
    using assms(2) by (auto simp: try_map_Inr list_all2_conv_all_nth in_set_conv_nth)
  from plan_call_grantable [OF this assms(3,4)] assms(1) show False by simp
qed

abbreviation refused :: "(invocation_result, definition_error) result \<Rightarrow> port_call list \<Rightarrow> bool" where
  "refused r t \<equiv> (\<exists>e. r = Inl e) \<and> filter is_effect t = []"

lemma emits_denied_response:
  assumes "plan_response parse d ordinary scope response = Inl e"
  shows "emits (apply_response parse (logged ports) context agent d scope ordinary response) refused"
  unfolding apply_response_def assms
  by (rule emits_then [OF emits_preflight]) (auto intro!: emits_of_then)

lemma emits_denied:
  assumes "\<And>q v. fst (port_generate ports q v) = Inr response"
    and "\<not> grantable d ceiling (tc_name call)" and "call \<in> set (gp_tool_calls response)"
  shows "emits (invoke_definition sha256_hex parse print (logged ports) context agent input d ceiling) refused"
proof -
  have generate: "emits (io_generate (logged ports) q) (\<lambda>r t. t = [CallGenerate q] \<and> r = Inr response)" for q
    using assms(1) by (auto simp: emits_def io_generate_def logged_def note_call_def split: prod.splits)
      (metis fst_conv map_err.simps(2))
  have model: "emits (invoke_model parse print (logged ports) context agent input d resolved
      (scope_from_definition sha256_hex d resolved effective)) (\<lambda>r s. refused r (t @ s))"
    if "filter is_effect t = []" "intersect ceiling d = Inr effective" for resolved effective t
    unfolding invoke_model_def
  proof (rule emits_of_then, use that in simp, clarify, rule emits_then [OF generate])
    fix request ordinary response' s
    assume "prepare_request parse print d input resolved (scope_from_definition sha256_hex d resolved effective)
        = Inr (request, ordinary)" and s: "s = [CallGenerate request] \<and> Inr response' = Inr response"
    from plan_response_denied [OF assms(2,3) prepare_request_names [OF this(1)] that(2)]
    obtain e where "plan_response parse d ordinary (scope_from_definition sha256_hex d resolved effective) response = Inl e"
      by blast
    from emits_denied_response [OF this] s that(1)
    show "emits (apply_response parse (logged ports) context agent d
        (scope_from_definition sha256_hex d resolved effective) ordinary response')
        (\<lambda>r sa. refused r (t @ s @ sa))" by (auto elim!: emits_mono)
  qed (use that in auto)
  have resolve: "emits (resolve_all (logged ports) ids) (\<lambda>r t. filter is_effect t = [])" for ids
    by (rule emits_mono [OF emits_resolve_all]) (auto simp: list_all_iff filter_empty_conv)
  show ?thesis
    unfolding invoke_definition_def
    by (auto intro!: emits_of emits_of_then emits_then [OF resolve] model)
qed

text \<open>Each effect in the record of an invocation is authorized, and they are bounded in number.\<close>

lemma effects_authorized:
  assumes "invoke_with_ceiling sha256_hex parse print (logged ports) registry context agent input ceiling (w, [])
      = (r, (w', log))"
    and "e \<in> set log" and "is_effect e"
  shows "\<exists>d. registry_get registry agent = Inr d \<and> authorized context agent d ceiling e
    \<and> length (filter is_effect log) \<le> min 64 (unat (el_max_tool_calls (ad_limits d)))"
  using assms(1)
proof (cases rule: invoke_trace_cases)
  case (reply us c u n d resolved effective)
  with assms(2,3) have "e \<in> set u" by (auto simp: early_def list_all_iff)
  with reply have "authorized context agent d ceiling e"
    by (auto simp: list_all_iff intro: permitted_authorized)
  moreover from reply guarded_trace_count [OF reply(6)]
  have "length (filter is_effect log) \<le> n" by (simp add: early_effects)
  ultimately show ?thesis using reply(1,7) by (auto simp: bounded_plan_def)
qed (use assms in \<open>auto simp: list_all_iff early_def\<close>)

section \<open>Properties\<close>

text \<open>C7: Whatever the model, the ports and the environment do, every effect of an invocation is one
  that both the definition and the ceiling allow, is made in the caller's context and with
  bounded arguments, and there are at most as many as the definition's tool call limit and 64.\<close>

theorem invocation_effects_authorized:
  assumes "invoke_with_ceiling sha256_hex parse print (logged ports) registry context agent input ceiling (w, [])
      = (r, (w', log))"
    and "e \<in> set log" and "is_effect e"
  shows "\<exists>d. registry_get registry agent = Inr d \<and> authorized context agent d ceiling e
    \<and> length (filter is_effect log) \<le> min 64 (unat (el_max_tool_calls (ad_limits d)))"
  by (rule effects_authorized [OF assms])

text \<open>Every effect of an invocation comes directly after a reading of the control that is
  neither cancelled nor past its deadline, and after a reading that is, nothing more is done.\<close>

lemma invocation_effects_follow_preflight:
  assumes "invoke_with_ceiling sha256_hex parse print (logged ports) registry context agent input ceiling (w, [])
      = (r, (w', log))"
  shows "(\<forall>pre e post. log = pre @ e # post \<longrightarrow> is_effect e \<longrightarrow>
       (\<exists>us c. pre = us @ [CallPreflight c] \<and> \<not> is_cancelled c \<and> \<not> is_elapsed c))
    \<and> (\<forall>pre c post. log = pre @ CallPreflight c # post \<longrightarrow> is_cancelled c \<or> is_elapsed c \<longrightarrow> post = [])"
  using assms
proof (cases rule: invoke_trace_cases)
  case (early e)
  then show ?thesis by (auto simp: list_all_iff early_def)
next
  case (reply us c u n d resolved effective)
  note order = guarded_trace_order [OF reply(6), unfolded passes_def]
  have us: "\<not> is_effect x" "x \<noteq> CallPreflight c'" if "x \<in> set us" for x c'
    using that reply(4) by (auto simp: list_all_iff early_def)
  show ?thesis
  proof (intro conjI allI impI)
    fix pre e post
    assume log: "log = pre @ e # post" and e: "is_effect e"
    from split_after [of us "CallPreflight c # u" pre e post] log reply(3) us(1) [of e] e
    obtain v where "pre = us @ CallPreflight c # v" "u = v @ e # post"
      by (cases "e = CallPreflight c") (auto simp: Cons_eq_append_conv)
    moreover from order e this(2) obtain us' c' where "v = us' @ [CallPreflight c']"
        "\<not> is_cancelled c'" "\<not> is_elapsed c'" by blast
    ultimately show "\<exists>us c. pre = us @ [CallPreflight c] \<and> \<not> is_cancelled c \<and> \<not> is_elapsed c"
      by (intro exI [of _ "us @ CallPreflight c # us'"]) auto
  next
    fix pre c' post
    assume log: "log = pre @ CallPreflight c' # post" and stop: "is_cancelled c' \<or> is_elapsed c'"
    have "CallPreflight c' \<notin> set us" using us(2) by blast
    with split_after [of us "CallPreflight c # u" pre "CallPreflight c'" post] log reply(3)
    obtain v where v: "CallPreflight c # u = v @ CallPreflight c' # post" by auto
    show "post = []"
    proof (cases v)
      case Nil
      with v stop reply(5) show ?thesis by (auto simp: passes_def)
    next
      case (Cons x v')
      with v have "u = v' @ CallPreflight c' # post" by simp
      with order stop show ?thesis by blast
    qed
  qed
qed

text \<open>The text of a successful invocation and the outputs of its effects together are at most
  the output bytes the definition allows.\<close>

lemma invocation_output_bounded:
  assumes "invoke_with_ceiling sha256_hex parse print (logged ports) registry context agent input ceiling (w, [])
      = (Inr result, (w', log))"
  shows "\<exists>d. registry_get registry agent = Inr d
    \<and> length (ir_output result) + sum_list (map event_bytes (ir_events result))
      \<le> unat (el_max_output_bytes (ad_limits d))"
  using assms
  by (cases rule: invoke_trace_cases) (auto simp: within_output_def events_bytes_def)

text \<open>C22: The plan is all or nothing: if any of the model's calls names something that the definition
  and the ceiling do not both grant, the invocation fails and none of the calls is executed,
  not even those before it.\<close>

theorem denied_call_runs_nothing:
  assumes "\<And>q v. fst (port_generate ports q v) = Inr response"
    and "call \<in> set (gp_tool_calls response)"
    and "registry_get registry agent = Inr d" and "\<not> grantable d ceiling (tc_name call)"
    and "invoke_with_ceiling sha256_hex parse print (logged ports) registry context agent input ceiling (w, [])
      = (r, (w', log))"
  shows "(\<exists>e. r = Inl e) \<and> filter is_effect log = []"
proof -
  have "emits (invoke_with_ceiling sha256_hex parse print (logged ports) registry context agent input ceiling) refused"
    unfolding invoke_with_ceiling_def assms(3)
    by (intro emits_of_then) (auto intro!: emits_denied [OF assms(1,4,2)])
  from emitsD [OF this assms(5)] show ?thesis by auto
qed

definition demo_evidence :: generation_evidence where
  "demo_evidence = \<lparr>ge_provider_id = ''p'', ge_model_id = ''m'', ge_provider_request_id = None,
     ge_finish_reason = ToolCalls, ge_token_usage = None, ge_idempotency = IdemUnsupported\<rparr>"

definition demo_ports :: "string agent_ports" where
  "demo_ports =
     \<lparr>port_resolve = (\<lambda>i w. (Inr i, w)),
      port_generate = (\<lambda>q w. (Inr \<lparr>gp_text = ''done'', gp_tool_calls = [\<lparr>tc_name = ''t1'', tc_arguments = ''args''\<rparr>,
          \<lparr>tc_name = ''t1'', tc_arguments = ''args''\<rparr>],
        gp_evidence = demo_evidence\<rparr>, w)),
      port_control = (\<lambda>w. (\<lparr>is_cancelled = (w = ''xx''), is_elapsed = False\<rparr>, w)),
      port_invoke = (\<lambda>t q w. (Inr t, ''x'' @ w)),
      port_recall = (\<lambda>q w. (Inr [], w)), port_write = (\<lambda>q v w. (Inr (), w)),
      port_search = (\<lambda>q w. (Inr [], w)), port_execute = (\<lambda>q w. (Inl SandboxDenied, w))\<rparr>"

definition demo_parse :: json_parse where
  "demo_parse s = Some (JObject (if s = ''args'' then [(''input'', JString ''hello'')]
     else [(''type'', JString ''object'')]))"

definition demo_registry :: agent_registry where
  "demo_registry = \<lparr>ar_builtins = [(''a1'', demo_definition)], ar_store = definition_store_default,
     ar_catalog = demo_catalog\<rparr>"

definition demo_context :: invocation_context_v1 where
  "demo_context = \<lparr>ic_tenant_id = ''t'', ic_principal_id = ''p'', ic_request_id = ''r'', ic_correlation_id = ''c''\<rparr>"

definition demo_ceiling :: effective_capability_ceiling_v1 where
  "demo_ceiling = \<lparr>cc_allowed_tool_ids = [''t1''], cc_memory_enabled = False, cc_knowledge_enabled = False,
     cc_sandbox_execution_allowed = False, cc_communication_allowed = False\<rparr>"

definition demo_scope :: resolved_capability_scope where
  "demo_scope = scope_from_definition (\<lambda>_. ''h'') demo_definition [''t1''] demo_ceiling"

lemma demo_scope [simp]:
  "rs_allowed_tool_ids demo_scope = [''t1'']" "\<not> mp_enabled (rs_memory demo_scope)"
  "\<not> kp_enabled (rs_knowledge demo_scope)" "\<not> rs_allow_execution demo_scope"
  "rs_limits demo_scope = ad_limits demo_definition"
  by (simp_all add: demo_scope_def scope_from_definition_def Let_def demo_ceiling_def sort_dedup_def)

lemma demo_get: "registry_get demo_registry ''a1'' = Inr demo_definition"
  by (simp add: registry_get_def demo_registry_def)

lemma demo_intersect:
  "validate_effective_capability_ceiling demo_ceiling = Inr ()" "intersect demo_ceiling demo_definition = Inr demo_ceiling"
  by (simp_all add: intersect_def validate_effective_capability_ceiling_def demo_ceiling_def demo_definition_def
      demo_references MAX_CAPABILITY_REFERENCES_def sort_dedup_def)

lemma demo_prepare:
  "\<exists>request. prepare_request demo_parse (\<lambda>_. ''{}'') demo_definition ''hi'' [''t1''] demo_scope
     = Inr (request, [(''t1'', ''t1'')])"
proof -
  have tool: "gateway_tool demo_parse (\<lambda>_. ''{}'') ''t1'' ''Agent tool'' schema
      = Inr \<lparr>td_name = ''t1'', td_description = ''Agent tool'', td_input_schema = ''{}''\<rparr>" if "schema \<noteq> ''args''" for schema
    using that by (simp add: gateway_tool_def json_object_new_def canonical_object_def demo_parse_def
        tool_definition_new_def validate_object_schema_def validate_len_def MAX_JSON_OBJECT_BYTES_def
        MAX_TOOL_DESCRIPTION_BYTES_def bt_contains_key_def Let_def)
  have name: "tool_name_new ''t1'' = Inr ''t1''" "Gateway.identifier_new ''p'' = Inr ''p''"
      "Gateway.identifier_new ''m'' = Inr ''m''" "''t1'' \<notin> set RESERVED_TOOL_NAMES"
    by (simp_all add: tool_name_new_def validate_tool_name_def validate_len_def MAX_TOOL_NAME_BYTES_def
        Gateway.identifier_new_def Gateway.validate_identifier_def Gateway.MAX_IDENTIFIER_BYTES_def tool_name_byte_def
        ascii_defs less_eq_char_def RESERVED_TOOL_NAMES_def MEMORY_RECALL_TOOL_def MEMORY_WRITE_TOOL_def
        KNOWLEDGE_SEARCH_TOOL_def SANDBOX_EXECUTE_TOOL_def)
  have "gateway_tools demo_parse (\<lambda>_. ''{}'') [''t1''] demo_scope
      = Inr ([\<lparr>td_name = ''t1'', td_description = ''Agent tool'', td_input_schema = ''{}''\<rparr>], [(''t1'', ''t1'')])"
    using tool [of STRING_ARGUMENT_SCHEMA] name
    by (simp add: gateway_tools_def gateway_reserved_def bt_contains_key_def STRING_ARGUMENT_SCHEMA_def)
  with name show ?thesis
    by (simp add: prepare_request_def parse_model_reference_def demo_definition_def prompt_new_def validate_len_def
        checked_sum_eq generation_limits_new_def generate_request_new_def MAX_PROMPT_TEXT_BYTES_def MAX_PROMPT_BYTES_def
        MAX_OUTPUT_TOKENS_def MAX_TOOLS_def MAX_TOOL_SCHEMAS_BYTES_def usize_max_def)
qed

lemma demo_plan: "plan_call demo_parse [(''t1'', ''t1'')] demo_scope \<lparr>tc_name = ''t1'', tc_arguments = ''args''\<rparr>
    = Inr (PlanTool ''t1'' ''hello'')"
  by (simp add: plan_call_def bounded_string_def strict_string_argument_def argument_object_def demo_parse_def
      runtime_limits)

lemma demo_invoke:
  "\<exists>request. invoke_with_ceiling (\<lambda>_. ''h'') demo_parse (\<lambda>_. ''{}'') (logged demo_ports) demo_registry demo_context ''a1'' ''hi''
     demo_ceiling (w, [])
   = apply_response demo_parse (logged demo_ports) demo_context ''a1'' demo_definition demo_scope [(''t1'', ''t1'')]
       \<lparr>gp_text = ''done'', gp_tool_calls = [\<lparr>tc_name = ''t1'', tc_arguments = ''args''\<rparr>,
          \<lparr>tc_name = ''t1'', tc_arguments = ''args''\<rparr>], gp_evidence = demo_evidence\<rparr>
       (w, [CallResolve ''t1'', CallGenerate request])"
proof -
  obtain request where "prepare_request demo_parse (\<lambda>_. ''{}'') demo_definition ''hi'' [''t1''] demo_scope
     = Inr (request, [(''t1'', ''t1'')])" using demo_prepare by blast
  then show ?thesis
    by (intro exI [of _ request]) (simp add: invoke_with_ceiling_def invoke_definition_def invoke_model_def io_then_def
        io_of_def demo_get demo_intersect MAX_INPUT_BYTES_def demo_ceiling_def [THEN arg_cong [of _ _ cc_allowed_tool_ids]]
        logged_def note_call_def demo_ports_def io_generate_def demo_scope_def [symmetric])
qed

lemma demo_readings [simp]:
  "preflight \<lparr>is_cancelled = b, is_elapsed = False\<rparr> = (if b then Inl llm_error.Cancelled else Inr ())"
  by (simp add: preflight_def)

lemma demo_log:
  "\<exists>request q. invoke_with_ceiling (\<lambda>_. ''h'') demo_parse (\<lambda>_. ''{}'') (logged demo_ports) demo_registry demo_context
     ''a1'' ''hi'' demo_ceiling (''x'', []) = (Inl definition_error.Cancelled, ''xx'',
       [CallResolve ''t1'', CallGenerate request, CallPreflight \<lparr>is_cancelled = False, is_elapsed = False\<rparr>,
        CallPreflight \<lparr>is_cancelled = False, is_elapsed = False\<rparr>, CallTool ''t1'' q,
        CallPreflight \<lparr>is_cancelled = True, is_elapsed = False\<rparr>])"
  using demo_invoke [of "''x''"]
  by (auto simp: apply_response_def io_then_def io_of_def io_preflight_def run_effect_def effect_call_def
      logged_def note_call_def demo_ports_def plan_response_def demo_plan demo_definition_def Agent.MAX_TOOL_CALLS_def
      checked_output_bytes_def usize_checked_add_def usize_max_def)

lemma demo_success:
  "\<exists>result w' log. invoke_with_ceiling (\<lambda>_. ''h'') demo_parse (\<lambda>_. ''{}'') (logged demo_ports) demo_registry demo_context
     ''a1'' ''hi'' demo_ceiling ([], []) = (Inr result, w', log) \<and> ir_output result = ''done''"
  using demo_invoke [of "[]"]
  by (auto simp: apply_response_def io_then_def io_of_def io_preflight_def run_effect_def effect_call_def
      logged_def note_call_def demo_ports_def plan_response_def demo_plan demo_definition_def Agent.MAX_TOOL_CALLS_def
      checked_output_bytes_def usize_checked_add_def usize_max_def)

theorem invocation_effects_authorized_witness:
  "\<exists>log q. snd (snd (invoke_with_ceiling (\<lambda>_. ''h'') demo_parse (\<lambda>_. ''{}'') (logged demo_ports) demo_registry demo_context
       ''a1'' ''hi'' demo_ceiling (''x'', []))) = log \<and> CallTool ''t1'' q \<in> set log
     \<and> authorized demo_context ''a1'' demo_definition demo_ceiling (CallTool ''t1'' q)"
proof -
  obtain w' log q r where run: "invoke_with_ceiling (\<lambda>_. ''h'') demo_parse (\<lambda>_. ''{}'') (logged demo_ports) demo_registry
      demo_context ''a1'' ''hi'' demo_ceiling (''x'', []) = (r, (w', log))" "CallTool ''t1'' q \<in> set log"
    using demo_log by fastforce
  from invocation_effects_authorized [OF run] run demo_get show ?thesis
    by (intro exI [of _ log] exI [of _ q]) auto
qed

lemma invocation_effects_follow_preflight_witness:
  "\<exists>log c. snd (snd (invoke_with_ceiling (\<lambda>_. ''h'') demo_parse (\<lambda>_. ''{}'') (logged demo_ports) demo_registry demo_context
       ''a1'' ''hi'' demo_ceiling (''x'', []))) = log @ [CallPreflight c] \<and> is_cancelled c \<and> length log = 5"
proof -
  obtain w' log pre c r where run: "invoke_with_ceiling (\<lambda>_. ''h'') demo_parse (\<lambda>_. ''{}'') (logged demo_ports) demo_registry
      demo_context ''a1'' ''hi'' demo_ceiling (''x'', []) = (r, (w', log))" "log = pre @ CallPreflight c # []"
      "is_cancelled c" "length pre = 5"
    using demo_log by (fastforce simp: Cons_eq_append_conv intro: that
        [where c = "\<lparr>is_cancelled = True, is_elapsed = False\<rparr>"])
  from invocation_effects_follow_preflight [OF run(1)] run show ?thesis
    by (intro exI [of _ pre] exI [of _ c]) auto
qed

lemma invocation_output_bounded_witness:
  "\<exists>result. fst (invoke_with_ceiling (\<lambda>_. ''h'') demo_parse (\<lambda>_. ''{}'') (logged demo_ports) demo_registry demo_context
       ''a1'' ''hi'' demo_ceiling ([], [])) = Inr result
     \<and> length (ir_output result) + sum_list (map event_bytes (ir_events result)) \<le> 100"
proof -
  obtain result w' log where run: "invoke_with_ceiling (\<lambda>_. ''h'') demo_parse (\<lambda>_. ''{}'') (logged demo_ports)
      demo_registry demo_context ''a1'' ''hi'' demo_ceiling ([], []) = (Inr result, (w', log))"
    using demo_success by (metis surj_pair)
  from invocation_output_bounded [OF run] demo_get run show ?thesis by (auto simp: demo_definition_def)
qed

theorem denied_call_runs_nothing_witness:
  "filter is_effect (snd (snd (invoke_with_ceiling (\<lambda>_. ''h'') demo_parse (\<lambda>_. ''{}'') (logged demo_ports) demo_registry
     demo_context ''a1'' ''hi'' (demo_ceiling\<lparr>cc_allowed_tool_ids := [''t2'']\<rparr>) ([], [])))) = []"
proof -
  let ?ceiling = "demo_ceiling\<lparr>cc_allowed_tool_ids := [''t2'']\<rparr>"
  let ?call = "\<lparr>tc_name = ''t1'', tc_arguments = ''args''\<rparr>"
  let ?response = "\<lparr>gp_text = ''done'', gp_tool_calls = [?call, ?call], gp_evidence = demo_evidence\<rparr>"
  obtain r w' log where run: "invoke_with_ceiling (\<lambda>_. ''h'') demo_parse (\<lambda>_. ''{}'') (logged demo_ports)
      demo_registry demo_context ''a1'' ''hi'' ?ceiling ([], []) = (r, (w', log))" by (metis surj_pair)
  have "\<not> grantable demo_definition ?ceiling (tc_name ?call)"
    by (simp add: grantable_def demo_ceiling_def MEMORY_RECALL_TOOL_def MEMORY_WRITE_TOOL_def
        KNOWLEDGE_SEARCH_TOOL_def SANDBOX_EXECUTE_TOOL_def)
  from denied_call_runs_nothing [of demo_ports ?response ?call, OF _ _ demo_get this run] run show ?thesis
    by (simp add: demo_ports_def)
qed

end
