(* ===== verification/Evaluation.thy ===== *)
theory Evaluation
  imports Contracts
begin

text \<open>
  The evaluation crate: evaluators' definitions, terminal evidence and results
  (\<open>evaluation/src/model.rs\<close>) and their validation (\<open>validation.rs\<close>), canonical encodings and
  digests (\<open>canonical.rs\<close>), the deterministic evaluator and the service over a reader, an executor
  and a store (\<open>service.rs\<close>, \<open>local.rs\<close>), the adapter of the scoring framework
  (\<open>serdes_ai_evals.rs\<close>), the in-memory store (\<open>memory.rs\<close>) and the settings (\<open>settings.rs\<close>).
  SHA-256 and the framework's scorers are parameters.
\<close>

section \<open>Data\<close>

definition MAX_LOGICAL_ID_BYTES :: nat where "MAX_LOGICAL_ID_BYTES = 128"
definition MAX_EVALUATOR_VERSION_BYTES :: nat where "MAX_EVALUATOR_VERSION_BYTES = 128"
definition SHA256_HEX_BYTES :: nat where "SHA256_HEX_BYTES = 64"
definition MAX_CRITERIA :: nat where "MAX_CRITERIA = 16"
definition MAX_EVENTS :: nat where "MAX_EVENTS = 64"
definition MAX_EXPECTED_BYTES :: nat where "MAX_EXPECTED_BYTES = 16 * 1024"
definition MAX_EVENT_BYTES :: nat where "MAX_EVENT_BYTES = 4 * 1024"
definition MAX_SNAPSHOT_BYTES :: nat where "MAX_SNAPSHOT_BYTES = 64 * 1024"
definition MAX_FINDINGS :: nat where "MAX_FINDINGS = 32"
definition MAX_FINDING_BYTES :: nat where "MAX_FINDING_BYTES = 4 * 1024"
definition MAX_RESULTS_PER_TENANT :: nat where "MAX_RESULTS_PER_TENANT = 1024"
definition MAX_RESULTS_GLOBAL :: nat where "MAX_RESULTS_GLOBAL = 4096"

datatype evaluation_error =
    InvalidRequest | InvalidDefinition | NotFound | Conflict | LimitExceeded | MalformedEvidence | AdapterFailure

datatype eval_public_error_code =
    PubInvalidRequest | PubInvalidDefinition | PubNotFound | PubConflict | PubLimitExceeded | PubOperationFailed

fun eval_public_code :: "evaluation_error \<Rightarrow> eval_public_error_code" where
  "eval_public_code InvalidRequest = PubInvalidRequest"
| "eval_public_code InvalidDefinition = PubInvalidDefinition"
| "eval_public_code NotFound = PubNotFound"
| "eval_public_code Conflict = PubConflict"
| "eval_public_code LimitExceeded = PubLimitExceeded"
| "eval_public_code MalformedEvidence = PubOperationFailed"
| "eval_public_code AdapterFailure = PubOperationFailed"

datatype criterion_v1 =
    ExactOutput string
  | EventKindCount string u32
  | EventDataEquals u64 string

record evaluation_definition_v1 =
  ed_evaluator_id :: string
  ed_evaluator_version :: string
  ed_criteria :: "criterion_v1 list"

record evidence_event_v1 =
  ev_sequence :: u64
  ev_kind :: string
  ev_data :: string

datatype terminal_status = StatusSucceeded | StatusFailed | StatusCancelled
datatype terminal_reason = ReasonCompleted | ReasonInvocationFailed | ReasonCancelled

record terminal_evidence_snapshot_v1 =
  ts_tenant_id :: string
  ts_run_id :: string
  ts_workflow_id :: string
  ts_workflow_version :: string
  ts_run_revision :: u64
  ts_terminal_status :: terminal_status
  ts_terminal_reason :: terminal_reason
  ts_attempt_id :: string
  ts_agent_id :: string
  ts_capability_scope_digest :: string
  ts_output :: string
  ts_events :: "evidence_event_v1 list"

datatype logical_evaluation_key = LogicalEvaluationKey
  (lk_tenant_id: string) (lk_evaluator_id: string) (lk_evaluator_version: string)
  (lk_criterion_digest: string) (lk_workflow_run_id: string) (lk_workflow_revision: u64)

text \<open>The derived order compares the fields in the order of their declaration.\<close>

fun lk_tuple :: "logical_evaluation_key \<Rightarrow> string \<times> string \<times> string \<times> string \<times> string \<times> u64" where
  "lk_tuple (LogicalEvaluationKey t e v c r n) = (t, e, v, c, r, n)"

lemma lk_tuple_inject: "lk_tuple a = lk_tuple b \<longleftrightarrow> a = b"
  by (cases a; cases b) simp

instantiation logical_evaluation_key :: linorder
begin

definition less_eq_logical_evaluation_key :: "logical_evaluation_key \<Rightarrow> logical_evaluation_key \<Rightarrow> bool" where
  "less_eq_logical_evaluation_key a b \<longleftrightarrow> lk_tuple a \<le> lk_tuple b"

definition less_logical_evaluation_key :: "logical_evaluation_key \<Rightarrow> logical_evaluation_key \<Rightarrow> bool" where
  "less_logical_evaluation_key a b \<longleftrightarrow> lk_tuple a < lk_tuple b"

instance
  by standard
    (auto simp: less_eq_logical_evaluation_key_def less_logical_evaluation_key_def lk_tuple_inject [symmetric])

end

datatype verdict = Pass | Fail | ErrorVerdict

record evaluator_assessment_v1 =
  ea_verdict :: verdict
  ea_findings :: "string list"

record evaluation_result_v1 =
  er_logical_key :: logical_evaluation_key
  er_evidence_digest :: string
  er_verdict :: verdict
  er_findings :: "string list"
  er_content_hash :: string

datatype create_or_match_outcome = Created evaluation_result_v1 | Existing evaluation_result_v1 | KeyConflict

section \<open>Validation\<close>

definition is_logical_id :: "string \<Rightarrow> bool" where
  "is_logical_id value \<longleftrightarrow> length value \<le> MAX_LOGICAL_ID_BYTES
     \<and> first_rest lower_or_digit
         (\<lambda>b. is_ascii_lowercase b \<or> is_ascii_digit b \<or> b = CHR ''_'' \<or> b = CHR ''-'') value"

definition is_evaluator_version :: "string \<Rightarrow> bool" where
  "is_evaluator_version value \<longleftrightarrow> value \<noteq> [] \<and> length value \<le> MAX_EVALUATOR_VERSION_BYTES
     \<and> list_all (\<lambda>b. is_ascii_alphanumeric b \<or> b = CHR ''.'' \<or> b = CHR ''_'' \<or> b = CHR ''-'') value"

definition is_sha256 :: "string \<Rightarrow> bool" where
  "is_sha256 value \<longleftrightarrow> length value = SHA256_HEX_BYTES
     \<and> list_all (\<lambda>b. is_ascii_digit b \<or> CHR ''a'' \<le> b \<and> b \<le> CHR ''f'') value"

fun validate_criterion :: "criterion_v1 \<Rightarrow> (unit, evaluation_error) result" where
  "validate_criterion (ExactOutput expected) =
     (if length expected > MAX_EXPECTED_BYTES then Inl LimitExceeded else Inr ())"
| "validate_criterion (EventDataEquals _ expected) =
     (if length expected > MAX_EXPECTED_BYTES then Inl LimitExceeded else Inr ())"
| "validate_criterion (EventKindCount kind _) =
     (if kind = [] \<or> length kind > MAX_EVENT_BYTES then Inl InvalidDefinition else Inr ())"

definition validate_definition :: "evaluation_definition_v1 \<Rightarrow> (unit, evaluation_error) result" where
  "validate_definition d =
     (if \<not> is_logical_id (ed_evaluator_id d) \<or> \<not> is_evaluator_version (ed_evaluator_version d)
         \<or> length (ed_criteria d) > MAX_CRITERIA
      then Inl InvalidDefinition
      else try_fold (\<lambda>_ criterion. validate_criterion criterion) () (ed_criteria d))"

text \<open>\<open>ilog10\<close> of the standard library, and the number of decimal digits.\<close>

fun ilog10 :: "nat \<Rightarrow> nat" where
  "ilog10 n = (if n < 10 then 0 else Suc (ilog10 (n div 10)))"

declare ilog10.simps [simp del]

definition decimal_len :: "nat \<Rightarrow> nat" where
  "decimal_len value = (if value = 0 then 1 else ilog10 value + 1)"

definition decimal_len_u64 :: "u64 \<Rightarrow> nat" where
  "decimal_len_u64 value = (if value = 0 then 1 else ilog10 (unat value) + 1)"

definition add_field_len :: "nat \<Rightarrow> nat \<Rightarrow> (nat, evaluation_error) result" where
  "add_field_len acc value_len =
     and_then (ok_or (Option.bind (usize_checked_add (decimal_len value_len) 2)
       (\<lambda>len. usize_checked_add len value_len)) LimitExceeded) (\<lambda>field_len.
     ok_or (usize_checked_add acc field_len) LimitExceeded)"

fun status_name :: "terminal_status \<Rightarrow> string" where
  "status_name StatusSucceeded = ''succeeded''"
| "status_name StatusFailed = ''failed''"
| "status_name StatusCancelled = ''cancelled''"

fun reason_name :: "terminal_reason \<Rightarrow> string" where
  "reason_name ReasonCompleted = ''completed''"
| "reason_name ReasonInvocationFailed = ''invocation_failed''"
| "reason_name ReasonCancelled = ''cancelled''"

fun verdict_name :: "verdict \<Rightarrow> string" where
  "verdict_name Pass = ''pass''"
| "verdict_name Fail = ''fail''"
| "verdict_name ErrorVerdict = ''error''"

fun error_name :: "evaluation_error \<Rightarrow> string" where
  "error_name InvalidRequest = ''invalid_request''"
| "error_name InvalidDefinition = ''invalid_definition''"
| "error_name NotFound = ''not_found''"
| "error_name Conflict = ''conflict''"
| "error_name LimitExceeded = ''limit_exceeded''"
| "error_name MalformedEvidence = ''malformed_evidence''"
| "error_name AdapterFailure = ''operation_failed''"

definition snapshot_canonical_len :: "terminal_evidence_snapshot_v1 \<Rightarrow> (nat, evaluation_error) result" where
  "snapshot_canonical_len s =
     and_then (try_fold add_field_len 0
       [2, length (ts_tenant_id s), length (ts_run_id s), length (ts_workflow_id s),
        length (ts_workflow_version s), decimal_len_u64 (ts_run_revision s),
        length (status_name (ts_terminal_status s)), length (reason_name (ts_terminal_reason s)),
        length (ts_attempt_id s), length (ts_agent_id s), length (ts_capability_scope_digest s),
        length (ts_output s), decimal_len (length (ts_events s))]) (\<lambda>acc.
     try_fold (\<lambda>acc event. try_fold add_field_len acc
         [decimal_len_u64 (ev_sequence event), length (ev_kind event), length (ev_data event)])
       acc (ts_events s))"

fun status_matches :: "terminal_status \<Rightarrow> terminal_reason \<Rightarrow> bool" where
  "status_matches StatusSucceeded ReasonCompleted \<longleftrightarrow> True"
| "status_matches StatusFailed ReasonInvocationFailed \<longleftrightarrow> True"
| "status_matches StatusCancelled ReasonCancelled \<longleftrightarrow> True"
| "status_matches _ _ \<longleftrightarrow> False"

text \<open>\<open>(index + 1) as u64\<close>; indexes stay below \<open>MAX_EVENTS\<close>.\<close>

fun check_events :: "nat \<Rightarrow> evidence_event_v1 list \<Rightarrow> (unit, evaluation_error) result" where
  "check_events index [] = Inr ()"
| "check_events index (event # rest) =
     (if ev_sequence event \<noteq> word_of_nat (index + 1) \<or> ev_kind event = []
         \<or> length (ev_kind event) + length (ev_data event) > MAX_EVENT_BYTES
      then Inl MalformedEvidence else check_events (index + 1) rest)"

definition validate_and_bound_snapshot :: "terminal_evidence_snapshot_v1 \<Rightarrow> (nat, evaluation_error) result" where
  "validate_and_bound_snapshot s =
     (if \<not> is_logical_id (ts_tenant_id s) \<or> \<not> is_logical_id (ts_run_id s) \<or> \<not> is_logical_id (ts_workflow_id s)
         \<or> \<not> is_evaluator_version (ts_workflow_version s) \<or> \<not> is_logical_id (ts_attempt_id s)
         \<or> \<not> is_logical_id (ts_agent_id s) \<or> length (ts_output s) > MAX_EXPECTED_BYTES
         \<or> length (ts_events s) > MAX_EVENTS \<or> \<not> is_sha256 (ts_capability_scope_digest s)
         \<or> \<not> status_matches (ts_terminal_status s) (ts_terminal_reason s)
      then Inl MalformedEvidence
      else and_then (check_events 0 (ts_events s)) (\<lambda>_.
        and_then (snapshot_canonical_len s) (\<lambda>len.
          if len \<le> MAX_SNAPSHOT_BYTES then Inr len else Inl LimitExceeded)))"

definition validate_snapshot :: "terminal_evidence_snapshot_v1 \<Rightarrow> (unit, evaluation_error) result" where
  "validate_snapshot s = and_then (validate_and_bound_snapshot s) (\<lambda>_. Inr ())"

definition validate_logical_key :: "logical_evaluation_key \<Rightarrow> (unit, evaluation_error) result" where
  "validate_logical_key key =
     (if is_logical_id (lk_tenant_id key) \<and> is_logical_id (lk_evaluator_id key)
         \<and> is_evaluator_version (lk_evaluator_version key) \<and> is_sha256 (lk_criterion_digest key)
         \<and> is_logical_id (lk_workflow_run_id key)
      then Inr () else Inl InvalidRequest)"

definition validate_assessment :: "evaluator_assessment_v1 \<Rightarrow> (unit, evaluation_error) result" where
  "validate_assessment assessment =
     (if length (ea_findings assessment) > MAX_FINDINGS
         \<or> list_ex (\<lambda>finding. length finding > MAX_FINDING_BYTES) (ea_findings assessment)
      then Inl AdapterFailure
      else case ea_verdict assessment of
        Pass \<Rightarrow> if ea_findings assessment = [] then Inr () else Inl AdapterFailure
      | _ \<Rightarrow> if ea_findings assessment \<noteq> [] then Inr () else Inl AdapterFailure)"

definition validate_result_fields :: "evaluation_result_v1 \<Rightarrow> (unit, evaluation_error) result" where
  "validate_result_fields r =
     and_then (validate_logical_key (er_logical_key r)) (\<lambda>_.
       if \<not> is_sha256 (er_evidence_digest r) then Inl InvalidRequest
       else if length (er_findings r) > MAX_FINDINGS
         \<or> list_ex (\<lambda>finding. length finding > MAX_FINDING_BYTES) (er_findings r)
       then Inl LimitExceeded else Inr ())"

section \<open>Canonical encodings\<close>

definition snapshot_canonical_bytes :: "terminal_evidence_snapshot_v1 \<Rightarrow> (string, evaluation_error) result" where
  "snapshot_canonical_bytes s =
     and_then (validate_and_bound_snapshot s) (\<lambda>_. Inr
       (lp_fields [''v1'', ts_tenant_id s, ts_run_id s, ts_workflow_id s, ts_workflow_version s,
          word_to_string (ts_run_revision s), status_name (ts_terminal_status s),
          reason_name (ts_terminal_reason s), ts_attempt_id s, ts_agent_id s, ts_capability_scope_digest s,
          ts_output s, nat_to_string (length (ts_events s))]
        @ concat (map (\<lambda>event. lp_fields [word_to_string (ev_sequence event), ev_kind event, ev_data event])
            (ts_events s))))"

fun criterion_fields :: "criterion_v1 \<Rightarrow> string list" where
  "criterion_fields (ExactOutput expected) = [''exact_output'', expected]"
| "criterion_fields (EventKindCount kind expected) = [''event_kind_count'', kind, word_to_string expected]"
| "criterion_fields (EventDataEquals sequence expected) =
     [''event_data_equals'', word_to_string sequence, expected]"

definition definition_canonical_bytes :: "evaluation_definition_v1 \<Rightarrow> (string, evaluation_error) result" where
  "definition_canonical_bytes d =
     and_then (validate_definition d) (\<lambda>_. Inr
       (lp_fields [''v1'', ed_evaluator_id d, ed_evaluator_version d, nat_to_string (length (ed_criteria d))]
        @ concat (map (\<lambda>criterion. lp_fields (criterion_fields criterion)) (ed_criteria d))))"

definition result_canonical_bytes :: "evaluation_result_v1 \<Rightarrow> (string, evaluation_error) result" where
  "result_canonical_bytes r =
     and_then (validate_result_fields r) (\<lambda>_.
       let key = er_logical_key r in Inr
       (lp_fields [''v1'', lk_tenant_id key, lk_evaluator_id key, lk_evaluator_version key,
          lk_criterion_digest key, lk_workflow_run_id key, word_to_string (lk_workflow_revision key),
          er_evidence_digest r, verdict_name (er_verdict r), nat_to_string (length (er_findings r))]
        @ concat (map (\<lambda>finding. lp_fields [finding]) (er_findings r))))"

definition snapshot_digest :: "(string \<Rightarrow> string) \<Rightarrow> terminal_evidence_snapshot_v1 \<Rightarrow> (string, evaluation_error) result"
where
  "snapshot_digest sha256_hex s = and_then (snapshot_canonical_bytes s) (\<lambda>b. Inr (sha256_hex b))"

definition definition_digest :: "(string \<Rightarrow> string) \<Rightarrow> evaluation_definition_v1 \<Rightarrow> (string, evaluation_error) result"
where
  "definition_digest sha256_hex d = and_then (definition_canonical_bytes d) (\<lambda>b. Inr (sha256_hex b))"

definition result_digest :: "(string \<Rightarrow> string) \<Rightarrow> evaluation_result_v1 \<Rightarrow> (string, evaluation_error) result" where
  "result_digest sha256_hex r = and_then (result_canonical_bytes r) (\<lambda>b. Inr (sha256_hex b))"

definition invalid_evidence_digest :: "(string \<Rightarrow> string) \<Rightarrow> string \<Rightarrow> string \<Rightarrow> string \<Rightarrow> evaluation_error \<Rightarrow> string"
where
  "invalid_evidence_digest sha256_hex tenant run_id criterion_digest error =
     sha256_hex (lp_fields [''invalid_evidence_v1'', tenant, run_id, criterion_digest, error_name error])"

definition validate_result :: "(string \<Rightarrow> string) \<Rightarrow> evaluation_result_v1 \<Rightarrow> (unit, evaluation_error) result" where
  "validate_result sha256_hex r =
     and_then (validate_result_fields r) (\<lambda>_.
       if \<not> is_sha256 (er_content_hash r) then Inl InvalidRequest
       else and_then (result_digest sha256_hex r) (\<lambda>digest.
         if er_content_hash r = digest then Inr () else Inl InvalidRequest))"

section \<open>Evaluation\<close>

fun criterion_passed :: "terminal_evidence_snapshot_v1 \<Rightarrow> criterion_v1 \<Rightarrow> bool" where
  "criterion_passed s (ExactOutput expected) \<longleftrightarrow> ts_output s = expected"
| "criterion_passed s (EventKindCount kind expected) \<longleftrightarrow>
     length (filter (\<lambda>event. ev_kind event = kind) (ts_events s)) = unat expected"
| "criterion_passed s (EventDataEquals sequence expected) \<longleftrightarrow>
     (case List.find (\<lambda>event. ev_sequence event = sequence) (ts_events s) of
        None \<Rightarrow> False | Some event \<Rightarrow> ev_data event = expected)"

definition finding_name :: "nat \<Rightarrow> string \<Rightarrow> string" where
  "finding_name index suffix = ''criterion_'' @ nat_to_string (index + 1) @ suffix"

fun failed_findings :: "terminal_evidence_snapshot_v1 \<Rightarrow> nat \<Rightarrow> criterion_v1 list \<Rightarrow> string list" where
  "failed_findings s index [] = []"
| "failed_findings s index (criterion # rest) =
     (if criterion_passed s criterion then [] else [finding_name index ''_failed''])
     @ failed_findings s (index + 1) rest"

definition deterministic_assessment :: "evaluation_definition_v1 \<Rightarrow> terminal_evidence_snapshot_v1
    \<Rightarrow> evaluator_assessment_v1" where
  "deterministic_assessment d s =
     (let findings = failed_findings s 0 (ed_criteria d) in
      \<lparr>ea_verdict = (if findings = [] then Pass else Fail), ea_findings = findings\<rparr>)"

definition request_key :: "(string \<Rightarrow> string) \<Rightarrow> string \<Rightarrow> string \<Rightarrow> evaluation_definition_v1 \<Rightarrow> u64
    \<Rightarrow> (logical_evaluation_key, evaluation_error) result" where
  "request_key sha256_hex tenant run_id d revision =
     and_then (definition_digest sha256_hex d) (\<lambda>criterion_digest.
       Inr (LogicalEvaluationKey tenant (ed_evaluator_id d) (ed_evaluator_version d) criterion_digest run_id revision))"

definition with_content_hash :: "(string \<Rightarrow> string) \<Rightarrow> evaluation_result_v1
    \<Rightarrow> (evaluation_result_v1, evaluation_error) result" where
  "with_content_hash sha256_hex r =
     and_then (result_digest sha256_hex r) (\<lambda>digest. Inr (r\<lparr>er_content_hash := digest\<rparr>))"

definition invalid_result :: "(string \<Rightarrow> string) \<Rightarrow> logical_evaluation_key \<Rightarrow> string \<Rightarrow> string \<Rightarrow> evaluation_error
    \<Rightarrow> (evaluation_result_v1, evaluation_error) result" where
  "invalid_result sha256_hex key tenant run_id error =
     with_content_hash sha256_hex
       \<lparr>er_logical_key = key,
        er_evidence_digest = invalid_evidence_digest sha256_hex tenant run_id (lk_criterion_digest key) error,
        er_verdict = ErrorVerdict, er_findings = [error_name error], er_content_hash = []\<rparr>"

definition checked_request :: "string \<Rightarrow> string \<Rightarrow> evaluation_definition_v1 \<Rightarrow> (unit, evaluation_error) result" where
  "checked_request tenant run_id d =
     (if \<not> is_logical_id tenant \<or> \<not> is_logical_id run_id then Inl InvalidRequest else validate_definition d)"

definition build_result :: "(string \<Rightarrow> string) \<Rightarrow> logical_evaluation_key \<Rightarrow> terminal_evidence_snapshot_v1
    \<Rightarrow> evaluator_assessment_v1 \<Rightarrow> (evaluation_result_v1, evaluation_error) result" where
  "build_result sha256_hex key s assessment =
     and_then (validate_assessment assessment) (\<lambda>_.
     and_then (snapshot_digest sha256_hex s) (\<lambda>digest.
       with_content_hash sha256_hex
         \<lparr>er_logical_key = key, er_evidence_digest = digest, er_verdict = ea_verdict assessment,
          er_findings = ea_findings assessment, er_content_hash = []\<rparr>))"

definition check_evidence :: "string \<Rightarrow> string \<Rightarrow> terminal_evidence_snapshot_v1 \<Rightarrow> (unit, evaluation_error) result" where
  "check_evidence tenant run_id s =
     and_then (validate_snapshot s) (\<lambda>_.
       if ts_tenant_id s = tenant \<and> ts_run_id s = run_id then Inr () else Inl MalformedEvidence)"

type_synonym evidence_reader = "string \<Rightarrow> string \<Rightarrow> (terminal_evidence_snapshot_v1 option, evaluation_error) result"
type_synonym evaluation_executor = "evaluation_definition_v1 \<Rightarrow> terminal_evidence_snapshot_v1
    \<Rightarrow> (evaluator_assessment_v1, evaluation_error) result"

definition evaluate :: "(string \<Rightarrow> string) \<Rightarrow> evidence_reader \<Rightarrow> string \<Rightarrow> string \<Rightarrow> evaluation_definition_v1
    \<Rightarrow> (evaluation_result_v1, evaluation_error) result" where
  "evaluate sha256_hex reader tenant run_id d =
     and_then (checked_request tenant run_id d) (\<lambda>_.
     and_then (reader tenant run_id) (\<lambda>found.
     and_then (ok_or found NotFound) (\<lambda>s.
     and_then (request_key sha256_hex tenant run_id d (ts_run_revision s)) (\<lambda>key.
       case check_evidence tenant run_id s of
         Inl error \<Rightarrow> invalid_result sha256_hex key tenant run_id error
       | Inr _ \<Rightarrow> build_result sha256_hex key s (deterministic_assessment d s)))))"

definition service_evaluate :: "(string \<Rightarrow> string) \<Rightarrow> evidence_reader \<Rightarrow> evaluation_executor \<Rightarrow> string \<Rightarrow> string
    \<Rightarrow> evaluation_definition_v1 \<Rightarrow> (evaluation_result_v1, evaluation_error) result" where
  "service_evaluate sha256_hex reader executor tenant run_id d =
     and_then (checked_request tenant run_id d) (\<lambda>_.
     and_then (reader tenant run_id) (\<lambda>found.
     and_then (ok_or found NotFound) (\<lambda>s.
     and_then (request_key sha256_hex tenant run_id d (ts_run_revision s)) (\<lambda>key.
       case check_evidence tenant run_id s of
         Inl error \<Rightarrow> invalid_result sha256_hex key tenant run_id error
       | Inr _ \<Rightarrow>
           and_then (map_err (\<lambda>_. AdapterFailure) (executor d s)) (\<lambda>assessment.
             map_err (\<lambda>_. AdapterFailure) (build_result sha256_hex key s assessment))))))"

text \<open>\<open>DeterministicCriteriaEvaluator::assess\<close>.\<close>

definition local_assess :: evaluation_executor where
  "local_assess d s = Inr (deterministic_assessment d s)"

section \<open>The scoring framework's executor\<close>

text \<open>
  The framework's outcomes are the variants the adapter matches on; its exact-match scorer and
  its function scorer are parameters.
\<close>

datatype framework_outcome = OutcomePass | OutcomeFail | OutcomeSkip | OutcomeError

record framework =
  exact_match :: "string \<Rightarrow> string option \<Rightarrow> framework_outcome"
  function_scorer :: "(string \<Rightarrow> string option \<Rightarrow> framework_outcome) \<Rightarrow> string \<Rightarrow> string option
    \<Rightarrow> framework_outcome"

fun framework_outcome_of :: "framework \<Rightarrow> terminal_evidence_snapshot_v1 \<Rightarrow> criterion_v1 \<Rightarrow> framework_outcome" where
  "framework_outcome_of fw s (ExactOutput expected) = exact_match fw (ts_output s) (Some expected)"
| "framework_outcome_of fw s (EventKindCount kind expected) =
     (let actual = length (filter (\<lambda>event. ev_kind event = kind) (ts_events s)) in
      function_scorer fw (\<lambda>_ _. if actual = unat expected then OutcomePass else OutcomeFail) [] None)"
| "framework_outcome_of fw s (EventDataEquals sequence expected) =
     (let matches = (case List.find (\<lambda>event. ev_sequence event = sequence) (ts_events s) of
        None \<Rightarrow> False | Some event \<Rightarrow> ev_data event = expected) in
      function_scorer fw (\<lambda>_ _. if matches then OutcomePass else OutcomeFail) [] None)"

fun map_outcome :: "nat \<Rightarrow> framework_outcome \<Rightarrow> bool \<times> string option" where
  "map_outcome index OutcomePass = (False, None)"
| "map_outcome index OutcomeFail = (False, Some (finding_name index ''_failed''))"
| "map_outcome index OutcomeSkip = (True, Some (finding_name index ''_error''))"
| "map_outcome index OutcomeError = (True, Some (finding_name index ''_error''))"

fun framework_findings :: "framework \<Rightarrow> terminal_evidence_snapshot_v1 \<Rightarrow> nat \<Rightarrow> bool \<Rightarrow> string list
    \<Rightarrow> criterion_v1 list \<Rightarrow> bool \<times> string list" where
  "framework_findings fw s index error findings [] = (error, findings)"
| "framework_findings fw s index error findings (criterion # rest) =
     (let (criterion_error, finding) = map_outcome index (framework_outcome_of fw s criterion) in
      framework_findings fw s (index + 1) (error \<or> criterion_error)
        (findings @ (case finding of None \<Rightarrow> [] | Some f \<Rightarrow> [f])) rest)"

definition framework_assess :: "framework \<Rightarrow> evaluation_executor" where
  "framework_assess fw d s =
     (let (error, findings) = framework_findings fw s 0 False [] (ed_criteria d) in
      Inr \<lparr>ea_verdict = (if error then ErrorVerdict else if findings = [] then Pass else Fail),
           ea_findings = findings\<rparr>)"

section \<open>The in-memory store and the settings\<close>

record in_memory_evaluation_store =
  es_state :: "(logical_evaluation_key, evaluation_result_v1) btree_map mutex"
  es_max_results_per_tenant :: nat
  es_max_results_global :: nat

definition evaluation_store_new :: in_memory_evaluation_store where
  "evaluation_store_new = \<lparr>es_state = mutex_new [], es_max_results_per_tenant = MAX_RESULTS_PER_TENANT,
     es_max_results_global = MAX_RESULTS_GLOBAL\<rparr>"

definition capacities_ok :: "nat \<Rightarrow> nat \<Rightarrow> bool" where
  "capacities_ok per_tenant global \<longleftrightarrow> \<not> (per_tenant = 0 \<or> global = 0 \<or> per_tenant > MAX_RESULTS_PER_TENANT
     \<or> global > MAX_RESULTS_GLOBAL \<or> per_tenant > global)"

definition with_capacities :: "nat \<Rightarrow> nat \<Rightarrow> (in_memory_evaluation_store, evaluation_error) result" where
  "with_capacities per_tenant global =
     (if \<not> capacities_ok per_tenant global then Inl LimitExceeded
      else Inr \<lparr>es_state = mutex_new [], es_max_results_per_tenant = per_tenant, es_max_results_global = global\<rparr>)"

definition tenant_count :: "(logical_evaluation_key, evaluation_result_v1) btree_map \<Rightarrow> string \<Rightarrow> nat" where
  "tenant_count state tenant = length (filter (\<lambda>e. lk_tenant_id (fst e) = tenant) state)"

definition create_or_match :: "(string \<Rightarrow> string) \<Rightarrow> in_memory_evaluation_store \<Rightarrow> evaluation_result_v1
    \<Rightarrow> (create_or_match_outcome, evaluation_error) result \<times> in_memory_evaluation_store" where
  "create_or_match sha256_hex store r = (case validate_result sha256_hex r of
      Inl e \<Rightarrow> (Inl e, store)
    | Inr _ \<Rightarrow> (case lock (es_state store) AdapterFailure of
        Inl e \<Rightarrow> (Inl e, store)
      | Inr state \<Rightarrow> (case bt_get state (er_logical_key r) of
          None \<Rightarrow>
            if length state \<ge> es_max_results_global store
               \<or> tenant_count state (lk_tenant_id (er_logical_key r)) \<ge> es_max_results_per_tenant store
            then (Inl LimitExceeded, store)
            else (Inr (Created r),
              store\<lparr>es_state := (es_state store)\<lparr>guarded := bt_insert (er_logical_key r) r state\<rparr>\<rparr>)
        | Some existing \<Rightarrow>
            if er_content_hash existing = er_content_hash r then (Inr (Existing existing), store)
            else (Inr KeyConflict, store))))"

definition evaluation_get :: "in_memory_evaluation_store \<Rightarrow> string \<Rightarrow> logical_evaluation_key
    \<Rightarrow> (evaluation_result_v1 option, evaluation_error) result" where
  "evaluation_get store tenant key =
     (if lk_tenant_id key = tenant
      then and_then (lock (es_state store) AdapterFailure) (\<lambda>state. Inr (bt_get state key))
      else Inr None)"

definition evaluation_list :: "in_memory_evaluation_store \<Rightarrow> string
    \<Rightarrow> (evaluation_result_v1 list, evaluation_error) result" where
  "evaluation_list store tenant =
     and_then (lock (es_state store) AdapterFailure) (\<lambda>state.
       Inr (filter (\<lambda>r. lk_tenant_id (er_logical_key r) = tenant) (bt_values state)))"

definition evaluate_and_store :: "(string \<Rightarrow> string) \<Rightarrow> evidence_reader \<Rightarrow> in_memory_evaluation_store \<Rightarrow> string
    \<Rightarrow> string \<Rightarrow> evaluation_definition_v1
    \<Rightarrow> (create_or_match_outcome, evaluation_error) result \<times> in_memory_evaluation_store" where
  "evaluate_and_store sha256_hex reader store tenant run_id d =
     (case evaluate sha256_hex reader tenant run_id d of
        Inl e \<Rightarrow> (Inl e, store) | Inr r \<Rightarrow> create_or_match sha256_hex store r)"

definition service_evaluate_and_store :: "(string \<Rightarrow> string) \<Rightarrow> evidence_reader \<Rightarrow> evaluation_executor
    \<Rightarrow> in_memory_evaluation_store \<Rightarrow> string \<Rightarrow> string \<Rightarrow> evaluation_definition_v1
    \<Rightarrow> (create_or_match_outcome, evaluation_error) result \<times> in_memory_evaluation_store" where
  "service_evaluate_and_store sha256_hex reader executor store tenant run_id d =
     (case service_evaluate sha256_hex reader executor tenant run_id d of
        Inl e \<Rightarrow> (Inl e, store) | Inr r \<Rightarrow> create_or_match sha256_hex store r)"

text \<open>The wire configuration has the version \<open>V1\<close> and an in-memory store with two limits.\<close>

datatype executor_backend_v1 = LocalDeterministic | SerdesAiEvals

record evaluation_settings =
  st_executor :: executor_backend_v1
  st_max_results_per_tenant :: nat
  st_max_results_global :: nat

definition evaluation_settings_try_from :: "executor_backend_v1 \<Rightarrow> nat \<Rightarrow> nat
    \<Rightarrow> (evaluation_settings, evaluation_error) result" where
  "evaluation_settings_try_from executor per_tenant global =
     (if \<not> capacities_ok per_tenant global then Inl LimitExceeded
      else Inr \<lparr>st_executor = executor, st_max_results_per_tenant = per_tenant, st_max_results_global = global\<rparr>)"

end
