(* ===== verification/Evaluation_Properties.thy ===== *)
theory Evaluation_Properties
  imports Evaluation
begin

text \<open>
  Properties of the evaluation crate: the canonical encodings determine what they encode and
  their precomputed length is exact; an evaluation of an accepted request always yields a
  result the store accepts; the three evaluators agree; the store is write-once per key.
\<close>

section \<open>Encoded lengths\<close>

lemma length_nat_to_string: "length (nat_to_string n) = decimal_len n"
proof (induction n rule: nat_to_string.induct)
  case (1 n)
  then show ?case
    by (cases "n < 10") (simp_all add: nat_to_string.simps [of n] ilog10.simps [of n] ilog10.simps [of 0] decimal_len_def)
qed

lemma length_word_to_string: "length (word_to_string w) = decimal_len_u64 w"
  by (simp add: word_to_string_def length_nat_to_string decimal_len_def decimal_len_u64_def unat_eq_zero)

lemma length_lp_field: "length (lp_field v) = decimal_len (length v) + 2 + length v"
  by (simp add: lp_field_def length_nat_to_string)

lemma add_field_len_eq:
  "add_field_len acc (length v) =
     (if acc + length (lp_field v) \<le> usize_max then Inr (acc + length (lp_field v)) else Inl LimitExceeded)"
  by (simp add: add_field_len_def length_lp_field usize_checked_add_def)

lemma add_fields_len_eq:
  "acc \<le> usize_max \<Longrightarrow> try_fold add_field_len acc (map length vs) =
     (if acc + length (lp_fields vs) \<le> usize_max then Inr (acc + length (lp_fields vs)) else Inl LimitExceeded)"
proof (induction vs arbitrary: acc)
  case (Cons v vs)
  then show ?case
    by (cases "acc + length (lp_field v) \<le> usize_max") (simp_all add: add_field_len_eq lp_fields_simps add.assoc)
qed (simp add: lp_fields_simps)

text \<open>The encoding of a snapshot, as one list of fields.\<close>

definition event_fields :: "evidence_event_v1 \<Rightarrow> string list" where
  "event_fields event = [word_to_string (ev_sequence event), ev_kind event, ev_data event]"

definition snapshot_header :: "terminal_evidence_snapshot_v1 \<Rightarrow> string list" where
  "snapshot_header s = [''v1'', ts_tenant_id s, ts_run_id s, ts_workflow_id s, ts_workflow_version s,
     word_to_string (ts_run_revision s), status_name (ts_terminal_status s), reason_name (ts_terminal_reason s),
     ts_attempt_id s, ts_agent_id s, ts_capability_scope_digest s, ts_output s, nat_to_string (length (ts_events s))]"

definition snapshot_encoding :: "terminal_evidence_snapshot_v1 \<Rightarrow> string" where
  "snapshot_encoding s = lp_fields (snapshot_header s @ concat (map event_fields (ts_events s)))"

lemma snapshot_canonical_bytes_eq:
  "snapshot_canonical_bytes s = and_then (validate_and_bound_snapshot s) (\<lambda>_. Inr (snapshot_encoding s))"
  by (simp add: snapshot_canonical_bytes_def snapshot_encoding_def snapshot_header_def
      event_fields_def [abs_def] canonical_simps del: lp_fields_inject)

lemma events_len_eq:
  "acc \<le> usize_max \<Longrightarrow> try_fold (\<lambda>acc event. try_fold add_field_len acc (map length (event_fields event))) acc events =
     (let n = acc + length (lp_fields (concat (map event_fields events))) in
      if n \<le> usize_max then Inr n else Inl LimitExceeded)"
proof (induction events arbitrary: acc)
  case (Cons event events)
  have join: "length (lp_fields (concat (map event_fields (event # events))))
      = length (lp_fields (event_fields event)) + length (lp_fields (concat (map event_fields events)))"
    by (simp add: lp_fields_def)
  show ?case
    using Cons.IH [of "acc + length (lp_fields (event_fields event))"] Cons.prems
    unfolding join by (simp add: add_fields_len_eq Let_def add.assoc)
qed (simp add: lp_fields_simps Let_def)

lemma snapshot_canonical_len_eq:
  "snapshot_canonical_len s =
     (if length (snapshot_encoding s) \<le> usize_max then Inr (length (snapshot_encoding s)) else Inl LimitExceeded)"
proof -
  have header: "[2, length (ts_tenant_id s), length (ts_run_id s), length (ts_workflow_id s),
        length (ts_workflow_version s), decimal_len_u64 (ts_run_revision s),
        length (status_name (ts_terminal_status s)), length (reason_name (ts_terminal_reason s)),
        length (ts_attempt_id s), length (ts_agent_id s), length (ts_capability_scope_digest s),
        length (ts_output s), decimal_len (length (ts_events s))] = map length (snapshot_header s)"
    by (simp add: snapshot_header_def length_word_to_string length_nat_to_string)
  have events: "[decimal_len_u64 (ev_sequence event), length (ev_kind event), length (ev_data event)]
      = map length (event_fields event)" for event
    by (simp add: event_fields_def length_word_to_string)
  have join: "length (snapshot_encoding s)
      = length (lp_fields (snapshot_header s)) + length (lp_fields (concat (map event_fields (ts_events s))))"
    by (simp add: snapshot_encoding_def lp_fields_def)
  show ?thesis
    unfolding snapshot_canonical_len_def header events
    by (simp add: add_fields_len_eq events_len_eq join Let_def)
qed

section \<open>Encodings determine what they encode\<close>

lemma status_name_inject [simp]: "status_name a = status_name b \<longleftrightarrow> a = b"
  by (cases a; cases b) simp_all

lemma reason_name_inject [simp]: "reason_name a = reason_name b \<longleftrightarrow> a = b"
  by (cases a; cases b) simp_all

lemma verdict_name_inject [simp]: "verdict_name a = verdict_name b \<longleftrightarrow> a = b"
  by (cases a; cases b) simp_all

lemma events_fields_inject:
  "concat (map event_fields xs) = concat (map event_fields ys) \<Longrightarrow> xs = ys"
proof (induction xs arbitrary: ys)
  case Nil
  then show ?case by (cases ys) (simp_all add: event_fields_def)
next
  case (Cons x xs)
  then show ?case by (cases ys) (auto simp: event_fields_def)
qed

lemma criteria_fields_inject:
  "concat (map criterion_fields xs) = concat (map criterion_fields ys) \<Longrightarrow> xs = ys"
proof (induction xs arbitrary: ys)
  case Nil
  then show ?case by (cases ys; cases "hd ys") auto
next
  case (Cons x xs)
  obtain y zs where "ys = y # zs" using Cons.prems by (cases ys; cases x) auto
  with Cons show ?case by (cases x; cases y) auto
qed

definition definition_encoding :: "evaluation_definition_v1 \<Rightarrow> string" where
  "definition_encoding d = lp_fields ([''v1'', ed_evaluator_id d, ed_evaluator_version d,
     nat_to_string (length (ed_criteria d))] @ concat (map criterion_fields (ed_criteria d)))"

lemma definition_canonical_bytes_eq:
  "definition_canonical_bytes d = and_then (validate_definition d) (\<lambda>_. Inr (definition_encoding d))"
  by (simp add: definition_canonical_bytes_def definition_encoding_def canonical_simps del: lp_fields_inject)

definition result_encoding :: "evaluation_result_v1 \<Rightarrow> string" where
  "result_encoding r = lp_fields ([''v1'', lk_tenant_id (er_logical_key r), lk_evaluator_id (er_logical_key r),
     lk_evaluator_version (er_logical_key r), lk_criterion_digest (er_logical_key r),
     lk_workflow_run_id (er_logical_key r), word_to_string (lk_workflow_revision (er_logical_key r)),
     er_evidence_digest r, verdict_name (er_verdict r), nat_to_string (length (er_findings r))] @ er_findings r)"

lemma result_canonical_bytes_eq:
  "result_canonical_bytes r = and_then (validate_result_fields r) (\<lambda>_. Inr (result_encoding r))"
  by (simp add: result_canonical_bytes_def result_encoding_def canonical_simps Let_def del: lp_fields_inject)

lemma snapshot_encoding_inject: "snapshot_encoding a = snapshot_encoding b \<Longrightarrow> a = b"
  by (cases a; cases b) (auto simp: snapshot_encoding_def snapshot_header_def dest: events_fields_inject)

lemma definition_encoding_inject: "definition_encoding a = definition_encoding b \<Longrightarrow> a = b"
  by (cases a; cases b) (auto simp: definition_encoding_def dest: criteria_fields_inject)

lemma result_encoding_inject:
  "result_encoding a = result_encoding b \<Longrightarrow> a\<lparr>er_content_hash := []\<rparr> = b\<lparr>er_content_hash := []\<rparr>"
  by (cases a; cases b; cases "er_logical_key a"; cases "er_logical_key b") (auto simp: result_encoding_def)

section \<open>Evaluation of an accepted request\<close>

lemma length_finding: "length (finding_name i suffix) \<le> 12 + i + length suffix"
proof -
  have "ilog10 n \<le> n" for n
    by (induction n rule: ilog10.induct) (subst ilog10.simps, auto)
  from this [of "Suc i"] show ?thesis
    by (simp add: finding_name_def length_nat_to_string decimal_len_def)
qed

lemma failed_findings_bounds:
  "length (failed_findings s i cs) \<le> length cs"
  "f \<in> set (failed_findings s i cs) \<Longrightarrow> length f \<le> 20 + i + length cs"
proof (induction cs arbitrary: i)
  case (Cons c cs)
  {
    case 1
    from Cons.IH(1) [of "i + 1"] show ?case by simp
  next
    case 2
    with Cons.IH(2) [of "i + 1"] length_finding [of i "''_failed''"] show ?case by (auto split: if_splits)
  }
qed simp_all

lemma failed_findings_empty: "failed_findings s i cs = [] \<longleftrightarrow> list_all (criterion_passed s) cs"
  by (induction cs arbitrary: i) auto

lemma deterministic_assessment_valid:
  assumes "length (ed_criteria d) \<le> 16"
  shows "validate_assessment (deterministic_assessment d s) = Inr ()"
proof -
  have "length (failed_findings s 0 (ed_criteria d)) \<le> 16"
    using failed_findings_bounds(1) [of s 0 "ed_criteria d"] assms by simp
  moreover have "length f \<le> 36" if "f \<in> set (failed_findings s 0 (ed_criteria d))" for f
    using failed_findings_bounds(2) [OF that] assms by simp
  ultimately show ?thesis
    by (fastforce simp: validate_assessment_def deterministic_assessment_def Let_def MAX_FINDINGS_def
        MAX_FINDING_BYTES_def list_ex_iff)
qed

lemma checked_request_Inr:
  assumes "checked_request tenant run_id d = Inr ()"
  shows "is_logical_id tenant" "is_logical_id run_id" "validate_definition d = Inr ()"
    "is_logical_id (ed_evaluator_id d)" "is_evaluator_version (ed_evaluator_version d)" "length (ed_criteria d) \<le> 16"
  using assms by (auto simp: checked_request_def validate_definition_def MAX_CRITERIA_def split: if_splits)

lemma with_content_hash_valid:
  fixes v :: verdict
  assumes "\<And>b. is_sha256 (sha256_hex b)" and "validate_logical_key key = Inr ()" and "is_sha256 digest"
    and "length fs \<le> 32" and "\<And>f. f \<in> set fs \<Longrightarrow> length f \<le> 4096"
  defines "r \<equiv> \<lambda>h. \<lparr>er_logical_key = key, er_evidence_digest = digest, er_verdict = v, er_findings = fs,
    er_content_hash = h\<rparr>"
  shows "\<exists>h. with_content_hash sha256_hex (r []) = Inr (r h) \<and> validate_result sha256_hex (r h) = Inr ()"
proof -
  have "validate_result_fields (r h) = Inr ()" for h
    using assms(2-5) by (fastforce simp: r_def validate_result_fields_def MAX_FINDINGS_def MAX_FINDING_BYTES_def list_ex_iff)
  moreover obtain e where "\<And>h. result_encoding (r h) = e"
    by (auto simp: r_def result_encoding_def)
  moreover have "(r [])\<lparr>er_content_hash := h\<rparr> = r h" "er_content_hash (r h) = h" for h
    by (simp_all add: r_def)
  ultimately show ?thesis using assms(1)
    by (intro exI [of _ "sha256_hex e"])
      (simp add: with_content_hash_def validate_result_def result_digest_def result_canonical_bytes_eq)
qed

text \<open>The result of an accepted request, apart from its content hash.\<close>

definition result_of :: "(string \<Rightarrow> string) \<Rightarrow> string \<Rightarrow> string \<Rightarrow> evaluation_definition_v1
    \<Rightarrow> terminal_evidence_snapshot_v1 \<Rightarrow> string \<Rightarrow> evaluation_result_v1" where
  "result_of sha256_hex tenant run_id d s h =
     \<lparr>er_logical_key = LogicalEvaluationKey tenant (ed_evaluator_id d) (ed_evaluator_version d)
        (sha256_hex (definition_encoding d)) run_id (ts_run_revision s),
      er_evidence_digest = (case check_evidence tenant run_id s of
          Inl e \<Rightarrow> invalid_evidence_digest sha256_hex tenant run_id (sha256_hex (definition_encoding d)) e
        | Inr _ \<Rightarrow> sha256_hex (snapshot_encoding s)),
      er_verdict = (case check_evidence tenant run_id s of
          Inl e \<Rightarrow> ErrorVerdict | Inr _ \<Rightarrow> ea_verdict (deterministic_assessment d s)),
      er_findings = (case check_evidence tenant run_id s of
          Inl e \<Rightarrow> [error_name e] | Inr _ \<Rightarrow> ea_findings (deterministic_assessment d s)),
      er_content_hash = h\<rparr>"

lemma evaluate_result:
  assumes "\<And>b. is_sha256 (sha256_hex b)" and "checked_request tenant run_id d = Inr ()"
    and "reader tenant run_id = Inr (Some s)"
  shows "\<exists>h. evaluate sha256_hex reader tenant run_id d = Inr (result_of sha256_hex tenant run_id d s h)
    \<and> validate_result sha256_hex (result_of sha256_hex tenant run_id d s h) = Inr ()"
proof -
  note request = checked_request_Inr [OF assms(2)]
  let ?key = "LogicalEvaluationKey tenant (ed_evaluator_id d) (ed_evaluator_version d)
      (sha256_hex (definition_encoding d)) run_id (ts_run_revision s)"
  have key: "request_key sha256_hex tenant run_id d (ts_run_revision s) = Inr ?key" "validate_logical_key ?key = Inr ()"
    using request assms(1)
    by (simp_all add: request_key_def definition_digest_def definition_canonical_bytes_eq validate_logical_key_def)
  note hashed = with_content_hash_valid [of sha256_hex, OF assms(1) key(2)]
  show ?thesis
  proof (cases "check_evidence tenant run_id s")
    case (Inl e)
    have "length (error_name e) \<le> 4096" by (cases e) simp_all
    with hashed [of "invalid_evidence_digest sha256_hex tenant run_id (sha256_hex (definition_encoding d)) e"
        "[error_name e]" ErrorVerdict] assms(1) Inl key(1) assms(2,3)
    show ?thesis by (simp add: evaluate_def invalid_result_def result_of_def invalid_evidence_digest_def)
  next
    case (Inr u)
    then have digest: "snapshot_digest sha256_hex s = Inr (sha256_hex (snapshot_encoding s))"
      by (auto simp: check_evidence_def validate_snapshot_def snapshot_digest_def snapshot_canonical_bytes_eq result_simps
          split: if_splits)
    have assessed: "validate_assessment (deterministic_assessment d s) = Inr ()"
      by (rule deterministic_assessment_valid [OF request(6)])
    then have "length (ea_findings (deterministic_assessment d s)) \<le> 32"
      "\<And>f. f \<in> set (ea_findings (deterministic_assessment d s)) \<Longrightarrow> length f \<le> 4096"
      by (auto simp: validate_assessment_def MAX_FINDINGS_def MAX_FINDING_BYTES_def list_ex_iff not_less split: if_splits)
    with hashed [of "sha256_hex (snapshot_encoding s)" "ea_findings (deterministic_assessment d s)"
        "ea_verdict (deterministic_assessment d s)"] assms Inr key(1) digest assessed
    show ?thesis by (simp add: evaluate_def build_result_def result_of_def)
  qed
qed

section \<open>Executors\<close>

text \<open>What the scoring framework documents: exact comparison, and a function scorer that returns
  what its function returns.\<close>

definition scorers_faithful :: "framework \<Rightarrow> bool" where
  "scorers_faithful fw \<longleftrightarrow>
     (\<forall>output expected. exact_match fw output (Some expected) = (if output = expected then OutcomePass else OutcomeFail))
     \<and> (\<forall>f output expected. function_scorer fw f output expected = f output expected)"

lemma framework_outcome_faithful:
  "scorers_faithful fw \<Longrightarrow>
     framework_outcome_of fw s c = (if criterion_passed s c then OutcomePass else OutcomeFail)"
  by (cases c) (auto simp: scorers_faithful_def Let_def)

lemma framework_findings_faithful:
  "scorers_faithful fw \<Longrightarrow> framework_findings fw s i b fs cs = (b, fs @ failed_findings s i cs)"
  by (induction cs arbitrary: i b fs) (auto simp: framework_outcome_faithful)

lemma framework_assess_faithful: "scorers_faithful fw \<Longrightarrow> framework_assess fw = local_assess"
  by (simp add: fun_eq_iff framework_assess_def local_assess_def framework_findings_faithful
      deterministic_assessment_def Let_def)

lemma service_evaluate_local:
  assumes "\<And>b. is_sha256 (sha256_hex b)"
  shows "service_evaluate sha256_hex reader local_assess tenant run_id d = evaluate sha256_hex reader tenant run_id d"
proof (cases "checked_request tenant run_id d = Inr () \<and> (\<exists>s. reader tenant run_id = Inr (Some s))")
  case True
  then obtain s h where s: "reader tenant run_id = Inr (Some s)"
    and "evaluate sha256_hex reader tenant run_id d = Inr (result_of sha256_hex tenant run_id d s h)"
    using evaluate_result [of sha256_hex, OF assms] by blast
  then have *: "and_then (request_key sha256_hex tenant run_id d (ts_run_revision s)) (\<lambda>key.
      case check_evidence tenant run_id s of Inl error \<Rightarrow> invalid_result sha256_hex key tenant run_id error
      | Inr _ \<Rightarrow> build_result sha256_hex key s (deterministic_assessment d s))
      = Inr (result_of sha256_hex tenant run_id d s h)"
    using True by (simp add: evaluate_def)
  show ?thesis
  proof (cases "check_evidence tenant run_id s")
    case (Inl e)
    with True s show ?thesis by (simp add: evaluate_def service_evaluate_def)
  next
    case (Inr u)
    with * obtain key where "request_key sha256_hex tenant run_id d (ts_run_revision s) = Inr key"
      "build_result sha256_hex key s (deterministic_assessment d s) = Inr (result_of sha256_hex tenant run_id d s h)"
      by (auto simp: result_simps)
    with True s Inr show ?thesis by (simp add: evaluate_def service_evaluate_def local_assess_def)
  qed
next
  case False
  show ?thesis
  proof (cases "checked_request tenant run_id d")
    case (Inr u)
    with False have "reader tenant run_id \<noteq> Inr (Some s)" for s by auto
    then obtain e where "and_then (reader tenant run_id) (\<lambda>found. ok_or found NotFound) = Inl e"
      by (metis and_then.elims ok_or.elims)
    then show ?thesis by (auto simp: evaluate_def service_evaluate_def result_simps)
  qed (simp add: evaluate_def service_evaluate_def)
qed

section \<open>The store\<close>

abbreviation stored :: "in_memory_evaluation_store \<Rightarrow> logical_evaluation_key \<Rightarrow> evaluation_result_v1 option" where
  "stored store \<equiv> bt_get (guarded (es_state store))"

definition store_inv :: "(string \<Rightarrow> string) \<Rightarrow> nat \<Rightarrow> nat \<Rightarrow> in_memory_evaluation_store \<Rightarrow> bool" where
  "store_inv sha256_hex per_tenant global store \<longleftrightarrow>
     bt_ok (guarded (es_state store)) \<and> \<not> poisoned (es_state store)
     \<and> es_max_results_per_tenant store = per_tenant \<and> es_max_results_global store = global
     \<and> (\<forall>k r. stored store k = Some r \<longrightarrow> er_logical_key r = k \<and> validate_result sha256_hex r = Inr ())
     \<and> length (guarded (es_state store)) \<le> global
     \<and> (\<forall>t. tenant_count (guarded (es_state store)) t \<le> per_tenant)"

lemma create_or_match_cases:
  assumes "store_inv sha256_hex p g store"
  obtains (same) out where "create_or_match sha256_hex store r = (out, store)" "\<And>r'. out \<noteq> Inr (Created r')"
  | (created) "create_or_match sha256_hex store r = (Inr (Created r),
        store\<lparr>es_state := (es_state store)\<lparr>guarded := bt_insert (er_logical_key r) r (guarded (es_state store))\<rparr>\<rparr>)"
      "stored store (er_logical_key r) = None" "validate_result sha256_hex r = Inr ()"
      "length (guarded (es_state store)) < g"
      "tenant_count (guarded (es_state store)) (lk_tenant_id (er_logical_key r)) < p"
proof (cases "\<exists>r'. fst (create_or_match sha256_hex store r) = Inr (Created r')")
  case True
  with assms show thesis
    by (intro created) (auto simp: create_or_match_def store_inv_def lock_def not_le
        split: sum.splits option.splits if_splits)
next
  case False
  then have "snd (create_or_match sha256_hex store r) = store"
    by (auto simp: create_or_match_def split: sum.splits option.splits if_splits)
  with False show thesis by (intro same [of "fst (create_or_match sha256_hex store r)"]) (auto simp: prod_eq_iff)
qed

lemma tenant_count_insert:
  assumes "bt_ok state" "bt_get state k = None"
  shows "tenant_count (bt_insert k r state) t = tenant_count state t + (if lk_tenant_id k = t then 1 else 0)"
  using assms filter_bt_insert [where P = "\<lambda>x. lk_tenant_id x = t", of state k r]
  by (simp add: tenant_count_def length_bt_insert bt_get_filter [where P = "\<lambda>x. lk_tenant_id x = t"])

lemma create_or_match_inv:
  assumes "store_inv sha256_hex p g store"
  shows "store_inv sha256_hex p g (snd (create_or_match sha256_hex store r))"
  using assms
proof (cases rule: create_or_match_cases [of sha256_hex p g store r])
  case created
  have "tenant_count (guarded (es_state store)) t \<le> p" for t using assms by (simp add: store_inv_def)
  with created assms show ?thesis
    by (auto simp: store_inv_def tenant_count_insert length_bt_insert Suc_le_eq)
qed (use assms in auto)

interpretation es: invariant_machine "create_or_match sha256_hex" "store_inv sha256_hex p g" for sha256_hex p g
  by unfold_locales (rule create_or_match_inv)

lemma stored_stable:
  assumes "store_inv sha256_hex p g store" and "stored store k = Some r"
  shows "stored (run (create_or_match sha256_hex) store ops) k = Some r"
  using assms
proof (induction ops arbitrary: store)
  case (Cons op ops)
  have "stored (snd (create_or_match sha256_hex store op)) k = Some r"
    using Cons.prems(1) by (cases rule: create_or_match_cases [of sha256_hex p g store op]) (use Cons.prems(2) in auto)
  with Cons.IH [OF create_or_match_inv [OF Cons.prems(1)]] show ?case by simp
qed simp

definition creations :: "logical_evaluation_key \<Rightarrow> (create_or_match_outcome, evaluation_error) result list
    \<Rightarrow> evaluation_result_v1 list" where
  "creations k outs = concat (map (\<lambda>out. case out of Inr (Created r) \<Rightarrow> if er_logical_key r = k then [r] else [] | _ \<Rightarrow> []) outs)"

lemma creations_eq:
  assumes "store_inv sha256_hex p g store"
  shows "creations k (outputs (create_or_match sha256_hex) store ops) =
    (case stored store k of Some _ \<Rightarrow> [] | None \<Rightarrow>
       (case stored (run (create_or_match sha256_hex) store ops) k of None \<Rightarrow> [] | Some r \<Rightarrow> [r]))"
  using assms
proof (induction ops arbitrary: store)
  case Nil
  then show ?case by (simp add: creations_def split: option.split)
next
  case (Cons op ops)
  let ?next = "snd (create_or_match sha256_hex store op)"
  note inv = create_or_match_inv [OF Cons.prems, of op]
  have split: "creations k (outputs (create_or_match sha256_hex) store (op # ops))
      = creations k [fst (create_or_match sha256_hex store op)]
        @ creations k (outputs (create_or_match sha256_hex) ?next ops)"
    by (simp add: creations_def)
  from Cons.prems show ?case
  proof (cases rule: create_or_match_cases [of sha256_hex p g store op])
    case (same out)
    then have "creations k [out] = []" by (auto simp: creations_def split: sum.splits create_or_match_outcome.splits)
    then have "creations k (outputs (create_or_match sha256_hex) store (op # ops))
        = creations k (outputs (create_or_match sha256_hex) store ops)"
      unfolding split same(1) by simp
    moreover have "run (create_or_match sha256_hex) store (op # ops) = run (create_or_match sha256_hex) store ops"
      using same(1) by simp
    ultimately show ?thesis using Cons.IH [OF Cons.prems] by (simp only:)
  next
    case created
    show ?thesis
    proof (cases "er_logical_key op = k")
      case True
      with created have "stored ?next k = Some op" by simp
      with stored_stable [OF inv this, of ops] Cons.IH [OF inv] split created True show ?thesis
        by (simp add: creations_def)
    next
      case False
      with created have "stored ?next k = stored store k" "creations k [fst (create_or_match sha256_hex store op)] = []"
        by (simp_all add: creations_def)
      with split Cons.IH [OF inv] show ?thesis by (simp cong: option.case_cong)
    qed
  qed
qed

lemma with_capacities_inv:
  "with_capacities p g = Inr store \<Longrightarrow> store_inv sha256_hex p g store \<and> (\<forall>k. stored store k = None)"
  by (auto simp: with_capacities_def store_inv_def tenant_count_def split: if_splits)

section \<open>Properties\<close>

text \<open>C26: The evaluation of an accepted request whose evidence the reader returns always yields a
  result, and the store's validation accepts it. The verdict is \<open>Pass\<close> exactly when the evidence
  is valid, belongs to the run asked for and meets every criterion, and \<open>Error\<close> exactly when
  the evidence is not valid or belongs to another run.\<close>

theorem evaluate_total:
  assumes "\<And>b. is_sha256 (sha256_hex b)" and "checked_request tenant run_id d = Inr ()"
    and "reader tenant run_id = Inr (Some s)"
  shows "\<exists>r. evaluate sha256_hex reader tenant run_id d = Inr r \<and> validate_result sha256_hex r = Inr ()
    \<and> lk_tenant_id (er_logical_key r) = tenant \<and> lk_workflow_run_id (er_logical_key r) = run_id
    \<and> lk_workflow_revision (er_logical_key r) = ts_run_revision s
    \<and> (er_verdict r = Pass \<longleftrightarrow>
         check_evidence tenant run_id s = Inr () \<and> list_all (criterion_passed s) (ed_criteria d))
    \<and> (er_verdict r = ErrorVerdict \<longleftrightarrow> check_evidence tenant run_id s \<noteq> Inr ())"
proof -
  from evaluate_result [of sha256_hex tenant run_id d reader s, OF assms] obtain h where
    h: "evaluate sha256_hex reader tenant run_id d = Inr (result_of sha256_hex tenant run_id d s h)"
      "validate_result sha256_hex (result_of sha256_hex tenant run_id d s h) = Inr ()" by blast
  then show ?thesis
    by (intro exI [of _ "result_of sha256_hex tenant run_id d s h"], cases "check_evidence tenant run_id s")
      (simp_all add: result_of_def deterministic_assessment_def Let_def failed_findings_empty)
qed

definition demo_sha :: "string \<Rightarrow> string" where
  "demo_sha b = replicate 64 (CHR ''a'')"

definition demo_eval :: evaluation_definition_v1 where
  "demo_eval = \<lparr>ed_evaluator_id = ''ev'', ed_evaluator_version = ''1'', ed_criteria = [ExactOutput ''hi'']\<rparr>"

definition demo_evidence :: terminal_evidence_snapshot_v1 where
  "demo_evidence = \<lparr>ts_tenant_id = ''t'', ts_run_id = ''r'', ts_workflow_id = ''w'', ts_workflow_version = ''1'',
     ts_run_revision = 7, ts_terminal_status = StatusSucceeded, ts_terminal_reason = ReasonCompleted,
     ts_attempt_id = ''a'', ts_agent_id = ''g'', ts_capability_scope_digest = replicate 64 (CHR ''a''),
     ts_output = ''hi'', ts_events = []\<rparr>"

lemmas demo_eval_simps = is_logical_id_def is_evaluator_version_def is_sha256_def MAX_LOGICAL_ID_BYTES_def
  MAX_EVALUATOR_VERSION_BYTES_def SHA256_HEX_BYTES_def MAX_CRITERIA_def MAX_EXPECTED_BYTES_def MAX_EVENTS_def
  ascii_defs lower_or_digit_def less_eq_char_def

lemma demo_digest_hex: "is_sha256 (demo_sha b)"
  by (simp add: demo_sha_def demo_eval_simps list_all_iff)

lemma demo_request_ok: "checked_request ''t'' ''r'' demo_eval = Inr ()"
  by (simp add: checked_request_def demo_eval_def validate_definition_def demo_eval_simps)

lemma demo_evidence_encoding: "length (snapshot_encoding demo_evidence) \<le> 4096"
  by (simp add: snapshot_encoding_def snapshot_header_def demo_evidence_def lp_fields_simps length_lp_field
      length_word_to_string length_nat_to_string decimal_len_def decimal_len_u64_def ilog10.simps)

lemma demo_evidence_ok: "check_evidence ''t'' ''r'' demo_evidence = Inr ()"
  using demo_evidence_encoding
  by (simp add: check_evidence_def validate_snapshot_def validate_and_bound_snapshot_def snapshot_canonical_len_eq
      usize_max_def MAX_SNAPSHOT_BYTES_def)
    (simp add: demo_evidence_def demo_eval_simps list_all_iff)

theorem evaluate_total_witness:
  "\<exists>r. evaluate demo_sha (\<lambda>_ _. Inr (Some demo_evidence)) ''t'' ''r'' demo_eval = Inr r \<and> er_verdict r = Pass"
  using evaluate_total [of demo_sha, OF demo_digest_hex demo_request_ok, of "\<lambda>_ _. Inr (Some demo_evidence)" demo_evidence]
    demo_evidence_ok by (auto simp: demo_eval_def demo_evidence_def)

text \<open>The three evaluators agree: with scorers that behave as the framework documents, the service
  over the framework's executor, the service over the deterministic executor and the plain
  evaluation function return the same result or the same error for every request.\<close>

lemma executors_agree:
  assumes "\<And>b. is_sha256 (sha256_hex b)" and "scorers_faithful fw"
  shows "service_evaluate sha256_hex reader (framework_assess fw) tenant run_id d
      = service_evaluate sha256_hex reader local_assess tenant run_id d
    \<and> service_evaluate sha256_hex reader local_assess tenant run_id d = evaluate sha256_hex reader tenant run_id d"
  using service_evaluate_local [of sha256_hex reader, OF assms(1)] framework_assess_faithful [OF assms(2)] by simp

definition demo_framework :: framework where
  "demo_framework = \<lparr>exact_match = (\<lambda>output expected. if expected = Some output then OutcomePass else OutcomeFail),
     function_scorer = (\<lambda>f output expected. f output expected)\<rparr>"

lemma executors_agree_witness:
  "service_evaluate demo_sha (\<lambda>_ _. Inr (Some demo_evidence)) (framework_assess demo_framework) ''t'' ''r'' demo_eval
   = evaluate demo_sha (\<lambda>_ _. Inr (Some demo_evidence)) ''t'' ''r'' demo_eval"
  using executors_agree [of demo_sha demo_framework, OF demo_digest_hex]
  by (auto simp: scorers_faithful_def demo_framework_def)

text \<open>C14: The store is write-once. Over any history of \<open>create_or_match\<close> calls, each key has exactly
  one creation if it is stored and none otherwise, the result created is the result stored, later
  calls never change it, every stored result is under its own key with its content hash intact,
  and the two capacities are never exceeded.\<close>

theorem evaluation_store_write_once:
  fixes sha256_hex :: "string \<Rightarrow> string"
  assumes "with_capacities p g = Inr store"
  defines "after \<equiv> \<lambda>ops. run (create_or_match sha256_hex) store ops"
  shows "creations k (outputs (create_or_match sha256_hex) store ops)
      = (case stored (after ops) k of None \<Rightarrow> [] | Some r \<Rightarrow> [r])
    \<and> (\<forall>r. stored (after ops) k = Some r \<longrightarrow> stored (after (ops @ later)) k = Some r
         \<and> er_logical_key r = k \<and> validate_result sha256_hex r = Inr ())
    \<and> length (guarded (es_state (after ops))) \<le> g \<and> tenant_count (guarded (es_state (after ops))) t \<le> p"
proof -
  from with_capacities_inv [OF assms(1)] have inv: "store_inv sha256_hex p g store" and empty: "stored store k = None" by auto
  from es.run_inv [OF inv] have inv': "store_inv sha256_hex p g (after ops)" by (simp add: after_def)
  from creations_eq [OF inv, of k ops] empty
  have "creations k (outputs (create_or_match sha256_hex) store ops)
      = (case stored (after ops) k of None \<Rightarrow> [] | Some r \<Rightarrow> [r])" by (simp add: after_def)
  moreover have "stored (after (ops @ later)) k = Some r" if "stored (after ops) k = Some r" for r
    using stored_stable [OF inv' that, of later] by (simp add: after_def run_append)
  ultimately show ?thesis using inv' by (auto simp: store_inv_def)
qed

definition demo_result :: evaluation_result_v1 where
  "demo_result = result_of demo_sha ''t'' ''r'' demo_eval demo_evidence (demo_sha [])"

theorem evaluation_store_write_once_witness:
  "\<exists>store. with_capacities 1 1 = Inr store
     \<and> length (creations (er_logical_key demo_result) (outputs (create_or_match demo_sha) store [demo_result, demo_result])) \<le> 1"
proof -
  obtain store where store: "with_capacities 1 1 = Inr store"
    by (simp add: with_capacities_def capacities_ok_def MAX_RESULTS_PER_TENANT_def MAX_RESULTS_GLOBAL_def)
  from evaluation_store_write_once [OF store, of "er_logical_key demo_result" demo_sha "[demo_result, demo_result]" "[]" "[]"]
  have "length (creations (er_logical_key demo_result)
      (outputs (create_or_match demo_sha) store [demo_result, demo_result])) \<le> 1"
    by (auto split: option.splits)
  with store show ?thesis by blast
qed

text \<open>The canonical encodings are faithful. The length computed for a snapshot before it is
  encoded is the length of its encoding, which never exceeds 64 KiB, and equal encodings come
  only from equal snapshots, equal definitions, and results equal up to their content hash.\<close>

lemma evaluation_encodings:
  "(snapshot_canonical_bytes s = Inr bytes \<longrightarrow>
      validate_and_bound_snapshot s = Inr (length bytes) \<and> length bytes \<le> 65536)
   \<and> (snapshot_canonical_bytes s = Inr bytes \<and> snapshot_canonical_bytes s' = Inr bytes \<longrightarrow> s = s')
   \<and> (definition_canonical_bytes d = Inr bytes \<and> definition_canonical_bytes d' = Inr bytes \<longrightarrow> d = d')
   \<and> (result_canonical_bytes r = Inr bytes \<and> result_canonical_bytes r' = Inr bytes \<longrightarrow>
        r\<lparr>er_content_hash := []\<rparr> = r'\<lparr>er_content_hash := []\<rparr>)"
proof -
  have "validate_and_bound_snapshot s = Inr (length bytes) \<and> length bytes \<le> 65536"
    if "snapshot_canonical_bytes s = Inr bytes"
    using that by (auto simp: snapshot_canonical_bytes_eq result_simps validate_and_bound_snapshot_def
        snapshot_canonical_len_eq MAX_SNAPSHOT_BYTES_def split: if_splits)
  then show ?thesis
    by (auto simp: snapshot_canonical_bytes_eq definition_canonical_bytes_eq result_canonical_bytes_eq result_simps
        intro: snapshot_encoding_inject definition_encoding_inject result_encoding_inject)
qed

lemma evaluation_encodings_witness:
  "\<exists>bytes. snapshot_canonical_bytes demo_evidence = Inr bytes \<and> length bytes \<le> 65536"
proof -
  from demo_evidence_ok obtain bytes where bytes: "snapshot_canonical_bytes demo_evidence = Inr bytes"
    by (auto simp: check_evidence_def validate_snapshot_def snapshot_canonical_bytes_eq result_simps)
  with evaluation_encodings [of demo_evidence bytes] show ?thesis by blast
qed

end
