(* ===== verification/Auth.thy ===== *)
theory Auth
  imports Contracts
begin

text \<open>
  The auth crate: identifiers, grants, requests and decisions (\<open>auth/src/model.rs\<close>), their
  validation (\<open>validation.rs\<close>), the canonical bytes, digest and verification of decisions
  (\<open>service.rs\<close>), and the resolver over Biscuit tokens with the minting of tokens
  (\<open>biscuit.rs\<close>). SHA-256 and the Biscuit library are parameters.
\<close>

section \<open>Data and validation\<close>

definition MAX_LOGICAL_ID_BYTES :: nat where "MAX_LOGICAL_ID_BYTES = 128"
definition MAX_TOOL_IDS :: nat where "MAX_TOOL_IDS = 64"
definition MAX_TOOL_ID_BYTES :: nat where "MAX_TOOL_ID_BYTES = 128"
definition MAX_TOKEN_PRESENTATION_BYTES :: nat where "MAX_TOKEN_PRESENTATION_BYTES = 65536"

datatype auth_error = InvalidId | InvalidGrant | InvalidToken | LimitExceeded
datatype auth_public_error_code = PubInvalidId | PubInvalidGrant | PubInvalidToken | PubLimitExceeded

fun auth_public_code :: "auth_error \<Rightarrow> auth_public_error_code" where
  "auth_public_code InvalidId = PubInvalidId"
| "auth_public_code InvalidGrant = PubInvalidGrant"
| "auth_public_code InvalidToken = PubInvalidToken"
| "auth_public_code LimitExceeded = PubLimitExceeded"

definition is_logical_id :: "string \<Rightarrow> bool" where
  "is_logical_id value \<longleftrightarrow> length value \<le> MAX_LOGICAL_ID_BYTES
     \<and> first_rest lower_or_digit
         (\<lambda>b. is_ascii_lowercase b \<or> is_ascii_digit b \<or> b = CHR ''_'' \<or> b = CHR ''-'') value"

text \<open>\<open>TenantId\<close>, \<open>PrincipalId\<close>, \<open>RequestId\<close> and \<open>CorrelationId\<close> are one macro's instances.\<close>

definition logical_id_new :: "string \<Rightarrow> (string, auth_error) result" where
  "logical_id_new value = (if is_logical_id value then Inr value else Inl InvalidId)"

definition is_tool_id :: "string \<Rightarrow> bool" where
  "is_tool_id value \<longleftrightarrow> value \<noteq> [] \<and> length value \<le> MAX_TOOL_ID_BYTES
     \<and> is_ascii_alphanumeric (hd value) \<and> is_ascii_alphanumeric (last value)
     \<and> list_all (\<lambda>b. is_ascii_lowercase b \<or> is_ascii_digit b
          \<or> b = CHR ''-'' \<or> b = CHR ''_'' \<or> b = CHR ''.'') value"

definition is_lowercase_sha256 :: "string \<Rightarrow> bool" where
  "is_lowercase_sha256 value \<longleftrightarrow> length value = 64
     \<and> list_all (\<lambda>b. is_ascii_digit b \<or> CHR ''a'' \<le> b \<and> b \<le> CHR ''f'') value"

record auth_context_v1 =
  ac_tenant_id :: string
  ac_principal_id :: string
  ac_request_id :: string
  ac_correlation_id :: string

datatype capability_v1 =
    AgentDefinitionValidate | AgentDefinitionGet | AgentDefinitionList | AgentDefinitionRegister
  | AgentInvoke | WorkflowValidate | WorkflowStart | WorkflowGet | WorkflowList | WorkflowCancel
  | EvaluationValidate | EvaluationEvaluate | EvaluationGet | ObservabilityTelemetryQuery
  | ObservabilityTelemetryStatus | MemoryRemember | MemoryRecall | MemorySearch | MemoryForget
  | MemoryStatus

fun capability_as_str :: "capability_v1 \<Rightarrow> string" where
  "capability_as_str AgentDefinitionValidate = ''agent_definition_validate''"
| "capability_as_str AgentDefinitionGet = ''agent_definition_get''"
| "capability_as_str AgentDefinitionList = ''agent_definition_list''"
| "capability_as_str AgentDefinitionRegister = ''agent_definition_register''"
| "capability_as_str AgentInvoke = ''agent_invoke''"
| "capability_as_str WorkflowValidate = ''workflow_validate''"
| "capability_as_str WorkflowStart = ''workflow_start''"
| "capability_as_str WorkflowGet = ''workflow_get''"
| "capability_as_str WorkflowList = ''workflow_list''"
| "capability_as_str WorkflowCancel = ''workflow_cancel''"
| "capability_as_str EvaluationValidate = ''evaluation_validate''"
| "capability_as_str EvaluationEvaluate = ''evaluation_evaluate''"
| "capability_as_str EvaluationGet = ''evaluation_get''"
| "capability_as_str ObservabilityTelemetryQuery = ''observability_telemetry_query''"
| "capability_as_str ObservabilityTelemetryStatus = ''observability_telemetry_status''"
| "capability_as_str MemoryRemember = ''memory_remember''"
| "capability_as_str MemoryRecall = ''memory_recall''"
| "capability_as_str MemorySearch = ''memory_search''"
| "capability_as_str MemoryForget = ''memory_forget''"
| "capability_as_str MemoryStatus = ''memory_status''"

record grant_v1 =
  ag_allowed_tool_ids :: "string list"
  ag_memory_enabled :: bool
  ag_knowledge_enabled :: bool
  ag_sandbox_execution_allowed :: bool
  ag_communication_allowed :: bool

definition canonical_tools :: "string list \<Rightarrow> (string list, auth_error) result" where
  "canonical_tools tools =
     (let tools = bs_collect tools in
      if length tools > MAX_TOOL_IDS then Inl LimitExceeded
      else if list_ex (\<lambda>t. \<not> is_tool_id t) tools then Inl InvalidGrant
      else Inr tools)"

definition validate_grant :: "grant_v1 \<Rightarrow> (unit, auth_error) result" where
  "validate_grant grant =
     (if length (ag_allowed_tool_ids grant) > MAX_TOOL_IDS then Inl LimitExceeded
      else if list_ex (\<lambda>t. \<not> is_tool_id t) (ag_allowed_tool_ids grant) then Inl InvalidGrant
      else Inr ())"

definition grant_new :: "string list \<Rightarrow> bool \<Rightarrow> bool \<Rightarrow> bool \<Rightarrow> bool \<Rightarrow> (grant_v1, auth_error) result" where
  "grant_new tools memory knowledge sandbox communication =
     and_then (canonical_tools tools) (\<lambda>tools.
       let grant = \<lparr>ag_allowed_tool_ids = tools, ag_memory_enabled = memory, ag_knowledge_enabled = knowledge,
                    ag_sandbox_execution_allowed = sandbox, ag_communication_allowed = communication\<rparr>
       in and_then (validate_grant grant) (\<lambda>_. Inr grant))"

definition canonical_grant :: "grant_v1 \<Rightarrow> (grant_v1, auth_error) result" where
  "canonical_grant grant = grant_new (ag_allowed_tool_ids grant) (ag_memory_enabled grant)
     (ag_knowledge_enabled grant) (ag_sandbox_execution_allowed grant) (ag_communication_allowed grant)"

record authorization_request_v1 =
  aq_request_id :: string
  aq_correlation_id :: string
  aq_capability :: capability_v1

definition token_presentation_new :: "string \<Rightarrow> (string, auth_error) result" where
  "token_presentation_new raw =
     (if raw = [] \<or> length raw > MAX_TOKEN_PRESENTATION_BYTES then Inl InvalidToken else Inr raw)"

text \<open>\<open>SafeDenyReasonV1\<close> has the single value \<open>Denied\<close>, written \<open>"denied"\<close>.\<close>

datatype authorization_decision_v1 =
    Allow (dec_context: auth_context_v1) (dec_grant: grant_v1) (dec_digest: string)
  | Deny

definition validate_request_scope :: "authorization_request_v1 \<Rightarrow> auth_context_v1 \<Rightarrow> (unit, auth_error) result" where
  "validate_request_scope request context =
     (if ac_request_id context \<noteq> aq_request_id request \<or> ac_correlation_id context \<noteq> aq_correlation_id request
      then Inl InvalidId else Inr ())"

section \<open>Canonical bytes and decisions\<close>

definition boolean :: "bool \<Rightarrow> string" where
  "boolean value = (if value then ''true'' else ''false'')"

definition grant_canonical_bytes :: "grant_v1 \<Rightarrow> (string, auth_error) result" where
  "grant_canonical_bytes grant =
     and_then (canonical_grant grant) (\<lambda>grant. Inr
       (lp_fields [''auth-grant-v1'', nat_to_string (length (ag_allowed_tool_ids grant))]
        @ concat (map (\<lambda>t. lp_fields [t]) (ag_allowed_tool_ids grant))
        @ lp_fields [boolean (ag_memory_enabled grant), boolean (ag_knowledge_enabled grant),
            boolean (ag_sandbox_execution_allowed grant), boolean (ag_communication_allowed grant)]))"

definition grant_digest :: "(string \<Rightarrow> string) \<Rightarrow> grant_v1 \<Rightarrow> (string, auth_error) result" where
  "grant_digest sha256_hex grant = and_then (grant_canonical_bytes grant) (\<lambda>b. Inr (sha256_hex b))"

fun decision_canonical_bytes :: "authorization_request_v1 \<Rightarrow> authorization_decision_v1 \<Rightarrow> (string, auth_error) result"
where
  "decision_canonical_bytes request (Allow context effective_grant _) =
     and_then (validate_request_scope request context) (\<lambda>_.
     and_then (canonical_grant effective_grant) (\<lambda>grant. Inr
       (lp_fields [''auth-decision-v1'', ac_tenant_id context, ac_principal_id context, aq_request_id request,
          aq_correlation_id request, capability_as_str (aq_capability request), ''allow'', ''grant-present'']
        @ lp_fields [nat_to_string (length (ag_allowed_tool_ids grant))]
        @ concat (map (\<lambda>t. lp_fields [t]) (ag_allowed_tool_ids grant))
        @ lp_fields [boolean (ag_memory_enabled grant), boolean (ag_knowledge_enabled grant),
            boolean (ag_sandbox_execution_allowed grant), boolean (ag_communication_allowed grant)])))"
| "decision_canonical_bytes request Deny = Inr
     (lp_fields [''auth-decision-v1'', aq_request_id request, aq_correlation_id request,
        capability_as_str (aq_capability request), ''deny'', ''denied'', ''grant-absent''])"

definition decision_digest :: "(string \<Rightarrow> string) \<Rightarrow> authorization_request_v1 \<Rightarrow> authorization_decision_v1
    \<Rightarrow> (string, auth_error) result" where
  "decision_digest sha256_hex request decision =
     and_then (decision_canonical_bytes request decision) (\<lambda>b. Inr (sha256_hex b))"

fun verify_decision :: "(string \<Rightarrow> string) \<Rightarrow> authorization_request_v1 \<Rightarrow> authorization_decision_v1 \<Rightarrow> bool" where
  "verify_decision sha256_hex request (Allow context effective_grant supplied_digest) \<longleftrightarrow>
     (if \<not> is_ok (validate_request_scope request context) \<or> \<not> is_lowercase_sha256 supplied_digest then False
      else case canonical_grant effective_grant of
        Inl _ \<Rightarrow> False
      | Inr grant \<Rightarrow>
          if grant \<noteq> effective_grant then False
          else (case decision_digest sha256_hex request (Allow context grant []) of
              Inl _ \<Rightarrow> False | Inr expected_digest \<Rightarrow> supplied_digest = expected_digest))"
| "verify_decision sha256_hex request Deny \<longleftrightarrow> True"

definition allow_decision :: "(string \<Rightarrow> string) \<Rightarrow> authorization_request_v1 \<Rightarrow> auth_context_v1 \<Rightarrow> grant_v1
    \<Rightarrow> (authorization_decision_v1, auth_error) result" where
  "allow_decision sha256_hex request context effective_grant =
     and_then (validate_request_scope request context) (\<lambda>_.
     and_then (canonical_grant effective_grant) (\<lambda>grant.
     and_then (decision_digest sha256_hex request (Allow context grant [])) (\<lambda>digest.
       Inr (Allow context grant digest))))"

definition deny_decision :: authorization_decision_v1 where
  "deny_decision = Deny"

section \<open>The resolver over Biscuit tokens\<close>

definition MAX_TOKEN_BYTES :: nat where "MAX_TOKEN_BYTES = 8192"
definition MAX_BLOCKS :: nat where "MAX_BLOCKS = 16"
definition MAX_DATALOG_FACTS :: nat where "MAX_DATALOG_FACTS = 256"
definition MAX_DATALOG_RULES :: nat where "MAX_DATALOG_RULES = 64"
definition MAX_DATALOG_CHECKS :: nat where "MAX_DATALOG_CHECKS = 64"

text \<open>
  A fact is its predicate's name and terms. The Biscuit library is a record of the operations
  the adapter calls, for the injected root key and the fixed limits: \<open>from_base64\<close> with the
  signature check, the number of blocks, the decoded direct facts of the authority block, the
  authorizer built with a policy text and the current time, the number of its facts, rules and
  checks, the run of the policy and a query of single strings.
\<close>

datatype biscuit_term = TermStr string | TermOther

record biscuit_fact =
  bf_name :: string
  bf_terms :: "biscuit_term list"

record ('b, 'a) biscuit_library =
  from_base64 :: "string \<Rightarrow> 'b option"
  block_count :: "'b \<Rightarrow> nat"
  authority_facts :: "'b \<Rightarrow> biscuit_fact list option"
  build_authorizer :: "string \<Rightarrow> 'b \<Rightarrow> 'a option"
  dump :: "'a \<Rightarrow> nat \<times> nat \<times> nat"
  run_policy :: "'a \<Rightarrow> 'a option"
  run_query :: "string \<Rightarrow> 'a \<Rightarrow> string list option \<times> 'a"

definition adapter_token_size_is_allowed :: "nat \<Rightarrow> bool" where
  "adapter_token_size_is_allowed bytes \<longleftrightarrow> bytes \<le> MAX_TOKEN_BYTES"

definition string_fact :: "biscuit_fact \<Rightarrow> string option" where
  "string_fact f = (case bf_terms f of [TermStr value] \<Rightarrow> Some value | _ \<Rightarrow> None)"

definition exact_direct_string_fact :: "biscuit_fact list \<Rightarrow> string \<Rightarrow> string option" where
  "exact_direct_string_fact facts name =
     (case map string_fact (filter (\<lambda>f. bf_name f = name) facts) of
        [] \<Rightarrow> None
      | value # rest \<Rightarrow> (case value of None \<Rightarrow> None | Some v \<Rightarrow> if rest = [] then Some v else None))"

definition ok :: "('a, 'e) result \<Rightarrow> 'a option" where
  "ok r = (case r of Inl _ \<Rightarrow> None | Inr a \<Rightarrow> Some a)"

definition direct_authority_identity :: "('b, 'a) biscuit_library \<Rightarrow> 'b \<Rightarrow> (string \<times> string) option" where
  "direct_authority_identity lib biscuit =
     Option.bind (authority_facts lib biscuit) (\<lambda>facts.
     Option.bind (exact_direct_string_fact facts ''tenant'') (\<lambda>tenant.
     Option.bind (ok (logical_id_new tenant)) (\<lambda>tenant_id.
     Option.bind (exact_direct_string_fact facts ''principal'') (\<lambda>principal.
     Option.bind (ok (logical_id_new principal)) (\<lambda>principal_id.
       Some (tenant_id, principal_id))))))"

definition policy_text :: "string \<Rightarrow> string" where
  "policy_text wire = ''allow if capability(\"'' @ wire @ ''\") trusting authority;''"

definition tool_query :: string where
  "tool_query = ''tool($x) <- allowed_tool($x) trusting authority''"

definition grant_query :: string where
  "grant_query = ''g($x) <- grant($x) trusting authority''"

definition authorize_inner :: "(string \<Rightarrow> string) \<Rightarrow> ('b, 'a) biscuit_library \<Rightarrow> authorization_request_v1 \<Rightarrow> string
    \<Rightarrow> authorization_decision_v1 option" where
  "authorize_inner sha256_hex lib request token =
     (if \<not> adapter_token_size_is_allowed (length token) then None
      else Option.bind (from_base64 lib token) (\<lambda>biscuit.
        if block_count lib biscuit > MAX_BLOCKS then None
        else Option.bind (direct_authority_identity lib biscuit) (\<lambda>(tenant_id, principal_id).
          Option.bind (build_authorizer lib (policy_text (capability_as_str (aq_capability request))) biscuit) (\<lambda>authorizer.
            let (facts, rules, checks) = dump lib authorizer in
            if facts > MAX_DATALOG_FACTS \<or> rules > MAX_DATALOG_RULES \<or> checks > MAX_DATALOG_CHECKS then None
            else Option.bind (run_policy lib authorizer) (\<lambda>authorizer.
              let (tools, authorizer) = run_query lib tool_query authorizer in
              Option.bind tools (\<lambda>tool_ids.
              let (granted, _) = run_query lib grant_query authorizer in
              Option.bind granted (\<lambda>grants.
              Option.bind (ok (grant_new tool_ids (''memory'' \<in> set grants) (''knowledge'' \<in> set grants)
                (''sandbox'' \<in> set grants) (''communication'' \<in> set grants))) (\<lambda>grant.
              let context = \<lparr>ac_tenant_id = tenant_id, ac_principal_id = principal_id,
                ac_request_id = aq_request_id request, ac_correlation_id = aq_correlation_id request\<rparr> in
              Option.bind (ok (allow_decision sha256_hex request context grant)) (\<lambda>decision.
                if verify_decision sha256_hex request decision then Some decision else None)))))))))"

definition authorize :: "(string \<Rightarrow> string) \<Rightarrow> ('b, 'a) biscuit_library \<Rightarrow> authorization_request_v1 \<Rightarrow> string
    \<Rightarrow> authorization_decision_v1" where
  "authorize sha256_hex lib request token =
     (case authorize_inner sha256_hex lib request token of None \<Rightarrow> deny_decision | Some decision \<Rightarrow> decision)"

text \<open>The facts a minted token declares, in the order they are added.\<close>

definition str_fact :: "string \<Rightarrow> string \<Rightarrow> biscuit_fact" where
  "str_fact name value = \<lparr>bf_name = name, bf_terms = [TermStr value]\<rparr>"

definition mint_facts :: "string \<Rightarrow> string \<Rightarrow> capability_v1 list \<Rightarrow> grant_v1 \<Rightarrow> biscuit_fact list" where
  "mint_facts tenant_id principal_id capabilities grant =
     [str_fact ''tenant'' tenant_id, str_fact ''principal'' principal_id]
     @ map (\<lambda>c. str_fact ''capability'' (capability_as_str c)) capabilities
     @ map (str_fact ''allowed_tool'') (ag_allowed_tool_ids grant)
     @ map (\<lambda>(_, name). str_fact ''grant'' name)
         (filter fst [(ag_memory_enabled grant, ''memory''), (ag_knowledge_enabled grant, ''knowledge''),
           (ag_sandbox_execution_allowed grant, ''sandbox''), (ag_communication_allowed grant, ''communication'')])"

end
