(* ===== verification/Auth_Properties.thy ===== *)
theory Auth_Properties
  imports Auth
begin

text \<open>
  Properties of the auth crate: which decisions verify, what the Biscuit resolver can allow, and
  the round trip from a minted token to a decision.
\<close>

section \<open>Grants and decisions\<close>

definition grant_ok :: "grant_v1 \<Rightarrow> bool" where
  "grant_ok g \<longleftrightarrow> length (bs_collect (ag_allowed_tool_ids g)) \<le> MAX_TOOL_IDS
     \<and> (\<forall>t\<in>set (ag_allowed_tool_ids g). is_tool_id t)"

definition canonical_form :: "grant_v1 \<Rightarrow> grant_v1" where
  "canonical_form g = g\<lparr>ag_allowed_tool_ids := bs_collect (ag_allowed_tool_ids g)\<rparr>"

lemma auth_canonical_grant_Inr:
  "canonical_grant g = Inr c \<longleftrightarrow> grant_ok g \<and> c = canonical_form g"
  by (auto simp: canonical_form_def canonical_grant_def grant_new_def canonical_tools_def validate_grant_def
      grant_ok_def Let_def list_ex_iff result_simps split: if_splits)

lemma canonical_form_twice [simp]: "canonical_form (canonical_form g) = canonical_form g"
  by (simp add: canonical_form_def bs_collect_eq_iff)

lemma grant_ok_canonical [simp]: "grant_ok (canonical_form g) = grant_ok g"
  by (simp add: grant_ok_def canonical_form_def bs_collect_eq_iff)

lemma grant_new_canonical:
  assumes "grant_new ts m k s c = Inr g"
  shows "canonical_grant g = Inr g" and "set (ag_allowed_tool_ids g) = set ts"
    and "ag_memory_enabled g = m" "ag_knowledge_enabled g = k" "ag_sandbox_execution_allowed g = s"
      "ag_communication_allowed g = c"
proof -
  let ?g = "\<lparr>ag_allowed_tool_ids = ts, ag_memory_enabled = m, ag_knowledge_enabled = k,
    ag_sandbox_execution_allowed = s, ag_communication_allowed = c\<rparr>"
  from assms have "canonical_grant ?g = Inr g" by (simp add: canonical_grant_def)
  then have "grant_ok ?g" "g = canonical_form ?g" by (simp_all add: auth_canonical_grant_Inr)
  then show "canonical_grant g = Inr g" "set (ag_allowed_tool_ids g) = set ts"
    "ag_memory_enabled g = m" "ag_knowledge_enabled g = k" "ag_sandbox_execution_allowed g = s"
    "ag_communication_allowed g = c"
    by (simp_all add: auth_canonical_grant_Inr) (simp_all add: canonical_form_def)
qed

lemma auth_boolean_inject [simp]: "boolean a = boolean b \<longleftrightarrow> a = b"
  by (simp add: boolean_def)

definition auth_capabilities :: "capability_v1 list" where
  "auth_capabilities =
     [AgentDefinitionValidate, AgentDefinitionGet, AgentDefinitionList, AgentDefinitionRegister,
      AgentInvoke, WorkflowValidate, WorkflowStart, WorkflowGet, WorkflowList, WorkflowCancel,
      EvaluationValidate, EvaluationEvaluate, EvaluationGet, ObservabilityTelemetryQuery,
      ObservabilityTelemetryStatus, MemoryRemember, MemoryRecall, MemorySearch, MemoryForget, MemoryStatus]"

lemma auth_capability_as_str_inject [simp]: "capability_as_str a = capability_as_str b \<longleftrightarrow> a = b"
proof -
  have all: "c \<in> set auth_capabilities" for c by (cases c) (simp_all add: auth_capabilities_def)
  have "distinct (map capability_as_str auth_capabilities)" by code_simp
  with all [of a] all [of b] show ?thesis by (auto simp: distinct_map inj_on_def)
qed

definition grant_fields :: "grant_v1 \<Rightarrow> string list" where
  "grant_fields g = nat_to_string (length (ag_allowed_tool_ids g)) # ag_allowed_tool_ids g
     @ map boolean [ag_memory_enabled g, ag_knowledge_enabled g, ag_sandbox_execution_allowed g,
         ag_communication_allowed g]"

lemma auth_grant_fields_inject: "grant_fields g = grant_fields h \<Longrightarrow> g = h"
  by (cases g, cases h) (auto simp: grant_fields_def)

definition allow_encoding :: "authorization_request_v1 \<Rightarrow> auth_context_v1 \<Rightarrow> grant_v1 \<Rightarrow> string" where
  "allow_encoding r ctx g = lp_fields ([''auth-decision-v1'', ac_tenant_id ctx, ac_principal_id ctx,
     aq_request_id r, aq_correlation_id r, capability_as_str (aq_capability r), ''allow'', ''grant-present'']
     @ grant_fields g)"

lemma auth_decision_canonical_bytes_Allow:
  "decision_canonical_bytes r (Allow ctx g d) = Inr b \<longleftrightarrow>
     validate_request_scope r ctx = Inr () \<and> grant_ok g \<and> b = allow_encoding r ctx (canonical_form g)"
  by (auto simp: result_simps auth_canonical_grant_Inr allow_encoding_def grant_fields_def canonical_simps)

lemma allow_decision_Inr:
  "allow_decision sha256_hex r ctx g = Inr d \<longleftrightarrow>
     validate_request_scope r ctx = Inr () \<and> grant_ok g
     \<and> d = Allow ctx (canonical_form g) (sha256_hex (allow_encoding r ctx (canonical_form g)))"
  by (auto simp: allow_decision_def result_simps auth_canonical_grant_Inr decision_digest_def
      auth_decision_canonical_bytes_Allow simp del: decision_canonical_bytes.simps)

lemma verify_decision_Allow:
  assumes "\<And>b. is_lowercase_sha256 (sha256_hex b)"
  shows "verify_decision sha256_hex r (Allow ctx g d) \<longleftrightarrow> allow_decision sha256_hex r ctx g = Inr (Allow ctx g d)"
proof (cases "canonical_grant g")
  case (Inl e)
  then show ?thesis by (auto simp: allow_decision_def result_simps split: if_splits)
next
  case (Inr c)
  then have c: "grant_ok g" "c = canonical_form g" by (simp_all add: auth_canonical_grant_Inr)
  have "decision_digest sha256_hex r (Allow ctx c []) = (case validate_request_scope r ctx of
      Inl e \<Rightarrow> Inl e | Inr _ \<Rightarrow> Inr (sha256_hex (allow_encoding r ctx c)))"
    using c by (cases "validate_request_scope r ctx")
      (auto simp: decision_digest_def auth_decision_canonical_bytes_Allow result_simps
        simp del: decision_canonical_bytes.simps, simp)
  with Inr c assms show ?thesis
    by (cases "validate_request_scope r ctx") (auto simp: allow_decision_Inr)
qed

lemma allow_encoding_inject:
  assumes "allow_encoding r ctx g = allow_encoding r' ctx' g'"
    and "validate_request_scope r ctx = Inr ()" and "validate_request_scope r' ctx' = Inr ()"
  shows "r = r' \<and> ctx = ctx' \<and> g = g'"
proof -
  from assms(1) have "ac_tenant_id ctx = ac_tenant_id ctx'" "ac_principal_id ctx = ac_principal_id ctx'"
    "aq_request_id r = aq_request_id r'" "aq_correlation_id r = aq_correlation_id r'"
    "aq_capability r = aq_capability r'" "grant_fields g = grant_fields g'"
    by (simp_all add: allow_encoding_def)
  with assms(2,3) show ?thesis
    by (auto simp: validate_request_scope_def dest: auth_grant_fields_inject split: if_splits
        intro!: auth_context_v1.equality authorization_request_v1.equality)
qed

section \<open>The Biscuit resolver\<close>

lemma ok_Some [simp]: "ok r = Some a \<longleftrightarrow> r = Inr a"
  by (auto simp: ok_def split: sum.splits)

lemma string_fact_Some: "string_fact f = Some v \<longleftrightarrow> bf_terms f = [TermStr v]"
  by (auto simp: string_fact_def split: list.splits biscuit_term.splits)

lemma exact_direct_string_fact_Some:
  "exact_direct_string_fact facts name = Some v \<longleftrightarrow>
     filter (\<lambda>f. bf_name f = name) facts = [str_fact name v]"
proof (cases "filter (\<lambda>f. bf_name f = name) facts")
  case Nil
  then show ?thesis by (simp add: exact_direct_string_fact_def)
next
  case (Cons f fs)
  then have "f \<in> set (filter (\<lambda>f. bf_name f = name) facts)" by simp
  then have "bf_name f = name" by simp
  then have "f = str_fact name v \<longleftrightarrow> string_fact f = Some v"
    by (cases f) (auto simp: string_fact_Some str_fact_def)
  with Cons show ?thesis
    by (cases "string_fact f") (auto simp: exact_direct_string_fact_def)
qed

lemma authorize_Allow:
  assumes "authorize sha256_hex lib r token = Allow ctx g d"
  obtains b facts a a' ts gs where "length token \<le> 8192" "from_base64 lib token = Some b" "block_count lib b \<le> 16"
    "authority_facts lib b = Some facts"
    "filter (\<lambda>f. bf_name f = ''tenant'') facts = [str_fact ''tenant'' (ac_tenant_id ctx)]"
    "filter (\<lambda>f. bf_name f = ''principal'') facts = [str_fact ''principal'' (ac_principal_id ctx)]"
    "is_logical_id (ac_tenant_id ctx)" "is_logical_id (ac_principal_id ctx)"
    "build_authorizer lib (policy_text (capability_as_str (aq_capability r))) b = Some a" "run_policy lib a = Some a'"
    "fst (run_query lib tool_query a') = Some ts"
    "fst (run_query lib grant_query (snd (run_query lib tool_query a'))) = Some gs"
    "grant_new ts (''memory'' \<in> set gs) (''knowledge'' \<in> set gs) (''sandbox'' \<in> set gs) (''communication'' \<in> set gs) = Inr g"
    "ac_request_id ctx = aq_request_id r" "ac_correlation_id ctx = aq_correlation_id r"
    "verify_decision sha256_hex r (Allow ctx g d)"
proof -
  from assms have "authorize_inner sha256_hex lib r token = Some (Allow ctx g d)"
    by (auto simp: authorize_def deny_decision_def split: option.splits)
  then obtain b tenant principal a a' ts gs g0 where *: "length token \<le> 8192" "from_base64 lib token = Some b"
    "block_count lib b \<le> 16" "direct_authority_identity lib b = Some (tenant, principal)"
    "build_authorizer lib (policy_text (capability_as_str (aq_capability r))) b = Some a" "run_policy lib a = Some a'"
    "fst (run_query lib tool_query a') = Some ts"
    "fst (run_query lib grant_query (snd (run_query lib tool_query a'))) = Some gs"
    "grant_new ts (''memory'' \<in> set gs) (''knowledge'' \<in> set gs) (''sandbox'' \<in> set gs) (''communication'' \<in> set gs) = Inr g0"
    and allow: "allow_decision sha256_hex r \<lparr>ac_tenant_id = tenant, ac_principal_id = principal,
        ac_request_id = aq_request_id r, ac_correlation_id = aq_correlation_id r\<rparr> g0 = Inr (Allow ctx g d)"
    and verified: "verify_decision sha256_hex r (Allow ctx g d)"
    by (auto simp: authorize_inner_def adapter_token_size_is_allowed_def MAX_TOKEN_BYTES_def MAX_BLOCKS_def Let_def
        bind_eq_Some_conv not_less case_prod_unfold simp del: verify_decision.simps split: if_splits)
  have "canonical_form g0 = g0" using grant_new_canonical(1) [OF *(9)] by (simp add: auth_canonical_grant_Inr)
  with allow have eqs: "ctx = \<lparr>ac_tenant_id = tenant, ac_principal_id = principal,
        ac_request_id = aq_request_id r, ac_correlation_id = aq_correlation_id r\<rparr>" "g = g0"
    by (auto simp: allow_decision_Inr)
  from *(4) obtain facts where "authority_facts lib b = Some facts"
    "filter (\<lambda>f. bf_name f = ''tenant'') facts = [str_fact ''tenant'' tenant]"
    "filter (\<lambda>f. bf_name f = ''principal'') facts = [str_fact ''principal'' principal]"
    "is_logical_id tenant" "is_logical_id principal"
    by (auto simp: direct_authority_identity_def bind_eq_Some_conv exact_direct_string_fact_Some logical_id_new_def
        split: if_splits)
  with * eqs verified show thesis by (intro that) auto
qed

section \<open>Minted tokens\<close>

text \<open>What the Biscuit library documents for a token with one block of these facts and no checks or
  rules, within its limits: the policy \<open>allow if capability(w) trusting authority\<close> succeeds
  exactly when that fact is declared, and a query returns the strings of the facts it names.\<close>

definition fact_values :: "string \<Rightarrow> biscuit_fact list \<Rightarrow> string list" where
  "fact_values name facts = List.map_filter string_fact (filter (\<lambda>f. bf_name f = name) facts)"

definition engine_runs :: "('b, 'a) biscuit_library \<Rightarrow> 'b \<Rightarrow> biscuit_fact list \<Rightarrow> bool" where
  "engine_runs lib b facts \<longleftrightarrow> (\<forall>cap. \<exists>a. build_authorizer lib (policy_text (capability_as_str cap)) b = Some a
     \<and> (let (f, r, c) = dump lib a in f \<le> 256 \<and> r \<le> 64 \<and> c \<le> 64)
     \<and> (if str_fact ''capability'' (capability_as_str cap) \<in> set facts
        then \<exists>a'. run_policy lib a = Some a'
          \<and> run_query lib tool_query a' = (Some (fact_values ''allowed_tool'' facts), a')
          \<and> run_query lib grant_query a' = (Some (fact_values ''grant'' facts), a')
        else run_policy lib a = None))"

lemma fact_values_simps [simp]:
  "fact_values name (xs @ ys) = fact_values name xs @ fact_values name ys"
  "fact_values name [] = []"
  "fact_values name (str_fact other v # fs) = (if other = name then v # fact_values name fs else fact_values name fs)"
  "fact_values name (map (str_fact other) vs) = (if other = name then vs else [])"
  "fact_values name (map (\<lambda>c. str_fact other (f c)) cs) = (if other = name then map f cs else [])"
  by (simp_all add: fact_values_def map_filter_def str_fact_def string_fact_def o_def filter_map)

lemma mint_facts_identity:
  "filter (\<lambda>f. bf_name f = ''tenant'') (mint_facts t p caps g) = [str_fact ''tenant'' t]"
  "filter (\<lambda>f. bf_name f = ''principal'') (mint_facts t p caps g) = [str_fact ''principal'' p]"
  by (auto simp: mint_facts_def str_fact_def filter_empty_conv)

lemma mint_facts_capability:
  "str_fact ''capability'' (capability_as_str c) \<in> set (mint_facts t p caps g) \<longleftrightarrow> c \<in> set caps"
  by (auto simp: mint_facts_def str_fact_def)

lemma mint_facts_values:
  "fact_values ''allowed_tool'' (mint_facts t p caps g) = ag_allowed_tool_ids g"
  "''memory'' \<in> set (fact_values ''grant'' (mint_facts t p caps g)) \<longleftrightarrow> ag_memory_enabled g"
  "''knowledge'' \<in> set (fact_values ''grant'' (mint_facts t p caps g)) \<longleftrightarrow> ag_knowledge_enabled g"
  "''sandbox'' \<in> set (fact_values ''grant'' (mint_facts t p caps g)) \<longleftrightarrow> ag_sandbox_execution_allowed g"
  "''communication'' \<in> set (fact_values ''grant'' (mint_facts t p caps g)) \<longleftrightarrow> ag_communication_allowed g"
  by (simp_all add: mint_facts_def)

lemma minted_decision:
  assumes "\<And>b. is_lowercase_sha256 (sha256_hex b)"
    and "is_logical_id tenant" and "is_logical_id subject" and "canonical_grant g = Inr g"
    and "length token \<le> 8192" and "from_base64 lib token = Some b" and "block_count lib b \<le> 16"
    and "authority_facts lib b = Some (mint_facts tenant subject caps g)"
    and "engine_runs lib b (mint_facts tenant subject caps g)"
  shows "authorize sha256_hex lib r token = (if aq_capability r \<in> set caps
    then let ctx = \<lparr>ac_tenant_id = tenant, ac_principal_id = subject,
        ac_request_id = aq_request_id r, ac_correlation_id = aq_correlation_id r\<rparr>
      in Allow ctx g (sha256_hex (allow_encoding r ctx g))
    else Deny)"
proof -
  let ?facts = "mint_facts tenant subject caps g"
  let ?ctx = "\<lparr>ac_tenant_id = tenant, ac_principal_id = subject,
        ac_request_id = aq_request_id r, ac_correlation_id = aq_correlation_id r\<rparr>"
  have identity: "direct_authority_identity lib b = Some (tenant, subject)"
    using assms(2,3,8) exact_direct_string_fact_Some mint_facts_identity
    by (auto simp: direct_authority_identity_def logical_id_new_def bind_eq_Some_conv)
  from assms(9) obtain a where a: "build_authorizer lib (policy_text (capability_as_str (aq_capability r))) b = Some a"
      "case dump lib a of (f, ru, c) \<Rightarrow> f \<le> 256 \<and> ru \<le> 64 \<and> c \<le> 64"
    and policy: "if aq_capability r \<in> set caps
        then \<exists>a'. run_policy lib a = Some a'
          \<and> run_query lib tool_query a' = (Some (fact_values ''allowed_tool'' ?facts), a')
          \<and> run_query lib grant_query a' = (Some (fact_values ''grant'' ?facts), a')
        else run_policy lib a = None"
    unfolding engine_runs_def mint_facts_capability [symmetric, of "aq_capability r" caps tenant subject g] Let_def by meson
  have grant: "grant_new (ag_allowed_tool_ids g) (ag_memory_enabled g) (ag_knowledge_enabled g)
      (ag_sandbox_execution_allowed g) (ag_communication_allowed g) = Inr g"
    using assms(4) by (simp add: canonical_grant_def)
  have scope: "validate_request_scope r ?ctx = Inr ()" by (simp add: validate_request_scope_def)
  have ok: "grant_ok g" "canonical_form g = g" using assms(4) by (simp_all add: auth_canonical_grant_Inr)
  then have d: "allow_decision sha256_hex r ?ctx g = Inr (Allow ?ctx g (sha256_hex (allow_encoding r ?ctx g)))"
    using scope by (simp add: allow_decision_Inr)
  then have "verify_decision sha256_hex r (Allow ?ctx g (sha256_hex (allow_encoding r ?ctx g)))"
    by (simp add: verify_decision_Allow [of sha256_hex, OF assms(1)] del: verify_decision.simps)
  with identity a policy grant d assms(5-7) show ?thesis
    by (auto simp: authorize_def authorize_inner_def adapter_token_size_is_allowed_def MAX_TOKEN_BYTES_def MAX_BLOCKS_def
        MAX_DATALOG_FACTS_def MAX_DATALOG_RULES_def MAX_DATALOG_CHECKS_def Let_def mint_facts_values deny_decision_def ok_def
        simp del: verify_decision.simps split: prod.splits)
qed

section \<open>Properties\<close>

text \<open>An allow decision verifies exactly when it is the decision that issuing it for the request
  would produce, and the bytes its digest covers determine the whole request, the identity and
  the canonical grant: no other request, identity, grant or denial has the same bytes.\<close>

lemma auth_decisions_bound:
  assumes "\<And>b. is_lowercase_sha256 (sha256_hex b)"
  shows "(verify_decision sha256_hex r (Allow ctx g d) \<longleftrightarrow> allow_decision sha256_hex r ctx g = Inr (Allow ctx g d))
    \<and> (decision_canonical_bytes r (Allow ctx g d) = Inr b \<and> decision_canonical_bytes r' decision = Inr b \<longrightarrow>
        r = r' \<and> (\<exists>g' d'. decision = Allow ctx g' d' \<and> canonical_grant g' = canonical_grant g))"
proof (intro conjI impI)
  show "verify_decision sha256_hex r (Allow ctx g d) \<longleftrightarrow> allow_decision sha256_hex r ctx g = Inr (Allow ctx g d)"
    by (rule verify_decision_Allow [of sha256_hex, OF assms])
next
  assume "decision_canonical_bytes r (Allow ctx g d) = Inr b \<and> decision_canonical_bytes r' decision = Inr b"
  then have b: "b = allow_encoding r ctx (canonical_form g)" "validate_request_scope r ctx = Inr ()" "grant_ok g"
    and other: "decision_canonical_bytes r' decision = Inr b"
    by (simp_all add: auth_decision_canonical_bytes_Allow del: decision_canonical_bytes.simps)
  show "r = r'" "\<exists>g' d'. decision = Allow ctx g' d' \<and> canonical_grant g' = canonical_grant g"
  proof (atomize (full), cases decision)
    case (Allow ctx' g' d')
    with other have "allow_encoding r ctx (canonical_form g) = allow_encoding r' ctx' (canonical_form g')"
      "validate_request_scope r' ctx' = Inr ()" "grant_ok g'"
      by (simp_all add: auth_decision_canonical_bytes_Allow b(1) del: decision_canonical_bytes.simps)
    from allow_encoding_inject [OF this(1) b(2) this(2)] Allow this(3) b(3)
    show "r = r' \<and> (\<exists>g' d'. decision = Allow ctx g' d' \<and> canonical_grant g' = canonical_grant g)"
      using auth_canonical_grant_Inr by metis
  next
    case Deny
    with other b(1)
    show "r = r' \<and> (\<exists>g' d'. decision = Allow ctx g' d' \<and> canonical_grant g' = canonical_grant g)"
      by (simp add: allow_encoding_def)
  qed
qed

text \<open>C13: The Biscuit resolver fails closed. An allow decision needs a token within the size limit
  that the library verified against the root key, at most 16 blocks, exactly one direct tenant
  fact and one direct principal fact in its authority block, valid and copied to the decision,
  and a successful run of the policy for the requested capability; its grant is built from the
  queried facts, it is bound to the request and it verifies.\<close>

theorem biscuit_authorize_sound:
  assumes "authorize sha256_hex lib r token = Allow ctx g d"
  shows "length token \<le> 8192 \<and> (\<exists>b facts a a' ts gs.
      from_base64 lib token = Some b \<and> block_count lib b \<le> 16 \<and> authority_facts lib b = Some facts
      \<and> filter (\<lambda>f. bf_name f = ''tenant'') facts = [str_fact ''tenant'' (ac_tenant_id ctx)]
      \<and> filter (\<lambda>f. bf_name f = ''principal'') facts = [str_fact ''principal'' (ac_principal_id ctx)]
      \<and> is_logical_id (ac_tenant_id ctx) \<and> is_logical_id (ac_principal_id ctx)
      \<and> build_authorizer lib (policy_text (capability_as_str (aq_capability r))) b = Some a
      \<and> run_policy lib a = Some a' \<and> fst (run_query lib tool_query a') = Some ts
      \<and> fst (run_query lib grant_query (snd (run_query lib tool_query a'))) = Some gs
      \<and> set (ag_allowed_tool_ids g) = set ts \<and> (ag_memory_enabled g \<longleftrightarrow> ''memory'' \<in> set gs)
      \<and> (ag_knowledge_enabled g \<longleftrightarrow> ''knowledge'' \<in> set gs) \<and> (ag_sandbox_execution_allowed g \<longleftrightarrow> ''sandbox'' \<in> set gs)
      \<and> (ag_communication_allowed g \<longleftrightarrow> ''communication'' \<in> set gs))
    \<and> ac_request_id ctx = aq_request_id r \<and> ac_correlation_id ctx = aq_correlation_id r
    \<and> verify_decision sha256_hex r (Allow ctx g d)"
  using assms
proof (cases rule: authorize_Allow)
  case (1 b facts a a' ts gs)
  note grant = grant_new_canonical [OF 1(13)]
  show ?thesis
    by (intro conjI exI [of _ b] exI [of _ facts] exI [of _ a] exI [of _ a'] exI [of _ ts] exI [of _ gs])
      (simp_all only: 1 grant)
qed


section \<open>A library to run\<close>

definition demo_grant :: grant_v1 where
  "demo_grant = \<lparr>ag_allowed_tool_ids = [''a''], ag_memory_enabled = True, ag_knowledge_enabled = False,
     ag_sandbox_execution_allowed = False, ag_communication_allowed = False\<rparr>"

definition demo_facts :: "biscuit_fact list" where
  "demo_facts = mint_facts ''t'' ''p'' [AgentInvoke] demo_grant"

definition demo_library :: "(biscuit_fact list, biscuit_fact list \<times> string) biscuit_library" where
  "demo_library =
     \<lparr>from_base64 = (\<lambda>token. if token = ''token'' then Some demo_facts else None), block_count = (\<lambda>_. 1),
      authority_facts = Some, build_authorizer = (\<lambda>policy b. Some (b, policy)), dump = (\<lambda>a. (length (fst a), 0, 0)),
      run_policy = (\<lambda>(b, policy). if policy \<in> set (map policy_text (fact_values ''capability'' b)) then Some (b, policy) else None),
      run_query = (\<lambda>query a. (Some (fact_values (if query = tool_query then ''allowed_tool'' else ''grant'') (fst a)), a))\<rparr>"

definition demo_sha :: "string \<Rightarrow> string" where
  "demo_sha b = replicate 64 (CHR ''a'')"

definition demo_request :: "capability_v1 \<Rightarrow> authorization_request_v1" where
  "demo_request c = \<lparr>aq_request_id = ''r'', aq_correlation_id = ''c'', aq_capability = c\<rparr>"

lemma demo_sha_hex: "is_lowercase_sha256 (demo_sha b)"
  by (simp add: demo_sha_def is_lowercase_sha256_def list_all_iff ascii_defs less_eq_char_def)

lemma demo_grant_ok: "canonical_grant demo_grant = Inr demo_grant"
  by (simp add: auth_canonical_grant_Inr grant_ok_def canonical_form_def demo_grant_def bs_collect_def MAX_TOOL_IDS_def
      is_tool_id_def MAX_TOOL_ID_BYTES_def ascii_defs less_eq_char_def)

lemma demo_ids: "is_logical_id ''t''" "is_logical_id ''p''"
  by (simp_all add: is_logical_id_def MAX_LOGICAL_ID_BYTES_def lower_or_digit_def ascii_defs less_eq_char_def)

lemma demo_engine: "engine_runs demo_library demo_facts demo_facts"
proof -
  have "fact_values ''capability'' demo_facts = [''agent_invoke'']" "length demo_facts = 5"
    by (simp_all add: demo_facts_def mint_facts_def demo_grant_def)
  moreover have "str_fact ''capability'' wire \<in> set demo_facts \<longleftrightarrow> wire = ''agent_invoke''" for wire
    by (auto simp: demo_facts_def mint_facts_def demo_grant_def str_fact_def)
  moreover have "policy_text w = policy_text v \<longleftrightarrow> w = v" for w v by (simp add: policy_text_def)
  moreover have "grant_query \<noteq> tool_query" by (simp add: grant_query_def tool_query_def)
  ultimately show ?thesis by (simp add: engine_runs_def demo_library_def)
qed

lemma demo_round_trip_facts:
  "length ''token'' \<le> 8192" "from_base64 demo_library ''token'' = Some demo_facts"
  "block_count demo_library demo_facts \<le> 16"
  "authority_facts demo_library demo_facts = Some (mint_facts ''t'' ''p'' [AgentInvoke] demo_grant)"
  "engine_runs demo_library demo_facts (mint_facts ''t'' ''p'' [AgentInvoke] demo_grant)"
  using demo_engine by (simp_all add: demo_library_def demo_facts_def)


definition demo_context :: auth_context_v1 where
  "demo_context = \<lparr>ac_tenant_id = ''t'', ac_principal_id = ''p'', ac_request_id = ''r'', ac_correlation_id = ''c''\<rparr>"

lemma demo_allowed:
  "\<exists>d. allow_decision demo_sha (demo_request AgentInvoke) demo_context demo_grant = Inr (Allow demo_context demo_grant d)"
  using demo_grant_ok
  by (simp add: allow_decision_Inr auth_canonical_grant_Inr validate_request_scope_def demo_request_def demo_context_def)

lemma auth_decisions_bound_witness:
  "\<exists>d. verify_decision demo_sha (demo_request AgentInvoke) (Allow demo_context demo_grant d)
     \<and> \<not> verify_decision demo_sha (demo_request AgentInvoke) (Allow demo_context (demo_grant\<lparr>ag_allowed_tool_ids := [''b'', ''a'']\<rparr>) d)"
proof -
  obtain d where d: "allow_decision demo_sha (demo_request AgentInvoke) demo_context demo_grant
      = Inr (Allow demo_context demo_grant d)" using demo_allowed by blast
  have "verify_decision demo_sha (demo_request AgentInvoke) (Allow demo_context demo_grant d)"
    using auth_decisions_bound [of demo_sha, OF demo_sha_hex] d by blast
  moreover have "\<not> verify_decision demo_sha (demo_request AgentInvoke)
      (Allow demo_context (demo_grant\<lparr>ag_allowed_tool_ids := [''b'', ''a'']\<rparr>) d)"
    using auth_decisions_bound [of demo_sha, OF demo_sha_hex]
    by (auto simp: allow_decision_Inr canonical_form_def demo_grant_def bs_collect_def less_char_def
        simp del: verify_decision.simps)
  ultimately show ?thesis by blast
qed

lemma demo_authorized: "\<exists>d. authorize demo_sha demo_library (demo_request AgentInvoke) ''token'' = Allow demo_context demo_grant d"
  using minted_decision [of demo_sha, OF demo_sha_hex demo_ids demo_grant_ok demo_round_trip_facts, of "demo_request AgentInvoke"]
  by (simp add: demo_request_def demo_context_def Let_def)

theorem biscuit_authorize_sound_witness:
  "\<exists>d. authorize demo_sha demo_library (demo_request AgentInvoke) ''token'' = Allow demo_context demo_grant d
     \<and> verify_decision demo_sha (demo_request AgentInvoke) (Allow demo_context demo_grant d)"
  using demo_authorized biscuit_authorize_sound by blast

end
