(* ===== verification/Agentic.thy ===== *)
theory Agentic
  imports Memory_Properties
begin

text \<open>
  The adapter of the memory crate over the \<open>agentic-memory\<close> graph library
  (\<open>memory/src/agentic.rs\<close>): one graph per tenant and namespace, an index from keys to node
  identifiers and, beside the graph, the fields a node cannot hold. The graph library is a
  parameter: a record of the operations the adapter calls.
\<close>

section \<open>The graph library\<close>

datatype event_type = Fact | Decision | Skill | Episode | Inference | Correction

record cognitive_event =
  ce_event_type :: event_type
  ce_content :: string
  ce_created_at :: u64

record graph_node =
  gn_id :: u64
  gn_event_type :: event_type
  gn_content :: string

record 'g graph_library =
  graph_new :: 'g
  add_node :: "'g \<Rightarrow> cognitive_event \<Rightarrow> u64 option \<times> 'g"
  remove_node :: "'g \<Rightarrow> u64 \<Rightarrow> bool \<times> 'g"
  nodes :: "'g \<Rightarrow> graph_node list"
  get_node :: "'g \<Rightarrow> u64 \<Rightarrow> graph_node option"

section \<open>The store\<close>

record side_car =
  sd_tags :: "string list"
  sd_metadata :: metadata
  sd_provenance :: "provenance option"

definition side_car_default :: side_car where
  "side_car_default = \<lparr>sd_tags = [], sd_metadata = [], sd_provenance = None\<rparr>"

record 'g agentic_partition =
  ap_graph :: "'g option"
  ap_ids :: "(string, u64) btree_map"
  ap_sidecars :: "(u64, side_car) btree_map"

definition agentic_partition_default :: "'g agentic_partition" where
  "agentic_partition_default = \<lparr>ap_graph = None, ap_ids = [], ap_sidecars = []\<rparr>"

definition graph_mut :: "'g graph_library \<Rightarrow> 'g agentic_partition \<Rightarrow> 'g" where
  "graph_mut lib part = (case ap_graph part of None \<Rightarrow> graph_new lib | Some g \<Rightarrow> g)"

type_synonym 'g agentic_tenant = "(string, 'g agentic_partition) btree_map"

record 'g agentic_store =
  ags_tenants :: "(string, 'g agentic_tenant) btree_map mutex"

definition agentic_store_new :: "'g agentic_store" where
  "agentic_store_new = \<lparr>ags_tenants = mutex_new []\<rparr>"

fun event_type_of :: "memory_kind \<Rightarrow> event_type" where
  "event_type_of Factual = Fact"
| "event_type_of Preference = Decision"
| "event_type_of Procedural = Skill"
| "event_type_of Episodic = Episode"

fun kind_of :: "event_type \<Rightarrow> memory_kind" where
  "kind_of Fact = Factual"
| "kind_of Inference = Factual"
| "kind_of Correction = Factual"
| "kind_of Decision = Preference"
| "kind_of Skill = Procedural"
| "kind_of Episode = Episodic"

definition assemble :: "graph_node \<Rightarrow> side_car \<Rightarrow> tenant_id \<Rightarrow> namespace_id \<Rightarrow> record_key \<Rightarrow> memory_record" where
  "assemble node sidecar t n k =
     \<lparr>mr_tenant_id = t, mr_namespace = n, mr_key = k, mr_kind = kind_of (gn_event_type node),
      mr_content = gn_content node, mr_tags = sd_tags sidecar, mr_metadata = sd_metadata sidecar,
      mr_provenance = sd_provenance sidecar\<rparr>"

definition sidecar_of :: "'g agentic_partition \<Rightarrow> u64 \<Rightarrow> side_car" where
  "sidecar_of part i = (case bt_get (ap_sidecars part) i of None \<Rightarrow> side_car_default | Some s \<Rightarrow> s)"

definition rebuild :: "'g graph_library \<Rightarrow> 'g agentic_partition \<Rightarrow> u64 \<Rightarrow> tenant_id \<Rightarrow> namespace_id \<Rightarrow> record_key
    \<Rightarrow> memory_record option" where
  "rebuild lib part i t n k =
     Option.bind (ap_graph part) (\<lambda>g. Option.bind (get_node lib g i) (\<lambda>node.
       Some (assemble node (sidecar_of part i) t n k)))"

definition event_of :: "memory_record \<Rightarrow> cognitive_event" where
  "event_of record =
     \<lparr>ce_event_type = event_type_of (mr_kind record), ce_content = mr_content record,
      ce_created_at = (case mr_provenance record of None \<Rightarrow> 0 | Some p \<Rightarrow> pv_recorded_at p)\<rparr>"

text \<open>The part of \<open>put\<close> that changes one partition. A failed insertion keeps the graph it touched.\<close>

definition put_partition :: "'g graph_library \<Rightarrow> 'g agentic_partition \<Rightarrow> memory_record
    \<Rightarrow> (write_outcome, memory_error) result \<times> 'g agentic_partition" where
  "put_partition lib part record =
     (case add_node lib (graph_mut lib part) (event_of record) of
        (None, g) \<Rightarrow> (Inl AdapterFailure, part\<lparr>ap_graph := Some g\<rparr>)
      | (Some i, g) \<Rightarrow>
          let replaced = bt_get (ap_ids part) (mr_key record);
              g' = (case replaced of None \<Rightarrow> g | Some previous \<Rightarrow> snd (remove_node lib g previous));
              sidecars = (case replaced of None \<Rightarrow> ap_sidecars part
                | Some previous \<Rightarrow> bt_remove previous (ap_sidecars part)) in
          (Inr (if replaced \<noteq> None then Replaced else Created),
           \<lparr>ap_graph = Some g', ap_ids = bt_insert (mr_key record) i (ap_ids part),
            ap_sidecars = bt_insert i \<lparr>sd_tags = mr_tags record, sd_metadata = mr_metadata record,
              sd_provenance = mr_provenance record\<rparr> sidecars\<rparr>))"

definition agentic_put_tenants :: "'g graph_library \<Rightarrow> (string, 'g agentic_tenant) btree_map \<Rightarrow> memory_record
    \<Rightarrow> (write_outcome, memory_error) result \<times> (string, 'g agentic_tenant) btree_map" where
  "agentic_put_tenants lib tenants record =
     (let tenants = or_default tenants (mr_tenant_id record);
          tenant = entry_value tenants (mr_tenant_id record);
          existing = bt_get tenant (mr_namespace record) in
      case check_capacity (length tenant) (existing = None)
          (case existing of None \<Rightarrow> 0 | Some held \<Rightarrow> length (ap_ids held))
          (case existing of None \<Rightarrow> True | Some held \<Rightarrow> \<not> bt_contains_key (ap_ids held) (mr_key record)) of
        Inl e \<Rightarrow> (Inl e, tenants)
      | Inr _ \<Rightarrow>
          let part = (case existing of None \<Rightarrow> agentic_partition_default | Some held \<Rightarrow> held);
              (r, part') = put_partition lib part record in
          (r, bt_insert (mr_tenant_id record) (bt_insert (mr_namespace record) part' tenant) tenants))"

definition agentic_put :: "'g graph_library \<Rightarrow> 'g agentic_store \<Rightarrow> memory_record
    \<Rightarrow> (write_outcome, memory_error) result \<times> 'g agentic_store" where
  "agentic_put lib store record =
     (case validate_record record of
        Inl e \<Rightarrow> (Inl e, store)
      | Inr _ \<Rightarrow> (case lock (ags_tenants store) AdapterFailure of
          Inl e \<Rightarrow> (Inl e, store)
        | Inr tenants \<Rightarrow>
            let (r, tenants') = agentic_put_tenants lib tenants record in
            (r, store\<lparr>ags_tenants := (ags_tenants store)\<lparr>guarded := tenants'\<rparr>\<rparr>)))"

definition agentic_get :: "'g graph_library \<Rightarrow> 'g agentic_store \<Rightarrow> tenant_id \<Rightarrow> namespace_id \<Rightarrow> record_key
    \<Rightarrow> (memory_record option, memory_error) result" where
  "agentic_get lib store t n k =
     and_then (lock (ags_tenants store) AdapterFailure) (\<lambda>tenants.
       case Option.bind (bt_get tenants t) (\<lambda>tenant. bt_get tenant n) of
         None \<Rightarrow> Inr None
       | Some part \<Rightarrow> (case bt_get (ap_ids part) k of
           None \<Rightarrow> Inr None
         | Some i \<Rightarrow> Inr (rebuild lib part i t n k)))"

text \<open>\<open>by_id\<close> is filled in key order, so a later key would overwrite an earlier one's entry.\<close>

definition by_id :: "(string, u64) btree_map \<Rightarrow> (u64, string) btree_map" where
  "by_id ids = foldl (\<lambda>m e. bt_insert (snd e) (fst e) m) [] ids"

definition match_node :: "'g agentic_partition \<Rightarrow> tenant_id \<Rightarrow> namespace_id \<Rightarrow> memory_query \<Rightarrow> graph_node
    \<Rightarrow> memory_record option" where
  "match_node part t n q node =
     (case bt_get (by_id (ap_ids part)) (gn_id node) of
        None \<Rightarrow> None
      | Some key_text \<Rightarrow> (case logical_id_new key_text of
          Inl _ \<Rightarrow> None
        | Inr key \<Rightarrow>
            let record = assemble node (sidecar_of part (gn_id node)) t n key in
            if query_matches q record then Some record else None))"

definition matching_nodes :: "'g agentic_partition \<Rightarrow> tenant_id \<Rightarrow> namespace_id \<Rightarrow> memory_query
    \<Rightarrow> graph_node list \<Rightarrow> memory_record list" where
  "matching_nodes part t n q ns = List.map_filter (match_node part t n q) ns"

definition agentic_query :: "'g graph_library \<Rightarrow> 'g agentic_store \<Rightarrow> tenant_id \<Rightarrow> namespace_id \<Rightarrow> memory_query
    \<Rightarrow> (memory_record list, memory_error) result" where
  "agentic_query lib store t n q =
     and_then (validate_query q) (\<lambda>_.
     and_then (lock (ags_tenants store) AdapterFailure) (\<lambda>tenants.
       case Option.bind (bt_get tenants t) (\<lambda>tenant. bt_get tenant n) of
         None \<Rightarrow> Inr []
       | Some part \<Rightarrow> (case ap_graph part of
           None \<Rightarrow> Inr []
         | Some g \<Rightarrow> Inr (take (unat (q_limit q)) (sort_key mr_key (matching_nodes part t n q (nodes lib g)))))))"

definition agentic_delete_tenants :: "'g graph_library \<Rightarrow> (string, 'g agentic_tenant) btree_map \<Rightarrow> tenant_id
    \<Rightarrow> namespace_id \<Rightarrow> record_key \<Rightarrow> (bool, memory_error) result \<times> (string, 'g agentic_tenant) btree_map" where
  "agentic_delete_tenants lib tenants t n k =
     (case bt_get tenants t of
        None \<Rightarrow> (Inr False, tenants)
      | Some tenant \<Rightarrow> (case bt_get tenant n of
          None \<Rightarrow> (Inr False, tenants)
        | Some part \<Rightarrow> (case bt_get (ap_ids part) k of
            None \<Rightarrow> (Inr False, tenants)
          | Some i \<Rightarrow> (case remove_node lib (graph_mut lib part) i of
              (False, g) \<Rightarrow> (Inl AdapterFailure,
                bt_insert t (bt_insert n (part\<lparr>ap_graph := Some g\<rparr>) tenant) tenants)
            | (True, g) \<Rightarrow>
                let part = \<lparr>ap_graph = Some g, ap_ids = bt_remove k (ap_ids part),
                      ap_sidecars = bt_remove i (ap_sidecars part)\<rparr>;
                    tenant = (if ap_ids part = [] then bt_remove n tenant else bt_insert n part tenant) in
                (Inr True, if tenant = [] then bt_remove t tenants else bt_insert t tenant tenants)))))"

definition agentic_delete :: "'g graph_library \<Rightarrow> 'g agentic_store \<Rightarrow> tenant_id \<Rightarrow> namespace_id \<Rightarrow> record_key
    \<Rightarrow> (bool, memory_error) result \<times> 'g agentic_store" where
  "agentic_delete lib store t n k =
     (case lock (ags_tenants store) AdapterFailure of
        Inl e \<Rightarrow> (Inl e, store)
      | Inr tenants \<Rightarrow>
          let (r, tenants') = agentic_delete_tenants lib tenants t n k in
          (r, store\<lparr>ags_tenants := (ags_tenants store)\<lparr>guarded := tenants'\<rparr>\<rparr>))"

end
