(* ===== verification/Agentic_Properties.thy ===== *)
theory Agentic_Properties
  imports Agentic
begin

text \<open>
  Over a graph library that keeps its documented behaviour, the agentic adapter is the in-process
  store with the records of every partition taken apart: the view that reassembles them commutes
  with every operation. Over a library that can fail an insertion, a refused write is not free of
  effects.
\<close>

section \<open>Maps under a view of their values\<close>

definition map_entries :: "('k \<Rightarrow> 'v \<Rightarrow> 'w) \<Rightarrow> ('k::linorder, 'v) btree_map \<Rightarrow> ('k, 'w) btree_map" where
  "map_entries f m = map (\<lambda>e. (fst e, f (fst e) (snd e))) m"

lemma map_entries_get [simp]: "bt_get (map_entries f m) k = map_option (f k) (bt_get m k)"
  by (induction m) (auto simp: map_entries_def)

lemma map_entries_insert [simp]: "map_entries f (bt_insert k v m) = bt_insert k (f k v) (map_entries f m)"
  by (induction m) (auto simp: map_entries_def)

lemma map_entries_remove [simp]: "map_entries f (bt_remove k m) = bt_remove k (map_entries f m)"
  by (induction m) (auto simp: map_entries_def bt_remove_def)

lemma map_entries_length [simp]: "length (map_entries f m) = length m"
  by (simp add: map_entries_def)

lemma map_entries_Nil [simp]: "map_entries f m = [] \<longleftrightarrow> m = []" "map_entries f [] = []"
  by (simp_all add: map_entries_def)

lemma map_entries_contains [simp]: "bt_contains_key (map_entries f m) k = bt_contains_key m k"
  by (simp add: bt_contains_key_def)

lemma map_entries_fst [simp]: "map fst (map_entries f m) = map fst m"
  by (simp add: map_entries_def)

lemma map_entries_ok [simp]: "bt_ok (map_entries f m) = bt_ok m"
  by (simp add: bt_ok_def)

lemma map_entries_cong: "(\<And>k v. (k, v) \<in> set m \<Longrightarrow> f k v = g k v) \<Longrightarrow> map_entries f m = map_entries g m"
  by (auto simp: map_entries_def)

lemma entry_value_map_entries: "f k [] = [] \<Longrightarrow> entry_value (map_entries f m) k = f k (entry_value m k)"
  by (auto simp: entry_value_def split: option.split)

lemma or_default_map_entries: "f k [] = [] \<Longrightarrow> or_default (map_entries f m) k = map_entries f (or_default m k)"
  by (auto simp: or_default_def)

lemma bt_insert_same: "bt_ok m \<Longrightarrow> bt_get m k = Some v \<Longrightarrow> bt_insert k v m = m"
  by (rule bt_ok_ext) (auto simp: fun_eq_iff)

section \<open>The graph library's behaviour\<close>

text \<open>
  What the adapter relies on: a node is found by its identifier, an insertion of bounded content
  into a graph of at most 4096 nodes succeeds with an identifier no node has, and a removal takes
  out exactly that node. \<open>gwf\<close> is the library's own invariant on graphs.
\<close>

definition graph_laws :: "'g graph_library \<Rightarrow> ('g \<Rightarrow> bool) \<Rightarrow> bool" where
  "graph_laws lib gwf \<longleftrightarrow>
     gwf (graph_new lib) \<and> nodes lib (graph_new lib) = []
     \<and> (\<forall>g. gwf g \<longrightarrow> distinct (map gn_id (nodes lib g)))
     \<and> (\<forall>g i node. gwf g \<longrightarrow> (get_node lib g i = Some node \<longleftrightarrow> node \<in> set (nodes lib g) \<and> gn_id node = i))
     \<and> (\<forall>g e. gwf g \<longrightarrow> length (nodes lib g) \<le> 4096 \<longrightarrow> length (ce_content e) \<le> 32768 \<longrightarrow>
          (\<exists>i g'. add_node lib g e = (Some i, g') \<and> gwf g' \<and> i \<notin> gn_id ` set (nodes lib g)
             \<and> set (nodes lib g') = insert \<lparr>gn_id = i, gn_event_type = ce_event_type e, gn_content = ce_content e\<rparr>
                 (set (nodes lib g))))
     \<and> (\<forall>g i. gwf g \<longrightarrow> i \<in> gn_id ` set (nodes lib g) \<longrightarrow>
          (\<exists>g'. remove_node lib g i = (True, g') \<and> gwf g'
             \<and> set (nodes lib g') = {node \<in> set (nodes lib g). gn_id node \<noteq> i}))"

lemma graph_lawsD:
  assumes "graph_laws lib gwf"
  shows "gwf (graph_new lib)" "nodes lib (graph_new lib) = []"
    and "gwf g \<Longrightarrow> distinct (map gn_id (nodes lib g))"
    and "gwf g \<Longrightarrow> get_node lib g i = Some node \<longleftrightarrow> node \<in> set (nodes lib g) \<and> gn_id node = i"
    and "gwf g \<Longrightarrow> length (nodes lib g) \<le> 4096 \<Longrightarrow> length (ce_content e) \<le> 32768 \<Longrightarrow>
      \<exists>i g'. add_node lib g e = (Some i, g') \<and> gwf g' \<and> i \<notin> gn_id ` set (nodes lib g)
        \<and> set (nodes lib g') = insert \<lparr>gn_id = i, gn_event_type = ce_event_type e, gn_content = ce_content e\<rparr>
            (set (nodes lib g))"
    and "gwf g \<Longrightarrow> i \<in> gn_id ` set (nodes lib g) \<Longrightarrow>
      \<exists>g'. remove_node lib g i = (True, g') \<and> gwf g' \<and> set (nodes lib g') = {node \<in> set (nodes lib g). gn_id node \<noteq> i}"
  using assms by (simp_all only: graph_laws_def)

lemma get_node_cong:
  assumes "graph_laws lib gwf" "gwf g" "gwf g'"
    and "\<And>node. gn_id node = i \<Longrightarrow> node \<in> set (nodes lib g) \<longleftrightarrow> node \<in> set (nodes lib g')"
  shows "get_node lib g i = get_node lib g' i"
proof -
  have "get_node lib g i = Some node \<longleftrightarrow> get_node lib g' i = Some node" for node
    using graph_lawsD(4) [OF assms(1)] assms(2-4) by auto
  then show ?thesis by (metis not_Some_eq)
qed

section \<open>Partitions\<close>

definition part_inv :: "'g graph_library \<Rightarrow> ('g \<Rightarrow> bool) \<Rightarrow> 'g agentic_partition \<Rightarrow> bool" where
  "part_inv lib gwf part \<longleftrightarrow>
     bt_ok (ap_ids part) \<and> length (ap_ids part) \<le> MAX_PARTITION_RECORDS \<and> distinct (map snd (ap_ids part))
     \<and> (\<forall>e\<in>set (ap_ids part). is_logical_id (fst e)) \<and> gwf (graph_mut lib part)
     \<and> gn_id ` set (nodes lib (graph_mut lib part)) = snd ` set (ap_ids part)
     \<and> (ap_graph part = None \<longrightarrow> ap_ids part = [])"

definition part_view :: "'g graph_library \<Rightarrow> tenant_id \<Rightarrow> namespace_id \<Rightarrow> 'g agentic_partition \<Rightarrow> partition" where
  "part_view lib t n part = map_entries (\<lambda>k i. the (rebuild lib part i t n k)) (ap_ids part)"

lemma part_inv_default:
  "graph_laws lib gwf \<Longrightarrow> part_inv lib gwf agentic_partition_default"
  by (simp add: part_inv_def agentic_partition_default_def graph_mut_def graph_lawsD)

lemma rebuild_Some:
  assumes "graph_laws lib gwf" "part_inv lib gwf part" "(k, i) \<in> set (ap_ids part)"
  obtains node where "node \<in> set (nodes lib (graph_mut lib part))" "gn_id node = i"
    "rebuild lib part i t n k = Some (assemble node (sidecar_of part i) t n k)"
proof -
  from assms(2,3) have graph: "ap_graph part = Some (graph_mut lib part)" "gwf (graph_mut lib part)"
    by (auto simp: part_inv_def graph_mut_def split: option.splits)
  from assms(2,3) have "i \<in> gn_id ` set (nodes lib (graph_mut lib part))"
    by (force simp: part_inv_def)
  then obtain node where node: "node \<in> set (nodes lib (graph_mut lib part))" "gn_id node = i" by auto
  with graph_lawsD(4) [OF assms(1) graph(2)] have "get_node lib (graph_mut lib part) i = Some node" by blast
  with graph(1) have "rebuild lib part i t n k = Some (assemble node (sidecar_of part i) t n k)"
    by (simp add: rebuild_def)
  with node that show thesis by blast
qed

lemma kind_of_event_type [simp]: "kind_of (event_type_of k) = k"
  by (cases k) simp_all

lemma ids_nodes:
  assumes "graph_laws lib gwf" "part_inv lib gwf part"
  shows "length (nodes lib (graph_mut lib part)) = length (ap_ids part)"
proof -
  from assms have "distinct (map gn_id (nodes lib (graph_mut lib part)))" "distinct (map snd (ap_ids part))"
    "gn_id ` set (nodes lib (graph_mut lib part)) = snd ` set (ap_ids part)"
    using graph_lawsD(3) by (auto simp: part_inv_def)
  then show ?thesis by (metis distinct_card length_map list.set_map)
qed

lemma part_view_ok [simp]: "bt_ok (part_view lib t n part) = bt_ok (ap_ids part)"
  by (simp add: part_view_def)

lemma distinct_values:
  assumes "distinct (map snd m)" "bt_ok m" "bt_get m k = Some v" "bt_get m k' = Some v"
  shows "k = k'"
proof -
  from assms have "(k, v) \<in> set m" "(k', v) \<in> set m" by (auto simp: bt_get_iff)
  with assms(1) show ?thesis by (metis distinct_map inj_onD prod.inject snd_conv)
qed

lemma rebuild_cong:
  assumes "graph_laws lib gwf" "gwf g" "gwf g'" "ap_graph p = Some g" "ap_graph p' = Some g'"
    and "\<And>node. gn_id node = i \<Longrightarrow> node \<in> set (nodes lib g) \<longleftrightarrow> node \<in> set (nodes lib g')"
    and "bt_get (ap_sidecars p) i = bt_get (ap_sidecars p') i"
  shows "rebuild lib p i t n k = rebuild lib p' i t n k"
  using get_node_cong [OF assms(1-3,6)] assms(4,5,7) by (simp add: rebuild_def sidecar_of_def)


section \<open>A write to a partition\<close>

lemma graph_Some:
  "part_inv lib gwf part \<Longrightarrow> bt_get (ap_ids part) k = Some i \<Longrightarrow> ap_graph part = Some (graph_mut lib part)"
  by (auto simp: part_inv_def graph_mut_def split: option.splits)

text \<open>The graph after a write holds the new node and every node but the replaced one.\<close>

lemma put_partition_graph:
  assumes laws: "graph_laws lib gwf" and inv: "part_inv lib gwf part"
    and content: "length (mr_content r) \<le> MAX_CONTENT_BYTES"
  obtains i g' where "i \<notin> snd ` set (ap_ids part)" "gwf g'"
    "set (nodes lib g') = insert \<lparr>gn_id = i, gn_event_type = event_type_of (mr_kind r), gn_content = mr_content r\<rparr>
       {node \<in> set (nodes lib (graph_mut lib part)). bt_get (ap_ids part) (mr_key r) \<noteq> Some (gn_id node)}"
    "put_partition lib part r = (Inr (if bt_contains_key (ap_ids part) (mr_key r) then Replaced else Created),
       \<lparr>ap_graph = Some g', ap_ids = bt_insert (mr_key r) i (ap_ids part),
        ap_sidecars = bt_insert i \<lparr>sd_tags = mr_tags r, sd_metadata = mr_metadata r, sd_provenance = mr_provenance r\<rparr>
          (case bt_get (ap_ids part) (mr_key r) of None \<Rightarrow> ap_sidecars part
            | Some previous \<Rightarrow> bt_remove previous (ap_sidecars part))\<rparr>)"
proof -
  let ?g = "graph_mut lib part"
  from inv have gwf: "gwf ?g" and ids: "gn_id ` set (nodes lib ?g) = snd ` set (ap_ids part)"
    by (auto simp: part_inv_def)
  from inv have "length (nodes lib ?g) \<le> 4096" unfolding ids_nodes [OF laws inv]
    by (simp add: part_inv_def MAX_PARTITION_RECORDS_def)
  with graph_lawsD(5) [OF laws gwf, of "event_of r"] content obtain i g1 where
    add: "add_node lib ?g (event_of r) = (Some i, g1)" "gwf g1" "i \<notin> gn_id ` set (nodes lib ?g)"
    and n1: "set (nodes lib g1) = insert \<lparr>gn_id = i, gn_event_type = event_type_of (mr_kind r),
      gn_content = mr_content r\<rparr> (set (nodes lib ?g))"
    by (auto simp: event_of_def MAX_CONTENT_BYTES_def)
  show thesis
  proof (cases "bt_get (ap_ids part) (mr_key r)")
    case None
    then show thesis using that [of i g1] add n1 ids
      by (auto simp: put_partition_def bt_contains_key_def)
  next
    case (Some previous)
    with ids have prev: "previous \<in> gn_id ` set (nodes lib ?g)" by (metis snd_conv imageI map_of_SomeD)
    then have "previous \<in> gn_id ` set (nodes lib g1)" by (auto simp: n1)
    from graph_lawsD(6) [OF laws add(2) this] obtain g2 where
      rem: "remove_node lib g1 previous = (True, g2)" "gwf g2"
      "set (nodes lib g2) = {node \<in> set (nodes lib g1). gn_id node \<noteq> previous}" by blast
    with prev add(3) have "set (nodes lib g2) = insert \<lparr>gn_id = i, gn_event_type = event_type_of (mr_kind r),
      gn_content = mr_content r\<rparr> {node \<in> set (nodes lib ?g). Some previous \<noteq> Some (gn_id node)}"
      by (auto simp: n1)
    with that [of i g2] add rem Some ids show thesis
      by (simp add: put_partition_def bt_contains_key_def)
  qed
qed

lemma distinct_snd_insert:
  assumes "distinct (map snd m)" "i \<notin> snd ` set m"
  shows "distinct (map snd (bt_insert k i m))"
  using assms
proof (induction m)
  case (Cons e m)
  have "snd ` set (bt_insert k i m) \<subseteq> insert i (snd ` set m)" for m by (induction m) auto
  with Cons show ?case by (cases e) auto
qed simp

lemma values_without:
  assumes "bt_ok m" "distinct (map snd m)"
  shows "{j \<in> snd ` set m. bt_get m k \<noteq> Some j} = snd ` {e \<in> set m. fst e \<noteq> k}"
proof -
  have "bt_get m k = Some j \<longleftrightarrow> k' = k" if "(k', j) \<in> set m" for k' j
    using that assms distinct_values [OF assms(2,1)] by (metis bt_get_iff)
  then show ?thesis by force
qed

lemma put_node_ids:
  assumes inv: "part_inv lib gwf part" and "i \<notin> snd ` set (ap_ids part)"
    and n': "set (nodes lib g') = insert \<lparr>gn_id = i, gn_event_type = ty, gn_content = c\<rparr>
      {node \<in> set (nodes lib (graph_mut lib part)). bt_get (ap_ids part) k \<noteq> Some (gn_id node)}"
  shows "gn_id ` set (nodes lib g') = snd ` set (bt_insert k i (ap_ids part))"
proof -
  from inv have ok: "bt_ok (ap_ids part)" and dist: "distinct (map snd (ap_ids part))"
    and ids: "gn_id ` set (nodes lib (graph_mut lib part)) = snd ` set (ap_ids part)" by (auto simp: part_inv_def)
  have "gn_id ` {node \<in> set (nodes lib (graph_mut lib part)). bt_get (ap_ids part) k \<noteq> Some (gn_id node)}
    = {j \<in> gn_id ` set (nodes lib (graph_mut lib part)). bt_get (ap_ids part) k \<noteq> Some j}" by auto
  also have "\<dots> = snd ` {e \<in> set (ap_ids part). fst e \<noteq> k}"
    unfolding ids by (rule values_without [OF ok dist])
  finally show ?thesis using ok by (simp add: n' set_bt_insert)
qed

lemma put_partition_correct:
  assumes laws: "graph_laws lib gwf" and inv: "part_inv lib gwf part"
    and content: "length (mr_content r) \<le> MAX_CONTENT_BYTES" and key: "is_logical_id (mr_key r)"
    and room: "bt_contains_key (ap_ids part) (mr_key r) \<or> length (ap_ids part) < MAX_PARTITION_RECORDS"
    and put: "put_partition lib part r = (a, part')"
  shows "a = Inr (if bt_contains_key (ap_ids part) (mr_key r) then Replaced else Created)
    \<and> part_inv lib gwf part' \<and> ap_ids part' \<noteq> []
    \<and> part_view lib (mr_tenant_id r) (mr_namespace r) part'
        = bt_insert (mr_key r) r (part_view lib (mr_tenant_id r) (mr_namespace r) part)"
proof -
  from put_partition_graph [OF laws inv content] obtain i g' where fresh: "i \<notin> snd ` set (ap_ids part)"
    and g': "gwf g'" and n': "set (nodes lib g') = insert \<lparr>gn_id = i, gn_event_type = event_type_of (mr_kind r),
      gn_content = mr_content r\<rparr> {node \<in> set (nodes lib (graph_mut lib part)). bt_get (ap_ids part) (mr_key r) \<noteq> Some (gn_id node)}"
    and eq: "put_partition lib part r = (Inr (if bt_contains_key (ap_ids part) (mr_key r) then Replaced else Created),
       \<lparr>ap_graph = Some g', ap_ids = bt_insert (mr_key r) i (ap_ids part),
        ap_sidecars = bt_insert i \<lparr>sd_tags = mr_tags r, sd_metadata = mr_metadata r, sd_provenance = mr_provenance r\<rparr>
          (case bt_get (ap_ids part) (mr_key r) of None \<Rightarrow> ap_sidecars part
            | Some previous \<Rightarrow> bt_remove previous (ap_sidecars part))\<rparr>)"
    by blast
  from put eq have a: "a = Inr (if bt_contains_key (ap_ids part) (mr_key r) then Replaced else Created)"
    and graph: "ap_graph part' = Some g'" and ids: "ap_ids part' = bt_insert (mr_key r) i (ap_ids part)"
    and sidecars: "ap_sidecars part' = bt_insert i \<lparr>sd_tags = mr_tags r, sd_metadata = mr_metadata r,
      sd_provenance = mr_provenance r\<rparr> (case bt_get (ap_ids part) (mr_key r) of None \<Rightarrow> ap_sidecars part
            | Some previous \<Rightarrow> bt_remove previous (ap_sidecars part))" by auto
  from inv have ok: "bt_ok (ap_ids part)" and dist: "distinct (map snd (ap_ids part))" by (auto simp: part_inv_def)
  have new: "rebuild lib part' i (mr_tenant_id r) (mr_namespace r) (mr_key r) = Some r"
  proof -
    have "get_node lib g' i = Some \<lparr>gn_id = i, gn_event_type = event_type_of (mr_kind r), gn_content = mr_content r\<rparr>"
      using graph_lawsD(4) [OF laws g'] by (simp add: n')
    then show ?thesis using graph sidecars by (simp add: rebuild_def sidecar_of_def assemble_def)
  qed
  have old: "rebuild lib part' j t n k = rebuild lib part j t n k"
    if "k \<noteq> mr_key r" "bt_get (ap_ids part) k = Some j" for k j t n
  proof (rule rebuild_cong [OF laws g' _ graph graph_Some [OF inv that(2)]])
    from that distinct_values [OF dist ok] have other: "bt_get (ap_ids part) (mr_key r) \<noteq> Some j" by metis
    from that fresh have ij: "i \<noteq> j" by (metis imageI map_of_SomeD snd_conv)
    show "gwf (graph_mut lib part)" using inv by (simp add: part_inv_def)
    show "node \<in> set (nodes lib g') \<longleftrightarrow> node \<in> set (nodes lib (graph_mut lib part))" if "gn_id node = j" for node
      using that ij other by (auto simp: n')
    show "bt_get (ap_sidecars part') j = bt_get (ap_sidecars part) j"
      using ij other by (auto simp: sidecars split: option.split)
  qed
  have "part_view lib (mr_tenant_id r) (mr_namespace r) part'
        = bt_insert (mr_key r) r (part_view lib (mr_tenant_id r) (mr_namespace r) part)"
    using ok new old by (intro bt_ok_ext) (auto simp: part_view_def ids fun_eq_iff intro!: map_option_cong)
  moreover have "part_inv lib gwf part'"
    using inv key room g' graph put_node_ids [OF inv fresh n'] distinct_snd_insert [OF dist fresh]
    by (auto simp: part_inv_def ids graph_mut_def length_bt_insert bt_contains_key_def set_bt_insert
        split: option.split)
  ultimately show ?thesis using a ids by simp
qed


section \<open>A deletion from a partition\<close>

definition delete_partition :: "'g agentic_partition \<Rightarrow> 'g \<Rightarrow> record_key \<Rightarrow> u64 \<Rightarrow> 'g agentic_partition" where
  "delete_partition part g k i =
     \<lparr>ap_graph = Some g, ap_ids = bt_remove k (ap_ids part), ap_sidecars = bt_remove i (ap_sidecars part)\<rparr>"

lemma delete_partition_correct:
  assumes laws: "graph_laws lib gwf" and inv: "part_inv lib gwf part" and i: "bt_get (ap_ids part) k = Some i"
  obtains g where "remove_node lib (graph_mut lib part) i = (True, g)"
    "part_inv lib gwf (delete_partition part g k i)"
    "\<And>t n. part_view lib t n (delete_partition part g k i) = bt_remove k (part_view lib t n part)"
proof -
  let ?g = "graph_mut lib part"
  from inv have gwf: "gwf ?g" and ok: "bt_ok (ap_ids part)" and dist: "distinct (map snd (ap_ids part))"
    and ids: "gn_id ` set (nodes lib ?g) = snd ` set (ap_ids part)" by (auto simp: part_inv_def)
  from i ids have "i \<in> gn_id ` set (nodes lib ?g)" by (metis snd_conv imageI map_of_SomeD)
  from graph_lawsD(6) [OF laws gwf this] obtain g where rem: "remove_node lib ?g i = (True, g)" and g: "gwf g"
    and n': "set (nodes lib g) = {node \<in> set (nodes lib ?g). gn_id node \<noteq> i}" by blast
  let ?p = "delete_partition part g k i"
  have "gn_id ` set (nodes lib g) = {j \<in> gn_id ` set (nodes lib ?g). bt_get (ap_ids part) k \<noteq> Some j}"
    using i by (auto simp: n')
  then have "gn_id ` set (nodes lib g) = snd ` set (bt_remove k (ap_ids part))"
    unfolding ids values_without [OF ok dist] by (simp add: set_bt_remove)
  moreover have "length (bt_remove k (ap_ids part)) \<le> MAX_PARTITION_RECORDS"
    using inv unfolding bt_remove_def part_inv_def by (meson length_filter_le le_trans)
  ultimately have "part_inv lib gwf ?p" using inv g
    by (auto simp: part_inv_def delete_partition_def graph_mut_def bt_remove_def distinct_map_filter)
  moreover have "rebuild lib ?p j t n k' = rebuild lib part j t n k'"
    if "k' \<noteq> k" "bt_get (ap_ids part) k' = Some j" for k' j t n
  proof (rule rebuild_cong [OF laws g gwf _ graph_Some [OF inv i]])
    from that i distinct_values [OF dist ok] have other: "i \<noteq> j" by metis
    then show "node \<in> set (nodes lib g) \<longleftrightarrow> node \<in> set (nodes lib ?g)" if "gn_id node = j" for node
      using that by (auto simp: n')
    show "bt_get (ap_sidecars ?p) j = bt_get (ap_sidecars part) j" using other by (simp add: delete_partition_def)
  qed (simp add: delete_partition_def)
  then have "part_view lib t n ?p = bt_remove k (part_view lib t n part)" for t n
    using ok by (intro bt_ok_ext)
      (auto simp: part_view_def delete_partition_def fun_eq_iff intro!: map_option_cong)
  ultimately show thesis using that rem by blast
qed

section \<open>A query of a partition\<close>

lemma by_id_get:
  assumes "bt_ok m" "distinct (map snd m)"
  shows "bt_get (by_id m) i = Some k \<longleftrightarrow> (k, i) \<in> set m"
proof -
  have "bt_get (foldl (\<lambda>m e. bt_insert (snd e) (fst e) m) acc m) i = Some k
    \<longleftrightarrow> (k, i) \<in> set m \<or> i \<notin> snd ` set m \<and> bt_get acc i = Some k" for acc
    using assms(2)
  proof (induction m arbitrary: acc)
    case (Cons e m)
    then show ?case by (cases e) (auto split: if_splits)
  qed simp
  from this [of "[]"] show ?thesis by (simp add: by_id_def)
qed

lemma sort_key_by_key:
  assumes "bt_ok m" "distinct xs" "set xs = snd ` set m" "\<And>k v. (k, v) \<in> set m \<Longrightarrow> f v = k"
  shows "sort_key f xs = map snd m"
proof -
  from assms have f: "map f (map snd m) = map fst m" by auto
  from assms(1) have sorted: "sorted (map f (map snd m))" "distinct (map f (map snd m))"
    unfolding f by (simp_all add: bt_ok_def strict_sorted_iff)
  then have inj: "inj_on f (set xs)" unfolding assms(3) by (metis distinct_map list.set_map)
  show ?thesis
    using assms(2,3) sorted inj
    by (intro map_sorted_distinct_set_unique [of f]) (auto simp: distinct_map)
qed

lemma set_map_filter: "set (List.map_filter f xs) = {y. \<exists>x\<in>set xs. f x = Some y}"
  by (induction xs) (auto simp: map_filter_def split: option.splits)

lemma match_node_Some:
  assumes "part_inv lib gwf part"
  shows "match_node part t n q node = Some r \<longleftrightarrow> (\<exists>k. (k, gn_id node) \<in> set (ap_ids part)
    \<and> r = assemble node (sidecar_of part (gn_id node)) t n k \<and> query_matches q r)"
proof -
  from assms have ok: "bt_ok (ap_ids part)" "distinct (map snd (ap_ids part))"
    and logical: "\<And>k i. (k, i) \<in> set (ap_ids part) \<Longrightarrow> logical_id_new k = Inr k"
    by (auto simp: part_inv_def logical_id_new_def)
  show ?thesis
  proof (cases "bt_get (by_id (ap_ids part)) (gn_id node)")
    case None
    then have "(k, gn_id node) \<notin> set (ap_ids part)" for k by (simp flip: by_id_get [OF ok])
    with None show ?thesis by (simp add: match_node_def)
  next
    case (Some k)
    then have "(k', gn_id node) \<in> set (ap_ids part) \<longleftrightarrow> k' = k" for k' by (auto simp flip: by_id_get [OF ok])
    moreover from this have "logical_id_new k = Inr k" using logical by blast
    ultimately show ?thesis using Some by (auto simp: match_node_def Let_def)
  qed
qed

lemma matching_nodes_set:
  assumes laws: "graph_laws lib gwf" and inv: "part_inv lib gwf part"
  shows "set (matching_nodes part t n q (nodes lib (graph_mut lib part)))
    = snd ` set (filter (\<lambda>e. query_matches q (snd e)) (part_view lib t n part))"
proof -
  let ?ns = "nodes lib (graph_mut lib part)"
  have "(\<exists>node\<in>set ?ns. gn_id node = i \<and> r = assemble node (sidecar_of part i) t n k)
      \<longleftrightarrow> r = the (rebuild lib part i t n k)" if "(k, i) \<in> set (ap_ids part)" for k i r
  proof -
    from rebuild_Some [OF laws inv that] obtain node where "node \<in> set ?ns" "gn_id node = i"
      "rebuild lib part i t n k = Some (assemble node (sidecar_of part i) t n k)" by metis
    moreover from inv have "gwf (graph_mut lib part)" by (simp add: part_inv_def)
    ultimately show ?thesis using graph_lawsD(3) [OF laws] by (auto simp: distinct_map dest: inj_onD)
  qed
  then have "(\<exists>node\<in>set ?ns. match_node part t n q node = Some r) \<longleftrightarrow>
    (\<exists>k i. (k, i) \<in> set (ap_ids part) \<and> r = the (rebuild lib part i t n k) \<and> query_matches q r)" for r
    unfolding match_node_Some [OF inv] by metis
  moreover have "set (matching_nodes part t n q ?ns) = {r. \<exists>node\<in>set ?ns. match_node part t n q node = Some r}"
    by (simp add: matching_nodes_def set_map_filter)
  ultimately show ?thesis by (force simp: part_view_def map_entries_def)
qed

lemma matching_nodes_distinct:
  assumes inv: "part_inv lib gwf part"
  shows "distinct (map gn_id ns) \<Longrightarrow> distinct (matching_nodes part t n q ns)"
proof (induction ns)
  case (Cons a ns)
  have same: "gn_id a = gn_id b" if "match_node part t n q a = Some r" "match_node part t n q b = Some r" for b r
  proof -
    from that obtain k where "(k, gn_id a) \<in> set (ap_ids part)" "(k, gn_id b) \<in> set (ap_ids part)"
      by (auto simp: match_node_Some [OF inv] assemble_def)
    with inv show ?thesis by (metis bt_get_iff option.inject part_inv_def)
  qed
  have unfold: "matching_nodes part t n q (x # xs) = (case match_node part t n q x of None \<Rightarrow> matching_nodes part t n q xs
    | Some r \<Rightarrow> r # matching_nodes part t n q xs)" for x xs
    by (simp add: matching_nodes_def map_filter_simps split: option.split)
  have "set (matching_nodes part t n q ns) = {r. \<exists>node\<in>set ns. match_node part t n q node = Some r}"
    by (simp add: matching_nodes_def set_map_filter)
  then have "r \<notin> set (matching_nodes part t n q ns)" if "match_node part t n q a = Some r" for r
    using same [OF that] Cons.prems by auto
  with Cons show ?case by (auto simp: unfold split: option.split)
qed (simp add: matching_nodes_def map_filter_simps)

lemma partition_query:
  assumes laws: "graph_laws lib gwf" and inv: "part_inv lib gwf part"
  shows "sort_key mr_key (matching_nodes part t n q (nodes lib (graph_mut lib part)))
    = filter (query_matches q) (bt_values (part_view lib t n part))"
proof -
  from inv have ok: "bt_ok (ap_ids part)" and gwf: "gwf (graph_mut lib part)" by (auto simp: part_inv_def)
  have key: "mr_key v = k" if "(k, v) \<in> set (part_view lib t n part)" for k v
  proof -
    from that obtain i where "(k, i) \<in> set (ap_ids part)" "v = the (rebuild lib part i t n k)"
      by (auto simp: part_view_def map_entries_def)
    with rebuild_Some [OF laws inv this(1)] show ?thesis by (metis assemble_def memory_record.select_convs(3) option.sel)
  qed
  have "sort_key mr_key (matching_nodes part t n q (nodes lib (graph_mut lib part)))
    = map snd (filter (\<lambda>e. query_matches q (snd e)) (part_view lib t n part))"
    using ok key matching_nodes_distinct [OF inv graph_lawsD(3) [OF laws gwf]]
    by (intro sort_key_by_key) (auto simp: matching_nodes_set [OF laws inv])
  then show ?thesis by (simp add: bt_values_def filter_map comp_def)
qed


section \<open>The store\<close>

definition ag_tenant_ok :: "'g graph_library \<Rightarrow> ('g \<Rightarrow> bool) \<Rightarrow> 'g agentic_tenant \<Rightarrow> bool" where
  "ag_tenant_ok lib gwf tenant \<longleftrightarrow>
     bt_ok tenant \<and> (\<forall>n part. bt_get tenant n = Some part \<longrightarrow> part_inv lib gwf part \<and> ap_ids part \<noteq> [])"

definition ag_tenants_ok :: "'g graph_library \<Rightarrow> ('g \<Rightarrow> bool) \<Rightarrow> (string, 'g agentic_tenant) btree_map \<Rightarrow> bool" where
  "ag_tenants_ok lib gwf tenants \<longleftrightarrow>
     bt_ok tenants \<and> (\<forall>t tenant. bt_get tenants t = Some tenant \<longrightarrow> tenant \<noteq> [] \<and> ag_tenant_ok lib gwf tenant)"

definition tenant_view :: "'g graph_library \<Rightarrow> tenant_id \<Rightarrow> 'g agentic_tenant \<Rightarrow> tenant" where
  "tenant_view lib t tenant = map_entries (part_view lib t) tenant"

definition tenants_view :: "'g graph_library \<Rightarrow> (string, 'g agentic_tenant) btree_map \<Rightarrow> (string, tenant) btree_map" where
  "tenants_view lib tenants = map_entries (tenant_view lib) tenants"

definition ag_view :: "'g graph_library \<Rightarrow> 'g agentic_store \<Rightarrow> in_process_store" where
  "ag_view lib store = \<lparr>ips_tenants = \<lparr>poisoned = poisoned (ags_tenants store),
     guarded = tenants_view lib (guarded (ags_tenants store))\<rparr>\<rparr>"

lemma part_view_Nil [simp]: "part_view lib t n part = [] \<longleftrightarrow> ap_ids part = []"
  and part_view_length [simp]: "length (part_view lib t n part) = length (ap_ids part)"
  and part_view_get [simp]: "bt_get (part_view lib t n part) k = map_option (\<lambda>i. the (rebuild lib part i t n k)) (bt_get (ap_ids part) k)"
  and part_view_contains [simp]: "bt_contains_key (part_view lib t n part) k = bt_contains_key (ap_ids part) k"
  by (simp_all add: part_view_def)

lemma tenant_view_simps [simp]:
  "tenant_view lib t [] = []" "tenant_view lib t tenant = [] \<longleftrightarrow> tenant = []"
  "length (tenant_view lib t tenant) = length tenant"
  "bt_get (tenant_view lib t tenant) n = map_option (part_view lib t n) (bt_get tenant n)"
  "tenant_view lib t (bt_insert n part tenant) = bt_insert n (part_view lib t n part) (tenant_view lib t tenant)"
  "tenant_view lib t (bt_remove n tenant) = bt_remove n (tenant_view lib t tenant)"
  by (simp_all add: tenant_view_def)

lemma tenants_view_simps [simp]:
  "tenants_view lib [] = []"
  "bt_get (tenants_view lib tenants) t = map_option (tenant_view lib t) (bt_get tenants t)"
  "tenants_view lib (bt_insert t tenant tenants) = bt_insert t (tenant_view lib t tenant) (tenants_view lib tenants)"
  "tenants_view lib (bt_remove t tenants) = bt_remove t (tenants_view lib tenants)"
  "entry_value (tenants_view lib tenants) t = tenant_view lib t (entry_value tenants t)"
  "or_default (tenants_view lib tenants) t = tenants_view lib (or_default tenants t)"
  by (simp_all add: tenants_view_def entry_value_map_entries or_default_map_entries)

lemma insert_view_or_default [simp]:
  "bt_insert t x (tenants_view lib (or_default tenants t)) = bt_insert t x (tenants_view lib tenants)"
  by (metis insert_or_default tenants_view_simps(6))

lemma entry_value_tenant_view:
  "entry_value (tenant_view lib t tenant) n
    = (case bt_get tenant n of None \<Rightarrow> [] | Some part \<Rightarrow> part_view lib t n part)"
  by (simp add: entry_value_def split: option.split)

lemma ag_tenants_okD:
  assumes "ag_tenants_ok lib gwf tenants"
  shows "bt_ok tenants" "ag_tenant_ok lib gwf (entry_value tenants t)"
    and "entry_value tenants t = [] \<longleftrightarrow> bt_get tenants t = None"
  using assms by (auto simp: ag_tenants_ok_def ag_tenant_ok_def entry_value_def split: option.splits)

lemma ag_tenants_ok_insert:
  assumes "ag_tenants_ok lib gwf tenants" "part_inv lib gwf part" "ap_ids part \<noteq> []"
  shows "ag_tenants_ok lib gwf (bt_insert t (bt_insert n part (entry_value tenants t)) tenants)"
  using assms ag_tenants_okD(2) [OF assms(1), of t] by (auto simp: ag_tenants_ok_def ag_tenant_ok_def)

lemma capacity_first_record: "check_capacity 0 True 0 True = Inr ()"
  by (simp add: check_capacity_def MAX_TENANT_NAMESPACES_def MAX_PARTITION_RECORDS_def)

lemma capacity_room: "check_capacity a b c d = Inr u \<Longrightarrow> d \<Longrightarrow> c < MAX_PARTITION_RECORDS"
  by (auto simp: check_capacity_def split: if_splits)

lemma agentic_put_tenants_correct:
  assumes laws: "graph_laws lib gwf" and ok: "ag_tenants_ok lib gwf tenants"
    and content: "length (mr_content r) \<le> MAX_CONTENT_BYTES" and key: "is_logical_id (mr_key r)"
    and put: "agentic_put_tenants lib tenants r = (a, tenants')"
  shows "put_tenants (tenants_view lib tenants) r = (a, tenants_view lib tenants') \<and> ag_tenants_ok lib gwf tenants'"
proof -
  let ?t = "mr_tenant_id r" and ?n = "mr_namespace r"
  let ?tenant = "entry_value tenants ?t"
  let ?existing = "bt_get ?tenant ?n"
  let ?part = "case ?existing of None \<Rightarrow> agentic_partition_default | Some held \<Rightarrow> held"
  define cap where "cap = check_capacity (length ?tenant) (?existing = None)
    (case ?existing of None \<Rightarrow> 0 | Some held \<Rightarrow> length (ap_ids held))
    (case ?existing of None \<Rightarrow> True | Some held \<Rightarrow> \<not> bt_contains_key (ap_ids held) (mr_key r))"
  have unfold: "agentic_put_tenants lib tenants r = (case cap of Inl e \<Rightarrow> (Inl e, or_default tenants ?t)
    | Inr _ \<Rightarrow> map_prod id (\<lambda>part'. bt_insert ?t (bt_insert ?n part' ?tenant) tenants) (put_partition lib ?part r))"
    by (simp add: agentic_put_tenants_def Let_def cap_def case_prod_beta map_prod_def split: sum.split)
  have view: "put_tenants (tenants_view lib tenants) r = (case cap of Inl e \<Rightarrow> (Inl e, tenants_view lib (or_default tenants ?t))
    | Inr _ \<Rightarrow> (Inr (if bt_contains_key (ap_ids ?part) (mr_key r) then Replaced else Created),
        bt_insert ?t (bt_insert ?n (bt_insert (mr_key r) r (part_view lib ?t ?n ?part)) (tenant_view lib ?t ?tenant))
          (tenants_view lib tenants)))"
    by (cases ?existing)
      (simp_all add: put_tenants_def Let_def cap_def agentic_partition_default_def bt_contains_key_def
        entry_value_tenant_view part_view_def split: sum.split)
  show ?thesis
  proof (cases cap)
    case (Inl e)
    have "bt_get tenants ?t \<noteq> None"
    proof
      assume "bt_get tenants ?t = None"
      then have "cap = Inr ()" by (simp add: cap_def capacity_first_record)
      with Inl show False by simp
    qed
    then have "or_default tenants ?t = tenants" by (simp add: or_default_def bt_contains_key_def)
    with Inl put ok view unfold show ?thesis by auto
  next
    case (Inr u)
    obtain part' where part': "put_partition lib ?part r = (a, part')"
      "tenants' = bt_insert ?t (bt_insert ?n part' ?tenant) tenants"
      using put Inr unfold by (cases "put_partition lib ?part r") auto
    have inv: "part_inv lib gwf ?part"
      using ag_tenants_okD(2) [OF ok, of ?t] part_inv_default [OF laws] by (auto simp: ag_tenant_ok_def split: option.split)
    have "bt_contains_key (ap_ids ?part) (mr_key r) \<or> length (ap_ids ?part) < MAX_PARTITION_RECORDS"
      using capacity_room [OF Inr [unfolded cap_def]]
      by (cases ?existing) (auto simp: agentic_partition_default_def MAX_PARTITION_RECORDS_def)
    from put_partition_correct [OF laws inv content key this part'(1)] show ?thesis
      using ag_tenants_ok_insert [OF ok] by (simp add: view Inr part'(2))
  qed
qed


lemma agentic_delete_tenants_correct:
  assumes laws: "graph_laws lib gwf" and ok: "ag_tenants_ok lib gwf tenants"
    and del: "agentic_delete_tenants lib tenants t n k = (a, tenants')"
  shows "map_prod Inr id (delete_tenants (tenants_view lib tenants) t n k) = (a, tenants_view lib tenants')
    \<and> ag_tenants_ok lib gwf tenants'"
proof -
  consider (none) "bt_get tenants t = None"
    | (no_ns) tn where "bt_get tenants t = Some tn" "bt_get tn n = None"
    | (no_key) tn p where "bt_get tenants t = Some tn" "bt_get tn n = Some p" "bt_get (ap_ids p) k = None"
    | (found) tn p i where "bt_get tenants t = Some tn" "bt_get tn n = Some p" "bt_get (ap_ids p) k = Some i"
    by fastforce
  then show ?thesis
  proof cases
    case (no_key tn p)
    with ok have "tn \<noteq> []" "bt_ok tn" "bt_ok tenants" "ap_ids p \<noteq> []"
      by (auto simp: ag_tenants_ok_def ag_tenant_ok_def)
    then have "bt_insert n (part_view lib t n p) (tenant_view lib t tn) = tenant_view lib t tn"
      "bt_insert t (tenant_view lib t tn) (tenants_view lib tenants) = tenants_view lib tenants"
      using no_key by (auto simp: tenant_view_def tenants_view_def intro!: bt_insert_same)
    with no_key ok del \<open>tn \<noteq> []\<close> \<open>ap_ids p \<noteq> []\<close> show ?thesis
      by (auto simp: agentic_delete_tenants_def delete_tenants_def Let_def bt_remove_absent)
  next
    case (found tn p i)
    from ok found have tn: "ag_tenant_ok lib gwf tn" and inv: "part_inv lib gwf p"
      by (auto simp: ag_tenants_ok_def ag_tenant_ok_def)
    from delete_partition_correct [OF laws inv found(3)] obtain g where
      rem: "remove_node lib (graph_mut lib p) i = (True, g)" and p': "part_inv lib gwf (delete_partition p g k i)"
      and view: "\<And>t n. part_view lib t n (delete_partition p g k i) = bt_remove k (part_view lib t n p)" by metis
    define tn' where "tn' = (if ap_ids (delete_partition p g k i) = [] then bt_remove n tn
      else bt_insert n (delete_partition p g k i) tn)"
    have tenants': "a = Inr True" "tenants' = (if tn' = [] then bt_remove t tenants else bt_insert t tn' tenants)"
      using del found rem by (auto simp: agentic_delete_tenants_def Let_def tn'_def delete_partition_def)
    have "tenant_view lib t tn' = (if bt_remove k (part_view lib t n p) = [] then bt_remove n (tenant_view lib t tn)
      else bt_insert n (bt_remove k (part_view lib t n p)) (tenant_view lib t tn))"
      by (simp add: tn'_def flip: view)
    moreover from this have "tn' = [] \<longleftrightarrow> (if bt_remove k (part_view lib t n p) = [] then bt_remove n (tenant_view lib t tn)
      else bt_insert n (bt_remove k (part_view lib t n p)) (tenant_view lib t tn)) = []"
      by (metis tenant_view_simps(2))
    ultimately have "delete_tenants (tenants_view lib tenants) t n k = (True, tenants_view lib tenants')"
      using found by (simp add: delete_tenants_def Let_def tenants')
    moreover have "ag_tenant_ok lib gwf tn'" using tn p' by (auto simp: ag_tenant_ok_def tn'_def)
    then have "ag_tenants_ok lib gwf tenants'" using ok by (auto simp: tenants' ag_tenants_ok_def)
    ultimately show ?thesis by (simp add: tenants')
  qed (use ok del in \<open>auto simp: agentic_delete_tenants_def delete_tenants_def\<close>)
qed

definition ag_inv :: "'g graph_library \<Rightarrow> ('g \<Rightarrow> bool) \<Rightarrow> 'g agentic_store \<Rightarrow> bool" where
  "ag_inv lib gwf store \<longleftrightarrow> \<not> poisoned (ags_tenants store) \<and> ag_tenants_ok lib gwf (guarded (ags_tenants store))"

lemma agentic_put_correct:
  assumes "graph_laws lib gwf" "ag_inv lib gwf store" "is_logical_id (mr_key r)"
  shows "map_prod id (ag_view lib) (agentic_put lib store r) = put (ag_view lib store) r
    \<and> ag_inv lib gwf (snd (agentic_put lib store r))"
proof (cases "validate_record r")
  case (Inr u)
  then have "length (mr_content r) \<le> MAX_CONTENT_BYTES" by (auto simp: validate_record_def split: if_splits)
  moreover obtain a tenants' where "agentic_put_tenants lib (guarded (ags_tenants store)) r = (a, tenants')"
    by fastforce
  ultimately show ?thesis
    using assms agentic_put_tenants_correct [OF assms(1), of "guarded (ags_tenants store)" r a tenants'] Inr
    by (simp add: ag_inv_def agentic_put_def put_def lock_def ag_view_def)
qed (use assms in \<open>simp add: agentic_put_def put_def\<close>)

lemma agentic_delete_correct:
  assumes "graph_laws lib gwf" "ag_inv lib gwf store"
  shows "map_prod id (ag_view lib) (agentic_delete lib store t n k) = delete (ag_view lib store) t n k
    \<and> ag_inv lib gwf (snd (agentic_delete lib store t n k))"
proof -
  obtain a tenants' where del: "agentic_delete_tenants lib (guarded (ags_tenants store)) t n k = (a, tenants')"
    by fastforce
  from assms agentic_delete_tenants_correct [OF assms(1) _ del] show ?thesis
    by (auto simp: ag_inv_def agentic_delete_def delete_def lock_def ag_view_def del split: prod.splits)
qed

lemma agentic_get_correct:
  assumes "graph_laws lib gwf" "ag_inv lib gwf store"
  shows "agentic_get lib store t n k = get (ag_view lib store) t n k"
proof -
  have "rebuild lib part i t n k = Some (the (rebuild lib part i t n k))"
    if "bt_get (guarded (ags_tenants store)) t = Some tenant" "bt_get tenant n = Some part"
      "bt_get (ap_ids part) k = Some i" for tenant part i
  proof -
    from that assms(2) have "part_inv lib gwf part"
      by (auto simp: ag_inv_def ag_tenants_ok_def ag_tenant_ok_def)
    from rebuild_Some [OF assms(1) this map_of_SomeD [OF that(3)]] show ?thesis by (metis option.sel)
  qed
  with assms(2) show ?thesis
    by (auto simp: ag_inv_def agentic_get_def get_def lock_def ag_view_def split: option.split bind_splits)
qed

lemma agentic_query_correct:
  assumes "graph_laws lib gwf" "ag_inv lib gwf store"
  shows "agentic_query lib store t n q = query (ag_view lib store) t n q"
proof -
  have part: "part_inv lib gwf part" "ap_graph part = Some (graph_mut lib part)"
    if "bt_get (guarded (ags_tenants store)) t = Some tenant" "bt_get tenant n = Some part" for tenant part
  proof -
    from that assms(2) have "part_inv lib gwf part" "ap_ids part \<noteq> []"
      by (auto simp: ag_inv_def ag_tenants_ok_def ag_tenant_ok_def)
    then show "part_inv lib gwf part" "ap_graph part = Some (graph_mut lib part)"
      by (auto simp: part_inv_def graph_mut_def split: option.splits)
  qed
  show ?thesis
  proof (cases "Option.bind (bt_get (guarded (ags_tenants store)) t) (\<lambda>tenant. bt_get tenant n)")
    case None
    with assms(2) show ?thesis
      by (cases "bt_get (guarded (ags_tenants store)) t")
        (simp_all add: ag_inv_def agentic_query_def query_def lock_def ag_view_def)
  next
    case (Some p)
    then obtain tenant where get: "bt_get (guarded (ags_tenants store)) t = Some tenant" "bt_get tenant n = Some p"
      by (auto simp: bind_eq_Some_conv)
    from partition_query [OF assms(1) part(1) [OF get]] part(2) [OF get] assms(2) get show ?thesis
      by (simp add: ag_inv_def agentic_query_def query_def lock_def ag_view_def)
  qed
qed


section \<open>Histories\<close>

abbreviation agentic_service_step where
  "agentic_service_step lib \<equiv> service_step (agentic_put lib) (agentic_get lib) (agentic_query lib) (agentic_delete lib)"

fun op_keyed :: "memory_op \<Rightarrow> bool" where
  "op_keyed (Remember now c r) = is_logical_id (rq_key r)"
| "op_keyed _ = True"

definition service_view :: "'g graph_library \<Rightarrow> 'g agentic_store memory_service \<Rightarrow> in_process_store memory_service" where
  "service_view lib sv = \<lparr>sv_store = ag_view lib (sv_store sv), result_ceiling = result_ceiling sv\<rparr>"

lemma agentic_step:
  assumes "graph_laws lib gwf" "ag_inv lib gwf (sv_store sv)" "op_keyed op"
  shows "map_prod id (service_view lib) (agentic_service_step lib sv op) = local_service_step (service_view lib sv) op
    \<and> ag_inv lib gwf (sv_store (snd (agentic_service_step lib sv op)))"
proof (cases op)
  case (Remember now c r)
  with assms agentic_put_correct [of lib gwf "sv_store sv" "remembered now c r"] show ?thesis
    by (cases "agentic_put lib (sv_store sv) (remembered now c r)")
      (auto simp: remember_def service_view_def remembered_def Let_def split: sum.split prod.splits)
next
  case (Forget c n k)
  with assms agentic_delete_correct [of lib gwf "sv_store sv" "ctx_tenant_id c" n k] show ?thesis
    by (cases "agentic_delete lib (sv_store sv) (ctx_tenant_id c) n k")
      (auto simp: forget_def service_view_def split: prod.splits)
qed (use assms in \<open>simp_all add: recall_def search_def service_view_def agentic_get_correct agentic_query_correct\<close>)

lemma agentic_outputs:
  assumes "graph_laws lib gwf" "ag_inv lib gwf (sv_store sv)" "\<forall>op\<in>set ops. op_keyed op"
  shows "outputs (agentic_service_step lib) sv ops = outputs local_service_step (service_view lib sv) ops"
  using assms(2,3)
proof (induction ops arbitrary: sv)
  case (Cons op ops)
  then have "op_keyed op" by simp
  from agentic_step [OF assms(1) Cons.prems(1) this] Cons show ?case
    by (cases "agentic_service_step lib sv op") (auto dest: sym)
qed simp

text \<open>C12: The two adapters of the memory port cannot be told apart. Over a graph library with the
  documented behaviour, every history of service calls gives, call by call, the same results
  (records, order, outcomes, refusals) over the agentic store as over the in-process store. The
  keys of the written records are record keys: they passed the identifier grammar.
\<close>

theorem agentic_agrees_with_in_process:
  assumes "graph_laws lib gwf" and "\<forall>op\<in>set ops. op_keyed op"
  shows "outputs (agentic_service_step lib) \<lparr>sv_store = agentic_store_new, result_ceiling = ceiling\<rparr> ops
    = outputs local_service_step \<lparr>sv_store = in_process_store_new, result_ceiling = ceiling\<rparr> ops"
proof -
  have "ag_inv lib gwf agentic_store_new" "ag_view lib agentic_store_new = in_process_store_new"
    by (simp_all add: ag_inv_def ag_tenants_ok_def ag_view_def agentic_store_new_def in_process_store_new_def mutex_new_def)
  with agentic_outputs [OF assms(1) _ assms(2), of "\<lparr>sv_store = agentic_store_new, result_ceiling = ceiling\<rparr>"]
  show ?thesis by (simp add: service_view_def)
qed

text \<open>A graph library with these laws: a list of nodes, a new node under the first free identifier.\<close>

definition free_id :: "graph_node list \<Rightarrow> u64 option" where
  "free_id g = List.find (\<lambda>i. i \<notin> gn_id ` set g) (map word_of_nat [0..<Suc (length g)])"

definition list_graph :: "graph_node list graph_library" where
  "list_graph = \<lparr>graph_new = [],
     add_node = (\<lambda>g e. if 4096 < length g then (None, g) else
       case free_id g of
         None \<Rightarrow> (None, g)
       | Some i \<Rightarrow> (Some i, g @ [\<lparr>gn_id = i, gn_event_type = ce_event_type e, gn_content = ce_content e\<rparr>])),
     remove_node = (\<lambda>g i. (i \<in> gn_id ` set g, filter (\<lambda>node. gn_id node \<noteq> i) g)),
     nodes = (\<lambda>g. g), get_node = (\<lambda>g i. List.find (\<lambda>node. gn_id node = i) g)\<rparr>"

lemma free_id_Some:
  assumes "length g \<le> 4096"
  obtains i where "free_id g = Some i" "i \<notin> gn_id ` set g"
proof -
  let ?ids = "map (word_of_nat :: nat \<Rightarrow> u64) [0..<Suc (length g)]"
  have "inj_on (word_of_nat :: nat \<Rightarrow> u64) {0..<Suc (length g)}"
    using assms by (intro inj_onI) (auto simp: word_of_nat_eq_iff take_bit_nat_eq_self)
  from card_image [OF this] have "card (set ?ids) = Suc (length g)" by (simp only: set_map set_upt card_atLeastLessThan)
  moreover have "card (gn_id ` set g) \<le> length g" by (metis card_length length_map list.set_map)
  ultimately have "\<not> set ?ids \<subseteq> gn_id ` set g" by (metis Suc_n_not_le_n card_mono finite_imageI List.finite_set le_trans)
  then have "free_id g \<noteq> None" unfolding free_id_def find_None_iff by blast
  then obtain i where "free_id g = Some i" by blast
  moreover from this have "i \<notin> gn_id ` set g" by (auto simp: free_id_def find_Some_iff)
  ultimately show thesis using that by blast
qed

lemma list_graph_laws: "graph_laws list_graph (\<lambda>g. distinct (map gn_id g))"
proof -
  have "List.find (\<lambda>node. gn_id node = i) g = Some node \<longleftrightarrow> node \<in> set g \<and> gn_id node = i"
    if "distinct (map gn_id g)" for g i node
    using that by (induction g) auto
  moreover have "\<exists>i g'. add_node list_graph g e = (Some i, g') \<and> distinct (map gn_id g') \<and> i \<notin> gn_id ` set g
      \<and> set g' = insert \<lparr>gn_id = i, gn_event_type = ce_event_type e, gn_content = ce_content e\<rparr> (set g)"
    if "distinct (map gn_id g)" "length g \<le> 4096" for g e
    using that(1) by (rule_tac free_id_Some [OF that(2)]) (use that(2) in \<open>auto simp: list_graph_def\<close>)
  ultimately show ?thesis
    by (simp add: graph_laws_def) (auto simp: list_graph_def distinct_map_filter)
qed


definition demo_history :: "memory_op list" where
  "demo_history = [Remember 5 demo_context demo_request, Remember 6 demo_context demo_request,
     Recall demo_context ''notes'' ''k1'', Forget demo_context ''notes'' ''k1''
     , Recall demo_context ''notes'' ''k1'']"

theorem agentic_agrees_with_in_process_witness:
  "graph_laws list_graph (\<lambda>g. distinct (map gn_id g)) \<and>
   outputs (agentic_service_step list_graph) \<lparr>sv_store = agentic_store_new, result_ceiling = 64\<rparr> demo_history
    = outputs local_service_step \<lparr>sv_store = in_process_store_new, result_ceiling = 64\<rparr> demo_history"
proof -
  have "is_logical_id ''k1''" by code_simp
  then have "\<forall>op\<in>set demo_history. op_keyed op" by (simp add: demo_history_def demo_request_def)
  from agentic_agrees_with_in_process [OF list_graph_laws this] list_graph_laws show ?thesis by blast
qed

section \<open>A failed insertion\<close>

text \<open>C36: When the graph library refuses the insertion of the first record of a namespace, the write
  fails with \<open>AdapterFailure\<close>, yet the partition that was created for it stays: the tenant has one
  namespace more against its limit, without a record in it, and no deletion reclaims it. The
  contract of the port (clause 7) promises that a failed call leaves the store as it was.
\<close>

theorem agentic_failed_write_leaves_partition:
  assumes "\<not> poisoned (ags_tenants store)" and "validate_record r = Inr ()"
    and "bt_ok (entry_value (guarded (ags_tenants store)) (mr_tenant_id r))"
    and "bt_get (entry_value (guarded (ags_tenants store)) (mr_tenant_id r)) (mr_namespace r) = None"
    and "length (entry_value (guarded (ags_tenants store)) (mr_tenant_id r)) < MAX_TENANT_NAMESPACES"
    and "fst (add_node lib (graph_new lib) (event_of r)) = None"
  shows "\<exists>store' part. agentic_put lib store r = (Inl AdapterFailure, store')
    \<and> bt_get (entry_value (guarded (ags_tenants store')) (mr_tenant_id r)) (mr_namespace r) = Some part
    \<and> ap_ids part = []
    \<and> length (entry_value (guarded (ags_tenants store')) (mr_tenant_id r))
        = Suc (length (entry_value (guarded (ags_tenants store)) (mr_tenant_id r)))
    \<and> (\<forall>k. agentic_delete lib store' (mr_tenant_id r) (mr_namespace r) k = (Inr False, store'))"
proof -
  obtain g where "add_node lib (graph_new lib) (event_of r) = (None, g)" using assms(6) by (metis prod.collapse)
  then have "put_partition lib agentic_partition_default r
      = (Inl AdapterFailure, agentic_partition_default\<lparr>ap_graph := Some g\<rparr>)"
    by (simp add: put_partition_def graph_mut_def agentic_partition_default_def)
  moreover have "check_capacity (length (entry_value (guarded (ags_tenants store)) (mr_tenant_id r))) True 0 True = Inr ()"
    using assms(5) by (simp add: check_capacity_def MAX_PARTITION_RECORDS_def)
  ultimately show ?thesis
    using assms(1-4) by (simp add: agentic_put_def lock_def agentic_put_tenants_def Let_def agentic_delete_def
        agentic_delete_tenants_def agentic_partition_default_def length_bt_insert)
qed

definition refusing_graph :: "unit graph_library" where
  "refusing_graph = \<lparr>graph_new = (), add_node = (\<lambda>g e. (None, g)), remove_node = (\<lambda>g i. (False, g)),
     nodes = (\<lambda>g. []), get_node = (\<lambda>g i. None)\<rparr>"

theorem agentic_failed_write_leaves_partition_witness:
  "\<exists>store'. agentic_put refusing_graph agentic_store_new (remembered 5 demo_context demo_request)
      = (Inl AdapterFailure, store')
    \<and> length (entry_value (guarded (ags_tenants store')) ''acme'') = 1"
proof -
  have "mr_tenant_id (remembered 5 demo_context demo_request) = ''acme''"
    by (simp add: remembered_def demo_context_def)
  with agentic_failed_write_leaves_partition [of agentic_store_new "remembered 5 demo_context demo_request" refusing_graph]
    demo_valid
  show ?thesis by (auto simp: agentic_store_new_def mutex_new_def refusing_graph_def MAX_TENANT_NAMESPACES_def)
qed

end
