(* ===== verification/Observability.thy ===== *)
theory Observability
  imports Contracts
begin

text \<open>
  The core of the observability crate: bounded telemetry events, queries, spans, metrics and trace
  contexts (\<open>observability/src/model.rs\<close>, \<open>validation.rs\<close>), W3C trace-context headers
  (\<open>propagation.rs\<close>), the service (\<open>service.rs\<close>), the local adapter (\<open>local.rs\<close>), errors and
  settings. The clock is an input, and the sink and the reader of the service are parameters.
\<close>

unbundle bit_operations_syntax

section \<open>Errors and limits\<close>

datatype public_error_code =
    PubInvalidId | PubInvalidEvent | PubInvalidQuery | PubInvalidConfiguration | PubInvalidTraceContext
  | PubInvalidSpan | PubInvalidMetric | PubLimitExceeded | PubOperationFailed

datatype observability_error =
    InvalidId | InvalidEvent | InvalidQuery | InvalidConfiguration | InvalidTraceContext
  | InvalidSpan | InvalidMetric | LimitExceeded | AdapterFailure

fun public_code :: "observability_error \<Rightarrow> public_error_code" where
  "public_code InvalidId = PubInvalidId"
| "public_code InvalidEvent = PubInvalidEvent"
| "public_code InvalidQuery = PubInvalidQuery"
| "public_code InvalidConfiguration = PubInvalidConfiguration"
| "public_code InvalidTraceContext = PubInvalidTraceContext"
| "public_code InvalidSpan = PubInvalidSpan"
| "public_code InvalidMetric = PubInvalidMetric"
| "public_code LimitExceeded = PubLimitExceeded"
| "public_code AdapterFailure = PubOperationFailed"

definition MAX_IDENTIFIER_BYTES :: nat where "MAX_IDENTIFIER_BYTES = 128"
definition MAX_BODY_BYTES :: nat where "MAX_BODY_BYTES = 16 * 1024"
definition MAX_ATTRIBUTES :: nat where "MAX_ATTRIBUTES = 32"
definition MAX_ATTRIBUTE_VALUE_BYTES :: nat where "MAX_ATTRIBUTE_VALUE_BYTES = 1024"
definition MAX_EVENT_BYTES :: nat where "MAX_EVENT_BYTES = 64 * 1024"
definition MAX_QUERY_LIMIT :: nat where "MAX_QUERY_LIMIT = 256"
definition MAX_LOCAL_EVENTS_PER_TENANT :: nat where "MAX_LOCAL_EVENTS_PER_TENANT = 4096"
definition MAX_LOCAL_EVENTS_TOTAL :: nat where "MAX_LOCAL_EVENTS_TOTAL = 4096"
definition MAX_TRACESTATE_BYTES :: nat where "MAX_TRACESTATE_BYTES = 512"
definition MAX_BAGGAGE_ENTRIES :: nat where "MAX_BAGGAGE_ENTRIES = 16"
definition MAX_BAGGAGE_VALUE_BYTES :: nat where "MAX_BAGGAGE_VALUE_BYTES = 256"
definition MAX_SPAN_BYTES :: nat where "MAX_SPAN_BYTES = 64 * 1024"
definition MAX_METRIC_UNIT_BYTES :: nat where "MAX_METRIC_UNIT_BYTES = 32"
definition MAX_METRIC_BYTES :: nat where "MAX_METRIC_BYTES = 16 * 1024"

section \<open>Identifiers and labels\<close>

definition validate_tenant_id :: "string \<Rightarrow> (unit, observability_error) result" where
  "validate_tenant_id value =
     ensure (length value \<le> MAX_IDENTIFIER_BYTES
       \<and> first_rest lower_or_digit (\<lambda>b. lower_or_digit b \<or> b = CHR ''_'' \<or> b = CHR ''-'') value) InvalidId"

definition validate_label :: "string \<Rightarrow> unit option" where
  "validate_label value =
     (if length value \<le> MAX_IDENTIFIER_BYTES
       \<and> first_rest lower_or_digit (\<lambda>b. lower_or_digit b \<or> b = CHR ''_'' \<or> b = CHR ''-'' \<or> b = CHR ''.'') value
      then Some () else None)"

definition validate_event_name :: "string \<Rightarrow> (unit, observability_error) result" where
  "validate_event_name value = ok_or (validate_label value) InvalidEvent"

definition validate_event_target :: "string \<Rightarrow> (unit, observability_error) result" where
  "validate_event_target value = ok_or (validate_label value) InvalidEvent"

definition validate_attribute_key :: "string \<Rightarrow> (unit, observability_error) result" where
  "validate_attribute_key value = ok_or (validate_label value) InvalidEvent"

text \<open>\<open>TenantId\<close>, \<open>EventName\<close> and \<open>EventTarget\<close> are one macro's instances, one validator each.\<close>

definition bounded_name_new :: "(string \<Rightarrow> (unit, observability_error) result) \<Rightarrow> string
    \<Rightarrow> (string, observability_error) result" where
  "bounded_name_new validator value = and_then (validator value) (\<lambda>_. Inr value)"

section \<open>Events, records and queries\<close>

type_synonym timestamp = u64
type_synonym attributes = "(string, string) btree_map"

datatype severity = Trace | Debug | Info | Warn | Error

fun severity_index :: "severity \<Rightarrow> nat" where
  "severity_index Trace = 0"
| "severity_index Debug = 1"
| "severity_index Info = 2"
| "severity_index Warn = 3"
| "severity_index Error = 4"

instantiation severity :: linorder
begin

definition less_eq_severity :: "severity \<Rightarrow> severity \<Rightarrow> bool" where
  "less_eq_severity a b \<longleftrightarrow> severity_index a \<le> severity_index b"

definition less_severity :: "severity \<Rightarrow> severity \<Rightarrow> bool" where
  "less_severity a b \<longleftrightarrow> severity_index a < severity_index b"

instance
proof
  fix a b :: severity
  show "a \<le> b \<Longrightarrow> b \<le> a \<Longrightarrow> a = b" by (cases a; cases b) (simp_all add: less_eq_severity_def)
qed (auto simp: less_eq_severity_def less_severity_def)

end

record telemetry_event =
  te_name :: string
  te_target :: string
  te_severity :: severity
  te_body :: string
  te_attributes :: attributes

record telemetry_envelope =
  env_tenant_id :: string
  env_timestamp :: timestamp
  env_event :: telemetry_event

record telemetry_record =
  tr_sequence :: u64
  tr_envelope :: telemetry_envelope

record telemetry_query =
  tq_since :: "timestamp option"
  tq_until :: "timestamp option"
  tq_minimum_severity :: "severity option"
  tq_event_name :: "string option"
  tq_target :: "string option"
  tq_limit :: usize

text \<open>The checked sum of the bytes of the attributes, shared by events, spans and metrics.\<close>

definition add_attribute :: "usize \<Rightarrow> string \<times> string \<Rightarrow> usize option" where
  "add_attribute bytes e =
     Option.bind (usize_checked_add bytes (length (fst e))) (\<lambda>total. usize_checked_add total (length (snd e)))"

definition event_size :: "telemetry_event \<Rightarrow> (usize, observability_error) result" where
  "event_size event =
     and_then (ok_or (Option.bind (usize_checked_add (length (te_name event)) (length (te_target event)))
         (\<lambda>total. usize_checked_add total (length (te_body event)))) LimitExceeded)
       (\<lambda>total. try_fold (\<lambda>total e. ok_or (add_attribute total e) LimitExceeded) total (te_attributes event))"

definition check_attribute :: "(observability_error \<Rightarrow> observability_error) \<Rightarrow> string \<times> string
    \<Rightarrow> (unit, observability_error) result" where
  "check_attribute f e =
     and_then (map_err f (validate_attribute_key (fst e)))
       (\<lambda>_. ensure (length (snd e) \<le> MAX_ATTRIBUTE_VALUE_BYTES) LimitExceeded)"

definition check_attributes :: "(observability_error \<Rightarrow> observability_error) \<Rightarrow> attributes
    \<Rightarrow> (unit, observability_error) result" where
  "check_attributes f attrs = try_fold (\<lambda>_ e. check_attribute f e) () attrs"

definition validate_event :: "telemetry_event \<Rightarrow> (unit, observability_error) result" where
  "validate_event event =
     and_then (validate_event_name (te_name event)) (\<lambda>_.
     and_then (validate_event_target (te_target event)) (\<lambda>_.
     if length (te_body event) > MAX_BODY_BYTES \<or> length (te_attributes event) > MAX_ATTRIBUTES
     then Inl LimitExceeded
     else and_then (check_attributes (\<lambda>e. e) (te_attributes event)) (\<lambda>_.
     and_then (event_size event) (\<lambda>total. ensure (total \<le> MAX_EVENT_BYTES) LimitExceeded))))"

definition telemetry_event_new :: "string \<Rightarrow> string \<Rightarrow> severity \<Rightarrow> string \<Rightarrow> attributes
    \<Rightarrow> (telemetry_event, observability_error) result" where
  "telemetry_event_new name target sev body attrs =
     (let event = \<lparr>te_name = name, te_target = target, te_severity = sev, te_body = body, te_attributes = attrs\<rparr> in
      and_then (validate_event event) (\<lambda>_. Inr event))"

definition validate_envelope :: "telemetry_envelope \<Rightarrow> (unit, observability_error) result" where
  "validate_envelope envelope =
     and_then (validate_tenant_id (env_tenant_id envelope)) (\<lambda>_. validate_event (env_event envelope))"

definition validate_record :: "telemetry_record \<Rightarrow> (unit, observability_error) result" where
  "validate_record record =
     and_then (ensure (tr_sequence record > 0) InvalidEvent) (\<lambda>_. validate_envelope (tr_envelope record))"

definition validate_query :: "telemetry_query \<Rightarrow> usize \<Rightarrow> (unit, observability_error) result" where
  "validate_query query maximum_limit =
     (if tq_limit query = 0 then Inl InvalidQuery
      else if tq_limit query > maximum_limit then Inl LimitExceeded
      else if (case (tq_since query, tq_until query) of (Some since, Some until) \<Rightarrow> since \<ge> until | _ \<Rightarrow> False)
      then Inl InvalidQuery
      else and_then (case tq_event_name query of None \<Rightarrow> Inr ()
          | Some name \<Rightarrow> map_err (\<lambda>_. InvalidQuery) (validate_event_name name)) (\<lambda>_.
        case tq_target query of None \<Rightarrow> Inr ()
        | Some target \<Rightarrow> map_err (\<lambda>_. InvalidQuery) (validate_event_target target)))"

definition telemetry_query_new :: "usize \<Rightarrow> (telemetry_query, observability_error) result" where
  "telemetry_query_new lim =
     (let query = \<lparr>tq_since = None, tq_until = None, tq_minimum_severity = None, tq_event_name = None,
        tq_target = None, tq_limit = lim\<rparr> in
      and_then (validate_query query MAX_QUERY_LIMIT) (\<lambda>_. Inr query))"

definition record_matches :: "telemetry_record \<Rightarrow> telemetry_query \<Rightarrow> bool" where
  "record_matches record query \<longleftrightarrow>
     (let envelope = tr_envelope record in
      (case tq_since query of None \<Rightarrow> True | Some since \<Rightarrow> env_timestamp envelope \<ge> since)
      \<and> (case tq_until query of None \<Rightarrow> True | Some until \<Rightarrow> env_timestamp envelope < until)
      \<and> (case tq_minimum_severity query of None \<Rightarrow> True | Some sev \<Rightarrow> te_severity (env_event envelope) \<ge> sev)
      \<and> (case tq_event_name query of None \<Rightarrow> True | Some name \<Rightarrow> te_name (env_event envelope) = name)
      \<and> (case tq_target query of None \<Rightarrow> True | Some target \<Rightarrow> te_target (env_event envelope) = target))"

section \<open>Trace contexts, spans and metrics\<close>

type_synonym trace_id = "u8 list"
type_synonym span_id = "u8 list"
type_synonym trace_flags = u8

definition trace_id_new :: "u8 list \<Rightarrow> (trace_id, observability_error) result" where
  "trace_id_new bytes = (if bytes \<noteq> replicate 16 0 then Inr bytes else Inl InvalidTraceContext)"

definition span_id_new :: "u8 list \<Rightarrow> (span_id, observability_error) result" where
  "span_id_new bytes = (if bytes \<noteq> replicate 8 0 then Inr bytes else Inl InvalidTraceContext)"

definition is_sampled :: "trace_flags \<Rightarrow> bool" where
  "is_sampled flags \<longleftrightarrow> flags AND 1 \<noteq> 0"

record trace_context =
  tc_trace_id :: trace_id
  tc_span_id :: span_id
  tc_trace_flags :: trace_flags
  tc_trace_state :: "string option"
  tc_baggage :: "(string, string) btree_map"

definition is_control_byte :: "char \<Rightarrow> bool" where
  "is_control_byte b \<longleftrightarrow> b \<le> CHR 0x1F \<or> b = CHR 0x7F"

definition check_baggage_entry :: "string \<times> string \<Rightarrow> (unit, observability_error) result" where
  "check_baggage_entry e =
     and_then (ok_or (validate_label (fst e)) InvalidTraceContext) (\<lambda>_.
       if length (snd e) > MAX_BAGGAGE_VALUE_BYTES then Inl LimitExceeded
       else if list_ex (\<lambda>b. is_control_byte b \<or> b = CHR '','' \<or> b = CHR ''='' \<or> b = CHR '';'') (snd e)
       then Inl InvalidTraceContext else Inr ())"

definition check_trace_state :: "string option \<Rightarrow> (unit, observability_error) result" where
  "check_trace_state trace_state =
     (case trace_state of None \<Rightarrow> Inr ()
      | Some state \<Rightarrow>
          if length state > MAX_TRACESTATE_BYTES then Inl LimitExceeded
          else if list_ex is_control_byte state then Inl InvalidTraceContext else Inr ())"

definition validate_trace_context :: "trace_context \<Rightarrow> (unit, observability_error) result" where
  "validate_trace_context context =
     and_then (check_trace_state (tc_trace_state context)) (\<lambda>_.
       if length (tc_baggage context) > MAX_BAGGAGE_ENTRIES then Inl LimitExceeded
       else try_fold (\<lambda>_ e. check_baggage_entry e) () (tc_baggage context))"

definition trace_context_new :: "trace_id \<Rightarrow> span_id \<Rightarrow> trace_flags \<Rightarrow> string option
    \<Rightarrow> (string, string) btree_map \<Rightarrow> (trace_context, observability_error) result" where
  "trace_context_new trace span flags state baggage =
     (let context = \<lparr>tc_trace_id = trace, tc_span_id = span, tc_trace_flags = flags, tc_trace_state = state,
        tc_baggage = baggage\<rparr> in
      and_then (validate_trace_context context) (\<lambda>_. Inr context))"

datatype span_status = SpanUnset | SpanOk | SpanError

record span_event =
  sp_name :: string
  sp_target :: string
  sp_context :: trace_context
  sp_parent_span_id :: "span_id option"
  sp_start :: timestamp
  sp_end :: timestamp
  sp_status :: span_status
  sp_attributes :: attributes

definition validate_span :: "span_event \<Rightarrow> (unit, observability_error) result" where
  "validate_span span =
     and_then (map_err (\<lambda>_. InvalidSpan) (validate_event_name (sp_name span))) (\<lambda>_.
     and_then (map_err (\<lambda>_. InvalidSpan) (validate_event_target (sp_target span))) (\<lambda>_.
     if sp_end span < sp_start span then Inl InvalidSpan
     else if length (sp_attributes span) > MAX_ATTRIBUTES then Inl LimitExceeded
     else and_then (check_attributes (\<lambda>_. InvalidSpan) (sp_attributes span)) (\<lambda>_.
     and_then (ok_or (usize_checked_add (length (sp_name span)) (length (sp_target span))) LimitExceeded) (\<lambda>total.
     and_then (try_fold (\<lambda>total e. ok_or (add_attribute total e) LimitExceeded) total (sp_attributes span)) (\<lambda>total.
       ensure (total \<le> MAX_SPAN_BYTES) LimitExceeded)))))"

definition span_event_new :: "string \<Rightarrow> string \<Rightarrow> trace_context \<Rightarrow> span_id option \<Rightarrow> timestamp \<Rightarrow> timestamp
    \<Rightarrow> span_status \<Rightarrow> attributes \<Rightarrow> (span_event, observability_error) result" where
  "span_event_new name target context parent start finish status attrs =
     (let span = \<lparr>sp_name = name, sp_target = target, sp_context = context, sp_parent_span_id = parent,
        sp_start = start, sp_end = finish, sp_status = status, sp_attributes = attrs\<rparr> in
      and_then (validate_span span) (\<lambda>_. Inr span))"

datatype metric_kind = Counter | Gauge | Histogram

text \<open>An \<open>f64\<close> is its 64 bits; it is finite unless the eleven bits of the exponent are all ones.\<close>

type_synonym f64 = "64 word"

definition is_finite :: "f64 \<Rightarrow> bool" where
  "is_finite v \<longleftrightarrow> take_bit 11 (drop_bit 52 v) \<noteq> mask 11"

record metric_event =
  me_name :: string
  me_kind :: metric_kind
  me_value :: f64
  me_unit :: "string option"
  me_attributes :: attributes
  me_timestamp :: timestamp

definition validate_metric :: "metric_event \<Rightarrow> (unit, observability_error) result" where
  "validate_metric metric =
     and_then (map_err (\<lambda>_. InvalidMetric) (validate_event_name (me_name metric))) (\<lambda>_.
     if \<not> is_finite (me_value metric) then Inl InvalidMetric
     else if (case me_unit metric of None \<Rightarrow> False | Some unit_text \<Rightarrow> length unit_text > MAX_METRIC_UNIT_BYTES)
     then Inl LimitExceeded
     else if length (me_attributes metric) > MAX_ATTRIBUTES then Inl LimitExceeded
     else and_then (check_attributes (\<lambda>_. InvalidMetric) (me_attributes metric)) (\<lambda>_.
     and_then (ok_or (usize_checked_add (length (me_name metric))
         (case me_unit metric of None \<Rightarrow> 0 | Some unit_text \<Rightarrow> length unit_text)) LimitExceeded) (\<lambda>total.
     and_then (try_fold (\<lambda>total e. ok_or (add_attribute total e) LimitExceeded) total (me_attributes metric)) (\<lambda>total.
       ensure (total \<le> MAX_METRIC_BYTES) LimitExceeded))))"

definition metric_event_new :: "string \<Rightarrow> metric_kind \<Rightarrow> f64 \<Rightarrow> string option \<Rightarrow> attributes \<Rightarrow> timestamp
    \<Rightarrow> (metric_event, observability_error) result" where
  "metric_event_new name kind value unit_text attrs now =
     (let metric = \<lparr>me_name = name, me_kind = kind, me_value = value, me_unit = unit_text, me_attributes = attrs,
        me_timestamp = now\<rparr> in
      and_then (validate_metric metric) (\<lambda>_. Inr metric))"

end
