(* ===== verification/Text_Ops.thy ===== *)
theory Text_Ops
  imports Collections
begin

text \<open>
  The operations on text the workspace uses from the standard library, on UTF-8 bytes: splitting
  and joining, trimming, parsing of numbers, lossy decoding and the components of a path.
\<close>

section \<open>Strings\<close>

text \<open>\<open>str::split\<close> on one character: always at least one piece.\<close>

fun split_on :: "char \<Rightarrow> string \<Rightarrow> string list" where
  "split_on d [] = [[]]"
| "split_on d (c # cs) =
     (if c = d then [] # split_on d cs
      else (case split_on d cs of [] \<Rightarrow> [[c]] | piece # pieces \<Rightarrow> (c # piece) # pieces))"

text \<open>\<open>splitn(2, d)\<close>: the text before the first \<open>d\<close> and, if there is one, the text after it.\<close>

definition split_two :: "char \<Rightarrow> string \<Rightarrow> string \<times> string option" where
  "split_two d s =
     (takeWhile (\<lambda>c. c \<noteq> d) s,
      case dropWhile (\<lambda>c. c \<noteq> d) s of [] \<Rightarrow> None | _ # rest \<Rightarrow> Some rest)"

text \<open>\<open>str::split_once\<close> at the first occurrence of a character.\<close>

definition split_once :: "char \<Rightarrow> string \<Rightarrow> (string \<times> string) option" where
  "split_once d s = (case split_two d s of (head, rest) \<Rightarrow> map_option (\<lambda>tail. (head, tail)) rest)"

fun join :: "string \<Rightarrow> string list \<Rightarrow> string" where
  "join sep [] = []"
| "join sep [s] = s"
| "join sep (s # t # ss) = s @ sep @ join sep (t # ss)"

text \<open>
  The characters of a UTF-8 text: a character begins at every byte that is not a continuation
  byte. \<open>trim\<close> drops the white-space characters at both ends; a single character is white space
  exactly when it is blank.
\<close>

definition continuation_byte :: "char \<Rightarrow> bool" where
  "continuation_byte c \<longleftrightarrow> CHR 0x80 \<le> c \<and> c \<le> CHR 0xBF"

fun utf8_chars :: "string \<Rightarrow> string list" where
  "utf8_chars [] = []"
| "utf8_chars (c # cs) =
     (if cs \<noteq> [] \<and> continuation_byte (hd cs)
      then (case utf8_chars cs of [] \<Rightarrow> [[c]] | w # ws \<Rightarrow> (c # w) # ws)
      else [c] # utf8_chars cs)"

definition trim_start :: "string \<Rightarrow> string" where
  "trim_start s = concat (dropWhile blank (utf8_chars s))"

definition trim_end :: "string \<Rightarrow> string" where
  "trim_end s = concat (rev (dropWhile blank (rev (utf8_chars s))))"

definition trim :: "string \<Rightarrow> string" where
  "trim s = concat (rev (dropWhile blank (rev (dropWhile blank (utf8_chars s)))))"

text \<open>\<open>str::rsplit_once\<close>: the texts before and after the last occurrence of the pattern.\<close>

fun rsplit_once :: "string \<Rightarrow> string \<Rightarrow> (string \<times> string) option" where
  "rsplit_once pat [] = None"
| "rsplit_once pat (c # cs) =
     (case rsplit_once pat cs of
        Some (before, after) \<Rightarrow> Some (c # before, after)
      | None \<Rightarrow> if starts_with (c # cs) pat then Some ([], drop (length pat) (c # cs)) else None)"

text \<open>\<open>str::strip_prefix\<close>.\<close>

definition strip_prefix :: "string \<Rightarrow> string \<Rightarrow> string option" where
  "strip_prefix pat s = (if starts_with s pat then Some (drop (length pat) s) else None)"

text \<open>\<open>str::parse::<u32>\<close>: an optional plus sign and decimal digits whose value fits.\<close>

definition digits_value :: "string \<Rightarrow> nat" where
  "digits_value ds = foldl (\<lambda>n d. 10 * n + (of_char d - 48)) 0 ds"

definition parse_u32 :: "string \<Rightarrow> nat option" where
  "parse_u32 s =
     (let ds = (case s of c # cs \<Rightarrow> if c = CHR ''+'' then cs else s | [] \<Rightarrow> []) in
      if ds \<noteq> [] \<and> list_all is_ascii_digit ds \<and> digits_value ds < 2 ^ 32 then Some (digits_value ds) else None)"

text \<open>
  \<open>String::from_utf8_lossy\<close>: every maximal part of an ill-formed sequence becomes the replacement
  character. \<open>utf8_step\<close> says whether the text begins with a well-formed character and how many
  bytes the character, or the part to replace, has.
\<close>

definition byte_in :: "nat \<Rightarrow> nat \<Rightarrow> char \<Rightarrow> bool" where
  "byte_in lo hi c \<longleftrightarrow> lo \<le> of_char c \<and> of_char c \<le> hi"

definition second_byte :: "char \<Rightarrow> char \<Rightarrow> bool" where
  "second_byte c d \<longleftrightarrow>
     (if c = CHR 0xE0 then byte_in 0xA0 0xBF d else if c = CHR 0xED then byte_in 0x80 0x9F d
      else if c = CHR 0xF0 then byte_in 0x90 0xBF d else if c = CHR 0xF4 then byte_in 0x80 0x8F d
      else byte_in 0x80 0xBF d)"

fun utf8_step :: "string \<Rightarrow> bool \<times> nat" where
  "utf8_step [] = (True, 0)"
| "utf8_step (c # cs) =
     (if byte_in 0 0x7F c then (True, 1)
      else if byte_in 0xC2 0xF4 c then
        (case cs of
           [] \<Rightarrow> (False, 1)
         | d # ds \<Rightarrow>
             if \<not> second_byte c d then (False, 1)
             else if byte_in 0xC2 0xDF c then (True, 2)
             else (case ds of
               [] \<Rightarrow> (False, 2)
             | e # es \<Rightarrow>
                 if \<not> byte_in 0x80 0xBF e then (False, 2)
                 else if byte_in 0xE0 0xEF c then (True, 3)
                 else (case es of
                   [] \<Rightarrow> (False, 3)
                 | f # fs \<Rightarrow> if byte_in 0x80 0xBF f then (True, 4) else (False, 3))))
      else (False, 1))"

fun from_utf8_lossy :: "string \<Rightarrow> string" where
  "from_utf8_lossy [] = []"
| "from_utf8_lossy (c # cs) =
     (case utf8_step (c # cs) of (ok, n) \<Rightarrow>
        (if ok then take n (c # cs) else [CHR 0xEF, CHR 0xBF, CHR 0xBD]) @ from_utf8_lossy (drop (n - 1) cs))"

text \<open>\<open>Path::components\<close> on a Unix path: a single dot counts only at the beginning of a relative path.\<close>

datatype component = RootDir | CurDir | ParentDir | Normal string

fun path_parts :: "bool \<Rightarrow> string list \<Rightarrow> component list" where
  "path_parts first [] = []"
| "path_parts first (part # parts) =
     (if part = [] then [] else if part = ''.'' then (if first then [CurDir] else [])
      else if part = ''..'' then [ParentDir] else [Normal part]) @ path_parts False parts"

definition is_absolute :: "string \<Rightarrow> bool" where
  "is_absolute s \<longleftrightarrow> starts_with s ''/''"

definition path_components :: "string \<Rightarrow> component list" where
  "path_components s =
     (if is_absolute s then RootDir # path_parts False (split_on CHR ''/'' s)
      else path_parts True (split_on CHR ''/'' s))"

section \<open>Splitting and joining\<close>

lemma split_on_nonempty [simp]: "split_on d s \<noteq> []"
  by (induction s) (auto split: list.split)

lemma split_on_append:
  "d \<notin> set s \<Longrightarrow> split_on d (s @ d # t) = s # split_on d t"
  by (induction s) auto

lemma split_on_none: "d \<notin> set s \<Longrightarrow> split_on d s = [s]"
  by (induction s) auto

lemma split_on_join:
  assumes "ss \<noteq> []" "\<forall>s\<in>set ss. d \<notin> set s"
  shows "split_on d (join [d] ss) = ss"
  using assms by (induction "[d]" ss rule: join.induct) (auto simp: split_on_append split_on_none)

lemma split_two_append: "d \<notin> set s \<Longrightarrow> split_two d (s @ d # t) = (s, Some t)"
  by (auto simp: split_two_def takeWhile_append dropWhile_append)

lemma split_once_append: "d \<notin> set s \<Longrightarrow> split_once d (s @ d # t) = Some (s, t)"
  by (simp add: split_once_def split_two_append)

lemma split_once_Some: "d \<in> set s \<Longrightarrow> \<exists>h t. s = h @ d # t \<and> d \<notin> set h \<and> split_once d s = Some (h, t)"
  by (metis split_list_first split_once_append)

section \<open>Trimming\<close>

lemma utf8_chars_concat [simp]: "concat (utf8_chars s) = s"
  by (induction s) (auto split: list.splits)

lemma utf8_chars_Nil [simp]: "utf8_chars s = [] \<longleftrightarrow> s = []"
  by (cases s) (auto split: list.split)

lemma utf8_chars_append:
  assumes "t = [] \<or> \<not> continuation_byte (hd t)"
  shows "utf8_chars (s @ t) = utf8_chars s @ utf8_chars t"
  using assms
proof (induction s)
  case (Cons c s)
  then show ?case by (cases s) (auto split: list.split)
qed simp


lemma all_dropWhile: "Ball (set (dropWhile P xs)) P \<longleftrightarrow> Ball (set xs) P"
  by (induction xs) auto

lemma dropWhile_cond_twice:
  "rev (dropWhile P (rev (dropWhile P (rev (dropWhile P (rev xs)))))) = rev (dropWhile P (rev (dropWhile P xs)))"
proof (induction xs)
  case (Cons x xs)
  show ?case
  proof (cases "P x")
    case True
    show ?thesis
    proof (cases "\<forall>y\<in>set xs. P y")
      case True
      with \<open>P x\<close> have all: "dropWhile P (rev xs @ [x]) = []" "dropWhile P (x # xs) = []"
        by (auto simp: dropWhile_eq_Nil_conv)
      then show ?thesis by (simp only: rev.simps all dropWhile.simps)
    next
      case False
      then have "dropWhile P (rev xs @ [x]) = dropWhile P (rev xs) @ [x]" by (auto simp: dropWhile_append)
      with Cons True show ?thesis by simp
    qed
  next
    case False
    then have "dropWhile P (rev xs @ [x]) = dropWhile P (rev xs) @ [x]"
      by (cases "\<forall>y\<in>set xs. P y") (auto simp: dropWhile_append dropWhile_eq_Nil_conv)
    with False show ?thesis by (simp add: dropWhile_append dropWhile_eq_Nil_conv all_dropWhile)
  qed
qed simp

lemma from_utf8_lossy_ascii: "\<forall>c\<in>set s. byte_in 0 0x7F c \<Longrightarrow> from_utf8_lossy s = s"
  by (induction s) auto

text \<open>A prefix of the characters of a text is the characters of its bytes.\<close>

fun char_list :: "string list \<Rightarrow> bool" where
  "char_list [] = True"
| "char_list (w # ws) \<longleftrightarrow> w \<noteq> [] \<and> list_all continuation_byte (tl w)
     \<and> (ws = [] \<or> \<not> continuation_byte (hd (hd ws))) \<and> char_list ws"

lemma hd_utf8_chars: "s \<noteq> [] \<Longrightarrow> hd (hd (utf8_chars s)) = hd s"
  by (induction s) (auto split: list.split)

lemma char_list_utf8_chars: "char_list (utf8_chars s)"
proof (induction s)
  case (Cons c s)
  then show ?case
    using hd_utf8_chars [of s] by (cases s) (auto split: list.splits)
qed simp

lemma utf8_chars_single: "w \<noteq> [] \<Longrightarrow> list_all continuation_byte (tl w) \<Longrightarrow> utf8_chars w = [w]"
proof (induction w)
  case (Cons c w)
  then show ?case by (cases w) auto
qed simp

lemma utf8_chars_concat_char_list: "char_list ws \<Longrightarrow> utf8_chars (concat ws) = ws"
proof (induction ws)
  case (Cons w ws)
  have "concat ws = [] \<or> \<not> continuation_byte (hd (concat ws))"
    using Cons.prems by (cases ws) auto
  with Cons show ?case by (simp add: utf8_chars_append utf8_chars_single)
qed simp

lemma char_list_prefix: "char_list (us @ vs) \<Longrightarrow> char_list us"
  by (induction us) auto

lemma trim_trim_end: "trim (trim_end s) = trim s"
proof -
  obtain ws where "utf8_chars s = rev (dropWhile blank (rev (utf8_chars s))) @ ws"
    by (metis rev_append rev_rev_ident takeWhile_dropWhile_id)
  then have "char_list (rev (dropWhile blank (rev (utf8_chars s))))"
    using char_list_utf8_chars [of s] char_list_prefix by metis
  then show ?thesis
    by (simp add: trim_def trim_end_def utf8_chars_concat_char_list dropWhile_cond_twice)
qed

lemma char_list_suffix: "char_list (us @ vs) \<Longrightarrow> char_list vs"
  by (induction us) auto

lemma dropWhile_ends: "dropWhile P (rev (dropWhile P (rev (dropWhile P xs)))) = rev (dropWhile P (rev (dropWhile P xs)))"
proof -
  let ?ys = "dropWhile P xs"
  obtain zs where zs: "?ys = rev (dropWhile P (rev ?ys)) @ zs"
    by (metis rev_append rev_rev_ident takeWhile_dropWhile_id)
  show ?thesis
  proof (cases "rev (dropWhile P (rev ?ys))")
    case (Cons y ys)
    with zs have "hd ?ys = y" "?ys \<noteq> []" by (metis append_Cons list.sel(1), metis Cons append_is_Nil_conv list.distinct(1))
    then have "\<not> P y" using hd_dropWhile by blast
    with Cons show ?thesis by simp
  next
    case Nil
    then show ?thesis by (simp only: dropWhile.simps)
  qed
qed

lemma trim_trim: "trim (trim s) = trim s"
proof -
  let ?ys = "dropWhile blank (utf8_chars s)"
  have "char_list ?ys" using char_list_utf8_chars [of s] char_list_suffix by (metis takeWhile_dropWhile_id)
  moreover obtain ws where "?ys = rev (dropWhile blank (rev ?ys)) @ ws" by (metis rev_append rev_rev_ident takeWhile_dropWhile_id)
  ultimately have "char_list (rev (dropWhile blank (rev ?ys)))" using char_list_prefix by metis
  then show ?thesis by (simp add: trim_def utf8_chars_concat_char_list dropWhile_ends)
qed

lemma utf8_chars_ascii: "\<forall>c\<in>set s. \<not> continuation_byte c \<Longrightarrow> utf8_chars s = map (\<lambda>c. [c]) s"
  by (induction s) auto

text \<open>Text that begins with an unspaced key keeps its beginning.\<close>

lemma trim_keyed:
  assumes "k \<noteq> []" "\<forall>c\<in>set k. \<not> continuation_byte c \<and> \<not> blank [c]" "v = [] \<or> \<not> continuation_byte (hd v)"
  shows "trim (k @ v) = k @ trim_end v"
proof -
  from assms(1,2) have "dropWhile blank (map (\<lambda>c. [c]) k @ utf8_chars v) = map (\<lambda>c. [c]) k @ utf8_chars v"
    by (cases k) auto
  moreover have "dropWhile blank (rev (utf8_chars v) @ rev (map (\<lambda>c. [c]) k))
      = dropWhile blank (rev (utf8_chars v)) @ rev (map (\<lambda>c. [c]) k)"
    using assms(1,2) by (cases k rule: rev_cases) (auto simp: dropWhile_append dropWhile_eq_Nil_conv)
  ultimately show ?thesis
    using assms by (simp add: trim_def trim_end_def utf8_chars_append utf8_chars_ascii comp_def)
qed

lemma trim_unspaced:
  assumes "k \<noteq> []" "\<forall>c\<in>set k. \<not> continuation_byte c \<and> \<not> blank [c]"
  shows "trim k = k"
  using trim_keyed [OF assms, of "[]"] by (simp add: trim_end_def)

lemma join_split_on: "join [d] (split_on d s) = s"
proof (induction s)
  case (Cons c s)
  obtain p ps where "split_on d s = p # ps" by (metis split_on_nonempty neq_Nil_conv)
  with Cons show ?case by (cases ps) auto
qed simp

lemma length_join: "length (join [d] ss) \<le> sum_list (map (\<lambda>s. length s + 1) ss)"
  by (induction "[d]" ss rule: join.induct) auto

lemma set_trim: "set (trim v) \<subseteq> set v" and length_trim: "length (trim v) \<le> length v"
proof -
  obtain us where us: "utf8_chars v = us @ dropWhile blank (utf8_chars v)" by (metis takeWhile_dropWhile_id)
  obtain ws where ws: "dropWhile blank (utf8_chars v) = rev (dropWhile blank (rev (dropWhile blank (utf8_chars v)))) @ ws"
    by (metis rev_append rev_rev_ident takeWhile_dropWhile_id)
  from us ws have "v = concat us @ trim v @ concat ws"
    by (metis concat_append trim_def utf8_chars_concat)
  then show "set (trim v) \<subseteq> set v" "length (trim v) \<le> length v"
    by (metis Un_subset_iff set_append subset_refl, metis le_add1 le_add2 le_trans length_append)
qed

end
