(* ===== verification/Propagation.thy ===== *)
theory Propagation
  imports Observability Text_Ops
begin

text \<open>
  W3C trace-context headers (\<open>observability/src/propagation.rs\<close>): parsing and formatting of
  \<open>traceparent\<close>, \<open>tracestate\<close> and \<open>baggage\<close>, and what survives a trip through the headers.
\<close>

section \<open>Hexadecimal digits\<close>

definition hex_digit :: "char \<Rightarrow> (u8, observability_error) result" where
  "hex_digit b =
     (if CHR ''0'' \<le> b \<and> b \<le> CHR ''9'' then Inr (word_of_nat (of_char b) - 48)
      else if CHR ''a'' \<le> b \<and> b \<le> CHR ''f'' then Inr (word_of_nat (of_char b) - 97 + 10)
      else Inl InvalidTraceContext)"

fun decode_hex :: "string \<Rightarrow> (u8 list, observability_error) result" where
  "decode_hex (h # l # rest) =
     and_then (hex_digit h) (\<lambda>hi. and_then (hex_digit l) (\<lambda>lo.
       and_then (decode_hex rest) (\<lambda>bytes. Inr ((push_bit 4 hi OR lo) # bytes))))"
| "decode_hex _ = Inr []"

definition decode_hex_array :: "nat \<Rightarrow> string \<Rightarrow> (u8 list, observability_error) result" where
  "decode_hex_array n value = (if length value \<noteq> n * 2 then Inl InvalidTraceContext else decode_hex value)"

definition hex_char :: "nat \<Rightarrow> char" where
  "hex_char d = (if d < 10 then char_of (48 + d) else char_of (87 + d))"

definition hex_byte :: "u8 \<Rightarrow> string" where
  "hex_byte b = [hex_char (unat b div 16), hex_char (unat b mod 16)]"

definition encode_hex :: "u8 list \<Rightarrow> string" where
  "encode_hex bytes = concat (map hex_byte bytes)"

section \<open>Headers\<close>

definition SUPPORTED_VERSION :: string where "SUPPORTED_VERSION = ''00''"

definition MAX_BAGGAGE_MEMBER_BYTES :: nat where
  "MAX_BAGGAGE_MEMBER_BYTES = MAX_IDENTIFIER_BYTES + 1 + MAX_BAGGAGE_VALUE_BYTES + 1"

definition parse_traceparent :: "string \<Rightarrow> (trace_id \<times> span_id \<times> trace_flags, observability_error) result" where
  "parse_traceparent value =
     (case split_on CHR ''-'' value of
        version # pieces \<Rightarrow>
          if version \<noteq> SUPPORTED_VERSION then Inl InvalidTraceContext
          else (case pieces of
            [trace_id_hex, span_id_hex, flags_hex] \<Rightarrow>
              and_then (decode_hex_array 16 trace_id_hex) (\<lambda>bytes.
              and_then (trace_id_new bytes) (\<lambda>trace_id.
              and_then (decode_hex_array 8 span_id_hex) (\<lambda>bytes.
              and_then (span_id_new bytes) (\<lambda>span_id.
              and_then (decode_hex_array 1 flags_hex) (\<lambda>bytes. Inr (trace_id, span_id, bytes ! 0))))))
          | _ \<Rightarrow> Inl InvalidTraceContext)
      | [] \<Rightarrow> Inl InvalidTraceContext)"

definition format_traceparent :: "trace_id \<Rightarrow> span_id \<Rightarrow> trace_flags \<Rightarrow> string" where
  "format_traceparent trace_id span_id flags =
     SUPPORTED_VERSION @ ''-'' @ encode_hex trace_id @ ''-'' @ encode_hex span_id @ ''-'' @ hex_byte flags"

definition parse_trace_state :: "string \<Rightarrow> (string, observability_error) result" where
  "parse_trace_state value = (if length value \<le> MAX_TRACESTATE_BYTES then Inr value else Inl LimitExceeded)"

definition parse_member :: "(string, string) btree_map \<Rightarrow> string
    \<Rightarrow> ((string, string) btree_map, observability_error) result" where
  "parse_member baggage text =
     (let member = trim (hd (split_on CHR '';'' text)) in
      if member = [] then Inr baggage
      else (case split_two CHR ''='' member of
        (_, None) \<Rightarrow> Inl InvalidTraceContext
      | (before, Some after) \<Rightarrow>
          let key = trim before; raw_value = trim after in
          if key = [] then Inl InvalidTraceContext
          else if length baggage \<ge> MAX_BAGGAGE_ENTRIES then Inl LimitExceeded
          else Inr (bt_insert key raw_value baggage)))"

definition parse_baggage :: "string \<Rightarrow> ((string, string) btree_map, observability_error) result" where
  "parse_baggage value =
     (if length value > MAX_BAGGAGE_ENTRIES * MAX_BAGGAGE_MEMBER_BYTES then Inl LimitExceeded
      else if blank value then Inr []
      else try_fold parse_member [] (split_on CHR '','' value))"

definition format_baggage :: "(string, string) btree_map \<Rightarrow> string" where
  "format_baggage baggage = join '','' (map (\<lambda>e. fst e @ ''='' @ snd e) baggage)"

text \<open>\<open>Option::map\<close> with a fallible function, then \<open>transpose\<close>.\<close>

definition map_transpose :: "('a \<Rightarrow> ('b, 'e) result) \<Rightarrow> 'a option \<Rightarrow> ('b option, 'e) result" where
  "map_transpose f x = (case x of None \<Rightarrow> Inr None | Some a \<Rightarrow> and_then (f a) (\<lambda>b. Inr (Some b)))"

definition extract_context :: "string \<Rightarrow> string option \<Rightarrow> string option \<Rightarrow> (trace_context, observability_error) result" where
  "extract_context traceparent trace_state baggage =
     and_then (parse_traceparent traceparent) (\<lambda>(trace_id, span_id, flags).
     and_then (map_transpose parse_trace_state trace_state) (\<lambda>trace_state.
     and_then (map_transpose parse_baggage baggage) (\<lambda>baggage.
       trace_context_new trace_id span_id flags trace_state
         (case baggage of None \<Rightarrow> [] | Some entries \<Rightarrow> entries))))"

definition inject :: "trace_context \<Rightarrow> string \<times> string option \<times> string option" where
  "inject context =
     (format_traceparent (tc_trace_id context) (tc_span_id context) (tc_trace_flags context),
      tc_trace_state context,
      if tc_baggage context \<noteq> [] then Some (format_baggage (tc_baggage context)) else None)"

section \<open>Hexadecimal round trips\<close>

lemma hex_digit_hex_char: "d < 16 \<Longrightarrow> hex_digit (hex_char d) = Inr (word_of_nat d)"
proof -
  assume "d < 16"
  then have "d = 0 \<or> d = 1 \<or> d = 2 \<or> d = 3 \<or> d = 4 \<or> d = 5 \<or> d = 6 \<or> d = 7 \<or> d = 8 \<or> d = 9
    \<or> d = 10 \<or> d = 11 \<or> d = 12 \<or> d = 13 \<or> d = 14 \<or> d = 15" by arith
  then show ?thesis by (elim disjE) (simp_all add: hex_digit_def hex_char_def less_eq_char_def)
qed

lemma hex_digit_Inr:
  assumes "hex_digit b = Inr v"
  shows "unat v < 16 \<and> hex_char (unat v) = b"
proof -
  have "(of_char b :: nat) \<in> {48..57} \<union> {97..102}"
    using assms by (auto simp: hex_digit_def less_eq_char_def split: if_splits)
  then obtain n :: nat where n: "of_char b = n" "n \<in> {48..57} \<union> {97..102}" by blast
  then have b: "b = char_of n" by (metis char_of_char)
  from n(2) have "n = 48 \<or> n = 49 \<or> n = 50 \<or> n = 51 \<or> n = 52 \<or> n = 53 \<or> n = 54 \<or> n = 55 \<or> n = 56
    \<or> n = 57 \<or> n = 97 \<or> n = 98 \<or> n = 99 \<or> n = 100 \<or> n = 101 \<or> n = 102" by simp arith
  then show ?thesis using assms unfolding b
    by (elim disjE) (auto simp: hex_digit_def hex_char_def less_eq_char_def)
qed

lemma nibbles: "push_bit 4 (word_of_nat (unat b div 16) :: u8) OR word_of_nat (unat b mod 16) = b"
proof -
  have "unat (drop_bit 4 b) = unat b div 16" "unat (take_bit 4 b) = unat b mod 16"
    by (simp_all add: drop_bit_eq_div take_bit_eq_mod unat_div_distrib unat_mod_distrib)
  then have "word_of_nat (unat b div 16) = drop_bit 4 b" "word_of_nat (unat b mod 16) = take_bit 4 b"
    by (simp_all flip: \<open>unat (drop_bit 4 b) = _\<close> \<open>unat (take_bit 4 b) = _\<close>)
  then show ?thesis by (auto intro!: bit_word_eqI simp: bit_simps)
qed

lemma nibble_less [simp]: "unat (b :: u8) div 16 < 16"
proof -
  have "unat b < 2 ^ LENGTH(8)" by (rule unsigned_less)
  then show ?thesis by simp
qed

lemma hi_lo:
  assumes "unat (hi :: u8) < 16" "unat (lo :: u8) < 16"
  shows "unat (push_bit 4 hi OR lo) div 16 = unat hi \<and> unat (push_bit 4 hi OR lo) mod 16 = unat lo"
proof -
  define b :: u8 where "b = word_of_nat (unat hi * 16 + unat lo)"
  have "unat (word_of_nat n :: u8) = n" if "n < 256" for n
    using that by (simp add: unsigned_of_nat take_bit_nat_eq_self)
  from this [of "unat hi * 16 + unat lo"] assms have "unat b = unat hi * 16 + unat lo" unfolding b_def by linarith
  with assms have "unat b div 16 = unat hi" "unat b mod 16 = unat lo" by simp_all
  with nibbles [of b] show ?thesis by simp
qed

lemma decode_encode_hex [simp]: "decode_hex (encode_hex bs) = Inr bs"
  by (induction bs) (simp_all add: encode_hex_def hex_byte_def hex_digit_hex_char nibbles)

lemma length_encode_hex [simp]: "length (encode_hex bs) = length bs * 2"
  by (induction bs) (simp_all add: encode_hex_def hex_byte_def)

lemma hex_char_no_dash: "d < 16 \<Longrightarrow> hex_char d \<noteq> CHR ''-''"
  using hex_digit_hex_char [of d] by (auto simp: hex_digit_def less_eq_char_def)

lemma encode_hex_no_dash [simp]: "CHR ''-'' \<notin> set (encode_hex bs)" "CHR ''-'' \<notin> set (hex_byte b)"
proof -
  have byte: "CHR ''-'' \<notin> set (hex_byte b)" for b
    using hex_char_no_dash [of "unat b div 16"] hex_char_no_dash [of "unat b mod 16"] by (auto simp: hex_byte_def)
  then show "CHR ''-'' \<notin> set (encode_hex bs)" "CHR ''-'' \<notin> set (hex_byte b)" by (auto simp: encode_hex_def)
qed

lemma encode_decode_hex:
  assumes "decode_hex s = Inr bs" "even (length s)"
  shows "encode_hex bs = s \<and> length s = length bs * 2"
  using assms
proof (induction s arbitrary: bs rule: decode_hex.induct)
  case (1 h l rest)
  from 1(2) obtain hi lo bytes where hex: "hex_digit h = Inr hi" "hex_digit l = Inr lo"
    "decode_hex rest = Inr bytes" "bs = (push_bit 4 hi OR lo) # bytes"
    by (auto simp: and_then_Inr)
  from hex_digit_Inr [OF hex(1)] hex_digit_Inr [OF hex(2)] hi_lo [of hi lo]
  have "hex_byte (push_bit 4 hi OR lo) = [h, l]" by (simp add: hex_byte_def)
  with 1 hex show ?case by (simp add: encode_hex_def)
qed (auto simp: encode_hex_def)


section \<open>The traceparent header\<close>

lemma decode_hex_array_Inr:
  assumes "decode_hex_array n s = Inr bs"
  shows "encode_hex bs = s \<and> length bs = n"
  using assms encode_decode_hex [of s bs] by (auto simp: decode_hex_array_def split: if_splits)

lemma decode_encode_array: "length bs = n \<Longrightarrow> decode_hex_array n (encode_hex bs) = Inr bs"
  by (simp add: decode_hex_array_def)

lemma parse_format_traceparent:
  assumes "length t = 16" "t \<noteq> replicate 16 0" "length sp = 8" "sp \<noteq> replicate 8 0"
  shows "parse_traceparent (format_traceparent t sp f) = Inr (t, sp, f)"
proof -
  have "split_on CHR ''-'' (format_traceparent t sp f) = [''00'', encode_hex t, encode_hex sp, encode_hex [f]]"
    using split_on_join [of "[''00'', encode_hex t, encode_hex sp, encode_hex [f]]" "CHR ''-''"]
    by (simp add: format_traceparent_def SUPPORTED_VERSION_def encode_hex_def)
  with assms show ?thesis
    by (simp add: parse_traceparent_def SUPPORTED_VERSION_def decode_encode_array trace_id_new_def span_id_new_def)
qed

lemma format_parse_traceparent:
  assumes "parse_traceparent value = Inr (t, sp, f)"
  shows "format_traceparent t sp f = value \<and> length t = 16 \<and> t \<noteq> replicate 16 0
    \<and> length sp = 8 \<and> sp \<noteq> replicate 8 0"
proof -
  from assms obtain a b c where pieces: "split_on CHR ''-'' value = [''00'', a, b, c]"
    and fields: "decode_hex_array 16 a = Inr t" "decode_hex_array 8 b = Inr sp" "\<exists>bs. decode_hex_array 1 c = Inr bs \<and> f = bs ! 0"
    and nonzero: "t \<noteq> replicate 16 0" "sp \<noteq> replicate 8 0"
    by (auto simp: parse_traceparent_def SUPPORTED_VERSION_def and_then_Inr trace_id_new_def span_id_new_def
        split: list.splits if_splits)
  from fields(3) have flags: "decode_hex_array 1 c = Inr [f]"
    using decode_hex_array_Inr [of 1 c] by (metis One_nat_def length_0_conv length_Suc_conv nth_Cons_0)
  from pieces have "value = ''00'' @ ''-'' @ a @ ''-'' @ b @ ''-'' @ c"
    using join_split_on [of "CHR ''-''" "value"] by simp
  with fields nonzero show ?thesis
    using decode_hex_array_Inr [OF fields(1)] decode_hex_array_Inr [OF fields(2)] decode_hex_array_Inr [OF flags]
    by (auto simp: format_traceparent_def SUPPORTED_VERSION_def encode_hex_def)
qed

section \<open>The baggage header\<close>

lemma printable_char:
  assumes "32 < (of_char b :: nat)" "of_char b < (128 :: nat)"
  shows "\<not> continuation_byte b \<and> \<not> blank (b # cs)"
proof -
  have "b \<noteq> CHR 0x20" "b \<noteq> CHR 0xC2" "b \<noteq> CHR 0xE1" "b \<noteq> CHR 0xE2" "b \<noteq> CHR 0xE3"
    "\<not> b \<le> CHR 0x0D" "\<not> continuation_byte b"
    using assms by (auto simp: less_eq_char_def continuation_byte_def)
  then show ?thesis by (simp split: list.split)
qed

lemma label_char:
  assumes "lower_or_digit b \<or> b = CHR ''_'' \<or> b = CHR ''-'' \<or> b = CHR ''.'' \<or> b = CHR ''=''"
  shows "\<not> continuation_byte b \<and> \<not> blank (b # cs)"
  using assms by (intro printable_char)
    (auto simp: lower_or_digit_def is_ascii_lowercase_def is_ascii_digit_def less_eq_char_def)

lemma validate_label_Some:
  assumes "validate_label k = Some u"
  shows "k \<noteq> [] \<and> length k \<le> 128 \<and> (\<forall>b\<in>set k. \<not> continuation_byte b \<and> \<not> blank (b # cs)
    \<and> b \<noteq> CHR ''='' \<and> b \<noteq> CHR '','' \<and> b \<noteq> CHR '';'')"
proof -
  from assms have k: "first_rest lower_or_digit (\<lambda>b. lower_or_digit b \<or> b = CHR ''_'' \<or> b = CHR ''-'' \<or> b = CHR ''.'') k"
    and len: "length k \<le> 128" by (auto simp: validate_label_def MAX_IDENTIFIER_BYTES_def split: if_splits)
  then have "\<forall>b\<in>set k. lower_or_digit b \<or> b = CHR ''_'' \<or> b = CHR ''-'' \<or> b = CHR ''.''" "k \<noteq> []"
    by (cases k; auto simp: list_all_iff)+
  moreover have "\<not> lower_or_digit CHR ''=''" "\<not> lower_or_digit CHR '',''" "\<not> lower_or_digit CHR '';''"
    by (simp_all add: lower_or_digit_def is_ascii_lowercase_def is_ascii_digit_def less_eq_char_def)
  ultimately show ?thesis using len label_char by blast
qed


definition trimmed :: "(string, string) btree_map \<Rightarrow> (string, string) btree_map" where
  "trimmed baggage = map (\<lambda>e. (fst e, trim (snd e))) baggage"

definition baggage_entry_ok :: "string \<times> string \<Rightarrow> bool" where
  "baggage_entry_ok e \<longleftrightarrow> check_baggage_entry e = Inr () \<and> (snd e = [] \<or> \<not> continuation_byte (hd (snd e)))"

lemma baggage_entry_okD:
  assumes "baggage_entry_ok (k, v)"
  shows "validate_label k = Some ()" "length v \<le> 256" "CHR '','' \<notin> set v" "CHR ''='' \<notin> set v" "CHR '';'' \<notin> set v"
    "v = [] \<or> \<not> continuation_byte (hd v)"
  using assms by (auto simp: baggage_entry_ok_def check_baggage_entry_def and_then_Inr ok_or_Inr list_ex_iff
      MAX_BAGGAGE_VALUE_BYTES_def split: if_splits)

lemma parse_member_entry:
  assumes "baggage_entry_ok (k, v)" "length acc < MAX_BAGGAGE_ENTRIES"
  shows "parse_member acc (k @ ''='' @ v) = Inr (bt_insert k (trim v) acc)"
proof -
  note ok = baggage_entry_okD [OF assms(1)]
  note label = validate_label_Some [OF ok(1)]
  have eq: "\<not> continuation_byte CHR ''='' \<and> \<not> blank ''=''" using label_char [of "CHR ''=''" "[]"] by simp
  from label ok have "CHR '';'' \<notin> set (k @ ''='' @ v)" by auto
  then have "hd (split_on CHR '';'' (k @ ''='' @ v)) = k @ ''='' @ v" by (simp add: split_on_none)
  moreover have "trim ((k @ ''='') @ v) = (k @ ''='') @ trim_end v"
    using label ok(6) eq by (intro trim_keyed) auto
  moreover have "split_two CHR ''='' (k @ CHR ''='' # trim_end v) = (k, Some (trim_end v))"
    using label by (intro split_two_append) auto
  moreover have "trim k = k" using label by (intro trim_unspaced) auto
  ultimately show ?thesis using label assms(2) by (simp add: parse_member_def trim_trim_end)
qed

lemma bt_insert_last: "\<forall>e\<in>set m. fst e < k \<Longrightarrow> bt_insert k v m = m @ [(k, v)]"
  by (induction m) auto

lemma parse_members:
  assumes "bt_ok (acc @ es)" "\<forall>e\<in>set es. baggage_entry_ok e" "length (acc @ es) \<le> MAX_BAGGAGE_ENTRIES"
  shows "try_fold parse_member (trimmed acc) (map (\<lambda>e. fst e @ ''='' @ snd e) es) = Inr (trimmed (acc @ es))"
  using assms
proof (induction es arbitrary: acc)
  case (Cons e es)
  obtain k v where e: "e = (k, v)" by fastforce
  have "\<forall>e\<in>set (trimmed acc). fst e < k"
    using Cons.prems(1) by (auto simp: e trimmed_def bt_ok_def sorted_wrt_append)
  then have "bt_insert k (trim v) (trimmed acc) = trimmed (acc @ [e])"
    by (simp add: bt_insert_last) (simp add: trimmed_def e)
  moreover have "parse_member (trimmed acc) (fst e @ ''='' @ snd e) = Inr (bt_insert k (trim v) (trimmed acc))"
    using Cons.prems parse_member_entry [of k v "trimmed acc"] by (simp add: e trimmed_def)
  ultimately show ?case using Cons.IH [of "acc @ [e]"] Cons.prems by simp
qed simp

lemma sum_lengths_le:
  "\<forall>s\<in>set ss. length s + 1 \<le> n \<Longrightarrow> sum_list (map (\<lambda>s. length s + 1) ss) \<le> length ss * n"
  by (induction ss) auto

lemma format_baggage_length:
  assumes "\<forall>e\<in>set m. baggage_entry_ok e" "length m \<le> MAX_BAGGAGE_ENTRIES"
  shows "length (format_baggage m) \<le> MAX_BAGGAGE_ENTRIES * MAX_BAGGAGE_MEMBER_BYTES"
proof -
  have "length (fst e @ ''='' @ snd e) + 1 \<le> 386" if "e \<in> set m" for e
    using assms(1) that baggage_entry_okD(1,2) [of "fst e" "snd e"] validate_label_Some [of "fst e" "()"] by force
  then have "sum_list (map (\<lambda>s. length s + 1) (map (\<lambda>e. fst e @ ''='' @ snd e) m)) \<le> length m * 386"
    using sum_lengths_le [of "map (\<lambda>e. fst e @ ''='' @ snd e) m" 386] by simp
  also have "\<dots> \<le> 16 * 386" using assms(2) by (simp add: MAX_BAGGAGE_ENTRIES_def)
  finally show ?thesis
    using length_join [of "CHR '',''" "map (\<lambda>e. fst e @ ''='' @ snd e) m"]
    by (simp add: format_baggage_def MAX_BAGGAGE_ENTRIES_def MAX_BAGGAGE_MEMBER_BYTES_def MAX_IDENTIFIER_BYTES_def
        MAX_BAGGAGE_VALUE_BYTES_def)
qed

lemma parse_format_baggage:
  assumes ok: "bt_ok m" "\<forall>e\<in>set m. baggage_entry_ok e" "length m \<le> MAX_BAGGAGE_ENTRIES" "m \<noteq> []"
  shows "parse_baggage (format_baggage m) = Inr (trimmed m)"
proof -
  have "CHR '','' \<notin> set (fst e @ ''='' @ snd e)" if "e \<in> set m" for e
    using ok(2) that baggage_entry_okD(1,3) [of "fst e" "snd e"] validate_label_Some [of "fst e" "()"] by force
  then have "split_on CHR '','' (format_baggage m) = map (\<lambda>e. fst e @ ''='' @ snd e) m"
    unfolding format_baggage_def using ok(4) by (intro split_on_join) auto
  moreover have "\<not> blank (format_baggage m)"
  proof -
    obtain e m' where m: "m = e # m'" using ok(4) by (cases m) auto
    with ok(2) have "validate_label (fst e) = Some ()" using baggage_entry_okD(1) [of "fst e" "snd e"] by simp
    then obtain b k where "fst e = b # k" "\<And>cs. \<not> blank (b # cs)"
      using validate_label_Some by (metis list.set_intros(1) neq_Nil_conv)
    then show ?thesis by (cases m') (simp_all add: m format_baggage_def del: blank.simps)
  qed
  ultimately show ?thesis
    using parse_members [of "[]" m] ok format_baggage_length [OF ok(2,3)]
    by (simp add: parse_baggage_def) (simp add: trimmed_def)
qed


section \<open>Round trips\<close>

lemma check_trimmed_entry: "check_baggage_entry (k, v) = Inr () \<Longrightarrow> check_baggage_entry (k, trim v) = Inr ()"
  using set_trim [of v] length_trim [of v]
  by (auto simp: check_baggage_entry_def and_then_Inr ok_or_Inr list_ex_iff split: if_splits)

lemma try_fold_unit: "try_fold (\<lambda>_ e. f e) () es = Inr () \<longleftrightarrow> (\<forall>e\<in>set es. f e = Inr ())"
  by (induction es) (auto simp: and_then_Inr)

definition context_ok :: "trace_context \<Rightarrow> bool" where
  "context_ok c \<longleftrightarrow> length (tc_trace_id c) = 16 \<and> tc_trace_id c \<noteq> replicate 16 0
     \<and> length (tc_span_id c) = 8 \<and> tc_span_id c \<noteq> replicate 8 0 \<and> bt_ok (tc_baggage c)
     \<and> validate_trace_context c = Inr ()
     \<and> (\<forall>e\<in>set (tc_baggage c). snd e = [] \<or> \<not> continuation_byte (hd (snd e)))"

lemma validate_trace_context_Inr:
  "validate_trace_context c = Inr () \<longleftrightarrow> check_trace_state (tc_trace_state c) = Inr ()
     \<and> length (tc_baggage c) \<le> MAX_BAGGAGE_ENTRIES \<and> (\<forall>e\<in>set (tc_baggage c). check_baggage_entry e = Inr ())"
  by (auto simp: validate_trace_context_def and_then_Inr try_fold_unit)

lemma parse_checked_state:
  "check_trace_state state = Inr () \<Longrightarrow> map_transpose parse_trace_state state = Inr state"
  by (auto simp: check_trace_state_def map_transpose_def parse_trace_state_def split: option.splits if_splits)

lemma trimmed_id: "trimmed m = m \<longleftrightarrow> (\<forall>e\<in>set m. trim (snd e) = snd e)"
  by (induction m) (auto simp: trimmed_def prod_eq_iff)

lemma extract_inject:
  assumes ok: "context_ok c"
  shows "extract_context (fst (inject c)) (fst (snd (inject c))) (snd (snd (inject c)))
    = Inr (c\<lparr>tc_baggage := trimmed (tc_baggage c)\<rparr>)"
proof -
  from ok have valid: "check_trace_state (tc_trace_state c) = Inr ()" "length (tc_baggage c) \<le> MAX_BAGGAGE_ENTRIES"
    and entries: "\<forall>e\<in>set (tc_baggage c). baggage_entry_ok e"
    by (auto simp: context_ok_def validate_trace_context_Inr baggage_entry_ok_def)
  have "map_transpose parse_baggage (if tc_baggage c \<noteq> [] then Some (format_baggage (tc_baggage c)) else None)
      = Inr (if tc_baggage c \<noteq> [] then Some (trimmed (tc_baggage c)) else None)"
    using parse_format_baggage [OF _ entries valid(2)] ok by (simp add: map_transpose_def context_ok_def)
  moreover have "validate_trace_context (c\<lparr>tc_baggage := trimmed (tc_baggage c)\<rparr>) = Inr ()"
    using valid entries check_trimmed_entry
    by (force simp: validate_trace_context_Inr trimmed_def baggage_entry_ok_def)
  ultimately show ?thesis
    using ok parse_checked_state [OF valid(1)] parse_format_traceparent
    by (cases c; cases "tc_baggage c = []")
      (auto simp: extract_context_def inject_def context_ok_def trace_context_new_def Let_def trimmed_def)
qed

lemma inject_extract:
  assumes "extract_context tp ts bg = Inr c"
  shows "fst (inject c) = tp \<and> fst (snd (inject c)) = ts"
  using assms format_parse_traceparent
  by (fastforce simp: extract_context_def inject_def and_then_Inr trace_context_new_def Let_def map_transpose_def
        parse_trace_state_def split: option.splits if_splits prod.splits)

lemma parse_member_trimmed:
  assumes "parse_member m x = Inr m'" "bt_ok m" "\<forall>e\<in>set m. trim (snd e) = snd e"
  shows "bt_ok m' \<and> (\<forall>e\<in>set m'. trim (snd e) = snd e)"
  using assms by (auto simp: parse_member_def Let_def set_bt_insert trim_trim split: if_splits prod.splits option.splits)

lemma parse_members_trimmed:
  "try_fold parse_member m ms = Inr m' \<Longrightarrow> bt_ok m \<Longrightarrow> \<forall>e\<in>set m. trim (snd e) = snd e \<Longrightarrow> \<forall>e\<in>set m'. trim (snd e) = snd e"
proof (induction ms arbitrary: m)
  case (Cons x ms)
  then obtain m1 where "parse_member m x = Inr m1" "try_fold parse_member m1 ms = Inr m'" by (auto simp: and_then_Inr)
  with Cons.IH parse_member_trimmed Cons.prems show ?case by blast
qed simp

lemma extracted_trimmed:
  assumes "extract_context tp ts bg = Inr d"
  shows "\<forall>e\<in>set (tc_baggage d). trim (snd e) = snd e"
proof -
  have parsed: "\<forall>e\<in>set m. trim (snd e) = snd e" if "parse_baggage value = Inr m" for "value" m
    using that parse_members_trimmed [of "[]"] by (auto simp: parse_baggage_def split: if_splits)
  from assms show ?thesis
    by (cases bg) (auto simp: extract_context_def and_then_Inr trace_context_new_def Let_def map_transpose_def dest!: parsed)
qed

text \<open>C30: Trace headers round trip. A trace context that was built by its constructors, written to
  headers and read back, is the same context with the white space around baggage values removed:
  identifiers, flags and trace state are preserved, and the whole context is preserved exactly
  when no baggage value has white space at an end. In the other direction, when headers are
  accepted, writing the context gives back the same \<open>traceparent\<close> and \<open>tracestate\<close>. The \<open>baggage\<close> header
  need not come back as it was: properties after a semicolon and white space are dropped, and of a
  repeated key the last value is kept; but reading what was written gives the same context again.\<close>

theorem trace_headers_round_trip:
  assumes "context_ok c" and "extract_context tp ts bg = Inr d"
  shows "extract_context (fst (inject c)) (fst (snd (inject c))) (snd (snd (inject c)))
      = Inr (c\<lparr>tc_baggage := trimmed (tc_baggage c)\<rparr>)
    \<and> (extract_context (fst (inject c)) (fst (snd (inject c))) (snd (snd (inject c))) = Inr c
        \<longleftrightarrow> (\<forall>e\<in>set (tc_baggage c). trim (snd e) = snd e))
    \<and> fst (inject d) = tp \<and> fst (snd (inject d)) = ts
    \<and> (context_ok d \<longrightarrow> extract_context (fst (inject d)) (fst (snd (inject d))) (snd (snd (inject d))) = Inr d)"
proof -
  have same: "x\<lparr>tc_baggage := trimmed (tc_baggage x)\<rparr> = x \<longleftrightarrow> (\<forall>e\<in>set (tc_baggage x). trim (snd e) = snd e)" for x :: trace_context
    by (cases x) (simp add: trimmed_id)
  have "extract_context (fst (inject d)) (fst (snd (inject d))) (snd (snd (inject d))) = Inr d" if "context_ok d"
    using extract_inject [OF that] same [of d] extracted_trimmed [OF assms(2)] by simp
  with same [of c] extract_inject [OF assms(1)] inject_extract [OF assms(2)] show ?thesis by auto
qed

definition spaced_context :: trace_context where
  "spaced_context = \<lparr>tc_trace_id = replicate 16 1, tc_span_id = replicate 8 2, tc_trace_flags = 1,
     tc_trace_state = Some ''vendor=state'', tc_baggage = [(''k'', '' v'')]\<rparr>"

definition demo_traceparent :: string where
  "demo_traceparent = ''00-'' @ concat (replicate 16 ''01'') @ ''-'' @ concat (replicate 8 ''02'') @ ''-01''"

lemma spaced_context_ok: "context_ok spaced_context"
proof -
  have "validate_label ''k'' = Some ()"
    by (simp add: validate_label_def MAX_IDENTIFIER_BYTES_def lower_or_digit_def is_ascii_lowercase_def
        less_eq_char_def)
  then show ?thesis
    by (simp add: context_ok_def spaced_context_def validate_trace_context_Inr check_trace_state_def bt_ok_def
        check_baggage_entry_def is_control_byte_def less_eq_char_def continuation_byte_def
        MAX_TRACESTATE_BYTES_def MAX_BAGGAGE_ENTRIES_def MAX_BAGGAGE_VALUE_BYTES_def)
qed

lemma demo_trim: "trim '' v'' = ''v''"
  by (simp add: trim_def continuation_byte_def less_eq_char_def)

lemma demo_injected: "fst (inject spaced_context) = demo_traceparent"
proof -
  have "hex_byte 1 = ''01''" "hex_byte 2 = ''02''" by code_simp+
  then show ?thesis
    by (simp add: inject_def spaced_context_def demo_traceparent_def format_traceparent_def SUPPORTED_VERSION_def
        encode_hex_def)
qed

text \<open>A value with a leading space is accepted by the constructor and does not survive the trip.\<close>

theorem trace_headers_round_trip_witness:
  "context_ok spaced_context
   \<and> extract_context demo_traceparent (Some ''vendor=state'') (Some ''k= v'')
      = Inr (spaced_context\<lparr>tc_baggage := [(''k'', ''v'')]\<rparr>)
   \<and> spaced_context\<lparr>tc_baggage := [(''k'', ''v'')]\<rparr> \<noteq> spaced_context"
proof -
  have inj: "inject spaced_context = (demo_traceparent, Some ''vendor=state'', Some ''k= v'')"
    using demo_injected by (simp add: inject_def spaced_context_def format_baggage_def)
  note trip = extract_inject [OF spaced_context_ok]
  from trace_headers_round_trip [OF spaced_context_ok trip] inj spaced_context_ok
  show ?thesis by (simp add: trimmed_def demo_trim spaced_context_def)
qed

end
