(* ===== verification/Telemetry.thy ===== *)
theory Telemetry
  imports Observability
begin

text \<open>
  The telemetry service (\<open>observability/src/service.rs\<close>), the local ring buffers it is used with
  (\<open>local.rs\<close>) and the settings (\<open>settings.rs\<close>). A sink and a reader act on one state of the
  telemetry backend; for a sink and a reader that share nothing it is a pair.
\<close>

section \<open>The service\<close>

record telemetry_guarantees =
  tg_durable_across_restart :: bool
  tg_visible_across_processes :: bool
  tg_delivery_confirmed :: bool
  tg_queryable :: bool
  tg_may_block :: bool

record 's telemetry_service =
  ts_backend :: 's
  ts_max_query_limit :: usize

definition telemetry_service_new :: "'s \<Rightarrow> usize \<Rightarrow> ('s telemetry_service, observability_error) result" where
  "telemetry_service_new backend max_query_limit =
     (if max_query_limit = 0 \<or> max_query_limit > MAX_QUERY_LIMIT then Inl LimitExceeded
      else Inr \<lparr>ts_backend = backend, ts_max_query_limit = max_query_limit\<rparr>)"

definition service_emit :: "('s \<Rightarrow> telemetry_envelope \<Rightarrow> (unit, observability_error) result \<times> 's)
    \<Rightarrow> 's telemetry_service \<Rightarrow> (timestamp, observability_error) result \<Rightarrow> string \<Rightarrow> telemetry_event
    \<Rightarrow> (unit, observability_error) result \<times> 's telemetry_service" where
  "service_emit sink_emit service now tenant event =
     (case now of
        Inl e \<Rightarrow> (Inl e, service)
      | Inr timestamp \<Rightarrow>
          let envelope = \<lparr>env_tenant_id = tenant, env_timestamp = timestamp, env_event = event\<rparr> in
          (case validate_envelope envelope of
             Inl e \<Rightarrow> (Inl e, service)
           | Inr _ \<Rightarrow>
               let (r, backend) = sink_emit (ts_backend service) envelope in
               (r, service\<lparr>ts_backend := backend\<rparr>)))"

definition service_validate_query :: "'s telemetry_service \<Rightarrow> telemetry_query \<Rightarrow> (unit, observability_error) result" where
  "service_validate_query service q = validate_query q (ts_max_query_limit service)"

definition service_query :: "('s \<Rightarrow> string \<Rightarrow> telemetry_query \<Rightarrow> (telemetry_record list, observability_error) result)
    \<Rightarrow> 's telemetry_service \<Rightarrow> string \<Rightarrow> telemetry_query \<Rightarrow> (telemetry_record list, observability_error) result" where
  "service_query reader_query service tenant q =
     and_then (service_validate_query service q) (\<lambda>_.
     and_then (reader_query (ts_backend service) tenant q) (\<lambda>records.
       Inr (take (tq_limit q) (filter (\<lambda>r. is_ok (validate_record r) \<and> env_tenant_id (tr_envelope r) = tenant
         \<and> record_matches r q) records))))"

definition service_guarantees :: "telemetry_guarantees \<Rightarrow> telemetry_guarantees \<Rightarrow> telemetry_guarantees" where
  "service_guarantees sink reader =
     \<lparr>tg_durable_across_restart = (tg_durable_across_restart sink \<and> tg_durable_across_restart reader),
      tg_visible_across_processes = (tg_visible_across_processes sink \<and> tg_visible_across_processes reader),
      tg_delivery_confirmed = tg_delivery_confirmed sink, tg_queryable = tg_queryable reader,
      tg_may_block = tg_may_block sink\<rparr>"

section \<open>The local adapter\<close>

record telemetry_state =
  st_next_sequence :: u64
  st_total_events :: usize
  st_tenants :: "(string, telemetry_record list) btree_map"

record local_telemetry =
  lt_capacity_per_tenant :: usize
  lt_state :: "telemetry_state mutex"

definition local_telemetry_new :: "usize \<Rightarrow> (local_telemetry, observability_error) result" where
  "local_telemetry_new capacity =
     (if capacity = 0 \<or> capacity > MAX_LOCAL_EVENTS_PER_TENANT then Inl LimitExceeded
      else Inr \<lparr>lt_capacity_per_tenant = capacity,
        lt_state = mutex_new \<lparr>st_next_sequence = 1, st_total_events = 0, st_tenants = []\<rparr>\<rparr>)"

text \<open>What \<open>emit\<close> does under the lock; an early return leaves the state as it was.\<close>

definition emit_state :: "usize \<Rightarrow> telemetry_state \<Rightarrow> telemetry_envelope
    \<Rightarrow> (unit, observability_error) result \<times> telemetry_state" where
  "emit_state capacity state envelope =
     (let tenant = env_tenant_id envelope;
          tenant_is_full = (case bt_get (st_tenants state) tenant of None \<Rightarrow> False
            | Some records \<Rightarrow> length records = capacity) in
      if \<not> tenant_is_full \<and> st_total_events state = MAX_LOCAL_EVENTS_TOTAL then (Inl LimitExceeded, state)
      else (case checked_add (st_next_sequence state) 1 of
          None \<Rightarrow> (Inl LimitExceeded, state)
        | Some next_sequence \<Rightarrow>
            let records = (case bt_get (st_tenants state) tenant of None \<Rightarrow> [] | Some rs \<Rightarrow> rs);
                records = (if tenant_is_full then tl records else records) in
            (Inr (), \<lparr>st_next_sequence = next_sequence,
               st_total_events = (if tenant_is_full then st_total_events state else st_total_events state + 1),
               st_tenants = bt_insert tenant
                 (records @ [\<lparr>tr_sequence = st_next_sequence state, tr_envelope = envelope\<rparr>]) (st_tenants state)\<rparr>)))"

definition local_emit :: "local_telemetry \<Rightarrow> telemetry_envelope
    \<Rightarrow> (unit, observability_error) result \<times> local_telemetry" where
  "local_emit store envelope =
     (case validate_envelope envelope of
        Inl e \<Rightarrow> (Inl e, store)
      | Inr _ \<Rightarrow> (case lock (lt_state store) AdapterFailure of
          Inl e \<Rightarrow> (Inl e, store)
        | Inr state \<Rightarrow>
            let (r, state') = emit_state (lt_capacity_per_tenant store) state envelope in
            (r, store\<lparr>lt_state := (lt_state store)\<lparr>guarded := state'\<rparr>\<rparr>)))"

definition local_query :: "local_telemetry \<Rightarrow> string \<Rightarrow> telemetry_query
    \<Rightarrow> (telemetry_record list, observability_error) result" where
  "local_query store tenant q =
     and_then (validate_query q MAX_QUERY_LIMIT) (\<lambda>_.
     and_then (lock (lt_state store) AdapterFailure) (\<lambda>state.
       Inr (take (tq_limit q) (filter (\<lambda>r. is_ok (validate_record r) \<and> env_tenant_id (tr_envelope r) = tenant
         \<and> record_matches r q) (rev (case bt_get (st_tenants state) tenant of None \<Rightarrow> [] | Some rs \<Rightarrow> rs))))))"

definition local_guarantees :: telemetry_guarantees where
  "local_guarantees =
     \<lparr>tg_durable_across_restart = False, tg_visible_across_processes = False, tg_delivery_confirmed = True,
      tg_queryable = True, tg_may_block = False\<rparr>"

section \<open>Settings\<close>

datatype sink_config = LocalConfig (max_events_per_tenant: usize) | OpenTelemetryLogsConfig
datatype sink_settings = LocalSink usize | OpenTelemetryLogsSink

record observability_config =
  oc_version :: u8
  oc_sink :: sink_config
  oc_max_query_limit :: usize

record observability_settings =
  os_sink :: sink_settings
  os_max_query_limit :: usize

definition settings_from_config :: "observability_config \<Rightarrow> (observability_settings, observability_error) result" where
  "settings_from_config config =
     (if oc_version config \<noteq> 1 then Inl InvalidConfiguration
      else if oc_max_query_limit config = 0 \<or> oc_max_query_limit config > MAX_QUERY_LIMIT then Inl LimitExceeded
      else and_then (case oc_sink config of
          LocalConfig n \<Rightarrow> if n = 0 \<or> n > MAX_LOCAL_EVENTS_PER_TENANT then Inl LimitExceeded else Inr (LocalSink n)
        | OpenTelemetryLogsConfig \<Rightarrow> Inr OpenTelemetryLogsSink) (\<lambda>sink.
          Inr \<lparr>os_sink = sink, os_max_query_limit = oc_max_query_limit config\<rparr>))"

section \<open>The log the buffers are windows of\<close>

text \<open>
  The specification keeps every accepted record forever. The buffers of the adapter are the last
  records of each tenant, and its counter is the number of records in all windows.
\<close>

definition last_n :: "nat \<Rightarrow> 'a list \<Rightarrow> 'a list" where
  "last_n n xs = drop (length xs - n) xs"

definition tenant_log :: "string \<Rightarrow> telemetry_record list \<Rightarrow> telemetry_record list" where
  "tenant_log t es = filter (\<lambda>r. env_tenant_id (tr_envelope r) = t) es"

definition windows :: "usize \<Rightarrow> telemetry_record list \<Rightarrow> (string, telemetry_record list) btree_map" where
  "windows capacity es = foldl (\<lambda>m r. bt_insert (env_tenant_id (tr_envelope r))
     (last_n capacity ((case bt_get m (env_tenant_id (tr_envelope r)) of None \<Rightarrow> [] | Some rs \<Rightarrow> rs) @ [r])) m) [] es"

definition window_total :: "usize \<Rightarrow> telemetry_record list \<Rightarrow> nat" where
  "window_total capacity es = (\<Sum>t\<in>env_tenant_id ` tr_envelope ` set es. min capacity (length (tenant_log t es)))"

record telemetry_log =
  tl_capacity :: usize
  tl_records :: "telemetry_record list"

datatype telemetry_op = Emit telemetry_envelope | Query string telemetry_query

datatype telemetry_reply = Emitted | Queried "telemetry_record list"

fun local_step :: "local_telemetry \<Rightarrow> telemetry_op
    \<Rightarrow> (telemetry_reply, observability_error) result \<times> local_telemetry" where
  "local_step store (Emit e) = map_prod (\<lambda>r. and_then r (\<lambda>_. Inr Emitted)) id (local_emit store e)"
| "local_step store (Query t q) = (and_then (local_query store t q) (\<lambda>rs. Inr (Queried rs)), store)"

definition log_full :: "telemetry_log \<Rightarrow> string \<Rightarrow> bool" where
  "log_full l t \<longleftrightarrow>
     length (tenant_log t (tl_records l)) < tl_capacity l
       \<and> window_total (tl_capacity l) (tl_records l) = MAX_LOCAL_EVENTS_TOTAL
     \<or> length (tl_records l) + 2 \<ge> 2 ^ 64"

definition next_record :: "telemetry_log \<Rightarrow> telemetry_envelope \<Rightarrow> telemetry_record" where
  "next_record l e = \<lparr>tr_sequence = of_nat (length (tl_records l) + 1), tr_envelope = e\<rparr>"

fun log_step :: "telemetry_log \<Rightarrow> telemetry_op
    \<Rightarrow> (telemetry_reply, observability_error) result \<times> telemetry_log" where
  "log_step l (Emit e) =
     (case validate_envelope e of
        Inl err \<Rightarrow> (Inl err, l)
      | Inr _ \<Rightarrow>
          if log_full l (env_tenant_id e) then (Inl LimitExceeded, l)
          else (Inr Emitted, l\<lparr>tl_records := tl_records l @ [next_record l e]\<rparr>))"
| "log_step l (Query t q) =
     (and_then (validate_query q MAX_QUERY_LIMIT) (\<lambda>_.
        Inr (Queried (take (tq_limit q) (filter (\<lambda>r. record_matches r q)
          (rev (last_n (tl_capacity l) (tenant_log t (tl_records l)))))))), l)"

definition log_inv :: "telemetry_log \<Rightarrow> bool" where
  "log_inv l \<longleftrightarrow> 0 < tl_capacity l \<and> length (tl_records l) + 1 < 2 ^ 64
     \<and> window_total (tl_capacity l) (tl_records l) \<le> MAX_LOCAL_EVENTS_TOTAL
     \<and> (\<forall>i<length (tl_records l). unat (tr_sequence (tl_records l ! i)) = i + 1
          \<and> validate_envelope (tr_envelope (tl_records l ! i)) = Inr ())"

definition window_store :: "telemetry_log \<Rightarrow> local_telemetry" where
  "window_store l = \<lparr>lt_capacity_per_tenant = tl_capacity l, lt_state = mutex_new
     \<lparr>st_next_sequence = of_nat (length (tl_records l) + 1),
      st_total_events = window_total (tl_capacity l) (tl_records l),
      st_tenants = windows (tl_capacity l) (tl_records l)\<rparr>\<rparr>"

lemma last_n_snoc:
  assumes "0 < n"
  shows "last_n n (xs @ [x]) = (if length xs < n then last_n n xs @ [x] else tl (last_n n xs) @ [x])"
    and "last_n n (last_n n xs @ [x]) = last_n n (xs @ [x])"
proof -
  show "last_n n (xs @ [x]) = (if length xs < n then last_n n xs @ [x] else tl (last_n n xs) @ [x])"
    using assms by (auto simp: last_n_def drop_Suc drop_tl Suc_diff_le)
  show "last_n n (last_n n xs @ [x]) = last_n n (xs @ [x])"
    using assms by (cases "n \<le> length xs") (auto simp: last_n_def Suc_diff_le)
qed

lemma last_n_Nil [simp]: "last_n n [] = []"
  by (simp add: last_n_def)

lemma last_n_idem [simp]: "last_n n (last_n n xs) = last_n n xs"
  by (cases "n \<le> length xs") (auto simp: last_n_def)

lemma length_last_n [simp]: "length (last_n n xs) = min n (length xs)"
  by (auto simp: last_n_def)

lemma windows_snoc:
  "windows c (es @ [r]) = bt_insert (env_tenant_id (tr_envelope r)) (last_n c
     ((case bt_get (windows c es) (env_tenant_id (tr_envelope r)) of None \<Rightarrow> [] | Some rs \<Rightarrow> rs) @ [r])) (windows c es)"
  by (simp add: windows_def)

lemma tenant_log_snoc [simp]:
  "tenant_log t (es @ [r]) = (if env_tenant_id (tr_envelope r) = t then tenant_log t es @ [r] else tenant_log t es)"
  by (simp add: tenant_log_def)

lemma windows_get:
  assumes "0 < c"
  shows "bt_get (windows c es) t = (if tenant_log t es = [] then None else Some (last_n c (tenant_log t es)))"
proof (induction es arbitrary: t rule: rev_induct)
  case Nil
  then show ?case by (simp add: windows_def tenant_log_def)
next
  case (snoc r es)
  have "(case bt_get (windows c es) t of None \<Rightarrow> [] | Some rs \<Rightarrow> rs) = last_n c (tenant_log t es)" for t
    using snoc [of t] by (simp del: map_of_eq_None_iff)
  with snoc assms show ?case by (simp add: windows_snoc last_n_snoc(2) del: map_of_eq_None_iff)
qed

lemma window_total_snoc:
  "window_total c (es @ [r]) = window_total c es
     + (if length (tenant_log (env_tenant_id (tr_envelope r)) es) < c then 1 else 0)"
proof -
  let ?t = "env_tenant_id (tr_envelope r)" and ?A = "env_tenant_id ` tr_envelope ` set es"
  let ?f = "\<lambda>t. min c (length (tenant_log t es))" and ?f' = "\<lambda>t. min c (length (tenant_log t (es @ [r])))"
  have zero: "?f ?t = 0" if "?t \<notin> ?A"
  proof -
    from that have "tenant_log ?t es = []" by (auto simp: tenant_log_def filter_empty_conv) (metis imageI)
    then show ?thesis by simp
  qed
  have "window_total c (es @ [r]) = sum ?f' (insert ?t ?A)" by (simp add: window_total_def)
  also have "\<dots> = ?f' ?t + sum ?f' (?A - {?t})" by (simp add: sum.insert_remove)
  also have "sum ?f' (?A - {?t}) = sum ?f (?A - {?t})" by (intro sum.cong) auto
  also have "?f' ?t = ?f ?t + (if length (tenant_log ?t es) < c then 1 else 0)" by auto
  finally have "window_total c (es @ [r])
    = ?f ?t + sum ?f (?A - {?t}) + (if length (tenant_log ?t es) < c then 1 else 0)" by simp
  also have "?f ?t + sum ?f (?A - {?t}) = sum ?f ?A"
    using zero by (cases "?t \<in> ?A") (simp_all add: sum.remove)
  finally show ?thesis by (simp add: window_total_def)
qed

lemma log_step_inv: "log_inv l \<Longrightarrow> log_inv (snd (log_step l op))"
proof (cases op)
  case (Emit e)
  assume inv: "log_inv l"
  show ?thesis
  proof (cases "validate_envelope e")
    case (Inr u)
    have "log_inv (l\<lparr>tl_records := tl_records l @ [next_record l e]\<rparr>)" if "\<not> log_full l (env_tenant_id e)"
      using inv that Inr
      by (auto simp: log_inv_def log_full_def window_total_snoc next_record_def nth_append less_Suc_eq
          unsigned_of_nat take_bit_nat_eq_self simp del: of_nat_Suc)
    with inv Inr Emit show ?thesis by simp
  qed (use inv Emit in simp)
qed simp


lemma emit_window:
  assumes inv: "log_inv l" and valid: "validate_envelope e = Inr ()"
  shows "local_emit (window_store l) e
    = (if log_full l (env_tenant_id e) then (Inl LimitExceeded, window_store l)
       else (Inr (), window_store (l\<lparr>tl_records := tl_records l @ [next_record l e]\<rparr>)))"
proof -
  let ?c = "tl_capacity l" and ?es = "tl_records l" and ?t = "env_tenant_id e"
  let ?log = "tenant_log ?t ?es" and ?next = "word_of_nat (length ?es + 1) :: u64"
  from inv have c: "0 < ?c" and len: "length ?es + 1 < 2 ^ 64" by (auto simp: log_inv_def)
  have old: "(case bt_get (windows ?c ?es) ?t of None \<Rightarrow> [] | Some rs \<Rightarrow> rs) = last_n ?c ?log"
    by (simp add: windows_get [OF c] del: map_of_eq_None_iff)
  have full: "(case bt_get (windows ?c ?es) ?t of None \<Rightarrow> False | Some records \<Rightarrow> length records = ?c) \<longleftrightarrow> ?c \<le> length ?log"
    using c by (auto simp: windows_get [OF c] simp del: map_of_eq_None_iff)
  have unat: "unat ?next = length ?es + 1" using len by (simp add: unsigned_of_nat take_bit_nat_eq_self del: of_nat_Suc of_nat_add)
  have add: "checked_add ?next 1 = (if 2 ^ 64 \<le> length ?es + 2 then None else Some (word_of_nat (length ?es + 1 + 1)))"
    unfolding checked_add_def unat by simp
  have "emit_state ?c \<lparr>st_next_sequence = ?next, st_total_events = window_total ?c ?es, st_tenants = windows ?c ?es\<rparr> e
    = (if log_full l ?t then (Inl LimitExceeded, \<lparr>st_next_sequence = ?next, st_total_events = window_total ?c ?es,
        st_tenants = windows ?c ?es\<rparr>)
       else (Inr (), \<lparr>st_next_sequence = word_of_nat (length ?es + 1 + 1),
        st_total_events = window_total ?c (?es @ [next_record l e]), st_tenants = windows ?c (?es @ [next_record l e])\<rparr>))"
    unfolding emit_state_def Let_def telemetry_state.select_convs full old add log_full_def
    using c by (auto simp: window_total_snoc windows_snoc last_n_snoc next_record_def not_less windows_get [OF c]
        simp del: map_of_eq_None_iff of_nat_Suc of_nat_add)
  then show ?thesis
    by (simp add: local_emit_def valid window_store_def lock_def mutex_new_def)
qed

lemma query_window:
  assumes inv: "log_inv l"
  shows "local_query (window_store l) t q = and_then (validate_query q MAX_QUERY_LIMIT) (\<lambda>_.
    Inr (take (tq_limit q) (filter (\<lambda>r. record_matches r q) (rev (last_n (tl_capacity l) (tenant_log t (tl_records l)))))))"
proof -
  let ?c = "tl_capacity l" and ?es = "tl_records l"
  from inv have c: "0 < ?c" by (simp add: log_inv_def)
  have old: "(case bt_get (windows ?c ?es) t of None \<Rightarrow> [] | Some rs \<Rightarrow> rs) = last_n ?c (tenant_log t ?es)"
    by (simp add: windows_get [OF c] del: map_of_eq_None_iff)
  have "is_ok (validate_record r) \<and> env_tenant_id (tr_envelope r) = t" if "r \<in> set (last_n ?c (tenant_log t ?es))" for r
  proof -
    from that have r: "r \<in> set ?es" "env_tenant_id (tr_envelope r) = t"
      by (auto simp: last_n_def tenant_log_def dest: in_set_dropD)
    then obtain i where "i < length ?es" "r = ?es ! i" by (metis in_set_conv_nth)
    with inv have "unat (tr_sequence r) = i + 1" "validate_envelope (tr_envelope r) = Inr ()" by (auto simp: log_inv_def)
    moreover from this have "tr_sequence r > 0" by (metis add_is_0 one_neq_zero unat_0 word_neq_0_conv)
    ultimately show ?thesis using r by (simp add: validate_record_def ensure_def)
  qed
  then have "filter (\<lambda>r. is_ok (validate_record r) \<and> env_tenant_id (tr_envelope r) = t \<and> record_matches r q)
      (rev (last_n ?c (tenant_log t ?es)))
    = filter (\<lambda>r. record_matches r q) (rev (last_n ?c (tenant_log t ?es)))" by (intro filter_cong) auto
  then show ?thesis
    unfolding local_query_def window_store_def by (simp add: lock_def mutex_new_def old)
qed

interpretation telemetry: refinement_machine log_step log_inv window_store local_step
proof
  fix l op
  assume inv: "log_inv l"
  then show "log_inv (snd (log_step l op))" by (rule log_step_inv)
  show "local_step (window_store l) op = map_prod id window_store (log_step l op)"
  proof (cases op)
    case (Emit e)
    then show ?thesis
    proof (cases "validate_envelope e")
      case (Inr u)
      with Emit show ?thesis by (simp add: emit_window [OF inv])
    qed (simp add: local_emit_def)
  next
    case (Query t q)
    then show ?thesis by (cases "validate_query q MAX_QUERY_LIMIT") (simp_all add: query_window [OF inv])
  qed
qed


section \<open>Properties\<close>

text \<open>C18: The ring buffers of the local telemetry adapter are windows of a log. For every history of
  emissions and queries from a new store, the adapter answers exactly as a log that keeps every
  accepted event and a query that looks at the tenant's last \<open>capacity\<close> events, newest first: an
  event is refused only if it is invalid, if the tenant's window is not full and all windows
  together hold 4096 events, or if the sequence numbers are used up.\<close>

theorem telemetry_buffers_are_windows:
  assumes "local_telemetry_new capacity = Inr store"
  shows "outputs local_step store ops = outputs log_step \<lparr>tl_capacity = capacity, tl_records = []\<rparr> ops"
proof -
  from assms have "log_inv \<lparr>tl_capacity = capacity, tl_records = []\<rparr>"
    by (auto simp: log_inv_def local_telemetry_new_def window_total_def split: if_splits)
  moreover from assms have "window_store \<lparr>tl_capacity = capacity, tl_records = []\<rparr> = store"
    by (auto simp: window_store_def local_telemetry_new_def window_total_def windows_def split: if_splits)
  ultimately show ?thesis using telemetry.outputs_refine by metis
qed

lemma new_window_store:
  assumes "local_telemetry_new capacity = Inr store"
  obtains l where "log_inv l" "window_store l = store" "tl_capacity l = capacity"
proof
  let ?l = "\<lparr>tl_capacity = capacity, tl_records = []\<rparr>"
  from assms show "log_inv ?l" "window_store ?l = store" "tl_capacity ?l = capacity"
    by (auto simp: log_inv_def window_store_def local_telemetry_new_def window_total_def windows_def split: if_splits)
qed

definition demo_event :: telemetry_event where
  "demo_event = \<lparr>te_name = ''e'', te_target = ''t'', te_severity = Info, te_body = [], te_attributes = []\<rparr>"

definition demo_envelope :: "timestamp \<Rightarrow> telemetry_envelope" where
  "demo_envelope now = \<lparr>env_tenant_id = ''acme'', env_timestamp = now, env_event = demo_event\<rparr>"

lemma demo_envelope_valid: "validate_envelope (demo_envelope now) = Inr ()"
  by (simp add: validate_envelope_def demo_envelope_def demo_event_def validate_event_def validate_tenant_id_def
      validate_event_name_def validate_event_target_def validate_label_def check_attributes_def event_size_def
      ensure_def lower_or_digit_def is_ascii_lowercase_def less_eq_char_def usize_checked_add_def usize_max_def
      MAX_IDENTIFIER_BYTES_def MAX_BODY_BYTES_def MAX_ATTRIBUTES_def MAX_EVENT_BYTES_def)

definition demo_query :: telemetry_query where
  "demo_query = \<lparr>tq_since = None, tq_until = None, tq_minimum_severity = None, tq_event_name = None,
     tq_target = None, tq_limit = 5\<rparr>"

abbreviation demo_record :: "u64 \<Rightarrow> timestamp \<Rightarrow> telemetry_record" where
  "demo_record n now \<equiv> \<lparr>tr_sequence = n, tr_envelope = demo_envelope now\<rparr>"

lemma demo_emit:
  assumes "tenant_log ''acme'' rs = rs" "window_total 1 rs \<le> 1" "length rs \<le> 1"
  shows "log_step \<lparr>tl_capacity = 1, tl_records = rs\<rparr> (Emit (demo_envelope now))
    = (Inr Emitted, \<lparr>tl_capacity = 1, tl_records = rs @ [demo_record (of_nat (length rs + 1)) now]\<rparr>)"
proof -
  have "env_tenant_id (demo_envelope now) = ''acme''" by (simp add: demo_envelope_def)
  moreover have "\<not> log_full \<lparr>tl_capacity = 1, tl_records = rs\<rparr> ''acme''"
    using assms by (simp add: log_full_def MAX_LOCAL_EVENTS_TOTAL_def)
  ultimately show ?thesis by (simp add: demo_envelope_valid next_record_def)
qed

lemma demo_tenant_log: "tenant_log ''acme'' [demo_record n now] = [demo_record n now]"
  by (simp add: tenant_log_def demo_envelope_def)

text \<open>A buffer of one event keeps the second of two.\<close>

theorem telemetry_buffers_are_windows_witness:
  "\<exists>store. local_telemetry_new 1 = Inr store
    \<and> outputs local_step store [Emit (demo_envelope 3), Emit (demo_envelope 4), Query ''acme'' demo_query]
      = [Inr Emitted, Inr Emitted, Inr (Queried [demo_record 2 4])]"
proof -
  let ?ops = "[Emit (demo_envelope 3), Emit (demo_envelope 4), Query ''acme'' demo_query]"
  obtain store where new: "local_telemetry_new 1 = Inr store"
    by (simp add: local_telemetry_new_def MAX_LOCAL_EVENTS_PER_TENANT_def)
  have first: "log_step \<lparr>tl_capacity = 1, tl_records = []\<rparr> (Emit (demo_envelope 3))
    = (Inr Emitted, \<lparr>tl_capacity = 1, tl_records = [demo_record 1 3]\<rparr>)"
    using demo_emit [of "[]" 3] by (simp add: tenant_log_def window_total_def del: log_step.simps)
  have second: "log_step \<lparr>tl_capacity = 1, tl_records = [demo_record 1 3]\<rparr> (Emit (demo_envelope 4))
    = (Inr Emitted, \<lparr>tl_capacity = 1, tl_records = [demo_record 1 3, demo_record 2 4]\<rparr>)"
    using demo_emit [of "[demo_record 1 3]" 4] demo_tenant_log by (simp add: window_total_def del: log_step.simps)
  have "tenant_log ''acme'' [demo_record 1 3, demo_record 2 4] = [demo_record 1 3, demo_record 2 4]"
    by (simp add: tenant_log_def demo_envelope_def)
  then have third: "fst (log_step \<lparr>tl_capacity = 1, tl_records = [demo_record 1 3, demo_record 2 4]\<rparr> (Query ''acme'' demo_query))
    = Inr (Queried [demo_record 2 4])"
    by (simp add: demo_query_def validate_query_def MAX_QUERY_LIMIT_def last_n_def record_matches_def)
  have "outputs log_step \<lparr>tl_capacity = 1, tl_records = []\<rparr> ?ops
    = [Inr Emitted, Inr Emitted, Inr (Queried [demo_record 2 4])]"
    by (simp only: outputs.simps first second third fst_conv snd_conv)
  with new telemetry_buffers_are_windows [OF new, of ?ops] show ?thesis by auto
qed

end
