(* ===== verification/Effects.thy ===== *)
theory Effects
  imports Contracts
begin

text \<open>
  Fallible computations over an outside world, and the traces they leave when the operations of
  the world also record what was asked of them: \<open>traces m P\<close> says that every run of \<open>m\<close> appends
  a piece to the record for which, with the result, \<open>P\<close> holds.
\<close>

type_synonym ('a, 'e, 'w) st = "'w \<Rightarrow> ('a, 'e) result \<times> 'w"

definition st_of :: "('a, 'e) result \<Rightarrow> ('a, 'e, 'w) st" where
  "st_of r w = (r, w)"

definition st_then :: "('a, 'e, 'w) st \<Rightarrow> ('a \<Rightarrow> ('b, 'e, 'w) st) \<Rightarrow> ('b, 'e, 'w) st" where
  "st_then m f w = (case m w of (Inl e, w') \<Rightarrow> (Inl e, w') | (Inr a, w') \<Rightarrow> f a w')"

text \<open>\<open>match m { .. }\<close> on the whole result.\<close>

definition st_match :: "('a, 'e, 'w) st \<Rightarrow> (('a, 'e) result \<Rightarrow> ('b, 'f, 'w) st) \<Rightarrow> ('b, 'f, 'w) st" where
  "st_match m f w = (case m w of (r, w') \<Rightarrow> f r w')"

definition st_map_err :: "('e \<Rightarrow> 'f) \<Rightarrow> ('a, 'e, 'w) st \<Rightarrow> ('a, 'f, 'w) st" where
  "st_map_err f m w = (case m w of (r, w') \<Rightarrow> (map_err f r, w'))"

definition traces :: "('a, 'e, 'w \<times> 'c list) st \<Rightarrow> (('a, 'e) result \<Rightarrow> 'c list \<Rightarrow> bool) \<Rightarrow> bool" where
  "traces m P \<longleftrightarrow> (\<forall>w log. \<exists>r w' t. m (w, log) = (r, (w', log @ t)) \<and> P r t)"

lemma tracesD:
  assumes "traces m P" and "m (w, log) = (r, (w', log'))"
  obtains t where "log' = log @ t" "P r t"
  using assms unfolding traces_def by (metis prod.inject)

lemma traces_mono: "traces m P \<Longrightarrow> (\<And>r t. P r t \<Longrightarrow> Q r t) \<Longrightarrow> traces m Q"
  unfolding traces_def by metis

lemma traces_of: "P r [] \<Longrightarrow> traces (st_of r) P"
  by (simp add: traces_def st_of_def)

lemma traces_match:
  assumes "traces m P" and "\<And>r t. P r t \<Longrightarrow> traces (f r) (\<lambda>r' s. Q r' (t @ s))"
  shows "traces (st_match m f) Q"
  unfolding traces_def
proof (intro allI)
  fix w log
  from assms(1) obtain r w' t where m: "m (w, log) = (r, (w', log @ t))" "P r t"
    unfolding traces_def by meson
  with assms(2) obtain r2 w2 s where "f r (w', log @ t) = (r2, (w2, (log @ t) @ s))" "Q r2 (t @ s)"
    unfolding traces_def by meson
  with m show "\<exists>r w' t. st_match m f (w, log) = (r, (w', log @ t)) \<and> Q r t" by (auto simp: st_match_def)
qed

lemma st_then_match: "st_then m f = st_match m (\<lambda>r. case r of Inl e \<Rightarrow> st_of (Inl e) | Inr a \<Rightarrow> f a)"
  by (auto simp: fun_eq_iff st_then_def st_match_def st_of_def split: prod.split sum.split)

lemma traces_then:
  assumes "traces m P" and "\<And>e t. P (Inl e) t \<Longrightarrow> Q (Inl e) t"
    and "\<And>a t. P (Inr a) t \<Longrightarrow> traces (f a) (\<lambda>r s. Q r (t @ s))"
  shows "traces (st_then m f) Q"
  unfolding st_then_match
  by (rule traces_match [OF assms(1)]) (use assms(2,3) in \<open>auto intro: traces_of split: sum.split\<close>)

lemma traces_of_then:
  assumes "\<And>e. r = Inl e \<Longrightarrow> Q (Inl e) []" and "\<And>a. r = Inr a \<Longrightarrow> traces (f a) Q"
  shows "traces (st_then (st_of r) f) Q"
  by (rule traces_then [where P = "\<lambda>r' t. r' = r \<and> t = []"]) (use assms in \<open>auto intro: traces_of\<close>)

lemma st_map_err_match: "st_map_err f m = st_match m (\<lambda>r. st_of (map_err f r))"
  by (auto simp: fun_eq_iff st_map_err_def st_match_def st_of_def)

lemma traces_map_err:
  assumes "traces m P" and "\<And>r t. P r t \<Longrightarrow> Q (map_err f r) t"
  shows "traces (st_map_err f m) Q"
  unfolding st_map_err_match by (rule traces_match [OF assms(1)]) (use assms(2) in \<open>auto intro: traces_of\<close>)

text \<open>
  The same, as a rule for a record that is already there: \<open>runs m t Q\<close> says that after a run of
  \<open>m\<close> from the record \<open>t\<close>, \<open>Q\<close> holds of the result and the whole record.
\<close>

definition runs :: "('a, 'e, 'w \<times> 'c list) st \<Rightarrow> 'c list \<Rightarrow> (('a, 'e) result \<Rightarrow> 'c list \<Rightarrow> bool) \<Rightarrow> bool" where
  "runs m t Q \<longleftrightarrow> traces m (\<lambda>r s. Q r (t @ s))"

named_theorems runs_intros

lemma runs_mono: "runs m t P \<Longrightarrow> (\<And>r t. P r t \<Longrightarrow> Q r t) \<Longrightarrow> runs m t Q"
  unfolding runs_def by (rule traces_mono)

lemma runs_of [runs_intros]: "Q r t \<Longrightarrow> runs (st_of r) t Q"
  by (simp add: runs_def traces_of)

lemma runs_match: "runs m t P \<Longrightarrow> (\<And>r s. P r s \<Longrightarrow> runs (f r) s Q) \<Longrightarrow> runs (st_match m f) t Q"
  unfolding runs_def by (erule traces_match) (simp flip: append_assoc)

lemma runs_then:
  "runs m t P \<Longrightarrow> (\<And>e s. P (Inl e) s \<Longrightarrow> Q (Inl e) s) \<Longrightarrow> (\<And>a s. P (Inr a) s \<Longrightarrow> runs (f a) s Q)
    \<Longrightarrow> runs (st_then m f) t Q"
  unfolding st_then_match by (erule runs_match) (auto intro: runs_of split: sum.split)

lemma runs_of_then:
  "(\<And>e. r = Inl e \<Longrightarrow> Q (Inl e) t) \<Longrightarrow> (\<And>a. r = Inr a \<Longrightarrow> runs (f a) t Q) \<Longrightarrow> runs (st_then (st_of r) f) t Q"
  by (rule runs_then [where P = "\<lambda>r' s. r' = r \<and> s = t"]) (auto intro: runs_of)

lemma runs_map_err: "runs m t P \<Longrightarrow> (\<And>r s. P r s \<Longrightarrow> Q (map_err f r) s) \<Longrightarrow> runs (st_map_err f m) t Q"
  unfolding st_map_err_match by (erule runs_match) (auto intro: runs_of)

lemma runs_then_err:
  assumes "runs m t P" and "\<And>e s. P (Inl e) s \<Longrightarrow> Q (Inl (g e)) s" and "\<And>a s. P (Inr a) s \<Longrightarrow> runs (f a) s Q"
  shows "runs (st_then (st_map_err g m) f) t Q"
proof (rule runs_then)
  show "runs (st_map_err g m) t (\<lambda>r s. \<exists>r'. P r' s \<and> r = map_err g r')"
    by (rule runs_map_err [OF assms(1)]) auto
next
  fix e s
  assume "\<exists>r'. P r' s \<and> Inl e = map_err g r'"
  then obtain r' where "P r' s" "map_err g r' = Inl e" by auto
  with assms(2) show "Q (Inl e) s" by (cases r') auto
next
  fix a s
  assume "\<exists>r'. P r' s \<and> Inr a = map_err g r'"
  then obtain r' where "P r' s" "map_err g r' = Inr a" by auto
  with assms(3) show "runs (f a) s Q" by (cases r') auto
qed

lemma runsD:
  assumes "runs m [] Q" and "m (w, log) = (r, (w', log'))"
  obtains t where "log' = log @ t" "Q r t"
  using assms unfolding runs_def by (elim tracesD) auto

lemma runs_log: "runs m [] (\<lambda>r s. Q s) \<Longrightarrow> m (w, []) = (r, (w', log)) \<Longrightarrow> Q log"
  by (erule (1) runsD) simp

end
