(* ===== verification/Sandbox.thy ===== *)
theory Sandbox
  imports Telemetry Text_Ops Effects
begin

text \<open>
  The sandbox crate without its adapters to Docker and to the tool protocol: identifiers, commands
  and profiles (\<open>sandbox/src/model.rs\<close>, \<open>validation.rs\<close>), errors, the service that wraps an
  adapter with best-effort events (\<open>service.rs\<close>, \<open>port.rs\<close>), and the sink that turns these events
  into telemetry (\<open>observability.rs\<close>).
\<close>

section \<open>Errors and limits\<close>

datatype sandbox_error =
    InvalidRequest | NotFound | Denied | LimitExceeded | Timeout | Unavailable | OutcomeUnknown | OperationFailed

fun sandbox_error_as_str :: "sandbox_error \<Rightarrow> string" where
  "sandbox_error_as_str InvalidRequest = ''invalid_request''"
| "sandbox_error_as_str NotFound = ''not_found''"
| "sandbox_error_as_str Denied = ''denied''"
| "sandbox_error_as_str LimitExceeded = ''limit_exceeded''"
| "sandbox_error_as_str Timeout = ''timeout''"
| "sandbox_error_as_str Unavailable = ''unavailable''"
| "sandbox_error_as_str OutcomeUnknown = ''outcome_unknown''"
| "sandbox_error_as_str OperationFailed = ''operation_failed''"

definition MAX_ID_BYTES :: nat where "MAX_ID_BYTES = 128"
definition MAX_IMAGE_BYTES :: nat where "MAX_IMAGE_BYTES = 512"
definition MAX_PROGRAM_BYTES :: nat where "MAX_PROGRAM_BYTES = 256"
definition MAX_ARGUMENTS :: nat where "MAX_ARGUMENTS = 32"
definition MAX_ARGUMENT_BYTES :: nat where "MAX_ARGUMENT_BYTES = 4096"
definition MAX_ARGUMENTS_BYTES :: nat where "MAX_ARGUMENTS_BYTES = 16 * 1024"
definition MAX_WORKING_DIRECTORY_BYTES :: nat where "MAX_WORKING_DIRECTORY_BYTES = 1024"
definition MAX_OUTPUT_BYTES :: nat where "MAX_OUTPUT_BYTES = 32 * 1024"
definition MAX_TIMEOUT_MILLIS :: u64 where "MAX_TIMEOUT_MILLIS = 5 * 60 * 1000"

section \<open>Validation\<close>

definition lower_hex :: "char \<Rightarrow> bool" where
  "lower_hex b \<longleftrightarrow> is_ascii_digit b \<or> (CHR ''a'' \<le> b \<and> b \<le> CHR ''f'')"

definition logical_id :: "string \<Rightarrow> bool" where
  "logical_id value \<longleftrightarrow> value \<noteq> [] \<and> length value \<le> MAX_ID_BYTES
     \<and> first_rest lower_or_digit (\<lambda>b. lower_or_digit b \<or> b = CHR ''-'' \<or> b = CHR ''_'') value"

definition sandbox_id :: "string \<Rightarrow> bool" where
  "sandbox_id value \<longleftrightarrow> length value = 36 \<and> starts_with value ''sbx-'' \<and> list_all lower_hex (drop 4 value)"

definition bounded_text :: "string \<Rightarrow> nat \<Rightarrow> bool \<Rightarrow> bool" where
  "bounded_text value maximum allow_empty \<longleftrightarrow>
     (allow_empty \<or> value \<noteq> []) \<and> length value \<le> maximum \<and> CHR 0x00 \<notin> set value"

fun is_normal :: "component \<Rightarrow> bool" where
  "is_normal (Normal _) = True"
| "is_normal _ = False"

definition relative_path :: "string \<Rightarrow> bool" where
  "relative_path value \<longleftrightarrow> bounded_text value MAX_WORKING_DIRECTORY_BYTES True
     \<and> (value = [] \<or> list_all is_normal (path_components value))"

definition immutable_image :: "string \<Rightarrow> bool" where
  "immutable_image value \<longleftrightarrow>
     (case rsplit_once ''@sha256:'' value of
        None \<Rightarrow> False
      | Some (name, digest) \<Rightarrow> name \<noteq> [] \<and> length value \<le> MAX_IMAGE_BYTES
          \<and> \<not> list_ex blank (utf8_chars name) \<and> length digest = 64 \<and> list_all lower_hex digest)"

section \<open>Requests and results\<close>

text \<open>\<open>TenantId\<close>, \<open>PrincipalId\<close>, \<open>RequestId\<close>, \<open>CorrelationId\<close> and \<open>ProfileId\<close> are one macro's instances.\<close>

definition logical_id_new :: "string \<Rightarrow> (string, sandbox_error) result" where
  "logical_id_new value = (if logical_id value then Inr value else Inl InvalidRequest)"

definition sandbox_id_new :: "string \<Rightarrow> (string, sandbox_error) result" where
  "sandbox_id_new value = (if sandbox_id value then Inr value else Inl InvalidRequest)"

record sandbox_context =
  sc_tenant_id :: string
  sc_principal_id :: string
  sc_request_id :: string
  sc_correlation_id :: string

record command =
  cm_program :: string
  cm_arguments :: "string list"
  cm_working_directory :: string
  cm_timeout_millis :: u64

definition command_new :: "string \<Rightarrow> string list \<Rightarrow> string \<Rightarrow> u64 \<Rightarrow> (command, sandbox_error) result" where
  "command_new program arguments working_directory timeout_millis =
     and_then (try_fold (\<lambda>total value. ok_or (usize_checked_add total (length value)) LimitExceeded) 0 arguments)
       (\<lambda>argument_bytes.
       if length program > MAX_PROGRAM_BYTES \<or> length arguments > MAX_ARGUMENTS
          \<or> list_ex (\<lambda>value. length value > MAX_ARGUMENT_BYTES) arguments
          \<or> argument_bytes > MAX_ARGUMENTS_BYTES
          \<or> length working_directory > MAX_WORKING_DIRECTORY_BYTES
          \<or> timeout_millis > MAX_TIMEOUT_MILLIS
       then Inl LimitExceeded
       else if bounded_text program MAX_PROGRAM_BYTES False
          \<and> list_all (\<lambda>value. bounded_text value MAX_ARGUMENT_BYTES True) arguments
          \<and> relative_path working_directory \<and> timeout_millis > 0
       then Inr \<lparr>cm_program = program, cm_arguments = arguments, cm_working_directory = working_directory,
          cm_timeout_millis = timeout_millis\<rparr>
       else Inl InvalidRequest)"

record start_request =
  sr_context :: sandbox_context
  sr_profile_id :: string

record execute_request =
  xr_context :: sandbox_context
  xr_sandbox_id :: string
  xr_command :: command

record target_request =
  tg_context :: sandbox_context
  tg_sandbox_id :: string

datatype sandbox_status = Running | Stopped

record start_result =
  so_sandbox_id :: string
  so_status :: sandbox_status

record execute_result =
  xo_sandbox_id :: string
  xo_exit_code :: int
  xo_stdout :: string
  xo_stderr :: string
  xo_truncated :: bool

record status_result =
  to_sandbox_id :: string
  to_status :: sandbox_status

record stop_result =
  po_sandbox_id :: string
  po_removed :: bool

datatype sandbox_operation = OpStart | OpExecute | OpStatus | OpStop

record sandbox_event =
  se_operation :: sandbox_operation
  se_sandbox_id :: "string option"
  se_status :: "sandbox_status option"
  se_tenant_id :: string
  se_correlation_id :: string

record docker_profile =
  dp_image :: string
  dp_user :: string
  dp_memory_bytes :: u64
  dp_cpu_millis :: u32
  dp_pids :: u32

definition docker_profile_new :: "string \<Rightarrow> string \<Rightarrow> u64 \<Rightarrow> u32 \<Rightarrow> u32 \<Rightarrow> (docker_profile, sandbox_error) result" where
  "docker_profile_new img user memory_bytes cpu_millis pids =
     (let numeric_non_root = (case parse_u32 user of None \<Rightarrow> False | Some value \<Rightarrow> value > 0)
            \<and> \<not> starts_with user ''0'' in
      if immutable_image img \<and> numeric_non_root
         \<and> 64 * 1024 * 1024 \<le> memory_bytes \<and> memory_bytes \<le> 2 * 1024 * 1024 * 1024
         \<and> 100 \<le> cpu_millis \<and> cpu_millis \<le> 4000 \<and> 16 \<le> pids \<and> pids \<le> 256
      then Inr \<lparr>dp_image = img, dp_user = user, dp_memory_bytes = memory_bytes, dp_cpu_millis = cpu_millis,
        dp_pids = pids\<rparr>
      else Inl InvalidRequest)"

section \<open>The port and the service\<close>

datatype event_submission = Accepted | Dropped

record 'w sandbox_port =
  port_start :: "start_request \<Rightarrow> (start_result, sandbox_error, 'w) st"
  port_execute :: "execute_request \<Rightarrow> (execute_result, sandbox_error, 'w) st"
  port_status :: "target_request \<Rightarrow> (status_result, sandbox_error, 'w) st"
  port_stop :: "target_request \<Rightarrow> (stop_result, sandbox_error, 'w) st"

text \<open>A call of the port, as a value.\<close>

datatype sandbox_call =
    StartCall start_request | ExecuteCall execute_request | StatusCall target_request | StopCall target_request

type_synonym 'w event_sink = "sandbox_event \<Rightarrow> 'w \<Rightarrow> event_submission \<times> 'w"

definition service_emit_event :: "'w event_sink \<Rightarrow> sandbox_operation \<Rightarrow> sandbox_context \<Rightarrow> string option
    \<Rightarrow> sandbox_status option \<Rightarrow> 'a \<Rightarrow> ('a, sandbox_error, 'w) st" where
  "service_emit_event events operation context i status result w =
     (Inr result, snd (events \<lparr>se_operation = operation, se_sandbox_id = i, se_status = status,
        se_tenant_id = sc_tenant_id context, se_correlation_id = sc_correlation_id context\<rparr> w))"

definition sandbox_service :: "'w sandbox_port \<Rightarrow> 'w event_sink \<Rightarrow> 'w sandbox_port" where
  "sandbox_service sandbox events =
     \<lparr>port_start = (\<lambda>request. st_then (port_start sandbox request) (\<lambda>result.
        service_emit_event events OpStart (sr_context request) (Some (so_sandbox_id result)) (Some (so_status result)) result)),
      port_execute = (\<lambda>request. st_then (port_execute sandbox request) (\<lambda>result.
        service_emit_event events OpExecute (xr_context request) (Some (xr_sandbox_id request)) None result)),
      port_status = (\<lambda>request. st_then (port_status sandbox request) (\<lambda>result.
        service_emit_event events OpStatus (tg_context request) (Some (to_sandbox_id result)) (Some (to_status result)) result)),
      port_stop = (\<lambda>request. st_then (port_stop sandbox request) (\<lambda>result.
        service_emit_event events OpStop (tg_context request) (Some (tg_sandbox_id request)) (Some Stopped) result))\<rparr>"

definition drop_events :: "'w event_sink" where
  "drop_events event w = (Dropped, w)"

definition deny_sandbox :: "'w sandbox_port" where
  "deny_sandbox = \<lparr>port_start = (\<lambda>_. st_of (Inl Denied)), port_execute = (\<lambda>_. st_of (Inl Denied)),
     port_status = (\<lambda>_. st_of (Inl Denied)), port_stop = (\<lambda>_. st_of (Inl Denied))\<rparr>"

section \<open>Events as telemetry\<close>

definition EVENT_TARGET :: string where "EVENT_TARGET = ''sandbox''"

fun operation_name :: "sandbox_operation \<Rightarrow> string" where
  "operation_name OpStart = ''start''"
| "operation_name OpExecute = ''execute''"
| "operation_name OpStatus = ''status''"
| "operation_name OpStop = ''stop''"

fun status_name :: "sandbox_status \<Rightarrow> string" where
  "status_name Running = ''running''"
| "status_name Stopped = ''stopped''"

record 'w telemetry_event_sink =
  es_sink :: "telemetry_envelope \<Rightarrow> (unit, observability_error, 'w) st"
  es_clock :: "'w \<Rightarrow> (timestamp, observability_error) result \<times> 'w"
  es_may_block :: bool

definition telemetry_event_sink_new :: "(telemetry_envelope \<Rightarrow> (unit, observability_error, 'w) st)
    \<Rightarrow> telemetry_guarantees \<Rightarrow> ('w \<Rightarrow> (timestamp, observability_error) result \<times> 'w)
    \<Rightarrow> 'w telemetry_event_sink" where
  "telemetry_event_sink_new sink guarantees clock =
     \<lparr>es_sink = sink, es_clock = clock, es_may_block = tg_may_block guarantees\<rparr>"

definition event_attributes :: "sandbox_event \<Rightarrow> attributes" where
  "event_attributes event =
     (let attrs = bt_insert ''correlation_id'' (se_correlation_id event) [];
          attrs = (case se_sandbox_id event of None \<Rightarrow> attrs | Some i \<Rightarrow> bt_insert ''sandbox_id'' i attrs) in
      case se_status event of None \<Rightarrow> attrs | Some status \<Rightarrow> bt_insert ''status'' (status_name status) attrs)"

definition try_emit :: "'w telemetry_event_sink \<Rightarrow> 'w event_sink" where
  "try_emit sink event w =
     (if es_may_block sink then (Dropped, w)
      else case bounded_name_new validate_tenant_id (se_tenant_id event) of
        Inl _ \<Rightarrow> (Dropped, w)
      | Inr tenant \<Rightarrow> (case es_clock sink w of
          (Inl _, w) \<Rightarrow> (Dropped, w)
        | (Inr timestamp, w) \<Rightarrow> (case bounded_name_new validate_event_name (operation_name (se_operation event)) of
            Inl _ \<Rightarrow> (Dropped, w)
          | Inr name \<Rightarrow> (case bounded_name_new validate_event_target EVENT_TARGET of
              Inl _ \<Rightarrow> (Dropped, w)
            | Inr target \<Rightarrow> (case telemetry_event_new name target Info [] (event_attributes event) of
                Inl _ \<Rightarrow> (Dropped, w)
              | Inr telemetry \<Rightarrow>
                  (case es_sink sink \<lparr>env_tenant_id = tenant, env_timestamp = timestamp, env_event = telemetry\<rparr> w of
                     (Inr _, w) \<Rightarrow> (Accepted, w)
                   | (Inl _, w) \<Rightarrow> (Dropped, w)))))))"

end
