(* ===== verification/Docker.thy ===== *)
theory Docker
  imports Sandbox
begin

text \<open>
  The Docker adapter of the sandbox crate (\<open>sandbox/src/docker.rs\<close>). It acts on the outside only by
  running the Docker command line; the process library it uses is a parameter that says how a
  child process went.
\<close>

section \<open>Running the command line\<close>

datatype read_failure = ReadTimedOut | ReadFailed

text \<open>
  How one child process went: whether it started, whether the deadline is representable, whether
  its pipes could be opened, what was read from them, and how waiting for it ended: an error, the
  time running out (\<open>None\<close>), or an exit status with or without a code.
\<close>

record process_outcome =
  pr_started :: bool
  pr_deadline :: bool
  pr_communicates :: bool
  pr_read :: "(string \<times> string, read_failure) result"
  pr_wait :: "(nat option option, unit) result"

record 'w process_library =
  pl_run :: "string \<Rightarrow> string list \<Rightarrow> nat \<Rightarrow> 'w \<Rightarrow> process_outcome \<times> 'w"
  pl_kill :: "'w \<Rightarrow> 'w"

record cli_output =
  co_code :: int
  co_stdout :: string
  co_stderr :: string

record docker_sandbox =
  ds_executable :: string
  ds_endpoint :: string
  ds_owner :: string
  ds_profiles :: "(string, docker_profile) btree_map"

definition docker_sandbox_new :: "string \<Rightarrow> string \<Rightarrow> string \<Rightarrow> (string, docker_profile) btree_map
    \<Rightarrow> (docker_sandbox, sandbox_error) result" where
  "docker_sandbox_new executable endpoint owner profiles =
     and_then (ok_or (strip_prefix ''unix://'' endpoint) InvalidRequest) (\<lambda>socket.
       if \<not> is_absolute executable \<or> \<not> is_absolute socket
          \<or> \<not> (length owner = 64 \<and> list_all lower_hex owner) \<or> profiles = []
       then Inl InvalidRequest
       else Inr \<lparr>ds_executable = executable, ds_endpoint = endpoint, ds_owner = owner, ds_profiles = profiles\<rparr>)"

definition OWNER_LABEL :: string where "OWNER_LABEL = ''rust-factory.owner''"
definition TENANT_LABEL :: string where "TENANT_LABEL = ''rust-factory.tenant''"
definition SANDBOX_LABEL :: string where "SANDBOX_LABEL = ''rust-factory.sandbox''"
definition CONTROL_TIMEOUT :: nat where "CONTROL_TIMEOUT = 15000"

text \<open>What a run of the command line returns, and whether the child is killed.\<close>

definition exit_code :: "nat option \<Rightarrow> int" where
  "exit_code code = (case code of None \<Rightarrow> 128 | Some n \<Rightarrow> if n < 2 ^ 31 then int n else 128)"

definition cli_result :: "process_outcome \<Rightarrow> (cli_output, sandbox_error) result \<times> bool" where
  "cli_result outcome =
     (if \<not> pr_started outcome then (Inl Unavailable, False)
      else if \<not> pr_deadline outcome then (Inl InvalidRequest, False)
      else if \<not> pr_communicates outcome then (Inl OperationFailed, False)
      else case pr_read outcome of
        Inl ReadTimedOut \<Rightarrow> (Inl Timeout, True)
      | Inl ReadFailed \<Rightarrow> (Inl OperationFailed, True)
      | Inr (stdout, stderr) \<Rightarrow>
          if length stdout + length stderr > MAX_OUTPUT_BYTES then (Inl LimitExceeded, True)
          else (case pr_wait outcome of
            Inl _ \<Rightarrow> (Inl OperationFailed, False)
          | Inr None \<Rightarrow> (Inl Timeout, True)
          | Inr (Some code) \<Rightarrow> (Inr \<lparr>co_code = exit_code code, co_stdout = from_utf8_lossy stdout,
              co_stderr = from_utf8_lossy stderr\<rparr>, False)))"

definition run_cli :: "'w process_library \<Rightarrow> docker_sandbox \<Rightarrow> string list \<Rightarrow> nat \<Rightarrow> (cli_output, sandbox_error, 'w) st"
where
  "run_cli lib ds arguments timeout w =
     (case pl_run lib (ds_executable ds) arguments timeout w of (outcome, w') \<Rightarrow>
        (case cli_result outcome of (r, killed) \<Rightarrow> (r, if killed then pl_kill lib w' else w')))"

section \<open>Commands\<close>

definition base_args :: "docker_sandbox \<Rightarrow> string \<Rightarrow> string list" where
  "base_args ds operation = [''--host'', ds_endpoint ds, operation]"

definition container_name :: "string \<Rightarrow> string" where
  "container_name i = ''rf-'' @ i"

definition label_format :: "string \<Rightarrow> string" where
  "label_format label = ''{{index .Config.Labels \"'' @ label @ ''\"}}''"

definition inspect_args :: "docker_sandbox \<Rightarrow> string \<Rightarrow> string list" where
  "inspect_args ds i = base_args ds ''inspect'' @
     [''--format'', ''{{.Id}}|'' @ label_format OWNER_LABEL @ ''|'' @ label_format TENANT_LABEL @ ''|''
        @ label_format SANDBOX_LABEL @ ''|{{.State.Running}}'', container_name i]"

definition rm_args :: "docker_sandbox \<Rightarrow> string \<Rightarrow> string list" where
  "rm_args ds docker_id = base_args ds ''rm'' @ [''--force'', docker_id]"

definition pad3 :: "string \<Rightarrow> string" where
  "pad3 s = replicate (3 - length s) CHR ''0'' @ s"

definition run_args :: "docker_sandbox \<Rightarrow> docker_profile \<Rightarrow> string \<Rightarrow> string \<Rightarrow> string list" where
  "run_args ds profile tenant i = base_args ds ''run'' @
     [''--detach'', ''--pull=never'', ''--name'', container_name i,
      ''--label'', OWNER_LABEL @ ''='' @ ds_owner ds,
      ''--label'', TENANT_LABEL @ ''='' @ tenant,
      ''--label'', SANDBOX_LABEL @ ''='' @ i,
      ''--network'', ''none'', ''--read-only'',
      ''--tmpfs'', ''/workspace:rw,nosuid,nodev,size=268435456,mode=1777'',
      ''--tmpfs'', ''/tmp:rw,nosuid,nodev,noexec,size=67108864,mode=1777'',
      ''--cap-drop'', ''ALL'', ''--security-opt'', ''no-new-privileges'',
      ''--user'', dp_user profile, ''--memory'', word_to_string (dp_memory_bytes profile),
      ''--cpus'', nat_to_string (unat (dp_cpu_millis profile) div 1000) @ ''.''
        @ pad3 (nat_to_string (unat (dp_cpu_millis profile) mod 1000)),
      ''--pids-limit'', word_to_string (dp_pids profile), dp_image profile, ''sleep'', ''infinity'']"

definition workdir_of :: "command \<Rightarrow> string" where
  "workdir_of c = (if cm_working_directory c = [] then ''/workspace'' else ''/workspace/'' @ cm_working_directory c)"

definition exec_args :: "docker_sandbox \<Rightarrow> string \<Rightarrow> command \<Rightarrow> string list" where
  "exec_args ds docker_id c = base_args ds ''exec'' @
     [''--workdir'', workdir_of c, docker_id, cm_program c] @ cm_arguments c"

section \<open>Operations\<close>

record owned_container =
  oc_docker_id :: string
  oc_running :: bool

definition canonical_docker_id :: "string \<Rightarrow> bool" where
  "canonical_docker_id value \<longleftrightarrow> length value = 64 \<and> list_all lower_hex value"

definition confirmed_not_found :: "cli_output \<Rightarrow> bool" where
  "confirmed_not_found output = str_contains (co_stderr output) ''No such container''"

definition derived_id :: "(string \<Rightarrow> string) \<Rightarrow> docker_sandbox \<Rightarrow> start_request \<Rightarrow> (string, sandbox_error) result" where
  "derived_id sha256_hex ds request =
     sandbox_id_new (''sbx-'' @ take 32 (sha256_hex (''rust-factory:sandbox:v1'' @ [CHR 0x00] @ ds_owner ds @ [CHR 0x00]
       @ sc_tenant_id (sr_context request) @ [CHR 0x00] @ sc_request_id (sr_context request) @ [CHR 0x00]
       @ sc_correlation_id (sr_context request))))"

definition owned_fields :: "docker_sandbox \<Rightarrow> target_request \<Rightarrow> cli_output
    \<Rightarrow> (owned_container option, sandbox_error) result" where
  "owned_fields ds request output =
     (if co_code output \<noteq> 0 then (if confirmed_not_found output then Inr None else Inl Unavailable)
      else case split_on CHR ''|'' (trim (co_stdout output)) of
        [docker_id, owner, tenant, sandbox, running] \<Rightarrow>
          if \<not> canonical_docker_id docker_id \<or> owner \<noteq> ds_owner ds
             \<or> tenant \<noteq> sc_tenant_id (tg_context request) \<or> sandbox \<noteq> tg_sandbox_id request
          then Inl Denied
          else if running = ''true'' then Inr (Some \<lparr>oc_docker_id = docker_id, oc_running = True\<rparr>)
          else if running = ''false'' then Inr (Some \<lparr>oc_docker_id = docker_id, oc_running = False\<rparr>)
          else Inl OperationFailed
      | _ \<Rightarrow> Inl Denied)"

definition inspect_owned :: "'w process_library \<Rightarrow> docker_sandbox \<Rightarrow> target_request
    \<Rightarrow> (owned_container option, sandbox_error, 'w) st" where
  "inspect_owned lib ds request =
     st_then (run_cli lib ds (inspect_args ds (tg_sandbox_id request)) CONTROL_TIMEOUT) (\<lambda>output.
       st_of (owned_fields ds request output))"

definition remove_owned :: "'w process_library \<Rightarrow> docker_sandbox \<Rightarrow> target_request \<Rightarrow> (bool, sandbox_error, 'w) st" where
  "remove_owned lib ds request =
     st_then (st_map_err (\<lambda>_. OutcomeUnknown) (inspect_owned lib ds request)) (\<lambda>found.
       case found of
         None \<Rightarrow> st_of (Inr False)
       | Some owned \<Rightarrow> st_then (run_cli lib ds (rm_args ds (oc_docker_id owned)) CONTROL_TIMEOUT) (\<lambda>output.
           st_of (if co_code output = 0 then Inr True else Inl OutcomeUnknown)))"

definition compensate_start :: "'w process_library \<Rightarrow> docker_sandbox \<Rightarrow> target_request \<Rightarrow> (unit, sandbox_error, 'w) st" where
  "compensate_start lib ds request = st_then (remove_owned lib ds request) (\<lambda>_. st_of (Inr ()))"

definition started :: "string \<Rightarrow> bool \<Rightarrow> start_result" where
  "started i running = \<lparr>so_sandbox_id = i, so_status = (if running then Running else Stopped)\<rparr>"

definition start_container :: "'w process_library \<Rightarrow> docker_sandbox \<Rightarrow> target_request \<Rightarrow> docker_profile
    \<Rightarrow> (start_result, sandbox_error, 'w) st" where
  "start_container lib ds target profile =
     (let i = tg_sandbox_id target in
      st_match (run_cli lib ds (run_args ds profile (sc_tenant_id (tg_context target)) i) CONTROL_TIMEOUT) (\<lambda>r.
        if (case r of Inl _ \<Rightarrow> False | Inr output \<Rightarrow> co_code output = 0 \<and> canonical_docker_id (trim (co_stdout output)))
        then st_of (Inr (started i True))
        else st_match (inspect_owned lib ds target) (\<lambda>found. case found of
            Inr (Some owned) \<Rightarrow> st_of (Inr (started i (oc_running owned)))
          | Inr None \<Rightarrow> st_then (st_map_err (\<lambda>_. OutcomeUnknown) (compensate_start lib ds target)) (\<lambda>_.
              st_of (Inl OperationFailed))
          | Inl e \<Rightarrow> st_of (Inl e))))"

definition docker_start :: "(string \<Rightarrow> string) \<Rightarrow> 'w process_library \<Rightarrow> docker_sandbox \<Rightarrow> start_request
    \<Rightarrow> (start_result, sandbox_error, 'w) st" where
  "docker_start sha256_hex lib ds request =
     st_then (st_of (ok_or (bt_get (ds_profiles ds) (sr_profile_id request)) InvalidRequest)) (\<lambda>profile.
     st_then (st_of (derived_id sha256_hex ds request)) (\<lambda>i.
       let target = \<lparr>tg_context = sr_context request, tg_sandbox_id = i\<rparr> in
       st_then (inspect_owned lib ds target) (\<lambda>found. case found of
           Some owned \<Rightarrow> st_of (Inr (started i (oc_running owned)))
         | None \<Rightarrow> start_container lib ds target profile)))"

definition docker_execute :: "'w process_library \<Rightarrow> docker_sandbox \<Rightarrow> execute_request
    \<Rightarrow> (execute_result, sandbox_error, 'w) st" where
  "docker_execute lib ds request =
     (let target = \<lparr>tg_context = xr_context request, tg_sandbox_id = xr_sandbox_id request\<rparr> in
      st_then (inspect_owned lib ds target) (\<lambda>found.
      st_then (st_of (ok_or found NotFound)) (\<lambda>owned.
        if \<not> oc_running owned then st_of (Inl NotFound)
        else st_match (run_cli lib ds (exec_args ds (oc_docker_id owned) (xr_command request))
            (unat (cm_timeout_millis (xr_command request)))) (\<lambda>r. case r of
              Inr output \<Rightarrow> st_of (Inr \<lparr>xo_sandbox_id = xr_sandbox_id request, xo_exit_code = co_code output,
                xo_stdout = co_stdout output, xo_stderr = co_stderr output, xo_truncated = False\<rparr>)
            | Inl e \<Rightarrow>
                if e = Timeout \<or> e = LimitExceeded
                then st_then (st_map_err (\<lambda>_. OutcomeUnknown) (remove_owned lib ds target)) (\<lambda>_. st_of (Inl e))
                else st_of (Inl e)))))"

definition docker_status :: "'w process_library \<Rightarrow> docker_sandbox \<Rightarrow> target_request
    \<Rightarrow> (status_result, sandbox_error, 'w) st" where
  "docker_status lib ds request =
     st_then (inspect_owned lib ds request) (\<lambda>found.
     st_then (st_of (ok_or found NotFound)) (\<lambda>owned.
       st_of (Inr \<lparr>to_sandbox_id = tg_sandbox_id request, to_status = (if oc_running owned then Running else Stopped)\<rparr>)))"

definition docker_stop :: "'w process_library \<Rightarrow> docker_sandbox \<Rightarrow> target_request \<Rightarrow> (stop_result, sandbox_error, 'w) st" where
  "docker_stop lib ds request =
     st_then (remove_owned lib ds request) (\<lambda>removed.
       st_of (Inr \<lparr>po_sandbox_id = tg_sandbox_id request, po_removed = removed\<rparr>))"

definition docker_port :: "(string \<Rightarrow> string) \<Rightarrow> 'w process_library \<Rightarrow> docker_sandbox \<Rightarrow> 'w sandbox_port" where
  "docker_port sha256_hex lib ds = \<lparr>port_start = docker_start sha256_hex lib ds, port_execute = docker_execute lib ds,
     port_status = docker_status lib ds, port_stop = docker_stop lib ds\<rparr>"

end
