(* ===== verification/Docker_Properties.thy ===== *)
theory Docker_Properties
  imports Docker
begin

text \<open>
  What the Docker adapter asks of the command line, whatever the command line answers: containers
  are executed in or removed only by an identifier that an inspection of the same call reported to
  carry the labels of the owner, the tenant and the sandbox. Working directories stay below the
  workspace, outputs are bounded, and sandbox events become valid telemetry.
\<close>

section \<open>Traces of commands\<close>

type_synonym cli_trace = "(string list \<times> process_outcome) list"

definition logged_cli :: "'w process_library \<Rightarrow> ('w \<times> cli_trace) process_library" where
  "logged_cli lib = \<lparr>pl_run = (\<lambda>exe args timeout (w, log).
       case pl_run lib exe args timeout w of (outcome, w') \<Rightarrow> (outcome, (w', log @ [(args, outcome)]))),
     pl_kill = (\<lambda>(w, log). (pl_kill lib w, log))\<rparr>"

lemma traces_run_cli:
  "traces (run_cli (logged_cli lib) ds args timeout) (\<lambda>r t. \<exists>outcome. t = [(args, outcome)] \<and> r = fst (cli_result outcome))"
  by (auto simp: traces_def run_cli_def logged_cli_def split: prod.splits)

text \<open>What an inspection says: the container with this identifier carries the three labels.\<close>

definition reports_owned :: "docker_sandbox \<Rightarrow> target_request \<Rightarrow> process_outcome \<Rightarrow> string \<Rightarrow> bool" where
  "reports_owned ds target outcome docker_id \<longleftrightarrow>
     (\<exists>output running. fst (cli_result outcome) = Inr output \<and> co_code output = 0 \<and> canonical_docker_id docker_id
        \<and> split_on CHR ''|'' (trim (co_stdout output))
            = [docker_id, ds_owner ds, sc_tenant_id (tg_context target), tg_sandbox_id target, running])"

lemma owned_fields_Some:
  assumes "owned_fields ds target output = Inr (Some c)" "fst (cli_result outcome) = Inr output"
  shows "reports_owned ds target outcome (oc_docker_id c)"
  using assms by (auto simp: owned_fields_def reports_owned_def split: if_splits list.splits)

text \<open>Which commands may follow, once the inspections have reported some identifiers.\<close>

definition allowed_command :: "docker_sandbox \<Rightarrow> target_request \<Rightarrow> docker_profile set \<Rightarrow> command set \<Rightarrow> string set
    \<Rightarrow> string list \<Rightarrow> bool" where
  "allowed_command ds target profiles commands reported args \<longleftrightarrow>
     args = inspect_args ds (tg_sandbox_id target)
     \<or> (\<exists>p\<in>profiles. args = run_args ds p (sc_tenant_id (tg_context target)) (tg_sandbox_id target))
     \<or> (\<exists>d\<in>reported. args = rm_args ds d \<or> (\<exists>c\<in>commands. args = exec_args ds d c))"

definition reported_ids :: "docker_sandbox \<Rightarrow> target_request \<Rightarrow> cli_trace \<Rightarrow> string set" where
  "reported_ids ds target t =
     {d. \<exists>outcome. (inspect_args ds (tg_sandbox_id target), outcome) \<in> set t \<and> reports_owned ds target outcome d}"

definition confined :: "docker_sandbox \<Rightarrow> target_request \<Rightarrow> docker_profile set \<Rightarrow> command set \<Rightarrow> cli_trace \<Rightarrow> bool" where
  "confined ds target profiles commands t \<longleftrightarrow>
     (\<forall>pre args outcome post. t = pre @ (args, outcome) # post
        \<longrightarrow> allowed_command ds target profiles commands (reported_ids ds target pre) args)"

lemma confined_Nil: "confined ds target P C []"
  by (simp add: confined_def)

lemma confined_snoc:
  "confined ds target P C (t @ [(args, outcome)]) \<longleftrightarrow>
     confined ds target P C t \<and> allowed_command ds target P C (reported_ids ds target t) args"
proof -
  have "t @ [(args, outcome)] = pre @ (a, x) # post \<longleftrightarrow>
      (post = [] \<and> pre = t \<and> a = args \<and> x = outcome) \<or> (\<exists>post'. post = post' @ [(args, outcome)] \<and> t = pre @ (a, x) # post')"
    for pre a x post by (cases post rule: rev_cases) auto
  then show ?thesis by (auto simp: confined_def)
qed

lemma reported_snoc:
  "reported_ids ds target (t @ [(inspect_args ds (tg_sandbox_id target), outcome)])
     = reported_ids ds target t \<union> {d. reports_owned ds target outcome d}"
  by (auto simp: reported_ids_def)

lemma confined_inspect:
  "confined ds target P C t \<Longrightarrow> confined ds target P C (t @ [(inspect_args ds (tg_sandbox_id target), outcome)])"
  by (simp add: confined_snoc allowed_command_def)

abbreviation grown :: "docker_sandbox \<Rightarrow> target_request \<Rightarrow> docker_profile set \<Rightarrow> command set \<Rightarrow> cli_trace \<Rightarrow> cli_trace \<Rightarrow> bool" where
  "grown ds target P C t0 t \<equiv> confined ds target P C t \<and> reported_ids ds target t0 \<subseteq> reported_ids ds target t"

lemma runs_run_cli:
  assumes "confined ds target P C t" "allowed_command ds target P C (reported_ids ds target t) args"
  shows "runs (run_cli (logged_cli lib) ds args timeout) t (\<lambda>r s. grown ds target P C t s)"
  unfolding runs_def
  by (rule traces_mono [OF traces_run_cli]) (use assms in \<open>auto simp: confined_snoc reported_ids_def\<close>)

lemma runs_inspect:
  assumes "confined ds target P C t"
  shows "runs (inspect_owned (logged_cli lib) ds target) t (\<lambda>r s. grown ds target P C t s
    \<and> (\<forall>c. r = Inr (Some c) \<longrightarrow> oc_docker_id c \<in> reported_ids ds target s))"
  unfolding inspect_owned_def
proof (rule runs_then [where P = "\<lambda>r s. \<exists>outcome. s = t @ [(inspect_args ds (tg_sandbox_id target), outcome)]
    \<and> r = fst (cli_result outcome)"])
  show "runs (run_cli (logged_cli lib) ds (inspect_args ds (tg_sandbox_id target)) CONTROL_TIMEOUT) t
    (\<lambda>r s. \<exists>outcome. s = t @ [(inspect_args ds (tg_sandbox_id target), outcome)] \<and> r = fst (cli_result outcome))"
    unfolding runs_def by (rule traces_mono [OF traces_run_cli]) auto
qed (use assms owned_fields_Some confined_inspect in
    \<open>fastforce intro!: runs_of simp: reported_snoc\<close>)+

lemma runs_remove:
  assumes "confined ds target P C t"
  shows "runs (remove_owned (logged_cli lib) ds target) t (\<lambda>r s. grown ds target P C t s)"
  unfolding remove_owned_def
proof (rule runs_then_err [OF runs_inspect [OF assms]])
  fix found s
  assume "grown ds target P C t s \<and> (\<forall>c. Inr found = Inr (Some c) \<longrightarrow> oc_docker_id c \<in> reported_ids ds target s)"
  then have conf: "confined ds target P C s" and sub: "reported_ids ds target t \<subseteq> reported_ids ds target s"
    and owned: "\<And>c. found = Some c \<Longrightarrow> allowed_command ds target P C (reported_ids ds target s) (rm_args ds (oc_docker_id c))"
    by (auto simp: allowed_command_def)
  show "runs (case found of None \<Rightarrow> st_of (Inr False)
      | Some owned \<Rightarrow> st_then (run_cli (logged_cli lib) ds (rm_args ds (oc_docker_id owned)) CONTROL_TIMEOUT)
          (\<lambda>output. st_of (if co_code output = 0 then Inr True else Inl OutcomeUnknown))) s
    (\<lambda>r s. grown ds target P C t s)"
    using conf sub by (auto intro!: runs_of runs_then [OF runs_run_cli [OF conf owned]] split: option.split)
qed auto


section \<open>The operations are confined\<close>

lemma runs_compensate:
  "confined ds target P C t \<Longrightarrow> runs (compensate_start (logged_cli lib) ds target) t (\<lambda>r s. confined ds target P C s)"
  unfolding compensate_start_def by (rule runs_then [OF runs_remove]) (auto intro: runs_of)

lemma runs_start_container:
  assumes "confined ds target P C t" "profile \<in> P"
  shows "runs (start_container (logged_cli lib) ds target profile) t (\<lambda>r s. confined ds target P C s)"
  unfolding start_container_def Let_def
proof (rule runs_match [OF runs_run_cli [OF assms(1)]])
  show "allowed_command ds target P C (reported_ids ds target t)
      (run_args ds profile (sc_tenant_id (tg_context target)) (tg_sandbox_id target))"
    using assms(2) by (auto simp: allowed_command_def)
next
  fix r s
  assume "grown ds target P C t s"
  then have conf: "confined ds target P C s" by simp
  have "runs (st_match (inspect_owned (logged_cli lib) ds target) (\<lambda>found. case found of
            Inr (Some owned) \<Rightarrow> st_of (Inr (started (tg_sandbox_id target) (oc_running owned)))
          | Inr None \<Rightarrow> st_then (st_map_err (\<lambda>_. OutcomeUnknown) (compensate_start (logged_cli lib) ds target)) (\<lambda>_.
              st_of (Inl OperationFailed))
          | Inl e \<Rightarrow> st_of (Inl e))) s (\<lambda>r s. confined ds target P C s)"
    by (rule runs_match [OF runs_inspect [OF conf]])
      (auto intro!: runs_of runs_then_err [OF runs_compensate] split: sum.split option.split)
  with conf show "runs (if case r of Inl x \<Rightarrow> False
          | Inr output \<Rightarrow> co_code output = 0 \<and> canonical_docker_id (trim (co_stdout output))
       then st_of (Inr (started (tg_sandbox_id target) True))
       else st_match (inspect_owned (logged_cli lib) ds target) (\<lambda>found. case found of
            Inr (Some owned) \<Rightarrow> st_of (Inr (started (tg_sandbox_id target) (oc_running owned)))
          | Inr None \<Rightarrow> st_then (st_map_err (\<lambda>_. OutcomeUnknown) (compensate_start (logged_cli lib) ds target)) (\<lambda>_.
              st_of (Inl OperationFailed))
          | Inl e \<Rightarrow> st_of (Inl e))) s (\<lambda>r s. confined ds target P C s)"
    by (auto intro: runs_of)
qed

lemma runs_start:
  assumes "derived_id sha256_hex ds request = Inr i"
  shows "runs (docker_start sha256_hex (logged_cli lib) ds request) []
    (\<lambda>r s. confined ds \<lparr>tg_context = sr_context request, tg_sandbox_id = i\<rparr> (snd ` set (ds_profiles ds)) {} s)"
  unfolding docker_start_def Let_def
proof (intro runs_of_then)
  fix profile j
  assume profile: "ok_or (bt_get (ds_profiles ds) (sr_profile_id request)) InvalidRequest = Inr profile"
    and j: "derived_id sha256_hex ds request = Inr j"
  from profile have mem: "profile \<in> snd ` set (ds_profiles ds)" by (force simp: ok_or_Inr dest: map_of_SomeD)
  from j assms have i: "j = i" by simp
  show "runs (st_then (inspect_owned (logged_cli lib) ds \<lparr>tg_context = sr_context request, tg_sandbox_id = j\<rparr>)
      (\<lambda>found. case found of Some owned \<Rightarrow> st_of (Inr (started j (oc_running owned)))
        | None \<Rightarrow> start_container (logged_cli lib) ds \<lparr>tg_context = sr_context request, tg_sandbox_id = j\<rparr> profile)) []
    (\<lambda>r s. confined ds \<lparr>tg_context = sr_context request, tg_sandbox_id = i\<rparr> (snd ` set (ds_profiles ds)) {} s)"
    unfolding i
    by (rule runs_then [OF runs_inspect [OF confined_Nil]])
      (auto intro!: runs_of runs_start_container mem split: option.split)
qed (auto simp: confined_Nil)

lemma runs_execute:
  "runs (docker_execute (logged_cli lib) ds request) []
    (\<lambda>r s. confined ds \<lparr>tg_context = xr_context request, tg_sandbox_id = xr_sandbox_id request\<rparr> {} {xr_command request} s)"
  unfolding docker_execute_def Let_def
proof (rule runs_then [OF runs_inspect [OF confined_Nil]])
  let ?target = "\<lparr>tg_context = xr_context request, tg_sandbox_id = xr_sandbox_id request\<rparr>"
  let ?C = "{xr_command request}"
  fix found s
  assume found: "grown ds ?target {} ?C [] s
    \<and> (\<forall>c. Inr found = Inr (Some c) \<longrightarrow> oc_docker_id c \<in> reported_ids ds ?target s)"
  then have conf: "confined ds ?target {} ?C s" by simp
  have exec: "allowed_command ds ?target {} ?C (reported_ids ds ?target s) (exec_args ds (oc_docker_id c) (xr_command request))"
    if "ok_or found NotFound = Inr c" for c
    using that found by (auto simp: ok_or_Inr allowed_command_def)
  show "runs (st_then (st_of (ok_or found NotFound)) (\<lambda>owned.
        if \<not> oc_running owned then st_of (Inl NotFound)
        else st_match (run_cli (logged_cli lib) ds (exec_args ds (oc_docker_id owned) (xr_command request))
            (unat (cm_timeout_millis (xr_command request)))) (\<lambda>r. case r of
              Inl e \<Rightarrow>
                if e = Timeout \<or> e = LimitExceeded
                then st_then (st_map_err (\<lambda>_. OutcomeUnknown) (remove_owned (logged_cli lib) ds ?target)) (\<lambda>_. st_of (Inl e))
                else st_of (Inl e)
            | Inr output \<Rightarrow> st_of (Inr \<lparr>xo_sandbox_id = xr_sandbox_id request, xo_exit_code = co_code output,
                xo_stdout = co_stdout output, xo_stderr = co_stderr output, xo_truncated = False\<rparr>)))) s
    (\<lambda>r s. confined ds ?target {} ?C s)"
    using conf by (intro runs_of_then)
      (auto intro!: runs_of runs_match [OF runs_run_cli [OF conf exec]] runs_then_err [OF runs_remove] split: sum.split)
qed simp

lemma runs_status: "runs (docker_status (logged_cli lib) ds request) [] (\<lambda>r s. confined ds request {} {} s)"
  unfolding docker_status_def
  by (rule runs_then [OF runs_inspect [OF confined_Nil]]) (auto intro!: runs_of_then runs_of)

lemma runs_stop: "runs (docker_stop (logged_cli lib) ds request) [] (\<lambda>r s. confined ds request {} {} s)"
  unfolding docker_stop_def by (rule runs_then [OF runs_remove [OF confined_Nil]]) (auto intro!: runs_of)


fun issue :: "(string \<Rightarrow> string) \<Rightarrow> 'w process_library \<Rightarrow> docker_sandbox \<Rightarrow> sandbox_call \<Rightarrow> 'w \<Rightarrow> 'w" where
  "issue sha256_hex lib ds (StartCall q) w = snd (port_start (docker_port sha256_hex lib ds) q w)"
| "issue sha256_hex lib ds (ExecuteCall q) w = snd (port_execute (docker_port sha256_hex lib ds) q w)"
| "issue sha256_hex lib ds (StatusCall q) w = snd (port_status (docker_port sha256_hex lib ds) q w)"
| "issue sha256_hex lib ds (StopCall q) w = snd (port_stop (docker_port sha256_hex lib ds) q w)"

fun call_target :: "(string \<Rightarrow> string) \<Rightarrow> docker_sandbox \<Rightarrow> sandbox_call \<Rightarrow> target_request option" where
  "call_target sha256_hex ds (StartCall q) = (case derived_id sha256_hex ds q of Inl _ \<Rightarrow> None
     | Inr i \<Rightarrow> Some \<lparr>tg_context = sr_context q, tg_sandbox_id = i\<rparr>)"
| "call_target sha256_hex ds (ExecuteCall q) = Some \<lparr>tg_context = xr_context q, tg_sandbox_id = xr_sandbox_id q\<rparr>"
| "call_target sha256_hex ds (StatusCall q) = Some q"
| "call_target sha256_hex ds (StopCall q) = Some q"

fun call_profiles :: "docker_sandbox \<Rightarrow> sandbox_call \<Rightarrow> docker_profile set" where
  "call_profiles ds (StartCall q) = snd ` set (ds_profiles ds)"
| "call_profiles ds _ = {}"

fun call_commands :: "sandbox_call \<Rightarrow> command set" where
  "call_commands (ExecuteCall q) = {xr_command q}"
| "call_commands _ = {}"

lemma runs_snd:
  assumes "runs m [] (\<lambda>r s. Q s)" and "snd (m (w, [])) = (w', t)"
  shows "Q t"
  using assms by (metis append_Nil runsD surjective_pairing)

lemma issue_confined:
  assumes "call_target sha256_hex ds call = Some target" "issue sha256_hex (logged_cli lib) ds call (w, []) = (w', t)"
  shows "confined ds target (call_profiles ds call) (call_commands call) t"
  using assms
  by (cases call)
    (auto simp: docker_port_def split: sum.splits
      intro: runs_snd [OF runs_start] runs_snd [OF runs_execute] runs_snd [OF runs_status] runs_snd [OF runs_stop])

text \<open>C15: The Docker adapter acts only on containers it owns, whatever the command line answers. Every
  command of a call is an inspection of the sandbox's own name, or, in a start, the creation of a
  container under that name with the tenant's labels and a configured profile, or it removes or
  executes in a container whose identifier an earlier inspection of the same call reported with
  the labels of this owner, this tenant and this sandbox; only an execute executes, and only the
  requested command.\<close>

theorem docker_acts_on_owned_containers:
  assumes "call_target sha256_hex ds call = Some target"
    and "issue sha256_hex (logged_cli lib) ds call (w, []) = (w', t)"
    and "t = before @ (args, outcome) # after"
  shows "args = inspect_args ds (tg_sandbox_id target)
    \<or> (\<exists>q p. call = StartCall q \<and> p \<in> snd ` set (ds_profiles ds)
        \<and> args = run_args ds p (sc_tenant_id (tg_context target)) (tg_sandbox_id target))
    \<or> (\<exists>d inspected. (inspect_args ds (tg_sandbox_id target), inspected) \<in> set before
        \<and> reports_owned ds target inspected d
        \<and> (args = rm_args ds d \<or> (\<exists>q. call = ExecuteCall q \<and> args = exec_args ds d (xr_command q))))"
proof -
  from issue_confined [OF assms(1,2)] assms(3) have
    "allowed_command ds target (call_profiles ds call) (call_commands call) (reported_ids ds target before) args"
    by (simp add: confined_def)
  then show ?thesis by (cases call) (auto simp: allowed_command_def reported_ids_def)
qed

text \<open>A Docker that knows one container, and a stop of it.\<close>

definition sample_sandbox :: docker_sandbox where
  "sample_sandbox = \<lparr>ds_executable = ''/d'', ds_endpoint = ''unix:///s'', ds_owner = ''o'', ds_profiles = []\<rparr>"

definition sample_target :: target_request where
  "sample_target = \<lparr>tg_context = \<lparr>sc_tenant_id = ''t'', sc_principal_id = ''p'', sc_request_id = ''r'',
     sc_correlation_id = ''c''\<rparr>, tg_sandbox_id = ''sbx''\<rparr>"

definition sample_id :: string where
  "sample_id = replicate 64 CHR ''a''"

definition sample_answer :: "string list \<Rightarrow> process_outcome" where
  "sample_answer args = \<lparr>pr_started = True, pr_deadline = True, pr_communicates = True,
     pr_read = Inr (if ''inspect'' \<in> set args then sample_id @ ''|o|t|sbx|true'' else sample_id, []), pr_wait = Inr (Some (Some 0))\<rparr>"

definition sample_library :: "unit process_library" where
  "sample_library = \<lparr>pl_run = (\<lambda>exe args timeout w. (sample_answer args, w)), pl_kill = id\<rparr>"

definition sample_inspect :: "string list" where
  "sample_inspect = inspect_args sample_sandbox (tg_sandbox_id sample_target)"

definition sample_rm :: "string list" where
  "sample_rm = rm_args sample_sandbox sample_id"

lemma sample_id_chars: "\<forall>c\<in>set sample_id. c = CHR ''a''" and sample_id_length: "length sample_id = 64"
  by (simp_all add: sample_id_def)

lemma sample_plain: "\<forall>c\<in>set (sample_id @ ''|o|t|sbx|true''). byte_in 0 0x7F c \<and> \<not> continuation_byte c \<and> \<not> blank [c]"
proof -
  have "\<forall>c\<in>set ''a|o|t|sbx|true''. byte_in 0 0x7F c \<and> \<not> continuation_byte c \<and> \<not> blank [c]"
    by (simp add: byte_in_def continuation_byte_def less_eq_char_def)
  moreover have "set (sample_id @ ''|o|t|sbx|true'') \<subseteq> set ''a|o|t|sbx|true''"
    using sample_id_chars by (auto simp del: set_replicate)
  ultimately show ?thesis by blast
qed

lemma sample_owned:
  "owned_fields sample_sandbox sample_target \<lparr>co_code = 0, co_stdout = sample_id @ ''|o|t|sbx|true'', co_stderr = []\<rparr>
     = Inr (Some \<lparr>oc_docker_id = sample_id, oc_running = True\<rparr>)"
proof -
  have "trim (sample_id @ ''|o|t|sbx|true'') = sample_id @ ''|o|t|sbx|true''"
    using sample_plain by (intro trim_unspaced) (simp_all del: blank.simps)
  moreover have "split_on CHR ''|'' (sample_id @ ''|o|t|sbx|true'') = [sample_id, ''o'', ''t'', ''sbx'', ''true'']"
    using sample_id_chars by (subst split_on_append) auto
  moreover have "canonical_docker_id sample_id"
    using sample_id_length by (simp add: canonical_docker_id_def sample_id_def list_all_iff lower_hex_def less_eq_char_def)
  ultimately show ?thesis by (simp add: owned_fields_def sample_sandbox_def sample_target_def)
qed

lemma sample_results:
  "cli_result (sample_answer sample_inspect)
     = (Inr \<lparr>co_code = 0, co_stdout = sample_id @ ''|o|t|sbx|true'', co_stderr = []\<rparr>, False)"
  "cli_result (sample_answer sample_rm) = (Inr \<lparr>co_code = 0, co_stdout = sample_id, co_stderr = []\<rparr>, False)"
proof -
  have "\<forall>c\<in>set (sample_id @ ''|o|t|sbx|true''). byte_in 0 0x7F c" "\<forall>c\<in>set sample_id. byte_in 0 0x7F c"
    using sample_plain by (metis, metis Un_iff set_append)
  then have "from_utf8_lossy (sample_id @ ''|o|t|sbx|true'') = sample_id @ ''|o|t|sbx|true''"
    "from_utf8_lossy sample_id = sample_id" by (simp_all only: from_utf8_lossy_ascii)
  moreover have "length sample_id \<noteq> length ''inspect''" by (simp add: sample_id_length)
  then have "sample_id \<noteq> ''inspect''" by metis
  then have "''inspect'' \<in> set sample_inspect" "''inspect'' \<notin> set sample_rm"
    by (auto simp: sample_inspect_def sample_rm_def inspect_args_def rm_args_def base_args_def sample_sandbox_def)
  ultimately show
    "cli_result (sample_answer sample_inspect)
       = (Inr \<lparr>co_code = 0, co_stdout = sample_id @ ''|o|t|sbx|true'', co_stderr = []\<rparr>, False)"
    "cli_result (sample_answer sample_rm) = (Inr \<lparr>co_code = 0, co_stdout = sample_id, co_stderr = []\<rparr>, False)"
    by (simp_all add: cli_result_def sample_answer_def exit_code_def MAX_OUTPUT_BYTES_def sample_id_length)
qed

lemma sample_stop:
  "issue id (logged_cli sample_library) sample_sandbox (StopCall sample_target) ((), [])
     = ((), [(sample_inspect, sample_answer sample_inspect), (sample_rm, sample_answer sample_rm)])"
  by (simp add: docker_port_def docker_stop_def remove_owned_def inspect_owned_def st_then_def st_map_err_def st_of_def
      run_cli_def logged_cli_def sample_library_def sample_results sample_owned
      flip: sample_inspect_def sample_rm_def)

theorem docker_acts_on_owned_containers_witness:
  "\<exists>d inspected. (inspect_args sample_sandbox (tg_sandbox_id sample_target), inspected)
        \<in> set [(sample_inspect, sample_answer sample_inspect)]
     \<and> reports_owned sample_sandbox sample_target inspected d \<and> sample_rm = rm_args sample_sandbox d"
proof -
  have "sample_rm \<noteq> inspect_args sample_sandbox (tg_sandbox_id sample_target)"
    by (simp add: sample_rm_def rm_args_def inspect_args_def base_args_def)
  moreover have "snd ` set (ds_profiles sample_sandbox) = {}" by (simp add: sample_sandbox_def)
  ultimately show ?thesis
    using docker_acts_on_owned_containers [OF _ sample_stop, of sample_target "[(sample_inspect, sample_answer sample_inspect)]"
        sample_rm "sample_answer sample_rm" "[]"]
    by auto
qed

end
