(* ===== verification/Sandbox_Properties.thy ===== *)
theory Sandbox_Properties
  imports Docker_Properties
begin

text \<open>
  Commands accepted by the sandbox are bounded and run below the workspace of the container, and
  the events of the service become valid telemetry when the identifiers are those the sandbox
  accepts.
\<close>

section \<open>Commands\<close>

lemma path_parts_normal:
  "list_all is_normal (path_parts True parts) \<Longrightarrow> path_parts False parts = path_parts True parts"
  by (cases parts) auto

lemma path_components_workspace:
  "path_components (''/workspace/'' @ s) = RootDir # Normal ''workspace'' # path_parts False (split_on CHR ''/'' s)"
proof -
  have "split_on CHR ''/'' (''/workspace/'' @ s) = [] # ''workspace'' # split_on CHR ''/'' s"
    using split_on_append [of "CHR ''/''" "''workspace''" s] by simp
  then show ?thesis by (simp add: path_components_def is_absolute_def)
qed

lemma relative_path_parts:
  assumes "relative_path s" "s \<noteq> []"
  shows "path_parts False (split_on CHR ''/'' s) = path_components s \<and> list_all is_normal (path_components s)"
  using assms path_parts_normal [of "split_on CHR ''/'' s"]
  by (auto simp: relative_path_def path_components_def split: if_splits)

lemma workdir_components:
  assumes "relative_path (cm_working_directory c)"
  shows "\<exists>parts. path_components (workdir_of c) = RootDir # Normal ''workspace'' # parts \<and> list_all is_normal parts"
proof (cases "cm_working_directory c = []")
  case True
  have "path_components ''/workspace'' = [RootDir, Normal ''workspace'']" by code_simp
  with True show ?thesis by (simp add: workdir_of_def)
next
  case False
  note parts = relative_path_parts [OF assms False]
  have
    "path_components (workdir_of c) = RootDir # Normal ''workspace'' # path_components (cm_working_directory c)"
    "list_all is_normal (path_components (cm_working_directory c))"
    using parts by (simp_all only: workdir_of_def False if_False path_components_workspace conjunct1 [OF parts])
  then show ?thesis by blast
qed

lemma sum_arguments:
  "try_fold (\<lambda>total v. ok_or (usize_checked_add total (length v)) LimitExceeded) n vs = Inr m
     \<Longrightarrow> m = n + sum_list (map length vs)"
proof (induction vs arbitrary: n)
  case (Cons v vs)
  then show ?case
    by (auto simp: usize_checked_add_def ok_or_Inr split: if_splits simp flip: add.assoc)
qed simp

text \<open>C37: A command the sandbox accepts is bounded and stays in its workspace: the program is not
  empty, there are at most 32 arguments of at most 4096 bytes each and 16384 bytes in total, the
  timeout is between one millisecond and five minutes, nothing contains a zero byte, and the
  working directory passed to Docker resolves, component by component, to a directory below
  \<open>/workspace\<close> without a single parent or current-directory step.\<close>

theorem accepted_command_confined:
  assumes "command_new program arguments working_directory timeout_millis = Inr c"
  shows "program \<noteq> [] \<and> length program \<le> 256 \<and> length arguments \<le> 32
    \<and> sum_list (map length arguments) \<le> 16384 \<and> (\<forall>a\<in>set arguments. length a \<le> 4096)
    \<and> CHR 0x00 \<notin> set program \<union> set working_directory \<union> \<Union> (set ` set arguments)
    \<and> 1 \<le> unat timeout_millis \<and> unat timeout_millis \<le> 300000
    \<and> (\<exists>parts. path_components (workdir_of c) = RootDir # Normal ''workspace'' # parts \<and> list_all is_normal parts)
    \<and> (\<exists>pre. exec_args ds docker_id c = pre @ [''--workdir'', workdir_of c, docker_id, program] @ arguments)"
proof -
  from assms obtain n where n: "try_fold (\<lambda>total v. ok_or (usize_checked_add total (length v)) LimitExceeded) 0 arguments = Inr n"
    by (auto simp: command_new_def and_then_Inr)
  with assms have c: "c = \<lparr>cm_program = program, cm_arguments = arguments, cm_working_directory = working_directory,
        cm_timeout_millis = timeout_millis\<rparr>"
    and rel: "relative_path working_directory" and t: "timeout_millis \<le> MAX_TIMEOUT_MILLIS" "timeout_millis > 0"
    and rest: "n \<le> MAX_ARGUMENTS_BYTES" "bounded_text program MAX_PROGRAM_BYTES False"
      "list_all (\<lambda>value. bounded_text value MAX_ARGUMENT_BYTES True) arguments" "length arguments \<le> MAX_ARGUMENTS"
    by (auto simp: command_new_def split: if_splits)
  have "unat timeout_millis \<le> 300000" "1 \<le> unat timeout_millis"
    using t by (auto simp: MAX_TIMEOUT_MILLIS_def word_le_nat_alt word_less_nat_alt)
  moreover have "\<exists>parts. path_components (workdir_of c) = RootDir # Normal ''workspace'' # parts \<and> list_all is_normal parts"
    by (rule workdir_components) (use rel c in simp)
  ultimately show ?thesis
    using rest rel sum_arguments [OF n]
    by (auto simp: c bounded_text_def relative_path_def list_all_iff MAX_ARGUMENTS_BYTES_def MAX_PROGRAM_BYTES_def
        MAX_ARGUMENT_BYTES_def MAX_ARGUMENTS_def exec_args_def)
qed

theorem accepted_command_confined_witness:
  "sum_list (map length [''-l'', ''src'']) \<le> 16384
    \<and> (\<exists>parts. path_components (workdir_of \<lparr>cm_program = ''ls'', cm_arguments = [''-l'', ''src''],
          cm_working_directory = ''a/./b'', cm_timeout_millis = 1000\<rparr>) = RootDir # Normal ''workspace'' # parts
        \<and> list_all is_normal parts)"
proof -
  have "relative_path ''a/./b''"
    by (simp add: relative_path_def bounded_text_def path_components_def is_absolute_def MAX_WORKING_DIRECTORY_BYTES_def)
  then have "command_new ''ls'' [''-l'', ''src''] ''a/./b'' 1000 = Inr \<lparr>cm_program = ''ls'', cm_arguments = [''-l'', ''src''],
      cm_working_directory = ''a/./b'', cm_timeout_millis = 1000\<rparr>"
    by (simp add: command_new_def bounded_text_def usize_checked_add_def usize_max_def MAX_PROGRAM_BYTES_def MAX_ARGUMENTS_def
        MAX_ARGUMENT_BYTES_def MAX_ARGUMENTS_BYTES_def MAX_WORKING_DIRECTORY_BYTES_def MAX_TIMEOUT_MILLIS_def)
  from accepted_command_confined [OF this] show ?thesis by blast
qed

section \<open>Events\<close>

lemma logical_id_tenant:
  assumes "logical_id s"
  shows "validate_tenant_id s = Inr ()"
proof -
  have "(\<lambda>b. lower_or_digit b \<or> b = CHR ''-'' \<or> b = CHR ''_'') = (\<lambda>b. lower_or_digit b \<or> b = CHR ''_'' \<or> b = CHR ''-'')"
    by auto
  with assms show ?thesis
    by (simp add: logical_id_def validate_tenant_id_def MAX_ID_BYTES_def MAX_IDENTIFIER_BYTES_def)
qed

lemmas label_defs = validate_label_def MAX_IDENTIFIER_BYTES_def ascii_defs lower_or_digit_def less_eq_char_def

lemma operation_name_valid: "validate_event_name (operation_name operation) = Inr ()"
  by (cases operation) (simp_all add: validate_event_name_def label_defs)

lemma event_target_valid: "validate_event_target EVENT_TARGET = Inr ()"
  by (simp add: validate_event_target_def EVENT_TARGET_def label_defs)

lemma attribute_keys_valid:
  "validate_attribute_key ''correlation_id'' = Inr ()" "validate_attribute_key ''sandbox_id'' = Inr ()"
  "validate_attribute_key ''status'' = Inr ()"
  by (simp_all add: validate_attribute_key_def label_defs)

lemma status_name_length: "length (status_name status) = 7"
  by (cases status) simp_all

lemma operation_name_length: "length (operation_name operation) \<le> 7"
  by (cases operation) simp_all

lemma event_attributes_cases:
  "event_attributes event = (''correlation_id'', se_correlation_id event)
     # (case se_sandbox_id event of None \<Rightarrow> [] | Some i \<Rightarrow> [(''sandbox_id'', i)])
     @ (case se_status event of None \<Rightarrow> [] | Some status \<Rightarrow> [(''status'', status_name status)])"
  by (simp add: event_attributes_def less_list_code less_char_def split: option.split)

text \<open>What the sandbox guarantees of the identifiers in an event.\<close>

definition event_ids_ok :: "sandbox_event \<Rightarrow> bool" where
  "event_ids_ok event \<longleftrightarrow> logical_id (se_tenant_id event) \<and> logical_id (se_correlation_id event)
     \<and> (case se_sandbox_id event of None \<Rightarrow> True | Some i \<Rightarrow> sandbox_id i)"

definition event_telemetry :: "sandbox_event \<Rightarrow> telemetry_event" where
  "event_telemetry event = \<lparr>te_name = operation_name (se_operation event), te_target = EVENT_TARGET, te_severity = Info,
     te_body = [], te_attributes = event_attributes event\<rparr>"

lemma event_telemetry_valid:
  assumes "event_ids_ok event"
  shows "validate_event (event_telemetry event) = Inr ()"
proof -
  have lens: "length (se_correlation_id event) \<le> 128" "\<And>i. se_sandbox_id event = Some i \<Longrightarrow> length i = 36"
    using assms by (auto simp: event_ids_ok_def logical_id_def sandbox_id_def MAX_ID_BYTES_def)
  then have "check_attributes (\<lambda>e. e) (event_attributes event) = Inr ()"
    by (auto simp: check_attributes_def check_attribute_def event_attributes_cases attribute_keys_valid status_name_length
        MAX_ATTRIBUTE_VALUE_BYTES_def split: option.split)
  moreover have "\<exists>n\<le>512. event_size (event_telemetry event) = Inr n"
    using lens operation_name_length [of "se_operation event"]
    by (auto simp: event_size_def event_telemetry_def event_attributes_cases add_attribute_def usize_checked_add_def
        usize_max_def status_name_length EVENT_TARGET_def split: option.split)
  moreover have "length (event_attributes event) \<le> 3"
    by (auto simp: event_attributes_cases split: option.split)
  ultimately show ?thesis
    by (auto simp: validate_event_def event_telemetry_def operation_name_valid event_target_valid MAX_BODY_BYTES_def
        MAX_ATTRIBUTES_def MAX_EVENT_BYTES_def)
qed

lemma try_emit_ok:
  assumes "event_ids_ok event" "\<not> es_may_block sink" "es_clock sink w = (Inr now, w1)"
  shows "try_emit sink event w =
    (case es_sink sink \<lparr>env_tenant_id = se_tenant_id event, env_timestamp = now, env_event = event_telemetry event\<rparr> w1 of
       (Inr _, w2) \<Rightarrow> (Accepted, w2) | (Inl _, w2) \<Rightarrow> (Dropped, w2))"
  using assms event_telemetry_valid [OF assms(1)] logical_id_tenant [of "se_tenant_id event"]
  by (simp add: try_emit_def bounded_name_new_def operation_name_valid event_target_valid telemetry_event_new_def Let_def
      event_ids_ok_def event_telemetry_def)

text \<open>The specification of an observed call: what the adapter does, and one envelope if it succeeds, the
  sink does not block and the clock answers.\<close>

definition envelope_of :: "sandbox_event \<Rightarrow> timestamp \<Rightarrow> telemetry_envelope" where
  "envelope_of event now = \<lparr>env_tenant_id = se_tenant_id event, env_timestamp = now, env_event = event_telemetry event\<rparr>"

definition observed :: "'w telemetry_event_sink \<Rightarrow> ('a \<Rightarrow> sandbox_event) \<Rightarrow> ('a, sandbox_error, 'w) st
    \<Rightarrow> ('a, sandbox_error, 'w) st" where
  "observed sink event_of m w =
     (case m w of
        (Inl e, w1) \<Rightarrow> (Inl e, w1)
      | (Inr a, w1) \<Rightarrow> if es_may_block sink then (Inr a, w1) else (case es_clock sink w1 of
          (Inl _, w2) \<Rightarrow> (Inr a, w2)
        | (Inr now, w2) \<Rightarrow> (Inr a, snd (es_sink sink (envelope_of (event_of a) now) w2))))"

definition event_in :: "sandbox_operation \<Rightarrow> sandbox_context \<Rightarrow> string \<Rightarrow> sandbox_status option \<Rightarrow> sandbox_event" where
  "event_in operation context i status = \<lparr>se_operation = operation, se_sandbox_id = Some i, se_status = status,
     se_tenant_id = sc_tenant_id context, se_correlation_id = sc_correlation_id context\<rparr>"

definition context_ok :: "sandbox_context \<Rightarrow> bool" where
  "context_ok context \<longleftrightarrow> logical_id (sc_tenant_id context) \<and> logical_id (sc_correlation_id context)"

lemma envelope_of_valid: "event_ids_ok event \<Longrightarrow> validate_envelope (envelope_of event now) = Inr ()"
  using logical_id_tenant event_telemetry_valid
  by (simp add: envelope_of_def validate_envelope_def event_ids_ok_def)

lemma try_emit_clock_fails: "es_clock sink w = (Inl e, w1) \<Longrightarrow> \<not> es_may_block sink
    \<Longrightarrow> event_ids_ok event \<Longrightarrow> snd (try_emit sink event w) = w1"
  using logical_id_tenant [of "se_tenant_id event"] by (simp add: try_emit_def bounded_name_new_def event_ids_ok_def)

lemma emitted:
  assumes "\<And>a w1. m w = (Inr a, w1) \<Longrightarrow> event_ids_ok (event_in operation context (i a) (status a))"
  shows "st_then m (\<lambda>a. service_emit_event (try_emit sink) operation context (Some (i a)) (status a) a) w
    = observed sink (\<lambda>a. event_in operation context (i a) (status a)) m w"
proof (cases "es_may_block sink")
  case True
  then have "try_emit sink event w1 = (Dropped, w1)" for event w1 by (simp add: try_emit_def)
  with True show ?thesis
    by (auto simp: st_then_def observed_def service_emit_event_def split: prod.split sum.split)
next
  case False
  then show ?thesis
    using assms try_emit_ok [of "event_in operation context (i a) (status a)" sink for a]
      try_emit_clock_fails [of sink _ _ _ "event_in operation context (i a) (status a)" for a]
    by (auto simp: st_then_def observed_def service_emit_event_def envelope_of_def event_in_def
        split: prod.split sum.split)
qed

lemma docker_start_id:
  assumes "docker_start sha256_hex lib ds q w = (Inr r, w1)"
  shows "sandbox_id (so_sandbox_id r)"
proof -
  have "sandbox_id i" if "derived_id sha256_hex ds q = Inr i" for i
    using that by (auto simp: derived_id_def sandbox_id_new_def split: if_splits)
  with assms show ?thesis
    by (auto simp: docker_start_def start_container_def st_then_def st_of_def st_match_def st_map_err_def started_def Let_def
        split: prod.splits sum.splits option.splits if_splits)
qed

lemma docker_status_id:
  "docker_status lib ds q w = (Inr r, w1) \<Longrightarrow> to_sandbox_id r = tg_sandbox_id q"
  by (auto simp: docker_status_def st_then_def st_of_def split: prod.splits sum.splits)

text \<open>C33: Observing the sandbox never changes it, and loses nothing to validation. The service over
  the Docker adapter, with its events sent to a telemetry sink, implements the specification of an
  observed call for each of its four operations when the identifiers of the request are ones the
  sandbox accepts: a failed call leaves no event; a successful one keeps the adapter's result
  whatever the sink does. If the sink does not block and its clock answers, a success passes exactly
  one envelope to the sink, which always satisfies the validation of the observability crate,
  carries the tenant of the request, and is the event of that operation; a sink that may block is
  given nothing, and neither is one whose clock fails.\<close>

theorem sandbox_calls_are_observed:
  fixes sink :: "'w telemetry_event_sink"
  assumes "context_ok context" and "sandbox_id i"
    and "service = sandbox_service (docker_port sha256_hex lib ds) (try_emit sink)"
    and "target = \<lparr>tg_context = context, tg_sandbox_id = i\<rparr>"
  shows "port_start service \<lparr>sr_context = context, sr_profile_id = profile\<rparr> w
        = observed sink (\<lambda>r. event_in OpStart context (so_sandbox_id r) (Some (so_status r)))
            (docker_start sha256_hex lib ds \<lparr>sr_context = context, sr_profile_id = profile\<rparr>) w
    \<and> port_execute service \<lparr>xr_context = context, xr_sandbox_id = i, xr_command = c\<rparr> w
        = observed sink (\<lambda>r. event_in OpExecute context i None)
            (docker_execute lib ds \<lparr>xr_context = context, xr_sandbox_id = i, xr_command = c\<rparr>) w
    \<and> port_status service target w
        = observed sink (\<lambda>r. event_in OpStatus context (to_sandbox_id r) (Some (to_status r))) (docker_status lib ds target) w
    \<and> port_stop service target w
        = observed sink (\<lambda>r. event_in OpStop context i (Some Stopped)) (docker_stop lib ds target) w
    \<and> validate_envelope (envelope_of (event_in operation context i status) now) = Inr ()
    \<and> env_tenant_id (envelope_of (event_in operation context i status) now) = sc_tenant_id context"
proof -
  have ids: "event_ids_ok (event_in operation context j status)" if "sandbox_id j" for operation j status
    using that assms(1) by (simp add: event_ids_ok_def event_in_def context_ok_def)
  have tenant: "env_tenant_id (envelope_of (event_in operation context i status) now) = sc_tenant_id context"
    by (simp add: envelope_of_def event_in_def)
  show ?thesis
    unfolding assms(3,4) sandbox_service_def docker_port_def
    using assms(2) ids by (auto simp: emitted docker_start_id docker_status_id envelope_of_valid tenant)
qed

definition sample_sink :: "telemetry_envelope list telemetry_event_sink" where
  "sample_sink = \<lparr>es_sink = (\<lambda>envelope log. (Inr (), log @ [envelope])), es_clock = (\<lambda>log. (Inr 7, log)), es_may_block = False\<rparr>"

text \<open>A command line tool that reports the container of the target as owned and removes it.\<close>

definition box :: string where
  "box = ''sbx-'' @ replicate 32 CHR ''0''"

definition box_report :: string where
  "box_report = sample_id @ ''|o|t|'' @ box @ ''|true''"

definition box_answer :: "string list \<Rightarrow> process_outcome" where
  "box_answer args = \<lparr>pr_started = True, pr_deadline = True, pr_communicates = True,
     pr_read = Inr (if ''inspect'' \<in> set args then box_report else sample_id, []), pr_wait = Inr (Some (Some 0))\<rparr>"

definition box_library :: "telemetry_envelope list process_library" where
  "box_library = \<lparr>pl_run = (\<lambda>exe args timeout w. (box_answer args, w)), pl_kill = id\<rparr>"

definition box_target :: target_request where
  "box_target = \<lparr>tg_context = tg_context sample_target, tg_sandbox_id = box\<rparr>"

lemma box_plain: "\<forall>c\<in>set box_report. byte_in 0 0x7F c \<and> \<not> continuation_byte c \<and> \<not> blank [c]"
proof -
  have "\<forall>c\<in>set ''a|ot|sbx-0|true''. byte_in 0 0x7F c \<and> \<not> continuation_byte c \<and> \<not> blank [c]"
    by (simp add: byte_in_def continuation_byte_def less_eq_char_def)
  moreover have "set box_report \<subseteq> set ''a|ot|sbx-0|true''" by (auto simp: box_report_def box_def sample_id_def)
  ultimately show ?thesis by blast
qed

lemma box_owned:
  "owned_fields sample_sandbox box_target \<lparr>co_code = 0, co_stdout = box_report, co_stderr = []\<rparr>
     = Inr (Some \<lparr>oc_docker_id = sample_id, oc_running = True\<rparr>)"
proof -
  have "trim box_report = box_report"
    using box_plain by (intro trim_unspaced) (simp_all add: box_report_def del: blank.simps)
  moreover have "split_on CHR ''|'' box_report = [sample_id, ''o'', ''t'', box, ''true'']"
  proof -
    have "split_on CHR ''|'' (box @ ''|true'') = [box, ''true'']" by (subst split_on_append) (auto simp: box_def)
    then have "split_on CHR ''|'' (''o|t|'' @ box @ ''|true'') = [''o'', ''t'', box, ''true'']" by simp
    moreover have "split_on CHR ''|'' (sample_id @ CHR ''|'' # ''o|t|'' @ box @ ''|true'') = sample_id # split_on CHR ''|'' (''o|t|'' @ box @ ''|true'')"
      using sample_id_chars by (intro split_on_append) auto
    ultimately show ?thesis by (simp add: box_report_def)
  qed
  moreover have "canonical_docker_id sample_id"
    using sample_id_length by (simp add: canonical_docker_id_def sample_id_def list_all_iff lower_hex_def less_eq_char_def)
  ultimately show ?thesis by (simp add: owned_fields_def sample_sandbox_def sample_target_def box_target_def)
qed

lemma box_results:
  "cli_result (box_answer (inspect_args sample_sandbox box)) = (Inr \<lparr>co_code = 0, co_stdout = box_report, co_stderr = []\<rparr>, False)"
  "cli_result (box_answer (rm_args sample_sandbox sample_id)) = (Inr \<lparr>co_code = 0, co_stdout = sample_id, co_stderr = []\<rparr>, False)"
proof -
  have "\<forall>c\<in>set box_report. byte_in 0 0x7F c" "\<forall>c\<in>set sample_id. byte_in 0 0x7F c"
    using box_plain by (simp_all add: box_report_def)
  then have "from_utf8_lossy box_report = box_report" "from_utf8_lossy sample_id = sample_id" by (simp_all only: from_utf8_lossy_ascii)
  moreover have "length sample_id \<noteq> length ''inspect''" by (simp add: sample_id_length)
  then have "sample_id \<noteq> ''inspect''" by metis
  then have "''inspect'' \<in> set (inspect_args sample_sandbox box)" "''inspect'' \<notin> set (rm_args sample_sandbox sample_id)"
    by (auto simp: inspect_args_def rm_args_def base_args_def sample_sandbox_def)
  moreover have "length box_report \<le> 200" by (simp add: box_report_def box_def sample_id_length)
  ultimately show
    "cli_result (box_answer (inspect_args sample_sandbox box)) = (Inr \<lparr>co_code = 0, co_stdout = box_report, co_stderr = []\<rparr>, False)"
    "cli_result (box_answer (rm_args sample_sandbox sample_id)) = (Inr \<lparr>co_code = 0, co_stdout = sample_id, co_stderr = []\<rparr>, False)"
    by (simp_all add: cli_result_def box_answer_def exit_code_def MAX_OUTPUT_BYTES_def sample_id_length)
qed

lemma box_stop: "\<exists>r. docker_stop box_library sample_sandbox box_target log = (Inr r, log)"
proof -
  have "tg_sandbox_id box_target = box" by (simp add: box_target_def)
  then show ?thesis
    by (simp add: docker_stop_def remove_owned_def inspect_owned_def st_then_def st_map_err_def st_of_def run_cli_def box_library_def
        box_results box_owned)
qed

theorem sandbox_calls_are_observed_witness:
  "\<exists>r e. port_stop (sandbox_service (docker_port id box_library sample_sandbox) (try_emit sample_sink)) box_target [] = (Inr r, [e])
     \<and> validate_envelope e = Inr () \<and> env_tenant_id e = ''t''"
proof -
  have ids: "context_ok (tg_context sample_target)"
    by (simp add: context_ok_def sample_target_def logical_id_def MAX_ID_BYTES_def lower_or_digit_def ascii_defs less_eq_char_def)
  have box_id: "sandbox_id box"
    by (simp add: box_def sandbox_id_def list_all_iff lower_hex_def ascii_defs less_eq_char_def)
  note spec = sandbox_calls_are_observed [OF ids box_id refl box_target_def, where lib = box_library and ds = sample_sandbox and sink = sample_sink]
  obtain r where "docker_stop box_library sample_sandbox box_target [] = (Inr r, [])" using box_stop by blast
  then have "port_stop (sandbox_service (docker_port id box_library sample_sandbox) (try_emit sample_sink)) box_target []
      = (Inr r, [envelope_of (event_in OpStop (tg_context sample_target) box (Some Stopped)) 7])"
    using spec [where sha256_hex = id and w = "[]"] by (simp add: observed_def sample_sink_def)
  moreover have "sc_tenant_id (tg_context sample_target) = ''t''" by (simp add: sample_target_def)
  ultimately show ?thesis using spec [where operation = OpStop and status = "Some Stopped" and now = 7] by auto
qed

end
