(* ===== verification/Mcp_Access.thy ===== *)
theory Mcp_Access
  imports Policy Json Effects
begin

text \<open>
  The gate every tool surface of the workspace passes before it acts: the host resolves a trusted
  context, the policy decides on it and one capability, and the decision is acted on only if its
  digest is the digest of exactly this request and grant. Each crate repeats this code in its
  \<open>mcp.rs\<close> and differs only in the errors it reports; it is defined here once, with what a call
  leaves in a record of everything it asked of the outside. Texts of JSON values are parameters:
  \<open>print\<close> is \<open>serde_json::to_string\<close> and \<open>display\<close> the text of a value.
\<close>

section \<open>The gate\<close>

record 'w host =
  host_resolve :: "(trusted_context_v1, unit, 'w) st"
  host_authorize :: "authorization_request_v1 \<Rightarrow> 'w \<Rightarrow> authorization_decision_v1 \<times> 'w"

datatype gate_failure = Unresolved | Refused | Unverified

text \<open>What the gate makes of a decision: the canonical grant and the digest it came with.\<close>

fun verified_grant :: "(string \<Rightarrow> string) \<Rightarrow> authorization_request_v1 \<Rightarrow> authorization_decision_v1
    \<Rightarrow> (grant_v1 \<times> string, gate_failure) result" where
  "verified_grant sha256_hex request (Deny _) = Inl Refused"
| "verified_grant sha256_hex request (Allow grant supplied) =
     and_then (map_err (\<lambda>_. Unverified) (canonical_grant grant)) (\<lambda>grant.
     and_then (map_err (\<lambda>_. Unverified) (decision_digest sha256_hex request (Allow grant []))) (\<lambda>expected.
       if supplied \<noteq> expected then Inl Unverified else Inr (grant, supplied)))"

definition pass_gate :: "(string \<Rightarrow> string) \<Rightarrow> 'w host \<Rightarrow> capability_v1
    \<Rightarrow> (trusted_context_v1 \<times> grant_v1 \<times> string, gate_failure, 'w) st" where
  "pass_gate sha256_hex host capability =
     st_then (st_map_err (\<lambda>_. Unresolved) (host_resolve host)) (\<lambda>trusted w.
       let request = \<lparr>ar_context = trusted, ar_capability = capability\<rparr> in
       case host_authorize host request w of (decision, w') \<Rightarrow>
         (and_then (verified_grant sha256_hex request decision) (\<lambda>(grant, digest). Inr (trusted, grant, digest)), w'))"

section \<open>Replies\<close>

definition json_object :: "(string \<times> json) list \<Rightarrow> json" where
  "json_object es = value_of (JObject es)"

definition json_strings :: "string list \<Rightarrow> json" where
  "json_strings ss = JArray (map JString ss)"

definition json_option :: "('a \<Rightarrow> json) \<Rightarrow> 'a option \<Rightarrow> json" where
  "json_option f v = (case v of None \<Rightarrow> JNull | Some a \<Rightarrow> f a)"

definition int_to_string :: "int \<Rightarrow> string" where
  "int_to_string i = (if i < 0 then CHR ''-'' # nat_to_string (nat (- i)) else nat_to_string (nat i))"

definition error_reply :: "(json \<Rightarrow> string) \<Rightarrow> string list \<Rightarrow> string \<Rightarrow> (string, string) result \<Rightarrow> string" where
  "error_reply display codes fallback response =
     (case response of Inr text \<Rightarrow> text
      | Inl code \<Rightarrow> display (json_object [(''error'', JString (if code \<in> set codes then code else fallback))]))"

section \<open>What a call asks of the outside\<close>

datatype 'e access_event =
    Resolved "(trusted_context_v1, unit) result"
  | Decided authorization_request_v1 authorization_decision_v1
  | Performed 'e

definition logged_host :: "'w host \<Rightarrow> ('w \<times> 'e access_event list) host" where
  "logged_host host = \<lparr>
     host_resolve = (\<lambda>(w, log). case host_resolve host w of (r, w') \<Rightarrow> (r, (w', log @ [Resolved r]))),
     host_authorize = (\<lambda>request (w, log). case host_authorize host request w of
       (decision, w') \<Rightarrow> (decision, (w', log @ [Decided request decision])))\<rparr>"

definition performing :: "('a \<Rightarrow> 'e) \<Rightarrow> ('a \<Rightarrow> ('b, 'f, 'w) st) \<Rightarrow> 'a \<Rightarrow> ('b, 'f, 'w \<times> 'e access_event list) st" where
  "performing event m a = (\<lambda>(w, log). case m a w of (r, w') \<Rightarrow> (r, (w', log @ [Performed (event a)])))"

definition is_performed :: "'e access_event \<Rightarrow> bool" where
  "is_performed e \<longleftrightarrow> (\<exists>x. e = Performed x)"

lemma is_performed_simps [simp]:
  "is_performed (Performed x)" "\<not> is_performed (Resolved r)" "\<not> is_performed (Decided q d)"
  by (simp_all add: is_performed_def)

text \<open>A record after which nothing may be performed, and the record of a passed gate.\<close>

definition idle :: "'e access_event list \<Rightarrow> bool" where
  "idle t \<longleftrightarrow> (\<forall>e\<in>set t. \<not> is_performed e)"

definition passed :: "(string \<Rightarrow> string) \<Rightarrow> 'w host \<Rightarrow> capability_v1 \<Rightarrow> trusted_context_v1 \<Rightarrow> grant_v1 \<Rightarrow> string
    \<Rightarrow> 'e access_event list \<Rightarrow> bool" where
  "passed sha256_hex host capability trusted grant digest t \<longleftrightarrow>
     (\<exists>decision w v. t = [Resolved (Inr trusted), Decided \<lparr>ar_context = trusted, ar_capability = capability\<rparr> decision]
        \<and> fst (host_resolve host w) = Inr trusted
        \<and> fst (host_authorize host \<lparr>ar_context = trusted, ar_capability = capability\<rparr> v) = decision
        \<and> verified_grant sha256_hex \<lparr>ar_context = trusted, ar_capability = capability\<rparr> decision = Inr (grant, digest))"

lemma idle_simps [simp]: "idle []" "idle (e # t) \<longleftrightarrow> \<not> is_performed e \<and> idle t" "idle (s @ t) \<longleftrightarrow> idle s \<and> idle t"
  by (auto simp: idle_def)

lemma idle_passed: "passed sha256_hex host c ctx g d t \<Longrightarrow> idle t"
  by (auto simp: passed_def)

text \<open>
  What a verified decision is, told without the code that verifies it: it allows, with a grant whose
  canonical form is the one used, and carries the digest of exactly this request and grant.
\<close>

definition allows :: "(string \<Rightarrow> string) \<Rightarrow> authorization_request_v1 \<Rightarrow> authorization_decision_v1 \<Rightarrow> grant_v1 \<Rightarrow> string \<Rightarrow> bool" where
  "allows sha256_hex request decision g d \<longleftrightarrow>
     (\<exists>supplied. decision = Allow supplied d \<and> canonical_grant supplied = Inr g \<and> decision_digest sha256_hex request (Allow g []) = Inr d)"

lemma verified_grant_allows: "verified_grant sha256_hex request decision = Inr (g, d) \<longleftrightarrow> allows sha256_hex request decision g d"
  by (cases decision) (auto simp: allows_def and_then_Inr map_err_Inr)

lemma runs_pass_gate:
  "runs (pass_gate sha256_hex (logged_host host) c) [] (\<lambda>r t. idle t
     \<and> (\<forall>ctx g d. r = Inr (ctx, g, d) \<longrightarrow> passed sha256_hex host c ctx g d t))"
  unfolding runs_def traces_def pass_gate_def st_then_def st_map_err_def logged_host_def
  by (auto simp: passed_def Let_def and_then_Inr map_err_Inr split: prod.split sum.split) (metis fst_conv)+

lemma runs_gate_then:
  assumes "\<And>e t. idle t \<Longrightarrow> Q (Inl (f e)) t"
    and "\<And>ctx g d t. passed sha256_hex host c ctx g d t \<Longrightarrow> runs (k (ctx, g, d)) t Q"
  shows "runs (st_then (st_map_err f (pass_gate sha256_hex (logged_host host) c)) k) [] Q"
  by (rule runs_then_err [OF runs_pass_gate]) (use assms in auto)

lemma runs_performing: "runs (performing event m a) t (\<lambda>r s. s = t @ [Performed (event a)])"
  by (auto simp: runs_def traces_def performing_def split: prod.split)

text \<open>Operations of the outside that the record does not keep.\<close>

definition silently :: "('a, 'f, 'w) st \<Rightarrow> ('a, 'f, 'w \<times> 'c list) st" where
  "silently m = (\<lambda>(w, log). case m w of (r, w') \<Rightarrow> (r, (w', log)))"

definition silent_host :: "'w host \<Rightarrow> ('w \<times> 'c list) host" where
  "silent_host host = \<lparr>host_resolve = silently (host_resolve host),
     host_authorize = (\<lambda>request (w, log). case host_authorize host request w of (decision, w') \<Rightarrow> (decision, (w', log)))\<rparr>"

lemma runs_silently: "runs (silently m) t (\<lambda>r s. s = t)"
  by (auto simp: runs_def traces_def silently_def split: prod.split)

lemma runs_silently_then:
  assumes "\<And>e. Q (Inl (f e)) t" and "\<And>a. runs (k a) t Q"
  shows "runs (st_then (st_map_err f (silently m)) k) t Q"
  by (rule runs_then_err [OF runs_silently]) (use assms in auto)

lemma pass_silent_gate:
  assumes "pass_gate sha256_hex (silent_host host) c (w, log) = (Inr (trusted, g, d), (w', log'))"
  shows "log' = log \<and> (\<exists>decision before. fst (host_resolve host w) = Inr trusted
    \<and> fst (host_authorize host \<lparr>ar_context = trusted, ar_capability = c\<rparr> before) = decision
    \<and> verified_grant sha256_hex \<lparr>ar_context = trusted, ar_capability = c\<rparr> decision = Inr (g, d))"
proof -
  obtain r v where resolve: "host_resolve host w = (r, v)" by fastforce
  with assms have r: "r = Inr trusted"
    by (auto simp: pass_gate_def st_then_def st_map_err_def silent_host_def silently_def Let_def and_then_Inr map_err_Inr
        split: sum.splits prod.splits)
  obtain decision v' where "host_authorize host \<lparr>ar_context = trusted, ar_capability = c\<rparr> v = (decision, v')" by fastforce
  with assms resolve r show ?thesis
    by (auto simp: pass_gate_def st_then_def st_map_err_def silent_host_def silently_def Let_def and_then_Inr
        split: prod.splits intro!: exI [of _ v])
qed

lemma silent_gate_failed:
  assumes "pass_gate sha256_hex (silent_host host) c (w, log) = (Inl e, (w', log'))"
  shows "log' = log"
  using assms
  by (auto simp: pass_gate_def st_then_def st_map_err_def silent_host_def silently_def Let_def split: sum.splits prod.splits)

text \<open>
  The shape of the record of a gated call: nothing is performed, or exactly one thing is, as the
  last event, directly after a decision that verifies for the capability and the resolved
  context, and \<open>E\<close> relates what was performed to that context and grant.
\<close>

definition gated :: "(string \<Rightarrow> string) \<Rightarrow> 'w host \<Rightarrow> capability_v1 \<Rightarrow> (trusted_context_v1 \<Rightarrow> grant_v1 \<Rightarrow> string \<Rightarrow> 'e \<Rightarrow> bool)
    \<Rightarrow> 'e access_event list \<Rightarrow> bool" where
  "gated sha256_hex host c E t \<longleftrightarrow> idle t
     \<or> (\<exists>ctx g d p e. passed sha256_hex host c ctx g d p \<and> t = p @ [Performed e] \<and> E ctx g d e)"

lemma gated_idle: "idle t \<Longrightarrow> gated sha256_hex host c E t"
  by (simp add: gated_def)

text \<open>The gate accepts every decision the policy crate makes.\<close>

lemma allow_decision_verified:
  assumes "allow_decision sha256_hex request g = Inr decision"
  shows "\<exists>d. decision = Allow (canonical_form g) d \<and> verified_grant sha256_hex request decision = Inr (canonical_form g, d)"
proof -
  from assms obtain c d where c: "canonical_grant g = Inr c" "decision_digest sha256_hex request (Allow c []) = Inr d" "decision = Allow c d"
    by (auto simp: allow_decision_def result_simps)
  then have "c = canonical_form g" by (simp add: canonical_grant_Inr)
  with c canonical_grant_ok [OF c(1)] show ?thesis by simp
qed

definition static_host :: "(string \<Rightarrow> string) \<Rightarrow> trusted_context_v1 \<Rightarrow> grant_v1 \<Rightarrow> 'w host" where
  "static_host sha256_hex trusted grant = \<lparr>host_resolve = st_of (Inr trusted),
     host_authorize = (\<lambda>request w. (case allow_decision sha256_hex request grant of Inr decision \<Rightarrow> decision | Inl _ \<Rightarrow> deny_decision, w))\<rparr>"

definition demo_trusted :: trusted_context_v1 where
  "demo_trusted = \<lparr>tc_tenant_id = ''t'', tc_principal_id = ''p'', tc_request_id = ''r'', tc_correlation_id = ''c''\<rparr>"

definition full_grant :: grant_v1 where
  "full_grant = \<lparr>allowed_tool_ids = [], memory_enabled = True, knowledge_enabled = True, sandbox_execution_allowed = True,
     communication_allowed = True\<rparr>"

lemma full_grant_canonical: "canonical_form full_grant = full_grant" "canonical_grant full_grant = Inr full_grant"
proof -
  show form: "canonical_form full_grant = full_grant" by (simp add: canonical_form_def full_grant_def bs_collect_def)
  show "canonical_grant full_grant = Inr full_grant"
    by (simp add: canonical_grant_Inr form) (simp add: grant_ok_def full_grant_def bs_collect_def)
qed

lemma full_grant_decision: "\<exists>d. allow_decision sha256_hex request full_grant = Inr (Allow full_grant d)"
  by (auto simp: allow_decision_def full_grant_canonical decision_digest_def decision_canonical_bytes_def Let_def result_simps)

lemma static_gate:
  assumes "canonical_grant g = Inr g"
  shows "\<exists>d. pass_gate sha256_hex (static_host sha256_hex trusted g) c w = (Inr (trusted, g, d), w)"
proof -
  let ?request = "\<lparr>ar_context = trusted, ar_capability = c\<rparr>"
  have form: "canonical_form g = g" using assms by (simp add: canonical_grant_Inr)
  obtain d where d: "allow_decision sha256_hex ?request g = Inr (Allow g d)"
    using assms by (auto simp: allow_decision_def decision_digest_def decision_canonical_bytes_def Let_def result_simps)
  from allow_decision_verified [OF d] form show ?thesis
    by (auto simp: pass_gate_def st_then_def st_map_err_def static_host_def st_of_def Let_def d simp del: verified_grant.simps)
qed

lemma silent_gate:
  "pass_gate sha256_hex (silent_host host) c (w, log) = (case pass_gate sha256_hex host c w of (r, w') \<Rightarrow> (r, (w', log)))"
  by (auto simp: pass_gate_def silent_host_def st_then_def st_map_err_def silently_def Let_def split: prod.splits sum.splits)

lemma pass_static_gate:
  "\<exists>decision d. pass_gate sha256_hex (logged_host (static_host sha256_hex demo_trusted full_grant)) c (w, [])
     = (Inr (demo_trusted, full_grant, d), (w, [Resolved (Inr demo_trusted), Decided \<lparr>ar_context = demo_trusted, ar_capability = c\<rparr> decision]))"
proof -
  obtain d where d: "allow_decision sha256_hex \<lparr>ar_context = demo_trusted, ar_capability = c\<rparr> full_grant = Inr (Allow full_grant d)"
    using full_grant_decision by blast
  from allow_decision_verified [OF d] show ?thesis
    by (auto simp: pass_gate_def st_then_def st_map_err_def logged_host_def static_host_def st_of_def Let_def d full_grant_canonical
        simp del: verified_grant.simps)
qed

text \<open>The last step of a gated call: one thing is performed, and its result only projected.\<close>

lemma runs_perform_last:
  assumes "passed sha256_hex host c ctx g d t" "E ctx g d (event a)"
  shows "runs (st_then (st_map_err f (performing event m a)) (\<lambda>r. st_of (k r))) t (\<lambda>r s. gated sha256_hex host c E s)"
  by (rule runs_then_err [OF runs_performing])
    (use assms in \<open>auto simp: gated_def intro!: runs_of\<close>)

lemma runs_perform_end:
  assumes "passed sha256_hex host c ctx g d t" "E ctx g d (event a)"
  shows "runs (st_map_err f (performing event m a)) t (\<lambda>r s. gated sha256_hex host c E s)"
  by (rule runs_map_err [OF runs_performing]) (use assms in \<open>auto simp: gated_def\<close>)

text \<open>The authorization of a crate: the gate, followed by pure checks of what it returned.\<close>

definition authorizes :: "(string \<Rightarrow> string) \<Rightarrow> 'w host \<Rightarrow> capability_v1 \<Rightarrow> ('a, 'f, 'w \<times> 'e access_event list) st
    \<Rightarrow> (trusted_context_v1 \<Rightarrow> grant_v1 \<Rightarrow> string \<Rightarrow> 'a \<Rightarrow> bool) \<Rightarrow> bool" where
  "authorizes sha256_hex host c auth R \<longleftrightarrow> runs auth [] (\<lambda>r t. idle t
     \<and> (\<forall>a. r = Inr a \<longrightarrow> (\<exists>trusted g d. passed sha256_hex host c trusted g d t \<and> R trusted g d a)))"

lemma authorizes_gate:
  assumes "\<And>trusted g d a. check (trusted, g, d) = Inr a \<Longrightarrow> R trusted g d a"
  shows "authorizes sha256_hex host c (st_then (st_map_err f (pass_gate sha256_hex (logged_host host) c)) (\<lambda>x. st_of (check x))) R"
  unfolding authorizes_def by (rule runs_gate_then) (use assms in \<open>fastforce intro!: runs_of dest: idle_passed\<close>)+

lemma runs_authorized:
  assumes "authorizes sha256_hex host c auth R"
    and "\<And>trusted g d a t. passed sha256_hex host c trusted g d t \<Longrightarrow> idle t \<Longrightarrow> R trusted g d a
      \<Longrightarrow> runs (k a) t (\<lambda>r s. gated sha256_hex host c E s)"
  shows "runs (st_then (st_map_err f auth) k) [] (\<lambda>r s. gated sha256_hex host c E s)"
  by (rule runs_then_err [OF assms(1) [unfolded authorizes_def]]) (use assms(2) in \<open>auto intro: gated_idle\<close>)

lemma runs_reply: "runs m t (\<lambda>r s. Q s) \<Longrightarrow> runs (st_match m (\<lambda>r. st_of (f r))) t (\<lambda>r s. Q s)"
  by (erule runs_match) (auto intro: runs_of)

text \<open>A policy that decides by itself, and the interface every tool surface gives.\<close>

definition decided_by :: "(authorization_request_v1 \<Rightarrow> authorization_decision_v1) \<Rightarrow> 'w host \<Rightarrow> bool" where
  "decided_by policy host \<longleftrightarrow> (\<forall>request w. fst (host_authorize host request w) = policy request)"

lemma static_grant:
  assumes "static_policy_resolver_new gs = Inr resolver"
    and "verified_grant sha256_hex request (authorize sha256_hex resolver request) = Inr (g, d)"
  shows "\<exists>g0. map_of gs (request_grant_key request) = Some g0 \<and> g = canonical_form g0"
proof -
  from assms(2) obtain g1 supplied where allow: "authorize sha256_hex resolver request = Allow g1 supplied"
    and g: "canonical_grant g1 = Inr g"
    by (cases "authorize sha256_hex resolver request") (auto simp: result_simps split: if_splits)
  from allow obtain g2 where g2: "bt_get resolver (request_grant_key request) = Some g2" "canonical_grant g2 = Inr g1"
    by (auto simp: authorize_def deny_decision_def allow_decision_def result_simps split: option.splits sum.splits)
  from g2 obtain g0 where "map_of gs (request_grant_key request) = Some g0" "g2 = canonical_form g0"
    using resolver_lookup [OF assms(1)] by auto
  moreover have "g = g1" using canonical_grant_ok [OF g2(2)] g by simp
  moreover have "g1 = g2"
    using g2(2) calculation(2) by (simp add: canonical_grant_Inr canonical_form_eq_iff canonical_form_def)
  ultimately show ?thesis by simp
qed

locale tool_surface =
  fixes sha256_hex :: "string \<Rightarrow> string" and host :: "'w host"
    and call :: "'t \<Rightarrow> 'w \<times> 'e access_event list \<Rightarrow> 'r \<times> 'w \<times> 'e access_event list"
    and capability_of :: "'t \<Rightarrow> capability_v1 option"
    and carries :: "'t \<Rightarrow> trusted_context_v1 \<Rightarrow> grant_v1 \<Rightarrow> string \<Rightarrow> 'e \<Rightarrow> bool"
  assumes open_tools: "capability_of t = None \<Longrightarrow> call t (w, []) = (r, (w', log)) \<Longrightarrow> idle log"
    and gate: "capability_of t = Some c \<Longrightarrow> call t (w, []) = (r, (w', log)) \<Longrightarrow> gated sha256_hex host c (carries t) log"
begin

lemma performs_once:
  assumes "call t (w, []) = (r, (w', log))" "Performed e \<in> set log"
  shows "\<exists>c ctx g d p. capability_of t = Some c \<and> passed sha256_hex host c ctx g d p \<and> log = p @ [Performed e] \<and> carries t ctx g d e"
proof (cases "capability_of t")
  case None
  with open_tools assms show ?thesis by (force simp: idle_def)
next
  case (Some c)
  from gate [OF this assms(1)] assms(2) Some show ?thesis
    by (auto simp: gated_def idle_def dest: idle_passed) (auto simp: passed_def)
qed

text \<open>
  The record of a call that performed something, written out; under a static policy, whoever
  performs something is on its list of grants.
\<close>

lemma performed_after_gate:
  assumes "call t (w, []) = (r, (w', log))" "Performed e \<in> set log"
  shows "\<exists>c trusted decision g d before. capability_of t = Some c
    \<and> log = [Resolved (Inr trusted), Decided \<lparr>ar_context = trusted, ar_capability = c\<rparr> decision, Performed e]
    \<and> fst (host_resolve host before) = Inr trusted
    \<and> verified_grant sha256_hex \<lparr>ar_context = trusted, ar_capability = c\<rparr> decision = Inr (g, d)
    \<and> carries t trusted g d e
    \<and> (\<forall>gs resolver. static_policy_resolver_new gs = Inr resolver \<and> decided_by (authorize sha256_hex resolver) host
         \<longrightarrow> map_option canonical_form (map_of gs (GrantKeyV1 (tc_tenant_id trusted) (tc_principal_id trusted) c)) = Some g)"
proof -
  from performs_once [OF assms] obtain c trusted g d p where c: "capability_of t = Some c" "log = p @ [Performed e]"
    and p: "passed sha256_hex host c trusted g d p" and carried: "carries t trusted g d e" by auto
  let ?request = "\<lparr>ar_context = trusted, ar_capability = c\<rparr>"
  from p obtain decision before v where trace: "p = [Resolved (Inr trusted), Decided ?request decision]"
    and host: "fst (host_resolve host before) = Inr trusted" "fst (host_authorize host ?request v) = decision"
      "verified_grant sha256_hex ?request decision = Inr (g, d)"
    by (auto simp: passed_def)
  have "map_option canonical_form (map_of gs (GrantKeyV1 (tc_tenant_id trusted) (tc_principal_id trusted) c)) = Some g"
    if "static_policy_resolver_new gs = Inr resolver" "decided_by (authorize sha256_hex resolver) host" for gs resolver
    using static_grant [OF that(1), of sha256_hex ?request g d] host that(2) by (auto simp: decided_by_def request_grant_key_def)
  with c carried trace host show ?thesis by auto
qed

end

end
