(* ===== verification/Mcp_Contract.thy ===== *)
theory Mcp_Contract
  imports Json Effects Text_Ops
begin

text \<open>
  The contract between a brick and the server that exposes its tools (\<open>mcp-contract/src/lib.rs\<close>):
  namespaces, tool names, descriptors, and the contribution a brick makes. Dispatching a call
  may act on the outside, which is the type parameter of a contribution.
\<close>

definition MAX_SEGMENT_BYTES :: nat where "MAX_SEGMENT_BYTES = 64"
definition FACTORY_NAMESPACE :: string where "FACTORY_NAMESPACE = ''factory''"

datatype contract_error = InvalidNamespace string | InvalidOperation string

definition is_valid_segment :: "string \<Rightarrow> bool" where
  "is_valid_segment candidate \<longleftrightarrow> length candidate \<le> MAX_SEGMENT_BYTES
     \<and> first_rest is_ascii_lowercase (\<lambda>b. is_ascii_lowercase b \<or> is_ascii_digit b \<or> b = CHR ''_'') candidate"

definition namespace_new :: "string \<Rightarrow> (string, contract_error) result" where
  "namespace_new candidate = (if is_valid_segment candidate then Inr candidate else Inl (InvalidNamespace candidate))"

definition factory_reserved :: string where
  "factory_reserved = FACTORY_NAMESPACE"

definition is_factory_reserved :: "string \<Rightarrow> bool" where
  "is_factory_reserved namespace \<longleftrightarrow> namespace = FACTORY_NAMESPACE"

definition tool_name_new :: "string \<Rightarrow> string \<Rightarrow> (string, contract_error) result" where
  "tool_name_new namespace operation =
     (if \<not> is_valid_segment operation then Inl (InvalidOperation operation)
      else let joined = namespace @ ''_'' @ operation in
        if length joined > MAX_SEGMENT_BYTES * 2 + 1 then Inl (InvalidOperation operation) else Inr joined)"

record tool_descriptor =
  td_name :: string
  td_title :: "string option"
  td_description :: string
  td_input_schema :: "(string, json) btree_map"
  td_output_schema :: "(string, json) btree_map option"

record dispatch_outcome =
  do_payload :: json
  do_is_error :: bool

datatype dispatch_error = UnknownTool | MalformedArguments string | Internal

fun dispatch_error_display :: "dispatch_error \<Rightarrow> string" where
  "dispatch_error_display UnknownTool = ''unknown tool''"
| "dispatch_error_display (MalformedArguments message) = ''malformed arguments: '' @ message"
| "dispatch_error_display Internal = ''internal dispatch failure''"

record 'w handler_contribution =
  hc_namespace :: string
  hc_tools :: "tool_descriptor list"
  hc_dispatch :: "string \<Rightarrow> json \<Rightarrow> (dispatch_outcome, dispatch_error, 'w) st"

definition tool_names_by_namespace :: "'w handler_contribution list \<Rightarrow> (string, string list) btree_map" where
  "tool_names_by_namespace contributions =
     foldl (\<lambda>grouped c.
        bt_insert (hc_namespace c)
          ((case bt_get grouped (hc_namespace c) of None \<Rightarrow> [] | Some names \<Rightarrow> names) @ map td_name (hc_tools c)) grouped)
       [] contributions"

section \<open>Names\<close>

lemma valid_segment_chars:
  assumes "is_valid_segment s" "b \<in> set s"
  shows "is_ascii_lowercase b \<or> is_ascii_digit b \<or> b = CHR ''_''"
  using assms by (cases s) (auto simp: is_valid_segment_def list_all_iff)

lemma valid_segment_Cons:
  "is_valid_segment (c # cs) \<longleftrightarrow> length cs < MAX_SEGMENT_BYTES \<and> is_ascii_lowercase c
     \<and> (\<forall>b\<in>set cs. is_ascii_lowercase b \<or> is_ascii_digit b \<or> b = CHR ''_'')"
  by (auto simp: is_valid_segment_def list_all_iff)

lemma valid_segment_prefix: "is_valid_segment (p @ q) \<Longrightarrow> p \<noteq> [] \<Longrightarrow> is_valid_segment p"
  by (cases p) (auto simp: valid_segment_Cons)

lemma tool_name_newD:
  "tool_name_new ns operation = Inr name \<Longrightarrow> name = ns @ CHR ''_'' # operation \<and> is_valid_segment operation"
  by (auto simp: tool_name_new_def Let_def split: if_splits)

text \<open>A namespace and an operation of the maximal length fit.\<close>

lemma tool_name_new_valid:
  "is_valid_segment ns \<Longrightarrow> is_valid_segment operation \<Longrightarrow> tool_name_new ns operation = Inr (ns @ CHR ''_'' # operation)"
  by (simp add: tool_name_new_def is_valid_segment_def)

end
