(* ===== verification/Mcp_Router.thy ===== *)
theory Mcp_Router
  imports Mcp_Contract
begin

text \<open>
  The aggregate router (\<open>mcp-transport/src/aggregate.rs\<close>) that composes the contributions of the
  bricks and of the project into one server. Printing JSON is a parameter: \<open>print_map\<close> is
  \<open>serde_json::to_string\<close> on an object and \<open>display\<close> the text of a value; \<open>quote\<close> is the debug form of
  a string. The hash map of owners is a sorted map here: the code only looks names up in it and
  sorts what it iterates over. A panic is the value \<open>None\<close>.
\<close>

section \<open>Building\<close>

definition MAX_CONTRIBUTIONS :: nat where "MAX_CONTRIBUTIONS = 32"
definition MAX_TOOLS :: nat where "MAX_TOOLS = 256"
definition MAX_AGGREGATE_SCHEMA_BYTES :: nat where "MAX_AGGREGATE_SCHEMA_BYTES = 32 * 1024"

datatype aggregate_build_error =
    InvalidNamespaceError contract_error
  | ReservedNamespace string
  | NonReservedProjectMetaNamespace string
  | DuplicateNamespace string
  | DuplicateToolName string
  | ToolNameNamespaceMismatch string string
  | TooManyContributions nat nat
  | TooManyTools nat nat
  | SchemaBudgetExceeded nat nat

record tool =
  tool_name :: string
  tool_description :: string
  tool_title :: "string option"
  tool_input_schema :: "(string, json) btree_map"
  tool_output_schema :: "(string, json) btree_map option"

record registered_tool =
  rt_tool :: tool
  rt_contribution_index :: nat

record 'w build_state =
  bs_contributions :: "'w handler_contribution list"
  bs_seen_namespaces :: "string list"
  bs_owners :: "(string, registered_tool) btree_map"
  bs_schema_bytes :: nat

definition descriptor_bytes :: "((string, json) btree_map \<Rightarrow> string option) \<Rightarrow> tool_descriptor \<Rightarrow> nat" where
  "descriptor_bytes print_map d =
     length (td_name d) + length (td_description d)
     + (case td_title d of None \<Rightarrow> 0 | Some title \<Rightarrow> length title)
     + (case print_map (td_input_schema d) of None \<Rightarrow> 0 | Some s \<Rightarrow> length s)
     + (case Option.bind (td_output_schema d) print_map of None \<Rightarrow> 0 | Some s \<Rightarrow> length s)"

definition tool_of :: "tool_descriptor \<Rightarrow> tool" where
  "tool_of d = \<lparr>tool_name = td_name d, tool_description = td_description d, tool_title = td_title d,
     tool_input_schema = td_input_schema d, tool_output_schema = td_output_schema d\<rparr>"

definition register_tool :: "((string, json) btree_map \<Rightarrow> string option) \<Rightarrow> string \<Rightarrow> nat
    \<Rightarrow> (string, registered_tool) btree_map \<times> nat \<Rightarrow> tool_descriptor
    \<Rightarrow> ((string, registered_tool) btree_map \<times> nat, aggregate_build_error) result" where
  "register_tool print_map namespace index acc d =
     (if \<not> starts_with (td_name d) (namespace @ ''_'')
      then Inl (ToolNameNamespaceMismatch (td_name d) namespace)
      else if bt_contains_key (fst acc) (td_name d) then Inl (DuplicateToolName (td_name d))
      else Inr (bt_insert (td_name d) \<lparr>rt_tool = tool_of d, rt_contribution_index = index\<rparr> (fst acc),
             snd acc + descriptor_bytes print_map d))"

definition register_contribution :: "((string, json) btree_map \<Rightarrow> string option) \<Rightarrow> 'w build_state
    \<Rightarrow> 'w handler_contribution \<Rightarrow> ('w build_state, aggregate_build_error) result" where
  "register_contribution print_map s c =
     (let namespace = hc_namespace c in
      if namespace \<in> set (bs_seen_namespaces s) then Inl (DuplicateNamespace namespace)
      else and_then (try_fold (register_tool print_map namespace (length (bs_contributions s)))
             (bs_owners s, bs_schema_bytes s) (hc_tools c)) (\<lambda>(owners, schema_bytes).
        Inr \<lparr>bs_contributions = bs_contributions s @ [c], bs_seen_namespaces = namespace # bs_seen_namespaces s,
          bs_owners = owners, bs_schema_bytes = schema_bytes\<rparr>))"

definition register_brick :: "((string, json) btree_map \<Rightarrow> string option) \<Rightarrow> 'w build_state
    \<Rightarrow> 'w handler_contribution \<Rightarrow> ('w build_state, aggregate_build_error) result" where
  "register_brick print_map s c =
     (if is_factory_reserved (hc_namespace c) then Inl (ReservedNamespace (hc_namespace c))
      else register_contribution print_map s c)"

definition register_meta :: "((string, json) btree_map \<Rightarrow> string option) \<Rightarrow> 'w build_state
    \<Rightarrow> 'w handler_contribution \<Rightarrow> ('w build_state, aggregate_build_error) result" where
  "register_meta print_map s c =
     (if \<not> is_factory_reserved (hc_namespace c) then Inl (NonReservedProjectMetaNamespace (hc_namespace c))
      else register_contribution print_map s c)"

record 'w aggregate_router =
  ar_tools_cache :: "tool list"
  ar_tool_owner_by_name :: "(string, nat) btree_map"
  ar_contributions :: "'w handler_contribution list"

record 'w router_builder =
  rb_bricks :: "'w handler_contribution list"
  rb_meta :: "'w handler_contribution list"

definition builder_new :: "'w router_builder" where
  "builder_new = \<lparr>rb_bricks = [], rb_meta = []\<rparr>"

definition with_brick :: "'w router_builder \<Rightarrow> 'w handler_contribution \<Rightarrow> 'w router_builder" where
  "with_brick b c = b\<lparr>rb_bricks := rb_bricks b @ [c]\<rparr>"

definition with_project_meta :: "'w router_builder \<Rightarrow> 'w handler_contribution \<Rightarrow> 'w router_builder" where
  "with_project_meta b c = b\<lparr>rb_meta := rb_meta b @ [c]\<rparr>"

definition finish_build :: "'w build_state \<Rightarrow> ('w aggregate_router, aggregate_build_error) result" where
  "finish_build s =
     (if length (bs_owners s) > MAX_TOOLS then Inl (TooManyTools (length (bs_owners s)) MAX_TOOLS)
      else if bs_schema_bytes s > MAX_AGGREGATE_SCHEMA_BYTES
      then Inl (SchemaBudgetExceeded (bs_schema_bytes s) MAX_AGGREGATE_SCHEMA_BYTES)
      else Inr \<lparr>ar_tools_cache = sort_key tool_name (map rt_tool (bt_values (bs_owners s))),
        ar_tool_owner_by_name = map (\<lambda>(name, entry). (name, rt_contribution_index entry)) (bs_owners s),
        ar_contributions = bs_contributions s\<rparr>)"

definition router_build :: "((string, json) btree_map \<Rightarrow> string option) \<Rightarrow> 'w router_builder
    \<Rightarrow> ('w aggregate_router, aggregate_build_error) result" where
  "router_build print_map b =
     (let total = length (rb_bricks b) + length (rb_meta b) in
      if total > MAX_CONTRIBUTIONS then Inl (TooManyContributions total MAX_CONTRIBUTIONS)
      else and_then (try_fold (register_brick print_map)
             \<lparr>bs_contributions = [], bs_seen_namespaces = [], bs_owners = [], bs_schema_bytes = 0\<rparr> (rb_bricks b)) (\<lambda>s.
           and_then (try_fold (register_meta print_map) s (rb_meta b)) finish_build))"

definition router_tool_names :: "'w aggregate_router \<Rightarrow> string list" where
  "router_tool_names router = map tool_name (ar_tools_cache router)"

section \<open>Calling\<close>

datatype error_code = MethodNotFound | InvalidParams | InternalError

record error_data =
  ed_code :: error_code
  ed_message :: string

record call_tool_result =
  ct_text :: string
  ct_is_error :: bool

definition namespace_of :: "string \<Rightarrow> string" where
  "namespace_of name =
     (let namespace = (case split_once CHR ''_'' name of None \<Rightarrow> name | Some (head, _) \<Rightarrow> head) in
      case namespace_new namespace of Inr ns \<Rightarrow> ns | Inl _ \<Rightarrow> factory_reserved)"

definition operation_of :: "string \<Rightarrow> string" where
  "operation_of name = (case split_once CHR ''_'' name of None \<Rightarrow> name | Some (_, tail) \<Rightarrow> tail)"

definition list_tools :: "'w aggregate_router \<Rightarrow> tool list" where
  "list_tools router = ar_tools_cache router"

definition call_outcome :: "(json \<Rightarrow> string) \<Rightarrow> (string \<Rightarrow> string) \<Rightarrow> string
    \<Rightarrow> (dispatch_outcome, dispatch_error) result \<Rightarrow> (call_tool_result, error_data) result" where
  "call_outcome display quote name r =
     (case r of
        Inr outcome \<Rightarrow> Inr \<lparr>ct_text = display (do_payload outcome), ct_is_error = do_is_error outcome\<rparr>
      | Inl UnknownTool \<Rightarrow> Inl \<lparr>ed_code = MethodNotFound, ed_message = ''unknown tool '' @ quote name\<rparr>
      | Inl (MalformedArguments message) \<Rightarrow> Inl \<lparr>ed_code = InvalidParams, ed_message = message\<rparr>
      | Inl Internal \<Rightarrow> Inl \<lparr>ed_code = InternalError, ed_message = ''internal dispatch failure''\<rparr>)"

definition call_tool :: "(json \<Rightarrow> string) \<Rightarrow> (string \<Rightarrow> string) \<Rightarrow> 'w aggregate_router \<Rightarrow> string
    \<Rightarrow> (string, json) btree_map option \<Rightarrow> 'w \<Rightarrow> (call_tool_result, error_data) result option \<times> 'w" where
  "call_tool display quote router name arguments w =
     (case bt_get (ar_tool_owner_by_name router) name of
        None \<Rightarrow> (Some (Inl \<lparr>ed_code = MethodNotFound, ed_message = ''unknown tool '' @ quote name\<rparr>), w)
      | Some contribution_index \<Rightarrow>
          (case tool_name_new (namespace_of name) (operation_of name) of
             Inl _ \<Rightarrow> (Some (Inl \<lparr>ed_code = InternalError, ed_message = ''malformed registered tool name''\<rparr>), w)
           | Inr callee \<Rightarrow>
               let arguments = (case arguments of None \<Rightarrow> JObject [] | Some es \<Rightarrow> JObject es) in
               if contribution_index < length (ar_contributions router)
               then (case hc_dispatch (ar_contributions router ! contribution_index) callee arguments w of
                       (r, w') \<Rightarrow> (Some (call_outcome display quote name r), w'))
               else (None, w)))"

end
