(* ===== verification/Mcp_Router_Properties.thy ===== *)
theory Mcp_Router_Properties
  imports Mcp_Router
begin

text \<open>
  What a router that could be built serves: exactly the declared tools, each owned by the
  contribution that declares it, within the budgets, and which calls reach their owner.
\<close>

section \<open>Registration\<close>

definition entry_for :: "nat \<Rightarrow> tool_descriptor \<Rightarrow> registered_tool" where
  "entry_for i d = \<lparr>rt_tool = tool_of d, rt_contribution_index = i\<rparr>"

lemma length_insert_new: "\<not> bt_contains_key m k \<Longrightarrow> length (bt_insert k v m) = Suc (length m)"
  by (induction m) (auto simp: bt_contains_key_def split: if_splits)

lemma register_tool_Inr:
  "register_tool print_map ns i acc d = Inr acc' \<longleftrightarrow>
     starts_with (td_name d) (ns @ ''_'') \<and> \<not> bt_contains_key (fst acc) (td_name d)
     \<and> acc' = (bt_insert (td_name d) (entry_for i d) (fst acc), snd acc + descriptor_bytes print_map d)"
  by (auto simp: register_tool_def entry_for_def)

lemma register_tools:
  assumes "try_fold (register_tool print_map ns i) (owners, bytes) ds = Inr (owners', bytes')" "bt_ok owners"
  shows "bt_ok owners' \<and> length owners' = length owners + length ds
    \<and> bytes' = bytes + sum_list (map (descriptor_bytes print_map) ds)
    \<and> (\<forall>d\<in>set ds. starts_with (td_name d) (ns @ ''_''))
    \<and> (\<forall>name e. bt_get owners' name = Some e \<longleftrightarrow>
         bt_get owners name = Some e \<or> (\<exists>d\<in>set ds. td_name d = name \<and> e = entry_for i d))"
  using assms
proof (induction ds arbitrary: owners bytes)
  case (Cons d ds)
  let ?o = "bt_insert (td_name d) (entry_for i d) owners"
  from Cons.prems have new: "\<not> bt_contains_key owners (td_name d)" "starts_with (td_name d) (ns @ ''_'')"
    and rest: "try_fold (register_tool print_map ns i) (?o, bytes + descriptor_bytes print_map d) ds = Inr (owners', bytes')"
    by (auto simp: and_then_Inr register_tool_Inr)
  from Cons.IH [OF rest] Cons.prems(2) new show ?case
    by (auto simp: length_insert_new bt_contains_key_def split: if_splits)
qed simp

definition declared :: "'w handler_contribution list \<Rightarrow> string \<Rightarrow> registered_tool \<Rightarrow> bool" where
  "declared cs name e \<longleftrightarrow> (\<exists>i<length cs. \<exists>d\<in>set (hc_tools (cs ! i)). td_name d = name \<and> e = entry_for i d)"

lemma declared_snoc:
  "declared (cs @ [c]) name e \<longleftrightarrow> declared cs name e \<or> (\<exists>d\<in>set (hc_tools c). td_name d = name \<and> e = entry_for (length cs) d)"
proof -
  have "(\<exists>i<length (cs @ [c]). Q i ((cs @ [c]) ! i)) \<longleftrightarrow> (\<exists>i<length cs. Q i (cs ! i)) \<or> Q (length cs) c" for Q
    by (metis (no_types, lifting) length_append_singleton less_Suc_eq nth_append nth_append_length)
  then show ?thesis unfolding declared_def by simp
qed

definition build_inv :: "((string, json) btree_map \<Rightarrow> string option) \<Rightarrow> 'w build_state \<Rightarrow> bool" where
  "build_inv print_map s \<longleftrightarrow> (let cs = bs_contributions s in
     bt_ok (bs_owners s) \<and> (\<forall>name e. bt_get (bs_owners s) name = Some e \<longleftrightarrow> declared cs name e)
     \<and> length (bs_owners s) = sum_list (map (\<lambda>c. length (hc_tools c)) cs)
     \<and> bs_schema_bytes s = sum_list (map (\<lambda>c. sum_list (map (descriptor_bytes print_map) (hc_tools c))) cs)
     \<and> set (bs_seen_namespaces s) = hc_namespace ` set cs \<and> distinct (map hc_namespace cs)
     \<and> (\<forall>c\<in>set cs. \<forall>d\<in>set (hc_tools c). starts_with (td_name d) (hc_namespace c @ ''_'')))"

lemma register_contribution_inv:
  assumes "register_contribution print_map s c = Inr s'" "build_inv print_map s"
  shows "build_inv print_map s' \<and> bs_contributions s' = bs_contributions s @ [c]"
proof -
  from assms(1) obtain owners bytes where fold: "try_fold (register_tool print_map (hc_namespace c) (length (bs_contributions s)))
        (bs_owners s, bs_schema_bytes s) (hc_tools c) = Inr (owners, bytes)"
    and fresh: "hc_namespace c \<notin> set (bs_seen_namespaces s)"
    and s': "s' = \<lparr>bs_contributions = bs_contributions s @ [c], bs_seen_namespaces = hc_namespace c # bs_seen_namespaces s,
          bs_owners = owners, bs_schema_bytes = bytes\<rparr>"
    by (auto simp: register_contribution_def and_then_Inr Let_def split: if_splits)
  from assms(2) have "bt_ok (bs_owners s)" by (simp add: build_inv_def Let_def)
  from register_tools [OF fold this] assms(2) fresh show ?thesis
    by (simp add: build_inv_def s' declared_snoc Let_def)
qed

lemma register_fold_inv:
  assumes "try_fold f s cs = Inr s'" "build_inv print_map s"
    and "\<And>s c s'. f s c = Inr s' \<Longrightarrow> P c \<and> register_contribution print_map s c = Inr s'"
  shows "build_inv print_map s' \<and> bs_contributions s' = bs_contributions s @ cs \<and> (\<forall>c\<in>set cs. P c)"
  using assms(1,2)
proof (induction cs arbitrary: s)
  case (Cons c cs)
  from Cons.prems(1) obtain s1 where s1: "f s c = Inr s1" "try_fold f s1 cs = Inr s'"
    by (auto simp: and_then_Inr split: sum.splits)
  from assms(3) [OF s1(1)] register_contribution_inv Cons.prems(2)
  have "build_inv print_map s1 \<and> bs_contributions s1 = bs_contributions s @ [c] \<and> P c" by blast
  with Cons.IH [OF s1(2)] show ?case by simp
qed simp

lemma build_inv_empty:
  "build_inv print_map \<lparr>bs_contributions = [], bs_seen_namespaces = [], bs_owners = [], bs_schema_bytes = 0\<rparr>"
  by (simp add: build_inv_def declared_def)

lemma register_brickD:
  "register_brick print_map s c = Inr s' \<Longrightarrow> \<not> is_factory_reserved (hc_namespace c) \<and> register_contribution print_map s c = Inr s'"
  by (simp add: register_brick_def split: if_splits)

lemma register_metaD:
  "register_meta print_map s c = Inr s' \<Longrightarrow> is_factory_reserved (hc_namespace c) \<and> register_contribution print_map s c = Inr s'"
  by (simp add: register_meta_def split: if_splits)

lemma router_buildD:
  assumes "router_build print_map b = Inr router"
  obtains s where "build_inv print_map s" "bs_contributions s = rb_bricks b @ rb_meta b" "finish_build s = Inr router"
    "\<forall>c\<in>set (rb_bricks b). \<not> is_factory_reserved (hc_namespace c)"
    "\<forall>c\<in>set (rb_meta b). is_factory_reserved (hc_namespace c)"
    "length (rb_bricks b) + length (rb_meta b) \<le> MAX_CONTRIBUTIONS"
proof -
  from assms obtain s1 s where folds: "try_fold (register_brick print_map)
        \<lparr>bs_contributions = [], bs_seen_namespaces = [], bs_owners = [], bs_schema_bytes = 0\<rparr> (rb_bricks b) = Inr s1"
      "try_fold (register_meta print_map) s1 (rb_meta b) = Inr s" "finish_build s = Inr router"
      "length (rb_bricks b) + length (rb_meta b) \<le> MAX_CONTRIBUTIONS"
    by (auto simp: router_build_def and_then_Inr Let_def split: if_splits)
  have s1: "build_inv print_map s1 \<and> bs_contributions s1 = rb_bricks b \<and> (\<forall>c\<in>set (rb_bricks b). \<not> is_factory_reserved (hc_namespace c))"
    using register_fold_inv [OF folds(1) build_inv_empty register_brickD] by simp
  then have inv1: "build_inv print_map s1" by simp
  have "build_inv print_map s \<and> bs_contributions s = rb_bricks b @ rb_meta b \<and> (\<forall>c\<in>set (rb_meta b). is_factory_reserved (hc_namespace c))"
    using register_fold_inv [OF folds(2) inv1 register_metaD] s1 by simp
  with s1 folds that show thesis by blast
qed

section \<open>Serving\<close>

text \<open>The type invariants of namespaces and tool names: both were made by their constructors.\<close>

definition contribution_ok :: "'w handler_contribution \<Rightarrow> bool" where
  "contribution_ok c \<longleftrightarrow> is_valid_segment (hc_namespace c)
     \<and> (\<forall>d\<in>set (hc_tools c). \<exists>ns operation. is_valid_segment ns \<and> tool_name_new ns operation = Inr (td_name d))"

lemma namespace_of_prefix:
  assumes "is_valid_segment ns" "name = ns @ CHR ''_'' # operation"
  shows "\<exists>h. is_valid_segment h \<and> namespace_of name = h \<and> name = h @ CHR ''_'' # operation_of name"
proof -
  from assms(2) have "CHR ''_'' \<in> set name" by simp
  from split_once_Some [OF this] obtain h t where ht: "name = h @ CHR ''_'' # t" "CHR ''_'' \<notin> set h"
    "split_once CHR ''_'' name = Some (h, t)" by blast
  have "h \<noteq> []"
    using ht(1) assms by (cases ns) (auto simp: valid_segment_Cons is_valid_segment_def ascii_defs less_eq_char_def)
  moreover have "\<exists>q. ns = h @ q"
    using ht(1,2) assms(2) by (auto simp: append_eq_append_conv2 Cons_eq_append_conv append_eq_Cons_conv)
  ultimately have "is_valid_segment h" using assms(1) valid_segment_prefix by blast
  with ht show ?thesis by (simp add: namespace_of_def operation_of_def namespace_new_def)
qed

text \<open>The name a registered tool is called by is rebuilt from two segments, and is the same name if it exists.\<close>

lemma rebuilt_name:
  assumes "is_valid_segment ns" "name = ns @ CHR ''_'' # operation"
  shows "tool_name_new (namespace_of name) (operation_of name)
    = (if is_valid_segment (operation_of name) then Inr name else Inl (InvalidOperation (operation_of name)))"
proof (cases "is_valid_segment (operation_of name)")
  case True
  from namespace_of_prefix [OF assms] show ?thesis using tool_name_new_valid [OF _ True] True by auto
qed (simp add: tool_name_new_def)

lemma rebuilt_own_name:
  assumes "is_valid_segment ns" "CHR ''_'' \<notin> set ns" "tool_name_new ns operation = Inr name"
  shows "is_valid_segment (operation_of name)"
  using tool_name_newD [OF assms(3)] assms(2) by (simp add: operation_of_def split_once_append)

lemma owner_lookup:
  assumes "build_inv print_map s" "finish_build s = Inr router"
  shows "bt_get (ar_tool_owner_by_name router) name = map_option rt_contribution_index (bt_get (bs_owners s) name)"
proof -
  have "map_of (map (\<lambda>(name, entry). (name, f entry)) m) name = map_option f (map_of m name)" for f :: "registered_tool \<Rightarrow> nat" and m
    by (induction m) auto
  with assms(2) show ?thesis by (auto simp: finish_build_def split: if_splits)
qed

lemma cached_names:
  assumes "build_inv print_map s" "finish_build s = Inr router"
  shows "router_tool_names router = map fst (bs_owners s)"
proof -
  have "tool_name (rt_tool e) = name" if "(name, e) \<in> set (bs_owners s)" for name e
  proof -
    from that assms(1) have "bt_get (bs_owners s) name = Some e"
      by (simp add: build_inv_def Let_def bt_ok_distinct)
    with assms(1) show ?thesis by (auto simp: build_inv_def Let_def declared_def entry_for_def tool_of_def)
  qed
  then have names: "map tool_name (map rt_tool (bt_values (bs_owners s))) = map fst (bs_owners s)"
    by (auto simp: bt_values_def)
  moreover have "sorted (map fst (bs_owners s))"
    using assms(1) by (simp add: build_inv_def Let_def bt_ok_def strict_sorted_imp_sorted)
  ultimately have "sort_key tool_name (map rt_tool (bt_values (bs_owners s))) = map rt_tool (bt_values (bs_owners s))"
    by (metis sort_key_id_if_sorted)
  with names assms(2) show ?thesis by (auto simp: finish_build_def router_tool_names_def split: if_splits)
qed

lemma owners_get: "build_inv print_map s \<Longrightarrow> bt_get (bs_owners s) name = Some e \<longleftrightarrow> declared (bs_contributions s) name e"
  by (simp add: build_inv_def Let_def)

lemma declared_index:
  "(\<exists>e. declared cs name e \<and> rt_contribution_index e = i) \<longleftrightarrow> i < length cs \<and> name \<in> td_name ` set (hc_tools (cs ! i))"
  unfolding declared_def by (force simp: entry_for_def)

lemma declared_ex: "(\<exists>e. declared cs name e) \<longleftrightarrow> (\<exists>c\<in>set cs. name \<in> td_name ` set (hc_tools c))"
  unfolding declared_def image_iff by (metis in_set_conv_nth)

lemma owners_declared:
  assumes "build_inv print_map s" "finish_build s = Inr router" "bs_contributions s = cs"
  shows "bt_get (ar_tool_owner_by_name router) name = Some i \<longleftrightarrow> i < length cs \<and> name \<in> td_name ` set (hc_tools (cs ! i))"
  using declared_index [of cs name i] assms(3)
  by (simp add: owner_lookup [OF assms(1,2)] map_option_eq_Some owners_get [OF assms(1)])

lemma declared_names:
  assumes "build_inv print_map s" "finish_build s = Inr router" "bs_contributions s = cs"
  shows "set (router_tool_names router) = (\<Union>c\<in>set cs. td_name ` set (hc_tools c))"
proof -
  have "name \<in> set (router_tool_names router) \<longleftrightarrow> (\<exists>e. bt_get (bs_owners s) name = Some e)" for name
    using cached_names [OF assms(1,2)] by (simp add: map_of_eq_None_iff flip: not_None_eq)
  then show ?thesis
    using declared_ex [of cs] assms(3) by (auto simp: owners_get [OF assms(1)])
qed

lemma sum_bytes:
  "sum_list (map (descriptor_bytes print_map) (concat (map hc_tools cs)))
     = sum_list (map (\<lambda>c. sum_list (map (descriptor_bytes print_map) (hc_tools c))) cs)"
  by (induction cs) auto

lemma declared_name_form:
  assumes "contribution_ok c" "name \<in> td_name ` set (hc_tools c)"
  shows "\<exists>ns operation. is_valid_segment ns \<and> name = ns @ CHR ''_'' # operation"
  using assms tool_name_newD by (fastforce simp: contribution_ok_def)

lemma call_declared:
  assumes "router_build print_map b = Inr router" "c \<in> set (rb_bricks b @ rb_meta b)" "contribution_ok c"
    and "name \<in> td_name ` set (hc_tools c)"
  shows "call_tool display quote router name arguments w =
           (if is_valid_segment (operation_of name)
            then (case hc_dispatch c name (case arguments of None \<Rightarrow> JObject [] | Some es \<Rightarrow> JObject es) w of
                    (r, w') \<Rightarrow> (Some (call_outcome display quote name r), w'))
            else (Some (Inl \<lparr>ed_code = InternalError, ed_message = ''malformed registered tool name''\<rparr>), w))"
proof -
  from assms(1) obtain s where s: "build_inv print_map s" "bs_contributions s = rb_bricks b @ rb_meta b" "finish_build s = Inr router"
    by (rule router_buildD)
  from assms(2) obtain i where i: "i < length (rb_bricks b @ rb_meta b)" "(rb_bricks b @ rb_meta b) ! i = c"
    unfolding in_set_conv_nth by blast
  with assms(4) owners_declared [OF s(1,3,2)] have "bt_get (ar_tool_owner_by_name router) name = Some i" by blast
  moreover have "ar_contributions router = rb_bricks b @ rb_meta b"
    using s(2,3) by (auto simp: finish_build_def split: if_splits)
  moreover obtain ns operation where "is_valid_segment ns" "name = ns @ CHR ''_'' # operation"
    using declared_name_form [OF assms(3,4)] by blast
  note rebuilt_name [OF this]
  ultimately show ?thesis using i by (simp add: call_tool_def Let_def)
qed

text \<open>C23: A router that could be built serves exactly what was declared. Its list of tools is sorted,
  has no repetition and holds the names all contributions declare; there are at most 32
  contributions and 256 tools, and their descriptors stay within 32 KiB; no brick has the reserved
  namespace and no two contributions share one. A call never panics. A call by a name nobody
  declares is answered with "method not found" and reaches no one. A call by a declared name
  reaches the one contribution that declares it, under exactly this name and with exactly these
  arguments, if the text after the first underscore is a valid segment, and this is so whenever
  the namespace the name was made with contains no underscore. Otherwise, as for a name made from
  the valid segments \<open>a_1\<close> and \<open>x\<close>, the tool is listed but every call of it fails.\<close>

theorem router_serves_declared_tools:
  fixes b :: "'w router_builder"
  assumes build: "router_build print_map b = Inr router"
    and cs: "cs = rb_bricks b @ rb_meta b" and ok: "\<forall>c\<in>set cs. contribution_ok c"
  shows "sorted (router_tool_names router) \<and> distinct (router_tool_names router)
    \<and> set (router_tool_names router) = (\<Union>c\<in>set cs. td_name ` set (hc_tools c))
    \<and> length cs \<le> 32 \<and> length (router_tool_names router) \<le> 256
    \<and> sum_list (map (descriptor_bytes print_map) (concat (map hc_tools cs))) \<le> 32768
    \<and> distinct (map hc_namespace cs) \<and> (\<forall>c\<in>set (rb_bricks b). hc_namespace c \<noteq> ''factory'')
    \<and> (name \<notin> set (router_tool_names router) \<longrightarrow> call_tool display quote router name arguments w
         = (Some (Inl \<lparr>ed_code = MethodNotFound, ed_message = ''unknown tool '' @ quote name\<rparr>), w))
    \<and> (\<forall>c\<in>set cs. name \<in> td_name ` set (hc_tools c) \<longrightarrow>
         call_tool display quote router name arguments w =
           (if is_valid_segment (operation_of name)
            then (case hc_dispatch c name (case arguments of None \<Rightarrow> JObject [] | Some es \<Rightarrow> JObject es) w of
                    (r, w') \<Rightarrow> (Some (call_outcome display quote name r), w'))
            else (Some (Inl \<lparr>ed_code = InternalError, ed_message = ''malformed registered tool name''\<rparr>), w)))
    \<and> (\<forall>ns operation. is_valid_segment ns \<and> CHR ''_'' \<notin> set ns \<and> tool_name_new ns operation = Inr name
         \<longrightarrow> is_valid_segment (operation_of name))
    \<and> (is_valid_segment ''a_1'' \<and> tool_name_new ''a_1'' ''x'' = Inr ''a_1_x'' \<and> \<not> is_valid_segment (operation_of ''a_1_x''))"
proof -
  from build obtain s where s: "build_inv print_map s" "bs_contributions s = cs" "finish_build s = Inr router"
    "\<forall>c\<in>set (rb_bricks b). \<not> is_factory_reserved (hc_namespace c)" "length cs \<le> 32"
    by (rule router_buildD) (use cs in \<open>auto simp: MAX_CONTRIBUTIONS_def\<close>)
  note owners = owners_declared [OF s(1,3,2)] and names = cached_names [OF s(1,3)]
  have budget: "length (bs_owners s) \<le> 256" "bs_schema_bytes s \<le> 32768"
    using s(3) by (auto simp: finish_build_def MAX_TOOLS_def MAX_AGGREGATE_SCHEMA_BYTES_def split: if_splits)
  have bytes: "bs_schema_bytes s = sum_list (map (descriptor_bytes print_map) (concat (map hc_tools cs)))"
    using s(1,2) sum_bytes [of print_map cs] by (simp add: build_inv_def Let_def)
  have sorted: "sorted (router_tool_names router) \<and> distinct (router_tool_names router)"
    using s(1) by (simp add: names build_inv_def Let_def bt_ok_def strict_sorted_iff)
  have unknown: "call_tool display quote router name arguments w
      = (Some (Inl \<lparr>ed_code = MethodNotFound, ed_message = ''unknown tool '' @ quote name\<rparr>), w)"
    if "name \<notin> set (router_tool_names router)"
  proof -
    from that have "bt_get (ar_tool_owner_by_name router) name = None"
      by (simp add: owner_lookup [OF s(1,3)] names map_of_eq_None_iff)
    then show ?thesis by (simp add: call_tool_def)
  qed
  have routed: "call_tool display quote router name arguments w =
           (if is_valid_segment (operation_of name)
            then (case hc_dispatch c name (case arguments of None \<Rightarrow> JObject [] | Some es \<Rightarrow> JObject es) w of
                    (r, w') \<Rightarrow> (Some (call_outcome display quote name r), w'))
            else (Some (Inl \<lparr>ed_code = InternalError, ed_message = ''malformed registered tool name''\<rparr>), w))"
    if "c \<in> set cs" "name \<in> td_name ` set (hc_tools c)" for c
    using call_declared [OF build] that ok cs by simp
  have gap: "is_valid_segment ''a_1'' \<and> tool_name_new ''a_1'' ''x'' = Inr ''a_1_x'' \<and> \<not> is_valid_segment (operation_of ''a_1_x'')"
    by (simp add: is_valid_segment_def tool_name_new_def MAX_SEGMENT_BYTES_def operation_of_def split_once_def split_two_def
        ascii_defs less_eq_char_def)
  show ?thesis
    using sorted declared_names [OF s(1,3,2)] s(4,5) budget bytes names unknown routed gap rebuilt_own_name s(1,2)
    by (auto simp: is_factory_reserved_def FACTORY_NAMESPACE_def build_inv_def Let_def)
qed

definition sample_tool :: "string \<Rightarrow> tool_descriptor" where
  "sample_tool name = \<lparr>td_name = name, td_title = None, td_description = [], td_input_schema = [], td_output_schema = None\<rparr>"

definition sample_brick :: "nat handler_contribution" where
  "sample_brick = \<lparr>hc_namespace = ''a_1'', hc_tools = [sample_tool ''a_1_x''],
     hc_dispatch = (\<lambda>tool arguments w. (Inr \<lparr>do_payload = JNull, do_is_error = False\<rparr>, w + 1))\<rparr>"

definition sample_meta :: "nat handler_contribution" where
  "sample_meta = \<lparr>hc_namespace = ''factory'', hc_tools = [sample_tool ''factory_list''],
     hc_dispatch = (\<lambda>tool arguments w. (Inr \<lparr>do_payload = JNull, do_is_error = False\<rparr>, w + 1))\<rparr>"

definition sample_builder :: "nat router_builder" where
  "sample_builder = with_project_meta (with_brick builder_new sample_brick) sample_meta"

definition sample_router :: "nat aggregate_router" where
  "sample_router = \<lparr>ar_tools_cache = [tool_of (sample_tool ''a_1_x''), tool_of (sample_tool ''factory_list'')],
     ar_tool_owner_by_name = [(''a_1_x'', 0), (''factory_list'', 1)], ar_contributions = [sample_brick, sample_meta]\<rparr>"

lemma sample_build: "router_build (\<lambda>m. Some []) sample_builder = Inr sample_router"
  by (simp add: router_build_def sample_builder_def with_project_meta_def with_brick_def builder_new_def sample_router_def
      register_brick_def register_meta_def register_contribution_def register_tool_def is_factory_reserved_def FACTORY_NAMESPACE_def
      sample_brick_def sample_meta_def sample_tool_def finish_build_def MAX_CONTRIBUTIONS_def MAX_TOOLS_def
      MAX_AGGREGATE_SCHEMA_BYTES_def descriptor_bytes_def tool_of_def bt_contains_key_def bt_values_def Let_def less_char_def)

lemma sample_contributions: "\<forall>c\<in>set [sample_brick, sample_meta]. contribution_ok c"
proof -
  have "is_valid_segment ''a_1'' \<and> is_valid_segment ''factory''"
    "tool_name_new ''a_1'' ''x'' = Inr ''a_1_x''" "tool_name_new ''factory'' ''list'' = Inr ''factory_list''"
    by (simp_all add: is_valid_segment_def tool_name_new_def MAX_SEGMENT_BYTES_def ascii_defs less_eq_char_def)
  then show ?thesis by (auto simp: contribution_ok_def sample_brick_def sample_meta_def sample_tool_def)
qed

text \<open>The router lists both tools; the call of the first fails and does not reach its brick.\<close>

theorem router_serves_declared_tools_witness:
  "set (router_tool_names sample_router) = {''a_1_x'', ''factory_list''}
   \<and> call_tool (\<lambda>v. ''null'') id sample_router ''a_1_x'' None 0
       = (Some (Inl \<lparr>ed_code = InternalError, ed_message = ''malformed registered tool name''\<rparr>), 0)"
proof -
  have cs: "[sample_brick, sample_meta] = rb_bricks sample_builder @ rb_meta sample_builder"
    by (simp add: sample_builder_def with_project_meta_def with_brick_def builder_new_def)
  note served = router_serves_declared_tools [OF sample_build cs sample_contributions,
      where name = "''a_1_x''" and display = "\<lambda>v. ''null''" and quote = id and arguments = None and w = 0]
  have "set (router_tool_names sample_router) = (\<Union>c\<in>set [sample_brick, sample_meta]. td_name ` set (hc_tools c))"
    using served by (elim conjE)
  then have names: "set (router_tool_names sample_router) = {''a_1_x'', ''factory_list''}"
    by (simp add: sample_brick_def sample_meta_def sample_tool_def insert_commute)
  have invalid: "\<not> is_valid_segment (operation_of ''a_1_x'')" using served by (elim conjE)
  have "''a_1_x'' \<in> td_name ` set (hc_tools sample_brick)" by (simp add: sample_brick_def sample_tool_def)
  then have "call_tool (\<lambda>v. ''null'') id sample_router ''a_1_x'' None 0
      = (Some (Inl \<lparr>ed_code = InternalError, ed_message = ''malformed registered tool name''\<rparr>), 0)"
    using served invalid by (elim conjE) simp
  with names show ?thesis by blast
qed

end
