(* ===== verification/Sandbox_Mcp.thy ===== *)
theory Sandbox_Mcp
  imports Mcp_Access Mcp_Router_Properties Sandbox
begin

text \<open>
  The tool surface of the sandbox crate (\<open>sandbox/src/mcp.rs\<close>): the gate, the four effectful tools
  and the two descriptive ones, as the standalone server and as a contribution to the router.
  Decoding of arguments and the generated schemas are parameters.
\<close>

section \<open>The surface\<close>

definition MAX_DTO_BYTES :: nat where "MAX_DTO_BYTES = 16 * 1024"
definition MAX_RESPONSE_BYTES :: nat where "MAX_RESPONSE_BYTES = 48 * 1024"

definition SANDBOX_TOOLS :: "string list" where
  "SANDBOX_TOOLS = [''sandbox_capabilities'', ''sandbox_schema'', ''sandbox_start'', ''sandbox_execute'', ''sandbox_status'',
     ''sandbox_stop'']"

record 'w sandbox_mcp =
  sm_sandbox :: "'w sandbox_port"
  sm_host :: "'w host"

definition sandbox_namespace :: string where "sandbox_namespace = ''sandbox''"

record execute_input =
  xi_sandbox_id :: string
  xi_program :: string
  xi_arguments :: "string list"
  xi_working_directory :: string
  xi_timeout_millis :: u64

definition start_input_json :: "string \<Rightarrow> json" where
  "start_input_json profile = JObject [(''profile'', JString profile)]"

definition execute_input_json :: "execute_input \<Rightarrow> json" where
  "execute_input_json input = JObject [(''sandbox_id'', JString (xi_sandbox_id input)), (''program'', JString (xi_program input)),
     (''arguments'', json_strings (xi_arguments input)), (''working_directory'', JString (xi_working_directory input)),
     (''timeout_millis'', JNumber (word_to_string (xi_timeout_millis input)))]"

definition target_input_json :: "string \<Rightarrow> json" where
  "target_input_json i = JObject [(''sandbox_id'', JString i)]"

definition empty_input_json :: json where
  "empty_input_json = JObject []"

text \<open>\<open>print\<close> is \<open>serde_json::to_string\<close>: the text, or the message of the error.\<close>

definition sandbox_check_size :: "(json \<Rightarrow> (string, string) result) \<Rightarrow> json \<Rightarrow> (unit, string) result" where
  "sandbox_check_size print v =
     and_then (print v) (\<lambda>text. if length text \<le> MAX_DTO_BYTES then Inr () else Inl ''limit_exceeded'')"

definition sandbox_serialize :: "(json \<Rightarrow> (string, string) result) \<Rightarrow> json \<Rightarrow> (string, string) result" where
  "sandbox_serialize print v =
     and_then (print v) (\<lambda>text. if length text \<le> MAX_RESPONSE_BYTES then Inr text else Inl ''limit_exceeded'')"

fun mcp_status :: "sandbox_status \<Rightarrow> string" where
  "mcp_status Running = ''running''"
| "mcp_status Stopped = ''stopped''"

definition project_start :: "(json \<Rightarrow> (string, string) result) \<Rightarrow> start_result \<Rightarrow> (string, string) result" where
  "project_start print r = sandbox_serialize print
     (JObject [(''sandbox_id'', JString (so_sandbox_id r)), (''status'', JString (mcp_status (so_status r)))])"

definition project_execute :: "(json \<Rightarrow> (string, string) result) \<Rightarrow> execute_result \<Rightarrow> (string, string) result" where
  "project_execute print r = sandbox_serialize print
     (JObject [(''sandbox_id'', JString (xo_sandbox_id r)), (''exit_code'', JNumber (int_to_string (xo_exit_code r))),
       (''stdout'', JString (xo_stdout r)), (''stderr'', JString (xo_stderr r)), (''truncated'', JBool (xo_truncated r))])"

definition project_status :: "(json \<Rightarrow> (string, string) result) \<Rightarrow> status_result \<Rightarrow> (string, string) result" where
  "project_status print r = sandbox_serialize print
     (JObject [(''sandbox_id'', JString (to_sandbox_id r)), (''status'', JString (mcp_status (to_status r)))])"

definition project_stop :: "(json \<Rightarrow> (string, string) result) \<Rightarrow> stop_result \<Rightarrow> (string, string) result" where
  "project_stop print r = sandbox_serialize print
     (JObject [(''sandbox_id'', JString (po_sandbox_id r)), (''removed'', JBool (po_removed r))])"

section \<open>The gate and the tools\<close>

definition sandbox_context_of :: "trusted_context_v1 \<Rightarrow> (sandbox_context, sandbox_error) result" where
  "sandbox_context_of trusted =
     map_err (\<lambda>_. Sandbox.Denied)
      (and_then (Sandbox.logical_id_new (tc_tenant_id trusted)) (\<lambda>tenant.
       and_then (Sandbox.logical_id_new (tc_principal_id trusted)) (\<lambda>principal_id.
       and_then (Sandbox.logical_id_new (tc_request_id trusted)) (\<lambda>request.
       and_then (Sandbox.logical_id_new (tc_correlation_id trusted)) (\<lambda>correlation.
         Inr \<lparr>sc_tenant_id = tenant, sc_principal_id = principal_id, sc_request_id = request, sc_correlation_id = correlation\<rparr>)))))"

definition sandbox_authorize :: "(string \<Rightarrow> string) \<Rightarrow> 'w sandbox_mcp \<Rightarrow> capability_v1
    \<Rightarrow> (sandbox_context, sandbox_error, 'w) st" where
  "sandbox_authorize sha256_hex m capability =
     st_then (st_map_err (\<lambda>_. Sandbox.Denied) (pass_gate sha256_hex (sm_host m) capability)) (\<lambda>(trusted, grant, digest).
       st_of (sandbox_context_of trusted))"

definition start_json :: "(json \<Rightarrow> (string, string) result) \<Rightarrow> (string \<Rightarrow> string) \<Rightarrow> 'w sandbox_mcp \<Rightarrow> string
    \<Rightarrow> (string, string, 'w) st" where
  "start_json print sha256_hex m profile =
     st_then (st_of (sandbox_check_size print (start_input_json profile))) (\<lambda>_.
     st_then (st_of (map_err sandbox_error_as_str (Sandbox.logical_id_new profile))) (\<lambda>profile_id.
     st_then (st_map_err sandbox_error_as_str (sandbox_authorize sha256_hex m SandboxStart)) (\<lambda>context.
     st_then (st_map_err sandbox_error_as_str
        (port_start (sm_sandbox m) \<lparr>sr_context = context, sr_profile_id = profile_id\<rparr>)) (\<lambda>result.
       st_of (project_start print result)))))"

definition execute_json :: "(json \<Rightarrow> (string, string) result) \<Rightarrow> (string \<Rightarrow> string) \<Rightarrow> 'w sandbox_mcp \<Rightarrow> execute_input
    \<Rightarrow> (string, string, 'w) st" where
  "execute_json print sha256_hex m input =
     st_then (st_of (sandbox_check_size print (execute_input_json input))) (\<lambda>_.
     st_then (st_of (map_err sandbox_error_as_str (sandbox_id_new (xi_sandbox_id input)))) (\<lambda>i.
     st_then (st_of (map_err sandbox_error_as_str (command_new (xi_program input) (xi_arguments input)
        (xi_working_directory input) (xi_timeout_millis input)))) (\<lambda>command.
     st_then (st_map_err sandbox_error_as_str (sandbox_authorize sha256_hex m SandboxExecute)) (\<lambda>context.
     st_then (st_map_err sandbox_error_as_str
        (port_execute (sm_sandbox m) \<lparr>xr_context = context, xr_sandbox_id = i, xr_command = command\<rparr>)) (\<lambda>result.
       st_of (project_execute print result))))))"

definition status_json :: "(json \<Rightarrow> (string, string) result) \<Rightarrow> (string \<Rightarrow> string) \<Rightarrow> 'w sandbox_mcp \<Rightarrow> string
    \<Rightarrow> (string, string, 'w) st" where
  "status_json print sha256_hex m sandbox =
     st_then (st_of (sandbox_check_size print (target_input_json sandbox))) (\<lambda>_.
     st_then (st_of (map_err sandbox_error_as_str (sandbox_id_new sandbox))) (\<lambda>i.
     st_then (st_map_err sandbox_error_as_str (sandbox_authorize sha256_hex m SandboxStatus)) (\<lambda>context.
     st_then (st_map_err sandbox_error_as_str
        (port_status (sm_sandbox m) \<lparr>tg_context = context, tg_sandbox_id = i\<rparr>)) (\<lambda>result.
       st_of (project_status print result)))))"

definition stop_json :: "(json \<Rightarrow> (string, string) result) \<Rightarrow> (string \<Rightarrow> string) \<Rightarrow> 'w sandbox_mcp \<Rightarrow> string
    \<Rightarrow> (string, string, 'w) st" where
  "stop_json print sha256_hex m sandbox =
     st_then (st_of (sandbox_check_size print (target_input_json sandbox))) (\<lambda>_.
     st_then (st_of (map_err sandbox_error_as_str (sandbox_id_new sandbox))) (\<lambda>i.
     st_then (st_map_err sandbox_error_as_str (sandbox_authorize sha256_hex m SandboxStop)) (\<lambda>context.
     st_then (st_map_err sandbox_error_as_str
        (port_stop (sm_sandbox m) \<lparr>tg_context = context, tg_sandbox_id = i\<rparr>)) (\<lambda>result.
       st_of (project_stop print result)))))"

definition capabilities_json :: "(json \<Rightarrow> (string, string) result) \<Rightarrow> (string, string) result" where
  "capabilities_json print =
     and_then (sandbox_check_size print empty_input_json) (\<lambda>_.
       sandbox_serialize print (json_object [
         (''operations'', json_strings [''start'', ''execute'', ''status'', ''stop'']),
         (''durable'', JBool False), (''retries'', JBool False), (''recovery'', JBool False)]))"

text \<open>\<open>schema_for\<close> gives the generated schema of a type by its name.\<close>

definition schema_json :: "(string \<Rightarrow> json) \<Rightarrow> (json \<Rightarrow> (string, string) result) \<Rightarrow> (string, string) result" where
  "schema_json schema_for print =
     and_then (sandbox_check_size print empty_input_json) (\<lambda>_.
       sandbox_serialize print (json_object [
         (''requests'', json_object [(''start'', schema_for ''StartInput''), (''execute'', schema_for ''ExecuteInput''),
            (''status'', schema_for ''TargetInput''), (''stop'', schema_for ''TargetInput'')]),
         (''responses'', json_object [(''start'', schema_for ''StartOutput''), (''execute'', schema_for ''ExecuteOutput''),
            (''status'', schema_for ''StatusOutput''), (''stop'', schema_for ''StopOutput'')])]))"

definition sandbox_tool_response :: "(json \<Rightarrow> string) \<Rightarrow> (string, string) result \<Rightarrow> string" where
  "sandbox_tool_response display = error_reply display [''invalid_request'', ''not_found'', ''denied'', ''limit_exceeded'',
     ''timeout'', ''unavailable'', ''outcome_unknown''] ''operation_failed''"

section \<open>The contribution to the router\<close>

text \<open>Decoding of arguments into the input types, and the parameters of the surface together.\<close>

record sandbox_codec =
  sd_print :: "json \<Rightarrow> (string, string) result"
  sd_display :: "json \<Rightarrow> string"
  sd_parse :: "string \<Rightarrow> json option"
  sd_schema_for :: "string \<Rightarrow> json"
  sd_start :: "json \<Rightarrow> string option"
  sd_execute :: "json \<Rightarrow> execute_input option"
  sd_target :: "json \<Rightarrow> string option"
  sd_empty :: "json \<Rightarrow> unit option"

definition schema_map :: "(string \<Rightarrow> json) \<Rightarrow> string \<Rightarrow> (string, json) btree_map" where
  "schema_map schema_for name = (case schema_for name of JObject es \<Rightarrow> es | _ \<Rightarrow> [])"

text \<open>A descriptor whose name is not a valid segment makes the server panic: \<open>None\<close>.\<close>

definition descriptor :: "string \<Rightarrow> string \<Rightarrow> string \<Rightarrow> (string, json) btree_map \<Rightarrow> tool_descriptor option" where
  "descriptor namespace operation description schema =
     (case tool_name_new namespace operation of Inl _ \<Rightarrow> None
      | Inr name \<Rightarrow> Some \<lparr>td_name = name, td_title = None, td_description = description, td_input_schema = schema,
          td_output_schema = None\<rparr>)"

definition sandbox_descriptors :: "(string \<Rightarrow> json) \<Rightarrow> tool_descriptor option list" where
  "sandbox_descriptors schema_for =
     [descriptor sandbox_namespace ''start'' ''Start one trusted ephemeral sandbox profile.'' (schema_map schema_for ''StartInput''),
      descriptor sandbox_namespace ''execute'' ''Execute one bounded command in an owned sandbox.'' (schema_map schema_for ''ExecuteInput''),
      descriptor sandbox_namespace ''status'' ''Read one owned sandbox status.'' (schema_map schema_for ''TargetInput''),
      descriptor sandbox_namespace ''stop'' ''Stop and remove one owned sandbox.'' (schema_map schema_for ''TargetInput''),
      descriptor sandbox_namespace ''capabilities'' ''Describe the minimal Sandbox operations and guarantees.'' (schema_map schema_for ''EmptyInput''),
      descriptor sandbox_namespace ''schema'' ''Return generated closed request and response schemas.'' (schema_map schema_for ''EmptyInput'')]"

definition deserialize_arguments :: "(json \<Rightarrow> 'a option) \<Rightarrow> json \<Rightarrow> ('a, dispatch_error) result" where
  "deserialize_arguments decode arguments =
     ok_or (decode arguments) (MalformedArguments ''could not parse tool arguments'')"

definition fold_outcome :: "sandbox_codec \<Rightarrow> (string, string) result \<Rightarrow> dispatch_outcome" where
  "fold_outcome codec result =
     \<lparr>do_payload = (case sd_parse codec (sandbox_tool_response (sd_display codec) result) of
        Some v \<Rightarrow> v | None \<Rightarrow> json_object [(''error'', JString ''operation_failed'')]),
      do_is_error = False\<rparr>"

definition fold_st :: "sandbox_codec \<Rightarrow> (string, string, 'w) st \<Rightarrow> (dispatch_outcome, dispatch_error, 'w) st" where
  "fold_st codec m = st_match m (\<lambda>r. st_of (Inr (fold_outcome codec r)))"

definition sandbox_dispatch :: "sandbox_codec \<Rightarrow> (string \<Rightarrow> string) \<Rightarrow> 'w sandbox_mcp \<Rightarrow> string \<Rightarrow> json
    \<Rightarrow> (dispatch_outcome, dispatch_error, 'w) st" where
  "sandbox_dispatch codec sha256_hex m tool arguments =
     (if tool = ''sandbox_start'' then
        st_then (st_of (deserialize_arguments (sd_start codec) arguments)) (\<lambda>input.
          fold_st codec (start_json (sd_print codec) sha256_hex m input))
      else if tool = ''sandbox_execute'' then
        st_then (st_of (deserialize_arguments (sd_execute codec) arguments)) (\<lambda>input.
          fold_st codec (execute_json (sd_print codec) sha256_hex m input))
      else if tool = ''sandbox_status'' then
        st_then (st_of (deserialize_arguments (sd_target codec) arguments)) (\<lambda>input.
          fold_st codec (status_json (sd_print codec) sha256_hex m input))
      else if tool = ''sandbox_stop'' then
        st_then (st_of (deserialize_arguments (sd_target codec) arguments)) (\<lambda>input.
          fold_st codec (stop_json (sd_print codec) sha256_hex m input))
      else if tool = ''sandbox_capabilities'' then
        st_then (st_of (deserialize_arguments (sd_empty codec) arguments)) (\<lambda>input.
          st_of (Inr (fold_outcome codec (capabilities_json (sd_print codec)))))
      else if tool = ''sandbox_schema'' then
        st_then (st_of (deserialize_arguments (sd_empty codec) arguments)) (\<lambda>input.
          st_of (Inr (fold_outcome codec (schema_json (sd_schema_for codec) (sd_print codec)))))
      else st_of (Inl UnknownTool))"

definition sandbox_contribution :: "sandbox_codec \<Rightarrow> (string \<Rightarrow> string) \<Rightarrow> 'w sandbox_mcp \<Rightarrow> 'w handler_contribution" where
  "sandbox_contribution codec sha256_hex m =
     \<lparr>hc_namespace = sandbox_namespace, hc_tools = concat (map (\<lambda>d. case d of None \<Rightarrow> [] | Some t \<Rightarrow> [t])
        (sandbox_descriptors (sd_schema_for codec))),
      hc_dispatch = sandbox_dispatch codec sha256_hex m\<rparr>"

text \<open>The tools of the standalone server.\<close>

datatype sandbox_tool_input =
    CapabilitiesTool | SchemaTool | StartTool string | ExecuteTool execute_input | StatusTool string | StopTool string

fun sandbox_tool_call :: "sandbox_codec \<Rightarrow> (string \<Rightarrow> string) \<Rightarrow> 'w sandbox_mcp \<Rightarrow> sandbox_tool_input \<Rightarrow> 'w \<Rightarrow> string \<times> 'w" where
  "sandbox_tool_call codec sha256_hex m CapabilitiesTool w =
     (sandbox_tool_response (sd_display codec) (capabilities_json (sd_print codec)), w)"
| "sandbox_tool_call codec sha256_hex m SchemaTool w =
     (sandbox_tool_response (sd_display codec) (schema_json (sd_schema_for codec) (sd_print codec)), w)"
| "sandbox_tool_call codec sha256_hex m (StartTool input) w =
     map_prod (sandbox_tool_response (sd_display codec)) id (start_json (sd_print codec) sha256_hex m input w)"
| "sandbox_tool_call codec sha256_hex m (ExecuteTool input) w =
     map_prod (sandbox_tool_response (sd_display codec)) id (execute_json (sd_print codec) sha256_hex m input w)"
| "sandbox_tool_call codec sha256_hex m (StatusTool input) w =
     map_prod (sandbox_tool_response (sd_display codec)) id (status_json (sd_print codec) sha256_hex m input w)"
| "sandbox_tool_call codec sha256_hex m (StopTool input) w =
     map_prod (sandbox_tool_response (sd_display codec)) id (stop_json (sd_print codec) sha256_hex m input w)"

text \<open>Both ways to call a tool answer the same: the contribution's payload is the text of the
  standalone server, read back.\<close>

definition decode_call :: "sandbox_codec \<Rightarrow> string \<Rightarrow> json \<Rightarrow> sandbox_tool_input option" where
  "decode_call codec tool arguments =
     (if tool = ''sandbox_start'' then map_option StartTool (sd_start codec arguments)
      else if tool = ''sandbox_execute'' then map_option ExecuteTool (sd_execute codec arguments)
      else if tool = ''sandbox_status'' then map_option StatusTool (sd_target codec arguments)
      else if tool = ''sandbox_stop'' then map_option StopTool (sd_target codec arguments)
      else if tool = ''sandbox_capabilities'' then map_option (\<lambda>_. CapabilitiesTool) (sd_empty codec arguments)
      else if tool = ''sandbox_schema'' then map_option (\<lambda>_. SchemaTool) (sd_empty codec arguments)
      else None)"

lemma dispatch_standalone:
  assumes "decode_call codec tool arguments = Some input" "sd_parse codec (fst (sandbox_tool_call codec sha256_hex m input w)) = Some v"
  shows "sandbox_dispatch codec sha256_hex m tool arguments w
    = (Inr \<lparr>do_payload = v, do_is_error = False\<rparr>, snd (sandbox_tool_call codec sha256_hex m input w))"
  using assms unfolding decode_call_def sandbox_dispatch_def
  by (auto simp: deserialize_arguments_def fold_st_def fold_outcome_def st_then_def st_of_def st_match_def split: if_splits prod.splits)

section \<open>Nothing happens before the gate\<close>

definition logged_sandbox :: "'w sandbox_port \<Rightarrow> ('w \<times> sandbox_call access_event list) sandbox_port" where
  "logged_sandbox p = \<lparr>port_start = performing StartCall (port_start p), port_execute = performing ExecuteCall (port_execute p),
     port_status = performing StatusCall (port_status p), port_stop = performing StopCall (port_stop p)\<rparr>"

definition logged_mcp :: "'w sandbox_mcp \<Rightarrow> ('w \<times> sandbox_call access_event list) sandbox_mcp" where
  "logged_mcp m = \<lparr>sm_sandbox = logged_sandbox (sm_sandbox m), sm_host = logged_host (sm_host m)\<rparr>"

definition sandbox_capability_of :: "string \<Rightarrow> capability_v1 option" where
  "sandbox_capability_of tool =
     (if tool = ''sandbox_start'' then Some SandboxStart else if tool = ''sandbox_execute'' then Some SandboxExecute
      else if tool = ''sandbox_status'' then Some SandboxStatus else if tool = ''sandbox_stop'' then Some SandboxStop
      else None)"

fun call_is :: "capability_v1 \<Rightarrow> sandbox_context \<Rightarrow> sandbox_call \<Rightarrow> bool" where
  "call_is SandboxStart ctx (StartCall q) \<longleftrightarrow> sr_context q = ctx \<and> logical_id (sr_profile_id q)"
| "call_is SandboxExecute ctx (ExecuteCall q) \<longleftrightarrow> xr_context q = ctx \<and> sandbox_id (xr_sandbox_id q)
     \<and> (\<exists>program arguments directory timeout. command_new program arguments directory timeout = Inr (xr_command q))"
| "call_is SandboxStatus ctx (StatusCall q) \<longleftrightarrow> tg_context q = ctx \<and> sandbox_id (tg_sandbox_id q)"
| "call_is SandboxStop ctx (StopCall q) \<longleftrightarrow> tg_context q = ctx \<and> sandbox_id (tg_sandbox_id q)"
| "call_is _ _ _ \<longleftrightarrow> False"

definition sandbox_carries :: "string \<Rightarrow> trusted_context_v1 \<Rightarrow> grant_v1 \<Rightarrow> string \<Rightarrow> sandbox_call \<Rightarrow> bool" where
  "sandbox_carries tool trusted grant digest call \<longleftrightarrow>
     (\<exists>c ctx. sandbox_capability_of tool = Some c \<and> sandbox_context_of trusted = Inr ctx \<and> call_is c ctx call)"

lemma sandbox_context_sel:
  "sandbox_context_of trusted = Inr ctx \<Longrightarrow> sc_tenant_id ctx = tc_tenant_id trusted \<and> sc_principal_id ctx = tc_principal_id trusted
     \<and> sc_request_id ctx = tc_request_id trusted \<and> sc_correlation_id ctx = tc_correlation_id trusted
     \<and> logical_id (sc_tenant_id ctx) \<and> logical_id (sc_correlation_id ctx)"
  by (auto simp: sandbox_context_of_def result_simps Sandbox.logical_id_new_def split: if_splits)

lemma authorizes_sandbox:
  "authorizes sha256_hex (sm_host m) c (sandbox_authorize sha256_hex (logged_mcp m) c) (\<lambda>trusted g d ctx. sandbox_context_of trusted = Inr ctx)"
proof -
  have host: "sm_host (logged_mcp m) = logged_host (sm_host m)" by (simp add: logged_mcp_def)
  show ?thesis unfolding sandbox_authorize_def host split_beta by (rule authorizes_gate) simp
qed

lemma runs_gated_tool:
  assumes "sandbox_capability_of tool = Some c" "\<And>ctx. call_is c ctx (event (arg ctx))"
  shows "runs (st_then (st_map_err f (sandbox_authorize sha256_hex (logged_mcp m) c)) (\<lambda>ctx.
      st_then (st_map_err g (performing event op (arg ctx))) (\<lambda>r. st_of (k r)))) []
    (\<lambda>r s. gated sha256_hex (sm_host m) c (sandbox_carries tool) s)"
  by (rule runs_authorized [OF authorizes_sandbox], rule runs_perform_last)
    (use assms in \<open>auto simp: sandbox_carries_def\<close>)

lemma logged_mcp_ports [simp]:
  "port_start (sm_sandbox (logged_mcp m)) = performing StartCall (port_start (sm_sandbox m))"
  "port_execute (sm_sandbox (logged_mcp m)) = performing ExecuteCall (port_execute (sm_sandbox m))"
  "port_status (sm_sandbox (logged_mcp m)) = performing StatusCall (port_status (sm_sandbox m))"
  "port_stop (sm_sandbox (logged_mcp m)) = performing StopCall (port_stop (sm_sandbox m))"
  by (simp_all add: logged_mcp_def logged_sandbox_def)

lemma runs_start_json:
  "runs (start_json print sha256_hex (logged_mcp m) input) []
     (\<lambda>r s. gated sha256_hex (sm_host m) SandboxStart (sandbox_carries ''sandbox_start'') s)"
  unfolding start_json_def logged_mcp_ports
  by (intro runs_of_then runs_gated_tool)
    (auto simp: gated_idle sandbox_capability_of_def Sandbox.logical_id_new_def split: if_splits)

lemma runs_execute_json:
  "runs (execute_json print sha256_hex (logged_mcp m) input) []
     (\<lambda>r s. gated sha256_hex (sm_host m) SandboxExecute (sandbox_carries ''sandbox_execute'') s)"
  unfolding execute_json_def logged_mcp_ports
  by (intro runs_of_then runs_gated_tool)
    (auto simp: gated_idle sandbox_capability_of_def sandbox_id_new_def map_err_Inr split: if_splits)

lemma runs_status_json:
  "runs (status_json print sha256_hex (logged_mcp m) input) []
     (\<lambda>r s. gated sha256_hex (sm_host m) SandboxStatus (sandbox_carries ''sandbox_status'') s)"
  unfolding status_json_def logged_mcp_ports
  by (intro runs_of_then runs_gated_tool)
    (auto simp: gated_idle sandbox_capability_of_def sandbox_id_new_def split: if_splits)

lemma runs_stop_json:
  "runs (stop_json print sha256_hex (logged_mcp m) input) []
     (\<lambda>r s. gated sha256_hex (sm_host m) SandboxStop (sandbox_carries ''sandbox_stop'') s)"
  unfolding stop_json_def logged_mcp_ports
  by (intro runs_of_then runs_gated_tool)
    (auto simp: gated_idle sandbox_capability_of_def sandbox_id_new_def split: if_splits)

lemma runs_fold_st: "runs m t (\<lambda>r s. Q s) \<Longrightarrow> runs (fold_st codec m) t (\<lambda>r s. Q s)"
  unfolding fold_st_def by (rule runs_reply)

lemma sandbox_capability_cases:
  assumes "sandbox_capability_of tool = c"
  obtains "tool = ''sandbox_start''" "c = Some SandboxStart" | "tool = ''sandbox_execute''" "c = Some SandboxExecute"
    | "tool = ''sandbox_status''" "c = Some SandboxStatus" | "tool = ''sandbox_stop''" "c = Some SandboxStop"
    | "tool \<notin> {''sandbox_start'', ''sandbox_execute'', ''sandbox_status'', ''sandbox_stop''}" "c = None"
  using assms unfolding sandbox_capability_of_def by (auto split: if_splits)

lemma sandbox_capabilities:
  "sandbox_capability_of ''sandbox_start'' = Some SandboxStart" "sandbox_capability_of ''sandbox_execute'' = Some SandboxExecute"
  "sandbox_capability_of ''sandbox_status'' = Some SandboxStatus" "sandbox_capability_of ''sandbox_stop'' = Some SandboxStop"
  by (simp_all add: sandbox_capability_of_def)

lemma runs_dispatch:
  "runs (sandbox_dispatch codec sha256_hex (logged_mcp m) tool arguments) []
    (\<lambda>r s. case sandbox_capability_of tool of None \<Rightarrow> idle s
       | Some c \<Rightarrow> gated sha256_hex (sm_host m) c (sandbox_carries tool) s)"
proof (cases rule: sandbox_capability_cases [OF refl, of tool])
  case 1
  show ?thesis unfolding 1 sandbox_dispatch_def
    by (simp add: sandbox_capabilities) (auto intro!: runs_of_then runs_fold_st runs_start_json gated_idle)
next
  case 2
  show ?thesis unfolding 2 sandbox_dispatch_def
    by (simp add: sandbox_capabilities) (auto intro!: runs_of_then runs_fold_st runs_execute_json gated_idle)
next
  case 3
  show ?thesis unfolding 3 sandbox_dispatch_def
    by (simp add: sandbox_capabilities) (auto intro!: runs_of_then runs_fold_st runs_status_json gated_idle)
next
  case 4
  show ?thesis unfolding 4 sandbox_dispatch_def
    by (simp add: sandbox_capabilities) (auto intro!: runs_of_then runs_fold_st runs_stop_json gated_idle)
next
  case 5
  then show ?thesis unfolding sandbox_dispatch_def
    by (simp add: runs_of) (simp add: runs_of runs_of_then)
qed

interpretation sandbox_surface: tool_surface sha256_hex "sm_host m"
    "\<lambda>(tool, arguments). sandbox_dispatch codec sha256_hex (logged_mcp m) tool arguments"
    "\<lambda>(tool, arguments). sandbox_capability_of tool" "\<lambda>(tool, arguments). sandbox_carries tool" for sha256_hex m codec
proof
  fix t w r w' log
  assume "(case t of (tool, arguments) \<Rightarrow> sandbox_capability_of tool) = None"
    and "(case t of (tool, arguments) \<Rightarrow> sandbox_dispatch codec sha256_hex (logged_mcp m) tool arguments) (w, []) = (r, w', log)"
  then show "idle log" using runs_log [OF runs_dispatch] by (cases t) fastforce
next
  fix t c w r w' log
  assume "(case t of (tool, arguments) \<Rightarrow> sandbox_capability_of tool) = Some c"
    and "(case t of (tool, arguments) \<Rightarrow> sandbox_dispatch codec sha256_hex (logged_mcp m) tool arguments) (w, []) = (r, w', log)"
  then show "gated sha256_hex (sm_host m) c (case t of (tool, arguments) \<Rightarrow> sandbox_carries tool) log"
    using runs_log [OF runs_dispatch] by (cases t) fastforce
qed

text \<open>The sandbox is reached only through the gate. Whatever the sandbox, the host and the policy
  do, a tool call asks at most one thing of the sandbox, as its last act, and only after the
  host resolved a trusted context and the policy allowed exactly the capability of that tool for
  exactly that context, with a digest that verifies. What is asked is the operation of the tool,
  carries the trusted identifiers and nothing of the caller's but a validated profile, sandbox
  identifier or command. Under a static policy the tenant and principal hold the capability in its
  list. The two descriptive tools and unknown names ask nothing.\<close>

lemma sandbox_tools_are_gated:
  assumes "sandbox_dispatch codec sha256_hex (logged_mcp m) tool arguments (w, []) = (r, (w', log))"
    and "Performed call \<in> set log"
  shows "\<exists>c trusted ctx decision before. sandbox_capability_of tool = Some c
    \<and> log = [Resolved (Inr trusted), Decided \<lparr>ar_context = trusted, ar_capability = c\<rparr> decision, Performed call]
    \<and> fst (host_resolve (sm_host m) before) = Inr trusted
    \<and> (\<exists>g d. verified_grant sha256_hex \<lparr>ar_context = trusted, ar_capability = c\<rparr> decision = Inr (g, d))
    \<and> sandbox_context_of trusted = Inr ctx \<and> call_is c ctx call
    \<and> (\<forall>gs resolver. static_policy_resolver_new gs = Inr resolver \<and> decided_by (authorize sha256_hex resolver) (sm_host m)
         \<longrightarrow> map_of gs (GrantKeyV1 (tc_tenant_id trusted) (tc_principal_id trusted) c) \<noteq> None)"
  using sandbox_surface.performed_after_gate [where t = "(tool, arguments)", of codec sha256_hex m w r w' log call] assms
  by (fastforce simp: sandbox_carries_def)

definition demo_codec :: sandbox_codec where
  "demo_codec = \<lparr>sd_print = (\<lambda>v. Inr ''{}''), sd_display = (\<lambda>v. ''{}''), sd_parse = (\<lambda>s. Some JNull), sd_schema_for = (\<lambda>n. JObject []),
     sd_start = (\<lambda>v. Some ''rust''), sd_execute = (\<lambda>v. None), sd_target = (\<lambda>v. None), sd_empty = (\<lambda>v. Some ())\<rparr>"

definition demo_mcp :: "unit sandbox_mcp" where
  "demo_mcp = \<lparr>sm_sandbox = deny_sandbox, sm_host = static_host id demo_trusted full_grant\<rparr>"

definition demo_start :: sandbox_call where
  "demo_start = StartCall \<lparr>sr_context = \<lparr>sc_tenant_id = ''t'', sc_principal_id = ''p'', sc_request_id = ''r'', sc_correlation_id = ''c''\<rparr>,
     sr_profile_id = ''rust''\<rparr>"

lemma demo_start_performed:
  "\<exists>r log. sandbox_dispatch demo_codec id (logged_mcp demo_mcp) ''sandbox_start'' JNull ((), []) = (r, ((), log)) \<and> Performed demo_start \<in> set log"
proof -
  have ids: "Sandbox.logical_id_new i = Inr i" if "i \<in> {''t'', ''p'', ''r'', ''c'', ''rust''}" for i
    using that by (auto simp: Sandbox.logical_id_new_def logical_id_def MAX_ID_BYTES_def lower_or_digit_def ascii_defs less_eq_char_def)
  obtain decision d where gate: "pass_gate id (logged_host (static_host id demo_trusted full_grant)) SandboxStart ((), [] :: sandbox_call access_event list)
     = (Inr (demo_trusted, full_grant, d), ((), [Resolved (Inr demo_trusted), Decided \<lparr>ar_context = demo_trusted, ar_capability = SandboxStart\<rparr> decision]))"
    using pass_static_gate [where sha256_hex = id and w = "()" and c = SandboxStart] by blast
  have host: "sm_host (logged_mcp demo_mcp) = logged_host (static_host id demo_trusted full_grant)"
    by (simp add: logged_mcp_def demo_mcp_def)
  have ctx: "sandbox_context_of demo_trusted = Inr \<lparr>sc_tenant_id = ''t'', sc_principal_id = ''p'', sc_request_id = ''r'', sc_correlation_id = ''c''\<rparr>"
    by (simp add: sandbox_context_of_def demo_trusted_def ids)
  have port: "port_start (sm_sandbox demo_mcp) = (\<lambda>_. st_of (Inl Sandbox.Denied))" by (simp add: demo_mcp_def deny_sandbox_def)
  show ?thesis
    by (simp add: sandbox_dispatch_def deserialize_arguments_def fold_st_def start_json_def sandbox_authorize_def host gate ids
        st_then_def st_of_def st_match_def st_map_err_def sandbox_check_size_def demo_codec_def MAX_DTO_BYTES_def
        ctx port performing_def demo_start_def)
qed

lemma sandbox_tools_are_gated_witness:
  "\<exists>c trusted ctx. sandbox_capability_of ''sandbox_start'' = Some c \<and> sandbox_context_of trusted = Inr ctx \<and> call_is c ctx demo_start"
proof -
  obtain r log where "sandbox_dispatch demo_codec id (logged_mcp demo_mcp) ''sandbox_start'' JNull ((), []) = (r, ((), log))"
    and "Performed demo_start \<in> set log" using demo_start_performed by blast
  from sandbox_tools_are_gated [OF this] show ?thesis by blast
qed

section \<open>The contribution in a router\<close>

text \<open>No descriptor panics, the six tools are the documented ones, and a router reaches each of them.\<close>

lemma sandbox_names_valid:
  "is_valid_segment sandbox_namespace" "is_valid_segment ''start''" "is_valid_segment ''execute''" "is_valid_segment ''status''"
  "is_valid_segment ''stop''" "is_valid_segment ''capabilities''" "is_valid_segment ''schema''"
  by (simp_all add: is_valid_segment_def sandbox_namespace_def MAX_SEGMENT_BYTES_def ascii_defs less_eq_char_def)

lemma sandbox_descriptors_ok:
  "None \<notin> set (sandbox_descriptors schema_for)"
  "td_name ` set (hc_tools (sandbox_contribution codec sha256_hex m)) = set SANDBOX_TOOLS"
  "contribution_ok (sandbox_contribution codec sha256_hex m)"
proof -
  note names = sandbox_names_valid tool_name_new_valid
  show "None \<notin> set (sandbox_descriptors schema_for)"
    by (simp add: sandbox_descriptors_def descriptor_def names)
  show "td_name ` set (hc_tools (sandbox_contribution codec sha256_hex m)) = set SANDBOX_TOOLS"
    by (simp add: sandbox_contribution_def sandbox_descriptors_def descriptor_def names SANDBOX_TOOLS_def)
      (auto simp: sandbox_namespace_def)
  show "contribution_ok (sandbox_contribution codec sha256_hex m)"
    unfolding contribution_ok_def
    by (simp add: sandbox_contribution_def sandbox_descriptors_def descriptor_def names)
      (use names in \<open>metis append_Cons append_Nil\<close>)
qed

lemma sandbox_tools_callable: "name \<in> set SANDBOX_TOOLS \<Longrightarrow> is_valid_segment (operation_of name)"
  using sandbox_names_valid by (auto simp: SANDBOX_TOOLS_def operation_of_def split_once_def split_two_def)

lemma sandbox_routed:
  assumes "router_build print_map b = Inr router" "sandbox_contribution codec sha256_hex m \<in> set (rb_bricks b)"
    and "name \<in> set SANDBOX_TOOLS"
  shows "call_tool display quote router name (Some es) w =
    (case sandbox_dispatch codec sha256_hex m name (JObject es) w of (r, w') \<Rightarrow> (Some (call_outcome display quote name r), w'))"
proof -
  from assms(2) have "sandbox_contribution codec sha256_hex m \<in> set (rb_bricks b @ rb_meta b)" by simp
  moreover have "name \<in> td_name ` set (hc_tools (sandbox_contribution codec sha256_hex m))"
    unfolding sandbox_descriptors_ok(2) by (rule assms(3))
  ultimately have "call_tool display quote router name (Some es) w =
     (case hc_dispatch (sandbox_contribution codec sha256_hex m) name (JObject es) w of
        (r, w') \<Rightarrow> (Some (call_outcome display quote name r), w'))"
    using call_declared [OF assms(1) _ sandbox_descriptors_ok(3)] sandbox_tools_callable [OF assms(3)] by simp
  then show ?thesis by (simp add: sandbox_contribution_def)
qed

end
