(* ===== verification/Json_Text.thy ===== *)
theory Json_Text
  imports Json
begin

text \<open>
  The compact text of a JSON value, as the surfaces measure it: no white space, members in order,
  strings between quotes with every byte escaped on its own. How a byte is escaped is a parameter;
  \<open>json_escape\<close> states what the JSON format and the library's documentation say of it.
\<close>

definition needs_escape :: "char \<Rightarrow> bool" where
  "needs_escape c \<longleftrightarrow> c = CHR 0x22 \<or> c = CHR 0x5C \<or> of_char c < (32::nat)"

definition json_escape :: "(char \<Rightarrow> string) \<Rightarrow> bool" where
  "json_escape esc \<longleftrightarrow>
     (\<forall>c. (\<not> needs_escape c \<longrightarrow> esc c = [c]) \<and> (c = CHR 0x22 \<or> c = CHR 0x5C \<longrightarrow> length (esc c) = 2)
        \<and> length (esc c) \<le> 6 \<and> (\<forall>d\<in>set (esc c). (32::nat) \<le> of_char d))"

definition string_text :: "(char \<Rightarrow> string) \<Rightarrow> string \<Rightarrow> string" where
  "string_text esc s = [CHR 0x22] @ concat (map esc s) @ [CHR 0x22]"

fun joined :: "string list \<Rightarrow> string" where
  "joined [] = []"
| "joined [s] = s"
| "joined (s # t # ss) = s @ [CHR '',''] @ joined (t # ss)"

fun json_text :: "(char \<Rightarrow> string) \<Rightarrow> json \<Rightarrow> string" where
  "json_text esc JNull = ''null''"
| "json_text esc (JBool b) = (if b then ''true'' else ''false'')"
| "json_text esc (JNumber n) = n"
| "json_text esc (JString s) = string_text esc s"
| "json_text esc (JArray vs) = ''['' @ joined (map (json_text esc) vs) @ '']''"
| "json_text esc (JObject es) =
     ''{'' @ joined (map (\<lambda>e. string_text esc (fst e) @ [CHR '':''] @ json_text esc (snd e)) es) @ ''}''"

text \<open>A library that prints this text.\<close>

definition compact_printer :: "(char \<Rightarrow> string) \<Rightarrow> (json \<Rightarrow> (string, 'e) result) \<Rightarrow> bool" where
  "compact_printer esc print \<longleftrightarrow> json_escape esc \<and> (\<forall>v. print v = Inr (json_text esc v))"

section \<open>Lengths\<close>

lemma length_joined: "length (joined ss) = sum_list (map length ss) + (length ss - 1)"
  by (induction ss rule: joined.induct) auto

lemma length_string_text: "length (string_text esc s) = 2 + sum_list (map (\<lambda>c. length (esc c)) s)"
  by (simp add: string_text_def length_concat comp_def)

lemma esc_plain: "json_escape esc \<Longrightarrow> \<forall>c\<in>set s. \<not> needs_escape c \<Longrightarrow> concat (map esc s) = s"
  by (induction s) (auto simp: json_escape_def)

lemma string_text_plain: "json_escape esc \<Longrightarrow> \<forall>c\<in>set s. \<not> needs_escape c \<Longrightarrow> length (string_text esc s) = length s + 2"
  using esc_plain by (fastforce simp: string_text_def)

lemma length_esc_printable:
  assumes "json_escape esc" "(32::nat) \<le> of_char c"
  shows "length (esc c) \<le> 2"
proof (cases "needs_escape c")
  case True
  with assms have "c = CHR 0x22 \<or> c = CHR 0x5C" unfolding needs_escape_def by linarith
  with assms(1) show ?thesis unfolding json_escape_def by (metis order_refl)
next
  case False
  with assms(1) show ?thesis by (simp add: json_escape_def)
qed

text \<open>A number is a text of printable characters; so is the whole text of a value.\<close>

definition printable :: "string \<Rightarrow> bool" where
  "printable s \<longleftrightarrow> (\<forall>c\<in>set s. (32::nat) \<le> of_char c)"

fun printable_numbers :: "json \<Rightarrow> bool" where
  "printable_numbers (JNumber n) \<longleftrightarrow> printable n"
| "printable_numbers (JArray vs) \<longleftrightarrow> (\<forall>v\<in>set vs. printable_numbers v)"
| "printable_numbers (JObject es) \<longleftrightarrow> (\<forall>e\<in>set es. printable_numbers (snd e))"
| "printable_numbers _ \<longleftrightarrow> True"

lemma printable_append [simp]: "printable (s @ t) \<longleftrightarrow> printable s \<and> printable t"
  by (auto simp: printable_def)

lemma printable_Cons [simp]: "printable (c # s) \<longleftrightarrow> (32::nat) \<le> of_char c \<and> printable s"
  by (auto simp: printable_def)

lemma printable_Nil [simp]: "printable []"
  by (simp add: printable_def)

lemma printable_joined: "\<forall>s\<in>set ss. printable s \<Longrightarrow> printable (joined ss)"
  by (induction ss rule: joined.induct) (auto simp: printable_def)

lemma printable_string_text: "json_escape esc \<Longrightarrow> printable (string_text esc s)"
  by (auto simp: printable_def string_text_def json_escape_def)

lemma printable_json_text:
  assumes "json_escape esc"
  shows "printable_numbers v \<Longrightarrow> printable (json_text esc v)"
proof (induction v)
  case (JArray vs)
  then show ?case by (auto intro!: printable_joined)
next
  case (JObject es)
  have "printable (string_text esc (fst e) @ [CHR '':''] @ json_text esc (snd e))" if "e \<in> set es" for e
  proof -
    have "snd e \<in> Basic_BNFs.snds e" by (simp add: snds.simps)
    with that JObject have "printable (json_text esc (snd e))" by auto
    with printable_string_text [OF assms, of "fst e"] show ?thesis by simp
  qed
  then show ?case by (auto intro!: printable_joined)
qed (auto simp: printable_string_text [OF assms])

text \<open>Escaping a text once more at most doubles it, and less if it has a brace at both ends.\<close>

lemma length_escaped:
  assumes "json_escape esc" "printable s"
  shows "sum_list (map (\<lambda>c. length (esc c)) s) \<le> 2 * length s"
  using assms(2)
proof (induction s)
  case (Cons c s)
  with length_esc_printable [OF assms(1), of c] show ?case by (simp add: printable_def)
qed simp

lemma length_framed_object:
  assumes "json_escape esc" "printable_numbers (JObject es)"
  shows "length (string_text esc (json_text esc (JObject es))) \<le> 2 * length (json_text esc (JObject es))"
proof -
  obtain body where body: "json_text esc (JObject es) = ''{'' @ body @ ''}''" by simp
  have "printable body" using printable_json_text [OF assms] unfolding body by simp
  from length_escaped [OF assms(1) this] have "sum_list (map (\<lambda>c. length (esc c)) body) \<le> 2 * length body" .
  moreover have "length (esc CHR ''{'') = 1" "length (esc CHR ''}'') = 1"
    using assms(1) by (simp_all add: json_escape_def needs_escape_def)
  ultimately show ?thesis unfolding body length_string_text by simp
qed

end
