(* ===== verification/Memory_Mcp.thy ===== *)
theory Memory_Mcp
  imports Mcp_Access Json_Text Memory
begin

text \<open>
  The tool surface of the memory crate (\<open>memory/src/mcp.rs\<close>): the gate, which asks for the
  capability and the grant's memory flag, the ceilings on requests and records, the five tools
  over the service, and the projection of a search page.
\<close>

section \<open>Ceilings\<close>

definition MEMORY_TOOLS :: "string list" where
  "MEMORY_TOOLS = [''memory_remember'', ''memory_recall'', ''memory_search'', ''memory_forget'', ''memory_status'']"

definition MAX_MCP_REQUEST_BYTES :: nat where "MAX_MCP_REQUEST_BYTES = 16 * 1024"
definition BRICK_TOOL_TEXT_BUDGET_BYTES :: nat where "BRICK_TOOL_TEXT_BUDGET_BYTES = 64 * 1024"
definition COMPOSITION_HEADROOM_BYTES :: nat where "COMPOSITION_HEADROOM_BYTES = 8 * 1024"
definition MAX_MCP_ESCAPED_TOOL_TEXT_BYTES :: nat where
  "MAX_MCP_ESCAPED_TOOL_TEXT_BYTES = BRICK_TOOL_TEXT_BUDGET_BYTES - COMPOSITION_HEADROOM_BYTES"
definition MAX_MCP_SERIALIZED_RESULT_BYTES :: nat where
  "MAX_MCP_SERIALIZED_RESULT_BYTES = MAX_MCP_ESCAPED_TOOL_TEXT_BYTES div 2"
definition MAX_MCP_CONTENT_BYTES :: nat where "MAX_MCP_CONTENT_BYTES = 2 * 1024"
definition MAX_MCP_TAGS :: nat where "MAX_MCP_TAGS = 8"
definition MAX_MCP_TAG_BYTES :: nat where "MAX_MCP_TAG_BYTES = 128"
definition MAX_MCP_QUERY_LIMIT :: u32 where "MAX_MCP_QUERY_LIMIT = 6"
definition MAX_MCP_RECORD_PROJECTION_BYTES :: nat where
  "MAX_MCP_RECORD_PROJECTION_BYTES =
     MAX_MCP_CONTENT_BYTES + MAX_MCP_TAGS * (MAX_MCP_TAG_BYTES + 3) + 2 * MAX_ID_BYTES + 256"
definition DEFERRAL_RESERVE_BYTES :: nat where
  "DEFERRAL_RESERVE_BYTES = unat MAX_MCP_QUERY_LIMIT * (MAX_ID_BYTES + 4) + 128"

lemmas memory_ceilings = MAX_MCP_REQUEST_BYTES_def BRICK_TOOL_TEXT_BUDGET_BYTES_def COMPOSITION_HEADROOM_BYTES_def
  MAX_MCP_ESCAPED_TOOL_TEXT_BYTES_def MAX_MCP_SERIALIZED_RESULT_BYTES_def MAX_MCP_CONTENT_BYTES_def MAX_MCP_TAGS_def
  MAX_MCP_TAG_BYTES_def MAX_MCP_QUERY_LIMIT_def MAX_MCP_RECORD_PROJECTION_BYTES_def DEFERRAL_RESERVE_BYTES_def
  Memory.MAX_ID_BYTES_def

text \<open>The assertion the crate makes when it is compiled.\<close>

lemma page_assertion:
  "unat MAX_MCP_QUERY_LIMIT * MAX_MCP_RECORD_PROJECTION_BYTES + DEFERRAL_RESERVE_BYTES \<le> MAX_MCP_SERIALIZED_RESULT_BYTES"
  by (simp add: memory_ceilings)

section \<open>Inputs\<close>

record remember_input =
  ri_namespace :: string
  ri_key :: string
  ri_kind :: memory_kind
  ri_content :: string
  ri_tags :: "string list"
  ri_run_id :: "string option"

record address_input =
  ai_namespace :: string
  ai_key :: string

record search_input =
  si_namespace :: string
  si_kinds :: "memory_kind list"
  si_tags :: "string list"
  si_term :: "string option"
  si_since_micros :: "u64 option"
  si_until_micros :: "u64 option"
  si_limit :: u32

definition remember_input_json :: "remember_input \<Rightarrow> json" where
  "remember_input_json i = JObject [(''namespace'', JString (ri_namespace i)), (''key'', JString (ri_key i)),
     (''kind'', JString (memory_kind_as_str (ri_kind i))), (''content'', JString (ri_content i)),
     (''tags'', json_strings (ri_tags i)), (''run_id'', json_option JString (ri_run_id i))]"

definition address_input_json :: "address_input \<Rightarrow> json" where
  "address_input_json i = JObject [(''namespace'', JString (ai_namespace i)), (''key'', JString (ai_key i))]"

definition search_input_json :: "search_input \<Rightarrow> json" where
  "search_input_json i = JObject [(''namespace'', JString (si_namespace i)),
     (''kinds'', json_strings (map memory_kind_as_str (si_kinds i))), (''tags'', json_strings (si_tags i)),
     (''term'', json_option JString (si_term i)),
     (''since_micros'', json_option (\<lambda>t. JNumber (word_to_string t)) (si_since_micros i)),
     (''until_micros'', json_option (\<lambda>t. JNumber (word_to_string t)) (si_until_micros i)),
     (''limit'', JNumber (word_to_string (si_limit i)))]"

definition remember_into_core :: "remember_input \<Rightarrow> (remember_request, memory_error) result" where
  "remember_into_core i =
     and_then (Memory.logical_id_new (ri_namespace i)) (\<lambda>namespace.
     and_then (Memory.logical_id_new (ri_key i)) (\<lambda>key.
     and_then (case ri_run_id i of None \<Rightarrow> Inr None | Some r \<Rightarrow> and_then (Memory.logical_id_new r) (\<lambda>r. Inr (Some r))) (\<lambda>run_id.
       Inr \<lparr>rq_namespace = namespace, rq_key = key, rq_kind = ri_kind i, rq_content = ri_content i, rq_tags = ri_tags i,
         rq_metadata = [], rq_run_id = run_id\<rparr>)))"

definition address_into_core :: "address_input \<Rightarrow> (namespace_id \<times> record_key, memory_error) result" where
  "address_into_core i =
     and_then (Memory.logical_id_new (ai_namespace i)) (\<lambda>namespace.
     and_then (Memory.logical_id_new (ai_key i)) (\<lambda>key. Inr (namespace, key)))"

definition search_into_core :: "search_input \<Rightarrow> (namespace_id \<times> memory_query, memory_error) result" where
  "search_into_core i =
     and_then (Memory.logical_id_new (si_namespace i)) (\<lambda>namespace.
       Inr (namespace, \<lparr>q_kinds = si_kinds i, q_tags = si_tags i, q_term = si_term i, q_since = si_since_micros i,
         q_until = si_until_micros i, q_limit = si_limit i\<rparr>))"

section \<open>Checks and projections\<close>

text \<open>\<open>print\<close> is \<open>serde_json::to_string\<close>; its errors are dropped or replaced by the callers.\<close>

definition memory_validate_request :: "(json \<Rightarrow> (string, string) result) \<Rightarrow> json \<Rightarrow> (unit, memory_error) result" where
  "memory_validate_request print v =
     and_then (map_err (\<lambda>_. InvalidQuery) (print v)) (\<lambda>text.
       if length text \<le> MAX_MCP_REQUEST_BYTES then Inr () else Inl Memory.LimitExceeded)"

definition serialized_len :: "(json \<Rightarrow> (string, string) result) \<Rightarrow> string \<Rightarrow> (nat, memory_error) result" where
  "serialized_len print s = and_then (map_err (\<lambda>_. InvalidRecord) (print (JString s))) (\<lambda>text. Inr (length text))"

definition validate_mcp_record :: "(json \<Rightarrow> (string, string) result) \<Rightarrow> remember_input \<Rightarrow> (unit, memory_error) result" where
  "validate_mcp_record print i =
     and_then (serialized_len print (ri_content i)) (\<lambda>len.
       if len > MAX_MCP_CONTENT_BYTES then Inl Memory.LimitExceeded
       else if length (ri_tags i) > MAX_MCP_TAGS then Inl Memory.LimitExceeded
       else try_fold (\<lambda>_ tag. and_then (serialized_len print tag) (\<lambda>len.
              if len > MAX_MCP_TAG_BYTES then Inl Memory.LimitExceeded else Inr ())) () (ri_tags i))"

definition record_output :: "memory_record \<Rightarrow> json" where
  "record_output r = JObject [(''namespace'', JString (mr_namespace r)), (''key'', JString (mr_key r)),
     (''kind'', JString (memory_kind_as_str (mr_kind r))), (''content'', JString (mr_content r)),
     (''tags'', json_strings (mr_tags r)),
     (''recorded_at_micros'', json_option (\<lambda>p. JNumber (word_to_string (pv_recorded_at p))) (mr_provenance r))]"

definition framed_len :: "(json \<Rightarrow> (string, string) result) \<Rightarrow> string \<Rightarrow> (nat, string) result" where
  "framed_len print text =
     and_then (map_err (\<lambda>_. ''could not measure MCP response'') (print (JString text))) (\<lambda>escaped. Inr (length escaped))"

definition memory_serialize :: "(json \<Rightarrow> (string, string) result) \<Rightarrow> json \<Rightarrow> (string, string) result" where
  "memory_serialize print v =
     and_then (map_err (\<lambda>_. ''could not serialize MCP response'') (print v)) (\<lambda>text.
       if length text > MAX_MCP_SERIALIZED_RESULT_BYTES then Inl ''limit_exceeded''
       else and_then (framed_len print text) (\<lambda>framed.
         if framed \<le> MAX_MCP_ESCAPED_TOOL_TEXT_BYTES then Inr text else Inl ''limit_exceeded''))"

record search_page =
  pg_outputs :: "memory_record list"
  pg_used :: nat
  pg_deferred :: "string list"
  pg_oversized :: "string list"

definition page_budget :: nat where
  "page_budget = MAX_MCP_SERIALIZED_RESULT_BYTES - DEFERRAL_RESERVE_BYTES"

definition page_add :: "(json \<Rightarrow> (string, string) result) \<Rightarrow> search_page \<Rightarrow> memory_record \<Rightarrow> (search_page, string) result" where
  "page_add print page r =
     and_then (map_err (\<lambda>_. ''could not serialize MCP response'') (print (record_output r))) (\<lambda>text.
       let size = length text + 1 in
       Inr (if size > page_budget then page\<lparr>pg_oversized := pg_oversized page @ [mr_key r]\<rparr>
            else if pg_used page + size > page_budget then page\<lparr>pg_deferred := pg_deferred page @ [mr_key r]\<rparr>
            else page\<lparr>pg_used := pg_used page + size, pg_outputs := pg_outputs page @ [r]\<rparr>))"

definition page_json :: "search_page \<Rightarrow> json" where
  "page_json page = json_object [(''records'', JArray (map record_output (pg_outputs page))),
     (''deferred_keys'', json_strings (pg_deferred page)), (''oversized_keys'', json_strings (pg_oversized page))]"

definition serialize_search :: "(json \<Rightarrow> (string, string) result) \<Rightarrow> memory_record list \<Rightarrow> (string, string) result" where
  "serialize_search print records =
     and_then (try_fold (page_add print) \<lparr>pg_outputs = [], pg_used = 0, pg_deferred = [], pg_oversized = []\<rparr> records)
       (\<lambda>page. memory_serialize print (page_json page))"

fun mcp_public_code :: "memory_error \<Rightarrow> string" where
  "mcp_public_code e = (case public_code e of
      PubInvalidId \<Rightarrow> ''invalid_id'' | PubInvalidRecord \<Rightarrow> ''invalid_record'' | PubInvalidQuery \<Rightarrow> ''invalid_query''
    | PubLimitExceeded \<Rightarrow> ''limit_exceeded'' | PubNotFound \<Rightarrow> ''not_found'' | PubTenantMismatch \<Rightarrow> ''not_found''
    | PubUnauthorized \<Rightarrow> ''unauthorized'' | PubAdapterFailure \<Rightarrow> ''adapter_failure'')"

definition memory_tool_response :: "(json \<Rightarrow> string) \<Rightarrow> (string, string) result \<Rightarrow> string" where
  "memory_tool_response display = error_reply display [''invalid_id'', ''invalid_record'', ''invalid_query'', ''limit_exceeded'',
     ''not_found'', ''unauthorized'', ''adapter_failure''] ''adapter_failure''"

section \<open>The tools\<close>

record 'w memory_mcp =
  mm_remember :: "memory_context \<Rightarrow> remember_request \<Rightarrow> (write_outcome, memory_error, 'w) st"
  mm_recall :: "memory_context \<Rightarrow> namespace_id \<Rightarrow> record_key \<Rightarrow> (memory_record option, memory_error, 'w) st"
  mm_search :: "memory_context \<Rightarrow> namespace_id \<Rightarrow> memory_query \<Rightarrow> (memory_record list, memory_error, 'w) st"
  mm_forget :: "memory_context \<Rightarrow> namespace_id \<Rightarrow> record_key \<Rightarrow> (bool, memory_error, 'w) st"
  mm_guarantees :: store_guarantees
  mm_result_ceiling :: u32
  mm_host :: "'w host"

definition memory_authorize :: "(string \<Rightarrow> string) \<Rightarrow> 'w memory_mcp \<Rightarrow> capability_v1 \<Rightarrow> (memory_context, memory_error, 'w) st" where
  "memory_authorize sha256_hex m capability =
     st_then (st_map_err (\<lambda>_. Unauthorized) (pass_gate sha256_hex (mm_host m) capability)) (\<lambda>(trusted, grant, digest).
       st_of (if \<not> memory_enabled grant then Inl Unauthorized
         else and_then (map_err (\<lambda>_. Unauthorized) (Memory.logical_id_new (tc_tenant_id trusted))) (\<lambda>tenant.
           Inr \<lparr>ctx_tenant_id = tenant\<rparr>)))"

definition remember_json :: "(json \<Rightarrow> (string, string) result) \<Rightarrow> (string \<Rightarrow> string) \<Rightarrow> 'w memory_mcp \<Rightarrow> remember_input
    \<Rightarrow> (string, string, 'w) st" where
  "remember_json print sha256_hex m input =
     st_then (st_of (map_err mcp_public_code (memory_validate_request print (remember_input_json input)))) (\<lambda>_.
     st_then (st_of (map_err mcp_public_code (validate_mcp_record print input))) (\<lambda>_.
     st_then (st_map_err mcp_public_code (memory_authorize sha256_hex m MemoryRemember)) (\<lambda>context.
     st_then (st_of (map_err mcp_public_code (remember_into_core input))) (\<lambda>request.
     st_then (st_map_err mcp_public_code (mm_remember m context request)) (\<lambda>outcome.
       st_of (Inr (case outcome of
           Created \<Rightarrow> ''{\"outcome\":\"created\"}'' | Replaced \<Rightarrow> ''{\"outcome\":\"replaced\"}'')))))))"

definition recall_json :: "(json \<Rightarrow> (string, string) result) \<Rightarrow> (string \<Rightarrow> string) \<Rightarrow> 'w memory_mcp \<Rightarrow> address_input
    \<Rightarrow> (string, string, 'w) st" where
  "recall_json print sha256_hex m input =
     st_then (st_of (map_err mcp_public_code (memory_validate_request print (address_input_json input)))) (\<lambda>_.
     st_then (st_map_err mcp_public_code (memory_authorize sha256_hex m MemoryRecall)) (\<lambda>context.
     st_then (st_of (map_err mcp_public_code (address_into_core input))) (\<lambda>(namespace, key).
     st_then (st_map_err mcp_public_code (mm_recall m context namespace key)) (\<lambda>found.
       st_of (case found of None \<Rightarrow> Inr ''{\"record\":null}''
         | Some r \<Rightarrow> memory_serialize print (json_object [(''record'', record_output r)]))))))"

definition search_json :: "(json \<Rightarrow> (string, string) result) \<Rightarrow> (string \<Rightarrow> string) \<Rightarrow> 'w memory_mcp \<Rightarrow> search_input
    \<Rightarrow> (string, string, 'w) st" where
  "search_json print sha256_hex m input =
     st_then (st_of (map_err mcp_public_code (memory_validate_request print (search_input_json input)))) (\<lambda>_.
     if si_limit input = 0 \<or> si_limit input > MAX_MCP_QUERY_LIMIT then st_of (Inl (mcp_public_code Memory.LimitExceeded))
     else
     st_then (st_map_err mcp_public_code (memory_authorize sha256_hex m MemorySearch)) (\<lambda>context.
     st_then (st_of (map_err mcp_public_code (search_into_core input))) (\<lambda>(namespace, query).
     st_then (st_map_err mcp_public_code (mm_search m context namespace query)) (\<lambda>records.
       st_of (serialize_search print records)))))"

definition forget_json :: "(json \<Rightarrow> (string, string) result) \<Rightarrow> (string \<Rightarrow> string) \<Rightarrow> 'w memory_mcp \<Rightarrow> address_input
    \<Rightarrow> (string, string, 'w) st" where
  "forget_json print sha256_hex m input =
     st_then (st_of (map_err mcp_public_code (memory_validate_request print (address_input_json input)))) (\<lambda>_.
     st_then (st_map_err mcp_public_code (memory_authorize sha256_hex m MemoryForget)) (\<lambda>context.
     st_then (st_of (map_err mcp_public_code (address_into_core input))) (\<lambda>(namespace, key).
     st_then (st_map_err mcp_public_code (mm_forget m context namespace key)) (\<lambda>forgotten.
       st_of (Inr (if forgotten then ''{\"forgotten\":true}'' else ''{\"forgotten\":false}''))))))"

definition memory_status_json :: "(json \<Rightarrow> (string, string) result) \<Rightarrow> (string \<Rightarrow> string) \<Rightarrow> 'w memory_mcp
    \<Rightarrow> (string, string, 'w) st" where
  "memory_status_json print sha256_hex m =
     st_then (st_of (map_err mcp_public_code (memory_validate_request print (JObject [])))) (\<lambda>_.
     st_then (st_map_err mcp_public_code (memory_authorize sha256_hex m MemoryStatus)) (\<lambda>context.
       st_of (memory_serialize print (json_object [
         (''durable_across_restart'', JBool (durable_across_restart (mm_guarantees m))),
         (''visible_across_processes'', JBool (visible_across_processes (mm_guarantees m))),
         (''crash_atomic'', JBool (crash_atomic (mm_guarantees m))),
         (''result_ceiling'', JNumber (word_to_string (min (mm_result_ceiling m) MAX_MCP_QUERY_LIMIT))),
         (''max_content_bytes'', JNumber (nat_to_string MAX_MCP_CONTENT_BYTES))]))))"

datatype memory_tool =
    RememberTool remember_input | RecallTool address_input | SearchTool search_input | ForgetTool address_input | MemoryStatusTool

fun memory_tool_call :: "(json \<Rightarrow> (string, string) result) \<Rightarrow> (json \<Rightarrow> string) \<Rightarrow> (string \<Rightarrow> string) \<Rightarrow> 'w memory_mcp
    \<Rightarrow> memory_tool \<Rightarrow> (string, string, 'w) st" where
  "memory_tool_call print display sha256_hex m (RememberTool input) =
     st_match (remember_json print sha256_hex m input) (\<lambda>r. st_of (Inr (memory_tool_response display r)))"
| "memory_tool_call print display sha256_hex m (RecallTool input) =
     st_match (recall_json print sha256_hex m input) (\<lambda>r. st_of (Inr (memory_tool_response display r)))"
| "memory_tool_call print display sha256_hex m (SearchTool input) =
     st_match (search_json print sha256_hex m input) (\<lambda>r. st_of (Inr (memory_tool_response display r)))"
| "memory_tool_call print display sha256_hex m (ForgetTool input) =
     st_match (forget_json print sha256_hex m input) (\<lambda>r. st_of (Inr (memory_tool_response display r)))"
| "memory_tool_call print display sha256_hex m MemoryStatusTool =
     st_match (memory_status_json print sha256_hex m) (\<lambda>r. st_of (Inr (memory_tool_response display r)))"

end
