(* ===== verification/Memory_Mcp_Properties.thy ===== *)
theory Memory_Mcp_Properties
  imports Memory_Mcp
begin

text \<open>
  The memory surface acts only through the gate, and a search page is never refused: every record
  found is shown, deferred or named as oversized, and records within the surface's own ceilings are
  always shown.
\<close>

section \<open>The gate\<close>

datatype memory_call =
    RememberCall memory_context remember_request
  | RecallCall memory_context namespace_id record_key
  | SearchCall memory_context namespace_id memory_query
  | ForgetCall memory_context namespace_id record_key

definition logged_memory :: "'w memory_mcp \<Rightarrow> ('w \<times> memory_call access_event list) memory_mcp" where
  "logged_memory m = \<lparr>
     mm_remember = (\<lambda>ctx q. performing (\<lambda>(ctx, q). RememberCall ctx q) (\<lambda>(ctx, q). mm_remember m ctx q) (ctx, q)),
     mm_recall = (\<lambda>ctx n k. performing (\<lambda>(ctx, n, k). RecallCall ctx n k) (\<lambda>(ctx, n, k). mm_recall m ctx n k) (ctx, n, k)),
     mm_search = (\<lambda>ctx n q. performing (\<lambda>(ctx, n, q). SearchCall ctx n q) (\<lambda>(ctx, n, q). mm_search m ctx n q) (ctx, n, q)),
     mm_forget = (\<lambda>ctx n k. performing (\<lambda>(ctx, n, k). ForgetCall ctx n k) (\<lambda>(ctx, n, k). mm_forget m ctx n k) (ctx, n, k)),
     mm_guarantees = mm_guarantees m, mm_result_ceiling = mm_result_ceiling m, mm_host = logged_host (mm_host m)\<rparr>"

fun memory_capability_of :: "memory_tool \<Rightarrow> capability_v1" where
  "memory_capability_of (RememberTool _) = MemoryRemember"
| "memory_capability_of (RecallTool _) = MemoryRecall"
| "memory_capability_of (SearchTool _) = MemorySearch"
| "memory_capability_of (ForgetTool _) = MemoryForget"
| "memory_capability_of MemoryStatusTool = MemoryStatus"

text \<open>What a tool asks of the service in a context.\<close>

fun tool_asks :: "memory_tool \<Rightarrow> memory_context \<Rightarrow> memory_call \<Rightarrow> bool" where
  "tool_asks (RememberTool i) ctx call \<longleftrightarrow> (\<exists>q. remember_into_core i = Inr q \<and> call = RememberCall ctx q)"
| "tool_asks (RecallTool i) ctx call \<longleftrightarrow> (\<exists>n k. address_into_core i = Inr (n, k) \<and> call = RecallCall ctx n k)"
| "tool_asks (SearchTool i) ctx call \<longleftrightarrow> (\<exists>n q. search_into_core i = Inr (n, q) \<and> call = SearchCall ctx n q)"
| "tool_asks (ForgetTool i) ctx call \<longleftrightarrow> (\<exists>n k. address_into_core i = Inr (n, k) \<and> call = ForgetCall ctx n k)"
| "tool_asks MemoryStatusTool ctx call \<longleftrightarrow> False"

definition memory_carries :: "memory_tool \<Rightarrow> trusted_context_v1 \<Rightarrow> grant_v1 \<Rightarrow> string \<Rightarrow> memory_call \<Rightarrow> bool" where
  "memory_carries tool trusted grant digest call \<longleftrightarrow>
     memory_enabled grant \<and> tool_asks tool \<lparr>ctx_tenant_id = tc_tenant_id trusted\<rparr> call"

lemma authorizes_memory:
  "authorizes sha256_hex (mm_host m) c (memory_authorize sha256_hex (logged_memory m) c)
     (\<lambda>trusted g d ctx. memory_enabled g \<and> ctx = \<lparr>ctx_tenant_id = tc_tenant_id trusted\<rparr>)"
proof -
  have host: "mm_host (logged_memory m) = logged_host (mm_host m)" by (simp add: logged_memory_def)
  show ?thesis unfolding memory_authorize_def host split_beta
    by (rule authorizes_gate) (auto simp: result_simps Memory.logical_id_new_def split: if_splits)
qed

lemma runs_memory_tool:
  assumes "\<And>ctx a. x = Inr a \<Longrightarrow> tool_asks tool ctx (event (arg ctx a))" "c = memory_capability_of tool"
  shows "runs (st_then (st_map_err f (memory_authorize sha256_hex (logged_memory m) c)) (\<lambda>ctx.
      st_then (st_of x) (\<lambda>a. st_then (st_map_err g (performing event op (arg ctx a))) (\<lambda>r. st_of (k r))))) []
    (\<lambda>r s. gated sha256_hex (mm_host m) c (memory_carries tool) s)"
  by (rule runs_authorized [OF authorizes_memory], intro runs_of_then gated_idle, assumption, rule runs_perform_last)
    (use assms(1) in \<open>auto simp: memory_carries_def\<close>)

lemma logged_memory_ports:
  "mm_remember (logged_memory m) ctx q = performing (\<lambda>(ctx, q). RememberCall ctx q) (\<lambda>(ctx, q). mm_remember m ctx q) (ctx, q)"
  "mm_recall (logged_memory m) ctx n k = performing (\<lambda>(ctx, n, k). RecallCall ctx n k) (\<lambda>(ctx, n, k). mm_recall m ctx n k) (ctx, n, k)"
  "mm_search (logged_memory m) ctx n sq = performing (\<lambda>(ctx, n, q). SearchCall ctx n q) (\<lambda>(ctx, n, q). mm_search m ctx n q) (ctx, n, sq)"
  "mm_forget (logged_memory m) ctx n k = performing (\<lambda>(ctx, n, k). ForgetCall ctx n k) (\<lambda>(ctx, n, k). mm_forget m ctx n k) (ctx, n, k)"
  by (simp_all add: logged_memory_def)

lemma runs_memory_tools:
  "runs (memory_tool_call print display sha256_hex (logged_memory m) tool) []
     (\<lambda>r s. gated sha256_hex (mm_host m) (memory_capability_of tool) (memory_carries tool) s)"
proof (cases tool)
  case (RememberTool i)
  have "runs (remember_json print sha256_hex (logged_memory m) i) []
      (\<lambda>r s. gated sha256_hex (mm_host m) MemoryRemember (memory_carries tool) s)"
    unfolding remember_json_def logged_memory_ports
    by (intro runs_of_then gated_idle idle_simps runs_memory_tool) (auto simp: RememberTool map_err_Inr)
  then show ?thesis by (simp add: RememberTool runs_reply)
next
  case (RecallTool i)
  have "runs (recall_json print sha256_hex (logged_memory m) i) []
      (\<lambda>r s. gated sha256_hex (mm_host m) MemoryRecall (memory_carries tool) s)"
    unfolding recall_json_def logged_memory_ports split_beta
    by (intro runs_of_then gated_idle idle_simps runs_memory_tool) (auto simp: RecallTool map_err_Inr)
  then show ?thesis by (simp add: RecallTool runs_reply)
next
  case (SearchTool i)
  have "runs (search_json print sha256_hex (logged_memory m) i) []
      (\<lambda>r s. gated sha256_hex (mm_host m) MemorySearch (memory_carries tool) s)"
    unfolding search_json_def logged_memory_ports split_beta
    by (intro runs_of_then gated_idle idle_simps)
      (auto intro!: runs_of runs_memory_tool gated_idle simp: SearchTool map_err_Inr)
  then show ?thesis by (simp add: SearchTool runs_reply)
next
  case (ForgetTool i)
  have "runs (forget_json print sha256_hex (logged_memory m) i) []
      (\<lambda>r s. gated sha256_hex (mm_host m) MemoryForget (memory_carries tool) s)"
    unfolding forget_json_def logged_memory_ports split_beta
    by (intro runs_of_then gated_idle idle_simps runs_memory_tool) (auto simp: ForgetTool map_err_Inr)
  then show ?thesis by (simp add: ForgetTool runs_reply)
next
  case MemoryStatusTool
  have "runs (memory_status_json print sha256_hex (logged_memory m)) []
      (\<lambda>r s. gated sha256_hex (mm_host m) MemoryStatus (memory_carries tool) s)"
    unfolding memory_status_json_def
    by (intro runs_of_then gated_idle idle_simps runs_authorized [OF authorizes_memory]) (auto intro!: runs_of gated_idle)
  then show ?thesis by (simp add: MemoryStatusTool runs_reply)
qed

interpretation memory_surface: tool_surface sha256_hex "mm_host m" "memory_tool_call print display sha256_hex (logged_memory m)"
    "\<lambda>tool. Some (memory_capability_of tool)" memory_carries for sha256_hex m print display
  by unfold_locales (auto intro: runs_log [OF runs_memory_tools])

section \<open>Search pages\<close>

lemma nat_to_string_length: "n < 10 ^ Suc d \<Longrightarrow> length (nat_to_string n) \<le> Suc d"
proof (induction d arbitrary: n)
  case 0
  then show ?case by (simp add: nat_to_string.simps [of n])
next
  case (Suc d)
  then have "n div 10 < 10 ^ Suc d" by (simp add: less_mult_imp_div_less)
  with Suc.IH show ?case by (simp add: nat_to_string.simps [of n])
qed

lemma u64_length: "length (word_to_string (w :: u64)) \<le> 20"
proof -
  have "unat w < 2 ^ 64" using unsigned_less [of w] by simp
  then have "unat w < 10 ^ Suc 19" by simp
  from nat_to_string_length [OF this] show ?thesis by (simp add: word_to_string_def)
qed

lemma u64_printable: "printable (word_to_string w)"
  by (auto simp: printable_def word_to_string_def is_ascii_digit_def less_eq_char_def dest!: nat_to_string_digits)

lemma value_of_strings [simp]: "value_of (json_strings ss) = json_strings ss"
  by (simp add: json_strings_def value_seq_eq)

lemma value_of_option [simp]: "(\<And>a. value_of (f a) = f a) \<Longrightarrow> value_of (json_option f v) = json_option f v"
  by (cases v) (simp_all add: json_option_def)

abbreviation stamp :: "memory_record \<Rightarrow> json" where
  "stamp r \<equiv> json_option (\<lambda>p. JNumber (word_to_string (pv_recorded_at p))) (mr_provenance r)"

lemma record_value:
  "value_of (record_output r) = JObject [(''content'', JString (mr_content r)), (''key'', JString (mr_key r)),
     (''kind'', JString (memory_kind_as_str (mr_kind r))), (''namespace'', JString (mr_namespace r)),
     (''recorded_at_micros'', stamp r), (''tags'', json_strings (mr_tags r))]"
  by (simp add: record_output_def less_list_code less_char_def)

lemma record_value_length: "length (json_text esc (value_of (record_output r))) = length (json_text esc (record_output r))"
  unfolding record_value by (simp add: record_output_def)

lemma record_value_printable: "printable_numbers (value_of (record_output r))"
  unfolding record_value
  by (auto simp: json_strings_def json_option_def u64_printable split: option.split)

lemma page_value:
  "page_json page = JObject [(''deferred_keys'', json_strings (pg_deferred page)), (''oversized_keys'', json_strings (pg_oversized page)),
     (''records'', JArray (map (\<lambda>r. value_of (record_output r)) (pg_outputs page)))]"
  by (simp add: page_json_def json_object_def value_seq_eq less_list_code less_char_def comp_def)

definition record_bytes :: "(char \<Rightarrow> string) \<Rightarrow> memory_record \<Rightarrow> nat" where
  "record_bytes esc r = length (json_text esc (record_output r)) + 1"

lemma joined_records: "length (joined (map (\<lambda>r. json_text esc (value_of (record_output r))) rs)) \<le> sum_list (map (record_bytes esc) rs)"
proof -
  have "sum_list (map (record_bytes esc) rs) = sum_list (map (\<lambda>r. length (json_text esc (record_output r))) rs) + length rs"
    by (induction rs) (auto simp: record_bytes_def)
  then show ?thesis by (simp add: length_joined record_value_length comp_def)
qed

lemma logical_id_plain: "Memory.is_logical_id k \<Longrightarrow> \<forall>c\<in>set k. \<not> needs_escape c"
  by (auto simp: Memory.is_logical_id_def list_all_iff needs_escape_def ascii_defs less_eq_char_def)

lemma joined_keys:
  assumes "json_escape esc" "\<forall>k\<in>set ks. Memory.is_logical_id k"
  shows "length (joined (map (json_text esc \<circ> JString) ks)) \<le> 131 * length ks"
  using assms(2)
proof (induction ks)
  case (Cons k ks)
  have "length (string_text esc k) = length k + 2" "length k \<le> 128"
    using string_text_plain [OF assms(1)] logical_id_plain Cons.prems by (auto simp: Memory.is_logical_id_def Memory.MAX_ID_BYTES_def)
  with Cons show ?case by (simp add: length_joined)
qed simp

definition page_ok :: "(char \<Rightarrow> string) \<Rightarrow> search_page \<Rightarrow> bool" where
  "page_ok esc page \<longleftrightarrow> pg_used page = sum_list (map (record_bytes esc) (pg_outputs page)) \<and> pg_used page \<le> page_budget"

definition page_keys :: "search_page \<Rightarrow> string multiset" where
  "page_keys page = mset (map mr_key (pg_outputs page)) + mset (pg_deferred page) + mset (pg_oversized page)"

lemma page_add_ok:
  assumes "compact_printer esc print"
  shows "\<exists>page'. page_add print page r = Inr page' \<and> (page_ok esc page \<longrightarrow> page_ok esc page')
    \<and> page_keys page' = page_keys page + {#mr_key r#} \<and> set (pg_outputs page') \<subseteq> insert r (set (pg_outputs page))
    \<and> (pg_used page + record_bytes esc r \<le> page_budget \<longrightarrow>
         page' = page\<lparr>pg_used := pg_used page + record_bytes esc r, pg_outputs := pg_outputs page @ [r]\<rparr>)"
  using assms by (auto simp: page_add_def compact_printer_def page_ok_def page_keys_def record_bytes_def Let_def)

lemma page_fold_ok:
  assumes "compact_printer esc print" "page_ok esc page"
  shows "\<exists>page'. try_fold (page_add print) page rs = Inr page' \<and> page_ok esc page'
    \<and> page_keys page' = page_keys page + mset (map mr_key rs) \<and> set (pg_outputs page') \<subseteq> set (pg_outputs page) \<union> set rs
    \<and> (pg_used page + sum_list (map (record_bytes esc) rs) \<le> page_budget \<longrightarrow>
         page' = page\<lparr>pg_used := pg_used page + sum_list (map (record_bytes esc) rs), pg_outputs := pg_outputs page @ rs\<rparr>)"
  using assms(2)
proof (induction rs arbitrary: page)
  case (Cons r rs)
  from page_add_ok [OF assms(1), of page r] Cons.prems obtain p1 where p1: "page_add print page r = Inr p1" "page_ok esc p1"
    "page_keys p1 = page_keys page + {#mr_key r#}" "set (pg_outputs p1) \<subseteq> insert r (set (pg_outputs page))"
    "pg_used page + record_bytes esc r \<le> page_budget \<longrightarrow>
         p1 = page\<lparr>pg_used := pg_used page + record_bytes esc r, pg_outputs := pg_outputs page @ [r]\<rparr>" by blast
  from Cons.IH [OF p1(2)] obtain p2 where "try_fold (page_add print) p1 rs = Inr p2" "page_ok esc p2"
    "page_keys p2 = page_keys p1 + mset (map mr_key rs)" "set (pg_outputs p2) \<subseteq> set (pg_outputs p1) \<union> set rs"
    "pg_used p1 + sum_list (map (record_bytes esc) rs) \<le> page_budget \<longrightarrow>
         p2 = p1\<lparr>pg_used := pg_used p1 + sum_list (map (record_bytes esc) rs), pg_outputs := pg_outputs p1 @ rs\<rparr>" by blast
  with p1 show ?case by (intro exI [of _ p2]) auto
qed simp

lemma page_text_bound:
  assumes "json_escape esc" "page_ok esc page" "\<forall>k\<in>#page_keys page. Memory.is_logical_id k" "size (page_keys page) \<le> 6"
  shows "length (json_text esc (page_json page)) \<le> MAX_MCP_SERIALIZED_RESULT_BYTES"
proof -
  have keys: "length (joined (map (json_text esc \<circ> JString) ks)) \<le> 131 * length ks"
    if "set ks \<subseteq> set_mset (page_keys page)" for ks
    using joined_keys [OF assms(1)] that assms(3) by auto
  have lits: "length (string_text esc ''deferred_keys'') = 15" "length (string_text esc ''oversized_keys'') = 16"
    "length (string_text esc ''records'') = 9"
    by (subst string_text_plain [OF assms(1)]; simp add: needs_escape_def)+
  have "length (pg_deferred page) + length (pg_oversized page) \<le> 6" using assms(4) by (simp add: page_keys_def)
  moreover have "length (joined (map (json_text esc \<circ> JString) (pg_deferred page))) \<le> 131 * length (pg_deferred page)"
    "length (joined (map (json_text esc \<circ> JString) (pg_oversized page))) \<le> 131 * length (pg_oversized page)"
    by (rule keys; auto simp: page_keys_def)+
  moreover have "length (joined (map (\<lambda>r. json_text esc (value_of (record_output r))) (pg_outputs page))) \<le> page_budget"
    using joined_records [of esc "pg_outputs page"] assms(2) by (simp add: page_ok_def)
  ultimately show ?thesis
    using lits by (simp add: page_value json_strings_def comp_def page_budget_def memory_ceilings)
qed

text \<open>A record within the ceilings of the surface, and how large its projection can be.\<close>

definition admitted :: "(char \<Rightarrow> string) \<Rightarrow> memory_record \<Rightarrow> bool" where
  "admitted esc r \<longleftrightarrow> length (string_text esc (mr_content r)) \<le> MAX_MCP_CONTENT_BYTES \<and> length (mr_tags r) \<le> MAX_MCP_TAGS
     \<and> (\<forall>t\<in>set (mr_tags r). length (string_text esc t) \<le> MAX_MCP_TAG_BYTES)
     \<and> Memory.is_logical_id (mr_namespace r) \<and> Memory.is_logical_id (mr_key r)"

lemma sum_list_bound: "\<forall>x\<in>set xs. f x \<le> (b::nat) \<Longrightarrow> sum_list (map f xs) \<le> b * length xs"
  by (induction xs) auto

lemma admitted_bytes:
  assumes "json_escape esc" "admitted esc r"
  shows "record_bytes esc r \<le> MAX_MCP_RECORD_PROJECTION_BYTES"
proof -
  have lits: "length (string_text esc ''namespace'') = 11" "length (string_text esc ''key'') = 5" "length (string_text esc ''kind'') = 6"
    "length (string_text esc ''content'') = 9" "length (string_text esc ''tags'') = 6" "length (string_text esc ''recorded_at_micros'') = 20"
    by (subst string_text_plain [OF assms(1)]; simp add: needs_escape_def)+
  have kind: "length (string_text esc (memory_kind_as_str k)) \<le> 12" for k
    by (cases k; simp; subst string_text_plain [OF assms(1)]; simp add: needs_escape_def)
  have ids: "length (string_text esc (mr_namespace r)) \<le> 130" "length (string_text esc (mr_key r)) \<le> 130"
    using assms string_text_plain [OF assms(1)] logical_id_plain
    by (auto simp: admitted_def Memory.is_logical_id_def Memory.MAX_ID_BYTES_def)
  have stamp: "length (json_text esc (stamp r)) \<le> 20"
    using u64_length by (auto simp: json_option_def split: option.split)
  have "sum_list (map (\<lambda>t. length (string_text esc t)) (mr_tags r)) \<le> 128 * length (mr_tags r)"
    by (rule sum_list_bound) (use assms(2) in \<open>auto simp: admitted_def MAX_MCP_TAG_BYTES_def\<close>)
  moreover have tags: "length (mr_tags r) \<le> 8" "length (string_text esc (mr_content r)) \<le> 2048"
    using assms(2) by (auto simp: admitted_def MAX_MCP_TAGS_def MAX_MCP_CONTENT_BYTES_def)
  ultimately have "length (joined (map (string_text esc) (mr_tags r))) \<le> 1031" by (simp add: length_joined comp_def)
  then have "length (json_text esc (json_strings (mr_tags r))) \<le> 1033" by (simp add: json_strings_def comp_def)
  with lits kind [of "mr_kind r"] ids stamp tags(2) show ?thesis
    by (simp add: record_bytes_def record_output_def memory_ceilings)
qed

lemma written_admitted:
  assumes "compact_printer esc print" "validate_mcp_record print i = Inr ()" "remember_into_core i = Inr q"
  shows "admitted esc (remembered now ctx q)"
proof -
  have tags: "\<forall>t\<in>set ts. length (string_text esc t) \<le> MAX_MCP_TAG_BYTES"
    if "try_fold (\<lambda>_ tag. and_then (serialized_len print tag) (\<lambda>len.
          if len > MAX_MCP_TAG_BYTES then Inl Memory.LimitExceeded else Inr ())) () ts = Inr ()" for ts
    using that assms(1)
    by (induction ts) (auto simp: result_simps serialized_len_def compact_printer_def split: if_splits)
  have "rq_content q = ri_content i" "rq_tags q = ri_tags i" "Memory.is_logical_id (rq_namespace q)" "Memory.is_logical_id (rq_key q)"
    using assms(3) by (auto simp: remember_into_core_def result_simps Memory.logical_id_new_def split: if_splits)
  then show ?thesis
    using assms(1,2) tags [of "ri_tags i"]
    by (auto simp: admitted_def remembered_def validate_mcp_record_def serialized_len_def compact_printer_def split: if_splits)
qed

text \<open>The oversized keys are those of the records that fit no page, and a page that defers shows something.\<close>

lemma page_fold_oversized:
  assumes "compact_printer esc print" "try_fold (page_add print) page rs = Inr page'" "page_ok esc page"
    and "pg_deferred page \<noteq> [] \<longrightarrow> pg_outputs page \<noteq> []"
  shows "pg_oversized page' = pg_oversized page @ map mr_key (filter (\<lambda>r. record_bytes esc r > page_budget) rs)
    \<and> (pg_deferred page' \<noteq> [] \<longrightarrow> pg_outputs page' \<noteq> [])"
  using assms(2-)
proof (induction rs arbitrary: page)
  case (Cons r rs)
  obtain p1 where p1: "page_add print page r = Inr p1" "page_ok esc p1" "try_fold (page_add print) p1 rs = Inr page'"
    using Cons.prems page_add_ok [OF assms(1), of page r] by auto
  have "pg_oversized p1 = pg_oversized page @ (if record_bytes esc r > page_budget then [mr_key r] else [])
    \<and> (pg_deferred p1 \<noteq> [] \<longrightarrow> pg_outputs p1 \<noteq> [])"
    using p1(1) assms(1) Cons.prems(2,3)
    by (auto simp: page_add_def compact_printer_def record_bytes_def page_ok_def Let_def split: if_splits)
  with Cons.IH [OF p1(3,2)] show ?case by simp
qed simp

text \<open>C29: A memory search is never refused for its size, and loses no record silently. For at most six
  records with valid keys, over any library that prints compact JSON, the projection succeeds and
  stays within the ceilings, raw and escaped into tool text. The keys of the records shown, the
  deferred keys and the oversized keys are together exactly the keys of the records found. The
  oversized keys are those of the records that would not fit an empty page, and a page that defers
  a record shows one, so that asking again makes progress. If all records found are within the
  surface's ceilings, all are shown, in order, with nothing deferred; every record written through
  this surface is within them.\<close>

theorem memory_search_page_total:
  assumes "compact_printer esc print" "\<forall>r\<in>set records. Memory.is_logical_id (mr_key r)" "length records \<le> 6"
  shows "(\<exists>page. serialize_search print records = Inr (json_text esc (page_json page))
      \<and> mset (map mr_key (pg_outputs page)) + mset (pg_deferred page) + mset (pg_oversized page) = mset (map mr_key records)
      \<and> set (pg_outputs page) \<subseteq> set records
      \<and> pg_oversized page = map mr_key (filter (\<lambda>r. record_bytes esc r > page_budget) records)
      \<and> (pg_deferred page \<noteq> [] \<longrightarrow> pg_outputs page \<noteq> [])
      \<and> ((\<forall>r\<in>set records. admitted esc r) \<longrightarrow> pg_outputs page = records \<and> pg_deferred page = [] \<and> pg_oversized page = [])
      \<and> length (json_text esc (page_json page)) \<le> 28672
      \<and> length (string_text esc (json_text esc (page_json page))) \<le> 57344)
    \<and> (\<forall>i q now ctx. validate_mcp_record print i = Inr () \<and> remember_into_core i = Inr q \<longrightarrow> admitted esc (remembered now ctx q))"
proof -
  let ?start = "\<lparr>pg_outputs = [], pg_used = 0, pg_deferred = [], pg_oversized = []\<rparr> :: search_page"
  have esc: "json_escape esc" using assms(1) by (simp add: compact_printer_def)
  have "page_ok esc ?start" by (simp add: page_ok_def)
  from page_fold_ok [OF assms(1) this, of records] obtain page where page: "try_fold (page_add print) ?start records = Inr page"
    "page_ok esc page" "page_keys page = mset (map mr_key records)" "set (pg_outputs page) \<subseteq> set records"
    and all: "sum_list (map (record_bytes esc) records) \<le> page_budget \<longrightarrow> page = ?start\<lparr>pg_used := sum_list (map (record_bytes esc) records), pg_outputs := records\<rparr>"
    by (auto simp: page_keys_def)
  have len: "length (json_text esc (page_json page)) \<le> 28672"
    using page_text_bound [OF esc page(2)] assms(2,3) page(3) by (simp add: memory_ceilings)
  obtain es where es: "page_json page = JObject es" "printable_numbers (JObject es)"
    using page_value [of page] record_value_printable by (auto simp: json_strings_def)
  have framed: "length (string_text esc (json_text esc (page_json page))) \<le> 57344"
    using length_framed_object [OF esc es(2)] len unfolding es(1) by linarith
  have served: "serialize_search print records = Inr (json_text esc (page_json page))"
    using assms(1) page(1) len framed
    by (simp add: serialize_search_def memory_serialize_def framed_len_def compact_printer_def memory_ceilings)
  have "pg_outputs page = records \<and> pg_deferred page = [] \<and> pg_oversized page = []" if "\<forall>r\<in>set records. admitted esc r"
  proof -
    have "sum_list (map (record_bytes esc) records) \<le> MAX_MCP_RECORD_PROJECTION_BYTES * length records"
      by (rule sum_list_bound) (use that admitted_bytes [OF esc] in auto)
    also have "\<dots> \<le> page_budget" using assms(3) by (simp add: page_budget_def memory_ceilings)
    finally show ?thesis using all by simp
  qed
  moreover have "pg_oversized page = map mr_key (filter (\<lambda>r. record_bytes esc r > page_budget) records)
      \<and> (pg_deferred page \<noteq> [] \<longrightarrow> pg_outputs page \<noteq> [])"
    using page_fold_oversized [OF assms(1) page(1)] by (simp add: page_ok_def)
  ultimately show ?thesis using served page len framed
    using written_admitted [OF assms(1)] by (auto simp: page_keys_def intro!: exI [of _ page])
qed

definition demo_escape :: "char \<Rightarrow> string" where
  "demo_escape c = (if c = CHR 0x22 \<or> c = CHR 0x5C then [CHR 0x5C, c] else if needs_escape c then CHR 0x5C # ''u0000'' else [c])"

definition demo_printer :: "json \<Rightarrow> (string, string) result" where
  "demo_printer v = Inr (json_text demo_escape v)"

lemma demo_compact: "compact_printer demo_escape demo_printer"
  by (auto simp: compact_printer_def json_escape_def demo_escape_def demo_printer_def needs_escape_def)

definition demo_memory_record :: "string \<Rightarrow> memory_record" where
  "demo_memory_record k = \<lparr>mr_tenant_id = ''t'', mr_namespace = ''n'', mr_key = k, mr_kind = Factual, mr_content = ''c'', mr_tags = [],
     mr_metadata = [], mr_provenance = None\<rparr>"

theorem memory_search_page_total_witness:
  "\<exists>page. serialize_search demo_printer [demo_memory_record ''a'', demo_memory_record ''b''] = Inr (json_text demo_escape (page_json page))
     \<and> pg_outputs page = [demo_memory_record ''a'', demo_memory_record ''b''] \<and> pg_deferred page = []"
proof -
  have ids: "Memory.is_logical_id ''a''" "Memory.is_logical_id ''b''" "Memory.is_logical_id ''n''"
    by (simp_all add: Memory.is_logical_id_def Memory.MAX_ID_BYTES_def is_ascii_alphanumeric_def ascii_defs less_eq_char_def)
  then have "\<forall>r\<in>set [demo_memory_record ''a'', demo_memory_record ''b'']. Memory.is_logical_id (mr_key r)"
    by (simp add: demo_memory_record_def)
  moreover have "\<forall>r\<in>set [demo_memory_record ''a'', demo_memory_record ''b'']. admitted demo_escape r"
    using ids by (simp add: admitted_def demo_memory_record_def string_text_def demo_escape_def needs_escape_def memory_ceilings)
  ultimately show ?thesis
    using memory_search_page_total [OF demo_compact, of "[demo_memory_record ''a'', demo_memory_record ''b'']"] by auto
qed

end
