(* ===== verification/Observability_Mcp.thy ===== *)
theory Observability_Mcp
  imports Mcp_Access Json_Text Telemetry
begin

text \<open>
  The tool surface of the observability crate (\<open>observability/src/mcp.rs\<close>): telemetry queries and
  status behind the gate, and the projection of records, which shortens a page until it fits and
  says so.
\<close>

definition OBSERVABILITY_TOOLS :: "string list" where
  "OBSERVABILITY_TOOLS = [''observability_telemetry_query'', ''observability_telemetry_status'']"

definition MAX_MCP_REQUEST_BYTES :: nat where "MAX_MCP_REQUEST_BYTES = 16 * 1024"
definition BRICK_TOOL_TEXT_BUDGET_BYTES :: nat where "BRICK_TOOL_TEXT_BUDGET_BYTES = 64 * 1024"
definition COMPOSITION_HEADROOM_BYTES :: nat where "COMPOSITION_HEADROOM_BYTES = 8 * 1024"
definition MAX_MCP_ESCAPED_TOOL_TEXT_BYTES :: nat where
  "MAX_MCP_ESCAPED_TOOL_TEXT_BYTES = BRICK_TOOL_TEXT_BUDGET_BYTES - COMPOSITION_HEADROOM_BYTES"
definition MAX_MCP_SERIALIZED_RESULT_BYTES :: nat where
  "MAX_MCP_SERIALIZED_RESULT_BYTES = MAX_MCP_ESCAPED_TOOL_TEXT_BYTES div 2"

lemmas observability_ceilings = BRICK_TOOL_TEXT_BUDGET_BYTES_def COMPOSITION_HEADROOM_BYTES_def MAX_MCP_ESCAPED_TOOL_TEXT_BYTES_def
  MAX_MCP_SERIALIZED_RESULT_BYTES_def MAX_MCP_REQUEST_BYTES_def

fun severity_name :: "severity \<Rightarrow> string" where
  "severity_name Trace = ''trace''"
| "severity_name Debug = ''debug''"
| "severity_name Info = ''info''"
| "severity_name Warn = ''warn''"
| "severity_name Error = ''error''"

record telemetry_query_input =
  qi_since_unix_nanos :: "u64 option"
  qi_until_unix_nanos :: "u64 option"
  qi_minimum_severity :: "severity option"
  qi_event_name :: "string option"
  qi_target :: "string option"
  qi_limit :: usize

definition query_input_json :: "telemetry_query_input \<Rightarrow> json" where
  "query_input_json i = JObject [
     (''since_unix_nanos'', json_option (\<lambda>t. JNumber (word_to_string t)) (qi_since_unix_nanos i)),
     (''until_unix_nanos'', json_option (\<lambda>t. JNumber (word_to_string t)) (qi_until_unix_nanos i)),
     (''minimum_severity'', json_option (\<lambda>s. JString (severity_name s)) (qi_minimum_severity i)),
     (''event_name'', json_option JString (qi_event_name i)), (''target'', json_option JString (qi_target i)),
     (''limit'', JNumber (nat_to_string (qi_limit i)))]"

definition transpose_name :: "(string \<Rightarrow> (unit, observability_error) result) \<Rightarrow> string option
    \<Rightarrow> (string option, observability_error) result" where
  "transpose_name validator v =
     (case v of None \<Rightarrow> Inr None | Some s \<Rightarrow> and_then (bounded_name_new validator s) (\<lambda>s. Inr (Some s)))"

definition query_into_core :: "telemetry_query_input \<Rightarrow> (telemetry_query, observability_error) result" where
  "query_into_core i =
     and_then (transpose_name validate_event_name (qi_event_name i)) (\<lambda>event_name.
     and_then (transpose_name validate_event_target (qi_target i)) (\<lambda>target.
       Inr \<lparr>tq_since = qi_since_unix_nanos i, tq_until = qi_until_unix_nanos i, tq_minimum_severity = qi_minimum_severity i,
         tq_event_name = event_name, tq_target = target, tq_limit = qi_limit i\<rparr>))"

section \<open>Replies\<close>

definition telemetry_record_output :: "telemetry_record \<Rightarrow> json" where
  "telemetry_record_output r = JObject [(''sequence'', JNumber (word_to_string (tr_sequence r))),
     (''timestamp_unix_nanos'', JNumber (word_to_string (env_timestamp (tr_envelope r)))),
     (''severity'', JString (severity_name (te_severity (env_event (tr_envelope r))))),
     (''event_name'', JString (te_name (env_event (tr_envelope r)))),
     (''target'', JString (te_target (env_event (tr_envelope r))))]"

definition observability_framed_len :: "(json \<Rightarrow> (string, string) result) \<Rightarrow> string \<Rightarrow> (nat, string) result" where
  "observability_framed_len print text =
     and_then (map_err (\<lambda>_. ''could not measure MCP response'') (print (JString text))) (\<lambda>escaped. Inr (length escaped))"

text \<open>The second length is measured only if the first fits.\<close>

definition fits_result_ceiling :: "(json \<Rightarrow> (string, string) result) \<Rightarrow> string \<Rightarrow> (bool, string) result" where
  "fits_result_ceiling print text =
     (if length text \<le> MAX_MCP_SERIALIZED_RESULT_BYTES
      then and_then (observability_framed_len print text) (\<lambda>framed. Inr (framed \<le> MAX_MCP_ESCAPED_TOOL_TEXT_BYTES))
      else Inr False)"

definition observability_serialize :: "(json \<Rightarrow> (string, string) result) \<Rightarrow> json \<Rightarrow> (string, string) result" where
  "observability_serialize print v =
     and_then (map_err (\<lambda>_. ''could not serialize MCP response'') (print v)) (\<lambda>text.
     and_then (fits_result_ceiling print text) (\<lambda>fits. if fits then Inr text else Inl ''limit_exceeded''))"

definition records_json :: "telemetry_record list \<Rightarrow> nat \<Rightarrow> json" where
  "records_json records n = json_object [(''records'', JArray (map telemetry_record_output (take n records))),
     (''truncated'', JBool (n < length records))]"

fun longest_fit :: "(json \<Rightarrow> (string, string) result) \<Rightarrow> telemetry_record list \<Rightarrow> nat \<Rightarrow> (string, string) result" where
  "longest_fit print records n =
     and_then (map_err (\<lambda>_. ''could not serialize MCP response'') (print (records_json records n))) (\<lambda>text.
     and_then (fits_result_ceiling print text) (\<lambda>fits.
       if fits then Inr text else case n of 0 \<Rightarrow> Inl ''limit_exceeded'' | Suc k \<Rightarrow> longest_fit print records k))"

declare longest_fit.simps [simp del]

definition serialize_records :: "(json \<Rightarrow> (string, string) result) \<Rightarrow> telemetry_record list \<Rightarrow> (string, string) result" where
  "serialize_records print records = longest_fit print records (length records)"

definition observability_validate_request :: "(json \<Rightarrow> (string, string) result) \<Rightarrow> json \<Rightarrow> (unit, observability_error) result" where
  "observability_validate_request print v =
     and_then (map_err (\<lambda>_. InvalidQuery) (print v)) (\<lambda>text.
       if length text \<le> MAX_MCP_REQUEST_BYTES then Inr () else Inl Observability.LimitExceeded)"

definition observability_code :: "observability_error \<Rightarrow> string" where
  "observability_code e = (case Observability.public_code e of
      PubInvalidId \<Rightarrow> ''invalid_id'' | PubInvalidEvent \<Rightarrow> ''invalid_event'' | PubInvalidQuery \<Rightarrow> ''invalid_query''
    | PubInvalidConfiguration \<Rightarrow> ''invalid_configuration'' | PubInvalidTraceContext \<Rightarrow> ''invalid_trace_context''
    | PubInvalidSpan \<Rightarrow> ''invalid_span'' | PubInvalidMetric \<Rightarrow> ''invalid_metric'' | PubLimitExceeded \<Rightarrow> ''limit_exceeded''
    | PubOperationFailed \<Rightarrow> ''operation_failed'')"

definition observability_tool_response :: "(json \<Rightarrow> string) \<Rightarrow> (string, string) result \<Rightarrow> string" where
  "observability_tool_response display = error_reply display [''invalid_id'', ''invalid_event'', ''invalid_query'',
     ''invalid_configuration'', ''limit_exceeded'', ''operation_failed''] ''operation_failed''"

section \<open>The tools\<close>

record 'w observability_mcp =
  om_validate_query :: "telemetry_query \<Rightarrow> (unit, observability_error) result"
  om_query :: "string \<Rightarrow> telemetry_query \<Rightarrow> (telemetry_record list, observability_error, 'w) st"
  om_guarantees :: telemetry_guarantees
  om_host :: "'w host"

text \<open>The surface over the telemetry service.\<close>

definition over_telemetry_service :: "('s \<Rightarrow> string \<Rightarrow> telemetry_query \<Rightarrow> (telemetry_record list, observability_error) result)
    \<Rightarrow> telemetry_guarantees \<Rightarrow> telemetry_guarantees \<Rightarrow> usize \<Rightarrow> ('s telemetry_service) host \<Rightarrow> ('s telemetry_service) observability_mcp" where
  "over_telemetry_service reader_query sink reader limit h = \<lparr>
     om_validate_query = (\<lambda>q. validate_query q limit),
     om_query = (\<lambda>tenant q w. (service_query reader_query w tenant q, w)),
     om_guarantees = service_guarantees sink reader, om_host = h\<rparr>"

definition observability_authorize :: "(string \<Rightarrow> string) \<Rightarrow> 'w observability_mcp \<Rightarrow> capability_v1
    \<Rightarrow> (string, observability_error, 'w) st" where
  "observability_authorize sha256_hex m capability =
     st_then (st_map_err (\<lambda>_. AdapterFailure) (pass_gate sha256_hex (om_host m) capability)) (\<lambda>(trusted, grant, digest).
       st_of (map_err (\<lambda>_. AdapterFailure) (bounded_name_new validate_tenant_id (tc_tenant_id trusted))))"

definition query_json :: "(json \<Rightarrow> (string, string) result) \<Rightarrow> (string \<Rightarrow> string) \<Rightarrow> 'w observability_mcp
    \<Rightarrow> telemetry_query_input \<Rightarrow> (string, string, 'w) st" where
  "query_json print sha256_hex m input =
     st_then (st_of (map_err observability_code (observability_validate_request print (query_input_json input)))) (\<lambda>_.
     st_then (st_map_err observability_code (observability_authorize sha256_hex m ObservabilityTelemetryQuery)) (\<lambda>tenant.
     st_then (st_of (map_err observability_code (query_into_core input))) (\<lambda>query.
     st_then (st_of (map_err observability_code (om_validate_query m query))) (\<lambda>_.
     st_then (st_map_err observability_code (om_query m tenant query)) (\<lambda>records.
       st_of (serialize_records print records))))))"

definition telemetry_status_json :: "(json \<Rightarrow> (string, string) result) \<Rightarrow> (string \<Rightarrow> string) \<Rightarrow> 'w observability_mcp
    \<Rightarrow> (string, string, 'w) st" where
  "telemetry_status_json print sha256_hex m =
     st_then (st_of (map_err observability_code (observability_validate_request print (JObject [])))) (\<lambda>_.
     st_then (st_map_err observability_code (observability_authorize sha256_hex m ObservabilityTelemetryStatus)) (\<lambda>_.
       st_of (observability_serialize print (json_object [
         (''durable_across_restart'', JBool (tg_durable_across_restart (om_guarantees m))),
         (''visible_across_processes'', JBool (tg_visible_across_processes (om_guarantees m))),
         (''delivery_confirmed'', JBool (tg_delivery_confirmed (om_guarantees m))),
         (''queryable'', JBool (tg_queryable (om_guarantees m))),
         (''may_block'', JBool (tg_may_block (om_guarantees m)))]))))"

datatype observability_tool = QueryTool telemetry_query_input | TelemetryStatusTool

fun observability_tool_call :: "(json \<Rightarrow> (string, string) result) \<Rightarrow> (json \<Rightarrow> string) \<Rightarrow> (string \<Rightarrow> string) \<Rightarrow> 'w observability_mcp
    \<Rightarrow> observability_tool \<Rightarrow> (string, string, 'w) st" where
  "observability_tool_call print display sha256_hex m (QueryTool input) =
     st_match (query_json print sha256_hex m input) (\<lambda>r. st_of (Inr (observability_tool_response display r)))"
| "observability_tool_call print display sha256_hex m TelemetryStatusTool =
     st_match (telemetry_status_json print sha256_hex m) (\<lambda>r. st_of (Inr (observability_tool_response display r)))"

section \<open>Pages\<close>

definition page_fits :: "(char \<Rightarrow> string) \<Rightarrow> json \<Rightarrow> bool" where
  "page_fits esc v \<longleftrightarrow> length (json_text esc v) \<le> 28672 \<and> length (string_text esc (json_text esc v)) \<le> 57344"

lemma fits_result_ceiling_compact:
  "compact_printer esc print \<Longrightarrow> fits_result_ceiling print (json_text esc v) = Inr (page_fits esc v)"
  by (simp add: fits_result_ceiling_def observability_framed_len_def compact_printer_def page_fits_def observability_ceilings)

lemma longest_fit_compact:
  assumes "compact_printer esc print"
  shows "longest_fit print records n = (if page_fits esc (records_json records n) then Inr (json_text esc (records_json records n))
    else case n of 0 \<Rightarrow> Inl ''limit_exceeded'' | Suc k \<Rightarrow> longest_fit print records k)"
  using fits_result_ceiling_compact [OF assms] assms
  by (subst longest_fit.simps) (simp add: compact_printer_def)

lemma empty_page_fits:
  assumes "json_escape esc"
  shows "page_fits esc (records_json records 0)"
proof -
  have lits: "length (string_text esc ''records'') = 9" "length (string_text esc ''truncated'') = 11"
    by (subst string_text_plain [OF assms]; simp add: needs_escape_def)+
  have page: "records_json records 0 = JObject [(''records'', JArray []), (''truncated'', JBool (0 < length records))]"
    by (simp add: records_json_def json_object_def value_seq_eq less_list_code less_char_def)
  have "length (json_text esc (records_json records 0)) \<le> 40" using lits by (simp add: page)
  moreover have "length (string_text esc (json_text esc (records_json records 0))) \<le> 2 * length (json_text esc (records_json records 0))"
    unfolding page by (rule length_framed_object [OF assms]) simp
  ultimately show ?thesis by (simp add: page_fits_def)
qed

lemma longest_fit_total:
  assumes "compact_printer esc print"
  shows "\<exists>k\<le>n. longest_fit print records n = Inr (json_text esc (records_json records k)) \<and> page_fits esc (records_json records k)
    \<and> (\<forall>j. k < j \<and> j \<le> n \<longrightarrow> \<not> page_fits esc (records_json records j))"
proof (induction n)
  case 0
  have "page_fits esc (records_json records 0)" using empty_page_fits assms by (simp add: compact_printer_def)
  then show ?case by (simp add: longest_fit_compact [OF assms])
next
  case (Suc n)
  show ?case
  proof (cases "page_fits esc (records_json records (Suc n))")
    case True
    then show ?thesis using longest_fit_compact [OF assms, of records "Suc n"] by (intro exI [of _ "Suc n"]) auto
  next
    case False
    with Suc show ?thesis using longest_fit_compact [OF assms, of records "Suc n"] by (auto simp: le_Suc_eq)
  qed
qed

section \<open>The gate\<close>

datatype telemetry_call = TelemetryCall string telemetry_query

definition logged_observability :: "'w observability_mcp \<Rightarrow> ('w \<times> telemetry_call access_event list) observability_mcp" where
  "logged_observability m = \<lparr>om_validate_query = om_validate_query m,
     om_query = (\<lambda>tenant q. performing (\<lambda>(tenant, q). TelemetryCall tenant q) (\<lambda>(tenant, q). om_query m tenant q) (tenant, q)),
     om_guarantees = om_guarantees m, om_host = logged_host (om_host m)\<rparr>"

fun observability_capability_of :: "observability_tool \<Rightarrow> capability_v1" where
  "observability_capability_of (QueryTool _) = ObservabilityTelemetryQuery"
| "observability_capability_of TelemetryStatusTool = ObservabilityTelemetryStatus"

fun observability_carries :: "observability_tool \<Rightarrow> trusted_context_v1 \<Rightarrow> grant_v1 \<Rightarrow> string \<Rightarrow> telemetry_call \<Rightarrow> bool" where
  "observability_carries (QueryTool i) trusted grant digest (TelemetryCall tenant q) \<longleftrightarrow>
     tenant = tc_tenant_id trusted \<and> query_into_core i = Inr q"
| "observability_carries TelemetryStatusTool trusted grant digest call \<longleftrightarrow> False"

lemma authorizes_observability:
  "authorizes sha256_hex (om_host m) c (observability_authorize sha256_hex (logged_observability m) c)
     (\<lambda>trusted g d tenant. tenant = tc_tenant_id trusted)"
proof -
  have host: "om_host (logged_observability m) = logged_host (om_host m)" by (simp add: logged_observability_def)
  show ?thesis unfolding observability_authorize_def host split_beta
    by (rule authorizes_gate) (auto simp: result_simps bounded_name_new_def)
qed

lemma logged_query:
  "om_query (logged_observability m) tenant q
     = performing (\<lambda>(tenant, q). TelemetryCall tenant q) (\<lambda>(tenant, q). om_query m tenant q) (tenant, q)"
  by (simp add: logged_observability_def)

lemma runs_observability_tools:
  "runs (observability_tool_call print display sha256_hex (logged_observability m) tool) []
     (\<lambda>r s. gated sha256_hex (om_host m) (observability_capability_of tool) (observability_carries tool) s)"
proof (cases tool)
  case (QueryTool i)
  have "runs (query_json print sha256_hex (logged_observability m) i) []
      (\<lambda>r s. gated sha256_hex (om_host m) ObservabilityTelemetryQuery (observability_carries tool) s)"
    unfolding query_json_def logged_query
    by (intro runs_of_then gated_idle idle_simps runs_authorized [OF authorizes_observability] runs_perform_last)
      (auto simp: QueryTool map_err_Inr)
  then show ?thesis by (simp add: QueryTool runs_reply)
next
  case TelemetryStatusTool
  have "runs (telemetry_status_json print sha256_hex (logged_observability m)) []
      (\<lambda>r s. gated sha256_hex (om_host m) ObservabilityTelemetryStatus (observability_carries tool) s)"
    unfolding telemetry_status_json_def
    by (intro runs_of_then gated_idle idle_simps runs_authorized [OF authorizes_observability]) (auto intro!: runs_of gated_idle)
  then show ?thesis by (simp add: TelemetryStatusTool runs_reply)
qed

interpretation observability_surface: tool_surface sha256_hex "om_host m"
    "observability_tool_call print display sha256_hex (logged_observability m)"
    "\<lambda>tool. Some (observability_capability_of tool)" observability_carries for sha256_hex m print display
  by unfold_locales (auto intro: runs_log [OF runs_observability_tools])

end
