(* ===== verification/Evaluation_Mcp.thy ===== *)
theory Evaluation_Mcp
  imports Mcp_Access Evaluation
begin

text \<open>
  The tool surface of the evaluation crate (\<open>evaluation/src/mcp.rs\<close>): definitions are validated,
  terminal runs evaluated and results fetched behind the gate, which names the tenant of every
  call.
\<close>

definition EVALUATION_TOOLS :: "string list" where
  "EVALUATION_TOOLS = [''evaluation_validate'', ''evaluation_evaluate_run'', ''evaluation_get_result'']"

definition MAX_MCP_REQUEST_DTO_BYTES :: nat where "MAX_MCP_REQUEST_DTO_BYTES = 65536"
definition MAX_MCP_SERIALIZED_RESULT_BYTES :: nat where "MAX_MCP_SERIALIZED_RESULT_BYTES = 65536"
definition MAX_MCP_TOOL_TEXT_BYTES :: nat where "MAX_MCP_TOOL_TEXT_BYTES = 56 * 1024"
definition MAX_MCP_RESULT_BYTES :: nat where "MAX_MCP_RESULT_BYTES = 28 * 1024"

section \<open>Inputs\<close>

record definition_input =
  di_evaluator_id :: string
  di_evaluator_version :: string
  di_criteria :: "criterion_v1 list"

record evaluate_run_input =
  ei_run_id :: string
  ei_definition :: definition_input

record get_result_input =
  gi_evaluator_id :: string
  gi_evaluator_version :: string
  gi_criterion_digest :: string
  gi_run_id :: string
  gi_workflow_revision :: u64

fun criterion_json :: "criterion_v1 \<Rightarrow> json" where
  "criterion_json (ExactOutput expected) =
     JObject [(''type'', JString ''exact_output''), (''expected'', JString expected)]"
| "criterion_json (EventKindCount kind expected) = JObject [(''type'', JString ''event_kind_count''), (''kind'', JString kind),
     (''expected'', JNumber (word_to_string expected))]"
| "criterion_json (EventDataEquals sequence expected) = JObject [(''type'', JString ''event_data_equals''),
     (''sequence'', JNumber (word_to_string sequence)), (''expected'', JString expected)]"

definition definition_members :: "definition_input \<Rightarrow> (string \<times> json) list" where
  "definition_members i = [(''evaluator_id'', JString (di_evaluator_id i)),
     (''evaluator_version'', JString (di_evaluator_version i)), (''criteria'', JArray (map criterion_json (di_criteria i)))]"

text \<open>The definition of an evaluation request is flattened into it.\<close>

definition evaluate_run_input_json :: "evaluate_run_input \<Rightarrow> json" where
  "evaluate_run_input_json i = JObject ((''run_id'', JString (ei_run_id i)) # definition_members (ei_definition i))"

definition get_result_input_json :: "get_result_input \<Rightarrow> json" where
  "get_result_input_json i = JObject [(''evaluator_id'', JString (gi_evaluator_id i)),
     (''evaluator_version'', JString (gi_evaluator_version i)), (''criterion_digest'', JString (gi_criterion_digest i)),
     (''run_id'', JString (gi_run_id i)), (''workflow_revision'', JNumber (word_to_string (gi_workflow_revision i)))]"

definition definition_into_core :: "definition_input \<Rightarrow> evaluation_definition_v1" where
  "definition_into_core i = \<lparr>ed_evaluator_id = di_evaluator_id i, ed_evaluator_version = di_evaluator_version i,
     ed_criteria = di_criteria i\<rparr>"

section \<open>Checks and replies\<close>

definition validate_mcp_request :: "(json \<Rightarrow> (string, string) result) \<Rightarrow> json \<Rightarrow> (unit, evaluation_error) result" where
  "validate_mcp_request print v =
     and_then (map_err (\<lambda>_. InvalidRequest) (print v)) (\<lambda>text.
       if length text \<le> MAX_MCP_REQUEST_DTO_BYTES then Inr () else Inl LimitExceeded)"

definition validate_evaluate_input :: "(string \<Rightarrow> string) \<Rightarrow> string \<Rightarrow> evaluation_definition_v1 \<Rightarrow> (unit, evaluation_error) result" where
  "validate_evaluate_input sha256_hex run_id d =
     and_then (definition_digest sha256_hex d) (\<lambda>digest.
       validate_logical_key (LogicalEvaluationKey ''tenant'' (ed_evaluator_id d) (ed_evaluator_version d) digest run_id 0))"

definition get_key :: "string \<Rightarrow> get_result_input \<Rightarrow> logical_evaluation_key" where
  "get_key tenant i = LogicalEvaluationKey tenant (gi_evaluator_id i) (gi_evaluator_version i) (gi_criterion_digest i)
     (gi_run_id i) (gi_workflow_revision i)"

definition validate_get_input :: "get_result_input \<Rightarrow> (unit, evaluation_error) result" where
  "validate_get_input i = validate_logical_key (get_key ''tenant'' i)"

fun evaluation_code :: "evaluation_error \<Rightarrow> string" where
  "evaluation_code e = (case eval_public_code e of
      PubInvalidRequest \<Rightarrow> ''invalid_request'' | PubInvalidDefinition \<Rightarrow> ''invalid_definition'' | PubNotFound \<Rightarrow> ''not_found''
    | PubConflict \<Rightarrow> ''conflict'' | PubLimitExceeded \<Rightarrow> ''limit_exceeded'' | PubOperationFailed \<Rightarrow> ''operation_failed'')"

fun mcp_verdict_name :: "verdict \<Rightarrow> string" where
  "mcp_verdict_name Pass = ''pass''"
| "mcp_verdict_name Fail = ''fail''"
| "mcp_verdict_name ErrorVerdict = ''error''"

definition evaluation_serialize :: "(json \<Rightarrow> (string, string) result) \<Rightarrow> json \<Rightarrow> (string, string) result" where
  "evaluation_serialize print v =
     and_then (map_err (\<lambda>_. ''could not serialize MCP response'') (print v)) (\<lambda>text.
     and_then (map_err (\<lambda>_. ''could not measure JSON-escaped MCP tool text'') (print (JString text))) (\<lambda>escaped.
       if length escaped \<le> MAX_MCP_TOOL_TEXT_BYTES \<and> length text \<le> MAX_MCP_SERIALIZED_RESULT_BYTES then Inr text
       else Inl ''limit_exceeded''))"

definition result_value :: "evaluation_result_v1 \<Rightarrow> json" where
  "result_value r = json_object [(''evaluator_id'', JString (lk_evaluator_id (er_logical_key r))),
     (''evaluator_version'', JString (lk_evaluator_version (er_logical_key r))),
     (''criterion_digest'', JString (lk_criterion_digest (er_logical_key r))),
     (''run_id'', JString (lk_workflow_run_id (er_logical_key r))),
     (''workflow_revision'', JNumber (word_to_string (lk_workflow_revision (er_logical_key r)))),
     (''evidence_digest'', JString (er_evidence_digest r)), (''verdict'', JString (mcp_verdict_name (er_verdict r))),
     (''findings'', json_strings (er_findings r)), (''content_hash'', JString (er_content_hash r))]"

definition result_json :: "(json \<Rightarrow> (string, string) result) \<Rightarrow> evaluation_result_v1 \<Rightarrow> (string, string) result" where
  "result_json print r =
     and_then (map_err evaluation_code (result_canonical_bytes r)) (\<lambda>bytes.
       if length bytes > MAX_MCP_RESULT_BYTES then Inl ''limit_exceeded'' else evaluation_serialize print (result_value r))"

definition evaluation_tool_response :: "(json \<Rightarrow> string) \<Rightarrow> (string, string) result \<Rightarrow> string" where
  "evaluation_tool_response display = error_reply display [''invalid_request'', ''invalid_definition'', ''not_found'', ''conflict'',
     ''limit_exceeded'', ''operation_failed''] ''operation_failed''"

section \<open>The tools\<close>

record 'w evaluation_mcp =
  em_evaluate_and_store :: "string \<Rightarrow> string \<Rightarrow> evaluation_definition_v1 \<Rightarrow> (create_or_match_outcome, evaluation_error, 'w) st"
  em_get :: "string \<Rightarrow> logical_evaluation_key \<Rightarrow> (evaluation_result_v1 option, evaluation_error, 'w) st"
  em_host :: "'w host"

text \<open>The surface over the service with the in-memory store.\<close>

definition over_evaluation_service :: "(string \<Rightarrow> string) \<Rightarrow> evidence_reader \<Rightarrow> evaluation_executor
    \<Rightarrow> in_memory_evaluation_store host \<Rightarrow> in_memory_evaluation_store evaluation_mcp" where
  "over_evaluation_service sha256_hex reader executor h = \<lparr>
     em_evaluate_and_store = (\<lambda>tenant run_id d store. service_evaluate_and_store sha256_hex reader executor store tenant run_id d),
     em_get = (\<lambda>tenant key store. (evaluation_get store tenant key, store)), em_host = h\<rparr>"

definition gate_error :: "gate_failure \<Rightarrow> evaluation_error" where
  "gate_error e = (if e = Refused then NotFound else AdapterFailure)"

definition resolve_and_authorize :: "(string \<Rightarrow> string) \<Rightarrow> 'w evaluation_mcp \<Rightarrow> capability_v1 \<Rightarrow> (string, evaluation_error, 'w) st" where
  "resolve_and_authorize sha256_hex m capability =
     st_then (st_map_err gate_error (pass_gate sha256_hex (em_host m) capability)) (\<lambda>(trusted, grant, digest).
       st_of (Inr (tc_tenant_id trusted)))"

definition validate_json :: "(json \<Rightarrow> (string, string) result) \<Rightarrow> (string \<Rightarrow> string) \<Rightarrow> 'w evaluation_mcp \<Rightarrow> definition_input
    \<Rightarrow> (string, string, 'w) st" where
  "validate_json print sha256_hex m input =
     st_then (st_of (map_err evaluation_code (validate_mcp_request print (JObject (definition_members input))))) (\<lambda>_.
     st_then (st_map_err evaluation_code (resolve_and_authorize sha256_hex m EvaluationValidate)) (\<lambda>_.
       st_of (evaluation_serialize print (case validate_definition (definition_into_core input) of
           Inr _ \<Rightarrow> json_object [(''valid'', JBool True), (''findings'', JArray [])]
         | Inl e \<Rightarrow> json_object [(''valid'', JBool False), (''error'', JString (evaluation_code e))]))))"

definition evaluate_json :: "(json \<Rightarrow> (string, string) result) \<Rightarrow> (string \<Rightarrow> string) \<Rightarrow> 'w evaluation_mcp \<Rightarrow> evaluate_run_input
    \<Rightarrow> (string, string, 'w) st" where
  "evaluate_json print sha256_hex m input =
     st_then (st_of (map_err evaluation_code (validate_mcp_request print (evaluate_run_input_json input)))) (\<lambda>_.
     st_then (st_map_err evaluation_code (resolve_and_authorize sha256_hex m EvaluationEvaluate)) (\<lambda>tenant.
     let d = definition_into_core (ei_definition input) in
     st_then (st_of (map_err evaluation_code (validate_definition d))) (\<lambda>_.
     st_then (st_of (map_err evaluation_code (validate_evaluate_input sha256_hex (ei_run_id input) d))) (\<lambda>_.
     st_then (st_map_err evaluation_code (em_evaluate_and_store m tenant (ei_run_id input) d)) (\<lambda>outcome.
       st_of (case outcome of Created r \<Rightarrow> result_json print r | Existing r \<Rightarrow> result_json print r
         | KeyConflict \<Rightarrow> Inl ''conflict''))))))"

definition get_json :: "(json \<Rightarrow> (string, string) result) \<Rightarrow> (string \<Rightarrow> string) \<Rightarrow> 'w evaluation_mcp \<Rightarrow> get_result_input
    \<Rightarrow> (string, string, 'w) st" where
  "get_json print sha256_hex m input =
     st_then (st_of (map_err evaluation_code (validate_mcp_request print (get_result_input_json input)))) (\<lambda>_.
     st_then (st_map_err evaluation_code (resolve_and_authorize sha256_hex m EvaluationGet)) (\<lambda>tenant.
     st_then (st_of (map_err evaluation_code (validate_get_input input))) (\<lambda>_.
     st_then (st_map_err evaluation_code (em_get m tenant (get_key tenant input))) (\<lambda>found.
       st_of (case found of None \<Rightarrow> Inl ''not_found'' | Some r \<Rightarrow> result_json print r)))))"

datatype evaluation_tool = ValidateTool definition_input | EvaluateRunTool evaluate_run_input | GetResultTool get_result_input

fun evaluation_tool_call :: "(json \<Rightarrow> (string, string) result) \<Rightarrow> (json \<Rightarrow> string) \<Rightarrow> (string \<Rightarrow> string) \<Rightarrow> 'w evaluation_mcp
    \<Rightarrow> evaluation_tool \<Rightarrow> (string, string, 'w) st" where
  "evaluation_tool_call print display sha256_hex m (ValidateTool input) =
     st_match (validate_json print sha256_hex m input) (\<lambda>r. st_of (Inr (evaluation_tool_response display r)))"
| "evaluation_tool_call print display sha256_hex m (EvaluateRunTool input) =
     st_match (evaluate_json print sha256_hex m input) (\<lambda>r. st_of (Inr (evaluation_tool_response display r)))"
| "evaluation_tool_call print display sha256_hex m (GetResultTool input) =
     st_match (get_json print sha256_hex m input) (\<lambda>r. st_of (Inr (evaluation_tool_response display r)))"

section \<open>The gate\<close>

datatype evaluation_call =
    EvaluateCall string string evaluation_definition_v1
  | GetCall string logical_evaluation_key

definition logged_evaluation :: "'w evaluation_mcp \<Rightarrow> ('w \<times> evaluation_call access_event list) evaluation_mcp" where
  "logged_evaluation m = \<lparr>
     em_evaluate_and_store = (\<lambda>t r d. performing (\<lambda>(t, r, d). EvaluateCall t r d) (\<lambda>(t, r, d). em_evaluate_and_store m t r d) (t, r, d)),
     em_get = (\<lambda>t k. performing (\<lambda>(t, k). GetCall t k) (\<lambda>(t, k). em_get m t k) (t, k)), em_host = logged_host (em_host m)\<rparr>"

fun evaluation_capability_of :: "evaluation_tool \<Rightarrow> capability_v1" where
  "evaluation_capability_of (ValidateTool _) = EvaluationValidate"
| "evaluation_capability_of (EvaluateRunTool _) = EvaluationEvaluate"
| "evaluation_capability_of (GetResultTool _) = EvaluationGet"

text \<open>An evaluation or a lookup is asked for the trusted tenant, and with validated input.\<close>

fun evaluation_carries :: "evaluation_tool \<Rightarrow> trusted_context_v1 \<Rightarrow> grant_v1 \<Rightarrow> string \<Rightarrow> evaluation_call \<Rightarrow> bool" where
  "evaluation_carries (ValidateTool _) trusted grant digest call \<longleftrightarrow> False"
| "evaluation_carries (EvaluateRunTool i) trusted grant digest call \<longleftrightarrow>
     validate_definition (definition_into_core (ei_definition i)) = Inr ()
     \<and> call = EvaluateCall (tc_tenant_id trusted) (ei_run_id i) (definition_into_core (ei_definition i))"
| "evaluation_carries (GetResultTool i) trusted grant digest call \<longleftrightarrow>
     validate_get_input i = Inr () \<and> call = GetCall (tc_tenant_id trusted) (get_key (tc_tenant_id trusted) i)"

lemma authorizes_evaluation:
  "authorizes sha256_hex (em_host m) c (resolve_and_authorize sha256_hex (logged_evaluation m) c)
     (\<lambda>trusted g d tenant. tenant = tc_tenant_id trusted)"
proof -
  have host: "em_host (logged_evaluation m) = logged_host (em_host m)" by (simp add: logged_evaluation_def)
  show ?thesis unfolding resolve_and_authorize_def host split_beta by (rule authorizes_gate) auto
qed

lemma logged_evaluation_ports:
  "em_evaluate_and_store (logged_evaluation m) t r d =
     performing (\<lambda>(t, r, d). EvaluateCall t r d) (\<lambda>(t, r, d). em_evaluate_and_store m t r d) (t, r, d)"
  "em_get (logged_evaluation m) t k = performing (\<lambda>(t, k). GetCall t k) (\<lambda>(t, k). em_get m t k) (t, k)"
  by (simp_all add: logged_evaluation_def)

lemma runs_evaluation_tools:
  "runs (evaluation_tool_call print display sha256_hex (logged_evaluation m) tool) []
     (\<lambda>r s. gated sha256_hex (em_host m) (evaluation_capability_of tool) (evaluation_carries tool) s)"
proof (cases tool)
  case (ValidateTool i)
  have "runs (validate_json print sha256_hex (logged_evaluation m) i) []
      (\<lambda>r s. gated sha256_hex (em_host m) EvaluationValidate (evaluation_carries tool) s)"
    unfolding validate_json_def
    by (intro runs_of_then gated_idle idle_simps runs_authorized [OF authorizes_evaluation]) (auto intro!: runs_of gated_idle)
  then show ?thesis by (simp add: ValidateTool runs_reply)
next
  case (EvaluateRunTool i)
  have "runs (evaluate_json print sha256_hex (logged_evaluation m) i) []
      (\<lambda>r s. gated sha256_hex (em_host m) EvaluationEvaluate (evaluation_carries tool) s)"
    unfolding evaluate_json_def logged_evaluation_ports Let_def
    by (intro runs_of_then gated_idle idle_simps runs_authorized [OF authorizes_evaluation] runs_perform_last)
      (auto simp: EvaluateRunTool map_err_Inr)
  then show ?thesis by (simp add: EvaluateRunTool runs_reply)
next
  case (GetResultTool i)
  have "runs (get_json print sha256_hex (logged_evaluation m) i) []
      (\<lambda>r s. gated sha256_hex (em_host m) EvaluationGet (evaluation_carries tool) s)"
    unfolding get_json_def logged_evaluation_ports
    by (intro runs_of_then gated_idle idle_simps runs_authorized [OF authorizes_evaluation] runs_perform_last)
      (auto simp: GetResultTool map_err_Inr)
  then show ?thesis by (simp add: GetResultTool runs_reply)
qed

interpretation evaluation_surface: tool_surface sha256_hex "em_host m"
    "evaluation_tool_call print display sha256_hex (logged_evaluation m)"
    "\<lambda>tool. Some (evaluation_capability_of tool)" evaluation_carries for sha256_hex m print display
  by unfold_locales (auto intro: runs_log [OF runs_evaluation_tools])

end
