(* ===== verification/Agent_Mcp.thy ===== *)
theory Agent_Mcp
  imports Mcp_Access Agent_Runtime_Properties
begin

text \<open>
  The tool surface of the agent crate (\<open>agent/src/mcp.rs\<close>): definitions are validated, read, listed
  and registered, and agents invoked, behind the gate; the grant of the decision becomes the
  ceiling of the invocation.
\<close>

definition MAX_MCP_SERIALIZED_RESULT_BYTES :: nat where "MAX_MCP_SERIALIZED_RESULT_BYTES = 65536"

definition AGENT_DEFINITION_TOOLS :: "string list" where
  "AGENT_DEFINITION_TOOLS = [''agent_definition_validate'', ''agent_definition_get'', ''agent_definition_list'',
     ''agent_definition_register'', ''agent_runtime_invoke'']"

section \<open>Inputs\<close>

record agent_definition_input =
  adi_id :: string
  adi_name :: string
  adi_description :: string
  adi_model_reference :: string
  adi_instructions :: string
  adi_skills :: "string list"
  adi_steering :: "string list"
  adi_allowed_tool_ids :: "string list"
  adi_memory_enabled :: bool
  adi_memory_max_items :: u32
  adi_knowledge_enabled :: bool
  adi_knowledge_namespace :: string
  adi_knowledge_max_results :: u32
  adi_sandbox_allow_execution :: bool
  adi_communication_allow_messages :: bool
  adi_max_tool_calls :: u32
  adi_max_output_bytes :: u32

record invoke_input =
  ii_id :: string
  ii_input :: string

definition agent_into_core :: "agent_definition_input \<Rightarrow> (agent_definition_v1, definition_error) result" where
  "agent_into_core i =
     and_then (agent_id_new (adi_id i)) (\<lambda>agent.
     let d = \<lparr>ad_id = agent, ad_name = adi_name i, ad_description = adi_description i,
           ad_model_reference = adi_model_reference i, ad_instructions = adi_instructions i, ad_skills = adi_skills i,
           ad_steering = adi_steering i, ad_allowed_tool_ids = adi_allowed_tool_ids i,
           ad_memory = \<lparr>mp_enabled = adi_memory_enabled i, mp_max_items = adi_memory_max_items i\<rparr>,
           ad_knowledge = \<lparr>kp_enabled = adi_knowledge_enabled i, kp_namespace = adi_knowledge_namespace i,
             kp_max_results = adi_knowledge_max_results i\<rparr>,
           ad_allow_execution = adi_sandbox_allow_execution i, ad_allow_messages = adi_communication_allow_messages i,
           ad_limits = \<lparr>el_max_tool_calls = adi_max_tool_calls i, el_max_output_bytes = adi_max_output_bytes i\<rparr>\<rparr> in
     and_then (validate_definition d) (\<lambda>_. Inr d))"

definition invocation_context :: "trusted_context_v1 \<Rightarrow> (invocation_context_v1, definition_error) result" where
  "invocation_context trusted =
     and_then (invocation_id_new (tc_tenant_id trusted)) (\<lambda>tenant.
     and_then (invocation_id_new (tc_principal_id trusted)) (\<lambda>prin.
     and_then (invocation_id_new (tc_request_id trusted)) (\<lambda>request.
     and_then (invocation_id_new (tc_correlation_id trusted)) (\<lambda>correlation.
       Inr \<lparr>ic_tenant_id = tenant, ic_principal_id = prin, ic_request_id = request, ic_correlation_id = correlation\<rparr>))))"

text \<open>The ceiling both surfaces that start agents take from a grant.\<close>

definition ceiling_of_grant :: "grant_v1 \<Rightarrow> effective_capability_ceiling_v1" where
  "ceiling_of_grant g = \<lparr>cc_allowed_tool_ids = allowed_tool_ids g, cc_memory_enabled = memory_enabled g,
     cc_knowledge_enabled = knowledge_enabled g, cc_sandbox_execution_allowed = sandbox_execution_allowed g,
     cc_communication_allowed = communication_allowed g\<rparr>"

section \<open>Errors and replies\<close>

fun agent_code :: "public_error_code \<Rightarrow> string" where
  "agent_code PubInvalidRequest = ''invalid_request''"
| "agent_code PubInvalidDefinition = ''invalid_definition''"
| "agent_code PubInvalidReference = ''invalid_reference''"
| "agent_code PubReferenceUnavailable = ''reference_unavailable''"
| "agent_code PubNotFound = ''not_found''"
| "agent_code PubBuiltinProtected = ''builtin_protected''"
| "agent_code PubUnknownTool = ''unknown_tool''"
| "agent_code PubToolDisallowed = ''tool_disallowed''"
| "agent_code PubMemoryDenied = ''memory_denied''"
| "agent_code PubKnowledgeDenied = ''knowledge_denied''"
| "agent_code PubSandboxDenied = ''sandbox_denied''"
| "agent_code PubAdapterFailure = ''adapter_failure''"
| "agent_code PubLimitExceeded = ''limit_exceeded''"
| "agent_code PubCancelled = ''cancelled''"
| "agent_code PubDeadlineExceeded = ''deadline_exceeded''"

definition domain_error :: "definition_error \<Rightarrow> string" where
  "domain_error e = agent_code (public_code e)"

text \<open>\<open>Display\<close> of an error shows the public code in its \<open>Debug\<close> form.\<close>

fun public_code_debug :: "public_error_code \<Rightarrow> string" where
  "public_code_debug PubInvalidRequest = ''InvalidRequest''"
| "public_code_debug PubInvalidDefinition = ''InvalidDefinition''"
| "public_code_debug PubInvalidReference = ''InvalidReference''"
| "public_code_debug PubReferenceUnavailable = ''ReferenceUnavailable''"
| "public_code_debug PubNotFound = ''NotFound''"
| "public_code_debug PubBuiltinProtected = ''BuiltinProtected''"
| "public_code_debug PubUnknownTool = ''UnknownTool''"
| "public_code_debug PubToolDisallowed = ''ToolDisallowed''"
| "public_code_debug PubMemoryDenied = ''MemoryDenied''"
| "public_code_debug PubKnowledgeDenied = ''KnowledgeDenied''"
| "public_code_debug PubSandboxDenied = ''SandboxDenied''"
| "public_code_debug PubAdapterFailure = ''AdapterFailure''"
| "public_code_debug PubLimitExceeded = ''LimitExceeded''"
| "public_code_debug PubCancelled = ''Cancelled''"
| "public_code_debug PubDeadlineExceeded = ''DeadlineExceeded''"

definition definition_error_display :: "definition_error \<Rightarrow> string" where
  "definition_error_display e = ''agent definition operation failed: '' @ public_code_debug (public_code e)"

definition policy_error :: "gate_failure \<Rightarrow> string" where
  "policy_error e = (if e = Refused then ''not_found'' else ''operation_failed'')"

definition agent_public_codes :: "string list" where
  "agent_public_codes = [''invalid_request'', ''invalid_definition'', ''invalid_reference'', ''reference_unavailable'',
     ''not_found'', ''builtin_protected'', ''unknown_tool'', ''tool_disallowed'', ''memory_denied'', ''knowledge_denied'',
     ''sandbox_denied'', ''adapter_failure'', ''limit_exceeded'', ''cancelled'', ''deadline_exceeded'', ''operation_failed'']"

definition is_public_code :: "string \<Rightarrow> bool" where
  "is_public_code code \<longleftrightarrow> code \<in> set agent_public_codes"

definition agent_tool_response :: "(json \<Rightarrow> string) \<Rightarrow> (string, string) result \<Rightarrow> string" where
  "agent_tool_response display = error_reply display agent_public_codes ''operation_failed''"

definition agent_serialize :: "(json \<Rightarrow> (string, string) result) \<Rightarrow> json \<Rightarrow> (string, string) result" where
  "agent_serialize print v =
     and_then (map_err (\<lambda>_. ''could not serialize MCP response'') (print v)) (\<lambda>text.
       if length text \<le> MAX_MCP_SERIALIZED_RESULT_BYTES then Inr text else Inl ''limit_exceeded'')"

definition json_u32 :: "u32 \<Rightarrow> json" where
  "json_u32 n = JNumber (word_to_string n)"

definition definition_json :: "(json \<Rightarrow> (string, string) result) \<Rightarrow> agent_definition_v1 \<Rightarrow> (string, string) result" where
  "definition_json print d = agent_serialize print (json_object [(''version'', JString ''v1''), (''id'', JString (ad_id d)),
     (''name'', JString (ad_name d)), (''description'', JString (ad_description d)),
     (''model_reference'', JString (ad_model_reference d)), (''instructions'', JString (ad_instructions d)),
     (''skills'', json_strings (ad_skills d)), (''steering'', json_strings (ad_steering d)),
     (''allowed_tool_ids'', json_strings (ad_allowed_tool_ids d)),
     (''memory'', json_object [(''enabled'', JBool (mp_enabled (ad_memory d))), (''max_items'', json_u32 (mp_max_items (ad_memory d)))]),
     (''knowledge'', json_object [(''enabled'', JBool (kp_enabled (ad_knowledge d))),
        (''namespace'', JString (kp_namespace (ad_knowledge d))), (''max_results'', json_u32 (kp_max_results (ad_knowledge d)))]),
     (''sandbox'', json_object [(''allow_execution'', JBool (ad_allow_execution d))]),
     (''communication'', json_object [(''allow_messages'', JBool (ad_allow_messages d))]),
     (''limits'', json_object [(''max_tool_calls'', json_u32 (el_max_tool_calls (ad_limits d))),
        (''max_output_bytes'', json_u32 (el_max_output_bytes (ad_limits d)))])])"

fun event_json :: "invocation_event \<Rightarrow> json" where
  "event_json ModelInvoked = json_object [(''type'', JString ''model_invoked'')]"
| "event_json (MemoryRecalled items) = json_object [(''type'', JString ''memory_recalled''), (''values'', json_strings items)]"
| "event_json MemoryWritten = json_object [(''type'', JString ''memory_written'')]"
| "event_json (KnowledgeSearched results) = json_object [(''type'', JString ''knowledge_searched''),
     (''results'', JArray (map (\<lambda>r. json_object [(''document_id'', JString (kr_document_id r)), (''text'', JString (kr_text r))]) results))]"
| "event_json (SandboxCompleted output) = json_object [(''type'', JString ''sandbox_completed''), (''output'', JString output)]"
| "event_json (ToolCompleted tool_id output) = json_object [(''type'', JString ''tool_completed''),
     (''tool_id'', JString tool_id), (''output'', JString output)]"

fun finish_reason_name :: "invocation_model_finish_reason \<Rightarrow> string" where
  "finish_reason_name MStop = ''stop''"
| "finish_reason_name MLength = ''length''"
| "finish_reason_name MToolCalls = ''tool_calls''"
| "finish_reason_name MContentFilter = ''content_filter''"
| "finish_reason_name MOther = ''other''"

fun idempotency_name :: "invocation_model_idempotency \<Rightarrow> string" where
  "idempotency_name MUnsupported = ''unsupported''"
| "idempotency_name MAccepted = ''accepted''"

definition evidence_json :: "invocation_model_evidence \<Rightarrow> json" where
  "evidence_json e = json_object [(''provider_id'', JString (me_provider_id e)), (''model_id'', JString (me_model_id e)),
     (''provider_request_id'', json_option JString (me_provider_request_id e)),
     (''finish_reason'', JString (finish_reason_name (me_finish_reason e))),
     (''token_usage'', json_option (\<lambda>u. json_object [(''input_tokens'', json_u32 (mt_input_tokens u)),
        (''output_tokens'', json_u32 (mt_output_tokens u)), (''total_tokens'', json_u32 (mt_total_tokens u))]) (me_token_usage e)),
     (''idempotency'', JString (idempotency_name (me_idempotency e)))]"

definition invocation_json :: "(json \<Rightarrow> (string, string) result) \<Rightarrow> invocation_result \<Rightarrow> (string, string) result" where
  "invocation_json print r = agent_serialize print (json_object [(''capability_scope_digest'', JString (ir_capability_scope_digest r)),
     (''events'', JArray (map event_json (ir_events r))), (''output'', JString (ir_output r)),
     (''model_evidence'', evidence_json (ir_model_evidence r))])"

section \<open>The tools\<close>

record 'w agent_mcp =
  am_validate :: "agent_definition_v1 \<Rightarrow> (unit, definition_error, 'w) st"
  am_get :: "string \<Rightarrow> (agent_definition_v1, definition_error, 'w) st"
  am_list :: "(agent_summary list, definition_error, 'w) st"
  am_register :: "agent_definition_v1 \<Rightarrow> (unit, definition_error, 'w) st"
  am_create_control :: "(unit, definition_error, 'w) st"
  am_invoke :: "invocation_context_v1 \<Rightarrow> string \<Rightarrow> string \<Rightarrow> effective_capability_ceiling_v1
    \<Rightarrow> (invocation_result, definition_error, 'w) st"
  am_host :: "'w host"

text \<open>
  The surface over a registry and the local runtime: the world is the registry and the world of the
  runtime's ports, whose reading of the control is that of the bundle the control source created.
\<close>

definition beside :: "('a, 'e, 'w) st \<Rightarrow> ('a, 'e, 's \<times> 'w) st" where
  "beside m = (\<lambda>(s, w). case m w of (r, w') \<Rightarrow> (r, (s, w')))"

definition host_beside :: "'w host \<Rightarrow> ('s \<times> 'w) host" where
  "host_beside host = \<lparr>host_resolve = beside (host_resolve host),
     host_authorize = (\<lambda>request (s, w). case host_authorize host request w of (decision, w') \<Rightarrow> (decision, (s, w')))\<rparr>"

definition over_agent_runtime :: "(string \<Rightarrow> string) \<Rightarrow> json_parse \<Rightarrow> json_print \<Rightarrow> 'w agent_ports
    \<Rightarrow> (unit, definition_error, 'w) st \<Rightarrow> 'w host \<Rightarrow> (agent_registry \<times> 'w) agent_mcp" where
  "over_agent_runtime sha256_hex parse print ports create host = \<lparr>
     am_validate = (\<lambda>d (registry, w). (registry_validate (ar_catalog registry) d, (registry, w))),
     am_get = (\<lambda>agent (registry, w). (registry_get registry agent, (registry, w))),
     am_list = (\<lambda>(registry, w). (registry_list registry, (registry, w))),
     am_register = (\<lambda>d (registry, w). case registry_register registry d of (r, registry') \<Rightarrow> (r, (registry', w))),
     am_create_control = beside create,
     am_invoke = (\<lambda>context agent input ceiling (registry, w).
       case invoke_with_ceiling sha256_hex parse print ports registry context agent input ceiling w of (r, w') \<Rightarrow> (r, (registry, w'))),
     am_host = host_beside host\<rparr>"

definition agent_authorize :: "(string \<Rightarrow> string) \<Rightarrow> 'w agent_mcp \<Rightarrow> capability_v1
    \<Rightarrow> (trusted_context_v1 \<times> grant_v1, gate_failure, 'w) st" where
  "agent_authorize sha256_hex m capability =
     st_then (st_map_err (\<lambda>e. e) (pass_gate sha256_hex (am_host m) capability)) (\<lambda>(trusted, grant, digest).
       st_of (Inr (trusted, grant)))"

definition agent_validate_json :: "(json \<Rightarrow> (string, string) result) \<Rightarrow> (string \<Rightarrow> string) \<Rightarrow> 'w agent_mcp
    \<Rightarrow> agent_definition_input \<Rightarrow> (string, string, 'w) st" where
  "agent_validate_json print sha256_hex m input =
     st_match
       (st_then (st_of (map_err domain_error (agent_into_core input))) (\<lambda>d.
        st_then (st_map_err policy_error (agent_authorize sha256_hex m AgentDefinitionValidate)) (\<lambda>_.
          st_map_err domain_error (am_validate m d))))
       (\<lambda>r. st_of (agent_serialize print (case r of
           Inr _ \<Rightarrow> json_object [(''valid'', JBool True), (''findings'', JArray [])]
         | Inl code \<Rightarrow> json_object [(''valid'', JBool False),
             (''error'', JString (if is_public_code code then code else ''operation_failed''))])))"

text \<open>The error of an invalid identifier reaches the reply in its \<open>Display\<close> form.\<close>

definition agent_get_json :: "(json \<Rightarrow> (string, string) result) \<Rightarrow> (string \<Rightarrow> string) \<Rightarrow> 'w agent_mcp \<Rightarrow> string
    \<Rightarrow> (string, string, 'w) st" where
  "agent_get_json print sha256_hex m i =
     st_then (st_of (map_err definition_error_display (map_err (\<lambda>_. InvalidDefinition) (agent_id_new i)))) (\<lambda>agent.
     st_then (st_map_err policy_error (agent_authorize sha256_hex m AgentDefinitionGet)) (\<lambda>_.
     st_then (st_map_err domain_error (am_get m agent)) (\<lambda>d. st_of (definition_json print d))))"

definition agent_list_json :: "(json \<Rightarrow> (string, string) result) \<Rightarrow> (string \<Rightarrow> string) \<Rightarrow> 'w agent_mcp \<Rightarrow> (string, string, 'w) st" where
  "agent_list_json print sha256_hex m =
     st_then (st_map_err policy_error (agent_authorize sha256_hex m AgentDefinitionList)) (\<lambda>_.
     st_then (st_map_err domain_error (am_list m)) (\<lambda>summaries.
       st_of (agent_serialize print (json_object [(''agents'', JArray (map (\<lambda>s. json_object [(''id'', JString (as_id s)),
         (''name'', JString (as_name s)), (''description'', JString (as_description s))]) summaries))]))))"

definition agent_register_json :: "(json \<Rightarrow> (string, string) result) \<Rightarrow> (string \<Rightarrow> string) \<Rightarrow> 'w agent_mcp
    \<Rightarrow> agent_definition_input \<Rightarrow> (string, string, 'w) st" where
  "agent_register_json print sha256_hex m input =
     st_then (st_of (map_err domain_error (agent_into_core input))) (\<lambda>d.
     st_then (st_map_err policy_error (agent_authorize sha256_hex m AgentDefinitionRegister)) (\<lambda>_.
     st_then (st_map_err domain_error (am_register m d)) (\<lambda>_.
       st_of (agent_serialize print (json_object [(''id'', JString (ad_id d)), (''registered'', JBool True)])))))"

text \<open>\<open>invoke_json\<close> from the authorization on, and in full.\<close>

definition agent_invoke_granted :: "(json \<Rightarrow> (string, string) result) \<Rightarrow> 'w agent_mcp \<Rightarrow> string \<Rightarrow> string
    \<Rightarrow> trusted_context_v1 \<Rightarrow> grant_v1 \<Rightarrow> (string, string, 'w) st" where
  "agent_invoke_granted print m agent input trusted grant =
     st_then (st_of (map_err domain_error (invocation_context trusted))) (\<lambda>context.
     st_then (st_map_err domain_error (am_create_control m)) (\<lambda>_.
     st_then (st_map_err domain_error (am_invoke m context agent input (ceiling_of_grant grant))) (\<lambda>r.
       st_of (invocation_json print r))))"

definition agent_invoke_json :: "(json \<Rightarrow> (string, string) result) \<Rightarrow> (string \<Rightarrow> string) \<Rightarrow> 'w agent_mcp \<Rightarrow> invoke_input
    \<Rightarrow> (string, string, 'w) st" where
  "agent_invoke_json print sha256_hex m input =
     st_then (st_of (map_err (\<lambda>_. ''invalid_definition'') (agent_id_new (ii_id input)))) (\<lambda>agent.
     if length (ii_input input) > MAX_INPUT_BYTES then st_of (Inl ''limit_exceeded'')
     else
     st_then (st_map_err policy_error (agent_authorize sha256_hex m AgentInvoke)) (\<lambda>(trusted, grant).
       agent_invoke_granted print m agent (ii_input input) trusted grant))"

datatype agent_tool =
    AgentValidateTool agent_definition_input | AgentGetTool string | AgentListTool
  | AgentRegisterTool agent_definition_input | AgentInvokeTool invoke_input

fun agent_tool_json :: "(json \<Rightarrow> (string, string) result) \<Rightarrow> (string \<Rightarrow> string) \<Rightarrow> 'w agent_mcp \<Rightarrow> agent_tool
    \<Rightarrow> (string, string, 'w) st" where
  "agent_tool_json print sha256_hex m (AgentValidateTool i) = agent_validate_json print sha256_hex m i"
| "agent_tool_json print sha256_hex m (AgentGetTool i) = agent_get_json print sha256_hex m i"
| "agent_tool_json print sha256_hex m AgentListTool = agent_list_json print sha256_hex m"
| "agent_tool_json print sha256_hex m (AgentRegisterTool i) = agent_register_json print sha256_hex m i"
| "agent_tool_json print sha256_hex m (AgentInvokeTool i) = agent_invoke_json print sha256_hex m i"

definition agent_tool_call :: "(json \<Rightarrow> (string, string) result) \<Rightarrow> (json \<Rightarrow> string) \<Rightarrow> (string \<Rightarrow> string) \<Rightarrow> 'w agent_mcp
    \<Rightarrow> agent_tool \<Rightarrow> (string, string, 'w) st" where
  "agent_tool_call print display sha256_hex m tool =
     st_match (agent_tool_json print sha256_hex m tool) (\<lambda>r. st_of (Inr (agent_tool_response display r)))"

section \<open>The gate\<close>

datatype agent_call =
    ValidateCall agent_definition_v1 | GetCall string | ListCall | RegisterCall agent_definition_v1
  | InvokeCall invocation_context_v1 string string effective_capability_ceiling_v1

definition logged_agent :: "'w agent_mcp \<Rightarrow> ('w \<times> agent_call access_event list) agent_mcp" where
  "logged_agent m = \<lparr>am_validate = performing ValidateCall (am_validate m), am_get = performing GetCall (am_get m),
     am_list = performing (\<lambda>_. ListCall) (\<lambda>_. am_list m) (), am_register = performing RegisterCall (am_register m),
     am_create_control = silently (am_create_control m),
     am_invoke = (\<lambda>c a i l. performing (\<lambda>(c, a, i, l). InvokeCall c a i l) (\<lambda>(c, a, i, l). am_invoke m c a i l) (c, a, i, l)),
     am_host = logged_host (am_host m)\<rparr>"

fun agent_capability_of :: "agent_tool \<Rightarrow> capability_v1" where
  "agent_capability_of (AgentValidateTool _) = AgentDefinitionValidate"
| "agent_capability_of (AgentGetTool _) = AgentDefinitionGet"
| "agent_capability_of AgentListTool = AgentDefinitionList"
| "agent_capability_of (AgentRegisterTool _) = AgentDefinitionRegister"
| "agent_capability_of (AgentInvokeTool _) = AgentInvoke"

fun agent_carries :: "agent_tool \<Rightarrow> trusted_context_v1 \<Rightarrow> grant_v1 \<Rightarrow> string \<Rightarrow> agent_call \<Rightarrow> bool" where
  "agent_carries (AgentValidateTool i) trusted grant digest call \<longleftrightarrow> (\<exists>d. agent_into_core i = Inr d \<and> call = ValidateCall d)"
| "agent_carries (AgentGetTool i) trusted grant digest call \<longleftrightarrow> agent_id_new i = Inr i \<and> call = GetCall i"
| "agent_carries AgentListTool trusted grant digest call \<longleftrightarrow> call = ListCall"
| "agent_carries (AgentRegisterTool i) trusted grant digest call \<longleftrightarrow> (\<exists>d. agent_into_core i = Inr d \<and> call = RegisterCall d)"
| "agent_carries (AgentInvokeTool i) trusted grant digest call \<longleftrightarrow> length (ii_input i) \<le> MAX_INPUT_BYTES
     \<and> (\<exists>context. invocation_context trusted = Inr context
          \<and> call = InvokeCall context (ii_id i) (ii_input i) (ceiling_of_grant grant))"

lemma agent_id_new_Inr: "agent_id_new i = Inr a \<Longrightarrow> a = i"
  by (simp add: agent_id_new_def split: if_splits)

lemma authorizes_agent:
  "authorizes sha256_hex (am_host m) c (agent_authorize sha256_hex (logged_agent m) c)
     (\<lambda>trusted g d a. a = (trusted, g))"
proof -
  have host: "am_host (logged_agent m) = logged_host (am_host m)" by (simp add: logged_agent_def)
  show ?thesis unfolding agent_authorize_def host split_beta by (rule authorizes_gate) auto
qed

lemma logged_agent_ports:
  "am_validate (logged_agent m) = performing ValidateCall (am_validate m)"
  "am_get (logged_agent m) = performing GetCall (am_get m)"
  "am_list (logged_agent m) = performing (\<lambda>_. ListCall) (\<lambda>_. am_list m) ()"
  "am_register (logged_agent m) = performing RegisterCall (am_register m)"
  "am_create_control (logged_agent m) = silently (am_create_control m)"
  "am_invoke (logged_agent m) c a i l
     = performing (\<lambda>(c, a, i, l). InvokeCall c a i l) (\<lambda>(c, a, i, l). am_invoke m c a i l) (c, a, i, l)"
  by (simp_all add: logged_agent_def)

lemma runs_agent_tools:
  "runs (agent_tool_json print sha256_hex (logged_agent m) tool) []
     (\<lambda>r s. gated sha256_hex (am_host m) (agent_capability_of tool) (agent_carries tool) s)"
proof (cases tool)
  case (AgentValidateTool i)
  have "runs (agent_validate_json print sha256_hex (logged_agent m) i) []
      (\<lambda>r s. gated sha256_hex (am_host m) AgentDefinitionValidate (agent_carries tool) s)"
    unfolding agent_validate_json_def logged_agent_ports
    by (intro runs_reply runs_of_then gated_idle idle_simps runs_authorized [OF authorizes_agent] runs_perform_end)
      (auto simp: AgentValidateTool map_err_Inr)
  then show ?thesis by (simp add: AgentValidateTool)
next
  case (AgentGetTool i)
  have "runs (agent_get_json print sha256_hex (logged_agent m) i) []
      (\<lambda>r s. gated sha256_hex (am_host m) AgentDefinitionGet (agent_carries tool) s)"
    unfolding agent_get_json_def logged_agent_ports
    by (intro runs_of_then gated_idle idle_simps runs_authorized [OF authorizes_agent] runs_perform_last)
      (auto simp: AgentGetTool map_err_Inr dest: agent_id_new_Inr)
  then show ?thesis by (simp add: AgentGetTool)
next
  case AgentListTool
  have "runs (agent_list_json print sha256_hex (logged_agent m)) []
      (\<lambda>r s. gated sha256_hex (am_host m) AgentDefinitionList (agent_carries tool) s)"
    unfolding agent_list_json_def logged_agent_ports
    by (intro runs_of_then gated_idle idle_simps runs_authorized [OF authorizes_agent] runs_perform_last)
      (auto simp: AgentListTool)
  then show ?thesis by (simp add: AgentListTool)
next
  case (AgentRegisterTool i)
  have "runs (agent_register_json print sha256_hex (logged_agent m) i) []
      (\<lambda>r s. gated sha256_hex (am_host m) AgentDefinitionRegister (agent_carries tool) s)"
    unfolding agent_register_json_def logged_agent_ports
    by (intro runs_of_then gated_idle idle_simps runs_authorized [OF authorizes_agent] runs_perform_last)
      (auto simp: AgentRegisterTool map_err_Inr)
  then show ?thesis by (simp add: AgentRegisterTool)
next
  case (AgentInvokeTool i)
  have ready: "runs (agent_invoke_granted print (logged_agent m) (ii_id i) (ii_input i) trusted g) t
      (\<lambda>r s. gated sha256_hex (am_host m) AgentInvoke (agent_carries tool) s)"
    if "passed sha256_hex (am_host m) AgentInvoke trusted g d t" "\<not> length (ii_input i) > MAX_INPUT_BYTES" for trusted g d t
    unfolding agent_invoke_granted_def logged_agent_ports
    by (intro runs_of_then gated_idle idle_passed [OF that(1)] runs_silently_then runs_perform_last [OF that(1)])
      (use that(2) in \<open>auto simp: AgentInvokeTool map_err_Inr\<close>)
  have "runs (agent_invoke_json print sha256_hex (logged_agent m) i) []
      (\<lambda>r s. gated sha256_hex (am_host m) AgentInvoke (agent_carries tool) s)"
    unfolding agent_invoke_json_def
    by (intro runs_of_then gated_idle idle_simps)
      (auto intro!: runs_of gated_idle runs_authorized [OF authorizes_agent] ready simp: map_err_Inr dest!: agent_id_new_Inr)
  then show ?thesis by (simp add: AgentInvokeTool)
qed

interpretation agent_surface: tool_surface sha256_hex "am_host m" "agent_tool_call print display sha256_hex (logged_agent m)"
    "\<lambda>tool. Some (agent_capability_of tool)" agent_carries for sha256_hex m print display
  by unfold_locales (auto simp: agent_tool_call_def intro: runs_log [OF runs_reply, OF runs_agent_tools])

end
