(* ===== verification/Agent_Mcp_Properties.thy ===== *)
theory Agent_Mcp_Properties
  imports Agent_Mcp
begin

text \<open>
  What the agent surface shows of the runtime behind it: the effects of an invocation are those the
  grant of a verified decision allows, and the replies to an identifier that is none.
\<close>

section \<open>From the grant to the effects\<close>

text \<open>Every grant the gate passes is a ceiling the runtime accepts.\<close>

lemma granted_ceiling_accepted:
  assumes "grant_ok g" "canonical_form g = g"
  shows "validate_effective_capability_ceiling (ceiling_of_grant g) = Inr ()"
proof -
  have "valid_reference = is_tool_id" by (simp add: fun_eq_iff valid_reference_def is_tool_id_def MAX_TOOL_ID_BYTES_def)
  moreover have "length (allowed_tool_ids g) \<le> 64"
    using assms by (metis canonical_form_sel grant_ok_def MAX_TOOL_IDS_def)
  ultimately show ?thesis
    using assms(1) by (simp add: validate_effective_capability_ceiling_def ceiling_of_grant_def MAX_CAPABILITY_REFERENCES_def
        grant_ok_def list_all_iff)
qed

lemma verified_grant_ok:
  assumes "verified_grant sha256_hex request decision = Inr (g, d)"
  shows "grant_ok g" "canonical_form g = g"
proof -
  from assms obtain g0 where "canonical_grant g0 = Inr g"
    by (cases decision) (auto simp: result_simps split: if_splits)
  from canonical_grant_ok [OF this] show "grant_ok g" "canonical_form g = g" by (auto simp: canonical_grant_Inr)
qed

lemma invocation_context_Inr:
  "invocation_context trusted = Inr context \<longleftrightarrow>
     invocation_id_new (tc_tenant_id trusted) = Inr (ic_tenant_id context)
     \<and> invocation_id_new (tc_principal_id trusted) = Inr (ic_principal_id context)
     \<and> invocation_id_new (tc_request_id trusted) = Inr (ic_request_id context)
     \<and> invocation_id_new (tc_correlation_id trusted) = Inr (ic_correlation_id context)"
  by (cases "context") (auto simp: invocation_context_def result_simps)

text \<open>The world of the surface over the runtime whose ports record their calls.\<close>

definition traced_agent :: "(string \<Rightarrow> string) \<Rightarrow> json_parse \<Rightarrow> json_print \<Rightarrow> 'w agent_ports \<Rightarrow> (unit, definition_error, 'w) st
    \<Rightarrow> 'w host \<Rightarrow> (agent_registry \<times> 'w trace_world) agent_mcp" where
  "traced_agent sha256_hex parse print ports create host =
     over_agent_runtime sha256_hex parse print (logged ports) (silently create) (silent_host host)"

lemma host_beside_gate:
  "pass_gate sha256_hex (host_beside host) c (s, w) = (case pass_gate sha256_hex host c w of (r, w') \<Rightarrow> (r, (s, w')))"
  by (auto simp: pass_gate_def host_beside_def st_then_def st_map_err_def beside_def Let_def split: prod.splits sum.splits)

text \<open>The authorization of a traced surface makes no port call.\<close>

lemma traced_authorize:
  assumes "agent_authorize sha256_hex (traced_agent sha256_hex parse print ports create host) c (registry, (w, log))
      = (r, (registry', (w', log')))"
  shows "registry' = registry \<and> log' = log \<and> (\<forall>trusted g. r = Inr (trusted, g) \<longrightarrow>
    (\<exists>d decision v. fst (host_resolve host w) = Inr trusted
       \<and> fst (host_authorize host \<lparr>ar_context = trusted, ar_capability = c\<rparr> v) = decision
       \<and> verified_grant sha256_hex \<lparr>ar_context = trusted, ar_capability = c\<rparr> decision = Inr (g, d)))"
proof -
  obtain p w1 log1 where gate: "pass_gate sha256_hex (silent_host host) c (w, log) = (p, (w1, log1))" by (metis prod.exhaust)
  have host: "am_host (traced_agent sha256_hex parse print ports create host) = host_beside (silent_host host)"
    by (simp add: traced_agent_def over_agent_runtime_def)
  show ?thesis
  proof (cases p)
    case (Inl e)
    with gate assms silent_gate_failed [OF gate [unfolded Inl]] show ?thesis
      by (auto simp: agent_authorize_def host host_beside_gate st_then_def st_map_err_def)
  next
    case (Inr x)
    obtain trusted g d where x: "x = (trusted, g, d)" by (metis prod.exhaust)
    from gate assms pass_silent_gate [OF gate [unfolded Inr x]] Inr x show ?thesis
      by (fastforce simp: agent_authorize_def host host_beside_gate st_then_def st_map_err_def st_of_def)
  qed
qed

text \<open>Computations of the traced surface that call no port, and the first step of a chain that does.\<close>

definition keeps :: "('a, 'e, agent_registry \<times> 'w trace_world) st \<Rightarrow> bool" where
  "keeps m \<longleftrightarrow> (\<forall>registry w log. snd (snd (snd (m (registry, (w, log))))) = log)"

named_theorems keeps_intros

lemma keepsD: "keeps m \<Longrightarrow> m (registry, (w, log)) = (r, (registry', (w', log'))) \<Longrightarrow> log' = log"
  unfolding keeps_def by (metis snd_conv)

lemma keeps_of [keeps_intros]: "keeps (st_of r)"
  by (simp add: keeps_def st_of_def)

lemma keeps_match [keeps_intros]: "keeps m \<Longrightarrow> (\<And>r. keeps (f r)) \<Longrightarrow> keeps (st_match m f)"
  by (auto simp: keeps_def [of "st_match m f"] st_match_def split: prod.split dest!: keepsD) (metis keeps_def)

lemma keeps_map_err [keeps_intros]: "keeps m \<Longrightarrow> keeps (st_map_err f m)"
  unfolding st_map_err_match by (intro keeps_match keeps_of)

lemma keeps_then [keeps_intros]: "keeps m \<Longrightarrow> (\<And>a. keeps (f a)) \<Longrightarrow> keeps (st_then m f)"
  unfolding st_then_match by (rule keeps_match) (auto intro: keeps_of split: sum.split)

lemma keeps_authorize [keeps_intros]:
  "keeps (agent_authorize sha256_hex (traced_agent sha256_hex parse print ports create host) c)"
  unfolding keeps_def using traced_authorize by (metis prod.collapse)

lemma keeps_ports [keeps_intros]:
  "keeps (am_validate (traced_agent sha256_hex parse print ports create host) d)"
  "keeps (am_get (traced_agent sha256_hex parse print ports create host) agent)"
  "keeps (am_list (traced_agent sha256_hex parse print ports create host))"
  "keeps (am_register (traced_agent sha256_hex parse print ports create host) d)"
  "keeps (am_create_control (traced_agent sha256_hex parse print ports create host))"
  by (auto simp: keeps_def traced_agent_def over_agent_runtime_def beside_def silently_def split: prod.split)

lemma keeps_tools:
  assumes "\<forall>i. tool \<noteq> AgentInvokeTool i"
  shows "keeps (agent_tool_json print sha256_hex (traced_agent sha256_hex parse jprint ports create host) tool)"
  using assms
  by (cases tool) (auto simp: agent_validate_json_def agent_get_json_def agent_list_json_def agent_register_json_def
      intro!: keeps_intros)

lemma then_after_keeps:
  assumes "st_then m k (registry, (w, log)) = (r, (registry', (w', log')))" "keeps m" "log' \<noteq> log"
  obtains a registry1 w1 where "m (registry, (w, log)) = (Inr a, (registry1, (w1, log)))"
    "k a (registry1, (w1, log)) = (r, (registry', (w', log')))"
proof -
  obtain r1 registry1 w1 log1 where m: "m (registry, (w, log)) = (r1, (registry1, (w1, log1)))" by (metis prod.exhaust)
  with keepsD [OF assms(2) m] assms(1,3) that show thesis by (cases r1) (auto simp: st_then_def)
qed

lemma map_err_result: "st_map_err f m w = (Inr a, w') \<Longrightarrow> m w = (Inr a, w')"
  by (auto simp: st_map_err_def map_err_Inr split: prod.splits)

lemma of_result: "st_of (map_err f x) w = (Inr a, w') \<Longrightarrow> x = Inr a \<and> w' = w"
  by (auto simp: st_of_def map_err_Inr)

text \<open>An invocation that reaches a port reaches it from the runtime, under the granted ceiling.\<close>

lemma traced_invoke_last:
  assumes "st_then (st_map_err f (am_invoke (traced_agent sha256_hex parse jprint ports create host) c agent input l)) (\<lambda>r. st_of (k r))
      (registry, (w, [])) = (r, (registry', (w', log)))"
  shows "\<exists>r1. invoke_with_ceiling sha256_hex parse jprint (logged ports) registry c agent input l (w, []) = (r1, (w', log))"
proof -
  obtain r1 w1 log1 where "invoke_with_ceiling sha256_hex parse jprint (logged ports) registry c agent input l (w, []) = (r1, (w1, log1))"
    by (metis prod.exhaust)
  with assms show ?thesis
    by (cases r1) (auto simp: traced_agent_def over_agent_runtime_def st_then_def st_map_err_def st_of_def)
qed

lemma traced_create:
  "am_create_control (traced_agent sha256_hex parse jprint ports create host) (registry, w) = (r, (registry', w')) \<Longrightarrow> registry' = registry"
  by (auto simp: traced_agent_def over_agent_runtime_def beside_def split: prod.splits)

lemma traced_granted:
  assumes "agent_invoke_granted print (traced_agent sha256_hex parse jprint ports create host) agent input trusted g (registry, (w, []))
      = (r, (registry', (w', log)))" "log \<noteq> []"
  shows "\<exists>c w1 r1. invocation_context trusted = Inr c
    \<and> invoke_with_ceiling sha256_hex parse jprint (logged ports) registry c agent input (ceiling_of_grant g) (w1, []) = (r1, (w', log))"
proof -
  let ?m = "traced_agent sha256_hex parse jprint ports create host"
  let ?last = "\<lambda>c. st_then (st_map_err domain_error (am_invoke ?m c agent input (ceiling_of_grant g))) (\<lambda>r. st_of (invocation_json print r))"
  obtain c registry1 w1 where "st_of (map_err domain_error (invocation_context trusted)) (registry, (w, [] :: port_call list))
      = (Inr c, (registry1, (w1, [])))"
    and created: "st_then (st_map_err domain_error (am_create_control ?m)) (\<lambda>_. ?last c) (registry1, (w1, [])) = (r, (registry', (w', log)))"
    by (rule then_after_keeps [OF assms(1) [unfolded agent_invoke_granted_def] keeps_of assms(2)]) (rule that)
  then have c: "invocation_context trusted = Inr c" "registry1 = registry" by (auto dest: of_result)
  obtain u registry2 w2 where made: "st_map_err domain_error (am_create_control ?m) (registry1, (w1, [])) = (Inr u, (registry2, (w2, [])))"
    and called: "?last c (registry2, (w2, [])) = (r, (registry', (w', log)))"
    by (rule then_after_keeps [OF created keeps_map_err [OF keeps_ports(5)] assms(2)]) (rule that)
  show ?thesis
    using c traced_create [OF map_err_result [OF made]] traced_invoke_last [OF called] by auto
qed

lemma traced_invocation:
  assumes "agent_invoke_json print sha256_hex (traced_agent sha256_hex parse jprint ports create host) i (registry, (w, []))
      = (r, (registry', (w', log)))" "log \<noteq> []"
  shows "\<exists>trusted g d v c w1 r1. fst (host_resolve host w) = Inr trusted
    \<and> verified_grant sha256_hex \<lparr>ar_context = trusted, ar_capability = AgentInvoke\<rparr>
        (fst (host_authorize host \<lparr>ar_context = trusted, ar_capability = AgentInvoke\<rparr> v)) = Inr (g, d)
    \<and> invocation_context trusted = Inr c
    \<and> invoke_with_ceiling sha256_hex parse jprint (logged ports) registry c (ii_id i) (ii_input i) (ceiling_of_grant g) (w1, [])
       = (r1, (w', log))"
proof -
  let ?m = "traced_agent sha256_hex parse jprint ports create host"
  from assms(1) obtain agent where agent: "agent_id_new (ii_id i) = Inr agent"
    and "(if length (ii_input i) > MAX_INPUT_BYTES then st_of (Inl ''limit_exceeded'')
       else st_then (st_map_err policy_error (agent_authorize sha256_hex ?m AgentInvoke)) (\<lambda>(trusted, grant).
         agent_invoke_granted print ?m agent (ii_input i) trusted grant)) (registry, (w, [])) = (r, (registry', (w', log)))"
    unfolding agent_invoke_json_def
    by (elim then_after_keeps [OF _ _ assms(2)]) (auto intro: keeps_of dest!: of_result)
  then have rest: "st_then (st_map_err policy_error (agent_authorize sha256_hex ?m AgentInvoke)) (\<lambda>(trusted, grant).
      agent_invoke_granted print ?m agent (ii_input i) trusted grant) (registry, (w, [])) = (r, (registry', (w', log)))"
    using assms(2) by (auto simp: st_of_def split: if_splits)
  from rest show ?thesis
    by (elim then_after_keeps [OF _ _ assms(2)])
      (use agent_id_new_Inr [OF agent] in \<open>force intro!: keeps_intros dest!: map_err_result traced_authorize traced_granted [OF _ assms(2)]\<close>)+
qed

text \<open>C9: The effects of an agent called through its tool surface are granted ones. Whatever the host, the
  policy, the model and the ports do, a tool call has an effect on a port only if it is
  \<open>agent_runtime_invoke\<close>, the host resolved a trusted context, and the policy allowed it that
  capability with a digest that verifies. Each effect is allowed both by the agent's definition and
  by the grant of that decision, and is made under the trusted identifiers.\<close>

theorem tool_effects_are_granted:
  assumes "agent_tool_call print display sha256_hex (traced_agent sha256_hex parse jprint ports create host) tool (registry, (w, []))
      = (r, (registry', (w', log)))"
    and "e \<in> set log" "is_effect e"
  shows "\<exists>i trusted g d v def. tool = AgentInvokeTool i \<and> fst (host_resolve host w) = Inr trusted
    \<and> allows sha256_hex \<lparr>ar_context = trusted, ar_capability = AgentInvoke\<rparr>
        (fst (host_authorize host \<lparr>ar_context = trusted, ar_capability = AgentInvoke\<rparr> v)) g d
    \<and> registry_get registry (ii_id i) = Inr def
    \<and> authorized \<lparr>ic_tenant_id = tc_tenant_id trusted, ic_principal_id = tc_principal_id trusted,
        ic_request_id = tc_request_id trusted, ic_correlation_id = tc_correlation_id trusted\<rparr> (ii_id i) def
      \<lparr>cc_allowed_tool_ids = allowed_tool_ids g, cc_memory_enabled = memory_enabled g,
          cc_knowledge_enabled = knowledge_enabled g, cc_sandbox_execution_allowed = sandbox_execution_allowed g,
          cc_communication_allowed = communication_allowed g\<rparr> e"
proof -
  from assms(2) have used: "log \<noteq> []" by auto
  from assms(1) obtain r0 where call: "agent_tool_json print sha256_hex (traced_agent sha256_hex parse jprint ports create host) tool
      (registry, (w, [])) = (r0, (registry', (w', log)))"
    by (auto simp: agent_tool_call_def st_match_def st_of_def split: prod.splits)
  have "\<exists>i. tool = AgentInvokeTool i"
    using keepsD [OF keeps_tools call] used by blast
  then obtain i where tool: "tool = AgentInvokeTool i" ..
  with traced_invocation [OF _ used, of print sha256_hex parse jprint ports create host i] call obtain trusted g d v c w1 r1 where gate: "fst (host_resolve host w) = Inr trusted"
      "verified_grant sha256_hex \<lparr>ar_context = trusted, ar_capability = AgentInvoke\<rparr>
        (fst (host_authorize host \<lparr>ar_context = trusted, ar_capability = AgentInvoke\<rparr> v)) = Inr (g, d)"
    and c: "invocation_context trusted = Inr c"
    and inv: "invoke_with_ceiling sha256_hex parse jprint (logged ports) registry c (ii_id i) (ii_input i) (ceiling_of_grant g) (w1, [])
       = (r1, (w', log))"
    by (metis agent_tool_json.simps(5))
  obtain def where "registry_get registry (ii_id i) = Inr def" "authorized c (ii_id i) def (ceiling_of_grant g) e"
    using effects_authorized [OF inv assms(2,3)] by blast
  moreover have "c = \<lparr>ic_tenant_id = tc_tenant_id trusted, ic_principal_id = tc_principal_id trusted,
        ic_request_id = tc_request_id trusted, ic_correlation_id = tc_correlation_id trusted\<rparr>"
    using c by (cases c) (auto simp: invocation_context_Inr invocation_id_new_def split: if_splits)
  ultimately have "\<exists>i trusted g d v def. tool = AgentInvokeTool i \<and> fst (host_resolve host w) = Inr trusted
    \<and> verified_grant sha256_hex \<lparr>ar_context = trusted, ar_capability = AgentInvoke\<rparr>
        (fst (host_authorize host \<lparr>ar_context = trusted, ar_capability = AgentInvoke\<rparr> v)) = Inr (g, d)
    \<and> registry_get registry (ii_id i) = Inr def
    \<and> authorized \<lparr>ic_tenant_id = tc_tenant_id trusted, ic_principal_id = tc_principal_id trusted,
        ic_request_id = tc_request_id trusted, ic_correlation_id = tc_correlation_id trusted\<rparr> (ii_id i) def (ceiling_of_grant g) e"
    using tool gate by metis
  then show ?thesis unfolding ceiling_of_grant_def verified_grant_allows .
qed

definition tool_grant :: grant_v1 where
  "tool_grant = \<lparr>allowed_tool_ids = [''t1''], memory_enabled = False, knowledge_enabled = False, sandbox_execution_allowed = False,
     communication_allowed = False\<rparr>"

lemma tool_grant_ok: "canonical_grant tool_grant = Inr tool_grant" "ceiling_of_grant tool_grant = demo_ceiling"
proof -
  have "is_tool_id ''t1''" by (simp add: is_tool_id_def MAX_TOOL_ID_BYTES_def is_ascii_alphanumeric_def ascii_defs less_eq_char_def)
  then show "canonical_grant tool_grant = Inr tool_grant"
    by (simp add: canonical_grant_Inr grant_ok_def canonical_form_def tool_grant_def bs_collect_def MAX_TOOL_IDS_def)
  show "ceiling_of_grant tool_grant = demo_ceiling" by (simp add: ceiling_of_grant_def tool_grant_def demo_ceiling_def)
qed

definition demo_agent :: "(agent_registry \<times> string trace_world) agent_mcp" where
  "demo_agent = traced_agent (\<lambda>_. ''h'') demo_parse (\<lambda>_. ''{}'') demo_ports (st_of (Inr ())) (static_host (\<lambda>_. ''h'') demo_trusted tool_grant)"

lemma demo_agent_call:
  "\<exists>r w' log q. agent_tool_call (\<lambda>_. Inr ''{}'') (\<lambda>_. ''{}'') (\<lambda>_. ''h'') demo_agent (AgentInvokeTool \<lparr>ii_id = ''a1'', ii_input = ''hi''\<rparr>)
     (demo_registry, (''x'', [])) = (r, (demo_registry, (w', log))) \<and> CallTool ''t1'' q \<in> set log"
proof -
  obtain d where gate: "pass_gate (\<lambda>_. ''h'') (static_host (\<lambda>_. ''h'') demo_trusted tool_grant) AgentInvoke ''x''
      = (Inr (demo_trusted, tool_grant, d), ''x'')" using static_gate [OF tool_grant_ok(1)] by metis
  have agent: "agent_id_new ''a1'' = Inr ''a1''"
    by (simp add: agent_id_new_def lower_or_digit_def id_tail_def ascii_defs less_eq_char_def)
  have ctx: "invocation_context demo_trusted = Inr demo_context"
    by (simp add: invocation_context_def demo_trusted_def demo_context_def invocation_id_new_def lower_or_digit_def
        id_tail_def ascii_defs less_eq_char_def)
  have host: "am_host demo_agent = host_beside (silent_host (static_host (\<lambda>_. ''h'') demo_trusted tool_grant))"
    by (simp add: demo_agent_def traced_agent_def over_agent_runtime_def)
  have create: "am_create_control demo_agent (registry, (w, log)) = (Inr (), (registry, (w, log)))" for registry w log
    by (simp add: demo_agent_def traced_agent_def over_agent_runtime_def beside_def silently_def st_of_def)
  obtain request q where "invoke_with_ceiling (\<lambda>_. ''h'') demo_parse (\<lambda>_. ''{}'') (logged demo_ports) demo_registry demo_context
     ''a1'' ''hi'' demo_ceiling (''x'', []) = (Inl definition_error.Cancelled, ''xx'',
       [CallResolve ''t1'', CallGenerate request, CallPreflight \<lparr>is_cancelled = False, is_elapsed = False\<rparr>,
        CallPreflight \<lparr>is_cancelled = False, is_elapsed = False\<rparr>, CallTool ''t1'' q,
        CallPreflight \<lparr>is_cancelled = True, is_elapsed = False\<rparr>])" using demo_log by blast
  then have "am_invoke demo_agent demo_context ''a1'' ''hi'' demo_ceiling (demo_registry, (''x'', []))
      = (Inl definition_error.Cancelled, (demo_registry, (''xx'', [CallResolve ''t1'', CallGenerate request,
        CallPreflight \<lparr>is_cancelled = False, is_elapsed = False\<rparr>, CallPreflight \<lparr>is_cancelled = False, is_elapsed = False\<rparr>,
        CallTool ''t1'' q, CallPreflight \<lparr>is_cancelled = True, is_elapsed = False\<rparr>])))"
    by (simp add: demo_agent_def traced_agent_def over_agent_runtime_def)
  then show ?thesis
    by (simp add: agent_tool_call_def agent_invoke_json_def agent_invoke_granted_def agent_authorize_def host host_beside_gate silent_gate
        gate agent ctx create tool_grant_ok st_then_def st_map_err_def st_match_def st_of_def MAX_INPUT_BYTES_def)
qed

theorem tool_effects_are_granted_witness:
  "\<exists>trusted g d v def q. allows (\<lambda>_. ''h'') \<lparr>ar_context = trusted, ar_capability = AgentInvoke\<rparr>
        (fst (host_authorize (static_host (\<lambda>_. ''h'') demo_trusted tool_grant) \<lparr>ar_context = trusted, ar_capability = AgentInvoke\<rparr> (v :: string))) g d
    \<and> authorized \<lparr>ic_tenant_id = tc_tenant_id trusted, ic_principal_id = tc_principal_id trusted,
        ic_request_id = tc_request_id trusted, ic_correlation_id = tc_correlation_id trusted\<rparr> ''a1'' def
      \<lparr>cc_allowed_tool_ids = allowed_tool_ids g, cc_memory_enabled = memory_enabled g,
          cc_knowledge_enabled = knowledge_enabled g, cc_sandbox_execution_allowed = sandbox_execution_allowed g,
          cc_communication_allowed = communication_allowed g\<rparr> (CallTool ''t1'' q)"
proof -
  obtain r w' log q where call: "agent_tool_call (\<lambda>_. Inr ''{}'') (\<lambda>_. ''{}'') (\<lambda>_. ''h'') demo_agent
      (AgentInvokeTool \<lparr>ii_id = ''a1'', ii_input = ''hi''\<rparr>) (demo_registry, (''x'', [])) = (r, (demo_registry, (w', log)))"
    and "CallTool ''t1'' q \<in> set log" using demo_agent_call by blast
  with tool_effects_are_granted [OF call [unfolded demo_agent_def], of "CallTool ''t1'' q"] show ?thesis by fastforce
qed

text \<open>C38: An identifier that is none is told apart from other failures by \<open>agent_runtime_invoke\<close> and not by
  \<open>agent_definition_get\<close>. For such an identifier the first answers \<open>invalid_definition\<close>; the second
  hands on the error's \<open>Display\<close> form, which is no public code, so it answers \<open>operation_failed\<close>.
  Neither asks anything of the outside.\<close>

theorem invalid_agent_id_replies:
  assumes "agent_id_new i = Inl e"
  shows "agent_tool_call print display sha256_hex m (AgentGetTool i) w = (Inr (display (json_object [(''error'', JString ''operation_failed'')])), w)
    \<and> agent_tool_call print display sha256_hex m (AgentInvokeTool \<lparr>ii_id = i, ii_input = input\<rparr>) w
        = (Inr (display (json_object [(''error'', JString ''invalid_definition'')])), w)"
proof -
  have "definition_error_display InvalidDefinition \<notin> set agent_public_codes"
    by (simp add: definition_error_display_def agent_public_codes_def)
  with assms show ?thesis
    by (simp add: agent_tool_call_def agent_get_json_def agent_invoke_json_def st_match_def st_then_def st_of_def
        agent_tool_response_def error_reply_def) (simp add: agent_public_codes_def)
qed

theorem invalid_agent_id_replies_witness:
  "agent_tool_call (\<lambda>_. Inr ''{}'') (\<lambda>_. ''{}'') (\<lambda>_. ''h'') demo_agent (AgentGetTool ''A'') (demo_registry, (''x'', []))
     = (Inr ''{}'', (demo_registry, (''x'', [])))"
proof -
  have "agent_id_new ''A'' = Inl InvalidId"
    by (simp add: agent_id_new_def lower_or_digit_def ascii_defs less_eq_char_def)
  from invalid_agent_id_replies [OF this, of "\<lambda>_. Inr ''{}''" "\<lambda>_. ''{}''" "\<lambda>_. ''h''" demo_agent] show ?thesis by simp
qed

end
