(* ===== verification/Workflow.thy ===== *)
theory Workflow
  imports Agent Gateway
begin

text \<open>
  The lifecycle of a workflow run (\<open>workflow/src/lib.rs\<close>) and the in-memory adapters of
  \<open>workflow/src/memory.rs\<close>: identifiers, definitions and budgets, runs with their attempt and
  events, the collector that bounds the evidence of an invocation, the validity of a
  transition, and the store with its idempotent create, its lookups and its compare-and-set
  transition. The scanner for repeated keys is in \<open>Workflow_Scan\<close>, the runner in
  \<open>Workflow_Runner\<close>. Constructors of the error types carry the prefixes \<open>Wf\<close> and \<open>WfPub\<close>; a
  \<open>LogicalId\<close> is its string.
\<close>

section \<open>Limits and errors\<close>

definition MAX_JSON_INPUT_BYTES :: nat where "MAX_JSON_INPUT_BYTES = 65536"
definition MAX_RUN_KEY_BYTES :: nat where "MAX_RUN_KEY_BYTES = 128"
definition MAX_EVIDENCE_BYTES :: nat where "MAX_EVIDENCE_BYTES = 65536"
definition MAX_EVIDENCE_CHUNK_BYTES :: nat where "MAX_EVIDENCE_CHUNK_BYTES = 4096"
definition MAX_EVENTS :: nat where "MAX_EVENTS = 64"
definition MIN_TERMINAL_EVIDENCE_BYTES :: nat where
  "MIN_TERMINAL_EVIDENCE_BYTES =
     length ''started'' + length ''invocation_failed'' + length ''evidence_limit_exceeded''"

datatype workflow_public_error_code =
    WfPubInvalidRequest | WfPubInvalidDefinition | WfPubNotFound | WfPubRunKeyConflict | WfPubConflict
  | WfPubLimitExceeded | WfPubOperationFailed

datatype workflow_error =
    WfInvalidRequest | WfInvalidDefinition | WfNotFound | WfRunKeyConflict | WfConflict
  | WfLimitExceeded | WfCancelled | WfDeadlineExceeded | WfAdapterFailure

fun workflow_public_code :: "workflow_error \<Rightarrow> workflow_public_error_code" where
  "workflow_public_code WfInvalidRequest = WfPubInvalidRequest"
| "workflow_public_code WfInvalidDefinition = WfPubInvalidDefinition"
| "workflow_public_code WfNotFound = WfPubNotFound"
| "workflow_public_code WfRunKeyConflict = WfPubRunKeyConflict"
| "workflow_public_code WfConflict = WfPubConflict"
| "workflow_public_code WfLimitExceeded = WfPubLimitExceeded"
| "workflow_public_code WfCancelled = WfPubOperationFailed"
| "workflow_public_code WfDeadlineExceeded = WfPubOperationFailed"
| "workflow_public_code WfAdapterFailure = WfPubOperationFailed"

fun from_definition_error :: "definition_error \<Rightarrow> workflow_error" where
  "from_definition_error definition_error.LimitExceeded = WfLimitExceeded"
| "from_definition_error definition_error.Cancelled = WfCancelled"
| "from_definition_error definition_error.DeadlineExceeded = WfDeadlineExceeded"
| "from_definition_error definition_error.InvalidRequest = WfInvalidRequest"
| "from_definition_error InvalidId = WfInvalidDefinition"
| "from_definition_error InvalidDefinition = WfInvalidDefinition"
| "from_definition_error InvalidReference = WfInvalidDefinition"
| "from_definition_error NotFound = WfNotFound"
| "from_definition_error ReferenceUnavailable = WfAdapterFailure"
| "from_definition_error BuiltinProtected = WfAdapterFailure"
| "from_definition_error (UnknownTool _) = WfAdapterFailure"
| "from_definition_error (ToolDisallowed _) = WfAdapterFailure"
| "from_definition_error MemoryDenied = WfAdapterFailure"
| "from_definition_error KnowledgeDenied = WfAdapterFailure"
| "from_definition_error SandboxDenied = WfAdapterFailure"
| "from_definition_error AdapterFailure = WfAdapterFailure"

section \<open>Definitions, runs and transitions\<close>

definition logical_id_new :: "string \<Rightarrow> (string, workflow_error) result" where
  "logical_id_new value =
     (if length value \<le> 128 \<and> first_rest lower_or_digit id_tail value then Inr value
      else Inl WfInvalidRequest)"

datatype workflow_version = V1

fun version_as_str :: "workflow_version \<Rightarrow> string" where
  "version_as_str V1 = ''v1''"

instantiation workflow_version :: linorder
begin

definition less_eq_workflow_version :: "workflow_version \<Rightarrow> workflow_version \<Rightarrow> bool" where
  "less_eq_workflow_version v w = True"

definition less_workflow_version :: "workflow_version \<Rightarrow> workflow_version \<Rightarrow> bool" where
  "less_workflow_version v w = False"

instance
  by standard (simp_all add: less_eq_workflow_version_def less_workflow_version_def,
      metis workflow_version.exhaust)

end

record request_context =
  rc_tenant_id :: string
  rc_principal_id :: string
  rc_request_id :: string
  rc_correlation_id :: string

record workflow_budget =
  wb_max_attempts :: u8
  wb_max_input_bytes :: nat
  wb_max_evidence_bytes :: nat

definition workflow_budget_default :: workflow_budget where
  "workflow_budget_default = \<lparr>wb_max_attempts = 1, wb_max_input_bytes = MAX_JSON_INPUT_BYTES,
     wb_max_evidence_bytes = MAX_EVIDENCE_BYTES\<rparr>"

record workflow_definition_v1 =
  wd_id :: string
  wd_version :: workflow_version
  wd_agent_id :: string
  wd_budget :: workflow_budget

datatype run_status = Pending | Running | Succeeded | Failed | RunCancelled

definition is_terminal :: "run_status \<Rightarrow> bool" where
  "is_terminal s \<longleftrightarrow> s \<in> {Succeeded, Failed, RunCancelled}"

datatype terminal_reason = Completed | InvocationFailed | ReasonCancelled
datatype attempt_status = AttemptRunning | AttemptSucceeded | AttemptFailed | AttemptCancelled

record workflow_event =
  ev_sequence :: u64
  ev_kind :: string
  ev_data :: string

record attempt =
  at_id :: string
  at_agent_id :: string
  at_ceiling :: effective_capability_ceiling_v1
  at_policy_decision_digest :: string
  at_capability_scope_digest :: "string option"
  at_status :: attempt_status
  at_result :: "string option"
  at_error :: "string option"

record workflow_run =
  wr_id :: string
  wr_context :: request_context
  wr_workflow_id :: string
  wr_workflow_version :: workflow_version
  wr_run_key :: string
  wr_input_digest :: string
  wr_max_evidence_bytes :: nat
  wr_status :: run_status
  wr_revision :: u64
  wr_terminal_reason :: "terminal_reason option"
  wr_attempt :: "attempt option"
  wr_events :: "workflow_event list"

record run_summary =
  su_id :: string
  su_workflow_id :: string
  su_workflow_version :: workflow_version
  su_status :: run_status
  su_revision :: u64
  su_terminal_reason :: "terminal_reason option"

definition run_summary_from :: "workflow_run \<Rightarrow> run_summary" where
  "run_summary_from r = \<lparr>su_id = wr_id r, su_workflow_id = wr_workflow_id r,
     su_workflow_version = wr_workflow_version r, su_status = wr_status r,
     su_revision = wr_revision r, su_terminal_reason = wr_terminal_reason r\<rparr>"

text \<open>The keys of the store's maps, ordered as the derived \<open>Ord\<close> does: field by field.\<close>

datatype start_key = StartKey (sk_tenant_id: string) (sk_workflow_id: string)
  (sk_workflow_version: workflow_version) (sk_run_key: string)

datatype start_identity = StartIdentity (si_key: start_key) (si_input_digest: string)

definition start_key_fields :: "start_key \<Rightarrow> string \<times> string \<times> workflow_version \<times> string" where
  "start_key_fields k = (sk_tenant_id k, sk_workflow_id k, sk_workflow_version k, sk_run_key k)"

lemma start_key_fields_inject [simp]: "start_key_fields k = start_key_fields l \<longleftrightarrow> k = l"
  by (cases k; cases l) (simp add: start_key_fields_def)

instantiation start_key :: linorder
begin

definition less_eq_start_key :: "start_key \<Rightarrow> start_key \<Rightarrow> bool" where
  "less_eq_start_key k l \<longleftrightarrow> start_key_fields k \<le> start_key_fields l"

definition less_start_key :: "start_key \<Rightarrow> start_key \<Rightarrow> bool" where
  "less_start_key k l \<longleftrightarrow> start_key_fields k < start_key_fields l"

instance
  by standard (auto simp: less_eq_start_key_def less_start_key_def simp flip: start_key_fields_inject)

end

definition start_identity_fields :: "start_identity \<Rightarrow> start_key \<times> string" where
  "start_identity_fields i = (si_key i, si_input_digest i)"

lemma start_identity_fields_inject [simp]: "start_identity_fields i = start_identity_fields j \<longleftrightarrow> i = j"
  by (cases i; cases j) (simp add: start_identity_fields_def)

instantiation start_identity :: linorder
begin

definition less_eq_start_identity :: "start_identity \<Rightarrow> start_identity \<Rightarrow> bool" where
  "less_eq_start_identity i j \<longleftrightarrow> start_identity_fields i \<le> start_identity_fields j"

definition less_start_identity :: "start_identity \<Rightarrow> start_identity \<Rightarrow> bool" where
  "less_start_identity i j \<longleftrightarrow> start_identity_fields i < start_identity_fields j"

instance
  by standard (auto simp: less_eq_start_identity_def less_start_identity_def
      simp flip: start_identity_fields_inject)

end

datatype create_run = Created workflow_run | Existing workflow_run | CreateConflict

record transition =
  tr_status :: run_status
  tr_terminal_reason :: "terminal_reason option"
  tr_attempt :: "attempt option"
  tr_events :: "workflow_event list"

datatype transition_result = Applied workflow_run | TransitionConflict | TransitionNotFound

record invocation_policy =
  ip_ceiling :: effective_capability_ceiling_v1
  ip_policy_decision_digest :: string

record agent_invocation_request =
  ar_context :: request_context
  ar_agent_id :: string
  ar_input :: string
  ar_attempt_id :: string
  ar_ceiling :: effective_capability_ceiling_v1
  ar_policy_decision_digest :: string

record invocation_evidence =
  ie_kind :: string
  ie_data :: string

definition invocation_evidence_new :: "string \<Rightarrow> string \<Rightarrow> (invocation_evidence, workflow_error) result" where
  "invocation_evidence_new kind data =
     and_then (ok_or (usize_checked_add (length kind) (length data)) WfLimitExceeded) (\<lambda>n.
       if kind \<noteq> [] \<and> n \<le> MAX_EVIDENCE_CHUNK_BYTES then Inr \<lparr>ie_kind = kind, ie_data = data\<rparr>
       else Inl WfLimitExceeded)"

definition validate_definition :: "workflow_definition_v1 \<Rightarrow> (unit, workflow_error) result" where
  "validate_definition definition =
     (let budget = wd_budget definition in
      ensure (wb_max_attempts budget = 1 \<and> wb_max_input_bytes budget > 0
        \<and> wb_max_input_bytes budget \<le> MAX_JSON_INPUT_BYTES
        \<and> wb_max_evidence_bytes budget \<ge> MIN_TERMINAL_EVIDENCE_BYTES
        \<and> wb_max_evidence_bytes budget \<le> MAX_EVIDENCE_BYTES) WfInvalidDefinition)"

definition validate_invocation_policy :: "effective_capability_ceiling_v1 \<Rightarrow> string
    \<Rightarrow> (unit, workflow_error) result" where
  "validate_invocation_policy ceiling decision_digest =
     and_then (map_err (\<lambda>_. WfInvalidRequest) (validate_effective_capability_ceiling ceiling)) (\<lambda>_.
       ensure (length decision_digest = 64 \<and> list_all is_ascii_hexdigit decision_digest) WfInvalidRequest)"

section \<open>Evidence\<close>

definition evidence_bytes :: "(string \<times> string) list \<Rightarrow> (nat, workflow_error) result" where
  "evidence_bytes =
     try_fold (\<lambda>acc (kind, data). ok_or (Option.bind (usize_checked_add acc (length kind))
       (\<lambda>value. usize_checked_add value (length data))) WfLimitExceeded) 0"

definition event_text :: "workflow_event \<Rightarrow> string \<times> string" where
  "event_text e = (ev_kind e, ev_data e)"

record evidence_collector =
  ec_limit :: nat
  ec_existing_events :: nat
  ec_used_bytes :: nat
  ec_events :: "invocation_evidence list"
  ec_output :: "string option"

definition evidence_collector_new :: "nat \<Rightarrow> workflow_event list \<Rightarrow> (evidence_collector, workflow_error) result"
where
  "evidence_collector_new limit existing_events =
     and_then (evidence_bytes (map event_text existing_events)) (\<lambda>used_bytes.
       if used_bytes > limit \<or> length existing_events > MAX_EVENTS then Inl WfLimitExceeded
       else Inr \<lparr>ec_limit = limit, ec_existing_events = length existing_events,
         ec_used_bytes = used_bytes, ec_events = [], ec_output = None\<rparr>)"

text \<open>\<open>emit\<close>: the result and the collector after the call, which an error leaves unchanged.\<close>

definition emit :: "evidence_collector \<Rightarrow> invocation_evidence
    \<Rightarrow> (unit, workflow_error) result \<times> evidence_collector" where
  "emit self evidence =
     (case usize_checked_add (length (ie_kind evidence)) (length (ie_data evidence)) of
        None \<Rightarrow> (Inl WfLimitExceeded, self)
      | Some item_bytes \<Rightarrow>
     case usize_checked_add (ec_used_bytes self) item_bytes of
        None \<Rightarrow> (Inl WfLimitExceeded, self)
      | Some used \<Rightarrow>
     case Option.bind (usize_checked_add (ec_existing_events self) (length (ec_events self)))
            (\<lambda>count. usize_checked_add count 1) of
        None \<Rightarrow> (Inl WfLimitExceeded, self)
      | Some event_count \<Rightarrow>
     if event_count > MAX_EVENTS \<or> item_bytes > MAX_EVIDENCE_CHUNK_BYTES \<or> used > ec_limit self
     then (Inl WfLimitExceeded, self)
     else if ie_kind evidence = ''result'' \<and> ec_output self \<noteq> None then (Inl WfInvalidRequest, self)
     else (Inr (), self\<lparr>
       ec_output := (if ie_kind evidence = ''result'' then Some (ie_data evidence) else ec_output self),
       ec_used_bytes := used, ec_events := ec_events self @ [evidence]\<rparr>))"

definition number_events :: "nat \<Rightarrow> invocation_evidence list \<Rightarrow> workflow_event list" where
  "number_events existing items =
     map (\<lambda>(index, item). \<lparr>ev_sequence = of_nat existing + of_nat index + 1, ev_kind = ie_kind item,
       ev_data = ie_data item\<rparr>) (enumerate 0 items)"

definition finish_success :: "workflow_run \<Rightarrow> string \<Rightarrow> evidence_collector
    \<Rightarrow> (transition, workflow_error) result" where
  "finish_success r scope_digest evidence =
     and_then (ok_or (ec_output evidence) WfInvalidRequest) (\<lambda>output.
     and_then (ok_or (wr_attempt r) WfConflict) (\<lambda>a.
       Inr \<lparr>tr_status = Succeeded, tr_terminal_reason = Some Completed,
         tr_attempt = Some (a\<lparr>at_status := AttemptSucceeded,
           at_capability_scope_digest := Some scope_digest, at_result := Some output\<rparr>),
         tr_events = number_events (length (wr_events r)) (ec_events evidence)\<rparr>))"

text \<open>
  \<open>finish_failure\<close> unwraps the attempt with \<open>expect\<close>: \<^const>\<open>None\<close> here is that panic, which the
  runner never reaches.
\<close>

definition finish_failure :: "workflow_run \<Rightarrow> string \<Rightarrow> transition option" where
  "finish_failure r error =
     map_option (\<lambda>a. \<lparr>tr_status = Failed, tr_terminal_reason = Some InvocationFailed,
       tr_attempt = Some (a\<lparr>at_status := AttemptFailed, at_error := Some error\<rparr>),
       tr_events = [\<lparr>ev_sequence = of_nat (length (wr_events r)) + 1, ev_kind = ''invocation_failed'',
         ev_data = error\<rparr>]\<rparr>) (wr_attempt r)"

section \<open>Valid transitions\<close>

definition same_attempt :: "attempt \<Rightarrow> attempt \<Rightarrow> bool" where
  "same_attempt previous next_attempt \<longleftrightarrow> at_id previous = at_id next_attempt
     \<and> at_agent_id previous = at_agent_id next_attempt
     \<and> at_ceiling previous = at_ceiling next_attempt
     \<and> at_policy_decision_digest previous = at_policy_decision_digest next_attempt
     \<and> at_status previous = AttemptRunning"

fun sequence_valid :: "u64 \<Rightarrow> workflow_event list \<Rightarrow> bool" where
  "sequence_valid sequence [] = True"
| "sequence_valid sequence (e # es) =
     (ev_sequence e = sequence \<and> ev_kind e \<noteq> [] \<and> sequence_valid (sequence + 1) es)"

definition attempt_valid :: "run_status \<Rightarrow> run_status \<Rightarrow> terminal_reason option \<Rightarrow> attempt option
    \<Rightarrow> attempt option \<Rightarrow> bool" where
  "attempt_valid expected status reason previous proposed =
     (case (expected, status, reason, previous, proposed) of
        (Pending, Running, None, None, Some a) \<Rightarrow>
          is_ok (validate_invocation_policy (at_ceiling a) (at_policy_decision_digest a))
          \<and> at_status a = AttemptRunning \<and> at_capability_scope_digest a = None
          \<and> at_result a = None \<and> at_error a = None
      | (Running, Succeeded, Some Completed, Some p, Some a) \<Rightarrow>
          same_attempt p a \<and> at_status a = AttemptSucceeded \<and> at_result a \<noteq> None \<and> at_error a = None
      | (Running, Failed, Some InvocationFailed, Some p, Some a) \<Rightarrow>
          same_attempt p a \<and> at_status a = AttemptFailed \<and> at_result a = None \<and> at_error a \<noteq> None
      | (Running, RunCancelled, Some ReasonCancelled, Some p, Some a) \<Rightarrow>
          same_attempt p a \<and> at_status a = AttemptCancelled \<and> at_result a = None
      | _ \<Rightarrow> False)"

definition transition_is_valid :: "workflow_run \<Rightarrow> run_status \<Rightarrow> transition \<Rightarrow> bool" where
  "transition_is_valid r expected_status t \<longleftrightarrow>
     wr_status r = expected_status \<and> \<not> is_terminal (wr_status r) \<and> tr_events t \<noteq> []
     \<and> (case usize_checked_add (length (wr_events r)) (length (tr_events t)) of
          None \<Rightarrow> False | Some n \<Rightarrow> n \<le> MAX_EVENTS)
     \<and> (case evidence_bytes (map event_text (wr_events r @ tr_events t)) of
          Inl _ \<Rightarrow> False | Inr n \<Rightarrow> n \<le> wr_max_evidence_bytes r)
     \<and> sequence_valid (if wr_events r = [] then 1 else ev_sequence (last (wr_events r)) + 1) (tr_events t)
     \<and> attempt_valid expected_status (tr_status t) (tr_terminal_reason t) (wr_attempt r) (tr_attempt t)"

section \<open>The in-memory store, the static catalog and the static invoker\<close>

record workflow_state =
  ws_runs :: "(string, workflow_run) btree_map"
  ws_identities :: "(start_identity, string) btree_map"
  ws_keys :: "(start_key, start_identity) btree_map"

definition workflow_state_default :: workflow_state where
  "workflow_state_default = \<lparr>ws_runs = [], ws_identities = [], ws_keys = []\<rparr>"

type_synonym in_memory_workflow_store = "workflow_state mutex"

definition fresh_run :: "start_identity \<Rightarrow> workflow_run \<Rightarrow> bool" where
  "fresh_run identity r \<longleftrightarrow> rc_tenant_id (wr_context r) = sk_tenant_id (si_key identity)
     \<and> wr_workflow_id r = sk_workflow_id (si_key identity)
     \<and> wr_workflow_version r = sk_workflow_version (si_key identity)
     \<and> wr_run_key r = sk_run_key (si_key identity) \<and> wr_input_digest r = si_input_digest identity
     \<and> wr_status r = Pending \<and> wr_revision r = 0 \<and> wr_terminal_reason r = None
     \<and> wr_attempt r = None \<and> wr_events r = []
     \<and> wr_max_evidence_bytes r \<noteq> 0 \<and> wr_max_evidence_bytes r \<le> MAX_EVIDENCE_BYTES"

definition create_state :: "workflow_state \<Rightarrow> start_identity \<Rightarrow> workflow_run
    \<Rightarrow> (create_run, workflow_error) result \<times> workflow_state" where
  "create_state st identity r =
     (case bt_get (ws_identities st) identity of
        Some rid \<Rightarrow> (ok_or (map_option Existing (bt_get (ws_runs st) rid)) WfAdapterFailure, st)
      | None \<Rightarrow>
          if bt_contains_key (ws_keys st) (si_key identity) then (Inr CreateConflict, st)
          else if \<not> fresh_run identity r then (Inl WfInvalidRequest, st)
          else (Inr (Created r),
            \<lparr>ws_runs = bt_insert (wr_id r) r (ws_runs st),
             ws_identities = bt_insert identity (wr_id r) (ws_identities st),
             ws_keys = bt_insert (si_key identity) identity (ws_keys st)\<rparr>))"

definition create_or_return :: "in_memory_workflow_store \<Rightarrow> start_identity \<Rightarrow> workflow_run
    \<Rightarrow> (create_run, workflow_error) result \<times> in_memory_workflow_store" where
  "create_or_return store identity r =
     (if poisoned store then (Inl WfAdapterFailure, store)
      else map_prod (\<lambda>x. x) (\<lambda>st. store\<lparr>guarded := st\<rparr>) (create_state (guarded store) identity r))"

definition store_get :: "in_memory_workflow_store \<Rightarrow> string \<Rightarrow> string
    \<Rightarrow> (workflow_run option, workflow_error) result" where
  "store_get store tenant rid =
     and_then (lock store WfAdapterFailure) (\<lambda>st.
       Inr (case bt_get (ws_runs st) rid of
              None \<Rightarrow> None
            | Some r \<Rightarrow> if rc_tenant_id (wr_context r) = tenant then Some r else None))"

definition store_list :: "in_memory_workflow_store \<Rightarrow> string \<Rightarrow> (workflow_run list, workflow_error) result"
where
  "store_list store tenant =
     and_then (lock store WfAdapterFailure) (\<lambda>st.
       Inr (filter (\<lambda>r. rc_tenant_id (wr_context r) = tenant) (bt_values (ws_runs st))))"

definition apply_transition :: "workflow_run \<Rightarrow> transition \<Rightarrow> workflow_run" where
  "apply_transition r t = r\<lparr>wr_status := tr_status t, wr_terminal_reason := tr_terminal_reason t,
     wr_attempt := tr_attempt t, wr_events := wr_events r @ tr_events t, wr_revision := wr_revision r + 1\<rparr>"

definition transition_state :: "workflow_state \<Rightarrow> string \<Rightarrow> string \<Rightarrow> u64 \<Rightarrow> run_status \<Rightarrow> transition
    \<Rightarrow> transition_result \<times> workflow_state" where
  "transition_state st tenant rid revision status t =
     (case bt_get (ws_runs st) rid of
        None \<Rightarrow> (TransitionNotFound, st)
      | Some current \<Rightarrow>
          if rc_tenant_id (wr_context current) \<noteq> tenant then (TransitionNotFound, st)
          else if wr_revision current \<noteq> revision \<or> \<not> transition_is_valid current status t
          then (TransitionConflict, st)
          else (Applied (apply_transition current t),
                st\<lparr>ws_runs := bt_insert rid (apply_transition current t) (ws_runs st)\<rparr>))"

definition store_transition :: "in_memory_workflow_store \<Rightarrow> string \<Rightarrow> string \<Rightarrow> u64 \<Rightarrow> run_status \<Rightarrow> transition
    \<Rightarrow> (transition_result, workflow_error) result \<times> in_memory_workflow_store" where
  "store_transition store tenant rid revision status t =
     (if poisoned store then (Inl WfAdapterFailure, store)
      else map_prod Inr (\<lambda>st. store\<lparr>guarded := st\<rparr>)
        (transition_state (guarded store) tenant rid revision status t))"

type_synonym static_workflow_catalog = "(string \<times> workflow_version, workflow_definition_v1) btree_map"

definition static_catalog_new :: "workflow_definition_v1 list \<Rightarrow> static_workflow_catalog" where
  "static_catalog_new definitions = bt_collect (map (\<lambda>item. ((wd_id item, wd_version item), item)) definitions)"

definition catalog_resolve :: "static_workflow_catalog \<Rightarrow> string \<Rightarrow> workflow_version
    \<Rightarrow> (workflow_definition_v1 option, workflow_error) result" where
  "catalog_resolve catalog wid version = Inr (bt_get catalog (wid, version))"

datatype static_invocation = Succeed string "invocation_evidence list" | Fail

definition static_validate_agent :: "string list \<Rightarrow> string \<Rightarrow> (bool, workflow_error) result" where
  "static_validate_agent agents aid = Inr (aid \<in> set agents)"

fun emit_all :: "evidence_collector \<Rightarrow> invocation_evidence list
    \<Rightarrow> (unit, workflow_error) result \<times> evidence_collector" where
  "emit_all c [] = (Inr (), c)"
| "emit_all c (item # items) =
     (case emit c item of (Inl e, c') \<Rightarrow> (Inl e, c') | (Inr _, c') \<Rightarrow> emit_all c' items)"

fun preflight_error :: "llm_error \<Rightarrow> workflow_error" where
  "preflight_error llm_error.Cancelled = WfCancelled"
| "preflight_error llm_error.DeadlineExceeded = WfDeadlineExceeded"
| "preflight_error _ = WfAdapterFailure"

definition static_invoke :: "static_invocation \<Rightarrow> invocation_control \<Rightarrow> evidence_collector
    \<Rightarrow> (string, workflow_error) result \<times> evidence_collector" where
  "static_invoke invocation control evidence =
     (case map_err preflight_error (preflight control) of
        Inl e \<Rightarrow> (Inl e, evidence)
      | Inr _ \<Rightarrow>
          (case invocation of
             Succeed scope_digest items \<Rightarrow>
               (case emit_all evidence items of
                  (Inl e, c) \<Rightarrow> (Inl e, c) | (Inr _, c) \<Rightarrow> (Inr scope_digest, c))
           | Fail \<Rightarrow> (Inl WfAdapterFailure, evidence)))"

end
