(* ===== verification/Workflow_Scan.thy ===== *)
theory Workflow_Scan
  imports Workflow
begin

text \<open>
  Canonical workflow input (\<open>canonical_json\<close> of \<open>workflow/src/lib.rs\<close>) and the scanner
  \<open>reject_duplicate_keys\<close> that it runs over the raw text, because the deserializer of
  \<open>serde_json::Value\<close> silently keeps the last of two equal keys. The position of the scanner is the
  remaining input; \<open>serde_json\<close> is a parameter: \<open>parse\<close> and \<open>print\<close> for documents, \<open>decode\<close> for the
  string literal \<open>serde_json::from_slice::<String>\<close> reads.
\<close>

section \<open>The scanner\<close>

definition is_ascii_whitespace :: "char \<Rightarrow> bool" where
  "is_ascii_whitespace b \<longleftrightarrow> b \<in> {CHR 0x20, CHR 0x09, CHR 0x0A, CHR 0x0C, CHR 0x0D}"

definition scan_ws :: "string \<Rightarrow> string" where
  "scan_ws s = dropWhile is_ascii_whitespace s"

fun scan_string_body :: "(string \<Rightarrow> string option) \<Rightarrow> bool \<Rightarrow> string \<Rightarrow> string
    \<Rightarrow> (string \<times> string, workflow_error) result" where
  "scan_string_body decode escaped seen [] = Inl WfInvalidRequest"
| "scan_string_body decode escaped seen (b # bs) =
     (if escaped then scan_string_body decode False (seen @ [b]) bs
      else if b = CHR 0x5C then scan_string_body decode True (seen @ [b]) bs
      else if b = CHR 0x22 then
        and_then (ok_or (decode (seen @ [b])) WfInvalidRequest) (\<lambda>k. Inr (k, bs))
      else scan_string_body decode False (seen @ [b]) bs)"

fun scan_string :: "(string \<Rightarrow> string option) \<Rightarrow> string \<Rightarrow> (string \<times> string, workflow_error) result" where
  "scan_string decode [] = Inl WfInvalidRequest"
| "scan_string decode (q # bs) = scan_string_body decode False [q] bs"

definition scalar_byte :: "char \<Rightarrow> bool" where
  "scalar_byte b \<longleftrightarrow> b \<notin> {CHR '','', CHR '']'', CHR ''}''} \<and> \<not> is_ascii_whitespace b"

function (sequential) scan_value :: "(string \<Rightarrow> string option) \<Rightarrow> string \<Rightarrow> (string, workflow_error) result"
  and scan_object :: "(string \<Rightarrow> string option) \<Rightarrow> string list \<Rightarrow> string \<Rightarrow> (string, workflow_error) result"
  and scan_array :: "(string \<Rightarrow> string option) \<Rightarrow> string \<Rightarrow> (string, workflow_error) result"
where
  "scan_value decode s =
     (case scan_ws s of
        [] \<Rightarrow> Inl WfInvalidRequest
      | c # r \<Rightarrow>
          if c = CHR 0x22 then and_then (scan_string decode (c # r)) (\<lambda>(_, r'). Inr r')
          else if c = CHR ''{'' then scan_object decode [] r
          else if c = CHR ''['' then
            (case scan_ws r of
               [] \<Rightarrow> scan_array decode []
             | d # r' \<Rightarrow> if d = CHR '']'' then Inr r' else scan_array decode (d # r'))
          else if \<not> scalar_byte c then Inl WfInvalidRequest
          else Inr (dropWhile scalar_byte (c # r)))"
| "scan_object decode keys s =
     (case scan_ws s of
        [] \<Rightarrow> Inl WfInvalidRequest
      | c # r \<Rightarrow>
          if c = CHR ''}'' then Inr r
          else if c \<noteq> CHR 0x22 then Inl WfInvalidRequest
          else (case scan_string decode (c # r) of
            Inl e \<Rightarrow> Inl e
          | Inr (key, r1) \<Rightarrow>
              if key \<in> set keys then Inl WfInvalidRequest
              else (case scan_ws r1 of
                [] \<Rightarrow> Inl WfInvalidRequest
              | d # r2 \<Rightarrow>
                  if d \<noteq> CHR '':'' then Inl WfInvalidRequest
                  else (case scan_value decode r2 of
                    Inl e \<Rightarrow> Inl e
                  | Inr r3 \<Rightarrow>
                      (case scan_ws r3 of
                        [] \<Rightarrow> Inl WfInvalidRequest
                      | e # r4 \<Rightarrow>
                          if e = CHR '','' then scan_object decode (key # keys) r4
                          else if e = CHR ''}'' then Inr r4
                          else Inl WfInvalidRequest)))))"
| "scan_array decode s =
     (case scan_value decode s of
        Inl e \<Rightarrow> Inl e
      | Inr r \<Rightarrow>
          (case scan_ws r of
             [] \<Rightarrow> Inl WfInvalidRequest
           | c # r' \<Rightarrow>
               if c = CHR '','' then scan_array decode r'
               else if c = CHR '']'' then Inr r'
               else Inl WfInvalidRequest))"
  by pat_completeness auto

lemma length_scan_ws: "length (scan_ws s) \<le> length s"
  by (simp add: scan_ws_def length_dropWhile_le)

lemma scan_ws_Cons: "scan_ws s = c # r \<Longrightarrow> length r < length s"
  using length_scan_ws [of s] by simp

lemma scan_string_body_less: "scan_string_body decode e seen s = Inr (k, r) \<Longrightarrow> length r < length s"
  by (induction decode e seen s rule: scan_string_body.induct)
    (auto simp: result_simps less_Suc_eq split: if_splits)

lemma scan_string_less: "scan_string decode s = Inr (k, r) \<Longrightarrow> length r < length s"
  by (cases s) (auto dest: scan_string_body_less)

lemma scalar_less: "scalar_byte c \<Longrightarrow> length (dropWhile scalar_byte (c # r)) < Suc (length r)"
  by (simp add: length_dropWhile_le le_imp_less_Suc)

lemma scan_less_dom:
  "scan_value_scan_object_scan_array_dom (Inl (decode, s)) \<Longrightarrow> scan_value decode s = Inr r \<Longrightarrow> length r < length s"
  "scan_value_scan_object_scan_array_dom (Inr (Inl (decode, keys, s))) \<Longrightarrow> scan_object decode keys s = Inr r
     \<Longrightarrow> length r < length s"
  "scan_value_scan_object_scan_array_dom (Inr (Inr (decode, s))) \<Longrightarrow> scan_array decode s = Inr r
     \<Longrightarrow> length r < length s"
proof (induction decode s and decode keys s and decode s arbitrary: r and r and r
    rule: scan_value_scan_object_scan_array.pinduct)
  case (1 decode s)
  show ?case
  proof (cases "scan_ws s")
    case (Cons c q)
    have less: "length q < length s" by (rule scan_ws_Cons [OF Cons])
    have object: "c = CHR ''{'' \<Longrightarrow> scan_object decode [] q = Inr r \<Longrightarrow> length r < length q"
      using "1.IH"(1) [OF Cons] by simp
    have array: "c = CHR ''['' \<Longrightarrow> scan_ws q = d # q' \<Longrightarrow> d \<noteq> CHR '']'' \<Longrightarrow> scan_array decode (d # q') = Inr r
        \<Longrightarrow> length r < length (d # q')" for d q'
      using "1.IH"(3) [OF Cons] by simp
    have empty: "c = CHR ''['' \<Longrightarrow> scan_ws q = [] \<Longrightarrow> scan_array decode [] = Inr r \<Longrightarrow> False"
      using "1.IH"(2) [OF Cons] by fastforce
    show ?thesis using "1.prems" "1.hyps" Cons less object array empty scalar_less [of c q]
        scan_string_body_less [of decode False "[c]" q]
      by (auto simp: scan_value.psimps result_simps dest!: scan_ws_Cons split: list.splits if_splits)
  qed (use 1 in \<open>simp add: scan_value.psimps\<close>)
next
  case (2 decode keys s)
  from "2.prems" "2.hyps" consider q where "scan_ws s = CHR ''}'' # q" "r = q"
    | q key r1 r2 r3 e r4 where "scan_ws s = CHR 0x22 # q" "scan_string decode (CHR 0x22 # q) = Inr (key, r1)"
      "key \<notin> set keys" "scan_ws r1 = CHR '':'' # r2" "scan_value decode r2 = Inr r3" "scan_ws r3 = e # r4"
      "e = CHR '','' \<and> scan_object decode (key # keys) r4 = Inr r \<or> r = r4"
    by (auto simp: scan_object.psimps split: list.splits if_splits sum.splits prod.splits)
  then show ?case
  proof cases
    case 2
    have "length r3 < length r2" using "2.IH"(1) [OF 2(1) _ _ 2(2) refl 2(3,4)] 2(5) by simp
    moreover have "length r \<le> length r4"
      using 2(7) "2.IH"(2) [OF 2(1) _ _ 2(2) refl 2(3,4) _ 2(5,6)] by fastforce
    moreover note scan_ws_Cons [OF 2(1)] scan_string_less [OF 2(2)] scan_ws_Cons [OF 2(4)] scan_ws_Cons [OF 2(6)]
    ultimately show ?thesis by simp
  qed (auto dest: scan_ws_Cons)
next
  case (3 decode s)
  from "3.prems" "3.hyps" obtain q e r' where "scan_value decode s = Inr q" "scan_ws q = e # r'"
      "e = CHR '','' \<and> scan_array decode r' = Inr r \<or> r = r'"
    by (auto simp: scan_array.psimps split: list.splits if_splits sum.splits)
  moreover from this "3.IH"(1) have "length q < length s" by simp
  moreover have "length r \<le> length r'" using calculation(1,2,3) "3.IH"(2) by fastforce
  ultimately show ?case by (auto dest!: scan_ws_Cons)
qed

termination scan_value
  by (relation "measure (\<lambda>x. case x of Inl (_, s) \<Rightarrow> 2 * length s | Inr (Inl (_, _, s)) \<Rightarrow> 2 * length s
      | Inr (Inr (_, s)) \<Rightarrow> 2 * length s + 1)")
    (auto dest!: scan_ws_Cons scan_string_body_less scan_less_dom(1))

declare scan_value.simps [simp del] scan_object.simps [simp del] scan_array.simps [simp del]

definition reject_duplicate_keys :: "(string \<Rightarrow> string option) \<Rightarrow> string \<Rightarrow> (unit, workflow_error) result" where
  "reject_duplicate_keys decode input =
     and_then (scan_value decode input) (\<lambda>r. ensure (scan_ws r = []) WfInvalidRequest)"

text \<open>
  \<open>canonical_value\<close> rebuilds every object by inserting its members into a new map, which is what
  \<^const>\<open>value_of\<close> does.
\<close>

definition canonical_value :: "json \<Rightarrow> json" where
  "canonical_value v = value_of v"

definition canonical_json :: "(string \<Rightarrow> json option) \<Rightarrow> (json \<Rightarrow> string) \<Rightarrow> (string \<Rightarrow> string option)
    \<Rightarrow> string \<Rightarrow> nat \<Rightarrow> (string, workflow_error) result" where
  "canonical_json parse print decode input max_bytes =
     (if length input > max_bytes \<or> length input > MAX_JSON_INPUT_BYTES then Inl WfLimitExceeded
      else and_then (ok_or (map_option value_of (parse input)) WfInvalidRequest) (\<lambda>value.
        and_then (reject_duplicate_keys decode input) (\<lambda>_.
          Inr (print (canonical_value value)))))"

section \<open>JSON text\<close>

text \<open>
  The grammar of RFC 8259 as far as the scanner depends on it: which texts a document has. White
  space may stand around every token, a number is any non-empty run of the bytes numbers are made
  of, and a string literal is whatever \<open>decode\<close> accepts between two quotes with no bare quote inside.
\<close>

definition json_ws :: "string \<Rightarrow> bool" where
  "json_ws w \<longleftrightarrow> set w \<subseteq> {CHR 0x20, CHR 0x09, CHR 0x0A, CHR 0x0D}"

definition number_text :: "string \<Rightarrow> bool" where
  "number_text t \<longleftrightarrow> t \<noteq> [] \<and> set t \<subseteq> set ''0123456789+-.eE''"

fun literal_body :: "string \<Rightarrow> bool" where
  "literal_body [] = True"
| "literal_body [b] = (b \<noteq> CHR 0x5C \<and> b \<noteq> CHR 0x22)"
| "literal_body (b # c # bs) =
     (if b = CHR 0x5C then literal_body bs else b \<noteq> CHR 0x22 \<and> literal_body (c # bs))"

definition literal :: "(string \<Rightarrow> string option) \<Rightarrow> string \<Rightarrow> string \<Rightarrow> bool" where
  "literal decode k t \<longleftrightarrow> decode t = Some k \<and> (\<exists>b. t = CHR 0x22 # b @ [CHR 0x22] \<and> literal_body b)"

inductive json_text :: "(string \<Rightarrow> string option) \<Rightarrow> json \<Rightarrow> string \<Rightarrow> bool"
  and elements_text :: "(string \<Rightarrow> string option) \<Rightarrow> json list \<Rightarrow> string \<Rightarrow> bool"
  and members_text :: "(string \<Rightarrow> string option) \<Rightarrow> (string \<times> json) list \<Rightarrow> string \<Rightarrow> bool"
  for decode :: "string \<Rightarrow> string option"
where
  null: "json_text decode JNull ''null''"
| true: "json_text decode (JBool True) ''true''"
| false: "json_text decode (JBool False) ''false''"
| number: "number_text t \<Longrightarrow> json_text decode (JNumber n) t"
| str: "literal decode k t \<Longrightarrow> json_text decode (JString k) t"
| no_elements: "json_ws w \<Longrightarrow> json_text decode (JArray []) (CHR ''['' # w @ [CHR '']''])"
| array: "elements_text decode vs t \<Longrightarrow> json_text decode (JArray vs) (CHR ''['' # t @ [CHR '']''])"
| no_members: "json_ws w \<Longrightarrow> json_text decode (JObject []) (CHR ''{'' # w @ [CHR ''}''])"
| object: "members_text decode es t \<Longrightarrow> json_text decode (JObject es) (CHR ''{'' # t @ [CHR ''}''])"
| element: "json_text decode v t \<Longrightarrow> json_ws w \<Longrightarrow> json_ws w' \<Longrightarrow> elements_text decode [v] (w @ t @ w')"
| elements: "json_text decode v t \<Longrightarrow> json_ws w \<Longrightarrow> json_ws w' \<Longrightarrow> elements_text decode vs u
     \<Longrightarrow> elements_text decode (v # vs) (w @ t @ w' @ CHR '','' # u)"
| member: "literal decode k l \<Longrightarrow> json_text decode v t \<Longrightarrow> json_ws w \<Longrightarrow> json_ws x \<Longrightarrow> json_ws y \<Longrightarrow> json_ws z
     \<Longrightarrow> members_text decode [(k, v)] (w @ l @ x @ CHR '':'' # y @ t @ z)"
| members: "literal decode k l \<Longrightarrow> json_text decode v t \<Longrightarrow> json_ws w \<Longrightarrow> json_ws x \<Longrightarrow> json_ws y \<Longrightarrow> json_ws z
     \<Longrightarrow> members_text decode es u
     \<Longrightarrow> members_text decode ((k, v) # es) (w @ l @ x @ CHR '':'' # y @ t @ z @ CHR '','' # u)"

definition document :: "(string \<Rightarrow> string option) \<Rightarrow> json \<Rightarrow> string \<Rightarrow> bool" where
  "document decode v s \<longleftrightarrow> (\<exists>w t w'. s = w @ t @ w' \<and> json_ws w \<and> json_text decode v t \<and> json_ws w')"

section \<open>The scanner accepts exactly the documents without a repeated key\<close>

lemma json_ws_Nil [simp]: "json_ws []"
  by (simp add: json_ws_def)

lemma scan_ws_skip: "json_ws w \<Longrightarrow> scan_ws (w @ s) = scan_ws s"
  unfolding scan_ws_def by (rule dropWhile_append2) (auto simp: json_ws_def is_ascii_whitespace_def)

lemma scan_ws_stop [simp]: "\<not> is_ascii_whitespace c \<Longrightarrow> scan_ws (c # s) = c # s"
  by (simp add: scan_ws_def)

lemma punctuation [simp]:
  "\<not> is_ascii_whitespace (CHR 0x22)" "\<not> is_ascii_whitespace (CHR ''{'')" "\<not> is_ascii_whitespace (CHR ''}'')"
  "\<not> is_ascii_whitespace (CHR ''['')" "\<not> is_ascii_whitespace (CHR '']'')" "\<not> is_ascii_whitespace (CHR '','')"
  "\<not> is_ascii_whitespace (CHR '':'')"
  by (simp_all add: is_ascii_whitespace_def)

lemma scan_string_body_literal:
  "literal_body b \<Longrightarrow> scan_string_body decode False seen (b @ CHR 0x22 # r)
     = and_then (ok_or (decode (seen @ b @ [CHR 0x22])) WfInvalidRequest) (\<lambda>k. Inr (k, r))"
  by (induction b arbitrary: seen rule: literal_body.induct) auto

lemma scan_string_literal:
  "literal decode k l \<Longrightarrow> scan_string decode (l @ r) = Inr (k, r)"
  by (auto simp: literal_def scan_string_body_literal)

lemma literal_Cons: "literal decode k l \<Longrightarrow> \<exists>b. l = CHR 0x22 # b"
  by (auto simp: literal_def)

text \<open>What may follow a scalar: the end of the input, a separator or white space.\<close>

definition delimited :: "string \<Rightarrow> bool" where
  "delimited r \<longleftrightarrow> r = [] \<or> \<not> scalar_byte (hd r)"

lemma delimited_simps [simp]:
  "delimited []" "delimited (CHR '','' # r)" "delimited (CHR '']'' # r)" "delimited (CHR ''}'' # r)"
  by (simp_all add: delimited_def scalar_byte_def)

lemma delimited_ws: "json_ws w \<Longrightarrow> delimited r \<Longrightarrow> delimited (w @ r)"
  by (cases w) (auto simp: delimited_def json_ws_def scalar_byte_def is_ascii_whitespace_def)

lemma scan_scalar:
  assumes "t \<noteq> []" and "set t \<subseteq> Collect scalar_byte" and "hd t \<notin> {CHR 0x22, CHR ''{'', CHR ''[''}"
    and "delimited r"
  shows "scan_value decode (t @ r) = Inr r"
proof -
  obtain c u where t: "t = c # u" using assms(1) by (cases t) auto
  have "dropWhile scalar_byte (t @ r) = dropWhile scalar_byte r"
    by (rule dropWhile_append2) (use assms(2) in auto)
  also have "\<dots> = r" using assms(4) by (cases r) (auto simp: delimited_def)
  finally have "dropWhile scalar_byte (c # u @ r) = r" by (simp add: t)
  moreover have "scalar_byte c" using assms(2) t by auto
  ultimately show ?thesis using assms(3) t by (simp add: scan_value.simps scalar_byte_def)
qed

lemma scan_value_skip: "json_ws w \<Longrightarrow> scan_value decode (w @ s) = scan_value decode s"
  by (simp add: scan_value.simps [of _ s] scan_value.simps [of _ "w @ s"] scan_ws_skip)

lemma scan_ws_idem [simp]: "scan_ws (scan_ws s) = scan_ws s"
  by (simp add: scan_ws_def dropWhile_idem)

lemma scan_value_ws: "scan_value decode (scan_ws s) = scan_value decode s"
  by (simp add: scan_value.simps [of _ s] scan_value.simps [of _ "scan_ws s"])

lemma scan_array_ws: "scan_array decode (scan_ws s) = scan_array decode s"
  by (simp add: scan_array.simps [of _ s] scan_array.simps [of _ "scan_ws s"] scan_value_ws)

lemma scan_value_literal: "literal decode k l \<Longrightarrow> scan_value decode (l @ r) = Inr r"
  using scan_string_literal [of decode k l r] literal_Cons [of decode k l]
  by (auto simp: scan_value.simps)

lemma scan_value_object: "scan_value decode (CHR ''{'' # s) = scan_object decode [] s"
  by (simp add: scan_value.simps)

lemma scan_value_array:
  assumes "scan_ws s = c # q" and "c \<noteq> CHR '']''"
  shows "scan_value decode (CHR ''['' # s) = scan_array decode s"
  using assms scan_array_ws [of decode s] by (simp add: scan_value.simps [of _ "_ # s"])

lemma scan_value_empty_array: "json_ws w \<Longrightarrow> scan_value decode (CHR ''['' # w @ CHR '']'' # r) = Inr r"
  by (simp add: scan_value.simps scan_ws_skip)

lemma scan_object_empty: "json_ws w \<Longrightarrow> scan_object decode keys (w @ CHR ''}'' # r) = Inr r"
  by (simp add: scan_object.simps scan_ws_skip)

lemma scan_object_member:
  assumes "literal decode k l" and "json_ws w" and "json_ws x"
  shows "scan_object decode keys (w @ l @ x @ CHR '':'' # s) =
    (if k \<in> set keys then Inl WfInvalidRequest
     else and_then (scan_value decode s) (\<lambda>r.
       case scan_ws r of
         [] \<Rightarrow> Inl WfInvalidRequest
       | e # q \<Rightarrow> if e = CHR '','' then scan_object decode (k # keys) q
                  else if e = CHR ''}'' then Inr q else Inl WfInvalidRequest))"
proof -
  obtain b where b: "l = CHR 0x22 # b" using literal_Cons [OF assms(1)] by blast
  have "scan_string decode (CHR 0x22 # b @ x @ CHR '':'' # s) = Inr (k, x @ CHR '':'' # s)"
    using scan_string_literal [OF assms(1), of "x @ CHR '':'' # s"] by (simp add: b)
  then show ?thesis using assms(2,3)
    by (cases "scan_value decode s") (simp_all add: scan_object.simps [of _ _ "w @ _"] b scan_ws_skip)
qed

lemma json_text_Cons: "json_text decode v t \<Longrightarrow> \<exists>c u. t = c # u \<and> c \<noteq> CHR '']'' \<and> \<not> is_ascii_whitespace c"
  by (cases rule: json_text.cases)
    (auto simp: literal_def number_text_def is_ascii_whitespace_def neq_Nil_conv)

lemma scan_number: "number_text t \<Longrightarrow> delimited r \<Longrightarrow> scan_value decode (t @ r) = Inr r"
  by (rule scan_scalar) (auto simp: number_text_def scalar_byte_def is_ascii_whitespace_def neq_Nil_conv)

lemma scan_keyword:
  assumes "delimited r"
  shows "scan_value decode (''null'' @ r) = Inr r" "scan_value decode (''true'' @ r) = Inr r"
    "scan_value decode (''false'' @ r) = Inr r"
  by (rule scan_scalar [OF _ _ _ assms]; simp add: scalar_byte_def is_ascii_whitespace_def)+

lemma elements_text_Cons: "elements_text decode vs t \<Longrightarrow> \<exists>c q. scan_ws (t @ r) = c # q \<and> c \<noteq> CHR '']''"
  by (cases rule: elements_text.cases) (auto simp: scan_ws_skip dest!: json_text_Cons)

lemma scan_text:
  "json_text decode v t \<Longrightarrow> (\<And>r. delimited r \<Longrightarrow>
     scan_value decode (t @ r) = (if distinct_keys v then Inr r else Inl WfInvalidRequest))"
  "elements_text decode vs t \<Longrightarrow> (\<And>r. scan_array decode (t @ CHR '']'' # r) =
     (if \<forall>v\<in>set vs. distinct_keys v then Inr r else Inl WfInvalidRequest))"
  "members_text decode es t \<Longrightarrow> (\<And>keys r. scan_object decode keys (t @ CHR ''}'' # r) =
     (if distinct (map fst es) \<and> set keys \<inter> fst ` set es = {} \<and> (\<forall>e\<in>set es. distinct_keys (snd e))
      then Inr r else Inl WfInvalidRequest))"
proof (induction rule: json_text_elements_text_members_text.inducts)
  case (number t n)
  then show ?case by (simp add: scan_number)
next
  case (str k t)
  then show ?case by (simp add: scan_value_literal)
next
  case (no_elements w)
  then show ?case by (simp add: scan_value_empty_array)
next
  case (array vs t)
  from elements_text_Cons [OF array(1), of "CHR '']'' # r"] array(2) show ?case
    by (auto simp: scan_value_array)
next
  case (no_members w)
  then show ?case by (simp add: scan_value_object scan_object_empty)
next
  case (object es t)
  then show ?case by (simp add: scan_value_object)
next
  case (element v t w w')
  then show ?case by (simp add: scan_array.simps [of _ "w @ _"] scan_value_skip delimited_ws scan_ws_skip)
next
  case (elements v t w w' vs u)
  then show ?case by (simp add: scan_array.simps [of _ "w @ _"] scan_value_skip delimited_ws scan_ws_skip)
next
  case (member k l v t w x y z)
  then show ?case by (simp add: scan_object_member scan_value_skip delimited_ws scan_ws_skip)
next
  case (members k l v t w x y z es u)
  then show ?case by (auto simp: scan_object_member scan_value_skip delimited_ws scan_ws_skip)
qed (simp_all only: scan_keyword distinct_keys.simps if_True)

lemma document_scan:
  assumes "document decode v s"
  shows "reject_duplicate_keys decode s = (if distinct_keys v then Inr () else Inl WfInvalidRequest)"
proof -
  obtain w t w' where s: "s = w @ t @ w'" and ws: "json_ws w" "json_ws w'" and t: "json_text decode v t"
    using assms by (auto simp: document_def)
  have "delimited w'" using delimited_ws [OF ws(2), of "[]"] by simp
  from scan_text(1) [OF t this] ws scan_ws_skip [OF ws(2), of "[]"] show ?thesis
    by (simp add: reject_duplicate_keys_def s scan_value_skip scan_ws_def)
qed

section \<open>Property\<close>

text \<open>C25: Workflow input is canonical. For a text of a JSON document within the input limit, the
  scanner accepts the text exactly if no object of the document, at any depth, repeats a key, and
  then the canonical text is that of the normalized document; a repeated key is refused as an
  invalid request. Reordering the members of any object leaves the canonical text unchanged.\<close>

theorem canonical_json_decides:
  assumes "parse a = Some v" and "document decode v a" and "length a \<le> max_bytes" and "length a \<le> 65536"
    and "parse b = Some w" and "document decode w b" and "length b \<le> max_bytes" and "length b \<le> 65536"
    and "reordered v w"
  shows "canonical_json parse print decode a max_bytes =
      (if distinct_keys v then Inr (print (value_of v)) else Inl WfInvalidRequest)
    \<and> (distinct_keys v \<longrightarrow>
      canonical_json parse print decode b max_bytes = canonical_json parse print decode a max_bytes)"
proof -
  have "value_of (value_of x) = value_of x" for x by (simp add: value_of_normal normal_value_of)
  then have "canonical_json parse print decode s max_bytes =
      (if distinct_keys x then Inr (print (value_of x)) else Inl WfInvalidRequest)"
    if "parse s = Some x" "document decode x s" "length s \<le> max_bytes" "length s \<le> 65536" for s x
    using that document_scan [OF that(2)]
    by (simp add: canonical_json_def canonical_value_def MAX_JSON_INPUT_BYTES_def)
  from this [OF assms(1-4)] this [OF assms(5-8)] value_of_reordered [OF assms(9)] show ?thesis by simp
qed

definition demo_decode :: "string \<Rightarrow> string option" where
  "demo_decode t = (if t = [CHR 0x22, CHR ''a'', CHR 0x22] then Some ''a''
     else if t = [CHR 0x22, CHR ''b'', CHR 0x22] then Some ''b'' else None)"

definition demo_ab :: string where
  "demo_ab = ''{'' @ [CHR 0x22] @ ''a'' @ [CHR 0x22] @ '':1,'' @ [CHR 0x22] @ ''b'' @ [CHR 0x22] @ '':null}''"

definition demo_ba :: string where
  "demo_ba = ''{'' @ [CHR 0x22] @ ''b'' @ [CHR 0x22] @ '':null, '' @ [CHR 0x22] @ ''a'' @ [CHR 0x22] @ '':1}''"

definition demo_docs :: "string \<Rightarrow> json option" where
  "demo_docs s = (if s = demo_ab then Some (JObject [(''a'', JNumber ''1''), (''b'', JNull)])
     else if s = demo_ba then Some (JObject [(''b'', JNull), (''a'', JNumber ''1'')]) else None)"

lemma demo_texts:
  "document demo_decode (JObject [(''a'', JNumber ''1''), (''b'', JNull)]) demo_ab"
  "document demo_decode (JObject [(''b'', JNull), (''a'', JNumber ''1'')]) demo_ba"
proof -
  have lits: "literal demo_decode ''a'' [CHR 0x22, CHR ''a'', CHR 0x22]"
    "literal demo_decode ''b'' [CHR 0x22, CHR ''b'', CHR 0x22]"
    by (auto simp: literal_def demo_decode_def intro!: exI [of _ "[_]"])
  have one: "json_text demo_decode (JNumber ''1'') ''1''" by (rule json_text_elements_text_members_text.intros) (simp add: number_text_def)
  have "members_text demo_decode [(''a'', JNumber ''1''), (''b'', JNull)]
      ([] @ [CHR 0x22, CHR ''a'', CHR 0x22] @ [] @ CHR '':'' # [] @ ''1'' @ [] @ CHR '','' #
        ([] @ [CHR 0x22, CHR ''b'', CHR 0x22] @ [] @ CHR '':'' # [] @ ''null'' @ []))"
    by (intro members member lits one null json_ws_Nil)
  from object [OF this] show "document demo_decode (JObject [(''a'', JNumber ''1''), (''b'', JNull)]) demo_ab"
    unfolding document_def by (intro exI [of _ "[]"] exI [of _ demo_ab]) (simp add: demo_ab_def)
  have "members_text demo_decode [(''b'', JNull), (''a'', JNumber ''1'')]
      ([] @ [CHR 0x22, CHR ''b'', CHR 0x22] @ [] @ CHR '':'' # [] @ ''null'' @ [] @ CHR '','' #
        ('' '' @ [CHR 0x22, CHR ''a'', CHR 0x22] @ [] @ CHR '':'' # [] @ ''1'' @ []))"
    by (intro members member lits one null json_ws_Nil) (simp add: json_ws_def)
  from object [OF this] show "document demo_decode (JObject [(''b'', JNull), (''a'', JNumber ''1'')]) demo_ba"
    unfolding document_def by (intro exI [of _ "[]"] exI [of _ demo_ba]) (simp add: demo_ba_def)
qed

theorem canonical_json_decides_witness:
  "canonical_json demo_docs demo_print demo_decode demo_ba 100 = Inr ''ab''
   \<and> canonical_json demo_docs demo_print demo_decode demo_ab 100 = Inr ''ab''"
proof -
  have docs: "demo_docs demo_ab = Some (JObject [(''a'', JNumber ''1''), (''b'', JNull)])"
    "demo_docs demo_ba = Some (JObject [(''b'', JNull), (''a'', JNumber ''1'')])"
    by (simp_all add: demo_docs_def demo_ab_def demo_ba_def)
  have sizes: "length demo_ab \<le> 100" "length demo_ba \<le> 100" by (simp_all add: demo_ab_def demo_ba_def)
  have "reordered (JObject [(''a'', JNumber ''1''), (''b'', JNull)]) (JObject [(''b'', JNull), (''a'', JNumber ''1'')])"
    by (rule reordered.object [where fs = "[(''a'', JNumber ''1''), (''b'', JNull)]"]) (auto intro: reordered.same)
  from canonical_json_decides [OF docs(1) demo_texts(1) sizes(1) _ docs(2) demo_texts(2) sizes(2) _ this, of demo_print]
    sizes show ?thesis by simp
qed

end
