(* ===== verification/Workflow_Proofs.thy ===== *)
theory Workflow_Proofs
  imports Workflow
begin

text \<open>
  The invariant of the workflow store and its refinement of a two-map specification: what a
  valid transition does to a run, the shape every stored run keeps, the agreement of the three
  maps of the store, and the interpretation of the shared contracts.
\<close>

named_theorems workflow_simps \<open>unfolding rules for the workflow limits\<close>

lemmas workflow_limits [workflow_simps] = MAX_JSON_INPUT_BYTES_def MAX_RUN_KEY_BYTES_def
  MAX_EVIDENCE_BYTES_def MAX_EVIDENCE_CHUNK_BYTES_def MAX_EVENTS_def MIN_TERMINAL_EVIDENCE_BYTES_def

section \<open>Evidence and sequence numbers\<close>

definition text_size :: "(string \<times> string) list \<Rightarrow> nat" where
  "text_size xs = sum_list (map (\<lambda>(k, d). length k + length d) xs)"

lemma text_size_simps [simp]:
  "text_size [] = 0" "text_size ((k, d) # xs) = length k + length d + text_size xs"
  "text_size (xs @ ys) = text_size xs + text_size ys"
  by (simp_all add: text_size_def)

lemma evidence_fold:
  "try_fold (\<lambda>acc (kind, data). ok_or (Option.bind (usize_checked_add acc (length kind))
      (\<lambda>value. usize_checked_add value (length data))) WfLimitExceeded) acc xs =
   (if xs = [] \<or> acc + text_size xs \<le> usize_max then Inr (acc + text_size xs) else Inl WfLimitExceeded)"
proof (induction xs arbitrary: acc)
  case (Cons x xs)
  then show ?case by (cases x; cases xs) (auto simp: usize_checked_add_def)
qed simp

lemma evidence_bytes_eq:
  "evidence_bytes xs = (if text_size xs \<le> usize_max then Inr (text_size xs) else Inl WfLimitExceeded)"
  unfolding evidence_bytes_def by (subst evidence_fold) (cases xs, auto)

definition events_size :: "workflow_event list \<Rightarrow> nat" where
  "events_size es = text_size (map event_text es)"

lemma events_size_simps [simp]:
  "events_size [] = 0"
  "events_size (e # es) = length (ev_kind e) + length (ev_data e) + events_size es"
  "events_size (es @ fs) = events_size es + events_size fs"
  by (simp_all add: events_size_def event_text_def)

lemma sequence_valid_append [simp]:
  "sequence_valid q (es @ fs) \<longleftrightarrow> sequence_valid q es \<and> sequence_valid (q + of_nat (length es)) fs"
  by (induction es arbitrary: q) (auto simp: add.assoc add.commute)

lemma sequence_valid_last:
  "sequence_valid q es \<Longrightarrow> es \<noteq> [] \<Longrightarrow> ev_sequence (last es) + 1 = q + of_nat (length es)"
proof (induction es arbitrary: q)
  case (Cons e es)
  show ?case
  proof (cases "es = []")
    case False
    with Cons.prems Cons.IH [of "q + 1"] have "ev_sequence (last es) + 1 = q + 1 + of_nat (length es)" by simp
    with False show ?thesis by (simp add: add.commute add.left_commute)
  qed (use Cons.prems in simp)
qed simp

lemma sequence_valid_nth:
  "sequence_valid q es \<Longrightarrow> i < length es \<Longrightarrow> ev_sequence (es ! i) = q + of_nat i \<and> ev_kind (es ! i) \<noteq> []"
proof (induction es arbitrary: q i)
  case (Cons e es)
  then show ?case by (cases i) (auto simp: add.assoc)
qed simp

text \<open>Numbered from one without a gap.\<close>

abbreviation sequenced :: "workflow_event list \<Rightarrow> bool" where
  "sequenced es \<equiv> sequence_valid 1 es"

lemma sequenced_append:
  assumes "sequenced es"
  shows "sequence_valid (if es = [] then 1 else ev_sequence (last es) + 1) fs \<longleftrightarrow> sequenced (es @ fs)"
  using assms by (simp add: sequence_valid_last)

section \<open>What a valid transition is\<close>

lemma attempt_valid_cases:
  assumes "attempt_valid expected status reason previous proposed"
  obtains (start) a where "expected = Pending" "status = Running" "reason = None" "previous = None"
      "proposed = Some a" "validate_invocation_policy (at_ceiling a) (at_policy_decision_digest a) = Inr ()"
      "at_status a = AttemptRunning" "at_capability_scope_digest a = None" "at_result a = None" "at_error a = None"
  | (succeed) p a where "expected = Running" "status = Succeeded" "reason = Some Completed" "previous = Some p"
      "proposed = Some a" "same_attempt p a" "at_status a = AttemptSucceeded" "at_result a \<noteq> None"
      "at_error a = None"
  | (fail) p a where "expected = Running" "status = Failed" "reason = Some InvocationFailed" "previous = Some p"
      "proposed = Some a" "same_attempt p a" "at_status a = AttemptFailed" "at_result a = None"
      "at_error a \<noteq> None"
  | (cancel) p a where "expected = Running" "status = RunCancelled" "reason = Some ReasonCancelled"
      "previous = Some p" "proposed = Some a" "same_attempt p a" "at_status a = AttemptCancelled"
      "at_result a = None"
  using assms
  by (cases expected; cases status;
      simp add: attempt_valid_def result_simps split: option.splits terminal_reason.splits;
      cases previous; cases proposed; simp)

lemma attempt_valid_terminal [simp]: "is_terminal expected \<Longrightarrow> \<not> attempt_valid expected s r p n"
  by (auto simp: is_terminal_def elim: attempt_valid_cases)

lemma transition_is_valid_iff:
  "transition_is_valid r expected t \<longleftrightarrow>
     wr_status r = expected \<and> tr_events t \<noteq> []
     \<and> length (wr_events r) + length (tr_events t) \<le> 64
     \<and> events_size (wr_events r @ tr_events t) \<le> min usize_max (wr_max_evidence_bytes r)
     \<and> sequence_valid (if wr_events r = [] then 1 else ev_sequence (last (wr_events r)) + 1) (tr_events t)
     \<and> attempt_valid expected (tr_status t) (tr_terminal_reason t) (wr_attempt r) (tr_attempt t)"
  by (auto simp: transition_is_valid_def evidence_bytes_eq usize_checked_add_def usize_max_def MAX_EVENTS_def
      events_size_def split: if_splits)

section \<open>The shape of a stored run\<close>

definition attempt_fits :: "run_status \<Rightarrow> attempt \<Rightarrow> bool" where
  "attempt_fits s a \<longleftrightarrow>
     validate_invocation_policy (at_ceiling a) (at_policy_decision_digest a) = Inr ()
     \<and> (case s of
          Pending \<Rightarrow> False
        | Running \<Rightarrow> at_status a = AttemptRunning \<and> at_capability_scope_digest a = None
                     \<and> at_result a = None \<and> at_error a = None
        | Succeeded \<Rightarrow> at_status a = AttemptSucceeded \<and> at_result a \<noteq> None \<and> at_error a = None
        | Failed \<Rightarrow> at_status a = AttemptFailed \<and> at_result a = None \<and> at_error a \<noteq> None
        | RunCancelled \<Rightarrow> at_status a = AttemptCancelled \<and> at_result a = None)"

fun status_revision :: "run_status \<Rightarrow> u64" where
  "status_revision Pending = 0"
| "status_revision Running = 1"
| "status_revision _ = 2"

fun status_reason :: "run_status \<Rightarrow> terminal_reason option" where
  "status_reason Succeeded = Some Completed"
| "status_reason Failed = Some InvocationFailed"
| "status_reason RunCancelled = Some ReasonCancelled"
| "status_reason _ = None"

definition run_ok :: "workflow_run \<Rightarrow> bool" where
  "run_ok r \<longleftrightarrow>
     wr_revision r = status_revision (wr_status r)
     \<and> wr_terminal_reason r = status_reason (wr_status r)
     \<and> (case wr_attempt r of
          None \<Rightarrow> wr_status r = Pending \<and> wr_events r = []
        | Some a \<Rightarrow> attempt_fits (wr_status r) a \<and> wr_events r \<noteq> [])
     \<and> sequenced (wr_events r) \<and> length (wr_events r) \<le> 64
     \<and> events_size (wr_events r) \<le> wr_max_evidence_bytes r
     \<and> 0 < wr_max_evidence_bytes r \<and> wr_max_evidence_bytes r \<le> 65536"

lemma fresh_run_ok: "fresh_run identity r \<Longrightarrow> run_ok r"
  by (simp add: fresh_run_def run_ok_def MAX_EVIDENCE_BYTES_def)

lemma apply_attempt_ok:
  assumes "attempt_valid (wr_status r) (tr_status t) (tr_terminal_reason t) (wr_attempt r) (tr_attempt t)"
    and "run_ok r"
  shows "wr_revision r + 1 = status_revision (tr_status t) \<and> tr_terminal_reason t = status_reason (tr_status t)
    \<and> (\<exists>a. tr_attempt t = Some a \<and> attempt_fits (tr_status t) a)"
  using assms(1)
proof (cases rule: attempt_valid_cases)
  case (start a)
  then show ?thesis using assms(2) by (auto simp: run_ok_def attempt_fits_def)
qed (use assms(2) in \<open>auto simp: run_ok_def attempt_fits_def same_attempt_def\<close>)

lemma apply_transition_ok:
  assumes "run_ok r" and "transition_is_valid r expected t"
  shows "run_ok (apply_transition r t)"
proof -
  have valid: "wr_status r = expected" "tr_events t \<noteq> []"
    "length (wr_events r @ tr_events t) \<le> 64"
    "events_size (wr_events r @ tr_events t) \<le> wr_max_evidence_bytes r"
    "sequence_valid (if wr_events r = [] then 1 else ev_sequence (last (wr_events r)) + 1) (tr_events t)"
    "attempt_valid (wr_status r) (tr_status t) (tr_terminal_reason t) (wr_attempt r) (tr_attempt t)"
    using assms(2) by (auto simp: transition_is_valid_iff)
  have seq: "sequenced (wr_events r)" using assms(1) by (simp add: run_ok_def)
  then have "sequenced (wr_events r @ tr_events t)"
    using valid(5) by (simp only: sequenced_append [OF seq])
  with valid apply_attempt_ok [OF valid(6) assms(1)] assms(1) show ?thesis
    by (auto simp: run_ok_def apply_transition_def)
qed

lemma apply_transition_sel [simp]:
  "wr_id (apply_transition r t) = wr_id r" "wr_context (apply_transition r t) = wr_context r"
  "wr_status (apply_transition r t) = tr_status t" "wr_events (apply_transition r t) = wr_events r @ tr_events t"
  "wr_revision (apply_transition r t) = wr_revision r + 1" "wr_attempt (apply_transition r t) = tr_attempt t"
  "wr_max_evidence_bytes (apply_transition r t) = wr_max_evidence_bytes r"
  by (simp_all add: apply_transition_def)

section \<open>The agreement of the store's maps\<close>

definition maps_agree :: "(string \<rightharpoonup> workflow_run) \<Rightarrow> (start_identity \<rightharpoonup> string)
    \<Rightarrow> (start_key \<rightharpoonup> start_identity) \<Rightarrow> bool" where
  "maps_agree runs ids keys \<longleftrightarrow>
     (\<forall>i rid. ids i = Some rid \<longrightarrow> rid \<in> dom runs \<and> keys (si_key i) = Some i)
     \<and> (\<forall>k i. keys k = Some i \<longrightarrow> si_key i = k \<and> i \<in> dom ids) \<and> dom runs \<subseteq> ran ids"

lemma maps_agree_start:
  assumes "maps_agree runs ids keys" and "keys (si_key i) = None"
  shows "maps_agree (runs(rid \<mapsto> r)) (ids(i \<mapsto> rid)) (keys(si_key i \<mapsto> i))"
proof -
  have fresh: "ids j = None" if "si_key j = si_key i" for j
    using assms that by (cases "ids j") (force simp: maps_agree_def)+
  then have "ran (ids(i \<mapsto> rid)) = insert rid (ran ids)" by (simp add: ran_map_upd)
  moreover have "j \<noteq> i \<Longrightarrow> ids j = Some x \<Longrightarrow> si_key j \<noteq> si_key i" for j x using fresh [of j] by auto
  ultimately show ?thesis using assms by (auto simp: maps_agree_def)
qed

lemma maps_agree_update: "maps_agree runs ids keys \<Longrightarrow> runs rid = Some r \<Longrightarrow> maps_agree (runs(rid \<mapsto> r')) ids keys"
  by (auto simp: maps_agree_def dom_def)

definition state_inv :: "workflow_state \<Rightarrow> bool" where
  "state_inv st \<longleftrightarrow> bt_ok (ws_runs st)
     \<and> (\<forall>rid r. bt_get (ws_runs st) rid = Some r \<longrightarrow> wr_id r = rid \<and> run_ok r)
     \<and> maps_agree (bt_get (ws_runs st)) (bt_get (ws_identities st)) (bt_get (ws_keys st))"

lemma state_inv_default [simp]: "state_inv workflow_state_default"
  by (simp add: state_inv_def workflow_state_default_def maps_agree_def)

lemma bt_contains_get: "bt_contains_key m k \<longleftrightarrow> bt_get m k \<noteq> None"
  by (simp add: bt_contains_key_def)

lemma create_state_inv:
  assumes "state_inv st"
  shows "state_inv (snd (create_state st identity r))"
proof (cases "bt_get (ws_identities st) identity = None \<and> bt_get (ws_keys st) (si_key identity) = None
    \<and> fresh_run identity r")
  case True
  with assms maps_agree_start [of "bt_get (ws_runs st)" _ "bt_get (ws_keys st)" identity] show ?thesis
    by (auto simp: create_state_def bt_contains_get state_inv_def fresh_run_ok)
next
  case False
  then have "snd (create_state st identity r) = st"
    by (auto simp: create_state_def bt_contains_get split: option.splits)
  with assms show ?thesis by simp
qed

lemma transition_state_inv:
  assumes "state_inv st"
  shows "state_inv (snd (transition_state st tenant rid revision status t))"
  using assms
  by (auto simp: transition_state_def state_inv_def apply_transition_ok maps_agree_update
      split: option.splits)

section \<open>Histories of store operations\<close>

datatype workflow_op =
    OpCreate start_identity workflow_run
  | OpGet string string
  | OpList string
  | OpTransition string string u64 run_status transition

datatype workflow_out =
    OutCreate "(create_run, workflow_error) result"
  | OutGet "(workflow_run option, workflow_error) result"
  | OutList "(workflow_run list, workflow_error) result"
  | OutTransition "(transition_result, workflow_error) result"

fun workflow_step :: "in_memory_workflow_store \<Rightarrow> workflow_op \<Rightarrow> workflow_out \<times> in_memory_workflow_store" where
  "workflow_step s (OpCreate i r) = map_prod OutCreate (\<lambda>x. x) (create_or_return s i r)"
| "workflow_step s (OpGet t rid) = (OutGet (store_get s t rid), s)"
| "workflow_step s (OpList t) = (OutList (store_list s t), s)"
| "workflow_step s (OpTransition t rid revision status tr) =
     map_prod OutTransition (\<lambda>x. x) (store_transition s t rid revision status tr)"

text \<open>
  The specification: a map from identifiers to runs and a map from start keys to the digest and
  the identifier the key was first used with.
\<close>

record spec_workflow =
  sw_runs :: "string \<rightharpoonup> workflow_run"
  sw_starts :: "start_key \<rightharpoonup> string \<times> string"

definition spec_empty :: spec_workflow where
  "spec_empty = \<lparr>sw_runs = Map.empty, sw_starts = Map.empty\<rparr>"

definition spec_visible :: "spec_workflow \<Rightarrow> string \<Rightarrow> string \<Rightarrow> workflow_run option" where
  "spec_visible s tenant rid =
     (case sw_runs s rid of
        None \<Rightarrow> None
      | Some r \<Rightarrow> if rc_tenant_id (wr_context r) = tenant then Some r else None)"

fun spec_workflow_step :: "spec_workflow \<Rightarrow> workflow_op \<Rightarrow> workflow_out \<times> spec_workflow" where
  "spec_workflow_step s (OpCreate i r) =
     (case sw_starts s (si_key i) of
        Some (digest, rid) \<Rightarrow>
          (OutCreate (Inr (if digest = si_input_digest i then Existing (the (sw_runs s rid)) else CreateConflict)), s)
      | None \<Rightarrow>
          if fresh_run i r
          then (OutCreate (Inr (Created r)),
                \<lparr>sw_runs = (sw_runs s)(wr_id r \<mapsto> r),
                 sw_starts = (sw_starts s)(si_key i \<mapsto> (si_input_digest i, wr_id r))\<rparr>)
          else (OutCreate (Inl WfInvalidRequest), s))"
| "spec_workflow_step s (OpGet t rid) = (OutGet (Inr (spec_visible s t rid)), s)"
| "spec_workflow_step s (OpList t) =
     (OutList (Inr (map (\<lambda>rid. the (sw_runs s rid))
        (sorted_list_of_set {rid. spec_visible s t rid \<noteq> None}))), s)"
| "spec_workflow_step s (OpTransition t rid revision status tr) =
     (case spec_visible s t rid of
        None \<Rightarrow> (OutTransition (Inr TransitionNotFound), s)
      | Some r \<Rightarrow>
          if wr_revision r = revision \<and> transition_is_valid r status tr
          then (OutTransition (Inr (Applied (apply_transition r tr))),
                s\<lparr>sw_runs := (sw_runs s)(rid \<mapsto> apply_transition r tr)\<rparr>)
          else (OutTransition (Inr TransitionConflict), s))"

definition workflow_abs :: "in_memory_workflow_store \<Rightarrow> spec_workflow" where
  "workflow_abs s = \<lparr>sw_runs = bt_get (ws_runs (guarded s)),
     sw_starts = (\<lambda>k. Option.bind (bt_get (ws_keys (guarded s)) k) (\<lambda>i.
       map_option (\<lambda>rid. (si_input_digest i, rid)) (bt_get (ws_identities (guarded s)) i)))\<rparr>"

definition workflow_inv :: "in_memory_workflow_store \<Rightarrow> bool" where
  "workflow_inv s \<longleftrightarrow> \<not> poisoned s \<and> state_inv (guarded s)"

lemma workflow_inv_new [simp]: "workflow_inv (mutex_new workflow_state_default)"
  by (simp add: workflow_inv_def)

lemma workflow_step_inv: "workflow_inv s \<Longrightarrow> workflow_inv (snd (workflow_step s op))"
  by (cases op) (auto simp: workflow_inv_def create_or_return_def store_transition_def create_state_inv
      transition_state_inv)

section \<open>Refinement\<close>

lemma abs_runs [simp]: "sw_runs (workflow_abs s) = bt_get (ws_runs (guarded s))"
  by (simp add: workflow_abs_def)

lemma abs_starts:
  assumes "state_inv (guarded s)"
  shows "sw_starts (workflow_abs s) k =
    (case bt_get (ws_keys (guarded s)) k of
       None \<Rightarrow> None | Some i \<Rightarrow> Some (si_input_digest i, the (bt_get (ws_identities (guarded s)) i)))"
  using assms by (force simp: workflow_abs_def state_inv_def maps_agree_def split: option.splits)

lemma bt_values_filter:
  assumes "bt_ok m"
  shows "filter P (bt_values m) = map (\<lambda>k. the (bt_get m k))
    (sorted_list_of_set {k. \<exists>v. bt_get m k = Some v \<and> P v})"
proof -
  let ?es = "filter (\<lambda>e. P (snd e)) m"
  have ok: "bt_ok ?es" using assms by simp
  have "set (map fst ?es) = {k. \<exists>v. bt_get m k = Some v \<and> P v}"
    using bt_get_iff [OF assms] by force
  moreover have "sorted_wrt (<) (map fst ?es)" using ok by (simp add: bt_ok_def)
  ultimately have "sorted_list_of_set {k. \<exists>v. bt_get m k = Some v \<and> P v} = map fst ?es"
    by (metis sorted_list_of_set.idem_if_sorted_distinct strict_sorted_iff)
  moreover have "map (\<lambda>k. the (bt_get m k)) (map fst ?es) = map snd ?es"
    using assms by (auto simp: bt_ok_distinct)
  ultimately show ?thesis by (simp add: bt_values_def filter_map comp_def)
qed

lemma spec_workflow_eq: "s = s' \<longleftrightarrow> sw_runs s = sw_runs s' \<and> sw_starts s = sw_starts (s' :: spec_workflow)"
  by (cases s; cases s') simp

lemma abs_created:
  assumes "state_inv (guarded s)" and "bt_get (ws_keys (guarded s)) (si_key i) = None"
  shows "sw_starts (workflow_abs (s\<lparr>guarded := \<lparr>ws_runs = bt_insert (wr_id r) r (ws_runs (guarded s)),
      ws_identities = bt_insert i (wr_id r) (ws_identities (guarded s)),
      ws_keys = bt_insert (si_key i) i (ws_keys (guarded s))\<rparr>\<rparr>))
    = (sw_starts (workflow_abs s))(si_key i \<mapsto> (si_input_digest i, wr_id r))"
proof (rule ext)
  fix k
  have "si_key j = k" if "bt_get (ws_keys (guarded s)) k = Some j" for j
    using assms(1) that by (auto simp: state_inv_def maps_agree_def)
  then show "sw_starts (workflow_abs (s\<lparr>guarded := \<lparr>ws_runs = bt_insert (wr_id r) r (ws_runs (guarded s)),
      ws_identities = bt_insert i (wr_id r) (ws_identities (guarded s)),
      ws_keys = bt_insert (si_key i) i (ws_keys (guarded s))\<rparr>\<rparr>)) k
    = ((sw_starts (workflow_abs s))(si_key i \<mapsto> (si_input_digest i, wr_id r))) k"
    by (cases "bt_get (ws_keys (guarded s)) k") (auto simp: workflow_abs_def)
qed

lemma step_refines_create:
  assumes "workflow_inv s"
  shows "spec_workflow_step (workflow_abs s) (OpCreate i r)
    = map_prod id workflow_abs (workflow_step s (OpCreate i r))"
proof -
  have inv: "state_inv (guarded s)" and free: "\<not> poisoned s" using assms by (auto simp: workflow_inv_def)
  have agree: "maps_agree (bt_get (ws_runs (guarded s))) (bt_get (ws_identities (guarded s)))
      (bt_get (ws_keys (guarded s)))" using inv by (simp add: state_inv_def)
  consider (known) rid where "bt_get (ws_identities (guarded s)) i = Some rid"
    | (taken) j where "bt_get (ws_identities (guarded s)) i = None" "bt_get (ws_keys (guarded s)) (si_key i) = Some j"
    | (free) "bt_get (ws_identities (guarded s)) i = None" "bt_get (ws_keys (guarded s)) (si_key i) = None"
    by fastforce
  then show ?thesis
  proof cases
    case known
    with agree obtain x where "bt_get (ws_keys (guarded s)) (si_key i) = Some i" "bt_get (ws_runs (guarded s)) rid = Some x"
      unfolding maps_agree_def by blast
    with known free show ?thesis by (simp add: abs_starts [OF inv] create_or_return_def create_state_def)
  next
    case taken
    with agree have "si_key j = si_key i" "j \<noteq> i" by (auto simp: maps_agree_def)
    then have "si_input_digest j \<noteq> si_input_digest i" by (metis start_identity.expand)
    with taken free show ?thesis
      by (simp add: abs_starts [OF inv] create_or_return_def create_state_def bt_contains_get)
  next
    case free
    with \<open>\<not> poisoned s\<close> show ?thesis
      by (simp add: abs_starts [OF inv] create_or_return_def create_state_def bt_contains_get
          spec_workflow_eq abs_created [OF inv])
  qed
qed

lemma step_refines_transition:
  assumes "workflow_inv s"
  shows "spec_workflow_step (workflow_abs s) (OpTransition t rid revision status tr)
    = map_prod id workflow_abs (workflow_step s (OpTransition t rid revision status tr))"
  using assms
  by (auto simp: workflow_inv_def spec_visible_def store_transition_def transition_state_def
      spec_workflow_eq workflow_abs_def split: option.splits)

lemma step_refines_list:
  assumes "workflow_inv s"
  shows "spec_workflow_step (workflow_abs s) (OpList t) = map_prod id workflow_abs (workflow_step s (OpList t))"
proof -
  have "bt_ok (ws_runs (guarded s))" using assms by (simp add: workflow_inv_def state_inv_def)
  from bt_values_filter [OF this, of "\<lambda>r. rc_tenant_id (wr_context r) = t"] assms show ?thesis
    by (auto simp: workflow_inv_def store_list_def lock_def spec_visible_def
        intro!: arg_cong [where f = "\<lambda>x. map _ (sorted_list_of_set x)"] split: option.splits)
qed

lemma step_refines_get:
  assumes "workflow_inv s"
  shows "spec_workflow_step (workflow_abs s) (OpGet t rid) = map_prod id workflow_abs (workflow_step s (OpGet t rid))"
  using assms by (simp add: workflow_inv_def store_get_def lock_def spec_visible_def)

interpretation wstore: refinement_machine workflow_step workflow_inv workflow_abs spec_workflow_step
proof unfold_locales
  show "workflow_inv s \<Longrightarrow> workflow_inv (snd (workflow_step s op))" for s op by (rule workflow_step_inv)
  show "workflow_inv s \<Longrightarrow> spec_workflow_step (workflow_abs s) op = map_prod id workflow_abs (workflow_step s op)"
    for s op
    by (cases op) (simp_all only: step_refines_create step_refines_get step_refines_list step_refines_transition)
qed

end
