(* ===== verification/Workflow_Runner.thy ===== *)
theory Workflow_Runner
  imports Workflow_Scan Workflow_Proofs
begin

text \<open>
  The workflow runner (\<open>WorkflowRunner\<close> of \<open>workflow/src/lib.rs\<close>) over the in-memory store:
  preparing a start, executing it around the awaited invocation, cancelling, reading. SHA-256,
  \<open>serde_json\<close>, the catalog and the agent check are fields of the environment; the invoker is an
  argument. The definitions here are the calls run without interruption, in the order of the code:
  \<open>execute_start\<close>, \<open>execute_setup\<close> and \<open>execute_finish\<close> are the parts of \<open>execute\<close> before the first
  transition, before the invocation and after it. The theory of stages cuts the same calls at every
  single access to shared state, shows that the stages in a row are these definitions, and
  interleaves them.

  A cancellation signal is identified by the token of its registration, which is unique to one
  execution. A result \<^const>\<open>None\<close> is the panic of \<open>expect\<close> in \<open>finish_failure\<close>.
\<close>

section \<open>Environment and identifiers\<close>

record workflow_env =
  env_sha256_hex :: "string \<Rightarrow> string"
  env_parse :: "string \<Rightarrow> json option"
  env_print :: "json \<Rightarrow> string"
  env_decode :: "string \<Rightarrow> string option"
  env_resolve :: "string \<Rightarrow> workflow_version \<Rightarrow> (workflow_definition_v1 option, workflow_error) result"
  env_validate_agent :: "string \<Rightarrow> (bool, workflow_error) result"

definition input_digest :: "workflow_env \<Rightarrow> string \<Rightarrow> string" where
  "input_digest env canonical_input = env_sha256_hex env canonical_input"

definition identity_material :: "start_identity \<Rightarrow> string" where
  "identity_material identity =
     sk_tenant_id (si_key identity) @ [CHR 0x00] @ sk_workflow_id (si_key identity) @ [CHR 0x00]
     @ version_as_str (sk_workflow_version (si_key identity)) @ [CHR 0x00] @ sk_run_key (si_key identity)
     @ [CHR 0x00] @ si_input_digest identity"

definition derived_id :: "workflow_env \<Rightarrow> string \<Rightarrow> string \<Rightarrow> (string, workflow_error) result" where
  "derived_id env prefix source = logical_id_new (prefix @ ''-'' @ take 32 (env_sha256_hex env source))"

section \<open>Runner state\<close>

record runner =
  rn_store :: in_memory_workflow_store
  rn_cancellations :: "(string, u64) btree_map mutex"
  rn_next_registration :: u64
  rn_signalled :: "u64 list"

definition runner_new :: "in_memory_workflow_store \<Rightarrow> runner" where
  "runner_new store = \<lparr>rn_store = store, rn_cancellations = mutex_new [], rn_next_registration = 1,
     rn_signalled = []\<rparr>"

definition register :: "runner \<Rightarrow> string \<Rightarrow> u64 \<Rightarrow> runner" where
  "register rn rid token = rn\<lparr>rn_cancellations := (rn_cancellations rn)\<lparr>guarded :=
     bt_insert rid token (guarded (rn_cancellations rn))\<rparr>\<rparr>"

definition drop_registration :: "runner \<Rightarrow> string \<Rightarrow> u64 \<Rightarrow> runner" where
  "drop_registration rn rid token =
     (if \<not> poisoned (rn_cancellations rn) \<and> bt_get (guarded (rn_cancellations rn)) rid = Some token
      then rn\<lparr>rn_cancellations := (rn_cancellations rn)\<lparr>guarded :=
             bt_remove rid (guarded (rn_cancellations rn))\<rparr>\<rparr>
      else rn)"

section \<open>Starting a run\<close>

definition runner_validate :: "workflow_env \<Rightarrow> workflow_definition_v1 \<Rightarrow> (unit, workflow_error) result" where
  "runner_validate env definition =
     and_then (validate_definition definition) (\<lambda>_.
     and_then (env_validate_agent env (wd_agent_id definition)) (\<lambda>known. ensure known WfNotFound))"

record prepared_start =
  ps_definition :: workflow_definition_v1
  ps_identity :: start_identity
  ps_run :: workflow_run
  ps_input :: string
  ps_policy :: invocation_policy

definition start_prepare :: "workflow_env \<Rightarrow> request_context \<Rightarrow> string \<Rightarrow> workflow_version \<Rightarrow> string \<Rightarrow> string
    \<Rightarrow> invocation_policy \<Rightarrow> (prepared_start, workflow_error) result" where
  "start_prepare env context workflow_id version run_key input policy =
     and_then (validate_invocation_policy (ip_ceiling policy) (ip_policy_decision_digest policy)) (\<lambda>_.
     if run_key = [] \<or> length run_key > MAX_RUN_KEY_BYTES then Inl WfInvalidRequest
     else and_then (env_resolve env workflow_id version) (\<lambda>found.
     and_then (ok_or found WfNotFound) (\<lambda>definition.
     and_then (runner_validate env definition) (\<lambda>_.
     and_then (canonical_json (env_parse env) (env_print env) (env_decode env) input
         (wb_max_input_bytes (wd_budget definition))) (\<lambda>canonical_input.
     let identity = StartIdentity (StartKey (rc_tenant_id context) workflow_id version run_key)
           (input_digest env canonical_input) in
     and_then (derived_id env ''run'' (identity_material identity)) (\<lambda>rid.
       Inr \<lparr>ps_definition = definition, ps_identity = identity,
         ps_run = \<lparr>wr_id = rid, wr_context = context, wr_workflow_id = workflow_id,
           wr_workflow_version = version, wr_run_key = run_key, wr_input_digest = si_input_digest identity,
           wr_max_evidence_bytes = wb_max_evidence_bytes (wd_budget definition), wr_status = Pending,
           wr_revision = 0, wr_terminal_reason = None, wr_attempt = None, wr_events = []\<rparr>,
         ps_input = canonical_input, ps_policy = policy\<rparr>))))))"

definition started_transition :: "string \<Rightarrow> workflow_definition_v1 \<Rightarrow> invocation_policy \<Rightarrow> transition" where
  "started_transition attempt_id definition policy =
     \<lparr>tr_status = Running, tr_terminal_reason = None,
      tr_attempt = Some \<lparr>at_id = attempt_id, at_agent_id = wd_agent_id definition,
        at_ceiling = ip_ceiling policy, at_policy_decision_digest = ip_policy_decision_digest policy,
        at_capability_scope_digest = None, at_status = AttemptRunning, at_result = None, at_error = None\<rparr>,
      tr_events = [\<lparr>ev_sequence = 1, ev_kind = ''started'', ev_data = []\<rparr>]\<rparr>"

definition execute_start :: "workflow_env \<Rightarrow> runner \<Rightarrow> prepared_start \<Rightarrow> workflow_run
    \<Rightarrow> (string \<times> workflow_run, workflow_error) result \<times> runner" where
  "execute_start env rn ps r =
     (case derived_id env ''attempt'' (wr_id r @ '':1'') of
        Inl e \<Rightarrow> (Inl e, rn)
      | Inr attempt_id \<Rightarrow>
          (case store_transition (rn_store rn) (rc_tenant_id (wr_context r)) (wr_id r) (wr_revision r) Pending
                  (started_transition attempt_id (ps_definition ps) (ps_policy ps)) of
             (outcome, store) \<Rightarrow>
               (case outcome of
                  Inl e \<Rightarrow> Inl e
                | Inr (Applied active) \<Rightarrow> Inr (attempt_id, active)
                | Inr TransitionConflict \<Rightarrow> Inl WfConflict
                | Inr TransitionNotFound \<Rightarrow> Inl WfNotFound,
                rn\<lparr>rn_store := store\<rparr>)))"

definition terminalize_setup_failure :: "runner \<Rightarrow> workflow_run \<Rightarrow> string
    \<Rightarrow> (unit, workflow_error) result option \<times> runner" where
  "terminalize_setup_failure rn active reason =
     (case finish_failure active reason of
        None \<Rightarrow> (None, rn)
      | Some t \<Rightarrow>
          (case store_transition (rn_store rn) (rc_tenant_id (wr_context active)) (wr_id active)
                  (wr_revision active) Running t of
             (outcome, store) \<Rightarrow>
               (Some (case outcome of
                  Inl e \<Rightarrow> Inl e
                | Inr TransitionNotFound \<Rightarrow> Inl WfNotFound
                | Inr _ \<Rightarrow> Inr ()),
                rn\<lparr>rn_store := store\<rparr>)))"

text \<open>The three lines of every failing setup path: terminalize, propagate its error, return.\<close>

definition setup_failed :: "runner \<Rightarrow> workflow_run \<Rightarrow> string \<Rightarrow> workflow_error
    \<Rightarrow> ('a, workflow_error) result option \<times> runner" where
  "setup_failed rn active reason error =
     map_prod (map_option (\<lambda>outcome. and_then outcome (\<lambda>_. Inl error))) (\<lambda>x. x)
       (terminalize_setup_failure rn active reason)"

record flight =
  fl_active :: workflow_run
  fl_token :: u64
  fl_request :: agent_invocation_request
  fl_evidence :: evidence_collector

definition execute_setup :: "workflow_env \<Rightarrow> runner \<Rightarrow> prepared_start \<Rightarrow> string \<Rightarrow> workflow_run \<Rightarrow> bool
    \<Rightarrow> (flight, workflow_error) result option \<times> runner" where
  "execute_setup env rn ps attempt_id active instant_ok =
     (case evidence_collector_new (wr_max_evidence_bytes active) (wr_events active) of
        Inl e \<Rightarrow> setup_failed rn active ''evidence_limit_exceeded'' e
      | Inr evidence \<Rightarrow>
     (case checked_add (rn_next_registration rn) 1 of
        None \<Rightarrow> setup_failed rn active ''cancellation_registration_failed'' WfAdapterFailure
      | Some next_token \<Rightarrow>
          let token = rn_next_registration rn; rn = rn\<lparr>rn_next_registration := next_token\<rparr> in
          if poisoned (rn_cancellations rn)
          then setup_failed rn active ''cancellation_registration_failed'' WfAdapterFailure
          else let rn = register rn (wr_id active) token in
     (case identifier_new (env_sha256_hex env (rc_tenant_id (wr_context active) @ '':'' @ wr_id active
             @ '':'' @ attempt_id)) of
        Inl _ \<Rightarrow> setup_failed (drop_registration rn (wr_id active) token) active
                  ''invocation_control_failed'' WfAdapterFailure
      | Inr key \<Rightarrow>
          if \<not> instant_ok
          then setup_failed (drop_registration rn (wr_id active) token) active
                 ''invocation_control_failed'' WfAdapterFailure
          else (Some (Inr \<lparr>fl_active = active, fl_token = token,
            fl_request = \<lparr>ar_context = wr_context active, ar_agent_id = wd_agent_id (ps_definition ps),
              ar_input = ps_input ps, ar_attempt_id = attempt_id, ar_ceiling = ip_ceiling (ps_policy ps),
              ar_policy_decision_digest = ip_policy_decision_digest (ps_policy ps)\<rparr>,
            fl_evidence = evidence\<rparr>), rn))))"

section \<open>Reading, finishing and cancelling\<close>

definition runner_get :: "runner \<Rightarrow> string \<Rightarrow> string \<Rightarrow> (run_summary, workflow_error) result" where
  "runner_get rn tenant rid =
     and_then (store_get (rn_store rn) tenant rid) (\<lambda>found. ok_or (map_option run_summary_from found) WfNotFound)"

definition runner_list :: "runner \<Rightarrow> string \<Rightarrow> (run_summary list, workflow_error) result" where
  "runner_list rn tenant = and_then (store_list (rn_store rn) tenant) (\<lambda>runs. Inr (map run_summary_from runs))"

fun failure_reason :: "workflow_error \<Rightarrow> string" where
  "failure_reason WfLimitExceeded = ''evidence_limit_exceeded''"
| "failure_reason WfCancelled = ''cancelled''"
| "failure_reason WfDeadlineExceeded = ''deadline_exceeded''"
| "failure_reason _ = ''invocation_failed''"

definition closing_transition :: "workflow_run \<Rightarrow> (string, workflow_error) result \<Rightarrow> evidence_collector
    \<Rightarrow> transition option \<times> workflow_error option" where
  "closing_transition active outcome evidence =
     (case outcome of
        Inr scope_digest \<Rightarrow>
          (case finish_success active scope_digest evidence of
             Inr t \<Rightarrow> (Some t, None)
           | Inl e \<Rightarrow> (finish_failure active ''invalid_invocation_result'', Some e))
      | Inl e \<Rightarrow> (finish_failure active (failure_reason e), Some e))"

definition execute_finish :: "runner \<Rightarrow> flight \<Rightarrow> (string, workflow_error) result \<Rightarrow> evidence_collector
    \<Rightarrow> (run_summary, workflow_error) result option \<times> runner" where
  "execute_finish rn fl outcome evidence =
     (let active = fl_active fl; rn = drop_registration rn (wr_id active) (fl_token fl) in
      case closing_transition active outcome evidence of
        (None, _) \<Rightarrow> (None, rn)
      | (Some t, result_error) \<Rightarrow>
          (case store_transition (rn_store rn) (rc_tenant_id (wr_context active)) (wr_id active)
                  (wr_revision active) Running t of
             (result, store) \<Rightarrow>
               let rn = rn\<lparr>rn_store := store\<rparr> in
               (Some (case result of
                  Inl e \<Rightarrow> Inl e
                | Inr (Applied v) \<Rightarrow>
                    if result_error = Some WfLimitExceeded then Inl WfLimitExceeded
                    else Inr (run_summary_from v)
                | Inr TransitionConflict \<Rightarrow> runner_get rn (rc_tenant_id (wr_context active)) (wr_id active)
                | Inr TransitionNotFound \<Rightarrow> Inl WfNotFound),
                rn)))"

type_synonym invoker = "agent_invocation_request \<Rightarrow> evidence_collector
  \<Rightarrow> (string, workflow_error) result \<times> evidence_collector"

definition execute :: "workflow_env \<Rightarrow> invoker \<Rightarrow> bool \<Rightarrow> runner \<Rightarrow> prepared_start \<Rightarrow> workflow_run
    \<Rightarrow> (run_summary, workflow_error) result option \<times> runner" where
  "execute env invoke instant_ok rn ps r =
     (case execute_start env rn ps r of
        (Inl e, rn1) \<Rightarrow> (Some (Inl e), rn1)
      | (Inr (attempt_id, active), rn1) \<Rightarrow>
          (case execute_setup env rn1 ps attempt_id active instant_ok of
             (None, rn2) \<Rightarrow> (None, rn2)
           | (Some (Inl e), rn2) \<Rightarrow> (Some (Inl e), rn2)
           | (Some (Inr fl), rn2) \<Rightarrow>
               (case invoke (fl_request fl) (fl_evidence fl) of
                  (outcome, evidence) \<Rightarrow> execute_finish rn2 fl outcome evidence)))"

definition start_with_policy :: "workflow_env \<Rightarrow> invoker \<Rightarrow> bool \<Rightarrow> runner \<Rightarrow> request_context \<Rightarrow> string
    \<Rightarrow> workflow_version \<Rightarrow> string \<Rightarrow> string \<Rightarrow> invocation_policy
    \<Rightarrow> (run_summary, workflow_error) result option \<times> runner" where
  "start_with_policy env invoke instant_ok rn context workflow_id version run_key input policy =
     (case start_prepare env context workflow_id version run_key input policy of
        Inl e \<Rightarrow> (Some (Inl e), rn)
      | Inr ps \<Rightarrow>
          (case create_or_return (rn_store rn) (ps_identity ps) (ps_run ps) of
             (outcome, store) \<Rightarrow>
               let rn = rn\<lparr>rn_store := store\<rparr> in
               (case outcome of
                  Inl e \<Rightarrow> (Some (Inl e), rn)
                | Inr (Existing r) \<Rightarrow> (Some (Inr (run_summary_from r)), rn)
                | Inr CreateConflict \<Rightarrow> (Some (Inl WfRunKeyConflict), rn)
                | Inr (Created r) \<Rightarrow> execute env invoke instant_ok rn ps r)))"

text \<open>
  The same two calls over an invoker with a state of its own, which also receives the idempotency key
  of its invocation control; the cancellation signal and the deadline of the control reach the model
  only through what the invoker answers. An invoker without state is the special case.
\<close>

type_synonym 's acting_invoker = "string \<Rightarrow> agent_invocation_request \<Rightarrow> evidence_collector \<Rightarrow> 's
  \<Rightarrow> ((string, workflow_error) result \<times> evidence_collector) \<times> 's"

definition idempotency_key :: "workflow_env \<Rightarrow> flight \<Rightarrow> string" where
  "idempotency_key env fl = env_sha256_hex env (rc_tenant_id (wr_context (fl_active fl)) @ '':'' @ wr_id (fl_active fl)
     @ '':'' @ ar_attempt_id (fl_request fl))"

definition execute_acting :: "workflow_env \<Rightarrow> 's acting_invoker \<Rightarrow> bool \<Rightarrow> runner \<Rightarrow> prepared_start \<Rightarrow> workflow_run \<Rightarrow> 's
    \<Rightarrow> (run_summary, workflow_error) result option \<times> runner \<times> 's" where
  "execute_acting env invoke instant_ok rn ps r s =
     (case execute_start env rn ps r of
        (Inl e, rn1) \<Rightarrow> (Some (Inl e), rn1, s)
      | (Inr (attempt_id, active), rn1) \<Rightarrow>
          (case execute_setup env rn1 ps attempt_id active instant_ok of
             (None, rn2) \<Rightarrow> (None, rn2, s)
           | (Some (Inl e), rn2) \<Rightarrow> (Some (Inl e), rn2, s)
           | (Some (Inr fl), rn2) \<Rightarrow>
               (case invoke (idempotency_key env fl) (fl_request fl) (fl_evidence fl) s of
                  ((outcome, evidence), s') \<Rightarrow>
                    (case execute_finish rn2 fl outcome evidence of (res, rn3) \<Rightarrow> (res, rn3, s')))))"

definition start_acting :: "workflow_env \<Rightarrow> 's acting_invoker \<Rightarrow> bool \<Rightarrow> runner \<Rightarrow> request_context \<Rightarrow> string
    \<Rightarrow> workflow_version \<Rightarrow> string \<Rightarrow> string \<Rightarrow> invocation_policy \<Rightarrow> 's
    \<Rightarrow> (run_summary, workflow_error) result option \<times> runner \<times> 's" where
  "start_acting env invoke instant_ok rn context workflow_id version run_key input policy s =
     (case start_prepare env context workflow_id version run_key input policy of
        Inl e \<Rightarrow> (Some (Inl e), rn, s)
      | Inr ps \<Rightarrow>
          (case create_or_return (rn_store rn) (ps_identity ps) (ps_run ps) of
             (outcome, store) \<Rightarrow>
               let rn = rn\<lparr>rn_store := store\<rparr> in
               (case outcome of
                  Inl e \<Rightarrow> (Some (Inl e), rn, s)
                | Inr (Existing r) \<Rightarrow> (Some (Inr (run_summary_from r)), rn, s)
                | Inr CreateConflict \<Rightarrow> (Some (Inl WfRunKeyConflict), rn, s)
                | Inr (Created r) \<Rightarrow> execute_acting env invoke instant_ok rn ps r s)))"

lemma execute_stateless:
  "execute_acting env (\<lambda>_ request evidence s. (invoke request evidence, s)) instant_ok rn ps r s
   = (fst (execute env invoke instant_ok rn ps r), snd (execute env invoke instant_ok rn ps r), s)"
  by (auto simp: execute_acting_def execute_def split: prod.split sum.split option.split)

lemma start_stateless:
  "start_acting env (\<lambda>_ request evidence s. (invoke request evidence, s)) instant_ok rn context wid version key input policy s
   = (fst (start_with_policy env invoke instant_ok rn context wid version key input policy),
      snd (start_with_policy env invoke instant_ok rn context wid version key input policy), s)"
  by (auto simp: start_acting_def start_with_policy_def execute_stateless Let_def split: prod.split sum.split create_run.split)

definition default_policy :: invocation_policy where
  "default_policy = \<lparr>ip_ceiling = \<lparr>cc_allowed_tool_ids = [], cc_memory_enabled = False,
     cc_knowledge_enabled = False, cc_sandbox_execution_allowed = False, cc_communication_allowed = False\<rparr>,
     ip_policy_decision_digest = replicate 64 (CHR ''0'')\<rparr>"

definition start :: "workflow_env \<Rightarrow> invoker \<Rightarrow> bool \<Rightarrow> runner \<Rightarrow> request_context \<Rightarrow> string
    \<Rightarrow> workflow_version \<Rightarrow> string \<Rightarrow> string \<Rightarrow> (run_summary, workflow_error) result option \<times> runner" where
  "start env invoke instant_ok rn context workflow_id version run_key input =
     start_with_policy env invoke instant_ok rn context workflow_id version run_key input default_policy"

definition cancelled_transition :: "workflow_run \<Rightarrow> transition" where
  "cancelled_transition r =
     \<lparr>tr_status = RunCancelled, tr_terminal_reason = Some ReasonCancelled,
      tr_attempt = map_option (\<lambda>a. a\<lparr>at_status := AttemptCancelled\<rparr>) (wr_attempt r),
      tr_events = [\<lparr>ev_sequence = of_nat (length (wr_events r)) + 1, ev_kind = ''cancelled'', ev_data = []\<rparr>]\<rparr>"

definition cancel :: "runner \<Rightarrow> string \<Rightarrow> string \<Rightarrow> (run_summary, workflow_error) result \<times> runner" where
  "cancel rn tenant rid =
     (case and_then (store_get (rn_store rn) tenant rid) (\<lambda>found. ok_or found WfNotFound) of
        Inl e \<Rightarrow> (Inl e, rn)
      | Inr r \<Rightarrow>
          if is_terminal (wr_status r) then (Inr (run_summary_from r), rn)
          else if poisoned (rn_cancellations rn) then (Inl WfAdapterFailure, rn)
          else (case bt_get (guarded (rn_cancellations rn)) (wr_id r) of
                  None \<Rightarrow> (Inl WfConflict, rn)
                | Some token \<Rightarrow>
                    let rn = rn\<lparr>rn_signalled := token # rn_signalled rn\<rparr> in
                    (case store_transition (rn_store rn) tenant (wr_id r) (wr_revision r) Running (cancelled_transition r) of
                       (outcome, store) \<Rightarrow>
                         let rn = rn\<lparr>rn_store := store\<rparr> in
                         (case outcome of
                            Inl e \<Rightarrow> Inl e
                          | Inr (Applied v) \<Rightarrow> Inr (run_summary_from v)
                          | Inr TransitionConflict \<Rightarrow> runner_get rn tenant (wr_id r)
                          | Inr TransitionNotFound \<Rightarrow> Inl WfNotFound,
                          rn))))"

end
