(* ===== verification/Workflow_Mcp.thy ===== *)
theory Workflow_Mcp
  imports Agent_Mcp Json_Text Workflow_Runner
begin

text \<open>
  The tool surface of the workflow crate (\<open>workflow/src/mcp.rs\<close>): definitions are validated and runs
  started, read, listed and cancelled behind the gate. A start hands the grant of its decision on
  as the ceiling of the run, and the invoker here passes that ceiling to the agent runtime and
  turns the runtime's answer into evidence.
\<close>

definition WORKFLOW_TOOLS :: "string list" where
  "WORKFLOW_TOOLS = [''workflow_validate'', ''workflow_start'', ''workflow_get'', ''workflow_list'', ''workflow_cancel'']"

definition MAX_MCP_SERIALIZED_RESULT_BYTES :: nat where "MAX_MCP_SERIALIZED_RESULT_BYTES = 65536"

section \<open>Contexts and inputs\<close>

record authorized_workflow_context =
  aw_context :: request_context
  aw_ceiling :: effective_capability_ceiling_v1
  aw_policy_decision_digest :: string

definition request_context_of :: "trusted_context_v1 \<Rightarrow> (request_context, workflow_error) result" where
  "request_context_of trusted =
     and_then (Workflow.logical_id_new (tc_tenant_id trusted)) (\<lambda>tenant.
     and_then (Workflow.logical_id_new (tc_principal_id trusted)) (\<lambda>prin.
     and_then (Workflow.logical_id_new (tc_request_id trusted)) (\<lambda>request.
     and_then (Workflow.logical_id_new (tc_correlation_id trusted)) (\<lambda>correlation.
       Inr \<lparr>rc_tenant_id = tenant, rc_principal_id = prin, rc_request_id = request, rc_correlation_id = correlation\<rparr>))))"

record workflow_definition_input =
  wi_id :: string
  wi_agent_id :: string
  wi_max_input_bytes :: nat
  wi_max_evidence_bytes :: nat

record workflow_start_input =
  ws_workflow_id :: string
  ws_run_key :: string
  ws_input :: string

definition workflow_into_core :: "workflow_definition_input \<Rightarrow> (workflow_definition_v1, workflow_error) result" where
  "workflow_into_core i =
     and_then (Workflow.logical_id_new (wi_id i)) (\<lambda>wid.
     and_then (map_err (\<lambda>_. WfInvalidDefinition) (agent_id_new (wi_agent_id i))) (\<lambda>agent.
       Inr \<lparr>wd_id = wid, wd_version = V1, wd_agent_id = agent,
         wd_budget = \<lparr>wb_max_attempts = 1, wb_max_input_bytes = wi_max_input_bytes i,
           wb_max_evidence_bytes = wi_max_evidence_bytes i\<rparr>\<rparr>))"

section \<open>The invoker\<close>

record ceiling_agent_invocation =
  ci_context :: invocation_context_v1
  ci_agent_id :: string
  ci_input :: string
  ci_ceiling :: effective_capability_ceiling_v1

text \<open>The agent runtime behind the surface: it is given an idempotency key and an invocation, and acts on a
  state of its own.\<close>

type_synonym 's ceiling_agent_runtime = "string \<Rightarrow> ceiling_agent_invocation \<Rightarrow> (invocation_result, workflow_error, 's) st"

definition agent_invocation_context :: "request_context \<Rightarrow> (invocation_context_v1, workflow_error) result" where
  "agent_invocation_context c =
     and_then (map_err (\<lambda>_. WfInvalidRequest) (invocation_id_new (rc_tenant_id c))) (\<lambda>tenant.
     and_then (map_err (\<lambda>_. WfInvalidRequest) (invocation_id_new (rc_principal_id c))) (\<lambda>prin.
     and_then (map_err (\<lambda>_. WfInvalidRequest) (invocation_id_new (rc_request_id c))) (\<lambda>request.
     and_then (map_err (\<lambda>_. WfInvalidRequest) (invocation_id_new (rc_correlation_id c))) (\<lambda>correlation.
       Inr \<lparr>ic_tenant_id = tenant, ic_principal_id = prin, ic_request_id = request, ic_correlation_id = correlation\<rparr>))))"

definition quoted :: "string \<Rightarrow> string" where
  "quoted s = [CHR 0x22] @ s @ [CHR 0x22]"

definition canonical_model_evidence :: "(json \<Rightarrow> (string, string) result) \<Rightarrow> invocation_model_evidence \<Rightarrow> (string, workflow_error) result" where
  "canonical_model_evidence print e =
     and_then (map_err (\<lambda>_. WfAdapterFailure) (print (JString (me_provider_id e)))) (\<lambda>provider_id.
     and_then (map_err (\<lambda>_. WfAdapterFailure) (print (JString (me_model_id e)))) (\<lambda>model_id.
     and_then (case me_provider_request_id e of None \<Rightarrow> Inr ''null''
         | Some v \<Rightarrow> map_err (\<lambda>_. WfAdapterFailure) (print (JString v))) (\<lambda>provider_request_id.
     let token_usage = (case me_token_usage e of None \<Rightarrow> ''null''
         | Some u \<Rightarrow> ''{'' @ quoted ''input_tokens'' @ '':'' @ word_to_string (mt_input_tokens u) @ '',''
             @ quoted ''output_tokens'' @ '':'' @ word_to_string (mt_output_tokens u) @ '',''
             @ quoted ''total_tokens'' @ '':'' @ word_to_string (mt_total_tokens u) @ ''}'') in
     Inr (''{'' @ quoted ''finish_reason'' @ '':'' @ quoted (finish_reason_name (me_finish_reason e)) @ '',''
       @ quoted ''idempotency'' @ '':'' @ quoted (idempotency_name (me_idempotency e)) @ '',''
       @ quoted ''model_id'' @ '':'' @ model_id @ '','' @ quoted ''provider_id'' @ '':'' @ provider_id @ '',''
       @ quoted ''provider_request_id'' @ '':'' @ provider_request_id @ '',''
       @ quoted ''token_usage'' @ '':'' @ token_usage @ ''}''))))"

text \<open>The two items of evidence of an answer: emitted in order, stopping at the first error.\<close>

definition emit_answer :: "(json \<Rightarrow> (string, string) result) \<Rightarrow> invocation_result \<Rightarrow> evidence_collector
    \<Rightarrow> (string, workflow_error) result \<times> evidence_collector" where
  "emit_answer print result evidence =
     (case and_then (canonical_model_evidence print (ir_model_evidence result)) (invocation_evidence_new ''llm_generation'') of
        Inl e \<Rightarrow> (Inl e, evidence)
      | Inr generation \<Rightarrow>
     case emit evidence generation of
        (Inl e, evidence) \<Rightarrow> (Inl e, evidence)
      | (Inr _, evidence) \<Rightarrow>
     case invocation_evidence_new ''result'' (ir_output result) of
        Inl e \<Rightarrow> (Inl e, evidence)
      | Inr answer \<Rightarrow>
     case emit evidence answer of
        (Inl e, evidence) \<Rightarrow> (Inl e, evidence)
      | (Inr _, evidence) \<Rightarrow> (Inr (ir_capability_scope_digest result), evidence))"

definition policy_aware_invoke :: "(json \<Rightarrow> (string, string) result) \<Rightarrow> 's ceiling_agent_runtime \<Rightarrow> 's acting_invoker" where
  "policy_aware_invoke print runtime key request evidence s =
     (if length (ar_policy_decision_digest request) \<noteq> 64 \<or> \<not> list_all is_ascii_hexdigit (ar_policy_decision_digest request)
         \<or> \<not> is_ok (validate_effective_capability_ceiling (ar_ceiling request))
      then ((Inl WfInvalidRequest, evidence), s)
      else case agent_invocation_context (agent_invocation_request.ar_context request) of
          Inl e \<Rightarrow> ((Inl e, evidence), s)
        | Inr c \<Rightarrow>
            (case runtime key \<lparr>ci_context = c, ci_agent_id = ar_agent_id request, ci_input = ar_input request, ci_ceiling = ar_ceiling request\<rparr> s of
               (Inl e, s') \<Rightarrow> ((Inl e, evidence), s')
             | (Inr result, s') \<Rightarrow> (emit_answer print result evidence, s')))"

section \<open>Replies\<close>

fun run_status_name :: "run_status \<Rightarrow> string" where
  "run_status_name Pending = ''pending''"
| "run_status_name Running = ''running''"
| "run_status_name Succeeded = ''succeeded''"
| "run_status_name Failed = ''failed''"
| "run_status_name RunCancelled = ''cancelled''"

fun terminal_reason_name :: "terminal_reason \<Rightarrow> string" where
  "terminal_reason_name Completed = ''completed''"
| "terminal_reason_name InvocationFailed = ''invocation_failed''"
| "terminal_reason_name ReasonCancelled = ''cancelled''"

definition summary_value :: "run_summary \<Rightarrow> json" where
  "summary_value s = json_object [(''id'', JString (su_id s)), (''workflow_id'', JString (su_workflow_id s)),
     (''workflow_version'', JString (version_as_str (su_workflow_version s))), (''status'', JString (run_status_name (su_status s))),
     (''terminal_reason'', json_option (\<lambda>r. JString (terminal_reason_name r)) (su_terminal_reason s)),
     (''revision'', JNumber (word_to_string (su_revision s)))]"

definition workflow_serialize :: "(json \<Rightarrow> (string, string) result) \<Rightarrow> json \<Rightarrow> (string, string) result" where
  "workflow_serialize print v =
     and_then (map_err (\<lambda>_. ''could not serialize MCP response'') (print v)) (\<lambda>text.
       if length text \<le> MAX_MCP_SERIALIZED_RESULT_BYTES then Inr text else Inl ''limit_exceeded'')"

definition workflow_summary_json :: "(json \<Rightarrow> (string, string) result) \<Rightarrow> run_summary \<Rightarrow> (string, string) result" where
  "workflow_summary_json print s = workflow_serialize print (summary_value s)"

fun workflow_code :: "workflow_error \<Rightarrow> string" where
  "workflow_code e = (case workflow_public_code e of
      WfPubInvalidRequest \<Rightarrow> ''invalid_request'' | WfPubInvalidDefinition \<Rightarrow> ''invalid_definition'' | WfPubNotFound \<Rightarrow> ''not_found''
    | WfPubRunKeyConflict \<Rightarrow> ''run_key_conflict'' | WfPubConflict \<Rightarrow> ''conflict'' | WfPubLimitExceeded \<Rightarrow> ''limit_exceeded''
    | WfPubOperationFailed \<Rightarrow> ''operation_failed'')"

definition workflow_tool_response :: "(json \<Rightarrow> string) \<Rightarrow> (string, string) result \<Rightarrow> string" where
  "workflow_tool_response display = error_reply display [''invalid_request'', ''invalid_definition'', ''not_found'', ''run_key_conflict'',
     ''conflict'', ''limit_exceeded'', ''operation_failed''] ''operation_failed''"

section \<open>The tools\<close>

text \<open>
  The operations of the runner as the surface calls them. A start that returns \<^const>\<open>None\<close> is the
  panic of the runner, which no reply follows. Over the runner the world is the state of the agent
  runtime beside the runner; the host sees the runner only.
\<close>

record 'w workflow_mcp =
  wm_env :: workflow_env
  wm_validate :: "workflow_definition_v1 \<Rightarrow> (unit, workflow_error, 'w) st"
  wm_start :: "request_context \<Rightarrow> string \<Rightarrow> workflow_version \<Rightarrow> string \<Rightarrow> string \<Rightarrow> invocation_policy
    \<Rightarrow> (run_summary option, workflow_error, 'w) st"
  wm_get :: "string \<Rightarrow> string \<Rightarrow> (run_summary, workflow_error, 'w) st"
  wm_list :: "string \<Rightarrow> (run_summary list, workflow_error, 'w) st"
  wm_cancel :: "string \<Rightarrow> string \<Rightarrow> (run_summary, workflow_error, 'w) st"
  wm_host :: "'w host"

definition or_panic :: "('a, 'e) result option \<Rightarrow> ('a option, 'e) result" where
  "or_panic r = (case r of None \<Rightarrow> Inr None | Some r \<Rightarrow> and_then r (\<lambda>a. Inr (Some a)))"

definition over_runner :: "(json \<Rightarrow> (string, string) result) \<Rightarrow> workflow_env \<Rightarrow> 's ceiling_agent_runtime \<Rightarrow> bool \<Rightarrow> runner host
    \<Rightarrow> ('s \<times> runner) workflow_mcp" where
  "over_runner print env runtime instant_ok host = \<lparr>wm_env = env,
     wm_validate = (\<lambda>d. beside (st_of (runner_validate env d))),
     wm_start = (\<lambda>c wid version run_key input policy (s, rn).
       case start_acting env (policy_aware_invoke print runtime) instant_ok rn c wid version run_key input policy s of
         (r, rn', s') \<Rightarrow> (or_panic r, (s', rn'))),
     wm_get = (\<lambda>tenant rid. beside (\<lambda>rn. (runner_get rn tenant rid, rn))),
     wm_list = (\<lambda>tenant. beside (\<lambda>rn. (runner_list rn tenant, rn))),
     wm_cancel = (\<lambda>tenant rid. beside (\<lambda>rn. cancel rn tenant rid)), wm_host = host_beside host\<rparr>"

definition workflow_gate_error :: "gate_failure \<Rightarrow> workflow_error" where
  "workflow_gate_error e = (if e = Refused then WfNotFound else WfAdapterFailure)"

definition workflow_authorize :: "(string \<Rightarrow> string) \<Rightarrow> 'w workflow_mcp \<Rightarrow> capability_v1
    \<Rightarrow> (authorized_workflow_context, workflow_error, 'w) st" where
  "workflow_authorize sha256_hex m capability =
     st_then (st_map_err workflow_gate_error (pass_gate sha256_hex (wm_host m) capability)) (\<lambda>(trusted, grant, digest).
       st_of (and_then (request_context_of trusted) (\<lambda>c.
         Inr \<lparr>aw_context = c, aw_ceiling = ceiling_of_grant grant, aw_policy_decision_digest = digest\<rparr>)))"

definition workflow_validate_json :: "(json \<Rightarrow> (string, string) result) \<Rightarrow> (string \<Rightarrow> string) \<Rightarrow> 'w workflow_mcp
    \<Rightarrow> workflow_definition_input \<Rightarrow> (string, string, 'w) st" where
  "workflow_validate_json print sha256_hex m input =
     st_match
       (st_then (st_of (and_then (workflow_into_core input) (\<lambda>d. and_then (Workflow.validate_definition d) (\<lambda>_. Inr d)))) (\<lambda>d.
        st_then (st_map_err (\<lambda>e. e) (workflow_authorize sha256_hex m WorkflowValidate)) (\<lambda>_.
          st_map_err (\<lambda>e. e) (wm_validate m d))))
       (\<lambda>r. st_of (workflow_serialize print (case r of
           Inr _ \<Rightarrow> json_object [(''valid'', JBool True), (''findings'', JArray [])]
         | Inl e \<Rightarrow> json_object [(''valid'', JBool False), (''error'', JString (workflow_code e))])))"

definition workflow_start_json :: "(json \<Rightarrow> (string, string) result) \<Rightarrow> (string \<Rightarrow> string) \<Rightarrow> 'w workflow_mcp
    \<Rightarrow> workflow_start_input \<Rightarrow> (string option, string, 'w) st" where
  "workflow_start_json print sha256_hex m input =
     st_then (st_of (map_err workflow_code (Workflow.logical_id_new (ws_workflow_id input)))) (\<lambda>wid.
     if ws_run_key input = [] \<or> length (ws_run_key input) > MAX_RUN_KEY_BYTES then st_of (Inl (workflow_code WfInvalidRequest))
     else
     st_then (st_of (map_err workflow_code (canonical_json (env_parse (wm_env m)) (env_print (wm_env m)) (env_decode (wm_env m))
         (ws_input input) MAX_JSON_INPUT_BYTES))) (\<lambda>canonical_input.
     st_then (st_map_err workflow_code (workflow_authorize sha256_hex m WorkflowStart)) (\<lambda>authorized.
     st_then (st_map_err workflow_code (wm_start m (aw_context authorized) wid V1 (ws_run_key input) canonical_input
         \<lparr>ip_ceiling = aw_ceiling authorized, ip_policy_decision_digest = aw_policy_decision_digest authorized\<rparr>)) (\<lambda>summary.
       st_of (case summary of None \<Rightarrow> Inr None | Some s \<Rightarrow> and_then (workflow_summary_json print s) (\<lambda>text. Inr (Some text)))))))"

definition workflow_get_json :: "(json \<Rightarrow> (string, string) result) \<Rightarrow> (string \<Rightarrow> string) \<Rightarrow> 'w workflow_mcp \<Rightarrow> string
    \<Rightarrow> (string, string, 'w) st" where
  "workflow_get_json print sha256_hex m i =
     st_then (st_of (map_err workflow_code (Workflow.logical_id_new i))) (\<lambda>rid.
     st_then (st_map_err workflow_code (workflow_authorize sha256_hex m WorkflowGet)) (\<lambda>authorized.
     st_then (st_map_err workflow_code (wm_get m (rc_tenant_id (aw_context authorized)) rid)) (\<lambda>s.
       st_of (workflow_summary_json print s))))"

definition workflow_list_json :: "(json \<Rightarrow> (string, string) result) \<Rightarrow> (string \<Rightarrow> string) \<Rightarrow> 'w workflow_mcp
    \<Rightarrow> (string, string, 'w) st" where
  "workflow_list_json print sha256_hex m =
     st_then (st_map_err workflow_code (workflow_authorize sha256_hex m WorkflowList)) (\<lambda>authorized.
     st_then (st_map_err workflow_code (wm_list m (rc_tenant_id (aw_context authorized)))) (\<lambda>runs.
       st_of (workflow_serialize print (json_object [(''runs'', JArray (map summary_value runs))]))))"

definition workflow_cancel_json :: "(json \<Rightarrow> (string, string) result) \<Rightarrow> (string \<Rightarrow> string) \<Rightarrow> 'w workflow_mcp \<Rightarrow> string
    \<Rightarrow> (string, string, 'w) st" where
  "workflow_cancel_json print sha256_hex m i =
     st_then (st_of (map_err workflow_code (Workflow.logical_id_new i))) (\<lambda>rid.
     st_then (st_map_err workflow_code (workflow_authorize sha256_hex m WorkflowCancel)) (\<lambda>authorized.
     st_then (st_map_err workflow_code (wm_cancel m (rc_tenant_id (aw_context authorized)) rid)) (\<lambda>s.
       st_of (workflow_summary_json print s))))"

datatype workflow_tool =
    WorkflowValidateTool workflow_definition_input | WorkflowStartTool workflow_start_input | WorkflowGetTool string
  | WorkflowListTool | WorkflowCancelTool string

definition replied :: "(json \<Rightarrow> string) \<Rightarrow> (string, string, 'w) st \<Rightarrow> (string option, string, 'w) st" where
  "replied display m = st_match m (\<lambda>r. st_of (Inr (Some (workflow_tool_response display r))))"

fun workflow_tool_call :: "(json \<Rightarrow> (string, string) result) \<Rightarrow> (json \<Rightarrow> string) \<Rightarrow> (string \<Rightarrow> string) \<Rightarrow> 'w workflow_mcp
    \<Rightarrow> workflow_tool \<Rightarrow> (string option, string, 'w) st" where
  "workflow_tool_call print display sha256_hex m (WorkflowValidateTool i) = replied display (workflow_validate_json print sha256_hex m i)"
| "workflow_tool_call print display sha256_hex m (WorkflowStartTool i) =
     st_match (workflow_start_json print sha256_hex m i) (\<lambda>r. st_of (Inr (case r of Inr None \<Rightarrow> None
       | Inr (Some text) \<Rightarrow> Some (workflow_tool_response display (Inr text)) | Inl e \<Rightarrow> Some (workflow_tool_response display (Inl e)))))"
| "workflow_tool_call print display sha256_hex m (WorkflowGetTool i) = replied display (workflow_get_json print sha256_hex m i)"
| "workflow_tool_call print display sha256_hex m WorkflowListTool = replied display (workflow_list_json print sha256_hex m)"
| "workflow_tool_call print display sha256_hex m (WorkflowCancelTool i) = replied display (workflow_cancel_json print sha256_hex m i)"

section \<open>The gate\<close>

datatype workflow_call =
    WfValidateCall workflow_definition_v1
  | WfStartCall request_context string workflow_version string string invocation_policy
  | WfGetCall string string | WfListCall string | WfCancelCall string string

definition logged_workflow :: "'w workflow_mcp \<Rightarrow> ('w \<times> workflow_call access_event list) workflow_mcp" where
  "logged_workflow m = \<lparr>wm_env = wm_env m, wm_validate = performing WfValidateCall (wm_validate m),
     wm_start = (\<lambda>c w v k i p. performing (\<lambda>(c, w, v, k, i, p). WfStartCall c w v k i p) (\<lambda>(c, w, v, k, i, p). wm_start m c w v k i p)
       (c, w, v, k, i, p)),
     wm_get = (\<lambda>t r. performing (\<lambda>(t, r). WfGetCall t r) (\<lambda>(t, r). wm_get m t r) (t, r)),
     wm_list = performing WfListCall (wm_list m),
     wm_cancel = (\<lambda>t r. performing (\<lambda>(t, r). WfCancelCall t r) (\<lambda>(t, r). wm_cancel m t r) (t, r)),
     wm_host = logged_host (wm_host m)\<rparr>"

fun workflow_capability_of :: "workflow_tool \<Rightarrow> capability_v1" where
  "workflow_capability_of (WorkflowValidateTool _) = WorkflowValidate"
| "workflow_capability_of (WorkflowStartTool _) = WorkflowStart"
| "workflow_capability_of (WorkflowGetTool _) = WorkflowGet"
| "workflow_capability_of WorkflowListTool = WorkflowList"
| "workflow_capability_of (WorkflowCancelTool _) = WorkflowCancel"

text \<open>
  A start carries the trusted context, the ceiling of the grant and the verified digest; every
  other call the trusted tenant.
\<close>

fun workflow_carries :: "workflow_tool \<Rightarrow> trusted_context_v1 \<Rightarrow> grant_v1 \<Rightarrow> string \<Rightarrow> workflow_call \<Rightarrow> bool" where
  "workflow_carries (WorkflowValidateTool i) trusted grant digest call \<longleftrightarrow> (\<exists>d. workflow_into_core i = Inr d \<and> call = WfValidateCall d)"
| "workflow_carries (WorkflowStartTool i) trusted grant digest call \<longleftrightarrow>
     (\<exists>c input. request_context_of trusted = Inr c \<and> call = WfStartCall c (ws_workflow_id i) V1 (ws_run_key i) input
        \<lparr>ip_ceiling = ceiling_of_grant grant, ip_policy_decision_digest = digest\<rparr>)"
| "workflow_carries (WorkflowGetTool i) trusted grant digest call \<longleftrightarrow> call = WfGetCall (tc_tenant_id trusted) i"
| "workflow_carries WorkflowListTool trusted grant digest call \<longleftrightarrow> call = WfListCall (tc_tenant_id trusted)"
| "workflow_carries (WorkflowCancelTool i) trusted grant digest call \<longleftrightarrow> call = WfCancelCall (tc_tenant_id trusted) i"

lemma workflow_id_new_Inr: "Workflow.logical_id_new i = Inr a \<Longrightarrow> a = i"
  by (auto simp: Workflow.logical_id_new_def split: if_splits)

lemma request_context_of_Inr:
  assumes "request_context_of trusted = Inr c"
  shows "c = \<lparr>rc_tenant_id = tc_tenant_id trusted, rc_principal_id = tc_principal_id trusted, rc_request_id = tc_request_id trusted,
    rc_correlation_id = tc_correlation_id trusted\<rparr>"
  using assms by (auto simp: request_context_of_def and_then_Inr Workflow.logical_id_new_def split: if_splits)

lemma authorizes_workflow:
  "authorizes sha256_hex (wm_host m) c (workflow_authorize sha256_hex (logged_workflow m) c)
     (\<lambda>trusted g d a. request_context_of trusted = Inr (aw_context a) \<and> aw_ceiling a = ceiling_of_grant g \<and> aw_policy_decision_digest a = d)"
proof -
  have host: "wm_host (logged_workflow m) = logged_host (wm_host m)" by (simp add: logged_workflow_def)
  show ?thesis unfolding workflow_authorize_def host split_beta by (rule authorizes_gate) (auto simp: and_then_Inr)
qed

lemma logged_workflow_ports:
  "wm_env (logged_workflow m) = wm_env m"
  "wm_validate (logged_workflow m) = performing WfValidateCall (wm_validate m)"
  "wm_start (logged_workflow m) c w v k i p = performing (\<lambda>(c, w, v, k, i, p). WfStartCall c w v k i p)
     (\<lambda>(c, w, v, k, i, p). wm_start m c w v k i p) (c, w, v, k, i, p)"
  "wm_get (logged_workflow m) t r = performing (\<lambda>(t, r). WfGetCall t r) (\<lambda>(t, r). wm_get m t r) (t, r)"
  "wm_list (logged_workflow m) = performing WfListCall (wm_list m)"
  "wm_cancel (logged_workflow m) t r = performing (\<lambda>(t, r). WfCancelCall t r) (\<lambda>(t, r). wm_cancel m t r) (t, r)"
  by (simp_all add: logged_workflow_def)

lemmas workflow_tool_rules = runs_reply runs_of_then gated_idle idle_simps runs_authorized [OF authorizes_workflow]
  runs_perform_last runs_perform_end

lemma runs_workflow_tools:
  "runs (workflow_tool_call print display sha256_hex (logged_workflow m) tool) []
     (\<lambda>r s. gated sha256_hex (wm_host m) (workflow_capability_of tool) (workflow_carries tool) s)"
proof (cases tool)
  case (WorkflowValidateTool i)
  then show ?thesis
    unfolding WorkflowValidateTool workflow_tool_call.simps workflow_capability_of.simps replied_def workflow_validate_json_def logged_workflow_ports
    by (intro workflow_tool_rules) (auto simp: and_then_Inr)
next
  case (WorkflowStartTool i)
  then show ?thesis
    unfolding WorkflowStartTool workflow_tool_call.simps workflow_capability_of.simps workflow_start_json_def logged_workflow_ports
    by (intro workflow_tool_rules)
      (auto intro!: runs_of runs_of_then gated_idle runs_authorized [OF authorizes_workflow] runs_perform_last
        simp: map_err_Inr dest!: workflow_id_new_Inr)
next
  case (WorkflowGetTool i)
  then show ?thesis
    unfolding WorkflowGetTool workflow_tool_call.simps workflow_capability_of.simps replied_def workflow_get_json_def logged_workflow_ports
    by (intro workflow_tool_rules)
      (auto simp: map_err_Inr dest!: request_context_of_Inr workflow_id_new_Inr)
next
  case WorkflowListTool
  then show ?thesis
    unfolding WorkflowListTool workflow_tool_call.simps workflow_capability_of.simps replied_def workflow_list_json_def logged_workflow_ports
    by (intro workflow_tool_rules) (auto dest!: request_context_of_Inr)
next
  case (WorkflowCancelTool i)
  then show ?thesis
    unfolding WorkflowCancelTool workflow_tool_call.simps workflow_capability_of.simps replied_def workflow_cancel_json_def logged_workflow_ports
    by (intro workflow_tool_rules)
      (auto simp: map_err_Inr dest!: request_context_of_Inr workflow_id_new_Inr)
qed

interpretation workflow_surface: tool_surface sha256_hex "wm_host m" "workflow_tool_call print display sha256_hex (logged_workflow m)"
    "\<lambda>tool. Some (workflow_capability_of tool)" workflow_carries for sha256_hex m print display
  by unfold_locales (auto intro: runs_log [OF runs_workflow_tools])

end
