(* ===== verification/Workflow_Closing.thy ===== *)
theory Workflow_Closing
  imports Workflow_Runner
begin

text \<open>
  When the transitions of the runner are valid: starting a fresh run, and closing a running one by
  success, failure or cancellation, as long as the evidence fits the budget of the run. From this
  follows what each stage of an execution does to the store.
\<close>

section \<open>Evidence collected for a run\<close>

definition items_size :: "invocation_evidence list \<Rightarrow> nat" where
  "items_size items = sum_list (map (\<lambda>i. length (ie_kind i) + length (ie_data i)) items)"

definition collector_ok :: "workflow_run \<Rightarrow> evidence_collector \<Rightarrow> bool" where
  "collector_ok r c \<longleftrightarrow> ec_limit c = wr_max_evidence_bytes r \<and> ec_existing_events c = length (wr_events r)
     \<and> ec_used_bytes c = events_size (wr_events r) + items_size (ec_events c) \<and> ec_used_bytes c \<le> ec_limit c
     \<and> ec_existing_events c + length (ec_events c) \<le> 64
     \<and> (\<forall>i\<in>set (ec_events c). ie_kind i \<noteq> []) \<and> (ec_output c \<noteq> None \<longrightarrow> ec_events c \<noteq> [])"

lemma items_size_append [simp]: "items_size (xs @ ys) = items_size xs + items_size ys"
  by (simp add: items_size_def)

lemma collector_new_ok:
  assumes "run_ok r"
  obtains c where "evidence_collector_new (wr_max_evidence_bytes r) (wr_events r) = Inr c" and "collector_ok r c"
proof -
  have "text_size (map event_text (wr_events r)) \<le> wr_max_evidence_bytes r"
    "wr_max_evidence_bytes r \<le> usize_max" "length (wr_events r) \<le> 64"
    using assms by (auto simp: run_ok_def events_size_def usize_max_def)
  then show thesis
    by (intro that [of "\<lparr>ec_limit = wr_max_evidence_bytes r, ec_existing_events = length (wr_events r),
         ec_used_bytes = events_size (wr_events r), ec_events = [], ec_output = None\<rparr>"])
      (auto simp: evidence_collector_new_def evidence_bytes_eq MAX_EVENTS_def events_size_def
        collector_ok_def items_size_def)
qed

definition emit_accepts :: "evidence_collector \<Rightarrow> invocation_evidence \<Rightarrow> bool" where
  "emit_accepts c item \<longleftrightarrow> length (ie_kind item) + length (ie_data item) \<le> 4096
     \<and> ec_used_bytes c + (length (ie_kind item) + length (ie_data item)) \<le> min usize_max (ec_limit c)
     \<and> ec_existing_events c + length (ec_events c) + 1 \<le> 64
     \<and> (ie_kind item = ''result'' \<longrightarrow> ec_output c = None)"

lemma emit_accepted:
  assumes "emit_accepts c item"
  shows "emit c item = (Inr (), c\<lparr>
    ec_output := (if ie_kind item = ''result'' then Some (ie_data item) else ec_output c),
    ec_used_bytes := ec_used_bytes c + (length (ie_kind item) + length (ie_data item)),
    ec_events := ec_events c @ [item]\<rparr>)"
proof -
  have "ec_existing_events c + length (ec_events c) + 1 \<le> usize_max"
    "length (ie_kind item) + length (ie_data item) \<le> usize_max"
    using assms by (auto simp: emit_accepts_def usize_max_def)
  with assms show ?thesis
    by (auto simp: emit_def emit_accepts_def usize_checked_add_def MAX_EVENTS_def MAX_EVIDENCE_CHUNK_BYTES_def)
qed

lemma emit_refused: "\<not> emit_accepts c item \<Longrightarrow> \<exists>e. emit c item = (Inl e, c)"
  by (auto simp: emit_def emit_accepts_def usize_checked_add_def MAX_EVENTS_def MAX_EVIDENCE_CHUNK_BYTES_def
      split: if_splits)

lemma emit_ok: "collector_ok r c \<Longrightarrow> ie_kind item \<noteq> [] \<Longrightarrow> collector_ok r (snd (emit c item))"
  using emit_accepted [of c item] emit_refused [of c item]
  by (cases "emit_accepts c item") (auto simp: collector_ok_def items_size_def emit_accepts_def)

lemma evidence_new_kind: "invocation_evidence_new kind data = Inr i \<Longrightarrow> ie_kind i \<noteq> []"
  by (auto simp: invocation_evidence_new_def result_simps split: if_splits)

section \<open>Valid transitions of the runner\<close>

lemma number_events_simps:
  "length (number_events n items) = length items" "events_size (number_events n items) = items_size items"
  by (auto simp: number_events_def events_size_def items_size_def text_size_def event_text_def comp_def
      case_prod_beta enumerate_eq_zip intro!: arg_cong [where f = sum_list] nth_equalityI)

lemma number_events_sequence:
  assumes "\<forall>i\<in>set items. ie_kind i \<noteq> []"
  shows "sequence_valid (of_nat n + 1) (number_events n items)"
proof -
  have "sequence_valid (of_nat n + of_nat k + 1)
      (map (\<lambda>(index, item). \<lparr>ev_sequence = of_nat n + of_nat index + 1, ev_kind = ie_kind item,
         ev_data = ie_data item\<rparr>) (enumerate k items))" for k
    using assms
  proof (induction items arbitrary: k)
    case (Cons i items)
    then show ?case using Cons.IH [of "Suc k"] by (simp add: add.assoc add.commute add.left_commute)
  qed simp
  from this [of 0] show ?thesis by (simp add: number_events_def)
qed

lemma next_sequence:
  "sequenced es \<Longrightarrow> (if es = [] then 1 else ev_sequence (last es) + 1) = of_nat (length es) + 1"
  using sequence_valid_last [of 1 es] by (auto simp: add.commute)

lemma running_attempt:
  assumes "run_ok r" and "wr_status r = Running"
  obtains a where "wr_attempt r = Some a" and "at_status a = AttemptRunning" and "at_result a = None"
    and "at_error a = None" and "at_capability_scope_digest a = None"
  using assms by (auto simp: run_ok_def attempt_fits_def split: option.splits)

lemma run_ok_fits:
  "run_ok r \<Longrightarrow> sequenced (wr_events r) \<and> events_size (wr_events r) \<le> wr_max_evidence_bytes r
     \<and> wr_max_evidence_bytes r \<le> usize_max"
  by (auto simp: run_ok_def usize_max_def)

lemma started_valid:
  assumes "run_ok r" and "wr_status r = Pending" and "7 \<le> wr_max_evidence_bytes r"
    and "validate_invocation_policy (ip_ceiling p) (ip_policy_decision_digest p) = Inr ()"
  shows "transition_is_valid r Pending (started_transition aid d p)"
proof -
  have "wr_events r = []" "wr_attempt r = None"
    using assms(1,2) by (auto simp: run_ok_def attempt_fits_def split: option.splits)
  with assms show ?thesis
    by (simp add: transition_is_valid_iff started_transition_def attempt_valid_def usize_max_def)
qed

lemma failure_valid:
  assumes "run_ok r" and "wr_status r = Running" and "length (wr_events r) < 64"
    and "events_size (wr_events r) + 17 + length reason \<le> wr_max_evidence_bytes r"
  obtains t where "finish_failure r reason = Some t" and "transition_is_valid r Running t"
    and "tr_status t = Failed"
proof -
  obtain a where "wr_attempt r = Some a" "at_status a = AttemptRunning" "at_result a = None"
    using running_attempt [OF assms(1,2)] by metis
  with assms run_ok_fits [OF assms(1)] that show thesis
    by (simp add: finish_failure_def transition_is_valid_iff next_sequence attempt_valid_def same_attempt_def)
qed

lemma success_valid:
  assumes "run_ok r" and "wr_status r = Running" and "collector_ok r c" and "ec_output c \<noteq> None"
  obtains t where "finish_success r d c = Inr t" and "transition_is_valid r Running t"
    and "tr_status t = Succeeded"
proof -
  obtain a where "wr_attempt r = Some a" "at_status a = AttemptRunning" "at_error a = None"
    using running_attempt [OF assms(1,2)] by metis
  moreover obtain out where "ec_output c = Some out" using assms(4) by blast
  moreover have "tr \<noteq> []" if "length tr = length (ec_events c)" for tr :: "workflow_event list"
    using assms(3,4) that by (auto simp: collector_ok_def)
  ultimately show thesis using assms(2,3) run_ok_fits [OF assms(1)] that
    by (simp add: finish_success_def transition_is_valid_iff next_sequence attempt_valid_def same_attempt_def
        number_events_simps number_events_sequence collector_ok_def)
qed

lemma cancelled_valid:
  assumes "run_ok r" and "wr_status r = Running" and "length (wr_events r) < 64"
    and "events_size (wr_events r) + 9 \<le> wr_max_evidence_bytes r"
  shows "transition_is_valid r Running (cancelled_transition r)"
proof -
  obtain a where "wr_attempt r = Some a" "at_status a = AttemptRunning" "at_result a = None"
    using running_attempt [OF assms(1,2)] by metis
  with assms run_ok_fits [OF assms(1)] show ?thesis
    by (simp add: cancelled_transition_def transition_is_valid_iff next_sequence attempt_valid_def same_attempt_def)
qed

section \<open>What a stage does to the store\<close>

abbreviation stored :: "runner \<Rightarrow> string \<Rightarrow> workflow_run option" where
  "stored rn \<equiv> bt_get (ws_runs (guarded (rn_store rn)))"

abbreviation same_starts :: "in_memory_workflow_store \<Rightarrow> in_memory_workflow_store \<Rightarrow> bool" where
  "same_starts s s' \<equiv> ws_keys (guarded s) = ws_keys (guarded s') \<and> ws_identities (guarded s) = ws_identities (guarded s')"

lemma store_transition_inv:
  "workflow_inv s \<Longrightarrow> workflow_inv (snd (store_transition s tenant rid revision status t))"
  using workflow_step_inv [of s "OpTransition tenant rid revision status t"] by simp

lemma store_transition_starts: "same_starts s (snd (store_transition s tenant rid revision status t))"
  by (auto simp: store_transition_def transition_state_def split: option.splits)

lemma store_transition_applied:
  assumes "workflow_inv s" and "bt_get (ws_runs (guarded s)) (wr_id r) = Some r"
    and "transition_is_valid r status t"
  obtains s' where "store_transition s (rc_tenant_id (wr_context r)) (wr_id r) (wr_revision r) status t
      = (Inr (Applied (apply_transition r t)), s')" and "workflow_inv s'"
    and "bt_get (ws_runs (guarded s')) = (bt_get (ws_runs (guarded s)))(wr_id r \<mapsto> apply_transition r t)"
proof -
  have "store_transition s (rc_tenant_id (wr_context r)) (wr_id r) (wr_revision r) status t
    = (Inr (Applied (apply_transition r t)), s\<lparr>guarded := (guarded s)\<lparr>ws_runs :=
        bt_insert (wr_id r) (apply_transition r t) (ws_runs (guarded s))\<rparr>\<rparr>)" (is "_ = (_, ?s)")
    using assms by (simp add: workflow_inv_def store_transition_def transition_state_def)
  moreover from this store_transition_inv [OF assms(1)] have "workflow_inv ?s" by (metis snd_conv)
  ultimately show thesis using that by simp
qed

text \<open>
  A run that has been started with a budget that covers every closing event: 7 bytes of the
  event \<open>started\<close>, 17 of \<open>invocation_failed\<close> and 32 of the longest reason.
\<close>

definition opened :: "workflow_run \<Rightarrow> bool" where
  "opened r \<longleftrightarrow> run_ok r \<and> wr_status r = Running \<and> length (wr_events r) = 1 \<and> events_size (wr_events r) = 7
     \<and> 56 \<le> wr_max_evidence_bytes r"

lemma opened_failure:
  assumes "opened r" and "length reason \<le> 32"
  obtains t where "finish_failure r reason = Some t" and "transition_is_valid r Running t" and "tr_status t = Failed"
  using assms by (auto simp: opened_def elim!: failure_valid [of r reason])

lemma drop_registration_store [simp]: "rn_store (drop_registration rn rid token) = rn_store rn"
  by (simp add: drop_registration_def)

lemma register_store [simp]: "rn_store (register rn rid token) = rn_store rn"
  by (simp add: register_def)

lemma setup_failed_closes:
  assumes "workflow_inv (rn_store rn)" and "stored rn (wr_id r) = Some r" and "opened r" and "length reason \<le> 32"
  obtains rn' v where "setup_failed rn r reason e = (Some (Inl e), rn')" and "workflow_inv (rn_store rn')"
    and "stored rn' = (stored rn)(wr_id r \<mapsto> v)" and "wr_status v = Failed" and "wr_id v = wr_id r"
proof -
  obtain t where t: "finish_failure r reason = Some t" "transition_is_valid r Running t" "tr_status t = Failed"
    using opened_failure [OF assms(3,4)] by metis
  obtain s' where s': "store_transition (rn_store rn) (rc_tenant_id (wr_context r)) (wr_id r) (wr_revision r) Running t
      = (Inr (Applied (apply_transition r t)), s')" "workflow_inv s'"
      "bt_get (ws_runs (guarded s')) = (stored rn)(wr_id r \<mapsto> apply_transition r t)"
    by (rule store_transition_applied [OF assms(1,2) t(2)])
  then show thesis using t
    by (intro that [of "rn\<lparr>rn_store := s'\<rparr>" "apply_transition r t"])
      (simp_all add: setup_failed_def terminalize_setup_failure_def)
qed

lemma closing_valid:
  assumes "opened r" and "collector_ok r c"
  obtains t err where "closing_transition r outcome c = (Some t, err)" and "transition_is_valid r Running t"
    and "is_terminal (tr_status t)"
proof (cases outcome)
  case (Inl e)
  have "length (failure_reason e) \<le> 32" by (cases e) simp_all
  from opened_failure [OF assms(1) this] Inl that show thesis
    by (auto simp: closing_transition_def is_terminal_def)
next
  case (Inr d)
  show thesis
  proof (cases "ec_output c")
    case None
    then have "finish_success r d c = Inl WfInvalidRequest" by (simp add: finish_success_def)
    moreover obtain t where "finish_failure r ''invalid_invocation_result'' = Some t"
        "transition_is_valid r Running t" "tr_status t = Failed"
      using opened_failure [OF assms(1), of "''invalid_invocation_result''"] by (simp, metis)
    ultimately show thesis using Inr that by (simp add: closing_transition_def is_terminal_def)
  next
    case (Some out)
    then obtain t where "finish_success r d c = Inr t" "transition_is_valid r Running t" "tr_status t = Succeeded"
      using success_valid [of r c d] assms by (auto simp: opened_def)
    then show thesis using Inr that by (simp add: closing_transition_def is_terminal_def)
  qed
qed

lemma finish_closes:
  assumes "workflow_inv (rn_store rn)" and "stored rn (wr_id (fl_active fl)) = Some (fl_active fl)"
    and "opened (fl_active fl)" and "collector_ok (fl_active fl) c"
  obtains res rn' v where "execute_finish rn fl outcome c = (Some res, rn')" and "workflow_inv (rn_store rn')"
    and "stored rn' = (stored rn)(wr_id (fl_active fl) \<mapsto> v)" and "is_terminal (wr_status v)"
    and "wr_id v = wr_id (fl_active fl)" and "wr_context v = wr_context (fl_active fl)" and "wr_revision v = 2"
    and "res = Inr (run_summary_from v) \<or> res = Inl WfLimitExceeded"
proof -
  let ?r = "fl_active fl"
  obtain t err where t: "closing_transition ?r outcome c = (Some t, err)" "transition_is_valid ?r Running t"
      "is_terminal (tr_status t)"
    by (rule closing_valid [OF assms(3,4)])
  let ?rn = "drop_registration rn (wr_id ?r) (fl_token fl)"
  obtain s' where s': "store_transition (rn_store ?rn) (rc_tenant_id (wr_context ?r)) (wr_id ?r) (wr_revision ?r)
      Running t = (Inr (Applied (apply_transition ?r t)), s')" "workflow_inv s'"
      "bt_get (ws_runs (guarded s')) = (stored ?rn)(wr_id ?r \<mapsto> apply_transition ?r t)"
    by (rule store_transition_applied [of "rn_store ?rn" ?r, OF _ _ t(2)]) (use assms in simp_all)
  then show thesis using t
    by (intro that [of "if err = Some WfLimitExceeded then Inl WfLimitExceeded
          else Inr (run_summary_from (apply_transition ?r t))" "?rn\<lparr>rn_store := s'\<rparr>" "apply_transition ?r t"])
      (use assms(3) in \<open>auto simp: execute_finish_def Let_def opened_def run_ok_def\<close>)
qed

section \<open>Starting and setting up\<close>

text \<open>What the runner relies on of SHA-256: the rendering is 64 lower-case hexadecimal digits.\<close>

definition sha_ok :: "workflow_env \<Rightarrow> bool" where
  "sha_ok env \<longleftrightarrow> (\<forall>s. length (env_sha256_hex env s) = 64
     \<and> list_all (\<lambda>b. is_ascii_digit b \<or> CHR ''a'' \<le> b \<and> b \<le> CHR ''f'') (env_sha256_hex env s))"

lemma derived_id_ok:
  assumes "sha_ok env" and "first_rest lower_or_digit id_tail prefix" and "length prefix \<le> 64"
  shows "derived_id env prefix s = Inr (prefix @ ''-'' @ take 32 (env_sha256_hex env s))"
proof -
  have tail: "id_tail b" if "is_ascii_digit b \<or> CHR ''a'' \<le> b \<and> b \<le> CHR ''f''" for b
    using that by (auto simp: id_tail_def ascii_defs intro: order_trans [of b "CHR ''f''"])
  have "list_all id_tail (take 32 (env_sha256_hex env s))"
    using assms(1) tail by (auto simp: sha_ok_def list_all_iff dest!: in_set_takeD)
  moreover have "id_tail (CHR ''-'')" by (simp add: id_tail_def)
  ultimately have "first_rest lower_or_digit id_tail (prefix @ ''-'' @ take 32 (env_sha256_hex env s))"
    using assms(2) by (cases prefix) auto
  moreover have "length (env_sha256_hex env s) = 64" using assms(1) by (simp add: sha_ok_def)
  ultimately show ?thesis using assms(3) by (simp add: derived_id_def logical_id_new_def)
qed

lemma attempt_id_ok: "sha_ok env \<Longrightarrow> \<exists>aid. derived_id env ''attempt'' s = Inr aid"
  by (auto simp: derived_id_ok lower_or_digit_def id_tail_def ascii_defs)

lemma start_runs:
  assumes "workflow_inv (rn_store rn)" and "stored rn (wr_id q) = Some q" and "wr_status q = Pending"
    and "7 \<le> wr_max_evidence_bytes q"
    and "validate_invocation_policy (ip_ceiling (ps_policy ps)) (ip_policy_decision_digest (ps_policy ps)) = Inr ()"
    and "sha_ok env"
  obtains s' aid active where "execute_start env rn ps q = (Inr (aid, active), rn\<lparr>rn_store := s'\<rparr>)"
    and "workflow_inv s'" and "bt_get (ws_runs (guarded s')) = (stored rn)(wr_id q \<mapsto> active)" and "run_ok active"
    and "wr_status active = Running" and "length (wr_events active) = 1" and "events_size (wr_events active) = 7"
    and "wr_max_evidence_bytes active = wr_max_evidence_bytes q" and "wr_id active = wr_id q"
    and "wr_context active = wr_context q"
proof -
  obtain aid where aid: "derived_id env ''attempt'' (wr_id q @ '':1'') = Inr aid" using attempt_id_ok [OF assms(6)] by blast
  let ?t = "started_transition aid (ps_definition ps) (ps_policy ps)"
  have ok: "run_ok q" using assms(1,2) by (auto simp: workflow_inv_def state_inv_def)
  have valid: "transition_is_valid q Pending ?t" by (rule started_valid [OF ok assms(3-5)])
  obtain s' where s': "store_transition (rn_store rn) (rc_tenant_id (wr_context q)) (wr_id q) (wr_revision q) Pending ?t
      = (Inr (Applied (apply_transition q ?t)), s')" "workflow_inv s'"
      "bt_get (ws_runs (guarded s')) = (stored rn)(wr_id q \<mapsto> apply_transition q ?t)"
    by (rule store_transition_applied [OF assms(1,2) valid])
  have "wr_events q = []" using ok assms(3) by (auto simp: run_ok_def attempt_fits_def split: option.splits)
  with s' aid apply_transition_ok [OF ok valid] show thesis
    by (intro that [of aid "apply_transition q ?t" s']) (simp_all add: execute_start_def started_transition_def)
qed

lemma start_opens:
  assumes "workflow_inv (rn_store rn)" and "stored rn (wr_id q) = Some q" and "wr_status q = Pending"
    and "56 \<le> wr_max_evidence_bytes q"
    and "validate_invocation_policy (ip_ceiling (ps_policy ps)) (ip_policy_decision_digest (ps_policy ps)) = Inr ()"
    and "sha_ok env"
  obtains rn' aid active where "execute_start env rn ps q = (Inr (aid, active), rn')"
    and "workflow_inv (rn_store rn')" and "stored rn' = (stored rn)(wr_id q \<mapsto> active)" and "opened active"
    and "wr_id active = wr_id q" and "wr_context active = wr_context q"
proof -
  have "7 \<le> wr_max_evidence_bytes q" using assms(4) by simp
  from start_runs [OF assms(1-3) this assms(5,6)] obtain s' aid active where
    "execute_start env rn ps q = (Inr (aid, active), rn\<lparr>rn_store := s'\<rparr>)" "workflow_inv s'"
    "bt_get (ws_runs (guarded s')) = (stored rn)(wr_id q \<mapsto> active)" "run_ok active" "wr_status active = Running"
    "length (wr_events active) = 1" "events_size (wr_events active) = 7"
    "wr_max_evidence_bytes active = wr_max_evidence_bytes q" "wr_id active = wr_id q" "wr_context active = wr_context q"
    by metis
  then show thesis using assms(4) by (intro that [of aid active "rn\<lparr>rn_store := s'\<rparr>"]) (simp_all add: opened_def)
qed

lemma setup_flies:
  assumes "run_ok r" and "sha_ok env" and "\<not> poisoned (rn_cancellations rn)"
    and "unat (rn_next_registration rn) + 1 < 2 ^ 64"
  obtains fl rn' where "execute_setup env rn ps aid r True = (Some (Inr fl), rn')" and "fl_active fl = r"
    and "fl_token fl = rn_next_registration rn" and "collector_ok r (fl_evidence fl)"
    and "ec_events (fl_evidence fl) = []" and "ec_output (fl_evidence fl) = None" and "rn_store rn' = rn_store rn"
    and "rn_cancellations rn' = (rn_cancellations rn)\<lparr>guarded :=
      bt_insert (wr_id r) (rn_next_registration rn) (guarded (rn_cancellations rn))\<rparr>"
proof -
  obtain c where c: "evidence_collector_new (wr_max_evidence_bytes r) (wr_events r) = Inr c" "collector_ok r c"
    using collector_new_ok [OF assms(1)] by metis
  moreover from c(1) have "ec_events c = []" "ec_output c = None"
    by (auto simp: evidence_collector_new_def result_simps split: if_splits)
  moreover have "identifier_new (env_sha256_hex env x) = Inr (env_sha256_hex env x)" for x
  proof -
    have "length (env_sha256_hex env x) = 64" using assms(2) by (simp add: sha_ok_def)
    then show ?thesis
      by (cases "env_sha256_hex env x")
        (auto simp: identifier_new_def validate_identifier_def validate_len_def MAX_IDENTIFIER_BYTES_def)
  qed
  ultimately show thesis using assms(3,4) that
    by (simp add: execute_setup_def Let_def checked_add_def register_def)
qed

lemma setup_outcome:
  assumes "workflow_inv (rn_store rn)" and "stored rn (wr_id r) = Some r" and "opened r"
  obtains (invoke) fl rn' where "execute_setup env rn ps aid r instant_ok = (Some (Inr fl), rn')"
      and "rn_store rn' = rn_store rn" and "fl_active fl = r" and "collector_ok r (fl_evidence fl)"
  | (closed) e rn' v where "execute_setup env rn ps aid r instant_ok = (Some (Inl e), rn')"
      and "workflow_inv (rn_store rn')" and "stored rn' = (stored rn)(wr_id r \<mapsto> v)" and "wr_status v = Failed"
      and "wr_id v = wr_id r"
proof -
  have fails: "\<exists>rn' v. setup_failed rn0 r reason e = (Some (Inl e :: (flight, workflow_error) result), rn') \<and> workflow_inv (rn_store rn')
      \<and> stored rn' = (stored rn)(wr_id r \<mapsto> v) \<and> wr_status v = Failed \<and> wr_id v = wr_id r"
    if "rn_store rn0 = rn_store rn" "length reason \<le> 32" for rn0 :: runner and reason and e :: workflow_error
    using setup_failed_closes [of rn0 r reason e] that assms by metis
  obtain c where c: "evidence_collector_new (wr_max_evidence_bytes r) (wr_events r) = Inr c" "collector_ok r c"
    using assms(3) collector_new_ok unfolding opened_def by metis
  obtain res rn' where out: "execute_setup env rn ps aid r instant_ok = (res, rn')" by fastforce
  have failed: thesis
    if "setup_failed rn0 r reason e = (res, rn')" "rn_store rn0 = rn_store rn" "length reason \<le> 32" for rn0 reason e
    using fails [OF that(2,3), of e] that(1) out by (auto intro: closed)
  have flying: thesis
    if "res = Some (Inr fl)" "rn_store rn' = rn_store rn" "fl_active fl = r" "fl_evidence fl = c" for fl
    using invoke [of fl rn'] out that c(2) by simp
  show thesis using out [unfolded execute_setup_def Let_def] c
    by (auto split: option.splits sum.splits if_splits intro: flying dest!: failed)
qed

section \<open>A whole execution\<close>

text \<open>
  An invoker holds the collector only as a sink: what it leaves behind comes from calls of \<^const>\<open>emit\<close>
  with evidence that has a kind, as \<^const>\<open>invocation_evidence_new\<close> guarantees.
\<close>

inductive emits :: "evidence_collector \<Rightarrow> evidence_collector \<Rightarrow> bool" for c where
  nothing: "emits c c"
| item: "emits c d \<Longrightarrow> ie_kind i \<noteq> [] \<Longrightarrow> emits c (snd (emit d i))"

lemma emits_ok: "emits c d \<Longrightarrow> collector_ok r c \<Longrightarrow> collector_ok r d"
  by (induction rule: emits.induct) (simp_all add: emit_ok)

lemma emits_trans: "emits d e \<Longrightarrow> emits c d \<Longrightarrow> emits c e"
  by (induction rule: emits.induct) (auto intro: emits.item)

lemma emit_all_emits: "\<forall>i\<in>set items. ie_kind i \<noteq> [] \<Longrightarrow> emits c (snd (emit_all c items))"
proof (induction items arbitrary: c)
  case (Cons i items)
  have "emits c (snd (emit c i))" using emits.item [OF emits.nothing] Cons.prems by simp
  with Cons emits_trans show ?case by (cases "emit c i"; cases "fst (emit c i)") auto
qed (simp add: emits.nothing)

lemma static_invoke_emits:
  assumes "\<forall>d items. invocation = Succeed d items \<longrightarrow> (\<forall>i\<in>set items. ie_kind i \<noteq> [])"
  shows "emits c (snd (static_invoke invocation control c))"
proof (cases invocation)
  case (Succeed d items)
  with assms have "emits c (snd (emit_all c items))" by (simp add: emit_all_emits)
  with Succeed show ?thesis
    by (cases "emit_all c items")
      (auto simp: static_invoke_def preflight_def emits.nothing split: sum.splits)
qed (auto simp: static_invoke_def preflight_def emits.nothing)

lemma execute_closes:
  assumes "workflow_inv (rn_store rn)" and "stored rn (wr_id q) = Some q" and "wr_status q = Pending"
    and "56 \<le> wr_max_evidence_bytes q"
    and "validate_invocation_policy (ip_ceiling (ps_policy ps)) (ip_policy_decision_digest (ps_policy ps)) = Inr ()"
    and "sha_ok env" and "\<And>req c. emits c (snd (invoke req c))"
  obtains res rn' v where "execute env invoke instant_ok rn ps q = (Some res, rn')" and "workflow_inv (rn_store rn')"
    and "stored rn' (wr_id q) = Some v" and "is_terminal (wr_status v)" and "\<forall>s. res = Inr s \<longrightarrow> s = run_summary_from v"
proof -
  obtain rn1 aid r where start: "execute_start env rn ps q = (Inr (aid, r), rn1)" "workflow_inv (rn_store rn1)"
      "stored rn1 = (stored rn)(wr_id q \<mapsto> r)" "opened r" "wr_id r = wr_id q"
    using start_opens [OF assms(1-6)] by metis
  then have here: "stored rn1 (wr_id r) = Some r" by simp
  show thesis
  proof (cases rule: setup_outcome [OF start(2) here start(4), of env ps aid instant_ok])
    case (1 fl rn2)
    note flying = this
    obtain outcome c where out: "invoke (fl_request fl) (fl_evidence fl) = (outcome, c)" by fastforce
    with assms(7) [of "fl_evidence fl" "fl_request fl"] flying(4) have "collector_ok r c"
      by (simp add: emits_ok)
    with finish_closes [of rn2 fl c outcome] flying start here obtain res rn' v where
      "execute_finish rn2 fl outcome c = (Some res, rn')" "workflow_inv (rn_store rn')"
      "stored rn' = (stored rn2)(wr_id r \<mapsto> v)" "is_terminal (wr_status v)"
      "res = Inr (run_summary_from v) \<or> res = Inl WfLimitExceeded" by metis
    with start flying out that [of res rn' v] show thesis by (auto simp: execute_def)
  next
    case (2 e rn' v)
    with start that [of "Inl e" rn' v] show thesis by (simp add: execute_def is_terminal_def)
  qed
qed

end
