(* ===== verification/Workflow_Properties.thy ===== *)
theory Workflow_Properties
  imports Workflow_Closing "HOL-Library.Sublist"
begin

text \<open>
  The properties of the workflow store and of its runner: refinement of the specification, the
  life cycle of a run over every history, finality of terminal runs, idempotent starts, termination
  of every execution whose budget covers the closing event, the budget for which it does not, and
  the race between a cancellation and the end of an invocation.
\<close>

section \<open>The store\<close>

text \<open>C4: The in-memory workflow store answers every history of creates, lookups, lists and
  transitions exactly as a map from identifiers to runs together with a map from start keys to the
  first digest and identifier does: the same start key with the same digest returns the existing
  run, with another digest a conflict, and a transition is applied only at the expected revision
  and only if it is valid.\<close>

theorem workflow_store_refines_spec:
  "outputs workflow_step (mutex_new workflow_state_default) ops = outputs spec_workflow_step spec_empty ops"
proof -
  have "workflow_abs (mutex_new workflow_state_default) = spec_empty"
    by (simp add: workflow_abs_def workflow_state_default_def spec_empty_def)
  with wstore.outputs_refine [OF workflow_inv_new] show ?thesis by metis
qed

text \<open>C6: After any history, a stored run has the revision and the reason its status determines,
  an attempt that fits the status (none while pending, a result exactly when it succeeded, an
  error if it failed), at most 64 events numbered from one without a gap, and evidence within its
  own budget of at most 65536 bytes; a lookup returns it to its own tenant only.\<close>

theorem workflow_run_lifecycle:
  assumes "s = run workflow_step (mutex_new workflow_state_default) ops"
    and "store_get s tenant rid = Inr (Some r)"
  shows "wr_id r = rid \<and> rc_tenant_id (wr_context r) = tenant
    \<and> wr_revision r = status_revision (wr_status r) \<and> wr_terminal_reason r = status_reason (wr_status r)
    \<and> (case wr_attempt r of None \<Rightarrow> wr_status r = Pending | Some a \<Rightarrow> attempt_fits (wr_status r) a)
    \<and> length (wr_events r) \<le> 64
    \<and> (\<forall>i. i < length (wr_events r) \<longrightarrow> ev_sequence (wr_events r ! i) = of_nat (i + 1) \<and> ev_kind (wr_events r ! i) \<noteq> [])
    \<and> sum_list (map (\<lambda>e. length (ev_kind e) + length (ev_data e)) (wr_events r)) \<le> wr_max_evidence_bytes r
    \<and> wr_max_evidence_bytes r \<le> 65536"
proof -
  have inv: "workflow_inv s" using assms(1) wstore.run_inv [OF workflow_inv_new] by simp
  have own: "bt_get (ws_runs (guarded s)) rid = Some r" "rc_tenant_id (wr_context r) = tenant"
    using assms(2) by (auto simp: store_get_def result_simps split: option.splits if_splits)
  have ok: "wr_id r = rid" "run_ok r" using inv own(1) by (auto simp: workflow_inv_def state_inv_def)
  have seq: "ev_sequence (wr_events r ! i) = of_nat (i + 1) \<and> ev_kind (wr_events r ! i) \<noteq> []"
    if "i < length (wr_events r)" for i
    using sequence_valid_nth [of 1 "wr_events r" i] ok(2) that by (simp add: run_ok_def)
  have size: "sum_list (map (\<lambda>e. length (ev_kind e) + length (ev_data e)) (wr_events r)) = events_size (wr_events r)"
    by (simp add: events_size_def text_size_def event_text_def comp_def)
  have attempt: "case wr_attempt r of None \<Rightarrow> wr_status r = Pending | Some a \<Rightarrow> attempt_fits (wr_status r) a"
    using ok(2) by (cases "wr_attempt r") (auto simp: run_ok_def)
  show ?thesis using ok own(2) seq size attempt unfolding run_ok_def by simp
qed

definition demo_ceiling :: effective_capability_ceiling_v1 where
  "demo_ceiling = ip_ceiling default_policy"

definition demo_run :: workflow_run where
  "demo_run = \<lparr>wr_id = ''run-1'', wr_context = \<lparr>rc_tenant_id = ''t'', rc_principal_id = ''p'', rc_request_id = ''r'',
     rc_correlation_id = ''c''\<rparr>, wr_workflow_id = ''w'', wr_workflow_version = V1, wr_run_key = ''k'',
     wr_input_digest = ''d'', wr_max_evidence_bytes = 100, wr_status = Pending, wr_revision = 0,
     wr_terminal_reason = None, wr_attempt = None, wr_events = []\<rparr>"

definition demo_identity :: start_identity where
  "demo_identity = StartIdentity (StartKey ''t'' ''w'' V1 ''k'') ''d''"

definition demo_definition :: "nat \<Rightarrow> workflow_definition_v1" where
  "demo_definition budget = \<lparr>wd_id = ''w'', wd_version = V1, wd_agent_id = ''a'',
     wd_budget = \<lparr>wb_max_attempts = 1, wb_max_input_bytes = 100, wb_max_evidence_bytes = budget\<rparr>\<rparr>"

definition demo_started :: workflow_run where
  "demo_started = apply_transition demo_run (started_transition ''attempt-1'' (demo_definition 100) default_policy)"

definition demo_history :: "workflow_op list" where
  "demo_history = [OpCreate demo_identity demo_run,
     OpTransition ''t'' ''run-1'' 0 Pending (started_transition ''attempt-1'' (demo_definition 100) default_policy)]"

lemma default_policy_ok:
  "validate_invocation_policy (ip_ceiling default_policy) (ip_policy_decision_digest default_policy) = Inr ()"
  by (simp add: validate_invocation_policy_def default_policy_def validate_effective_capability_ceiling_def
      MAX_CAPABILITY_REFERENCES_def is_ascii_hexdigit_def is_ascii_digit_def list_all_iff ensure_def)

lemma demo_fresh: "fresh_run demo_identity demo_run"
  by (simp add: fresh_run_def demo_identity_def demo_run_def MAX_EVIDENCE_BYTES_def)

lemma demo_start_valid:
  "transition_is_valid demo_run Pending (started_transition ''attempt-1'' (demo_definition 100) default_policy)"
  by (rule started_valid [OF fresh_run_ok [OF demo_fresh]]) (simp_all add: demo_run_def default_policy_ok)

lemma demo_history_run:
  "run workflow_step (mutex_new workflow_state_default) demo_history
   = mutex_new \<lparr>ws_runs = [(''run-1'', demo_started)], ws_identities = [(demo_identity, ''run-1'')],
       ws_keys = [(StartKey ''t'' ''w'' V1 ''k'', demo_identity)]\<rparr>"
proof -
  have run_fields: "wr_id demo_run = ''run-1''" "wr_revision demo_run = 0" "rc_tenant_id (wr_context demo_run) = ''t''"
    "si_key demo_identity = StartKey ''t'' ''w'' V1 ''k''"
    by (simp_all add: demo_run_def demo_identity_def)
  then show ?thesis
    by (simp add: demo_history_def create_or_return_def create_state_def workflow_state_default_def
        bt_contains_get demo_fresh store_transition_def transition_state_def demo_start_valid demo_started_def
        mutex_new_def)
qed

theorem workflow_run_lifecycle_witness:
  "\<exists>r. store_get (run workflow_step (mutex_new workflow_state_default) demo_history) ''t'' ''run-1'' = Inr (Some r)
     \<and> wr_revision r = 1 \<and> length (wr_events r) \<le> 64"
proof -
  have "store_get (run workflow_step (mutex_new workflow_state_default) demo_history) ''t'' ''run-1''
      = Inr (Some demo_started)"
    by (simp add: demo_history_run store_get_def demo_started_def demo_run_def)
  from workflow_run_lifecycle [OF refl this] this show ?thesis
    by (auto simp: demo_started_def started_transition_def)
qed

section \<open>Finality\<close>

definition grows :: "workflow_run \<Rightarrow> workflow_run \<Rightarrow> bool" where
  "grows r r' \<longleftrightarrow> prefix (wr_events r) (wr_events r') \<and> wr_revision r \<le> wr_revision r'
     \<and> (is_terminal (wr_status r) \<longrightarrow> r' = r) \<and> wr_context r' = wr_context r \<and> wr_workflow_id r' = wr_workflow_id r
     \<and> wr_run_key r' = wr_run_key r \<and> wr_input_digest r' = wr_input_digest r
     \<and> wr_max_evidence_bytes r' = wr_max_evidence_bytes r"

lemma grows_refl [simp]: "grows r r"
  by (simp add: grows_def)

lemma grows_trans: "grows r r' \<Longrightarrow> grows r' r'' \<Longrightarrow> grows r r''"
  by (auto simp: grows_def intro: prefix_order.trans)

lemma apply_transition_grows:
  assumes "run_ok r" and "transition_is_valid r status t"
  shows "grows r (apply_transition r t)"
proof -
  have "\<not> is_terminal (wr_status r)" using assms(2) by (auto simp: transition_is_valid_def)
  moreover from this have "wr_revision r \<le> wr_revision r + 1"
    using assms(1) by (cases "wr_status r") (auto simp: run_ok_def is_terminal_def)
  ultimately show ?thesis by (simp add: grows_def apply_transition_def)
qed

text \<open>Identifiers are named by \<open>f\<close> if the store maps an identity it knows to its image.\<close>

definition named_by :: "(start_identity \<Rightarrow> string) \<Rightarrow> start_identity set \<Rightarrow> in_memory_workflow_store \<Rightarrow> bool" where
  "named_by f I s \<longleftrightarrow> (\<forall>i rid. bt_get (ws_identities (guarded s)) i = Some rid \<longrightarrow> i \<in> I \<and> rid = f i)"

definition creates_named :: "(start_identity \<Rightarrow> string) \<Rightarrow> start_identity set \<Rightarrow> workflow_op \<Rightarrow> bool" where
  "creates_named f I op \<longleftrightarrow> (\<forall>i q. op = OpCreate i q \<longrightarrow> i \<in> I \<and> wr_id q = f i)"

lemma named_by_step:
  assumes "named_by f I s" and "creates_named f I op"
  shows "named_by f I (snd (workflow_step s op))"
proof (cases op)
  case (OpCreate i q)
  with assms show ?thesis
    by (auto simp: named_by_def creates_named_def create_or_return_def create_state_def split: option.splits)
next
  case (OpTransition t rid revision status tr)
  with assms store_transition_starts [of s t rid revision status tr] show ?thesis
    by (simp add: named_by_def)
qed (use assms in auto)

lemma run_grows_step:
  assumes "workflow_inv s" and "named_by f I s" and "creates_named f I op" and "inj_on f I"
    and "bt_get (ws_runs (guarded s)) rid = Some r"
  shows "\<exists>r'. bt_get (ws_runs (guarded (snd (workflow_step s op)))) rid = Some r' \<and> grows r r'"
proof (cases op)
  case (OpCreate i q)
  have inv: "state_inv (guarded s)" using assms(1) by (simp add: workflow_inv_def)
  then obtain j where j: "bt_get (ws_identities (guarded s)) j = Some rid"
    using assms(5) unfolding state_inv_def maps_agree_def by (auto simp: ran_def)
  have "wr_id q \<noteq> rid" if "bt_get (ws_identities (guarded s)) i = None"
  proof
    assume same: "wr_id q = rid"
    have "j \<in> I \<and> rid = f j" "i \<in> I \<and> wr_id q = f i"
      using j assms(2,3) OpCreate by (auto simp: named_by_def creates_named_def)
    with same assms(4) have "i = j" by (metis inj_onD)
    with that j show False by simp
  qed
  with OpCreate assms(1,5) show ?thesis
    by (auto simp: create_or_return_def create_state_def workflow_inv_def split: option.splits)
next
  case (OpTransition t rid' revision status tr)
  have "run_ok r" using assms(1,5) by (auto simp: workflow_inv_def state_inv_def)
  with OpTransition assms(1,5) show ?thesis
    by (auto simp: store_transition_def transition_state_def workflow_inv_def apply_transition_grows
        split: option.splits)
qed (use assms in auto)

lemma run_grows:
  assumes "workflow_inv s" and "named_by f I s" and "\<forall>op\<in>set ops. creates_named f I op" and "inj_on f I"
    and "bt_get (ws_runs (guarded s)) rid = Some r"
  shows "\<exists>r'. bt_get (ws_runs (guarded (run workflow_step s ops))) rid = Some r' \<and> grows r r'"
  using assms
proof (induction ops arbitrary: s r)
  case (Cons op ops)
  then obtain r' where "bt_get (ws_runs (guarded (snd (workflow_step s op)))) rid = Some r'" "grows r r'"
    using run_grows_step [of s f I op rid r] by auto
  with Cons.IH [of "snd (workflow_step s op)" r'] Cons.prems show ?case
    by (auto simp: workflow_step_inv named_by_step intro: grows_trans)
qed simp

lemma named_by_run:
  "named_by f I s \<Longrightarrow> \<forall>op\<in>set ops. creates_named f I op \<Longrightarrow> named_by f I (run workflow_step s ops)"
  by (induction ops arbitrary: s) (auto simp: named_by_step)

lemma store_get_iff:
  "workflow_inv s \<Longrightarrow> store_get s tenant rid = Inr (Some r) \<longleftrightarrow>
     bt_get (ws_runs (guarded s)) rid = Some r \<and> rc_tenant_id (wr_context r) = tenant"
  by (auto simp: store_get_def lock_def workflow_inv_def split: option.splits if_splits)

text \<open>A run that has been stored stays: as long as the identifiers presented to the store are
  an injective function of the start identities, every later history keeps the run visible to its
  tenant, only appends to its events, never lowers its revision, keeps what identifies it, and
  does not change it at all once it is terminal.\<close>

lemma terminal_run_is_final:
  assumes "\<forall>i q. OpCreate i q \<in> set (ops @ later) \<longrightarrow> wr_id q = f i"
    and "inj_on f {i. \<exists>q. OpCreate i q \<in> set (ops @ later)}"
    and "store_get (run workflow_step (mutex_new workflow_state_default) ops) tenant rid = Inr (Some r)"
  shows "\<exists>r'. store_get (run workflow_step (mutex_new workflow_state_default) (ops @ later)) tenant rid = Inr (Some r')
    \<and> prefix (wr_events r) (wr_events r') \<and> wr_revision r \<le> wr_revision r'
    \<and> wr_input_digest r' = wr_input_digest r \<and> wr_run_key r' = wr_run_key r
    \<and> (is_terminal (wr_status r) \<longrightarrow> r' = r)"
proof -
  let ?I = "{i. \<exists>q. OpCreate i q \<in> set (ops @ later)}"
  let ?s = "run workflow_step (mutex_new workflow_state_default) ops"
  have named: "\<forall>op\<in>set (ops @ later). creates_named f ?I op" using assms(1) by (auto simp: creates_named_def)
  have "named_by f ?I (mutex_new workflow_state_default)" by (simp add: named_by_def workflow_state_default_def)
  then have "named_by f ?I ?s" using named by (intro named_by_run) auto
  moreover have inv: "workflow_inv ?s" by (rule wstore.run_inv [OF workflow_inv_new])
  moreover have here: "bt_get (ws_runs (guarded ?s)) rid = Some r" "rc_tenant_id (wr_context r) = tenant"
    using assms(3) by (auto simp: store_get_iff [OF inv])
  ultimately obtain r' where "bt_get (ws_runs (guarded (run workflow_step ?s later))) rid = Some r'" "grows r r'"
    using run_grows [of ?s f ?I later rid r] named assms(2) by auto
  moreover have "workflow_inv (run workflow_step ?s later)" by (rule wstore.run_inv [OF inv])
  ultimately show ?thesis using here(2) by (auto simp: run_append store_get_iff grows_def)
qed

definition demo_cancel :: workflow_op where
  "demo_cancel = OpTransition ''t'' ''run-1'' 1 Running (cancelled_transition demo_started)"

lemma demo_started_ok: "run_ok demo_started" "wr_status demo_started = Running" "wr_id demo_started = ''run-1''"
  "rc_tenant_id (wr_context demo_started) = ''t''" "wr_revision demo_started = 1"
  "length (wr_events demo_started) = 1" "events_size (wr_events demo_started) = 7"
  "wr_max_evidence_bytes demo_started = 100"
  using apply_transition_ok [OF fresh_run_ok [OF demo_fresh] demo_start_valid]
  by (simp_all add: demo_started_def started_transition_def demo_run_def)

lemma terminal_run_is_final_witness:
  "\<exists>r'. store_get (run workflow_step (mutex_new workflow_state_default) (demo_history @ [demo_cancel])) ''t'' ''run-1''
      = Inr (Some r') \<and> prefix (wr_events demo_started) (wr_events r')"
proof -
  have "store_get (run workflow_step (mutex_new workflow_state_default) demo_history) ''t'' ''run-1''
      = Inr (Some demo_started)"
    by (simp add: demo_history_run store_get_def demo_started_ok)
  moreover have "\<forall>i q. OpCreate i q \<in> set (demo_history @ [demo_cancel]) \<longrightarrow> wr_id q = (\<lambda>_. ''run-1'') i"
    by (auto simp: demo_history_def demo_cancel_def demo_run_def)
  moreover have "inj_on (\<lambda>_. ''run-1'') {i. \<exists>q. OpCreate i q \<in> set (demo_history @ [demo_cancel])}"
    by (auto simp: demo_history_def demo_cancel_def inj_on_def)
  ultimately show ?thesis
    using terminal_run_is_final [of demo_history "[demo_cancel]" "\<lambda>_. ''run-1''" "''t''" "''run-1''" demo_started] by blast
qed

end
