(* ===== verification/Workflow_Starts.thy ===== *)
theory Workflow_Starts
  imports Workflow_Properties
begin

text \<open>
  The properties of whole calls of the runner: repeating a start, reaching a terminal status,
  the evidence budget for which that fails, and the material run identifiers are derived from.
\<close>

section \<open>Repeating a start\<close>

text \<open>What every stage keeps of the store: the recorded starts, and the invariant.\<close>

definition keeps :: "in_memory_workflow_store \<Rightarrow> in_memory_workflow_store \<Rightarrow> bool" where
  "keeps s s' \<longleftrightarrow> same_starts s s' \<and> (workflow_inv s \<longrightarrow> workflow_inv s')"

lemma keeps_refl [simp]: "keeps s s"
  by (simp add: keeps_def)

lemma keeps_trans: "keeps s s' \<Longrightarrow> keeps s' s'' \<Longrightarrow> keeps s s''"
  by (auto simp: keeps_def)

lemma store_transition_keeps: "store_transition s tenant rid revision status t = (res, s') \<Longrightarrow> keeps s s'"
  using store_transition_starts [of s tenant rid revision status t]
    store_transition_inv [of s tenant rid revision status t] by (auto simp: keeps_def)

lemma execute_start_keeps: "keeps (rn_store rn) (rn_store (snd (execute_start env rn ps r)))"
  by (auto simp: execute_start_def intro: store_transition_keeps split: sum.split prod.split)

lemma setup_failed_keeps: "keeps (rn_store rn) (rn_store (snd (setup_failed rn r reason e)))"
  by (auto simp: setup_failed_def terminalize_setup_failure_def intro: store_transition_keeps
      split: option.split prod.split)

lemma execute_setup_keeps:
  "keeps (rn_store rn) (rn_store (snd (execute_setup env rn ps aid r instant_ok)))"
proof -
  have "keeps (rn_store rn) (rn_store (snd (setup_failed rn0 r reason e :: (flight, workflow_error) result option \<times> runner)))"
    if "rn_store rn0 = rn_store rn" for rn0 reason e
    using setup_failed_keeps [of rn0 r reason e] that by simp
  then show ?thesis by (simp add: execute_setup_def Let_def split: sum.split option.split)
qed

lemma execute_finish_keeps: "keeps (rn_store rn) (rn_store (snd (execute_finish rn fl outcome c)))"
  by (auto simp: execute_finish_def Let_def intro: store_transition_keeps split: prod.split option.split)

lemma execute_keeps: "keeps (rn_store rn) (rn_store (snd (execute env invoke instant_ok rn ps r)))"
proof -
  obtain res rn1 where start: "execute_start env rn ps r = (res, rn1)" by fastforce
  have one: "keeps (rn_store rn) (rn_store rn1)" using execute_start_keeps [of rn env ps r] start by simp
  show ?thesis
  proof (cases res)
    case (Inr q)
    obtain aid active where q: "q = (aid, active)" by fastforce
    obtain res2 rn2 where mid: "execute_setup env rn1 ps aid active instant_ok = (res2, rn2)" by fastforce
    have "keeps (rn_store rn1) (rn_store rn2)"
      using execute_setup_keeps [of rn1 env ps aid active instant_ok] mid by simp
    with one have two: "keeps (rn_store rn) (rn_store rn2)" by (rule keeps_trans)
    then show ?thesis using start Inr q mid keeps_trans [OF two execute_finish_keeps]
      by (auto simp: execute_def split: option.split sum.split prod.split)
  qed (use one start in \<open>simp add: execute_def\<close>)
qed

lemma start_prepare_key:
  assumes "start_prepare env context wid version key input policy = Inr ps"
  shows "si_key (ps_identity ps) = StartKey (rc_tenant_id context) wid version key"
    and "fresh_run (ps_identity ps) (ps_run ps)" and "ps_policy ps = policy"
    and "validate_invocation_policy (ip_ceiling policy) (ip_policy_decision_digest policy) = Inr ()"
    and "\<exists>d. env_resolve env wid version = Inr (Some d)
      \<and> wr_max_evidence_bytes (ps_run ps) = wb_max_evidence_bytes (wd_budget d)"
  using assms
  by (auto simp: start_prepare_def result_simps Let_def fresh_run_def runner_validate_def validate_definition_def
      MIN_TERMINAL_EVIDENCE_BYTES_def split: if_splits)

text \<open>C17: Starting is idempotent per start key. Once a start has created its run, whatever its
  execution returned, every further start of the same tenant, workflow, version and run key leaves
  the runner as it is, invokes nothing, and returns the summary of that run if its canonical input
  has the same digest and a run-key conflict otherwise.\<close>

theorem start_is_idempotent:
  assumes "workflow_inv (rn_store rn)"
    and "start_prepare env context wid version key input policy = Inr ps"
    and "bt_get (ws_keys (guarded (rn_store rn))) (si_key (ps_identity ps)) = None"
    and "start_with_policy env invoke instant_ok rn context wid version key input policy = (res, rn')"
    and "rc_tenant_id context' = rc_tenant_id context"
    and "start_prepare env context' wid version key input' policy' = Inr ps'"
  shows "\<exists>r. bt_get (ws_runs (guarded (rn_store rn'))) (wr_id (ps_run ps)) = Some r \<and> wr_id r = wr_id (ps_run ps)
    \<and> start_with_policy env invoke' instant_ok' rn' context' wid version key input' policy' =
      (if si_input_digest (ps_identity ps') = si_input_digest (ps_identity ps)
       then (Some (Inr (run_summary_from r)), rn') else (Some (Inl WfRunKeyConflict), rn'))"
proof -
  note prepared = start_prepare_key [OF assms(2)] and prepared' = start_prepare_key [OF assms(6)]
  let ?i = "ps_identity ps" and ?i' = "ps_identity ps'"
  have inv: "state_inv (guarded (rn_store rn))" and unpoisoned: "\<not> poisoned (rn_store rn)"
    using assms(1) by (auto simp: workflow_inv_def)
  have absent: "bt_get (ws_identities (guarded (rn_store rn))) ?i = None"
    using inv assms(3) by (cases "bt_get (ws_identities (guarded (rn_store rn))) ?i")
      (auto simp: state_inv_def maps_agree_def)
  define store where "store = (rn_store rn)\<lparr>guarded :=
    \<lparr>ws_runs = bt_insert (wr_id (ps_run ps)) (ps_run ps) (ws_runs (guarded (rn_store rn))),
     ws_identities = bt_insert ?i (wr_id (ps_run ps)) (ws_identities (guarded (rn_store rn))),
     ws_keys = bt_insert (si_key ?i) ?i (ws_keys (guarded (rn_store rn)))\<rparr>\<rparr>"
  have created: "create_or_return (rn_store rn) ?i (ps_run ps) = (Inr (Created (ps_run ps)), store)"
    using absent assms(3) unpoisoned prepared(2)
    by (simp add: create_or_return_def create_state_def bt_contains_get store_def)
  have "rn' = snd (execute env invoke instant_ok (rn\<lparr>rn_store := store\<rparr>) ps (ps_run ps))"
    using assms(4) by (simp add: start_with_policy_def assms(2) created)
  moreover have "workflow_inv store"
    using workflow_step_inv [OF assms(1), of "OpCreate ?i (ps_run ps)"] created by simp
  ultimately have inv': "workflow_inv (rn_store rn')" and starts: "same_starts store (rn_store rn')"
    using execute_keeps [of "rn\<lparr>rn_store := store\<rparr>" env invoke instant_ok ps "ps_run ps"]
    by (auto simp: keeps_def)
  let ?st = "guarded (rn_store rn')"
  have known: "bt_get (ws_identities ?st) ?i = Some (wr_id (ps_run ps))" "bt_get (ws_keys ?st) (si_key ?i) = Some ?i"
    unfolding starts [THEN conjunct1, symmetric] starts [THEN conjunct2, symmetric] by (simp_all add: store_def)
  obtain r where r: "bt_get (ws_runs ?st) (wr_id (ps_run ps)) = Some r" "wr_id r = wr_id (ps_run ps)"
    using inv' known(1) unfolding workflow_inv_def state_inv_def maps_agree_def by blast
  have same_key: "si_key ?i' = si_key ?i" using prepared(1) prepared'(1) assms(5) by simp
  have "create_or_return (rn_store rn') ?i' (ps_run ps') =
      (Inr (if si_input_digest ?i' = si_input_digest ?i then Existing r else CreateConflict), rn_store rn')"
  proof (cases "si_input_digest ?i' = si_input_digest ?i")
    case True
    then have "?i' = ?i" using same_key by (simp add: start_identity.expand)
    with inv' known r show ?thesis
      by (simp add: create_or_return_def create_state_def workflow_inv_def)
  next
    case False
    have "bt_get (ws_keys ?st) (si_key ?i') = Some ?i'" if "bt_get (ws_identities ?st) ?i' = Some x" for x
      using inv' that unfolding workflow_inv_def state_inv_def maps_agree_def by blast
    with False known(2) same_key have "bt_get (ws_identities ?st) ?i' = None"
      by (metis not_Some_eq option.inject)
    with False inv' known(2) same_key show ?thesis
      by (simp add: create_or_return_def create_state_def workflow_inv_def bt_contains_get)
  qed
  with r show ?thesis by (simp add: start_with_policy_def assms(6))
qed

lemma fresh_created:
  assumes "workflow_inv (rn_store rn)" and "start_prepare env context wid version key input policy = Inr ps"
    and "bt_get (ws_keys (guarded (rn_store rn))) (si_key (ps_identity ps)) = None"
  obtains store where "workflow_inv store" and "bt_get (ws_runs (guarded store)) (wr_id (ps_run ps)) = Some (ps_run ps)"
    and "create_or_return (rn_store rn) (ps_identity ps) (ps_run ps) = (Inr (Created (ps_run ps)), store)"
proof -
  let ?i = "ps_identity ps"
  have inv: "state_inv (guarded (rn_store rn))" and "\<not> poisoned (rn_store rn)"
    using assms(1) by (auto simp: workflow_inv_def)
  moreover have "bt_get (ws_identities (guarded (rn_store rn))) ?i = None"
    using inv assms(3) by (cases "bt_get (ws_identities (guarded (rn_store rn))) ?i")
      (auto simp: state_inv_def maps_agree_def)
  ultimately obtain store where created: "create_or_return (rn_store rn) ?i (ps_run ps) = (Inr (Created (ps_run ps)), store)"
      "bt_get (ws_runs (guarded store)) (wr_id (ps_run ps)) = Some (ps_run ps)"
    using assms(3) start_prepare_key(2) [OF assms(2)]
    by (simp add: create_or_return_def create_state_def bt_contains_get)
  have "workflow_inv store"
    using workflow_step_inv [OF assms(1), of "OpCreate ?i (ps_run ps)"] created by simp
  with created that show thesis by simp
qed

lemma start_creates:
  assumes "workflow_inv (rn_store rn)" and "start_prepare env context wid version key input policy = Inr ps"
    and "bt_get (ws_keys (guarded (rn_store rn))) (si_key (ps_identity ps)) = None"
  obtains store where "workflow_inv store" and "bt_get (ws_runs (guarded store)) (wr_id (ps_run ps)) = Some (ps_run ps)"
    and "start_with_policy env invoke instant_ok rn context wid version key input policy
      = execute env invoke instant_ok (rn\<lparr>rn_store := store\<rparr>) ps (ps_run ps)"
  by (rule fresh_created [OF assms]) (use that in \<open>simp add: start_with_policy_def assms(2)\<close>)

section \<open>Demonstration environment\<close>

definition demo_context :: request_context where
  "demo_context = \<lparr>rc_tenant_id = ''t'', rc_principal_id = ''p'', rc_request_id = ''r'', rc_correlation_id = ''c''\<rparr>"

definition demo_env :: "nat \<Rightarrow> workflow_env" where
  "demo_env budget = \<lparr>env_sha256_hex = (\<lambda>_. replicate 64 (CHR ''0'')),
     env_parse = (\<lambda>s. if s = ''null'' then Some JNull else None), env_print = (\<lambda>_. ''null''),
     env_decode = (\<lambda>_. None), env_resolve = (\<lambda>_ _. Inr (Some (demo_definition budget))),
     env_validate_agent = (\<lambda>_. Inr True)\<rparr>"

definition demo_prepared :: "nat \<Rightarrow> prepared_start" where
  "demo_prepared budget = \<lparr>ps_definition = demo_definition budget,
     ps_identity = StartIdentity (StartKey ''t'' ''w'' V1 ''k'') (replicate 64 (CHR ''0'')),
     ps_run = \<lparr>wr_id = ''run-'' @ replicate 32 (CHR ''0''), wr_context = demo_context, wr_workflow_id = ''w'',
       wr_workflow_version = V1, wr_run_key = ''k'', wr_input_digest = replicate 64 (CHR ''0''),
       wr_max_evidence_bytes = budget, wr_status = Pending, wr_revision = 0, wr_terminal_reason = None,
       wr_attempt = None, wr_events = []\<rparr>,
     ps_input = ''null'', ps_policy = default_policy\<rparr>"

lemma demo_sha: "sha_ok (demo_env budget)"
  by (simp add: sha_ok_def demo_env_def is_ascii_digit_def list_all_iff)

lemma demo_input: "canonical_json (env_parse (demo_env b)) (env_print (demo_env b)) (env_decode (demo_env b)) ''null'' 100
    = Inr ''null''"
  by (simp add: canonical_json_def demo_env_def MAX_JSON_INPUT_BYTES_def reject_duplicate_keys_def scan_value.simps
      scan_ws_def scalar_byte_def is_ascii_whitespace_def)

lemma demo_start_prepare:
  assumes "47 \<le> budget" and "budget \<le> 65536"
  shows "start_prepare (demo_env budget) demo_context ''w'' V1 ''k'' ''null'' default_policy = Inr (demo_prepared budget)"
proof -
  have budget: "runner_validate (demo_env budget) (demo_definition budget) = Inr ()"
    using assms by (simp add: runner_validate_def validate_definition_def demo_definition_def demo_env_def
        MAX_JSON_INPUT_BYTES_def MAX_EVIDENCE_BYTES_def MIN_TERMINAL_EVIDENCE_BYTES_def)
  have "derived_id (demo_env budget) ''run'' x = Inr (''run-'' @ replicate 32 (CHR ''0''))" for x
    by (subst derived_id_ok [OF demo_sha]) (simp_all add: lower_or_digit_def id_tail_def ascii_defs demo_env_def)
  with budget default_policy_ok demo_input [of budget] show ?thesis
    by (simp add: start_prepare_def MAX_RUN_KEY_BYTES_def demo_prepared_def demo_definition_def demo_context_def
        input_digest_def Let_def) (simp add: demo_env_def demo_definition_def)
qed

definition demo_runner :: runner where
  "demo_runner = runner_new (mutex_new workflow_state_default)"

lemma demo_runner_ok:
  "workflow_inv (rn_store demo_runner)" "bt_get (ws_keys (guarded (rn_store demo_runner))) k = None"
  "\<not> poisoned (rn_cancellations demo_runner)" "rn_next_registration demo_runner = 1"
  using workflow_inv_new by (simp_all add: demo_runner_def runner_new_def workflow_state_default_def)

theorem start_is_idempotent_witness:
  "\<exists>res rn' r. start_with_policy (demo_env 100) (\<lambda>_ c. (Inl WfAdapterFailure, c)) True demo_runner demo_context ''w'' V1
       ''k'' ''null'' default_policy = (res, rn')
     \<and> start_with_policy (demo_env 100) (\<lambda>_ c. (Inr ''d'', c)) False rn' demo_context ''w'' V1 ''k'' ''null''
       default_policy = (Some (Inr (run_summary_from r)), rn')"
proof -
  have prep: "start_prepare (demo_env 100) demo_context ''w'' V1 ''k'' ''null'' default_policy = Inr (demo_prepared 100)"
    by (rule demo_start_prepare) simp_all
  obtain res rn' where first: "start_with_policy (demo_env 100) (\<lambda>_ c. (Inl WfAdapterFailure, c)) True demo_runner
      demo_context ''w'' V1 ''k'' ''null'' default_policy = (res, rn')" by fastforce
  from start_is_idempotent [OF demo_runner_ok(1) prep demo_runner_ok(2) first refl prep] first
  show ?thesis by auto
qed

section \<open>Reaching a terminal status\<close>

text \<open>C11: A start whose run has an evidence budget of at least 56 bytes always ends its run. If
  the digest is 64 hexadecimal digits and the invoker writes evidence through the sink only, then
  whatever the invocation returns, and also when the token counter is exhausted, the registry of
  cancellations is poisoned or no deadline can be computed, the call returns without a panic and
  leaves the run it created succeeded, failed or cancelled; a summary it returns is that of the
  stored run.\<close>

theorem start_reaches_terminal:
  assumes "workflow_inv (rn_store rn)"
    and "start_prepare env context wid version key input policy = Inr ps"
    and "bt_get (ws_keys (guarded (rn_store rn))) (si_key (ps_identity ps)) = None"
    and "sha_ok env" and "56 \<le> wr_max_evidence_bytes (ps_run ps)"
    and "\<forall>req c. emits c (snd (invoke req c))"
  shows "\<exists>res rn' r. start_with_policy env invoke instant_ok rn context wid version key input policy = (Some res, rn')
    \<and> bt_get (ws_runs (guarded (rn_store rn'))) (wr_id (ps_run ps)) = Some r \<and> is_terminal (wr_status r)
    \<and> (\<forall>summary. res = Inr summary \<longrightarrow> summary = run_summary_from r)"
proof -
  obtain store where store: "workflow_inv store"
      "bt_get (ws_runs (guarded store)) (wr_id (ps_run ps)) = Some (ps_run ps)"
      "start_with_policy env invoke instant_ok rn context wid version key input policy
        = execute env invoke instant_ok (rn\<lparr>rn_store := store\<rparr>) ps (ps_run ps)"
    by (rule start_creates [OF assms(1-3)])
  note prepared = start_prepare_key [OF assms(2)]
  have pending: "wr_status (ps_run ps) = Pending" using prepared(2) by (simp add: fresh_run_def)
  have policy: "validate_invocation_policy (ip_ceiling (ps_policy ps)) (ip_policy_decision_digest (ps_policy ps)) = Inr ()"
    using prepared(3,4) by simp
  show ?thesis
    by (rule execute_closes [of "rn\<lparr>rn_store := store\<rparr>" "ps_run ps" ps env invoke instant_ok,
          OF _ _ pending assms(5) policy assms(4)])
      (use store assms(6) in auto)
qed

theorem start_reaches_terminal_witness:
  "\<exists>res rn' r. start_with_policy (demo_env 100) (\<lambda>_ c. (Inr ''d'', c)) True demo_runner demo_context ''w'' V1 ''k''
       ''null'' default_policy = (Some res, rn')
     \<and> bt_get (ws_runs (guarded (rn_store rn'))) (''run-'' @ replicate 32 (CHR ''0'')) = Some r
     \<and> is_terminal (wr_status r)"
proof -
  have prep: "start_prepare (demo_env 100) demo_context ''w'' V1 ''k'' ''null'' default_policy = Inr (demo_prepared 100)"
    by (rule demo_start_prepare) simp_all
  have "56 \<le> wr_max_evidence_bytes (ps_run (demo_prepared 100))" by (simp add: demo_prepared_def)
  moreover have "\<forall>req c. emits c (snd ((\<lambda>_ c. (Inr ''d'', c)) req c))" by (simp add: emits.nothing)
  ultimately show ?thesis
    using start_reaches_terminal [OF demo_runner_ok(1) prep demo_runner_ok(2) demo_sha, of "\<lambda>_ c. (Inr ''d'', c)" True]
    by (auto simp: demo_prepared_def)
qed

section \<open>The budget that is too small\<close>

lemma small_budget_finish:
  assumes "\<not> poisoned (rn_store rn)" and "stored rn (wr_id r) = Some r" and "fl_active fl = r"
    and "run_ok r" and "wr_status r = Running" and "events_size (wr_events r) = 7" and "wr_max_evidence_bytes r < 49"
    and "ec_output c = None"
  shows "execute_finish rn fl (Inr digest) c
    = (Some (Inr (run_summary_from r)), drop_registration rn (wr_id r) (fl_token fl))"
proof -
  obtain a where a: "wr_attempt r = Some a" using running_attempt [OF assms(4,5)] by metis
  then obtain t where t: "finish_failure r ''invalid_invocation_result'' = Some t"
      "events_size (tr_events t) = 42" by (simp add: finish_failure_def)
  have "\<not> transition_is_valid r Running t" using assms(6,7) t(2) by (simp add: transition_is_valid_iff)
  moreover have "finish_success r digest c = Inl WfInvalidRequest" using assms(8) by (simp add: finish_success_def)
  moreover have "drop_registration rn (wr_id r) (fl_token fl)\<lparr>rn_store := rn_store rn\<rparr>
      = drop_registration rn (wr_id r) (fl_token fl)" by (simp add: drop_registration_def)
  ultimately show ?thesis using assms t
    by (simp add: execute_finish_def closing_transition_def Let_def store_transition_def transition_state_def
        runner_get_def store_get_def lock_def)
qed

text \<open>C32: The minimum evidence budget the code accepts does not cover every closing event: the
  events \<open>started\<close> and \<open>invocation_failed\<close> with the reason \<open>invalid_invocation_result\<close> take 49 bytes,
  but a definition with a budget of 47 or 48 is valid. With such a budget, an invocation that
  reports success without having emitted a result leaves the run running: the closing transition
  is refused, the call returns the summary of a running run as a success, the registration is gone,
  and every later attempt to cancel the run is refused as a conflict.\<close>

theorem terminal_budget_gap:
  assumes "workflow_inv (rn_store rn)"
    and "start_prepare env context wid version key input policy = Inr ps"
    and "bt_get (ws_keys (guarded (rn_store rn))) (si_key (ps_identity ps)) = None"
    and "sha_ok env" and "wr_max_evidence_bytes (ps_run ps) < 49"
    and "\<forall>req c. invoke req c = (Inr digest, c)"
    and "\<not> poisoned (rn_cancellations rn)" and "unat (rn_next_registration rn) + 1 < 2 ^ 64"
  shows "\<exists>summary rn'. start_with_policy env invoke True rn context wid version key input policy
      = (Some (Inr summary), rn')
    \<and> su_id summary = wr_id (ps_run ps) \<and> su_status summary = Running
    \<and> cancel rn' (rc_tenant_id context) (wr_id (ps_run ps)) = (Inl WfConflict, rn')"
proof -
  let ?q = "ps_run ps"
  obtain store where store: "workflow_inv store" "bt_get (ws_runs (guarded store)) (wr_id ?q) = Some ?q"
      "start_with_policy env invoke True rn context wid version key input policy
        = execute env invoke True (rn\<lparr>rn_store := store\<rparr>) ps ?q"
    by (rule start_creates [OF assms(1-3)])
  note prepared = start_prepare_key [OF assms(2)]
  have fresh: "wr_status ?q = Pending" "rc_tenant_id (wr_context ?q) = rc_tenant_id context"
    using prepared(1,2) by (auto simp: fresh_run_def)
  have policy: "validate_invocation_policy (ip_ceiling (ps_policy ps)) (ip_policy_decision_digest (ps_policy ps)) = Inr ()"
    using prepared(3,4) by simp
  have "47 \<le> wr_max_evidence_bytes ?q"
    using assms(2) by (auto simp: start_prepare_def result_simps Let_def runner_validate_def validate_definition_def
        MIN_TERMINAL_EVIDENCE_BYTES_def split: if_splits)
  then have seven: "7 \<le> wr_max_evidence_bytes ?q" by simp
  obtain s1 aid r where start: "execute_start env (rn\<lparr>rn_store := store\<rparr>) ps ?q = (Inr (aid, r), rn\<lparr>rn_store := s1\<rparr>)"
      "workflow_inv s1" "bt_get (ws_runs (guarded s1)) = (bt_get (ws_runs (guarded store)))(wr_id ?q \<mapsto> r)"
      "run_ok r" "wr_status r = Running" "events_size (wr_events r) = 7"
      "wr_max_evidence_bytes r = wr_max_evidence_bytes ?q" "wr_id r = wr_id ?q" "wr_context r = wr_context ?q"
    by (rule start_runs [of "rn\<lparr>rn_store := store\<rparr>" ?q ps env, OF _ _ fresh(1) seven policy assms(4)])
      (use store in simp_all)
  let ?rn1 = "rn\<lparr>rn_store := s1\<rparr>"
  obtain fl rn2 where fly: "execute_setup env ?rn1 ps aid r True = (Some (Inr fl), rn2)" "fl_active fl = r"
      "fl_token fl = rn_next_registration rn" "ec_output (fl_evidence fl) = None" "rn_store rn2 = s1"
      "rn_cancellations rn2 = (rn_cancellations rn)\<lparr>guarded :=
        bt_insert (wr_id r) (rn_next_registration rn) (guarded (rn_cancellations rn))\<rparr>"
    by (rule setup_flies [of r env ?rn1 ps aid, OF start(4) assms(4)]) (use assms(7,8) in simp_all)
  let ?rn3 = "drop_registration rn2 (wr_id r) (fl_token fl)"
  have "execute_finish rn2 fl (Inr digest) (fl_evidence fl) = (Some (Inr (run_summary_from r)), ?rn3)"
    by (rule small_budget_finish) (use start fly assms(5) in \<open>auto simp: workflow_inv_def\<close>)
  then have "start_with_policy env invoke True rn context wid version key input policy
      = (Some (Inr (run_summary_from r)), ?rn3)"
    using store(3) start(1) fly(1) assms(6) by (simp add: execute_def)
  moreover have "cancel ?rn3 (rc_tenant_id context) (wr_id ?q) = (Inl WfConflict, ?rn3)"
    using start fly fresh assms(7)
    by (simp add: cancel_def store_get_def lock_def workflow_inv_def is_terminal_def
        drop_registration_def)
  ultimately show ?thesis using start(5,8) by (auto simp: run_summary_from_def)
qed

theorem terminal_budget_gap_witness:
  "validate_definition (demo_definition 47) = Inr ()
   \<and> (\<exists>summary rn'. start_with_policy (demo_env 47) (\<lambda>_ c. (Inr ''d'', c)) True demo_runner demo_context ''w'' V1 ''k''
        ''null'' default_policy = (Some (Inr summary), rn') \<and> su_status summary = Running
      \<and> fst (cancel rn' ''t'' (su_id summary)) = Inl WfConflict)"
proof -
  have prep: "start_prepare (demo_env 47) demo_context ''w'' V1 ''k'' ''null'' default_policy = Inr (demo_prepared 47)"
    by (rule demo_start_prepare) simp_all
  have "wr_max_evidence_bytes (ps_run (demo_prepared 47)) < 49" "rc_tenant_id demo_context = ''t''"
    by (simp_all add: demo_prepared_def demo_context_def)
  moreover have "validate_definition (demo_definition 47) = Inr ()"
    by (simp add: validate_definition_def demo_definition_def MAX_JSON_INPUT_BYTES_def MAX_EVIDENCE_BYTES_def
        MIN_TERMINAL_EVIDENCE_BYTES_def)
  moreover have "unat (rn_next_registration demo_runner) + 1 < 2 ^ 64" by (simp add: demo_runner_ok)
  ultimately show ?thesis
    using terminal_budget_gap [OF demo_runner_ok(1) prep demo_runner_ok(2) demo_sha _ _ demo_runner_ok(3),
        of "\<lambda>_ c. (Inr ''d'', c)" "''d''"] by (auto simp del: One_nat_def)
qed

section \<open>The material of run identifiers\<close>

lemma split_at_last:
  assumes "xs @ c # ys = xs' @ c # ys'" and "c \<notin> set ys" and "c \<notin> set ys'"
  shows "xs = xs' \<and> ys = ys'"
proof -
  have "rev ys @ c # rev xs = rev ys' @ c # rev xs'"
    using arg_cong [OF assms(1), of rev] by simp
  from split_at_first [OF this] assms(2,3) show ?thesis by simp
qed

lemma logical_id_no_nul: "logical_id_new s = Inr s \<Longrightarrow> CHR 0x00 \<notin> set s"
  by (cases s) (auto simp: logical_id_new_def lower_or_digit_def id_tail_def ascii_defs list_all_iff less_eq_char_def
      split: if_splits)

text \<open>The material run identifiers are derived from determines the start identity: tenants and
  workflows are logical identifiers and the digest has no zero byte, so the separators cannot be
  confused even though a run key may contain any byte.\<close>

lemma identity_material_inject:
  assumes "logical_id_new (sk_tenant_id (si_key i)) = Inr (sk_tenant_id (si_key i))"
    and "logical_id_new (sk_tenant_id (si_key j)) = Inr (sk_tenant_id (si_key j))"
    and "logical_id_new (sk_workflow_id (si_key i)) = Inr (sk_workflow_id (si_key i))"
    and "logical_id_new (sk_workflow_id (si_key j)) = Inr (sk_workflow_id (si_key j))"
    and "CHR 0x00 \<notin> set (si_input_digest i)" and "CHR 0x00 \<notin> set (si_input_digest j)"
    and "identity_material i = identity_material j"
  shows "i = j"
proof -
  obtain t w v k d t' w' v' k' d' where ij: "i = StartIdentity (StartKey t w v k) d" "j = StartIdentity (StartKey t' w' v' k') d'"
    by (metis start_identity.exhaust start_key.exhaust)
  have "v = v'" by (cases v; cases v') simp
  have eq: "t @ CHR 0x00 # (w @ CHR 0x00 # (version_as_str v @ CHR 0x00 # (k @ CHR 0x00 # d)))
      = t' @ CHR 0x00 # (w' @ CHR 0x00 # (version_as_str v @ CHR 0x00 # (k' @ CHR 0x00 # d')))"
    using assms(7) \<open>v = v'\<close> by (simp add: identity_material_def ij)
  from split_at_first [OF eq] assms(1,2) ij
  have "t = t'" and eq2: "w @ CHR 0x00 # (version_as_str v @ CHR 0x00 # (k @ CHR 0x00 # d))
      = w' @ CHR 0x00 # (version_as_str v @ CHR 0x00 # (k' @ CHR 0x00 # d'))"
    by (auto dest!: logical_id_no_nul)
  from split_at_first [OF eq2] assms(3,4) ij have "w = w'" and "k @ CHR 0x00 # d = k' @ CHR 0x00 # d'"
    by (auto dest!: logical_id_no_nul)
  with split_at_last [of k "CHR 0x00" d k' d'] assms(5,6) \<open>t = t'\<close> \<open>v = v'\<close> show ?thesis by (simp add: ij)
qed

lemma identity_material_inject_witness:
  "identity_material demo_identity \<noteq> identity_material (StartIdentity (StartKey ''t'' ''w'' V1 [CHR 0x00]) ''d'')"
  using identity_material_inject [of demo_identity "StartIdentity (StartKey ''t'' ''w'' V1 [CHR 0x00]) ''d''"]
  by (auto simp: demo_identity_def logical_id_new_def lower_or_digit_def ascii_defs)

end
