(* ===== verification/Workflow_Mcp_Properties.thy ===== *)
theory Workflow_Mcp_Properties
  imports Workflow_Mcp Workflow_Starts Agent_Mcp_Properties
begin

text \<open>
  What the workflow surface guarantees of the agent runtime behind the runner: it is reached only
  with the ceiling of a verified grant, and its answer becomes evidence with a canonical text.
\<close>

section \<open>Canonical evidence\<close>

lemma quoted_text: "json_escape esc \<Longrightarrow> \<forall>c\<in>set s. \<not> needs_escape c \<Longrightarrow> string_text esc s = quoted s"
  by (simp add: string_text_def quoted_def esc_plain)

lemma key_texts:
  assumes "json_escape esc"
  shows "s \<in> {''finish_reason'', ''idempotency'', ''model_id'', ''provider_id'', ''provider_request_id'', ''token_usage'', ''input_tokens'',
    ''output_tokens'', ''total_tokens''} \<Longrightarrow> string_text esc s = quoted s"
    and "string_text esc (finish_reason_name f) = quoted (finish_reason_name f)"
    and "string_text esc (idempotency_name m) = quoted (idempotency_name m)"
proof -
  show "s \<in> {''finish_reason'', ''idempotency'', ''model_id'', ''provider_id'', ''provider_request_id'', ''token_usage'', ''input_tokens'',
    ''output_tokens'', ''total_tokens''} \<Longrightarrow> string_text esc s = quoted s"
    by (rule quoted_text [OF assms]) (auto simp: needs_escape_def)
  show "string_text esc (finish_reason_name f) = quoted (finish_reason_name f)"
    by (rule quoted_text [OF assms]) (cases f; simp add: needs_escape_def)
  show "string_text esc (idempotency_name m) = quoted (idempotency_name m)"
    by (rule quoted_text [OF assms]) (cases m; simp add: needs_escape_def)
qed

text \<open>The hand-written text is the compact text of the value the agent surface shows.\<close>

lemma canonical_evidence_text:
  assumes "compact_printer esc print"
  shows "canonical_model_evidence print e = Inr (Json_Text.json_text esc (evidence_json e))"
proof -
  have esc: "json_escape esc" and printed: "\<And>v. print v = Inr (Json_Text.json_text esc v)" using assms by (auto simp: compact_printer_def)
  have obj: "evidence_json e = JObject [(''finish_reason'', JString (finish_reason_name (me_finish_reason e))),
      (''idempotency'', JString (idempotency_name (me_idempotency e))), (''model_id'', JString (me_model_id e)),
      (''provider_id'', JString (me_provider_id e)), (''provider_request_id'', json_option JString (me_provider_request_id e)),
      (''token_usage'', json_option (\<lambda>u. JObject [(''input_tokens'', json_u32 (mt_input_tokens u)),
        (''output_tokens'', json_u32 (mt_output_tokens u)), (''total_tokens'', json_u32 (mt_total_tokens u))]) (me_token_usage e))]"
    by (cases "me_provider_request_id e"; cases "me_token_usage e")
      (simp_all add: evidence_json_def json_object_def json_option_def json_u32_def less_list_code less_char_def)
  show ?thesis
    unfolding obj
    by (cases "me_provider_request_id e"; cases "me_token_usage e")
      (simp_all add: canonical_model_evidence_def printed key_texts [OF esc] json_option_def json_u32_def)
qed

section \<open>Granted invocations\<close>

lemma prepared_start:
  assumes "start_prepare env c wid version run_key input policy = Inr ps"
  shows "ps_policy ps = policy" "wr_context (ps_run ps) = c"
  using assms by (auto simp: start_prepare_def result_simps Let_def split: if_splits)

lemma created_run:
  assumes "create_or_return s identity r = (Inr (Created v), s')"
  shows "v = r" "bt_get (ws_runs (guarded s')) (wr_id r) = Some r"
  using assms by (auto simp: create_or_return_def create_state_def result_simps split: if_splits option.splits)

lemma started_context:
  assumes "execute_start env rn ps r = (Inr (aid, active), rn')" "bt_get (ws_runs (guarded (rn_store rn))) (wr_id r) = Some r"
  shows "wr_context active = wr_context r"
  using assms
  by (auto simp: execute_start_def store_transition_def transition_state_def apply_transition_def
      split: sum.splits prod.splits if_splits option.splits transition_result.splits)

lemma flight_request:
  assumes "execute_setup env rn ps aid active ok = (Some (Inr fl), rn')"
  shows "agent_invocation_request.ar_context (fl_request fl) = wr_context active" "ar_ceiling (fl_request fl) = ip_ceiling (ps_policy ps)"
    "ar_agent_id (fl_request fl) = wd_agent_id (ps_definition ps)" "ar_input (fl_request fl) = ps_input ps"
    "ar_policy_decision_digest (fl_request fl) = ip_policy_decision_digest (ps_policy ps)"
  using assms
  by (auto simp: execute_setup_def setup_failed_def terminalize_setup_failure_def Let_def result_simps
      split: sum.splits prod.splits if_splits option.splits)

text \<open>The invocations a host grants: those of some trusted context and some verified decision on it.\<close>

definition granted_invocation :: "(string \<Rightarrow> string) \<Rightarrow> 'w host \<Rightarrow> 'w \<Rightarrow> ceiling_agent_invocation \<Rightarrow> bool" where
  "granted_invocation sha256_hex host w call \<longleftrightarrow>
     (\<exists>trusted g d v. fst (host_resolve host w) = Inr trusted
        \<and> allows sha256_hex (authorization_request_v1.make trusted WorkflowStart)
            (fst (host_authorize host (authorization_request_v1.make trusted WorkflowStart) v)) g d
        \<and> ci_ceiling call = \<lparr>cc_allowed_tool_ids = allowed_tool_ids g, cc_memory_enabled = memory_enabled g,
          cc_knowledge_enabled = knowledge_enabled g, cc_sandbox_execution_allowed = sandbox_execution_allowed g,
          cc_communication_allowed = communication_allowed g\<rparr>
        \<and> ci_context call = \<lparr>ic_tenant_id = tc_tenant_id trusted, ic_principal_id = tc_principal_id trusted,
            ic_request_id = tc_request_id trusted, ic_correlation_id = tc_correlation_id trusted\<rparr>)"

lemma granted_invocation_eq:
  "granted_invocation sha256_hex host w call \<longleftrightarrow>
     (\<exists>trusted g d v. fst (host_resolve host w) = Inr trusted
        \<and> verified_grant sha256_hex (authorization_request_v1.make trusted WorkflowStart)
            (fst (host_authorize host (authorization_request_v1.make trusted WorkflowStart) v)) = Inr (g, d)
        \<and> ci_ceiling call = ceiling_of_grant g
        \<and> ci_context call = \<lparr>ic_tenant_id = tc_tenant_id trusted, ic_principal_id = tc_principal_id trusted,
            ic_request_id = tc_request_id trusted, ic_correlation_id = tc_correlation_id trusted\<rparr>)"
  by (simp add: granted_invocation_def ceiling_of_grant_def verified_grant_allows)

lemma gate_passed:
  assumes "pass_gate sha256_hex host c w = (Inr (trusted, g, d), w')"
  shows "\<exists>v. fst (host_resolve host w) = Inr trusted \<and> verified_grant sha256_hex (authorization_request_v1.make trusted c)
    (fst (host_authorize host (authorization_request_v1.make trusted c) v)) = Inr (g, d)"
  using assms
  by (auto simp: pass_gate_def st_then_def st_map_err_def Let_def and_then_Inr map_err_Inr authorization_request_v1.make_def
      split: prod.splits sum.splits) (metis fst_conv)

lemma agent_context_Inr:
  "agent_invocation_context c = Inr ic \<Longrightarrow> ic = \<lparr>ic_tenant_id = rc_tenant_id c, ic_principal_id = rc_principal_id c,
     ic_request_id = rc_request_id c, ic_correlation_id = rc_correlation_id c\<rparr>"
  by (auto simp: agent_invocation_context_def result_simps invocation_id_new_def split: if_splits)

text \<open>A runtime that records every call of it, before its own behaviour.\<close>

definition recorded :: "'s ceiling_agent_runtime \<Rightarrow> ('s \<times> (string \<times> ceiling_agent_invocation) list) ceiling_agent_runtime" where
  "recorded runtime key call = (\<lambda>(s, log). case runtime key call s of (r, s') \<Rightarrow> (r, (s', log @ [(key, call)])))"

text \<open>An invoker over a recording runtime calls it once or not at all.\<close>

lemma invoke_recorded:
  assumes "policy_aware_invoke print (recorded runtime) key request evidence (s, log) = (res, (s', log'))"
  shows "log' = log \<or> (\<exists>call. log' = log @ [(key, call)] \<and> ci_agent_id call = ar_agent_id request \<and> ci_input call = ar_input request
    \<and> ci_ceiling call = ar_ceiling request \<and> agent_invocation_context (agent_invocation_request.ar_context request) = Inr (ci_context call))"
  using assms
  by (auto simp: policy_aware_invoke_def recorded_def split: if_splits sum.splits prod.splits)

text \<open>The calls a start may make: one, for the resolved definition, under the context and ceiling it was given.\<close>

definition start_call :: "workflow_env \<Rightarrow> request_context \<Rightarrow> string \<Rightarrow> workflow_version \<Rightarrow> invocation_policy \<Rightarrow> ceiling_agent_invocation \<Rightarrow> bool" where
  "start_call env c wid version policy call \<longleftrightarrow> ci_ceiling call = ip_ceiling policy \<and> agent_invocation_context c = Inr (ci_context call)
     \<and> (\<exists>d. env_resolve env wid version = Inr (Some d) \<and> ci_agent_id call = wd_agent_id d)"

lemma prepared_definition:
  "start_prepare env c wid version run_key input policy = Inr ps \<Longrightarrow> env_resolve env wid version = Inr (Some (ps_definition ps))"
  by (auto simp: start_prepare_def result_simps Let_def split: if_splits)

lemma execute_recorded:
  assumes "execute_acting env (policy_aware_invoke print (recorded runtime)) ok rn ps r (s, log) = (res, rn', (s', log'))"
    and "stored rn (wr_id r) = Some r"
  shows "log' = log \<or> (\<exists>key call. log' = log @ [(key, call)] \<and> ci_agent_id call = wd_agent_id (ps_definition ps)
    \<and> ci_ceiling call = ip_ceiling (ps_policy ps) \<and> agent_invocation_context (wr_context r) = Inr (ci_context call))"
proof -
  obtain p rn1 where start: "execute_start env rn ps r = (p, rn1)" by fastforce
  show ?thesis
  proof (cases p)
    case (Inr q)
    obtain aid active where q: "q = (aid, active)" by fastforce
    obtain res2 rn2 where mid: "execute_setup env rn1 ps aid active ok = (res2, rn2)" by fastforce
    show ?thesis
    proof (cases "\<exists>fl. res2 = Some (Inr fl)")
      case True
      then obtain fl where fl: "res2 = Some (Inr fl)" by blast
      obtain res3 s3 log3 where invoked: "policy_aware_invoke print (recorded runtime) (idempotency_key env fl) (fl_request fl) (fl_evidence fl) (s, log)
          = (res3, (s3, log3))" by (metis prod.exhaust)
      then have "log' = log3"
        using assms(1) start Inr q mid fl by (auto simp: execute_acting_def split: prod.splits)
      moreover have "agent_invocation_request.ar_context (fl_request fl) = wr_context r"
        using flight_request(1) [OF mid [unfolded fl]] started_context [OF start [unfolded Inr q] assms(2)] by simp
      ultimately show ?thesis using invoke_recorded [OF invoked] flight_request [OF mid [unfolded fl]] by metis
    qed (use assms(1) start Inr q mid in \<open>auto simp: execute_acting_def split: option.splits sum.splits\<close>)
  qed (use assms(1) start in \<open>simp add: execute_acting_def\<close>)
qed

lemma start_recorded:
  assumes "start_acting env (policy_aware_invoke print (recorded runtime)) ok rn c wid version run_key input policy (s, log) = (res, rn', (s', log'))"
  shows "log' = log \<or> (\<exists>key call. log' = log @ [(key, call)] \<and> start_call env c wid version policy call)"
proof (cases "start_prepare env c wid version run_key input policy")
  case (Inr ps)
  note ps = prepared_start [OF Inr] prepared_definition [OF Inr]
  show ?thesis
  proof (cases "create_or_return (rn_store rn) (ps_identity ps) (ps_run ps)")
    case (Pair outcome store)
    show ?thesis
    proof (cases "\<exists>v. outcome = Inr (Created v)")
      case True
      then obtain v where v: "outcome = Inr (Created v)" by blast
      note created = created_run [OF Pair [unfolded v]]
      have "execute_acting env (policy_aware_invoke print (recorded runtime)) ok (rn\<lparr>rn_store := store\<rparr>) ps v (s, log) = (res, rn', (s', log'))"
        using assms Inr Pair v by (simp add: start_acting_def Let_def)
      from execute_recorded [OF this] created ps show ?thesis by (auto simp: start_call_def)
    qed (use assms Inr Pair in \<open>auto simp: start_acting_def Let_def split: sum.splits create_run.splits\<close>)
  qed
qed (use assms in \<open>simp add: start_acting_def\<close>)

text \<open>Computations that leave the runtime alone, and the first step of a chain that does not.\<close>

definition aside :: "('a, 'e, 's \<times> 'w) st \<Rightarrow> bool" where
  "aside m \<longleftrightarrow> (\<forall>w. fst (snd (m w)) = fst w)"

named_theorems aside_intros

lemma aside_of [aside_intros]: "aside (st_of r)"
  by (simp add: aside_def st_of_def)

lemma aside_beside [aside_intros]: "aside (beside m)"
  by (auto simp: aside_def beside_def split: prod.split)

lemma aside_match [aside_intros]: "aside m \<Longrightarrow> (\<And>r. aside (f r)) \<Longrightarrow> aside (st_match m f)"
  unfolding aside_def st_match_def by (auto split: prod.split) (metis fst_conv snd_conv)

lemma aside_map_err [aside_intros]: "aside m \<Longrightarrow> aside (st_map_err f m)"
  unfolding st_map_err_match by (intro aside_match aside_of)

lemma aside_then [aside_intros]: "aside m \<Longrightarrow> (\<And>a. aside (f a)) \<Longrightarrow> aside (st_then m f)"
  unfolding st_then_match by (rule aside_match) (auto intro: aside_of split: sum.split)

lemma aside_gate [aside_intros]: "aside (pass_gate sha256_hex (host_beside host) c)"
  by (auto simp: aside_def host_beside_gate split: prod.split)

lemma over_runner_ports:
  "wm_env (over_runner print env rt ok host) = env"
  "wm_validate (over_runner print env rt ok host) = (\<lambda>d. beside (st_of (runner_validate env d)))"
  "wm_get (over_runner print env rt ok host) = (\<lambda>tenant rid. beside (\<lambda>rn. (runner_get rn tenant rid, rn)))"
  "wm_list (over_runner print env rt ok host) = (\<lambda>tenant. beside (\<lambda>rn. (runner_list rn tenant, rn)))"
  "wm_cancel (over_runner print env rt ok host) = (\<lambda>tenant rid. beside (\<lambda>rn. cancel rn tenant rid))"
  "wm_host (over_runner print env rt ok host) = host_beside host"
  by (simp_all add: over_runner_def)

lemma aside_authorize [aside_intros]: "aside (workflow_authorize sha256_hex (over_runner print env rt ok host) c)"
  unfolding workflow_authorize_def over_runner_ports case_prod_beta by (intro aside_intros)

lemma aside_tools:
  assumes "\<forall>i. tool \<noteq> WorkflowStartTool i"
  shows "aside (workflow_tool_call print display sha256_hex (over_runner print env rt ok host) tool)"
  using assms
  by (cases tool) (auto simp: replied_def workflow_validate_json_def workflow_get_json_def workflow_list_json_def workflow_cancel_json_def
      over_runner_ports intro!: aside_intros)

lemma then_after_aside:
  assumes "st_then m k w = (r, w')" "aside m" "fst w' \<noteq> fst w"
  obtains a w1 where "m w = (Inr a, w1)" "fst w1 = fst w" "k a w1 = (r, w')"
proof -
  obtain r1 w1 where m: "m w = (r1, w1)" by (metis surj_pair)
  with assms(2) have "fst w1 = fst w" by (metis aside_def snd_conv)
  with m assms(1,3) that show thesis by (cases r1) (auto simp: st_then_def)
qed

lemma then_after_of:
  assumes "st_then (st_of (map_err f x)) k w = (r, w')" "fst w' \<noteq> fst w"
  obtains a where "x = Inr a" "k a w = (r, w')"
  using assms by (cases x) (auto simp: st_then_def st_of_def)

lemma authorized_start:
  assumes "st_map_err f (workflow_authorize sha256_hex (over_runner print env rt ok host) c) (s, rn) = (Inr a, w')"
  shows "\<exists>trusted g d rn'. pass_gate sha256_hex host c rn = (Inr (trusted, g, d), rn') \<and> w' = (s, rn')
    \<and> request_context_of trusted = Inr (aw_context a) \<and> aw_ceiling a = ceiling_of_grant g \<and> aw_policy_decision_digest a = d"
  using map_err_result [OF assms]
  by (auto simp: workflow_authorize_def over_runner_ports host_beside_gate st_then_def st_map_err_def st_of_def and_then_Inr map_err_Inr
      split: prod.splits sum.splits)

lemma granted_start_call:
  assumes "pass_gate sha256_hex host WorkflowStart rn = (Inr (trusted, g, d), rn')" "request_context_of trusted = Inr c"
    and "start_call env c wid V1 \<lparr>ip_ceiling = ceiling_of_grant g, ip_policy_decision_digest = digest\<rparr> call"
  shows "granted_invocation sha256_hex host rn call"
  using gate_passed [OF assms(1)] request_context_of_Inr [OF assms(2)] assms(3)
  by (auto simp: granted_invocation_eq start_call_def dest!: agent_context_Inr) blast

lemma start_tool_recorded:
  assumes "workflow_start_json print sha256_hex (over_runner print env (recorded runtime) ok host) i ((s, log), rn) = (r, ((s', log'), rn'))"
    and changed: "log' \<noteq> log"
  shows "\<exists>key call. log' = log @ [(key, call)] \<and> granted_invocation sha256_hex host rn call
    \<and> (\<exists>d. env_resolve env (ws_workflow_id i) V1 = Inr (Some d) \<and> ci_agent_id call = wd_agent_id d)"
proof -
  let ?m = "over_runner print env (recorded runtime) ok host"
  let ?w = "((s, log), rn)" and ?w' = "((s', log'), rn')"
  have differ: "fst ?w' \<noteq> fst ?w" using changed by simp
  let ?rest = "\<lambda>wid canonical_input. st_then (st_map_err workflow_code (workflow_authorize sha256_hex ?m WorkflowStart)) (\<lambda>authorized.
        st_then (st_map_err workflow_code (wm_start ?m (aw_context authorized) wid V1 (ws_run_key i) canonical_input
          \<lparr>ip_ceiling = aw_ceiling authorized, ip_policy_decision_digest = aw_policy_decision_digest authorized\<rparr>)) (\<lambda>summary.
        st_of (case summary of None \<Rightarrow> Inr None | Some s \<Rightarrow> and_then (workflow_summary_json print s) (\<lambda>text. Inr (Some text)))))"
  obtain wid where wid: "Workflow.logical_id_new (ws_workflow_id i) = Inr wid"
    and keyed: "(if ws_run_key i = [] \<or> length (ws_run_key i) > MAX_RUN_KEY_BYTES then st_of (Inl (workflow_code WfInvalidRequest))
      else st_then (st_of (map_err workflow_code (canonical_json (env_parse env) (env_print env) (env_decode env) (ws_input i) MAX_JSON_INPUT_BYTES)))
        (?rest wid)) ?w = (r, ?w')"
    by (rule then_after_of [OF assms(1) [unfolded workflow_start_json_def over_runner_ports(1)] differ])
  have "st_then (st_of (map_err workflow_code (canonical_json (env_parse env) (env_print env) (env_decode env) (ws_input i) MAX_JSON_INPUT_BYTES)))
      (?rest wid) ?w = (r, ?w')"
    using keyed changed by (cases "ws_run_key i = [] \<or> length (ws_run_key i) > MAX_RUN_KEY_BYTES") (simp_all add: st_of_def)
  then obtain canonical where rest: "?rest wid canonical ?w = (r, ?w')" by (rule then_after_of [OF _ differ])
  obtain a w2 where auth: "st_map_err workflow_code (workflow_authorize sha256_hex ?m WorkflowStart) ?w = (Inr a, w2)"
    and last: "st_then (st_map_err workflow_code (wm_start ?m (aw_context a) wid V1 (ws_run_key i) canonical
          \<lparr>ip_ceiling = aw_ceiling a, ip_policy_decision_digest = aw_policy_decision_digest a\<rparr>)) (\<lambda>summary.
        st_of (case summary of None \<Rightarrow> Inr None | Some s \<Rightarrow> and_then (workflow_summary_json print s) (\<lambda>text. Inr (Some text)))) w2 = (r, ?w')"
    by (rule then_after_aside [OF rest aside_map_err [OF aside_authorize] differ])
  obtain trusted g d rn1 where gate: "pass_gate sha256_hex host WorkflowStart rn = (Inr (trusted, g, d), rn1)" "w2 = ((s, log), rn1)"
    "request_context_of trusted = Inr (aw_context a)" "aw_ceiling a = ceiling_of_grant g" "aw_policy_decision_digest a = d"
    using authorized_start [OF auth] by blast
  obtain res where "start_acting env (policy_aware_invoke print (recorded runtime)) ok rn1 (aw_context a) wid V1 (ws_run_key i) canonical
      \<lparr>ip_ceiling = ceiling_of_grant g, ip_policy_decision_digest = d\<rparr> (s, log) = (res, rn', (s', log'))"
    using last gate by (auto simp: st_then_def st_map_err_def st_of_def over_runner_def split: prod.splits sum.splits)
  from start_recorded [OF this] changed obtain key call where
    "log' = log @ [(key, call)]" "start_call env (aw_context a) wid V1 \<lparr>ip_ceiling = ceiling_of_grant g, ip_policy_decision_digest = d\<rparr> call" by blast
  with granted_start_call [OF gate(1,3)] workflow_id_new_Inr [OF wid]
  show ?thesis by (auto simp: start_call_def)
qed

text \<open>C16: Through the workflow surface the agent runtime is called only under a verified grant. Whatever the
  runtime does and answers, with a state of its own, a tool call calls it at most once, and only
  \<open>workflow_run_start\<close> calls it at all: for the agent of the definition the catalog resolves, under a
  ceiling that is the grant of a decision that allowed \<open>workflow_start\<close> to the resolved context with a
  digest that verifies, and in a context that carries exactly the trusted identifiers.\<close>

theorem workflow_agents_run_granted:
  assumes "workflow_tool_call print display sha256_hex (over_runner print env (recorded runtime) instant_ok host) tool ((s, log), rn)
      = (reply, ((s', log'), rn'))"
  shows "\<exists>calls. log' = log @ calls \<and> length calls \<le> 1
    \<and> (\<forall>(key, call)\<in>set calls. \<exists>i d. tool = WorkflowStartTool i \<and> granted_invocation sha256_hex host rn call
        \<and> env_resolve env (ws_workflow_id i) V1 = Inr (Some d) \<and> ci_agent_id call = wd_agent_id d)"
proof (cases tool)
  case (WorkflowStartTool i)
  then obtain r where "workflow_start_json print sha256_hex (over_runner print env (recorded runtime) instant_ok host) i ((s, log), rn)
      = (r, ((s', log'), rn'))"
    using assms by (auto simp: st_match_def st_of_def split: prod.splits)
  from start_tool_recorded [OF this] WorkflowStartTool show ?thesis by (cases "log' = log") auto
qed (use aside_tools [of tool print display sha256_hex env "recorded runtime" instant_ok host] assms in
    \<open>auto simp: aside_def split: prod.splits, (metis append_Nil2 fst_conv le0 length_0_conv list.set(1) empty_iff snd_conv)+\<close>)

text \<open>A fresh start does reach its invoker.\<close>

lemma acting_invokes:
  assumes "workflow_inv (rn_store rn)" "start_prepare env c wid version run_key input policy = Inr ps"
    and "bt_get (ws_keys (guarded (rn_store rn))) (si_key (ps_identity ps)) = None" "sha_ok env" "7 \<le> wr_max_evidence_bytes (ps_run ps)"
    and "\<not> poisoned (rn_cancellations rn)" "unat (rn_next_registration rn) + 1 < 2 ^ 64"
  obtains fl rn2 where "start_acting env ask True rn c wid version run_key input policy s
      = (case ask (idempotency_key env fl) (fl_request fl) (fl_evidence fl) s of ((outcome, evidence), s') \<Rightarrow>
          case execute_finish rn2 fl outcome evidence of (res, rn3) \<Rightarrow> (res, rn3, s'))"
    and "agent_invocation_request.ar_context (fl_request fl) = c" "ar_ceiling (fl_request fl) = ip_ceiling policy"
    "ar_policy_decision_digest (fl_request fl) = ip_policy_decision_digest policy"
proof -
  obtain store where store: "workflow_inv store" "bt_get (ws_runs (guarded store)) (wr_id (ps_run ps)) = Some (ps_run ps)"
      "create_or_return (rn_store rn) (ps_identity ps) (ps_run ps) = (Inr (Created (ps_run ps)), store)"
    by (rule fresh_created [OF assms(1-3)])
  note prepared = start_prepare_key [OF assms(2)] prepared_start [OF assms(2)]
  let ?rn = "rn\<lparr>rn_store := store\<rparr>"
  have pending: "wr_status (ps_run ps) = Pending" using prepared(2) by (simp add: fresh_run_def)
  have policy: "validate_invocation_policy (ip_ceiling (ps_policy ps)) (ip_policy_decision_digest (ps_policy ps)) = Inr ()"
    using prepared(3,4) by simp
  obtain s1 aid r where start: "execute_start env ?rn ps (ps_run ps) = (Inr (aid, r), ?rn\<lparr>rn_store := s1\<rparr>)" "run_ok r"
    "wr_context r = wr_context (ps_run ps)"
    by (rule start_runs [of ?rn "ps_run ps" ps env, OF _ _ pending assms(5) policy assms(4)]) (use store in simp_all)
  obtain fl rn2 where fly: "execute_setup env (?rn\<lparr>rn_store := s1\<rparr>) ps aid r True = (Some (Inr fl), rn2)"
    by (rule setup_flies [of r env "?rn\<lparr>rn_store := s1\<rparr>" ps aid, OF start(2) assms(4)]) (use assms(6,7) in simp_all)
  show thesis
    by (rule that)
      (use start fly store prepared assms(2) flight_request [OF fly] in \<open>simp_all add: start_acting_def execute_acting_def\<close>)
qed

lemma prepared_under:
  assumes "start_prepare env c wid version run_key input policy = Inr ps"
    and "validate_invocation_policy (ip_ceiling policy') (ip_policy_decision_digest policy') = Inr ()"
  shows "start_prepare env c wid version run_key input policy' = Inr (ps\<lparr>ps_policy := policy'\<rparr>)"
  using assms by (auto simp: start_prepare_def result_simps Let_def split: if_splits)

definition zeros :: "string \<Rightarrow> string" where
  "zeros s = replicate 64 (CHR ''0'')"

definition failing_runtime :: "nat ceiling_agent_runtime" where
  "failing_runtime key call n = (Inl WfAdapterFailure, n + 1)"

lemma static_gate_zeros:
  "pass_gate zeros (static_host zeros trusted full_grant) c w = (Inr (trusted, full_grant, zeros []), w)"
proof -
  obtain d where d: "pass_gate zeros (static_host zeros trusted full_grant) c w = (Inr (trusted, full_grant, d), w)"
    using static_gate [OF full_grant_canonical(2)] by metis
  then obtain request decision where "verified_grant zeros request decision = Inr (full_grant, d)"
    by (auto simp: pass_gate_def st_then_def st_map_err_def Let_def and_then_Inr split: prod.splits sum.splits)
  then have "d = zeros []"
    by (cases decision) (auto simp: result_simps zeros_def decision_digest_def split: if_splits)
  with d show ?thesis by simp
qed

theorem workflow_agents_run_granted_witness:
  "\<exists>reply key call rn'. workflow_tool_call (\<lambda>_. Inr ''{}'') (\<lambda>_. ''{}'') zeros
      (over_runner (\<lambda>_. Inr ''{}'') (demo_env 100) (recorded failing_runtime) True (static_host zeros demo_trusted full_grant))
      (WorkflowStartTool \<lparr>ws_workflow_id = ''w'', ws_run_key = ''k'', ws_input = ''null''\<rparr>) ((0, []), demo_runner)
    = (reply, ((1, [(key, call)]), rn')) \<and> granted_invocation zeros (static_host zeros demo_trusted full_grant) demo_runner call"
proof -
  let ?host = "static_host zeros demo_trusted full_grant" and ?c = "Workflow_Starts.demo_context"
  let ?policy = "\<lparr>ip_ceiling = ceiling_of_grant full_grant, ip_policy_decision_digest = zeros []\<rparr>"
  have policy: "validate_invocation_policy (ip_ceiling ?policy) (ip_policy_decision_digest ?policy) = Inr ()"
    by (simp add: validate_invocation_policy_def ceiling_of_grant_def full_grant_def zeros_def validate_effective_capability_ceiling_def
        MAX_CAPABILITY_REFERENCES_def is_ascii_hexdigit_def is_ascii_digit_def list_all_iff result_simps)
  have "start_prepare (demo_env 100) ?c ''w'' V1 ''k'' ''null'' default_policy = Inr (demo_prepared 100)" by (rule demo_start_prepare) simp_all
  from prepared_under [OF this policy] have prep: "start_prepare (demo_env 100) ?c ''w'' V1 ''k'' ''null'' ?policy
      = Inr ((demo_prepared 100)\<lparr>ps_policy := ?policy\<rparr>)" .
  obtain fl rn2 where acting: "start_acting (demo_env 100) (policy_aware_invoke (\<lambda>_. Inr ''{}'') (recorded failing_runtime)) True demo_runner
      ?c ''w'' V1 ''k'' ''null'' ?policy (0, [])
      = (case policy_aware_invoke (\<lambda>_. Inr ''{}'') (recorded failing_runtime) (idempotency_key (demo_env 100) fl) (fl_request fl) (fl_evidence fl) (0, [])
          of ((outcome, evidence), s') \<Rightarrow> case execute_finish rn2 fl outcome evidence of (res, rn3) \<Rightarrow> (res, rn3, s'))"
    and request: "agent_invocation_request.ar_context (fl_request fl) = ?c" "ar_ceiling (fl_request fl) = ip_ceiling ?policy"
      "ar_policy_decision_digest (fl_request fl) = ip_policy_decision_digest ?policy"
    by (rule acting_invokes [OF demo_runner_ok(1) prep]) (use demo_runner_ok demo_sha in \<open>simp_all add: demo_prepared_def\<close>)
  have "\<exists>ic. agent_invocation_context ?c = Inr ic"
    by (simp add: agent_invocation_context_def invocation_id_new_def Workflow_Starts.demo_context_def lower_or_digit_def ascii_defs)
  then obtain call where "policy_aware_invoke (\<lambda>_. Inr ''{}'') (recorded failing_runtime) (idempotency_key (demo_env 100) fl) (fl_request fl) (fl_evidence fl) (0, [])
      = ((Inl WfAdapterFailure, fl_evidence fl), (1, [(idempotency_key (demo_env 100) fl, call)]))"
    using policy by (auto simp: policy_aware_invoke_def request recorded_def failing_runtime_def zeros_def validate_invocation_policy_def
        result_simps is_ascii_hexdigit_def is_ascii_digit_def list_all_iff split: if_splits sum.splits)
  with acting obtain res rn3 where "start_acting (demo_env 100) (policy_aware_invoke (\<lambda>_. Inr ''{}'') (recorded failing_runtime)) True demo_runner
      ?c ''w'' V1 ''k'' ''null'' ?policy (0, []) = (res, rn3, (1, [(idempotency_key (demo_env 100) fl, call)]))"
    by (auto split: prod.splits)
  moreover have "request_context_of demo_trusted = Inr ?c"
    by (simp add: request_context_of_def demo_trusted_def Workflow_Starts.demo_context_def Workflow.logical_id_new_def lower_or_digit_def ascii_defs)
  moreover have "canonical_json (env_parse (demo_env 100)) (env_print (demo_env 100)) (env_decode (demo_env 100)) ''null'' MAX_JSON_INPUT_BYTES = Inr ''null''"
    by (simp add: canonical_json_def demo_env_def MAX_JSON_INPUT_BYTES_def reject_duplicate_keys_def scan_value.simps
        scan_ws_def scalar_byte_def is_ascii_whitespace_def)
  moreover have "Workflow.logical_id_new ''w'' = Inr ''w''" by (simp add: Workflow.logical_id_new_def lower_or_digit_def ascii_defs)
  ultimately obtain reply rn' where "workflow_tool_call (\<lambda>_. Inr ''{}'') (\<lambda>_. ''{}'') zeros
      (over_runner (\<lambda>_. Inr ''{}'') (demo_env 100) (recorded failing_runtime) True ?host)
      (WorkflowStartTool \<lparr>ws_workflow_id = ''w'', ws_run_key = ''k'', ws_input = ''null''\<rparr>) ((0, []), demo_runner)
    = (reply, ((1, [(idempotency_key (demo_env 100) fl, call)]), rn'))"
    by (cases "map_err workflow_code (or_panic res)")
      (simp_all add: workflow_start_json_def workflow_authorize_def over_runner_def host_beside_gate static_gate_zeros st_match_def st_then_def
        st_map_err_def st_of_def MAX_RUN_KEY_BYTES_def)
  from this workflow_agents_run_granted [OF this] show ?thesis by auto
qed

section \<open>Evidence of an answer\<close>

text \<open>
  The answer of the runtime becomes two items of evidence or none: whether the collector takes
  them depends only on their sizes.
\<close>

definition answer_items :: "(char \<Rightarrow> string) \<Rightarrow> invocation_result \<Rightarrow> invocation_evidence list" where
  "answer_items esc r = [\<lparr>ie_kind = ''llm_generation'', ie_data = Json_Text.json_text esc (evidence_json (ir_model_evidence r))\<rparr>,
     \<lparr>ie_kind = ''result'', ie_data = ir_output r\<rparr>]"

lemma emit_answer_taken:
  assumes "compact_printer esc print" "emit_answer print result evidence = (Inr digest, evidence')"
  shows "digest = ir_capability_scope_digest result \<and> ec_events evidence' = ec_events evidence @ answer_items esc result
    \<and> ec_output evidence' = Some (ir_output result) \<and> length (ir_output result) \<le> 4090"
  using assms(2)
  by (auto simp: emit_answer_def canonical_evidence_text [OF assms(1)] invocation_evidence_new_def emit_def answer_items_def result_simps
      MAX_EVIDENCE_CHUNK_BYTES_def usize_checked_add_def split: if_splits option.splits sum.splits prod.splits)

lemma emit_answer_refused:
  assumes "compact_printer esc print" "emit_answer print result evidence = (Inl e, evidence')" "ec_output evidence = None"
  shows "e = WfLimitExceeded"
  using assms(2,3)
  by (auto simp: emit_answer_def canonical_evidence_text [OF assms(1)] invocation_evidence_new_def emit_def result_simps
      split: if_splits option.splits sum.splits prod.splits)

end
