(* ===== verification/Tool_Surfaces.thy ===== *)
theory Tool_Surfaces
  imports Sandbox_Mcp Memory_Mcp_Properties Observability_Mcp Evaluation_Mcp Agent_Mcp_Properties Workflow_Mcp_Properties
begin

text \<open>
  What the six policy-gated tool surfaces have in common, and what their replies to a query show.
\<close>

section \<open>The gate of every surface\<close>

text \<open>
  The record of a call that acted: one resolved context, one decision on it and the capability of
  the tool, which verifies, and then the act, which carries what the surface promises. Under a
  static policy the grant is that of its list.
\<close>

definition acted_through_gate :: "(string \<Rightarrow> string) \<Rightarrow> 'w host \<Rightarrow> capability_v1 option
    \<Rightarrow> (trusted_context_v1 \<Rightarrow> grant_v1 \<Rightarrow> string \<Rightarrow> 'e \<Rightarrow> bool) \<Rightarrow> 'e access_event list \<Rightarrow> 'e \<Rightarrow> bool" where
  "acted_through_gate sha256_hex host capability carried log e \<longleftrightarrow>
     (\<exists>c trusted decision g d before. capability = Some c
        \<and> log = [Resolved (Inr trusted), Decided (authorization_request_v1.make trusted c) decision, Performed e]
        \<and> fst (host_resolve host before) = Inr trusted
        \<and> allows sha256_hex (authorization_request_v1.make trusted c) decision g d
        \<and> carried trusted g d e
        \<and> (\<forall>gs resolver. static_policy_resolver_new gs = Inr resolver \<and> decided_by (authorize sha256_hex resolver) host
             \<longrightarrow> map_option canonical_form (map_of gs (GrantKeyV1 (tc_tenant_id trusted) (tc_principal_id trusted) c)) = Some g))"

context tool_surface
begin

lemma acts_through_gate:
  assumes "call t (w, []) = (r, (w', log))" "Performed e \<in> set log"
  shows "acted_through_gate sha256_hex host (capability_of t) (carries t) log e"
  using performed_after_gate [OF assms] unfolding acted_through_gate_def authorization_request_v1.make_def verified_grant_allows by blast

end

text \<open>C5: Every tool acts only through the gate. For each surface, whatever its service, its host and its policy
  do: a tool call asks at most one thing of the service, as its last act, and only after the host
  resolved a trusted context and the policy allowed exactly the tool's capability for exactly that
  context, with a digest that verifies. What is asked is the tool's operation on validated input,
  under the trusted identifiers (for memory, only with the grant's memory flag; for agents and
  workflows, with the grant as ceiling). Under a static policy tenant and principal hold the
  capability in its list.\<close>

theorem tools_act_through_the_gate:
  "(\<forall>w r w' log e. sandbox_dispatch codec sha256_hex (logged_mcp sandbox) tool arguments (w, []) = (r, (w', log)) \<and> Performed e \<in> set log
      \<longrightarrow> acted_through_gate sha256_hex (sm_host sandbox) (sandbox_capability_of tool) (sandbox_carries tool) log e)
   \<and> (\<forall>w r w' log e. memory_tool_call print display sha256_hex (logged_memory memory) mt (w, []) = (r, (w', log)) \<and> Performed e \<in> set log
      \<longrightarrow> acted_through_gate sha256_hex (mm_host memory) (Some (memory_capability_of mt)) (memory_carries mt) log e)
   \<and> (\<forall>w r w' log e. observability_tool_call print display sha256_hex (logged_observability telemetry) ot (w, []) = (r, (w', log)) \<and> Performed e \<in> set log
      \<longrightarrow> acted_through_gate sha256_hex (om_host telemetry) (Some (observability_capability_of ot)) (observability_carries ot) log e)
   \<and> (\<forall>w r w' log e. evaluation_tool_call print display sha256_hex (logged_evaluation evaluation) et (w, []) = (r, (w', log)) \<and> Performed e \<in> set log
      \<longrightarrow> acted_through_gate sha256_hex (em_host evaluation) (Some (evaluation_capability_of et)) (evaluation_carries et) log e)
   \<and> (\<forall>w r w' log e. agent_tool_call print display sha256_hex (logged_agent agent) at (w, []) = (r, (w', log)) \<and> Performed e \<in> set log
      \<longrightarrow> acted_through_gate sha256_hex (am_host agent) (Some (agent_capability_of at)) (agent_carries at) log e)
   \<and> (\<forall>w r w' log e. workflow_tool_call print display sha256_hex (logged_workflow workflow) wt (w, []) = (r, (w', log)) \<and> Performed e \<in> set log
      \<longrightarrow> acted_through_gate sha256_hex (wm_host workflow) (Some (workflow_capability_of wt)) (workflow_carries wt) log e)"
  using sandbox_surface.acts_through_gate [where t = "(tool, arguments)", of codec sha256_hex sandbox]
    memory_surface.acts_through_gate [of print display sha256_hex memory mt]
    observability_surface.acts_through_gate [of print display sha256_hex telemetry ot]
    evaluation_surface.acts_through_gate [of print display sha256_hex evaluation et]
    agent_surface.acts_through_gate [of print display sha256_hex agent at]
    workflow_surface.acts_through_gate [of print display sha256_hex workflow wt]
  by (auto simp: split_beta)

theorem tools_act_through_the_gate_witness:
  "\<exists>log. acted_through_gate id (sm_host demo_mcp) (sandbox_capability_of ''sandbox_start'') (sandbox_carries ''sandbox_start'') log demo_start"
proof -
  obtain r log where "sandbox_dispatch demo_codec id (logged_mcp demo_mcp) ''sandbox_start'' JNull ((), []) = (r, ((), log))"
    and "Performed demo_start \<in> set log" using demo_start_performed by blast
  with tools_act_through_the_gate [THEN conjunct1, of demo_codec id demo_mcp "''sandbox_start''" JNull] show ?thesis by blast
qed

section \<open>Telemetry pages\<close>

text \<open>A telemetry query is never refused for the size of its records: over any library that prints compact
  JSON it shows the longest prefix of them that fits the ceilings, raw and escaped into tool text,
  and its flag tells whether that is all of them.\<close>

lemma telemetry_page_total:
  assumes "compact_printer esc print"
  shows "\<exists>k\<le>length records. serialize_records print records = Inr (Json_Text.json_text esc (records_json records k))
    \<and> page_fits esc (records_json records k) \<and> (\<forall>j. k < j \<and> j \<le> length records \<longrightarrow> \<not> page_fits esc (records_json records j))"
  unfolding serialize_records_def by (rule longest_fit_total [OF assms])

lemma telemetry_page_total_witness:
  "\<forall>first second. \<exists>k\<le>2. serialize_records demo_printer [first, second] = Inr (Json_Text.json_text demo_escape (records_json [first, second] k))"
  using telemetry_page_total [OF demo_compact] by (metis length_Cons list.size(3) numeral_2_eq_2)

end
