(* ===== verification/Stdio.thy ===== *)
theory Stdio
  imports Text_Ops "HOL-Library.Sublist"
begin

text \<open>
  The bounded stdio transport of the \<open>mcp-transport\<close> crate (\<open>mcp-transport/src/lib.rs\<close>): the decoder
  that bounds a line before the protocol library parses it, and the transport that closes on a
  framing error. The library's codec is a parameter: a function from its own state and the buffer
  to a result, a state and the rest of the buffer; \<open>line_codec\<close> states what the decoder relies on.
\<close>

section \<open>The decoder\<close>

definition MAX_MCP_STDIO_FRAME_BYTES :: nat where "MAX_MCP_STDIO_FRAME_BYTES = 64 * 1024"
definition MAX_MCP_STDIO_CODEC_BYTES :: nat where "MAX_MCP_STDIO_CODEC_BYTES = MAX_MCP_STDIO_FRAME_BYTES + 1"

lemmas frame_limits = MAX_MCP_STDIO_FRAME_BYTES_def MAX_MCP_STDIO_CODEC_BYTES_def

abbreviation CR :: char where "CR \<equiv> CHR 0x0D"
abbreviation LF :: char where "LF \<equiv> CHR 0x0A"

datatype category = SyntaxCategory | EofCategory | DataCategory | IoCategory
datatype codec_error = MaxLineLengthExceeded | Serde category | CodecIo

definition recoverable :: "category \<Rightarrow> bool" where
  "recoverable cat \<longleftrightarrow> cat = SyntaxCategory \<or> cat = EofCategory"

definition payload_is_oversized :: "string \<Rightarrow> bool" where
  "payload_is_oversized buf =
     (let payload = (if buf \<noteq> [] \<and> last buf = CR then butlast buf else buf) in length payload > MAX_MCP_STDIO_FRAME_BYTES)"

text \<open>The two checks \<open>decode\<close> makes before it calls the library.\<close>

definition partial_is_oversized :: "string \<Rightarrow> bool" where
  "partial_is_oversized buf \<longleftrightarrow> length buf > MAX_MCP_STDIO_FRAME_BYTES
     \<and> \<not> (length buf = MAX_MCP_STDIO_CODEC_BYTES \<and> buf \<noteq> [] \<and> last buf = CR)"

definition frame_is_oversized :: "string \<Rightarrow> bool" where
  "frame_is_oversized buf = (if LF \<in> set buf then payload_is_oversized (takeWhile (\<lambda>b. b \<noteq> LF) buf) else partial_is_oversized buf)"

type_synonym ('m, 'c) codec = "'c \<Rightarrow> string \<Rightarrow> ('m option, codec_error) result \<times> 'c \<times> string"

partial_function (option) decode :: "('m, 'c) codec \<Rightarrow> 'c \<Rightarrow> string \<Rightarrow> (('m option, codec_error) result \<times> 'c \<times> string) option" where
  "decode inner c buf =
     (if frame_is_oversized buf then Some (Inl MaxLineLengthExceeded, c, buf)
      else case inner c buf of (r, c', buf') \<Rightarrow>
        (case r of Inl (Serde cat) \<Rightarrow> if recoverable cat then decode inner c' buf' else Some (r, c', buf')
         | _ \<Rightarrow> Some (r, c', buf')))"

definition decode_eof :: "('m, 'c) codec \<Rightarrow> 'c \<Rightarrow> string \<Rightarrow> ('m option, codec_error) result \<times> 'c \<times> string" where
  "decode_eof inner_eof c buf =
     (if payload_is_oversized buf then (Inl MaxLineLengthExceeded, c, buf)
      else case inner_eof c buf of (r, c', buf') \<Rightarrow>
        (case r of Inl (Serde cat) \<Rightarrow> if recoverable cat then (Inr None, c', buf') else (r, c', buf')
         | _ \<Rightarrow> (r, c', buf')))"

section \<open>The frames of a stream\<close>

text \<open>
  What a stream of bytes means, told without a buffer: its complete lines are parsed in order, those
  that are no JSON are skipped, and the first error ends everything: a line that is JSON of another
  shape, one that is too long, or a pending line that can only become too long.
\<close>

fun cut :: "string \<Rightarrow> string list \<times> string" where
  "cut [] = ([], [])"
| "cut (b # bs) = (case cut bs of (ls, p) \<Rightarrow>
     if b = LF then ([] # ls, p) else case ls of [] \<Rightarrow> ([], b # p) | l # ls \<Rightarrow> ((b # l) # ls, p))"

fun line_items :: "(string \<Rightarrow> ('m, category) result) \<Rightarrow> string list \<Rightarrow> string \<Rightarrow> ('m, codec_error) result list" where
  "line_items parse [] p = (if partial_is_oversized p then [Inl MaxLineLengthExceeded] else [])"
| "line_items parse (l # ls) p =
     (if payload_is_oversized l then [Inl MaxLineLengthExceeded]
      else case parse l of Inr m \<Rightarrow> Inr m # line_items parse ls p
         | Inl cat \<Rightarrow> if recoverable cat then line_items parse ls p else [Inl (Serde cat)])"

definition frames :: "(string \<Rightarrow> ('m, category) result) \<Rightarrow> string \<Rightarrow> ('m, codec_error) result list" where
  "frames parse bs = (case cut bs of (ls, p) \<Rightarrow> line_items parse ls p)"

lemma cut_partial: "LF \<notin> set p \<Longrightarrow> cut p = ([], p)"
  by (induction p) auto

lemma cut_line: "LF \<notin> set l \<Longrightarrow> cut (l @ LF # rest) = (l # fst (cut rest), snd (cut rest))"
  by (induction l) (auto split: prod.split)

lemma frames_partial: "LF \<notin> set p \<Longrightarrow> frames parse p = (if partial_is_oversized p then [Inl MaxLineLengthExceeded] else [])"
  by (simp add: frames_def cut_partial)

lemma frames_line:
  "LF \<notin> set l \<Longrightarrow> frames parse (l @ LF # rest) =
     (if payload_is_oversized l then [Inl MaxLineLengthExceeded]
      else case parse l of Inr m \<Rightarrow> Inr m # frames parse rest
         | Inl cat \<Rightarrow> if recoverable cat then frames parse rest else [Inl (Serde cat)])"
  by (simp add: frames_def cut_line split: prod.split sum.split)

lemma line_cases:
  obtains (partial) "LF \<notin> set buf" | (line) l rest where "buf = l @ LF # rest" "LF \<notin> set l"
  by (metis split_list_first)

text \<open>A pending line that is too long stays so, however it goes on.\<close>

lemma oversized_extends:
  assumes "partial_is_oversized p"
  shows "payload_is_oversized (p @ x)" "x \<noteq> [] \<Longrightarrow> partial_is_oversized (p @ x)"
proof -
  have long: "length p > 65536" "length p = 65537 \<Longrightarrow> last p \<noteq> CR"
    using assms by (auto simp: partial_is_oversized_def frame_limits)
  show "payload_is_oversized (p @ x)"
  proof -
    have "length (p @ x) > 65537 \<or> length (p @ x) > 65536 \<and> last (p @ x) \<noteq> CR"
    proof (cases x)
      case Nil
      with long show ?thesis by (cases "length p = 65537") auto
    qed (use long in auto)
    then show ?thesis by (auto simp: payload_is_oversized_def frame_limits)
  qed
  show "partial_is_oversized (p @ x)" if "x \<noteq> []"
    using long that by (cases x) (auto simp: partial_is_oversized_def frame_limits)
qed

lemma oversized_stays:
  assumes "LF \<notin> set p" "partial_is_oversized p"
  shows "frames parse (p @ tail) = [Inl MaxLineLengthExceeded]"
proof (cases tail rule: line_cases)
  case partial
  with assms oversized_extends(2) [OF assms(2), of tail] show ?thesis by (cases "tail = []") (simp_all add: frames_partial)
next
  case (line l rest)
  with assms have "LF \<notin> set (p @ l)" by simp
  from frames_line [OF this, of parse rest] oversized_extends(1) [OF assms(2), of l] show ?thesis by (simp add: line)
qed

section \<open>The decoder reads the frames\<close>

text \<open>
  What the decoder relies on of the library's codec, for some relation \<open>ready\<close> between its state and
  the buffer: a complete line of at most the codec's limit is taken from the buffer and parsed; with no
  complete line nothing is taken; and bytes may arrive at any time.
\<close>

definition line_codec :: "('m, 'c) codec \<Rightarrow> ('c \<Rightarrow> string \<Rightarrow> bool) \<Rightarrow> (string \<Rightarrow> ('m, category) result) \<Rightarrow> bool" where
  "line_codec inner ready parse \<longleftrightarrow>
     (\<forall>c l rest. ready c (l @ LF # rest) \<and> LF \<notin> set l \<and> length l \<le> MAX_MCP_STDIO_CODEC_BYTES
        \<longrightarrow> (\<exists>c'. ready c' rest \<and> inner c (l @ LF # rest) = (case parse l of Inr m \<Rightarrow> Inr (Some m) | Inl cat \<Rightarrow> Inl (Serde cat), c', rest)))
     \<and> (\<forall>c buf. ready c buf \<and> LF \<notin> set buf \<and> length buf \<le> MAX_MCP_STDIO_CODEC_BYTES
        \<longrightarrow> (\<exists>c'. ready c' buf \<and> inner c buf = (Inr None, c', buf)))
     \<and> (\<forall>c buf bs. ready c buf \<longrightarrow> ready c (buf @ bs))"

lemma line_codecD:
  assumes "line_codec inner ready parse"
  shows "ready c (l @ LF # rest) \<Longrightarrow> LF \<notin> set l \<Longrightarrow> \<not> payload_is_oversized l \<Longrightarrow> \<exists>c'. ready c' rest
      \<and> inner c (l @ LF # rest) = (case parse l of Inr m \<Rightarrow> Inr (Some m) | Inl cat \<Rightarrow> Inl (Serde cat), c', rest)"
    and "ready c buf \<Longrightarrow> LF \<notin> set buf \<Longrightarrow> \<not> partial_is_oversized buf \<Longrightarrow> \<exists>c'. ready c' buf \<and> inner c buf = (Inr None, c', buf)"
    and "ready c buf \<Longrightarrow> ready c (buf @ bs)"
proof -
  have "length l \<le> MAX_MCP_STDIO_CODEC_BYTES" if "\<not> payload_is_oversized l" for l
    using that by (auto simp: payload_is_oversized_def frame_limits Let_def split: if_splits)
  moreover have "length buf \<le> MAX_MCP_STDIO_CODEC_BYTES" if "\<not> partial_is_oversized buf" for buf
    using that by (auto simp: partial_is_oversized_def frame_limits)
  ultimately show "ready c (l @ LF # rest) \<Longrightarrow> LF \<notin> set l \<Longrightarrow> \<not> payload_is_oversized l \<Longrightarrow> \<exists>c'. ready c' rest
      \<and> inner c (l @ LF # rest) = (case parse l of Inr m \<Rightarrow> Inr (Some m) | Inl cat \<Rightarrow> Inl (Serde cat), c', rest)"
    and "ready c buf \<Longrightarrow> LF \<notin> set buf \<Longrightarrow> \<not> partial_is_oversized buf \<Longrightarrow> \<exists>c'. ready c' buf \<and> inner c buf = (Inr None, c', buf)"
    and "ready c buf \<Longrightarrow> ready c (buf @ bs)"
    using assms unfolding line_codec_def by blast+
qed

text \<open>One call: its result is the first frame, also of every continuation of the buffer.\<close>

definition decoded :: "(string \<Rightarrow> ('m, category) result) \<Rightarrow> string \<Rightarrow> ('m option, codec_error) result \<Rightarrow> string \<Rightarrow> bool" where
  "decoded parse buf r buf' \<longleftrightarrow>
     (\<forall>tail. frames parse (buf @ tail) = (case r of
         Inr None \<Rightarrow> frames parse (buf' @ tail)
       | Inr (Some m) \<Rightarrow> Inr m # frames parse (buf' @ tail)
       | Inl e \<Rightarrow> [Inl e]))
     \<and> (r = Inr None \<longrightarrow> frames parse buf' = [])"

lemma decode_partial:
  assumes "line_codec inner ready parse" "ready c buf" "LF \<notin> set buf"
  shows "\<exists>r c' buf'. decode inner c buf = Some (r, c', buf') \<and> decoded parse buf r buf'
    \<and> (\<not> isl r \<longrightarrow> ready c' buf')"
proof (cases "partial_is_oversized buf")
  case True
  with assms(3) oversized_stays [OF assms(3) True, of parse] show ?thesis
    by (subst decode.simps) (simp add: frame_is_oversized_def decoded_def)
next
  case False
  with line_codecD(2) [OF assms] obtain c' where "ready c' buf" "inner c buf = (Inr None, c', buf)" by blast
  with assms(3) False show ?thesis by (subst decode.simps) (simp add: frame_is_oversized_def decoded_def frames_partial)
qed

lemma decode_reads_frame:
  assumes "line_codec inner ready parse" "ready c buf"
  shows "\<exists>r c' buf'. decode inner c buf = Some (r, c', buf') \<and> decoded parse buf r buf'
    \<and> (\<not> isl r \<longrightarrow> ready c' buf')"
  using assms(2)
proof (induction buf arbitrary: c rule: length_induct)
  case (1 buf)
  show ?case
  proof (cases buf rule: line_cases)
    case partial
    with 1(2) decode_partial [OF assms(1)] show ?thesis by blast
  next
    case (line l rest)
    have "takeWhile (\<lambda>b. b \<noteq> LF) l = l" unfolding takeWhile_eq_all_conv using line(2) by blast
    with line have first: "frame_is_oversized buf = payload_is_oversized l"
      by (simp add: frame_is_oversized_def takeWhile_append)
    have frames: "frames parse (buf @ tail) = (if payload_is_oversized l then [Inl MaxLineLengthExceeded]
      else case parse l of Inr m \<Rightarrow> Inr m # frames parse (rest @ tail)
         | Inl cat \<Rightarrow> if recoverable cat then frames parse (rest @ tail) else [Inl (Serde cat)])" for tail
      using frames_line [OF line(2), of parse "rest @ tail"] line(1) by simp
    show ?thesis
    proof (cases "payload_is_oversized l")
      case True
      with first frames show ?thesis by (subst decode.simps) (simp add: decoded_def)
    next
      case False
      with line_codecD(1) [OF assms(1) _ line(2)] 1(2) line(1) obtain c' where c': "ready c' rest"
        "inner c buf = (case parse l of Inr m \<Rightarrow> Inr (Some m) | Inl cat \<Rightarrow> Inl (Serde cat), c', rest)" by blast
      have "length rest < length buf" by (simp add: line(1))
      with 1(1) c'(1) obtain r c2 buf2 where "decode inner c' rest = Some (r, c2, buf2)" "decoded parse rest r buf2"
        "\<not> isl r \<longrightarrow> ready c2 buf2" by blast
      with first c' frames False show ?thesis
        by (subst decode.simps) (auto simp: decoded_def split: sum.split)
    qed
  qed
qed

section \<open>Reads of any size\<close>

text \<open>
  Bytes arrive and the decoder is called in any order; the framed reader of the library ends with
  the first error.
\<close>

datatype read_op = Arrive string | Decode

fun arrived :: "read_op list \<Rightarrow> string" where
  "arrived [] = []"
| "arrived (Arrive bs # ops) = bs @ arrived ops"
| "arrived (Decode # ops) = arrived ops"

fun drive :: "('m, 'c) codec \<Rightarrow> 'c \<Rightarrow> string \<Rightarrow> read_op list \<Rightarrow> ('m, codec_error) result list option" where
  "drive inner c buf [] = Some []"
| "drive inner c buf (Arrive bs # ops) = drive inner c (buf @ bs) ops"
| "drive inner c buf (Decode # ops) =
     (case decode inner c buf of None \<Rightarrow> None
      | Some (Inl e, c', buf') \<Rightarrow> Some [Inl e]
      | Some (Inr None, c', buf') \<Rightarrow> drive inner c' buf' ops
      | Some (Inr (Some m), c', buf') \<Rightarrow> map_option ((#) (Inr m)) (drive inner c' buf' ops))"

lemma decode_cases:
  assumes "line_codec inner ready parse" "ready c buf"
  obtains (error) e c' buf' where "decode inner c buf = Some (Inl e, c', buf')" "\<And>tail. frames parse (buf @ tail) = [Inl e]"
  | (pending) c' buf' where "decode inner c buf = Some (Inr None, c', buf')" "ready c' buf'" "frames parse buf' = []"
      "\<And>tail. frames parse (buf @ tail) = frames parse (buf' @ tail)"
  | (message) m c' buf' where "decode inner c buf = Some (Inr (Some m), c', buf')" "ready c' buf'"
      "\<And>tail. frames parse (buf @ tail) = Inr m # frames parse (buf' @ tail)"
proof -
  obtain r c' buf' where d: "decode inner c buf = Some (r, c', buf')" "decoded parse buf r buf'" "\<not> isl r \<longrightarrow> ready c' buf'"
    using decode_reads_frame [OF assms] by blast
  show ?thesis
  proof (cases r)
    case (Inl e)
    with d error show ?thesis by (auto simp: decoded_def)
  next
    case (Inr m)
    with d pending message show ?thesis by (cases m) (auto simp: decoded_def)
  qed
qed

lemma drive_reads:
  assumes "line_codec inner ready parse" "ready c buf"
  shows "\<exists>items. drive inner c buf ops = Some items \<and> prefix items (frames parse (buf @ arrived ops))"
  using assms(2)
proof (induction ops arbitrary: c buf)
  case (Cons op ops)
  show ?case
  proof (cases op)
    case (Arrive bs)
    with Cons.IH [OF line_codecD(3) [OF assms(1) Cons.prems]] show ?thesis by simp
  next
    case Decode
    from assms(1) Cons.prems show ?thesis
    proof (cases rule: decode_cases)
      case pending
      with Cons.IH [OF pending(2)] Decode show ?thesis by simp
    next
      case message
      with Cons.IH [OF message(2)] Decode show ?thesis by auto
    qed (simp add: Decode)
  qed
qed simp

text \<open>Enough calls after the last byte return every frame.\<close>

lemma drain_reads:
  assumes "line_codec inner ready parse" "ready c buf" "length (frames parse (buf @ arrived ops)) \<le> n"
  shows "drive inner c buf (ops @ replicate n Decode) = Some (frames parse (buf @ arrived ops))"
  using assms(2,3)
proof (induction "ops" arbitrary: c buf)
  case Nil
  then show ?case
  proof (induction n arbitrary: c buf)
    case (Suc n)
    from assms(1) Suc.prems(1) show ?case
    proof (cases rule: decode_cases)
      case (error e c' buf')
      from error(1) error(2) [of "[]"] show ?thesis by simp
    next
      case (pending c' buf')
      from Suc.IH [OF pending(2)] pending(1,3) pending(4) [of "[]"] show ?thesis by simp
    next
      case (message m c' buf')
      from Suc.IH [OF message(2)] Suc.prems(2) message(1) message(3) [of "[]"] show ?thesis by simp
    qed
  qed simp
next
  case (Cons op ops)
  show ?case
  proof (cases op)
    case (Arrive bs)
    with Cons.IH [OF line_codecD(3) [OF assms(1) Cons.prems(1)]] Cons.prems(2) show ?thesis by simp
  next
    case Decode
    from assms(1) Cons.prems(1) show ?thesis
    proof (cases rule: decode_cases)
      case pending
      with Cons.IH [OF pending(2)] Cons.prems(2) Decode show ?thesis by simp
    next
      case message
      with Cons.IH [OF message(2)] Cons.prems(2) Decode show ?thesis by simp
    qed (simp add: Decode)
  qed
qed

text \<open>No error that only means malformed JSON leaves the decoder.\<close>

lemma decode_eof_not_recoverable:
  "fst (decode_eof inner_eof c buf) \<noteq> Inl (Serde SyntaxCategory)" "fst (decode_eof inner_eof c buf) \<noteq> Inl (Serde EofCategory)"
  by (auto simp: decode_eof_def recoverable_def split: prod.split sum.split codec_error.split)

section \<open>The transport\<close>

text \<open>
  The state of \<open>BoundedStdioTransport\<close>: what the framed reader still yields before it ends, whether
  the writer is still there, the closed flag, and, for the properties, the calls made of the writer
  (latest last). Whether the writer accepts a message is a parameter of what was written before.
\<close>

datatype 'o tx_message = InvalidRequest | Outgoing 'o
datatype 'o writer_call = Written "'o tx_message" | WriterClosed
datatype send_error = NotConnected | SinkError

record ('m, 'o) stdio_transport =
  reader :: "('m, codec_error) result list"
  writer :: bool
  closed :: bool
  calls :: "'o writer_call list"

definition transport_new :: "('m, codec_error) result list \<Rightarrow> ('m, 'o) stdio_transport" where
  "transport_new items = \<lparr>reader = items, writer = True, closed = False, calls = []\<rparr>"

definition close_writer :: "('m, 'o) stdio_transport \<Rightarrow> ('m, 'o) stdio_transport" where
  "close_writer t = (if writer t then t\<lparr>writer := False, calls := calls t @ [WriterClosed]\<rparr> else t)"

definition close_after_framing_error :: "('m, 'o) stdio_transport \<Rightarrow> ('m, 'o) stdio_transport" where
  "close_after_framing_error t = close_writer (t\<lparr>closed := True\<rparr>)"

definition transport_send ::
  "('o writer_call list \<Rightarrow> 'o tx_message \<Rightarrow> bool) \<Rightarrow> 'o tx_message \<Rightarrow> ('m, 'o) stdio_transport \<Rightarrow> (unit, send_error) result \<times> ('m, 'o) stdio_transport" where
  "transport_send accepts item t =
     (if writer t
      then (if accepts (calls t) item then Inr () else Inl SinkError, t\<lparr>calls := calls t @ [Written item]\<rparr>)
      else (Inl NotConnected, t))"

text \<open>The loop of \<open>receive\<close>, by recursion on what the reader yields.\<close>

fun receive_loop ::
  "('o writer_call list \<Rightarrow> 'o tx_message \<Rightarrow> bool) \<Rightarrow> ('m, codec_error) result list \<Rightarrow> ('m, 'o) stdio_transport \<Rightarrow> 'm option \<times> ('m, 'o) stdio_transport" where
  "receive_loop accepts [] t = (None, close_writer (t\<lparr>reader := [], closed := True\<rparr>))"
| "receive_loop accepts (Inr m # items) t = (Some m, t\<lparr>reader := items\<rparr>)"
| "receive_loop accepts (Inl (Serde cat) # items) t =
     (if recoverable cat then receive_loop accepts items t
      else case transport_send accepts InvalidRequest t of
        (Inl e, t') \<Rightarrow> (None, close_after_framing_error (t'\<lparr>reader := items\<rparr>))
      | (Inr u, t') \<Rightarrow> receive_loop accepts items t')"
| "receive_loop accepts (Inl e # items) t = (None, close_after_framing_error (t\<lparr>reader := items\<rparr>))"

definition transport_receive ::
  "('o writer_call list \<Rightarrow> 'o tx_message \<Rightarrow> bool) \<Rightarrow> ('m, 'o) stdio_transport \<Rightarrow> 'm option \<times> ('m, 'o) stdio_transport" where
  "transport_receive accepts t = (if closed t then (None, t) else receive_loop accepts (reader t) t)"

definition transport_close :: "('m, 'o) stdio_transport \<Rightarrow> ('m, 'o) stdio_transport" where
  "transport_close t = close_writer (t\<lparr>closed := True\<rparr>)"

datatype 'o transport_op = Send "'o" | Receive | Close
datatype 'm transport_reply = Sent "(unit, send_error) result" | Received "'m option" | ClosedOk

fun transport_step ::
  "('o writer_call list \<Rightarrow> 'o tx_message \<Rightarrow> bool) \<Rightarrow> 'o transport_op \<Rightarrow> ('m, 'o) stdio_transport \<Rightarrow> 'm transport_reply \<times> ('m, 'o) stdio_transport" where
  "transport_step accepts (Send x) t = map_prod Sent id (transport_send accepts (Outgoing x) t)"
| "transport_step accepts Receive t = map_prod Received id (transport_receive accepts t)"
| "transport_step accepts Close t = (ClosedOk, transport_close t)"

fun transport_history ::
  "('o writer_call list \<Rightarrow> 'o tx_message \<Rightarrow> bool) \<Rightarrow> 'o transport_op list \<Rightarrow> ('m, 'o) stdio_transport \<Rightarrow> 'm transport_reply list \<times> ('m, 'o) stdio_transport" where
  "transport_history accepts [] t = ([], t)"
| "transport_history accepts (x # xs) t =
     (case transport_step accepts x t of (r, t') \<Rightarrow> case transport_history accepts xs t' of (rs, t'') \<Rightarrow> (r # rs, t''))"

lemmas transport_defs = close_writer_def close_after_framing_error_def transport_send_def transport_receive_def transport_close_def

text \<open>The writer is there exactly while the transport is open.\<close>

lemma receive_loop_coupled: "writer t = (\<not> closed t) \<Longrightarrow> writer (snd (receive_loop accepts items t)) = (\<not> closed (snd (receive_loop accepts items t)))"
  by (induction accepts items t rule: receive_loop.induct) (auto simp: transport_defs)

lemma step_coupled:
  assumes "writer t = (\<not> closed t)"
  shows "writer (snd (transport_step accepts x t)) = (\<not> closed (snd (transport_step accepts x t)))"
  using assms by (cases x) (auto simp: transport_defs receive_loop_coupled)

lemma history_coupled:
  "writer t = (\<not> closed t) \<Longrightarrow> writer (snd (transport_history accepts xs t)) = (\<not> closed (snd (transport_history accepts xs t)))"
proof (induction xs arbitrary: t)
  case (Cons x xs)
  from Cons.IH [OF step_coupled [OF Cons.prems, of accepts x]] show ?case by (auto split: prod.split)
qed simp

fun closed_reply :: "'o transport_op \<Rightarrow> 'm transport_reply" where
  "closed_reply (Send x) = Sent (Inl NotConnected)"
| "closed_reply Receive = Received None"
| "closed_reply Close = ClosedOk"

lemma closed_history: "closed t \<Longrightarrow> \<not> writer t \<Longrightarrow> transport_history accepts xs t = (map closed_reply xs, t)"
proof (induction xs)
  case (Cons x xs)
  then have "transport_step accepts x t = (closed_reply x, t)"
    by (cases x) (simp_all add: transport_defs)
  with Cons show ?case by simp
qed simp

lemma history_append:
  "transport_history accepts (xs @ ys) t =
     (case transport_history accepts xs t of (rs, t') \<Rightarrow> case transport_history accepts ys t' of (rs', t'') \<Rightarrow> (rs @ rs', t''))"
  by (induction xs arbitrary: t) (simp_all split: prod.split)

lemma closed_is_terminal:
  assumes "closed (snd (transport_history accepts xs (transport_new items)))"
  shows "snd (transport_history accepts (xs @ ys) (transport_new items)) = snd (transport_history accepts xs (transport_new items))"
  using assms history_coupled [of "transport_new items" accepts xs]
  by (cases "transport_history accepts xs (transport_new items)") (simp add: history_append transport_new_def closed_history)

text \<open>Receiving messages that the reader yields in order.\<close>

lemma receive_messages:
  "\<not> closed t \<Longrightarrow> reader t = map Inr ms @ items \<Longrightarrow>
     transport_history accepts (replicate (length ms) Receive) t = (map (\<lambda>m. Received (Some m)) ms, t\<lparr>reader := items\<rparr>)"
  by (induction ms arbitrary: t) (simp_all add: transport_defs)

section \<open>Properties\<close>

text \<open>C34:
  The decoder of the stdio transport reads the frames of a stream whatever the sizes of the reads:
  over a codec that splits its buffer at line feeds, for every order in which bytes arrive and
  \<open>decode\<close> is called, every call returns, the items returned are the frames of the bytes that arrived,
  and once \<open>decode\<close> is called often enough after the last byte they are all of them. A line of more
  than 64 KiB beside its CR is never handed to the parser.
\<close>

theorem frames_of_any_reads:
  assumes "line_codec inner ready parse" "ready c []"
  shows "drive inner c [] (ops @ replicate (length (frames parse (arrived ops)) + k) Decode) = Some (frames parse (arrived ops))
    \<and> (\<exists>items. drive inner c [] ops = Some items \<and> prefix items (frames parse (arrived ops)))"
  using drive_reads [OF assms, of ops] drain_reads [OF assms, of ops] by simp

text \<open>A codec without state that satisfies the hypothesis.\<close>

definition split_codec :: "(string \<Rightarrow> ('m, category) result) \<Rightarrow> ('m, unit) codec" where
  "split_codec parse c buf =
     (if LF \<in> set buf
      then (case parse (takeWhile (\<lambda>b. b \<noteq> LF) buf) of Inr m \<Rightarrow> Inr (Some m) | Inl cat \<Rightarrow> Inl (Serde cat), c, tl (dropWhile (\<lambda>b. b \<noteq> LF) buf))
      else (Inr None, c, buf))"

lemma split_codec_ok: "line_codec (split_codec parse) (\<lambda>c buf. True) parse"
  by (simp add: line_codec_def split_codec_def takeWhile_append dropWhile_append)

theorem frames_of_any_reads_witness:
  "drive (split_codec (\<lambda>l. if l = ''x'' then Inl SyntaxCategory else Inr l)) () []
     ([Arrive [CHR ''a''], Decode, Arrive [CHR ''b'', LF, CHR ''x''], Arrive [LF, CHR ''c'', LF, CHR ''d'']] @ replicate 2 Decode)
   = Some [Inr ''ab'', Inr ''c'']"
proof -
  let ?parse = "\<lambda>l. if l = ''x'' then Inl SyntaxCategory else Inr l"
  let ?ops = "[Arrive [CHR ''a''], Decode, Arrive [CHR ''b'', LF, CHR ''x''], Arrive [LF, CHR ''c'', LF, CHR ''d'']]"
  have "frames ?parse (arrived ?ops) = [Inr ''ab'', Inr ''c'']"
    by (simp add: frames_def payload_is_oversized_def partial_is_oversized_def frame_limits recoverable_def)
  then show ?thesis
    using frames_of_any_reads [OF split_codec_ok [of ?parse], of "()" ?ops 0] by (simp add: numeral_2_eq_2)
qed

text \<open>C35:
  A framing error is the end of a stdio session. When the bytes on the reader hold messages and then a
  line of more than 64 KiB, the messages are received in order, the next \<open>receive\<close> returns nothing
  and closes the writer without writing to it; whatever is called afterwards, nothing more is
  received, every send fails with \<open>NotConnected\<close>, and the writer is not called again, although
  valid lines may follow the long one.
\<close>

theorem framing_error_is_terminal:
  assumes "frames parse bytes = map Inr ms @ [Inl MaxLineLengthExceeded]"
  shows "transport_history accepts (replicate (Suc (length ms)) Receive @ ops) (transport_new (frames parse bytes))
    = (map (\<lambda>m. Received (Some m)) ms @ Received None # map closed_reply ops,
       \<lparr>reader = [], writer = False, closed = True, calls = [WriterClosed]\<rparr>)"
proof -
  have receives: "replicate (Suc (length ms)) Receive @ ops = replicate (length ms) Receive @ Receive # ops"
    by (simp add: replicate_app_Cons_same)
  show ?thesis unfolding receives history_append assms transport_new_def
    by (simp add: receive_messages transport_defs closed_history)
qed

theorem framing_error_is_terminal_witness:
  "transport_history (\<lambda>_ _. True) (replicate (Suc 1) Receive @ [Receive, Send ''r'']) (transport_new (frames Inr (''a'' @ LF # replicate 65537 CHR ''x'' @ LF # ''b'' @ [LF])))
    = ([Received (Some ''a''), Received None, Received None, Sent (Inl NotConnected)],
       \<lparr>reader = [], writer = False, closed = True, calls = [WriterClosed]\<rparr>)"
proof -
  have "payload_is_oversized (replicate 65537 CHR ''x'')" by (simp add: payload_is_oversized_def frame_limits)
  then have "frames Inr (replicate 65537 CHR ''x'' @ LF # ''b'' @ [LF]) = [Inl MaxLineLengthExceeded]"
    by (subst frames_line) simp_all
  moreover have "\<not> payload_is_oversized ''a''" by (simp add: payload_is_oversized_def frame_limits)
  ultimately have "frames Inr (''a'' @ LF # replicate 65537 CHR ''x'' @ LF # ''b'' @ [LF]) = map Inr [''a''] @ [Inl MaxLineLengthExceeded]"
    by (subst frames_line) simp_all
  from framing_error_is_terminal [OF this, of "\<lambda>_ _. True" "[Receive, Send ''r'']"] show ?thesis by simp
qed

end
