(* ===== verification/Project.thy ===== *)
theory Project
  imports Effects Text_Ops
begin

text \<open>
  The project brick (\<open>crates/project\<close>): blueprints and their validation, the generation plan with the
  text of every file (\<open>lib.rs\<close>), and the writer confined to one output directory (\<open>fs.rs\<close>). The
  directory capability is a record of operations over an outside world; the printing of characters
  beyond ASCII by \<open>Debug\<close> is a parameter.
\<close>

section \<open>Blueprints\<close>

datatype project_kind = Library | Binary

fun source_file :: "project_kind \<Rightarrow> string" where
  "source_file Library = ''src/lib.rs''"
| "source_file Binary = ''src/main.rs''"

datatype blueprint_version = BlueprintV1

record project_blueprint =
  pb_version :: blueprint_version
  workspace_name :: string
  package_name :: string
  pb_kind :: project_kind
  pb_license :: string
  pb_description :: "string option"

definition blueprint_v1 :: "string \<Rightarrow> string \<Rightarrow> project_kind \<Rightarrow> string \<Rightarrow> string option \<Rightarrow> project_blueprint" where
  "blueprint_v1 workspace package kind license description =
     \<lparr>pb_version = BlueprintV1, workspace_name = workspace, package_name = package, pb_kind = kind, pb_license = license,
      pb_description = description\<rparr>"

datatype validation_code = EmptyField | InvalidName | EmptyDescription
datatype finding_severity = SeverityError | SeverityWarning

record validation_finding =
  vf_code :: validation_code
  vf_severity :: finding_severity
  vf_field :: string
  vf_message :: string

type_synonym validation_report = "validation_finding list"

definition report_is_valid :: "validation_report \<Rightarrow> bool" where
  "report_is_valid findings \<longleftrightarrow> \<not> (\<exists>finding\<in>set findings. vf_severity finding = SeverityError)"

definition is_cargo_name :: "string \<Rightarrow> bool" where
  "is_cargo_name v = (case v of [] \<Rightarrow> False
     | b # bs \<Rightarrow> is_ascii_alphanumeric b \<and> list_all (\<lambda>c. is_ascii_alphanumeric c \<or> c = CHR ''-'' \<or> c = CHR ''_'') bs)"

definition empty_field :: "string \<Rightarrow> validation_finding" where
  "empty_field field = \<lparr>vf_code = EmptyField, vf_severity = SeverityError, vf_field = field, vf_message = field @ '' must not be empty''\<rparr>"

definition validate_name :: "string \<Rightarrow> string \<Rightarrow> validation_report \<Rightarrow> validation_report" where
  "validate_name field v findings =
     (if trim v = [] then findings @ [empty_field field]
      else if \<not> is_cargo_name v
      then findings @ [\<lparr>vf_code = InvalidName, vf_severity = SeverityError, vf_field = field,
        vf_message = field @ '' must use ASCII letters, digits, '-' or '_', and start with a letter or digit''\<rparr>]
      else findings)"

definition validate_required :: "string \<Rightarrow> string \<Rightarrow> validation_report \<Rightarrow> validation_report" where
  "validate_required field v findings = (if trim v = [] then findings @ [empty_field field] else findings)"

definition project_validate :: "project_blueprint \<Rightarrow> validation_report" where
  "project_validate b =
     (let findings = validate_name ''workspace_name'' (workspace_name b) [];
          findings = validate_name ''package_name'' (package_name b) findings;
          findings = validate_required ''license'' (pb_license b) findings in
      case pb_description b of
        Some d \<Rightarrow> if trim d = [] then findings @ [\<lparr>vf_code = EmptyDescription, vf_severity = SeverityWarning, vf_field = ''description'',
            vf_message = ''description is blank and will be omitted''\<rparr>] else findings
      | None \<Rightarrow> findings)"

section \<open>The plan\<close>

abbreviation QUOTE :: char where "QUOTE \<equiv> CHR 0x22"
abbreviation BACKSLASH :: char where "BACKSLASH \<equiv> CHR 0x5C"

definition quoted :: "string \<Rightarrow> string" where "quoted s = QUOTE # s @ [QUOTE]"

text \<open>\<open>format!("{s:?}")\<close> of a string: the escapes of \<open>char::escape_debug\<close>.\<close>

definition hex_digit :: "nat \<Rightarrow> char" where
  "hex_digit n = (if n < 10 then char_of (48 + n) else char_of (87 + n))"

definition lower_hex :: "nat \<Rightarrow> string" where
  "lower_hex n = (if n < 16 then [hex_digit n] else [hex_digit (n div 16), hex_digit (n mod 16)])"

definition escape_ascii :: "char \<Rightarrow> string" where
  "escape_ascii c =
     (if c = CHR 0x00 then [BACKSLASH, CHR ''0''] else if c = CHR 0x09 then [BACKSLASH, CHR ''t'']
      else if c = CHR 0x0D then [BACKSLASH, CHR ''r''] else if c = CHR 0x0A then [BACKSLASH, CHR ''n'']
      else if c = BACKSLASH \<or> c = QUOTE then [BACKSLASH, c]
      else if byte_in 0x20 0x7E c then [c]
      else BACKSLASH # ''u{'' @ lower_hex (of_char c) @ ''}'')"

definition escape_debug :: "(string \<Rightarrow> string) \<Rightarrow> string \<Rightarrow> string" where
  "escape_debug wide ch = (case ch of [c] \<Rightarrow> if byte_in 0 0x7F c then escape_ascii c else wide ch | _ \<Rightarrow> wide ch)"

definition debug_str :: "(string \<Rightarrow> string) \<Rightarrow> string \<Rightarrow> string" where
  "debug_str wide s = quoted (concat (map (escape_debug wide) (utf8_chars s)))"

record generated_file =
  relative_path :: string
  contents :: string

record quality_command =
  qc_program :: string
  qc_arguments :: "string list"

record generation_plan =
  plan_files :: "generated_file list"
  quality_commands :: "quality_command list"

definition generated_file_new :: "string \<Rightarrow> string \<Rightarrow> generated_file" where
  "generated_file_new path text = \<lparr>relative_path = path, contents = text\<rparr>"

definition lines_text :: "string list \<Rightarrow> string" where
  "lines_text ls = concat (map (\<lambda>l. l @ [CHR 0x0A]) ls)"

definition package_path :: "project_blueprint \<Rightarrow> string" where
  "package_path b = ''crates/'' @ package_name b"

definition description_line :: "(string \<Rightarrow> string) \<Rightarrow> project_blueprint \<Rightarrow> string" where
  "description_line wide b = (case pb_description b of None \<Rightarrow> []
     | Some d \<Rightarrow> if trim d = [] then [] else lines_text [''description = '' @ debug_str wide d])"

definition root_manifest :: "(string \<Rightarrow> string) \<Rightarrow> project_blueprint \<Rightarrow> string" where
  "root_manifest wide b =
     lines_text [''[workspace]'', ''members = ['' @ quoted (package_path b) @ '']'', ''resolver = '' @ quoted ''3'', [],
       ''[workspace.package]'', ''version = '' @ quoted ''0.1.0'', ''edition = '' @ quoted ''2024'',
       ''license = '' @ debug_str wide (pb_license b), ''rust-version = '' @ quoted ''1.88'']
     @ description_line wide b
     @ lines_text [[], ''[workspace.lints.rust]'', ''unsafe_code = '' @ quoted ''forbid'',
       ''rust_2018_idioms = { level = '' @ quoted ''deny'' @ '', priority = -1 }'', [],
       ''[workspace.lints.clippy]'', ''all = { level = '' @ quoted ''warn'' @ '', priority = -1 }'',
       ''pedantic = { level = '' @ quoted ''warn'' @ '', priority = -1 }'']"

definition crate_manifest :: "(string \<Rightarrow> string) \<Rightarrow> project_blueprint \<Rightarrow> string" where
  "crate_manifest wide b =
     lines_text [''[package]'', ''name = '' @ debug_str wide (package_name b), ''version.workspace = true'', ''edition.workspace = true'',
       ''license.workspace = true'', ''rust-version.workspace = true'', [], ''[lints]'', ''workspace = true'']"

fun source_text :: "project_kind \<Rightarrow> string" where
  "source_text Library = lines_text [''//! Generated by Rust Factory.'']"
| "source_text Binary = lines_text [''fn main() {'', ''    println!('' @ quoted ''Hello from Rust Factory.'' @ '');'', ''}'']"

definition readme :: "project_blueprint \<Rightarrow> string" where
  "readme b = lines_text [''# '' @ workspace_name b, [], ''Generated by Rust Factory.'']"

definition makefile :: string where
  "makefile = lines_text [''.PHONY: fmt fmt-check lint test check'', [], ''fmt:'', CHR 0x09 # ''cargo fmt --all'', [],
     ''fmt-check:'', CHR 0x09 # ''cargo fmt --all -- --check'', [], ''lint:'',
     CHR 0x09 # ''cargo clippy --workspace --all-targets -- -D warnings'', [], ''test:'', CHR 0x09 # ''cargo test --workspace'', [],
     ''check: fmt-check lint test'']"

definition build_plan :: "(string \<Rightarrow> string) \<Rightarrow> project_blueprint \<Rightarrow> generation_plan" where
  "build_plan wide b =
     \<lparr>plan_files =
        [generated_file_new ''.gitignore'' (lines_text [''/target'']),
         generated_file_new ''Cargo.toml'' (root_manifest wide b),
         generated_file_new ''Makefile'' makefile,
         generated_file_new ''README.md'' (readme b),
         generated_file_new (package_path b @ ''/Cargo.toml'') (crate_manifest wide b),
         generated_file_new (package_path b @ ''/'' @ source_file (pb_kind b)) (source_text (pb_kind b))],
      quality_commands = [\<lparr>qc_program = ''make'', qc_arguments = [''check'']\<rparr>]\<rparr>"

datatype authoring_error = InvalidBlueprint validation_report

definition project_plan :: "(string \<Rightarrow> string) \<Rightarrow> project_blueprint \<Rightarrow> (generation_plan, authoring_error) result" where
  "project_plan wide b =
     (let report = project_validate b in
      if \<not> report_is_valid report then Inl (InvalidBlueprint report) else Inr (build_plan wide b))"

definition authoring_error_display :: "(nat \<Rightarrow> string) \<Rightarrow> authoring_error \<Rightarrow> string" where
  "authoring_error_display decimal e =
     (case e of InvalidBlueprint report \<Rightarrow> ''project blueprint has '' @ decimal (length report) @ '' validation finding(s)'')"

section \<open>Targets and the writer\<close>

datatype target_error = InvalidTarget string

definition project_target_new :: "string \<Rightarrow> (string, target_error) result" where
  "project_target_new v =
     (if v = [] \<or> is_absolute v \<or> length (path_components v) \<noteq> 1
         \<or> \<not> (case path_components v of Normal _ # _ \<Rightarrow> True | _ \<Rightarrow> False)
      then Inl (InvalidTarget v) else Inr v)"

text \<open>\<open>Path::join\<close> and \<open>Path::parent\<close> on a Unix path.\<close>

definition path_join :: "string \<Rightarrow> string \<Rightarrow> string" where
  "path_join base path =
     (if is_absolute path then path else if base = [] \<or> last base = CHR ''/'' then base @ path else base @ ''/'' @ path)"

definition idle_part :: "string \<Rightarrow> bool" where "idle_part p \<longleftrightarrow> p = [] \<or> p = ''.''"

definition drop_idle :: "string list \<Rightarrow> string list" where
  "drop_idle ps = List.rev (dropWhile idle_part (List.rev ps))"

definition path_parent :: "string \<Rightarrow> string option" where
  "path_parent s = (case split_on CHR ''/'' s of [] \<Rightarrow> None
     | p # ps \<Rightarrow> (let ps = drop_idle ps in
         if ps = [] then (if p = [] then None else Some [])
         else let rest = p # drop_idle (butlast ps) in Some (if rest = [[]] then ''/'' else join ''/'' rest)))"

datatype io_error = AlreadyExists | OtherIo string

record 'w dir =
  dir_create :: "string \<Rightarrow> (unit, io_error, 'w) st"
  dir_create_all :: "string \<Rightarrow> (unit, io_error, 'w) st"
  dir_write :: "string \<Rightarrow> string \<Rightarrow> (unit, io_error, 'w) st"
  dir_remove_all :: "string \<Rightarrow> (unit, io_error, 'w) st"

datatype fs_writer_error =
    CreateRoot io_error | OpenRoot io_error | DestinationExists string | CreateTarget io_error | UnsafePlanPath string
  | CreateParent io_error | WriteFile io_error

definition map_target_creation_error :: "string \<Rightarrow> io_error \<Rightarrow> fs_writer_error" where
  "map_target_creation_error target e = (if e = AlreadyExists then DestinationExists target else CreateTarget e)"

definition validate_relative_path :: "string \<Rightarrow> (unit, fs_writer_error) result" where
  "validate_relative_path path =
     (if path = [] \<or> is_absolute path \<or> list_ex (\<lambda>c. c = ParentDir \<or> c = RootDir) (path_components path)
      then Inl (UnsafePlanPath path) else Inr ())"

fun write_plan :: "'w dir \<Rightarrow> string \<Rightarrow> generated_file list \<Rightarrow> string list \<Rightarrow> (string list, fs_writer_error, 'w) st" where
  "write_plan root target [] written = st_of (Inr written)"
| "write_plan root target (file # files) written =
     st_then (st_of (validate_relative_path (relative_path file))) (\<lambda>_.
       let destination = path_join target (relative_path file) in
       st_then (st_of (case path_parent destination of None \<Rightarrow> Inl (UnsafePlanPath (relative_path file)) | Some p \<Rightarrow> Inr p)) (\<lambda>parent.
       st_then (st_map_err CreateParent (dir_create_all root parent)) (\<lambda>_.
       st_then (st_map_err WriteFile (dir_write root destination (contents file))) (\<lambda>_.
         write_plan root target files (written @ [relative_path file])))))"

record materialized_project =
  mp_target :: string
  written_files :: "string list"

definition confined_write :: "'w dir \<Rightarrow> generation_plan \<Rightarrow> string \<Rightarrow> (materialized_project, fs_writer_error, 'w) st" where
  "confined_write root plan target =
     st_then (st_map_err (map_target_creation_error target) (dir_create root target)) (\<lambda>_.
       st_match (write_plan root target (plan_files plan) []) (\<lambda>result.
         case result of
           Inl e \<Rightarrow> st_match (dir_remove_all root target) (\<lambda>_. st_of (Inl e))
         | Inr written \<Rightarrow> st_of (Inr \<lparr>mp_target = target, written_files = written\<rparr>)))"

text \<open>\<open>RootConfinedWriter::new\<close>: the host creates and opens the root.\<close>

definition confined_writer_new ::
  "(string \<Rightarrow> (unit, io_error, 'w) st) \<Rightarrow> (string \<Rightarrow> ('w dir, io_error, 'w) st) \<Rightarrow> string \<Rightarrow> ('w dir, fs_writer_error, 'w) st" where
  "confined_writer_new create_root open_root root =
     st_then (st_map_err CreateRoot (create_root root)) (\<lambda>_. st_map_err OpenRoot (open_root root))"

fun fs_writer_error_display :: "(io_error \<Rightarrow> string) \<Rightarrow> fs_writer_error \<Rightarrow> string" where
  "fs_writer_error_display io (CreateRoot e) = ''could not create output root: '' @ io e"
| "fs_writer_error_display io (OpenRoot e) = ''could not open output root: '' @ io e"
| "fs_writer_error_display io (DestinationExists target) = ''project destination already exists: '' @ target"
| "fs_writer_error_display io (CreateTarget e) = ''could not reserve project destination: '' @ io e"
| "fs_writer_error_display io (UnsafePlanPath path) = ''generation plan contains unsafe path: '' @ path"
| "fs_writer_error_display io (CreateParent e) = ''could not create generated-file parent: '' @ io e"
| "fs_writer_error_display io (WriteFile e) = ''could not write generated file: '' @ io e"

end
