(* ===== verification/Project_Properties.thy ===== *)
theory Project_Properties
  imports Project "HOL-Library.Sublist"
begin

text \<open>
  What a generated project can touch and what its manifest says: the components of joined and parent
  paths, the calls the writer makes of its directory, and the strings of the manifest read back as TOML.
\<close>

section \<open>Paths\<close>

lemma path_parts_append: "path_parts first (ps @ qs) = path_parts first ps @ path_parts (first \<and> ps = []) qs"
  by (induction first ps rule: path_parts.induct) auto

lemma path_parts_names: "path_parts True ps = map Normal names \<Longrightarrow> path_parts False ps = map Normal names"
  by (cases ps) (auto split: if_splits)

lemma split_on_slash: "split_on d (s @ d # t) = split_on d s @ split_on d t"
  by (induction s) (auto split: list.split)

lemma split_on_parts: "p \<in> set (split_on d s) \<Longrightarrow> d \<notin> set p"
proof (induction s arbitrary: p)
  case (Cons c s)
  obtain q qs where "split_on d s = q # qs" by (metis split_on_nonempty neq_Nil_conv)
  with Cons show ?case by (auto split: if_splits)
qed simp

lemma is_absolute_parts: "is_absolute s \<longleftrightarrow> s \<noteq> [] \<and> hd (split_on CHR ''/'' s) = []"
  by (cases s) (auto simp: is_absolute_def split: list.split)

lemma components_relative: "\<not> is_absolute s \<Longrightarrow> path_components s = path_parts True (split_on CHR ''/'' s)"
  by (simp add: path_components_def)

lemma path_parts_drop_idle: "path_parts False (drop_idle ps) = path_parts False ps"
  by (induction ps rule: rev_induct) (auto simp: drop_idle_def idle_part_def path_parts_append)

lemma drop_idle_last: "drop_idle ps \<noteq> [] \<Longrightarrow> \<not> idle_part (last (drop_idle ps))"
  using hd_dropWhile [of idle_part "List.rev ps"] by (simp add: drop_idle_def last_rev)

lemma set_drop_idle: "set (drop_idle ps) \<subseteq> set ps"
  using set_dropWhileD by (fastforce simp: drop_idle_def)

text \<open>The components of a path joined to a target, and of a parent.\<close>

lemma target_accepted: "project_target_new v = Inr t \<longleftrightarrow> t = v \<and> v \<noteq> [] \<and> \<not> is_absolute v \<and> (\<exists>name. path_components v = [Normal name])"
proof -
  have "length cs = 1 \<and> (case cs of Normal n # _ \<Rightarrow> True | _ \<Rightarrow> False) \<longleftrightarrow> (\<exists>name. cs = [Normal name])" for cs
    by (auto simp: length_Suc_conv split: list.splits component.splits)
  then show ?thesis by (auto simp: project_target_new_def)
qed

lemma components_join:
  assumes "target \<noteq> []" "\<not> is_absolute target" "\<not> is_absolute path" "path_components path = map Normal names"
  shows "path_components (path_join target path) = path_components target @ map Normal names"
    and "\<not> is_absolute (path_join target path)"
proof -
  from assms(3,4) have path: "path_parts False (split_on CHR ''/'' path) = map Normal names"
    by (intro path_parts_names) (simp add: components_relative)
  obtain c cs where target: "target = c # cs" "c \<noteq> CHR ''/''"
    using assms(1,2) by (cases target) (auto simp: is_absolute_def)
  then show rel: "\<not> is_absolute (path_join target path)"
    using assms(3) by (auto simp: path_join_def is_absolute_def)
  show "path_components (path_join target path) = path_components target @ map Normal names"
  proof (cases "last target = CHR ''/''")
    case True
    then obtain front where front: "target = front @ [CHR ''/'']" using assms(1) by (metis append_butlast_last_id)
    then have "split_on CHR ''/'' target = split_on CHR ''/'' front @ [[]]" by (simp add: split_on_slash)
    with True rel front path assms(2,3) show ?thesis
      by (simp add: components_relative path_join_def split_on_slash path_parts_append)
  next
    case False
    with rel path assms show ?thesis
      by (simp add: components_relative path_join_def split_on_slash path_parts_append)
  qed
qed

lemma components_parent:
  assumes "\<not> is_absolute s" "path_components s = cs @ [c]" "cs \<noteq> []"
  obtains p where "path_parent s = Some p" "path_components p = cs"
proof -
  obtain p ps where s: "split_on CHR ''/'' s = p # ps" by (metis split_on_nonempty neq_Nil_conv)
  from assms(1,2) s have parts: "path_parts True [p] @ path_parts False ps = cs @ [c]"
    using path_parts_append [of True "[p]" ps] by (simp add: components_relative)
  have p: "p \<noteq> []" using assms(1,2) s by (auto simp: is_absolute_parts path_components_def)
  have "path_parts False ps \<noteq> []"
  proof
    assume "path_parts False ps = []"
    with parts have "length (cs @ [c]) \<le> 1" by (auto simp flip: parts)
    with assms(3) show False by simp
  qed
  then have kept: "drop_idle ps \<noteq> []" using path_parts_drop_idle [of ps] by auto
  let ?rest = "p # drop_idle (butlast (drop_idle ps))"
  from kept have "path_parts False (drop_idle ps) = path_parts False (butlast (drop_idle ps)) @ path_parts False [last (drop_idle ps)]"
    using path_parts_append [of False "butlast (drop_idle ps)" "[last (drop_idle ps)]"] by (simp del: path_parts.simps)
  moreover from drop_idle_last [OF kept] have "length (path_parts False [last (drop_idle ps)]) = 1" by (simp add: idle_part_def)
  ultimately have "path_parts True ?rest = cs"
    using parts by (auto simp: path_parts_drop_idle path_parts_append length_Suc_conv)
  moreover have parents: "split_on CHR ''/'' (join ''/'' ?rest) = ?rest"
  proof (rule split_on_join)
    have "set (drop_idle (butlast (drop_idle ps))) \<subseteq> set ps" using set_drop_idle in_set_butlastD by fastforce
    then show "\<forall>q\<in>set ?rest. CHR ''/'' \<notin> set q" using split_on_parts [of _ "CHR ''/''" s] s by auto
  qed simp
  moreover have "\<not> is_absolute (join ''/'' ?rest)" using parents p by (simp add: is_absolute_parts)
  ultimately have "path_components (join ''/'' ?rest) = cs" by (simp add: components_relative)
  moreover have "path_parent s = Some (join ''/'' ?rest)" using s kept p by (simp add: path_parent_def Let_def)
  ultimately show thesis using that by blast
qed

section \<open>The calls of the writer\<close>

lemma st_then_ok: "st_then (st_of (Inr a)) f = f a"
  by (simp add: st_then_def st_of_def fun_eq_iff)

datatype dir_call = CallCreate string | CallCreateAll string | CallWrite string string | CallRemoveAll string

fun call_path :: "dir_call \<Rightarrow> string" where
  "call_path (CallCreate p) = p"
| "call_path (CallCreateAll p) = p"
| "call_path (CallWrite p text) = p"
| "call_path (CallRemoveAll p) = p"

definition logged_call :: "dir_call \<Rightarrow> (unit, io_error, 'w) st \<Rightarrow> (unit, io_error, 'w \<times> dir_call list) st" where
  "logged_call call m = (\<lambda>(w, log). case m w of (r, w') \<Rightarrow> (r, (w', log @ [call])))"

definition logged_dir :: "'w dir \<Rightarrow> ('w \<times> dir_call list) dir" where
  "logged_dir root =
     \<lparr>dir_create = (\<lambda>p. logged_call (CallCreate p) (dir_create root p)),
      dir_create_all = (\<lambda>p. logged_call (CallCreateAll p) (dir_create_all root p)),
      dir_write = (\<lambda>p text. logged_call (CallWrite p text) (dir_write root p text)),
      dir_remove_all = (\<lambda>p. logged_call (CallRemoveAll p) (dir_remove_all root p))\<rparr>"

lemma traces_logged: "traces (logged_call call m) (\<lambda>r t. t = [call])"
  by (simp add: traces_def logged_call_def split: prod.split)

text \<open>A path is below a target when its components are the target's and then names only.\<close>

definition below :: "string \<Rightarrow> string \<Rightarrow> bool" where
  "below target p \<longleftrightarrow> (\<exists>name names. path_components target = [Normal name] \<and> path_components p = Normal name # map Normal names)"

definition file_calls :: "string \<Rightarrow> generated_file \<Rightarrow> dir_call list" where
  "file_calls target f = [CallCreateAll (case path_parent (path_join target (relative_path f)) of Some p \<Rightarrow> p | None \<Rightarrow> []),
     CallWrite (path_join target (relative_path f)) (contents f)]"

definition named_path :: "string \<Rightarrow> bool" where
  "named_path path \<longleftrightarrow> \<not> is_absolute path \<and> (\<exists>names. names \<noteq> [] \<and> path_components path = map Normal names)"

lemma named_path_valid: "named_path path \<Longrightarrow> validate_relative_path path = Inr ()"
  by (auto simp: named_path_def validate_relative_path_def list_ex_iff path_components_def)

lemma named_destination:
  assumes "project_target_new v = Inr target" "named_path path"
  shows "below target (path_join target path)"
    and "\<exists>p. path_parent (path_join target path) = Some p \<and> below target p"
proof -
  from assms obtain name names where target: "target \<noteq> []" "\<not> is_absolute target" "path_components target = [Normal name]"
    and path: "\<not> is_absolute path" "names \<noteq> []" "path_components path = map Normal names"
    by (auto simp: target_accepted named_path_def)
  then obtain front final where names: "names = front @ [final]" by (cases names rule: rev_cases) auto
  note components = components_join [OF target(1,2) path(1,3)]
  from components(1) target(3) show "below target (path_join target path)" by (auto simp: below_def)
  have "path_components (path_join target path) = (Normal name # map Normal front) @ [Normal final]"
    using components(1) target(3) names by simp
  from components_parent [OF components(2) this]
  obtain p where "path_parent (path_join target path) = Some p" "path_components p = Normal name # map Normal front" by auto
  with target(3) show "\<exists>p. path_parent (path_join target path) = Some p \<and> below target p" by (auto simp: below_def)
qed

lemma file_calls_below:
  "project_target_new v = Inr target \<Longrightarrow> named_path (relative_path f) \<Longrightarrow> call \<in> set (file_calls target f) \<Longrightarrow> below target (call_path call)"
  using named_destination [of v target "relative_path f"] by (auto simp: file_calls_def)

definition unsafe :: "fs_writer_error \<Rightarrow> bool" where
  "unsafe e \<longleftrightarrow> (\<exists>path. e = UnsafePlanPath path)"

definition plan_written :: "string \<Rightarrow> generated_file list \<Rightarrow> string list \<Rightarrow> (string list, fs_writer_error) result \<Rightarrow> dir_call list \<Rightarrow> bool" where
  "plan_written target files written r t = (case r of
     Inr all_written \<Rightarrow> all_written = written @ map relative_path files \<and> t = concat (map (file_calls target) files)
   | Inl e \<Rightarrow> \<not> unsafe e \<and> prefix t (concat (map (file_calls target) files)))"

lemma traces_write_plan:
  assumes "project_target_new v = Inr target"
  shows "\<forall>f\<in>set files. named_path (relative_path f) \<Longrightarrow> traces (write_plan (logged_dir root) target files written) (plan_written target files written)"
proof (induction files arbitrary: written)
  case Nil
  show ?case by (auto simp: plan_written_def intro: traces_of)
next
  case (Cons f files)
  from Cons.prems have named: "named_path (relative_path f)" by simp
  from named_destination(2) [OF assms this] obtain p where p: "path_parent (path_join target (relative_path f)) = Some p" by blast
  have calls: "file_calls target f = [CallCreateAll p, CallWrite (path_join target (relative_path f)) (contents f)]" by (simp add: file_calls_def p)
  from Cons have rest: "traces (write_plan (logged_dir root) target files (written @ [relative_path f])) (plan_written target files (written @ [relative_path f]))"
    by simp
  have create: "traces (st_map_err CreateParent (dir_create_all (logged_dir root) p)) (\<lambda>r t. t = [CallCreateAll p] \<and> (\<forall>e. r = Inl e \<longrightarrow> \<not> unsafe e))"
    by (rule traces_map_err [where P = "\<lambda>r t. t = [CallCreateAll p]"]) (auto simp: logged_dir_def traces_logged unsafe_def result_simps)
  have written: "traces (st_map_err WriteFile (dir_write (logged_dir root) q body)) (\<lambda>r t. t = [CallWrite q body] \<and> (\<forall>e. r = Inl e \<longrightarrow> \<not> unsafe e))" for q body
    by (rule traces_map_err [where P = "\<lambda>r t. t = [CallWrite q body]"]) (auto simp: logged_dir_def traces_logged unsafe_def result_simps)
  let ?q = "path_join target (relative_path f)"
  have "traces (st_then (st_map_err CreateParent (dir_create_all (logged_dir root) p)) (\<lambda>_.
      st_then (st_map_err WriteFile (dir_write (logged_dir root) ?q (contents f))) (\<lambda>_.
        write_plan (logged_dir root) target files (written @ [relative_path f])))) (plan_written target (f # files) written)"
  proof (rule traces_then [OF create], goal_cases)
    case (2 u t)
    then have t: "t = [CallCreateAll p]" by simp
    show ?case
    proof (rule traces_then [OF written], goal_cases)
      case (2 u s)
      then show ?case by (intro traces_mono [OF rest]) (auto simp: t plan_written_def calls split: sum.splits)
    qed (simp add: t plan_written_def calls)
  qed (simp add: plan_written_def calls)
  then show ?case by (simp add: st_then_ok named_path_valid [OF named] p)
qed

lemma planned_files_named:
  assumes "project_plan wide b = Inr plan" "f \<in> set (plan_files plan)"
  shows "named_path (relative_path f)"
proof -
  have name: "is_cargo_name (package_name b)"
    using assms(1) by (auto simp: project_plan_def project_validate_def validate_name_def validate_required_def report_is_valid_def
        empty_field_def Let_def split: if_splits option.splits)
  then have plain: "CHR ''/'' \<notin> set (package_name b)" "package_name b \<noteq> []" "hd (package_name b) \<noteq> CHR ''.''"
    by (auto simp: is_cargo_name_def list_all_iff ascii_defs less_eq_char_def split: list.splits)
  then have parts: "split_on CHR ''/'' (package_name b @ CHR ''/'' # tail) = package_name b # split_on CHR ''/'' tail"
    "package_name b \<noteq> ''.''" "package_name b \<noteq> ''..''" for tail by (auto simp: split_on_append)
  have "named_path ''.gitignore''" "named_path ''Cargo.toml''" "named_path ''Makefile''" "named_path ''README.md''"
    by (simp_all add: named_path_def is_absolute_def path_components_def Cons_eq_map_conv)
  moreover have "named_path (package_path b @ ''/Cargo.toml'')" "named_path (package_path b @ ''/'' @ source_file k)" for k
    using parts plain by (cases k; simp add: named_path_def is_absolute_def path_components_def package_path_def Cons_eq_map_conv)+
  ultimately show ?thesis using assms by (auto simp: project_plan_def build_plan_def generated_file_new_def Let_def split: if_splits)
qed

lemma traces_confined_write:
  assumes "project_target_new v = Inr target" "\<forall>f\<in>set (plan_files plan). named_path (relative_path f)"
  shows "traces (confined_write (logged_dir root) plan target) (\<lambda>r t.
    let work = concat (map (file_calls target) (plan_files plan)) in
    case r of Inr project \<Rightarrow> t = CallCreate target # work \<and> written_files project = map relative_path (plan_files plan)
    | Inl e \<Rightarrow> \<not> unsafe e \<and> (t = [CallCreate target] \<or> (\<exists>part. prefix part work \<and> t = CallCreate target # part @ [CallRemoveAll target])))"
proof -
  have reserve: "traces (st_map_err (map_target_creation_error target) (dir_create (logged_dir root) target))
      (\<lambda>r t. t = [CallCreate target] \<and> (\<forall>e. r = Inl e \<longrightarrow> \<not> unsafe e))"
    by (rule traces_map_err [where P = "\<lambda>r t. t = [CallCreate target]"])
      (auto simp: logged_dir_def traces_logged unsafe_def map_target_creation_error_def result_simps split: if_splits)
  have clean: "traces (dir_remove_all (logged_dir root) target) (\<lambda>r t. t = [CallRemoveAll target])"
    by (simp add: logged_dir_def traces_logged)
  show ?thesis
    unfolding confined_write_def
    apply (rule traces_then [OF reserve], simp)
    apply (rule traces_match [OF traces_write_plan [OF assms]])
    subgoal for a t r s
      by (cases r) (auto simp: plan_written_def intro!: traces_of traces_match [OF clean])
    done
qed

section \<open>Manifest strings\<close>

text \<open>
  Basic strings of TOML, read back: the short escapes, \<open>u\<close> and \<open>U\<close> with four and eight hexadecimal
  digits, and no control character that is not escaped.
\<close>

definition toml_escape :: "char \<Rightarrow> char option" where
  "toml_escape c = map_of [(CHR ''b'', CHR 0x08), (CHR ''t'', CHR 0x09), (CHR ''n'', CHR 0x0A), (CHR ''f'', CHR 0x0C),
     (CHR ''r'', CHR 0x0D), (QUOTE, QUOTE), (BACKSLASH, BACKSLASH)] c"

definition hex_value :: "char \<Rightarrow> nat option" where
  "hex_value c = (if byte_in 48 57 c then Some (of_char c - 48) else if byte_in 97 102 c then Some (of_char c - 87)
     else if byte_in 65 70 c then Some (of_char c - 55) else None)"

fun hex_number :: "nat \<Rightarrow> nat \<Rightarrow> string \<Rightarrow> nat option" where
  "hex_number 0 acc cs = Some acc"
| "hex_number (Suc n) acc [] = None"
| "hex_number (Suc n) acc (c # cs) = Option.bind (hex_value c) (\<lambda>d. hex_number n (16 * acc + d) cs)"

definition utf8_scalar :: "nat \<Rightarrow> string option" where
  "utf8_scalar n =
     (if n < 0x80 then Some [char_of n]
      else if n < 0x800 then Some [char_of (0xC0 + n div 64), char_of (0x80 + n mod 64)]
      else if 0xD800 \<le> n \<and> n \<le> 0xDFFF \<or> n > 0x10FFFF then None
      else if n < 0x10000 then Some [char_of (0xE0 + n div 4096), char_of (0x80 + n div 64 mod 64), char_of (0x80 + n mod 64)]
      else Some [char_of (0xF0 + n div 262144), char_of (0x80 + n div 4096 mod 64), char_of (0x80 + n div 64 mod 64), char_of (0x80 + n mod 64)])"

fun toml_body :: "string \<Rightarrow> string option" where
  "toml_body [] = None"
| "toml_body (c # cs) =
     (if c = QUOTE then (if cs = [] then Some [] else None)
      else if c = BACKSLASH then (case cs of [] \<Rightarrow> None
        | e # es \<Rightarrow>
            if e = CHR ''u'' \<or> e = CHR ''U'' then
              (let n = (if e = CHR ''u'' then 4 else 8) in
               Option.bind (Option.bind (hex_number n 0 es) utf8_scalar) (\<lambda>s. map_option ((@) s) (toml_body (drop n es))))
            else Option.bind (toml_escape e) (\<lambda>x. map_option ((#) x) (toml_body es)))
      else if byte_in 0x20 0x7E c \<or> c = CHR 0x09 \<or> byte_in 0x80 0xFF c then map_option ((#) c) (toml_body cs)
      else None)"

definition toml_string :: "string \<Rightarrow> string option" where
  "toml_string s = (case s of [] \<Rightarrow> None | c # cs \<Rightarrow> if c = QUOTE then toml_body cs else None)"

definition toml_plain :: "char \<Rightarrow> bool" where
  "toml_plain c \<longleftrightarrow> byte_in 0x20 0x7E c \<or> c = CHR 0x09 \<or> c = CHR 0x0A \<or> c = CHR 0x0D"

lemma hex_number_brace: "0 < n \<Longrightarrow> hex_number n acc (CHR 0x7B # cs) = None"
  by (cases n) (simp_all add: hex_value_def byte_in_def)

lemma toml_escaped:
  assumes "byte_in 0 0x7F c"
  shows "toml_body (escape_ascii c @ rest) = (if toml_plain c then map_option ((#) c) (toml_body rest) else None)"
proof -
  consider "c = CHR 0x00" | "c = CHR 0x09" | "c = CHR 0x0A" | "c = CHR 0x0D" | "c = BACKSLASH" | "c = QUOTE"
    | (printed) "byte_in 0x20 0x7E c" "c \<noteq> BACKSLASH" "c \<noteq> QUOTE"
    | (other) "\<not> byte_in 0x20 0x7E c" "c \<notin> {CHR 0x00, CHR 0x09, CHR 0x0A, CHR 0x0D}" by blast
  then show ?thesis
  proof cases
    case printed
    have "\<not> byte_in 0x20 0x7E (CHR 0x00)" "\<not> byte_in 0x20 0x7E (CHR 0x09)" "\<not> byte_in 0x20 0x7E (CHR 0x0A)" "\<not> byte_in 0x20 0x7E (CHR 0x0D)"
      by (simp_all add: byte_in_def)
    with printed(1) have "c \<noteq> CHR 0x00" "c \<noteq> CHR 0x09" "c \<noteq> CHR 0x0A" "c \<noteq> CHR 0x0D" by blast+
    with printed have "escape_ascii c = [c]" by (simp add: escape_ascii_def)
    with printed show ?thesis by (simp add: toml_plain_def)
  next
    case other
    have "byte_in 0x20 0x7E BACKSLASH" "byte_in 0x20 0x7E QUOTE" by (simp_all add: byte_in_def)
    with other(1) have "c \<noteq> BACKSLASH" "c \<noteq> QUOTE" by blast+
    with other have "escape_ascii c = BACKSLASH # CHR ''u'' # CHR 0x7B # lower_hex (of_char c) @ ''}''" by (simp add: escape_ascii_def)
    with other show ?thesis by (simp add: toml_plain_def hex_number_brace)
  qed (simp_all add: escape_ascii_def toml_plain_def toml_escape_def byte_in_def)
qed

lemma toml_debug:
  assumes "\<forall>c\<in>set s. byte_in 0 0x7F c"
  shows "toml_string (debug_str wide s) = (if list_all toml_plain s then Some s else None)"
proof -
  have "\<forall>c\<in>set s. \<not> continuation_byte c" using assms by (auto simp: byte_in_def continuation_byte_def less_eq_char_def)
  then have "concat (map (escape_debug wide) (utf8_chars s)) = concat (map escape_ascii s)"
    using assms by (simp add: utf8_chars_ascii escape_debug_def comp_def cong: map_cong)
  moreover have "toml_body (concat (map escape_ascii s) @ [QUOTE]) = (if list_all toml_plain s then Some s else None)"
    using assms by (induction s) (auto simp: toml_escaped)
  ultimately show ?thesis by (simp add: toml_string_def debug_str_def quoted_def)
qed

section \<open>Properties\<close>

lemma below_self: "project_target_new v = Inr target \<Longrightarrow> below target target"
  by (auto simp: target_accepted below_def)

lemma prefix_below:
  assumes "project_target_new v = Inr target" "\<forall>f\<in>set files. named_path (relative_path f)" "prefix part (concat (map (file_calls target) files))"
  shows "list_all (\<lambda>call. below target (call_path call)) part"
  unfolding list_all_iff
proof
  fix call
  assume "call \<in> set part"
  with set_mono_prefix [OF assms(3)] have "call \<in> set (concat (map (file_calls target) files))" by blast
  with assms(1,2) show "below target (call_path call)" by (auto intro: file_calls_below)
qed

lemma confined_write_log:
  assumes "project_plan wide b = Inr plan" "project_target_new v = Inr target"
    and "confined_write (logged_dir root) plan target (w, []) = (r, (w', log))"
  shows "case r of Inr project \<Rightarrow> log = CallCreate target # concat (map (file_calls target) (plan_files plan))
      \<and> written_files project = map relative_path (plan_files plan)
    | Inl e \<Rightarrow> \<not> unsafe e \<and> (log = [CallCreate target]
      \<or> (\<exists>part. prefix part (concat (map (file_calls target) (plan_files plan))) \<and> log = CallCreate target # part @ [CallRemoveAll target]))"
proof -
  have named: "\<forall>f\<in>set (plan_files plan). named_path (relative_path f)" using planned_files_named [OF assms(1)] by blast
  show ?thesis by (rule tracesD [OF traces_confined_write [OF assms(2) named] assms(3)]) (auto simp: Let_def)
qed

lemma generated_calls_below:
  assumes "project_plan wide b = Inr plan" "project_target_new v = Inr target"
    and "confined_write (logged_dir root) plan target (w, []) = (r, (w', log))"
  shows "list_all (\<lambda>call. below target (call_path call)) log"
proof -
  have named: "\<forall>f\<in>set (plan_files plan). named_path (relative_path f)" using planned_files_named [OF assms(1)] by blast
  note below = prefix_below [OF assms(2) named] below_self [OF assms(2)]
  from confined_write_log [OF assms] show ?thesis by (cases r) (auto simp: below)
qed

text \<open>C31:
  Generating a project touches nothing outside its target. For every accepted blueprint, target and
  directory, each call the writer makes of the directory is for the target or a path of names below
  it; success means that the target was reserved first, every parent created and every planned file
  written, in order; a failure is never an unsafe plan path, and is either the reservation alone or
  ends with the removal of the target.
\<close>

theorem generated_project_confined:
  assumes "project_plan wide b = Inr plan" "project_target_new v = Inr target"
    and "confined_write (logged_dir root) plan target (w, []) = (r, (w', log))"
  shows "list_all (\<lambda>call. below target (call_path call)) log
    \<and> (case r of
        Inr project \<Rightarrow> log = CallCreate target # concat (map (file_calls target) (plan_files plan))
          \<and> written_files project = map relative_path (plan_files plan)
      | Inl e \<Rightarrow> \<not> unsafe e \<and> (log = [CallCreate target] \<or> hd log = CallCreate target \<and> last log = CallRemoveAll target))"
  using confined_write_log [OF assms] generated_calls_below [OF assms] by (cases r) auto

definition demo_blueprint :: "string \<Rightarrow> project_blueprint" where
  "demo_blueprint license = blueprint_v1 ''w'' ''p1'' Library license None"

lemma demo_accepted:
  assumes "license \<noteq> []" "\<forall>c\<in>set license. \<not> blank [c] \<and> \<not> continuation_byte c"
  shows "project_plan wide (demo_blueprint license) = Inr (build_plan wide (demo_blueprint license))"
proof -
  have "trim license = license" using assms by (intro trim_unspaced) auto
  moreover have "trim ''w'' = ''w''" "trim ''p1'' = ''p1''" by (intro trim_unspaced; simp add: continuation_byte_def less_eq_char_def)+
  ultimately show ?thesis using assms(1)
    by (simp add: project_plan_def project_validate_def demo_blueprint_def blueprint_v1_def validate_name_def validate_required_def
        is_cargo_name_def report_is_valid_def ascii_defs less_eq_char_def)
qed

definition full_dir :: "unit dir" where
  "full_dir = \<lparr>dir_create = (\<lambda>p. st_of (Inr ())), dir_create_all = (\<lambda>p. st_of (Inr ())),
     dir_write = (\<lambda>p text. st_of (Inl (OtherIo ''full''))), dir_remove_all = (\<lambda>p. st_of (Inr ()))\<rparr>"

theorem generated_project_confined_witness:
  "\<exists>e log. confined_write (logged_dir full_dir) (build_plan id (demo_blueprint ''MIT'')) ''t'' ((), []) = (Inl e, ((), log))
    \<and> hd log = CallCreate ''t'' \<and> last log = CallRemoveAll ''t'' \<and> length log = 4"
proof -
  have plan: "project_plan id (demo_blueprint ''MIT'') = Inr (build_plan id (demo_blueprint ''MIT''))"
    by (rule demo_accepted) (simp_all add: continuation_byte_def less_eq_char_def)
  have target: "project_target_new ''t'' = Inr ''t''"
    by (simp add: project_target_new_def is_absolute_def path_components_def)
  let ?log = "[CallCreate ''t'', CallCreateAll ''t'', CallWrite ''t/.gitignore'' (lines_text [''/target'']), CallRemoveAll ''t'']"
  have writes: "confined_write (logged_dir full_dir) (build_plan id (demo_blueprint ''MIT'')) ''t'' ((), []) = (Inl (WriteFile (OtherIo ''full'')), ((), ?log))"
    by (simp add: confined_write_def build_plan_def generated_file_new_def logged_dir_def logged_call_def full_dir_def st_then_def st_of_def st_match_def
        st_map_err_def validate_relative_path_def is_absolute_def path_components_def path_join_def path_parent_def drop_idle_def idle_part_def Let_def)
  from generated_project_confined [OF plan target writes] writes show ?thesis by auto
qed

text \<open>C39:
  The strings of a generated manifest, read back by the rules TOML gives for a basic string. For every
  accepted blueprint whose licence is ASCII, the root manifest has the licence as \<open>Debug\<close> prints it, and reading that as a TOML string
  gives the licence back exactly when it has no control character beside tab, line feed and carriage
  return; with any other control character the manifest is not TOML, although validation accepts
  the blueprint.
\<close>

theorem manifest_license_round_trip:
  assumes "project_plan wide b = Inr plan" "\<forall>c\<in>set (pb_license b). byte_in 0 0x7F c"
  shows "\<exists>before after. generated_file_new ''Cargo.toml'' (before @ ''license = '' @ debug_str wide (pb_license b) @ CHR 0x0A # after) \<in> set (plan_files plan)
    \<and> toml_string (debug_str wide (pb_license b)) = (if list_all toml_plain (pb_license b) then Some (pb_license b) else None)"
proof -
  obtain before after where "root_manifest wide b = before @ ''license = '' @ debug_str wide (pb_license b) @ CHR 0x0A # after"
  proof
    show "root_manifest wide b = lines_text [''[workspace]'', ''members = ['' @ quoted (package_path b) @ '']'', ''resolver = '' @ quoted ''3'', [],
       ''[workspace.package]'', ''version = '' @ quoted ''0.1.0'', ''edition = '' @ quoted ''2024'']
       @ ''license = '' @ debug_str wide (pb_license b) @ CHR 0x0A # (lines_text [''rust-version = '' @ quoted ''1.88''] @ description_line wide b
       @ lines_text [[], ''[workspace.lints.rust]'', ''unsafe_code = '' @ quoted ''forbid'',
         ''rust_2018_idioms = { level = '' @ quoted ''deny'' @ '', priority = -1 }'', [],
         ''[workspace.lints.clippy]'', ''all = { level = '' @ quoted ''warn'' @ '', priority = -1 }'',
         ''pedantic = { level = '' @ quoted ''warn'' @ '', priority = -1 }''])"
      by (simp add: root_manifest_def lines_text_def)
  qed
  moreover have "generated_file_new ''Cargo.toml'' (root_manifest wide b) \<in> set (plan_files plan)"
    using assms(1) by (auto simp: project_plan_def build_plan_def Let_def split: if_splits)
  ultimately show ?thesis using toml_debug [OF assms(2)] by metis
qed

theorem manifest_license_round_trip_witness:
  "(\<exists>plan before after. project_plan id (demo_blueprint [CHR ''M'', CHR 0x07]) = Inr plan
    \<and> generated_file_new ''Cargo.toml'' (before @ ''license = '' @ debug_str id [CHR ''M'', CHR 0x07] @ CHR 0x0A # after) \<in> set (plan_files plan)
    \<and> toml_string (debug_str id [CHR ''M'', CHR 0x07]) = None)
   \<and> toml_string (debug_str id ''MIT'') = Some ''MIT''"
proof -
  have plan: "project_plan id (demo_blueprint l) = Inr (build_plan id (demo_blueprint l))" if "l \<in> {[CHR ''M'', CHR 0x07], ''MIT''}" for l
    by (rule demo_accepted) (use that in \<open>auto simp: continuation_byte_def less_eq_char_def\<close>)
  have license: "pb_license (demo_blueprint l) = l" for l by (simp add: demo_blueprint_def blueprint_v1_def)
  have bell: "\<not> list_all toml_plain [CHR ''M'', CHR 0x07]" "\<forall>c\<in>set [CHR ''M'', CHR 0x07]. byte_in 0 0x7F c"
    and mit: "list_all toml_plain ''MIT''" "\<forall>c\<in>set ''MIT''. byte_in 0 0x7F c"
    by (simp_all add: toml_plain_def byte_in_def)
  have one: "[CHR ''M'', CHR 0x07] \<in> {[CHR ''M'', CHR 0x07], ''MIT''}" "''MIT'' \<in> {[CHR ''M'', CHR 0x07], ''MIT''}" by simp_all
  note first = manifest_license_round_trip [OF plan [OF one(1)], unfolded license, OF bell(2)]
    and second = manifest_license_round_trip [OF plan [OF one(2)], unfolded license, OF mit(2)]
  from second mit(1) have "toml_string (debug_str id ''MIT'') = Some ''MIT''" by metis
  with first bell(1) plan [OF one(1)] show ?thesis by metis
qed

end
