(* ===== verification/Project_Mcp.thy ===== *)
theory Project_Mcp
  imports Project_Properties Mcp_Access Mcp_Router_Properties
begin

text \<open>
  The tools of the project brick (\<open>project/src/mcp.rs\<close>): the three tools of the standalone server
  over an injected writer, and the contribution to a shared router, which leaves the writing tool
  out. Printing and parsing JSON, decoding arguments and generated schemas are parameters.
\<close>

section \<open>Inputs and replies\<close>

definition PROJECT_TOOLS :: "string list" where "PROJECT_TOOLS = [''project_validate'', ''project_plan'', ''project_generate'']"
definition PROJECT_DISCOVERY_TOOLS :: "string list" where "PROJECT_DISCOVERY_TOOLS = [''project_capabilities'', ''project_schema'']"

datatype project_kind_input = LibraryInput | BinaryInput

fun kind_into_core :: "project_kind_input \<Rightarrow> project_kind" where
  "kind_into_core LibraryInput = Library"
| "kind_into_core BinaryInput = Binary"

record blueprint_input =
  bi_workspace_name :: string
  bi_package_name :: string
  bi_kind :: project_kind_input
  bi_license :: string
  bi_description :: "string option"

definition blueprint_into_core :: "blueprint_input \<Rightarrow> project_blueprint" where
  "blueprint_into_core i = blueprint_v1 (bi_workspace_name i) (bi_package_name i) (kind_into_core (bi_kind i)) (bi_license i) (bi_description i)"

record generate_input =
  gi_blueprint :: blueprint_input
  gi_target :: string

fun validation_code_name :: "validation_code \<Rightarrow> string" where
  "validation_code_name EmptyField = ''empty_field''"
| "validation_code_name InvalidName = ''invalid_name''"
| "validation_code_name EmptyDescription = ''empty_description''"

fun finding_severity_name :: "finding_severity \<Rightarrow> string" where
  "finding_severity_name SeverityError = ''error''"
| "finding_severity_name SeverityWarning = ''warning''"

section \<open>The tools\<close>

text \<open>The errors gathered by \<open>anyhow\<close>; no reply shows them.\<close>

datatype 'e generation_error = Authoring authoring_error | Target target_error | Writer 'e | Serializing string

record project_codec =
  pc_print :: "json \<Rightarrow> (string, string) result"
  pc_display :: "json \<Rightarrow> string"
  pc_parse :: "string \<Rightarrow> json option"
  pc_schema_for :: "string \<Rightarrow> json"
  pc_blueprint :: "json \<Rightarrow> blueprint_input option"
  pc_debug_wide :: "string \<Rightarrow> string"

type_synonym ('e, 'w) project_writer = "generation_plan \<Rightarrow> string \<Rightarrow> (materialized_project, 'e, 'w) st"

definition finding_json :: "validation_finding \<Rightarrow> json" where
  "finding_json f = json_object [(''code'', JString (validation_code_name (vf_code f))), (''severity'', JString (finding_severity_name (vf_severity f))),
     (''field'', JString (vf_field f)), (''message'', JString (vf_message f))]"

definition json_member :: "json \<Rightarrow> string \<Rightarrow> json" where
  "json_member v key = (case v of JObject es \<Rightarrow> (case bt_get es key of Some x \<Rightarrow> x | None \<Rightarrow> JNull) | _ \<Rightarrow> JNull)"

definition validate_reply :: "blueprint_input \<Rightarrow> json" where
  "validate_reply input =
     (let findings = map finding_json (project_validate (blueprint_into_core input)) in
      json_object [(''valid'', JBool (\<not> list_ex (\<lambda>f. json_member f ''severity'' = JString ''error'') findings)), (''findings'', JArray findings)])"

definition project_validate_json :: "project_codec \<Rightarrow> blueprint_input \<Rightarrow> (string, 'e generation_error) result" where
  "project_validate_json codec input = map_err Serializing (pc_print codec (validate_reply input))"

definition plan_reply :: "generation_plan \<Rightarrow> json" where
  "plan_reply plan =
     json_object [(''files'', JArray (map (\<lambda>f. json_object [(''relative_path'', JString (relative_path f)), (''contents'', JString (contents f))]) (plan_files plan))),
       (''quality_commands'', JArray (map (\<lambda>c. json_object [(''program'', JString (qc_program c)), (''arguments'', json_strings (qc_arguments c))]) (quality_commands plan)))]"

definition project_plan_json :: "project_codec \<Rightarrow> blueprint_input \<Rightarrow> (string, 'e generation_error) result" where
  "project_plan_json codec input =
     and_then (map_err Authoring (project_plan (pc_debug_wide codec) (blueprint_into_core input))) (\<lambda>plan.
       map_err Serializing (pc_print codec (plan_reply plan)))"

definition project_generate_json :: "project_codec \<Rightarrow> ('e, 'w) project_writer \<Rightarrow> generate_input \<Rightarrow> (string, 'e generation_error, 'w) st" where
  "project_generate_json codec writer input =
     st_then (st_of (map_err Authoring (project_plan (pc_debug_wide codec) (blueprint_into_core (gi_blueprint input))))) (\<lambda>plan.
     st_then (st_of (map_err Target (project_target_new (gi_target input)))) (\<lambda>target.
     st_then (st_map_err Writer (writer plan target)) (\<lambda>project.
       st_of (map_err Serializing (pc_print codec (json_object [(''target'', JString (mp_target project)),
         (''written_files'', json_strings (written_files project))]))))))"

definition project_tool_response :: "(json \<Rightarrow> string) \<Rightarrow> (string, 'e generation_error) result \<Rightarrow> string" where
  "project_tool_response display result = (case result of Inr text \<Rightarrow> text | Inl _ \<Rightarrow> display (json_object [(''error'', JString ''generation_failed'')]))"

datatype project_tool = ProjectValidate blueprint_input | ProjectPlan blueprint_input | ProjectGenerate generate_input

definition project_tool_call :: "project_codec \<Rightarrow> ('e, 'w) project_writer \<Rightarrow> project_tool \<Rightarrow> 'w \<Rightarrow> string \<times> 'w" where
  "project_tool_call codec writer tool w =
     (case tool of
        ProjectValidate input \<Rightarrow> (project_tool_response (pc_display codec) (project_validate_json codec input :: (string, 'e generation_error) result), w)
      | ProjectPlan input \<Rightarrow> (project_tool_response (pc_display codec) (project_plan_json codec input :: (string, 'e generation_error) result), w)
      | ProjectGenerate input \<Rightarrow> (case project_generate_json codec writer input w of (r, w') \<Rightarrow> (project_tool_response (pc_display codec) r, w')))"

section \<open>The contribution\<close>

definition project_namespace :: string where "project_namespace = ''project''"

definition project_schema_map :: "(string \<Rightarrow> json) \<Rightarrow> string \<Rightarrow> (string, json) btree_map" where
  "project_schema_map schema_for name = (case schema_for name of JObject es \<Rightarrow> es | _ \<Rightarrow> [])"

definition project_descriptor :: "string \<Rightarrow> string \<Rightarrow> (string, json) btree_map \<Rightarrow> tool_descriptor option" where
  "project_descriptor operation description schema =
     (case tool_name_new project_namespace operation of Inl _ \<Rightarrow> None
      | Inr name \<Rightarrow> Some \<lparr>td_name = name, td_title = None, td_description = description, td_input_schema = schema, td_output_schema = None\<rparr>)"

definition project_descriptors :: "(string \<Rightarrow> json) \<Rightarrow> tool_descriptor option list" where
  "project_descriptors schema_for =
     [project_descriptor ''validate'' ''Validate a declarative Rust project blueprint without writing files.'' (project_schema_map schema_for ''BlueprintInput''),
      project_descriptor ''plan'' ''Create a deterministic dry-run Rust workspace generation plan without writing files.'' (project_schema_map schema_for ''BlueprintInput''),
      project_descriptor ''capabilities'' ''Describe this contribution's namespace and non-effectful tool set.'' (project_schema_map schema_for ''EmptyInput''),
      project_descriptor ''schema'' ''Return generated input schemas for this contribution's non-effectful tools.'' (project_schema_map schema_for ''EmptyInput'')]"

definition project_capabilities_json :: "(json \<Rightarrow> string) \<Rightarrow> string" where
  "project_capabilities_json display =
     display (json_object [(''namespace'', JString project_namespace),
       (''tools'', json_strings (filter (\<lambda>name. name \<noteq> ''project_generate'') PROJECT_TOOLS @ PROJECT_DISCOVERY_TOOLS))])"

definition project_schema_json :: "(string \<Rightarrow> json) \<Rightarrow> (json \<Rightarrow> string) \<Rightarrow> string" where
  "project_schema_json schema_for display =
     display (json_object [(''project_validate'', schema_for ''BlueprintInput''), (''project_plan'', schema_for ''BlueprintInput'')])"

definition project_deserialize_arguments :: "(json \<Rightarrow> 'a option) \<Rightarrow> json \<Rightarrow> ('a, dispatch_error) result" where
  "project_deserialize_arguments decode arguments = ok_or (decode arguments) (MalformedArguments ''could not parse tool arguments'')"

definition project_fold_outcome :: "project_codec \<Rightarrow> (string, 'e generation_error) result \<Rightarrow> dispatch_outcome" where
  "project_fold_outcome codec result =
     \<lparr>do_payload = (case pc_parse codec (project_tool_response (pc_display codec) result) of
        Some v \<Rightarrow> v | None \<Rightarrow> json_object [(''error'', JString ''operation_failed'')]),
      do_is_error = False\<rparr>"

definition project_dispatch :: "project_codec \<Rightarrow> ('e, 'w) project_writer \<Rightarrow> string \<Rightarrow> json \<Rightarrow> (dispatch_outcome, dispatch_error, 'w) st" where
  "project_dispatch codec writer tool arguments =
     (if tool = ''project_validate'' then
        st_then (st_of (project_deserialize_arguments (pc_blueprint codec) arguments)) (\<lambda>input.
          st_of (Inr (project_fold_outcome codec (project_validate_json codec input :: (string, 'e generation_error) result))))
      else if tool = ''project_plan'' then
        st_then (st_of (project_deserialize_arguments (pc_blueprint codec) arguments)) (\<lambda>input.
          st_of (Inr (project_fold_outcome codec (project_plan_json codec input :: (string, 'e generation_error) result))))
      else if tool = ''project_capabilities'' then
        st_of (Inr (project_fold_outcome codec (Inr (project_capabilities_json (pc_display codec)) :: (string, 'e generation_error) result)))
      else if tool = ''project_schema'' then
        st_of (Inr (project_fold_outcome codec (Inr (project_schema_json (pc_schema_for codec) (pc_display codec)) :: (string, 'e generation_error) result)))
      else st_of (Inl UnknownTool))"

definition project_contribution :: "project_codec \<Rightarrow> ('e, 'w) project_writer \<Rightarrow> 'w handler_contribution" where
  "project_contribution codec writer =
     \<lparr>hc_namespace = project_namespace,
      hc_tools = concat (map (\<lambda>d. case d of None \<Rightarrow> [] | Some t \<Rightarrow> [t]) (project_descriptors (pc_schema_for codec))),
      hc_dispatch = project_dispatch codec writer\<rparr>"

section \<open>Properties\<close>

text \<open>The reply of the validation tool says valid exactly when planning is allowed.\<close>

lemma finding_severity_json: "json_member (finding_json f) ''severity'' = JString ''error'' \<longleftrightarrow> vf_severity f = SeverityError"
  by (cases "vf_severity f") (simp_all add: json_member_def finding_json_def json_object_def)

lemma validate_reply_agrees:
  "json_member (validate_reply input) ''valid'' = JBool (\<not> isl (project_plan wide (blueprint_into_core input)))"
proof -
  have "json_member (json_object [(''valid'', JBool v), (''findings'', x)]) ''valid'' = JBool v" for v x
    by (simp add: json_member_def json_object_def)
  then show ?thesis
    by (simp add: validate_reply_def project_plan_def report_is_valid_def list_ex_iff Let_def finding_severity_json)
qed

lemma project_names_valid:
  "is_valid_segment project_namespace" "is_valid_segment ''validate''" "is_valid_segment ''plan''" "is_valid_segment ''capabilities''"
  "is_valid_segment ''schema''"
  by (simp_all add: is_valid_segment_def project_namespace_def MAX_SEGMENT_BYTES_def ascii_defs less_eq_char_def)

lemma project_contribution_ok:
  "None \<notin> set (project_descriptors schema_for)"
  "td_name ` set (hc_tools (project_contribution codec writer)) = {''project_validate'', ''project_plan'', ''project_capabilities'', ''project_schema''}"
  "contribution_ok (project_contribution codec writer)"
proof -
  note names = project_names_valid tool_name_new_valid
  show "None \<notin> set (project_descriptors schema_for)"
    by (simp add: project_descriptors_def project_descriptor_def names)
  show "td_name ` set (hc_tools (project_contribution codec writer)) = {''project_validate'', ''project_plan'', ''project_capabilities'', ''project_schema''}"
    by (simp add: project_contribution_def project_descriptors_def project_descriptor_def names) (auto simp: project_namespace_def)
  show "contribution_ok (project_contribution codec writer)"
    unfolding contribution_ok_def
    by (simp add: project_contribution_def project_descriptors_def project_descriptor_def names)
      (use names in \<open>metis append_Cons append_Nil\<close>)
qed

text \<open>No call through the contribution reaches the writer, and the writing tool is unknown to it.\<close>

lemma project_dispatch_writes_nothing: "snd (project_dispatch codec writer tool arguments w) = w"
  by (simp add: project_dispatch_def st_then_def st_of_def split: sum.split)

lemma project_generate_unknown: "fst (project_dispatch codec writer ''project_generate'' arguments w) = Inl UnknownTool"
  by (simp add: project_dispatch_def st_of_def)

lemma project_read_tools_write_nothing: "(\<forall>i. tool \<noteq> ProjectGenerate i) \<Longrightarrow> snd (project_tool_call codec writer tool w) = w"
  by (cases tool) (simp_all add: project_tool_call_def)

text \<open>
  The writing tool over the confined writer: a blueprint or target that is refused touches nothing, and
  every call of an accepted one is below the target asked for.
\<close>

lemma project_generate_confined:
  assumes "project_generate_json codec (confined_write (logged_dir root)) input (w, []) = (r, (w', log))"
  shows "list_all (\<lambda>call. below (gi_target input) (call_path call)) log"
proof (cases "project_plan (pc_debug_wide codec) (blueprint_into_core (gi_blueprint input))")
  case (Inr plan)
  show ?thesis
  proof (cases "project_target_new (gi_target input)")
    case (Inr target)
    obtain r' v l where writes: "confined_write (logged_dir root) plan target (w, []) = (r', (v, l))" by (metis prod.exhaust)
    with assms \<open>project_plan _ _ = Inr plan\<close> Inr have "log = l"
      by (auto simp: project_generate_json_def st_then_ok) (auto simp: st_then_def st_map_err_def st_of_def split: sum.splits)
    moreover have "target = gi_target input" using Inr by (simp add: target_accepted)
    ultimately show ?thesis using generated_calls_below [OF \<open>project_plan _ _ = Inr plan\<close> Inr writes] by simp
  qed (use assms Inr in \<open>auto simp: project_generate_json_def st_then_ok st_then_def st_of_def\<close>)
qed (use assms in \<open>auto simp: project_generate_json_def st_then_def st_of_def\<close>)

text \<open>A router built with the contribution: whatever is called under its names changes nothing.\<close>

lemma routed_project_writes_nothing:
  assumes "router_build print_map b = Inr router" "\<forall>c\<in>set (rb_bricks b @ rb_meta b). contribution_ok c"
    and "project_contribution codec writer \<in> set (rb_bricks b @ rb_meta b)"
    and "name \<in> td_name ` set (hc_tools (project_contribution codec writer))"
  shows "snd (call_tool display quote router name arguments w) = w"
proof -
  let ?x = "case arguments of None \<Rightarrow> JObject [] | Some es \<Rightarrow> JObject es"
  have "snd (hc_dispatch (project_contribution codec writer) name ?x w) = w"
    by (simp add: project_contribution_def project_dispatch_writes_nothing)
  with call_declared [OF assms(1) assms(3) bspec [OF assms(2,3)] assms(4), of display quote arguments w] show ?thesis
    by (cases "hc_dispatch (project_contribution codec writer) name ?x w") simp
qed

end
