(* ===== verification/Workflow_Stages.thy ===== *)
theory Workflow_Stages
  imports Workflow_Starts
begin

text \<open>
  The calls of the workflow runner cut at every access to shared state: one stage makes one access
  to the store, to the registry of cancellations, to the token counter or to a signal, and what
  lies between two accesses belongs to the stage before. The stages in a row are the uninterrupted
  calls; in any other order they give the race between a cancellation and the end of the invocation.
\<close>

section \<open>Stages of an execution\<close>

text \<open>
  \<open>Invoking\<close> awaits the invocation and moves on only when it answers; \<open>Returned\<close> has its answer and
  drops the registration next. \<open>Finished\<close> is the result of the call.
\<close>

datatype execute_stage =
    Starting prepared_start workflow_run
  | Numbering prepared_start string workflow_run evidence_collector
  | Registering prepared_start string workflow_run evidence_collector u64
  | Invoking flight
  | Deregistering workflow_run u64
  | Terminalizing workflow_run string workflow_error
  | Returned flight "(string, workflow_error) result"
  | Closing workflow_run transition "workflow_error option"
  | Rereading workflow_run
  | Finished "(run_summary, workflow_error) result option"

definition flight_of :: "prepared_start \<Rightarrow> string \<Rightarrow> workflow_run \<Rightarrow> evidence_collector \<Rightarrow> u64 \<Rightarrow> flight" where
  "flight_of ps attempt_id active evidence token =
     \<lparr>fl_active = active, fl_token = token,
      fl_request = \<lparr>ar_context = wr_context active, ar_agent_id = wd_agent_id (ps_definition ps),
        ar_input = ps_input ps, ar_attempt_id = attempt_id, ar_ceiling = ip_ceiling (ps_policy ps),
        ar_policy_decision_digest = ip_policy_decision_digest (ps_policy ps)\<rparr>,
      fl_evidence = evidence\<rparr>"

fun execute_step :: "workflow_env \<Rightarrow> bool \<Rightarrow> runner \<Rightarrow> execute_stage \<Rightarrow> execute_stage \<times> runner" where
  "execute_step env instant_ok rn (Starting ps r) =
     (case execute_start env rn ps r of
        (Inl e, rn) \<Rightarrow> (Finished (Some (Inl e)), rn)
      | (Inr (attempt_id, active), rn) \<Rightarrow>
          (case evidence_collector_new (wr_max_evidence_bytes active) (wr_events active) of
             Inl e \<Rightarrow> Terminalizing active ''evidence_limit_exceeded'' e
           | Inr evidence \<Rightarrow> Numbering ps attempt_id active evidence,
           rn))"
| "execute_step env instant_ok rn (Numbering ps attempt_id active evidence) =
     (case checked_add (rn_next_registration rn) 1 of
        None \<Rightarrow> (Terminalizing active ''cancellation_registration_failed'' WfAdapterFailure, rn)
      | Some next_token \<Rightarrow>
          (Registering ps attempt_id active evidence (rn_next_registration rn), rn\<lparr>rn_next_registration := next_token\<rparr>))"
| "execute_step env instant_ok rn (Registering ps attempt_id active evidence token) =
     (if poisoned (rn_cancellations rn)
      then (Terminalizing active ''cancellation_registration_failed'' WfAdapterFailure, rn)
      else
        (case identifier_new (env_sha256_hex env (rc_tenant_id (wr_context active) @ '':'' @ wr_id active
                @ '':'' @ attempt_id)) of
           Inl _ \<Rightarrow> Deregistering active token
         | Inr key \<Rightarrow> if instant_ok then Invoking (flight_of ps attempt_id active evidence token)
                      else Deregistering active token,
         register rn (wr_id active) token))"
| "execute_step env instant_ok rn (Deregistering active token) =
     (Terminalizing active ''invocation_control_failed'' WfAdapterFailure, drop_registration rn (wr_id active) token)"
| "execute_step env instant_ok rn (Terminalizing active reason error) =
     map_prod Finished (\<lambda>x. x) (setup_failed rn active reason error)"
| "execute_step env instant_ok rn (Returned fl outcome) =
     (case closing_transition (fl_active fl) outcome (fl_evidence fl) of
        (None, _) \<Rightarrow> Finished None
      | (Some t, result_error) \<Rightarrow> Closing (fl_active fl) t result_error,
      drop_registration rn (wr_id (fl_active fl)) (fl_token fl))"
| "execute_step env instant_ok rn (Closing active t result_error) =
     (case store_transition (rn_store rn) (rc_tenant_id (wr_context active)) (wr_id active) (wr_revision active) Running t of
        (result, store) \<Rightarrow>
          (case result of
             Inl e \<Rightarrow> Finished (Some (Inl e))
           | Inr (Applied v) \<Rightarrow>
               Finished (Some (if result_error = Some WfLimitExceeded then Inl WfLimitExceeded else Inr (run_summary_from v)))
           | Inr TransitionConflict \<Rightarrow> Rereading active
           | Inr TransitionNotFound \<Rightarrow> Finished (Some (Inl WfNotFound)),
           rn\<lparr>rn_store := store\<rparr>))"
| "execute_step env instant_ok rn (Rereading active) =
     (Finished (Some (runner_get rn (rc_tenant_id (wr_context active)) (wr_id active))), rn)"
| "execute_step env instant_ok rn (Invoking fl) = (Invoking fl, rn)"
| "execute_step env instant_ok rn (Finished result) = (Finished result, rn)"

section \<open>Stages of a cancellation\<close>

datatype cancel_stage =
    CancelRead string string
  | CancelLookup string workflow_run
  | CancelSignal string workflow_run u64
  | CancelCommit string workflow_run
  | CancelReread string string
  | CancelDone "(run_summary, workflow_error) result"

fun cancel_step :: "runner \<Rightarrow> cancel_stage \<Rightarrow> cancel_stage \<times> runner" where
  "cancel_step rn (CancelRead tenant rid) =
     (case and_then (store_get (rn_store rn) tenant rid) (\<lambda>found. ok_or found WfNotFound) of
        Inl e \<Rightarrow> CancelDone (Inl e)
      | Inr r \<Rightarrow> if is_terminal (wr_status r) then CancelDone (Inr (run_summary_from r)) else CancelLookup tenant r,
      rn)"
| "cancel_step rn (CancelLookup tenant r) =
     (if poisoned (rn_cancellations rn) then CancelDone (Inl WfAdapterFailure)
      else (case bt_get (guarded (rn_cancellations rn)) (wr_id r) of
              None \<Rightarrow> CancelDone (Inl WfConflict)
            | Some token \<Rightarrow> CancelSignal tenant r token),
      rn)"
| "cancel_step rn (CancelSignal tenant r token) = (CancelCommit tenant r, rn\<lparr>rn_signalled := token # rn_signalled rn\<rparr>)"
| "cancel_step rn (CancelCommit tenant r) =
     (case store_transition (rn_store rn) tenant (wr_id r) (wr_revision r) Running (cancelled_transition r) of
        (outcome, store) \<Rightarrow>
          (case outcome of
             Inl e \<Rightarrow> CancelDone (Inl e)
           | Inr (Applied v) \<Rightarrow> CancelDone (Inr (run_summary_from v))
           | Inr TransitionConflict \<Rightarrow> CancelReread tenant (wr_id r)
           | Inr TransitionNotFound \<Rightarrow> CancelDone (Inl WfNotFound),
           rn\<lparr>rn_store := store\<rparr>))"
| "cancel_step rn (CancelReread tenant rid) = (CancelDone (runner_get rn tenant rid), rn)"
| "cancel_step rn (CancelDone result) = (CancelDone result, rn)"

section \<open>Stages in a row\<close>

text \<open>Five stages lead from the start of an execution to its invocation or its result, three from the
  answer of the invocation to the result, five through a cancellation.\<close>

definition execute_row :: "workflow_env \<Rightarrow> bool \<Rightarrow> nat \<Rightarrow> execute_stage \<times> runner \<Rightarrow> execute_stage \<times> runner" where
  "execute_row env instant_ok n = (\<lambda>(stage, rn). execute_step env instant_ok rn stage) ^^ n"

definition cancel_row :: "nat \<Rightarrow> cancel_stage \<times> runner \<Rightarrow> cancel_stage \<times> runner" where
  "cancel_row n = (\<lambda>(stage, rn). cancel_step rn stage) ^^ n"

lemma execute_row_Suc [simp]:
  "execute_row env instant_ok 0 p = p"
  "execute_row env instant_ok (Suc n) (stage, rn) = execute_row env instant_ok n (execute_step env instant_ok rn stage)"
  by (simp_all add: execute_row_def funpow_swap1 del: execute_step.simps)

lemma cancel_row_Suc [simp]: "cancel_row 0 p = p" "cancel_row (Suc n) (stage, rn) = cancel_row n (cancel_step rn stage)"
  by (simp_all add: cancel_row_def funpow_swap1 del: cancel_step.simps)

lemma rows_stay [simp]:
  "execute_row env instant_ok n (Finished res, rn) = (Finished res, rn)"
  "execute_row env instant_ok n (Invoking fl, rn) = (Invoking fl, rn)"
  "cancel_row n (CancelDone r, rn) = (CancelDone r, rn)"
  by (induction n) simp_all

lemma row_stays_map [simp]: "execute_row env instant_ok n (map_prod Finished g p) = map_prod Finished g p"
  by (cases p) simp

lemma cancel_stages: "cancel_row 5 (CancelRead tenant rid, rn) = map_prod CancelDone (\<lambda>x. x) (cancel rn tenant rid)"
  by (simp add: numeral_eq_Suc cancel_def Let_def split: sum.split option.split prod.split transition_result.split)

lemma finish_stages:
  "execute_row env instant_ok 3 (Returned fl outcome, rn) = map_prod Finished (\<lambda>x. x) (execute_finish rn fl outcome (fl_evidence fl))"
  by (simp add: numeral_eq_Suc execute_finish_def Let_def split: sum.split option.split prod.split transition_result.split)

fun setup_stage :: "(flight, workflow_error) result option \<Rightarrow> execute_stage" where
  "setup_stage (Some (Inr fl)) = Invoking fl"
| "setup_stage (Some (Inl e)) = Finished (Some (Inl e))"
| "setup_stage None = Finished None"

lemma setup_failed_stage:
  "map_prod setup_stage (\<lambda>x. x) (setup_failed rn active reason error) = map_prod Finished (\<lambda>x. x) (setup_failed rn active reason error)"
  by (auto simp: setup_failed_def terminalize_setup_failure_def split: option.split prod.split sum.split transition_result.split)

lemma setup_stages:
  assumes "execute_start env rn ps r = (Inr (attempt_id, active), rn1)"
  shows "execute_row env instant_ok 5 (Starting ps r, rn) = map_prod setup_stage (\<lambda>x. x) (execute_setup env rn1 ps attempt_id active instant_ok)"
  by (simp add: numeral_eq_Suc assms execute_setup_def Let_def setup_failed_stage flight_of_def split: sum.split option.split)

text \<open>The uninterrupted execution is the row of its stages around the invocation.\<close>

lemma execute_stages:
  "execute env invoke instant_ok rn ps r =
     (case execute_row env instant_ok 5 (Starting ps r, rn) of
        (Invoking fl, rn) \<Rightarrow>
          (case invoke (fl_request fl) (fl_evidence fl) of
             (outcome, evidence) \<Rightarrow>
               (case execute_row env instant_ok 3 (Returned (fl\<lparr>fl_evidence := evidence\<rparr>) outcome, rn) of
                  (Finished res, rn) \<Rightarrow> (res, rn)))
      | (Finished res, rn) \<Rightarrow> (res, rn))"
proof -
  have again: "execute_finish rn2 (fl\<lparr>fl_evidence := c\<rparr>) outcome c = execute_finish rn2 fl outcome c" for rn2 fl outcome c
    by (simp add: execute_finish_def Let_def)
  show ?thesis
  proof (cases "execute_start env rn ps r")
    case (Pair res rn1)
    show ?thesis
    proof (cases res)
      case (Inr q)
      obtain aid active where q: "q = (aid, active)" by fastforce
      obtain res2 rn2 where mid: "execute_setup env rn1 ps aid active instant_ok = (res2, rn2)" by fastforce
      have row: "execute_row env instant_ok 5 (Starting ps r, rn) = (setup_stage res2, rn2)"
        using setup_stages [of env rn ps r aid active rn1 instant_ok] Pair Inr q mid by simp
      show ?thesis
        by (cases res2 rule: setup_stage.cases)
          (auto simp: row execute_def Pair Inr q mid finish_stages again map_prod_def simp del: execute_step.simps split: prod.splits)
    qed (simp add: execute_def Pair numeral_eq_Suc)
  qed
qed

section \<open>The race\<close>

text \<open>One cancellation and one execution whose invocation has answered, over the same runner. A schedule
  says whose stage comes next: \<^const>\<open>True\<close> for the cancellation.\<close>

fun race_step :: "workflow_env \<Rightarrow> cancel_stage \<times> execute_stage \<times> runner \<Rightarrow> bool \<Rightarrow> cancel_stage \<times> execute_stage \<times> runner" where
  "race_step env (c, x, rn) True = (case cancel_step rn c of (c', rn') \<Rightarrow> (c', x, rn'))"
| "race_step env (c, x, rn) False = (case execute_step env True rn x of (x', rn') \<Rightarrow> (c, x', rn'))"

definition race :: "workflow_env \<Rightarrow> cancel_stage \<times> execute_stage \<times> runner \<Rightarrow> bool list \<Rightarrow> cancel_stage \<times> execute_stage \<times> runner" where
  "race env = foldl (race_step env)"

lemma race_simps [simp]: "race env p [] = p" "race env p (b # bs) = race env (race_step env p b) bs"
  by (simp_all add: race_def)

text \<open>How many stages a call may still have.\<close>

fun cancel_rank :: "cancel_stage \<Rightarrow> nat" where
  "cancel_rank (CancelRead tenant rid) = 5"
| "cancel_rank (CancelLookup tenant r) = 4"
| "cancel_rank (CancelSignal tenant r token) = 3"
| "cancel_rank (CancelCommit tenant r) = 2"
| "cancel_rank (CancelReread tenant rid) = 1"
| "cancel_rank (CancelDone res) = 0"

fun finish_rank :: "execute_stage \<Rightarrow> nat" where
  "finish_rank (Returned fl outcome) = 3"
| "finish_rank (Closing r t err) = 2"
| "finish_rank (Rereading r) = 1"
| "finish_rank (Finished res) = 0"
| "finish_rank _ = 4"

lemma cancel_step_rank: "cancel_rank (fst (cancel_step rn c)) \<le> cancel_rank c - 1"
  by (cases c) (auto split: sum.split option.split prod.split transition_result.split)

lemma finish_step_rank: "finish_rank x \<le> 3 \<Longrightarrow> finish_rank (fst (execute_step env ok rn x)) \<le> finish_rank x - 1"
  by (cases x) (auto split: sum.split option.split prod.split transition_result.split)

lemma race_ends:
  assumes "race env (c, x, rn) bs = (c', x', rn')" and "finish_rank x \<le> 3"
    and "cancel_rank c \<le> count_list bs True" and "finish_rank x \<le> count_list bs False"
  shows "(\<exists>res. c' = CancelDone res) \<and> (\<exists>res. x' = Finished res)"
  using assms
proof (induction bs arbitrary: c x rn)
  case Nil
  then show ?case by (cases c'; cases x') simp_all
next
  case (Cons b bs)
  show ?case
  proof (cases b)
    case True
    obtain c1 rn1 where "cancel_step rn c = (c1, rn1)" by fastforce
    with Cons True cancel_step_rank [of rn c] show ?thesis by (auto simp del: cancel_step.simps)
  next
    case False
    obtain x1 rn1 where "execute_step env True rn x = (x1, rn1)" by fastforce
    with Cons False finish_step_rank [of x env True rn] show ?thesis by (auto simp del: execute_step.simps)
  qed
qed

text \<open>A run after it was closed, by either call.\<close>

definition closed_as :: "workflow_run \<Rightarrow> workflow_run \<Rightarrow> bool" where
  "closed_as r v \<longleftrightarrow> is_terminal (wr_status v) \<and> wr_context v = wr_context r \<and> wr_revision v = 2 \<and> wr_id v = wr_id r"

lemma closed_differs: "opened r \<Longrightarrow> closed_as r v \<Longrightarrow> v \<noteq> r"
  by (auto simp: opened_def closed_as_def is_terminal_def)

text \<open>Of two closing transitions of the same run the first is applied and the second is a conflict.\<close>

lemma closing_once:
  assumes "workflow_inv s" and "bt_get (ws_runs (guarded s)) (wr_id r) = Some v" and "v = r \<or> closed_as r v" and "opened r"
    and "transition_is_valid r Running t"
  obtains s' v' where "store_transition s (rc_tenant_id (wr_context r)) (wr_id r) (wr_revision r) Running t
      = (Inr (if v = r then Applied v' else TransitionConflict), s')"
    and "workflow_inv s'" and "bt_get (ws_runs (guarded s')) (wr_id r) = Some v'" and "closed_as r v'" and "v \<noteq> r \<Longrightarrow> v' = v"
proof (cases "v = r")
  case True
  obtain s' where s': "store_transition s (rc_tenant_id (wr_context r)) (wr_id r) (wr_revision r) Running t
      = (Inr (Applied (apply_transition r t)), s')" "workflow_inv s'"
      "bt_get (ws_runs (guarded s')) = (bt_get (ws_runs (guarded s)))(wr_id r \<mapsto> apply_transition r t)"
    by (rule store_transition_applied [OF assms(1) _ assms(5)]) (use assms(2) True in simp)
  moreover have "closed_as r (apply_transition r t)"
    using assms(4,5) by (auto simp: closed_as_def opened_def run_ok_def transition_is_valid_iff is_terminal_def elim: attempt_valid_cases)
  ultimately show thesis using that [of "apply_transition r t" s'] True by simp
next
  case False
  with assms(3) have v: "closed_as r v" by simp
  have "wr_revision r = 1" using assms(4) by (simp add: opened_def run_ok_def)
  with v assms(1,2) have "store_transition s (rc_tenant_id (wr_context r)) (wr_id r) (wr_revision r) Running t = (Inr TransitionConflict, s)"
    by (simp add: store_transition_def transition_state_def closed_as_def workflow_inv_def)
  with that [of v s] v False assms show thesis by simp
qed

lemma read_stored:
  assumes "workflow_inv (rn_store rn)" and "stored rn (wr_id r) = Some v" and "wr_context v = wr_context r"
  shows "store_get (rn_store rn) (rc_tenant_id (wr_context r)) (wr_id r) = Inr (Some v)"
    and "runner_get rn (rc_tenant_id (wr_context r)) (wr_id r) = Inr (run_summary_from v)"
  using assms by (simp_all add: runner_get_def store_get_def lock_def workflow_inv_def)

text \<open>The race after its first two stages: \<open>late\<close> says that the cancellation comes too late to be heard
  and too early to see the closed run.\<close>

fun finish_at :: "bool \<Rightarrow> flight \<Rightarrow> workflow_run \<Rightarrow> execute_stage \<Rightarrow> bool" where
  "finish_at late fl v (Returned fl' outcome) \<longleftrightarrow> fl' = fl \<and> \<not> late"
| "finish_at late fl v (Closing q t err) \<longleftrightarrow> q = fl_active fl \<and> transition_is_valid q Running t"
| "finish_at late fl v (Rereading q) \<longleftrightarrow> q = fl_active fl \<and> v \<noteq> q"
| "finish_at late fl v (Finished res) \<longleftrightarrow> v \<noteq> fl_active fl \<and> (res = Some (Inr (run_summary_from v)) \<or> res = Some (Inl WfLimitExceeded))"
| "finish_at late fl v _ \<longleftrightarrow> False"

fun cancel_at :: "bool \<Rightarrow> workflow_run \<Rightarrow> workflow_run \<Rightarrow> cancel_stage \<Rightarrow> bool" where
  "cancel_at late r v (CancelRead tenant rid) \<longleftrightarrow> tenant = rc_tenant_id (wr_context r) \<and> rid = wr_id r \<and> v \<noteq> r \<and> \<not> late"
| "cancel_at late r v (CancelLookup tenant q) \<longleftrightarrow> tenant = rc_tenant_id (wr_context r) \<and> q = r \<and> late"
| "cancel_at late r v (CancelSignal tenant q token) \<longleftrightarrow> tenant = rc_tenant_id (wr_context r) \<and> q = r \<and> \<not> late"
| "cancel_at late r v (CancelCommit tenant q) \<longleftrightarrow> tenant = rc_tenant_id (wr_context r) \<and> q = r \<and> \<not> late"
| "cancel_at late r v (CancelReread tenant rid) \<longleftrightarrow> tenant = rc_tenant_id (wr_context r) \<and> rid = wr_id r \<and> v \<noteq> r \<and> \<not> late"
| "cancel_at late r v (CancelDone res) \<longleftrightarrow> (if late then res = Inl WfConflict else v \<noteq> r \<and> res = Inr (run_summary_from v))"

fun race_inv :: "bool \<Rightarrow> flight \<Rightarrow> u64 list \<Rightarrow> cancel_stage \<times> execute_stage \<times> runner \<Rightarrow> bool" where
  "race_inv late fl signals (c, x, rn) \<longleftrightarrow> workflow_inv (rn_store rn) \<and> \<not> poisoned (rn_cancellations rn)
     \<and> (late \<longrightarrow> rn_signalled rn = signals \<and> bt_get (guarded (rn_cancellations rn)) (wr_id (fl_active fl)) = None)
     \<and> (\<exists>v. stored rn (wr_id (fl_active fl)) = Some v \<and> (v = fl_active fl \<or> closed_as (fl_active fl) v)
          \<and> finish_at late fl v x \<and> cancel_at late (fl_active fl) v c)"

lemma race_cancel_inv:
  assumes "opened (fl_active fl)" and "race_inv late fl signals (c, x, rn)"
  shows "race_inv late fl signals (race_step env (c, x, rn) True)"
proof -
  let ?r = "fl_active fl"
  obtain v where v: "stored rn (wr_id ?r) = Some v" "v = ?r \<or> closed_as ?r v" "finish_at late fl v x" "cancel_at late ?r v c"
    and inv: "workflow_inv (rn_store rn)" "\<not> poisoned (rn_cancellations rn)"
    and quiet: "late \<longrightarrow> rn_signalled rn = signals \<and> bt_get (guarded (rn_cancellations rn)) (wr_id ?r) = None"
    using assms(2) by auto
  have same: "wr_context v = wr_context ?r" using v(2) by (auto simp: closed_as_def)
  note here = read_stored [OF inv(1) v(1) same]
  show ?thesis
  proof (cases c)
    case (CancelRead tenant rid)
    with v(2,4) have "closed_as ?r v" by auto
    then have "is_terminal (wr_status v)" by (simp add: closed_as_def)
    with CancelRead v inv quiet here show ?thesis by auto
  next
    case (CancelCommit tenant q)
    have "transition_is_valid ?r Running (cancelled_transition ?r)"
      using assms(1) by (intro cancelled_valid) (simp_all add: opened_def)
    then obtain s' v' where s': "store_transition (rn_store rn) (rc_tenant_id (wr_context ?r)) (wr_id ?r) (wr_revision ?r) Running
        (cancelled_transition ?r) = (Inr (if v = ?r then Applied v' else TransitionConflict), s')"
      "workflow_inv s'" "bt_get (ws_runs (guarded s')) (wr_id ?r) = Some v'" "closed_as ?r v'" "v \<noteq> ?r \<Longrightarrow> v' = v"
      using closing_once [OF inv(1) v(1,2) assms(1)] by metis
    have "v' \<noteq> ?r" by (rule closed_differs [OF assms(1) s'(4)])
    moreover have "finish_at late fl v' x" using v(3) s'(5) by (cases "v = ?r"; cases x) auto
    ultimately show ?thesis using CancelCommit v(4) inv quiet s' by (cases "v = ?r") auto
  qed (use v inv quiet here in auto)
qed

lemma race_finish_inv:
  assumes "opened (fl_active fl)" and "collector_ok (fl_active fl) (fl_evidence fl)" and "race_inv late fl signals (c, x, rn)"
  shows "race_inv late fl signals (race_step env (c, x, rn) False)"
proof -
  let ?r = "fl_active fl"
  obtain v where v: "stored rn (wr_id ?r) = Some v" "v = ?r \<or> closed_as ?r v" "finish_at late fl v x" "cancel_at late ?r v c"
    and inv: "workflow_inv (rn_store rn)" "\<not> poisoned (rn_cancellations rn)"
    and quiet: "late \<longrightarrow> rn_signalled rn = signals \<and> bt_get (guarded (rn_cancellations rn)) (wr_id ?r) = None"
    using assms(3) by auto
  have same: "wr_context v = wr_context ?r" using v(2) by (auto simp: closed_as_def)
  note here = read_stored [OF inv(1) v(1) same]
  show ?thesis
  proof (cases x)
    case (Returned fl' outcome)
    obtain t err where "closing_transition ?r outcome (fl_evidence fl) = (Some t, err)" "transition_is_valid ?r Running t"
      by (rule closing_valid [OF assms(1,2)])
    with Returned v inv show ?thesis by (auto simp: drop_registration_def)
  next
    case (Closing q t err)
    with v(3) have "q = ?r" "transition_is_valid ?r Running t" by auto
    moreover obtain s' v' where s': "store_transition (rn_store rn) (rc_tenant_id (wr_context ?r)) (wr_id ?r) (wr_revision ?r) Running t
        = (Inr (if v = ?r then Applied v' else TransitionConflict), s')"
      "workflow_inv s'" "bt_get (ws_runs (guarded s')) (wr_id ?r) = Some v'" "closed_as ?r v'" "v \<noteq> ?r \<Longrightarrow> v' = v"
      using closing_once [OF inv(1) v(1,2) assms(1) calculation(2)] by metis
    moreover have "v' \<noteq> ?r" by (rule closed_differs [OF assms(1) s'(4)])
    moreover have "cancel_at late ?r v' c" using v(4) s'(5) by (cases "v = ?r"; cases c) auto
    ultimately show ?thesis using Closing inv quiet by (cases "v = ?r") auto
  qed (use v inv quiet here in auto)
qed

lemma race_keeps_inv:
  assumes "opened (fl_active fl)" and "collector_ok (fl_active fl) (fl_evidence fl)" and "race_inv late fl signals p"
  shows "race_inv late fl signals (race env p bs)"
  using assms(3)
proof (induction bs arbitrary: p)
  case (Cons b bs)
  obtain c x rn where p: "p = (c, x, rn)" by (metis prod_cases3)
  have "race_inv late fl signals (race_step env p b)"
    using race_cancel_inv [OF assms(1)] race_finish_inv [OF assms(1,2)] Cons.prems by (cases b) (simp_all only: p)
  from Cons.IH [OF this] show ?case by (simp only: race_simps)
qed simp

lemma race_opening:
  assumes "workflow_inv (rn_store rn)" and "fl_active fl = r" and "stored rn (wr_id r) = Some r" and "opened r"
    and "collector_ok r (fl_evidence fl)" and "\<not> poisoned (rn_cancellations rn)"
    and "bt_get (guarded (rn_cancellations rn)) (wr_id r) = Some (fl_token fl)"
  shows "race_inv (a \<noteq> b) fl (rn_signalled rn) (race env (CancelRead (rc_tenant_id (wr_context r)) (wr_id r), Returned fl outcome, rn) [a, b])"
proof -
  have status: "\<not> is_terminal (wr_status r)" using assms(4) by (simp add: opened_def is_terminal_def)
  obtain t err where t: "closing_transition r outcome (fl_evidence fl) = (Some t, err)" "transition_is_valid r Running t"
    by (rule closing_valid [OF assms(4,5)])
  note here = read_stored [OF assms(1,3) refl]
  let ?rn = "drop_registration rn (wr_id r) (fl_token fl)"
  have gone: "\<not> poisoned (rn_cancellations ?rn)" "bt_get (guarded (rn_cancellations ?rn)) (wr_id r) = None" "rn_signalled ?rn = rn_signalled rn"
    using assms(6,7) by (simp_all add: drop_registration_def)
  obtain s' v' where s': "store_transition (rn_store rn) (rc_tenant_id (wr_context r)) (wr_id r) (wr_revision r) Running t = (Inr (Applied v'), s')"
      "workflow_inv s'" "bt_get (ws_runs (guarded s')) (wr_id r) = Some v'" "closed_as r v'"
    using closing_once [OF assms(1,3) _ assms(4) t(2)] by (metis (full_types))
  have "v' \<noteq> r" by (rule closed_differs [OF assms(4) s'(4)])
  then show ?thesis using assms status t here gone s' by (cases a; cases b) auto
qed

text \<open>C20: A cancellation and the end of the invocation it races with, in every order of their single
  accesses to shared state. The run is stored, running with an evidence budget of at least 56 bytes,
  and registered; the invocation has answered, whatever its answer. Every schedule that gives the
  cancellation its five stages and the finish its three brings both calls to a result, leaves the run
  terminal, and gives the caller of the start the summary of the stored run or the exceeded evidence
  limit. The caller of the cancellation receives the summary of the stored run as well, except in
  exactly the orders that begin with one access of each call: then the registration has been dropped
  when the cancellation looks it up and the run it read was still running, so that it answers with a
  conflict and has signalled nothing.\<close>

theorem cancel_finish_race:
  assumes "workflow_inv (rn_store rn)" and "fl_active fl = r" and "stored rn (wr_id r) = Some r" and "opened r"
    and "collector_ok r (fl_evidence fl)" and "\<not> poisoned (rn_cancellations rn)"
    and "bt_get (guarded (rn_cancellations rn)) (wr_id r) = Some (fl_token fl)"
    and "5 \<le> count_list schedule True" and "3 \<le> count_list schedule False"
  shows "\<exists>v cancelled finished rn'.
      race env (CancelRead (rc_tenant_id (wr_context r)) (wr_id r), Returned fl outcome, rn) schedule
        = (CancelDone cancelled, Finished (Some finished), rn')
    \<and> stored rn' (wr_id r) = Some v \<and> is_terminal (wr_status v)
    \<and> (finished = Inr (run_summary_from v) \<or> finished = Inl WfLimitExceeded)
    \<and> cancelled = (if schedule ! 0 \<noteq> schedule ! 1 then Inl WfConflict else Inr (run_summary_from v))
    \<and> (cancelled = Inl WfConflict \<longrightarrow> rn_signalled rn' = rn_signalled rn)"
proof -
  obtain a b bs where schedule: "schedule = a # b # bs"
    using assms(8) by (cases schedule; cases "tl schedule") (auto split: if_splits)
  let ?p = "(CancelRead (rc_tenant_id (wr_context r)) (wr_id r), Returned fl outcome, rn)"
  obtain c x rn' where race: "race env ?p schedule = (c, x, rn')" by (metis prod_cases3)
  have "race env ?p schedule = race env (race env ?p [a, b]) bs" by (simp only: schedule race_simps)
  moreover have "race_inv (a \<noteq> b) fl (rn_signalled rn) (race env ?p [a, b])" by (rule race_opening [OF assms(1-7)])
  ultimately have "race_inv (a \<noteq> b) fl (rn_signalled rn) (c, x, rn')"
    using race_keeps_inv [of fl "a \<noteq> b" "rn_signalled rn" "race env ?p [a, b]" env bs] assms(2,4,5) race by simp
  moreover obtain cancelled res where "c = CancelDone cancelled" "x = Finished res"
    using race_ends [OF race] assms(8,9) by auto
  ultimately show ?thesis using race assms(2) by (auto simp: schedule closed_as_def)
qed

theorem cancel_finish_race_witness:
  "\<exists>fl rn v finished rn' finished' rn''.
     race (demo_env 100) (CancelRead ''t'' ''run-1'', Returned fl (Inr ''d''), rn) [True, True, True, True, True, False, False, False]
       = (CancelDone (Inr (run_summary_from v)), Finished (Some finished), rn')
     \<and> stored rn' ''run-1'' = Some v \<and> is_terminal (wr_status v)
     \<and> race (demo_env 100) (CancelRead ''t'' ''run-1'', Returned fl (Inr ''d''), rn) [True, False, True, True, True, True, False, False]
       = (CancelDone (Inl WfConflict), Finished (Some finished'), rn'')"
proof -
  obtain c where c: "collector_ok demo_started c" using collector_new_ok [OF demo_started_ok(1)] by metis
  define rn where "rn = register (runner_new (run workflow_step (mutex_new workflow_state_default) demo_history)) ''run-1'' 1"
  define fl where "fl = \<lparr>fl_active = demo_started, fl_token = 1, fl_request = \<lparr>ar_context = demo_context, ar_agent_id = ''a'',
    ar_input = [], ar_attempt_id = ''attempt-1'', ar_ceiling = demo_ceiling, ar_policy_decision_digest = []\<rparr>, fl_evidence = c\<rparr>"
  have inv: "workflow_inv (rn_store rn)" using wstore.run_inv [OF workflow_inv_new] by (simp add: rn_def runner_new_def)
  have facts: "fl_active fl = demo_started" "stored rn (wr_id demo_started) = Some demo_started"
    "opened demo_started" "collector_ok demo_started (fl_evidence fl)" "\<not> poisoned (rn_cancellations rn)"
    "bt_get (guarded (rn_cancellations rn)) (wr_id demo_started) = Some (fl_token fl)"
    using demo_started_ok c
    by (simp_all add: rn_def runner_new_def demo_history_run register_def fl_def opened_def)
  note races = cancel_finish_race [OF inv facts, where env = "demo_env 100" and outcome = "Inr ''d''"]
  have "\<exists>v finished rn'. race (demo_env 100) (CancelRead (rc_tenant_id (wr_context demo_started)) (wr_id demo_started), Returned fl (Inr ''d''), rn)
      [True, True, True, True, True, False, False, False] = (CancelDone (Inr (run_summary_from v)), Finished (Some finished), rn')
      \<and> stored rn' (wr_id demo_started) = Some v \<and> is_terminal (wr_status v)"
    using races [of "[True, True, True, True, True, False, False, False]"] by (auto simp del: race_simps)
  moreover have "\<exists>finished rn'. race (demo_env 100) (CancelRead (rc_tenant_id (wr_context demo_started)) (wr_id demo_started), Returned fl (Inr ''d''), rn)
      [True, False, True, True, True, True, False, False] = (CancelDone (Inl WfConflict), Finished (Some finished), rn')"
    using races [of "[True, False, True, True, True, True, False, False]"] by (auto simp del: race_simps)
  ultimately show ?thesis unfolding demo_started_ok(3,4) by (intro exI [of _ fl] exI [of _ rn]) blast
qed

end
