(* ===== verification/Workflow_Machine.thy ===== *)
theory Workflow_Machine
  imports Workflow_Stages "HOL-Library.Multiset"
begin

text \<open>
  Concurrent calls of the runner: a pool of suspended calls over one runner, and a step relation in
  which any call may take its next stage, each stage making one access to shared state. The result
  is that no run is left behind: a run that is not terminal belongs to a suspended call, or to one
  whose future was dropped, and a registration to a call that has yet to drop it.
\<close>

section \<open>The machine\<close>

datatype thread = Execution execute_stage | Cancellation cancel_stage

record machine =
  mc_runner :: runner
  mc_threads :: "thread multiset"
  mc_dropped :: "string set"

text \<open>
  \<open>created\<close> is a start that creates its run, \<open>executed\<close> the next stage of an execution, \<open>emitted\<close> and
  \<open>answered\<close> what the invocation does while it is awaited, \<open>dropped\<close> the drop of the future while it
  awaits (which drops the registration), \<open>asked\<close> and \<open>cancelled\<close> the stages of a cancellation, and
  \<open>ended\<close> a call that returns its result. Starts that are refused, and reads, change nothing.
\<close>

inductive runner_step :: "workflow_env \<Rightarrow> machine \<Rightarrow> machine \<Rightarrow> bool" for env where
  created: "start_prepare env context wid version key input policy = Inr ps
    \<Longrightarrow> create_or_return (rn_store rn) (ps_identity ps) (ps_run ps) = (Inr (Created r), store)
    \<Longrightarrow> runner_step env \<lparr>mc_runner = rn, mc_threads = T, mc_dropped = D\<rparr>
      \<lparr>mc_runner = rn\<lparr>rn_store := store\<rparr>, mc_threads = add_mset (Execution (Starting ps r)) T, mc_dropped = D\<rparr>"
| executed: "execute_step env instant_ok rn x = (x', rn')
    \<Longrightarrow> runner_step env \<lparr>mc_runner = rn, mc_threads = add_mset (Execution x) T, mc_dropped = D\<rparr>
      \<lparr>mc_runner = rn', mc_threads = add_mset (Execution x') T, mc_dropped = D\<rparr>"
| emitted: "invocation_evidence_new kind data = Inr item
    \<Longrightarrow> runner_step env \<lparr>mc_runner = rn, mc_threads = add_mset (Execution (Invoking fl)) T, mc_dropped = D\<rparr>
      \<lparr>mc_runner = rn, mc_threads = add_mset (Execution (Invoking (fl\<lparr>fl_evidence := snd (emit (fl_evidence fl) item)\<rparr>))) T,
       mc_dropped = D\<rparr>"
| answered: "runner_step env \<lparr>mc_runner = rn, mc_threads = add_mset (Execution (Invoking fl)) T, mc_dropped = D\<rparr>
      \<lparr>mc_runner = rn, mc_threads = add_mset (Execution (Returned fl outcome)) T, mc_dropped = D\<rparr>"
| dropped: "runner_step env \<lparr>mc_runner = rn, mc_threads = add_mset (Execution (Invoking fl)) T, mc_dropped = D\<rparr>
      \<lparr>mc_runner = drop_registration rn (wr_id (fl_active fl)) (fl_token fl), mc_threads = T,
       mc_dropped = insert (wr_id (fl_active fl)) D\<rparr>"
| asked: "runner_step env \<lparr>mc_runner = rn, mc_threads = T, mc_dropped = D\<rparr>
      \<lparr>mc_runner = rn, mc_threads = add_mset (Cancellation (CancelRead tenant rid)) T, mc_dropped = D\<rparr>"
| cancelled: "cancel_step rn c = (c', rn')
    \<Longrightarrow> runner_step env \<lparr>mc_runner = rn, mc_threads = add_mset (Cancellation c) T, mc_dropped = D\<rparr>
      \<lparr>mc_runner = rn', mc_threads = add_mset (Cancellation c') T, mc_dropped = D\<rparr>"
| ended: "th \<in> {Execution (Finished res), Cancellation (CancelDone answer)}
    \<Longrightarrow> runner_step env \<lparr>mc_runner = rn, mc_threads = add_mset th T, mc_dropped = D\<rparr>
      \<lparr>mc_runner = rn, mc_threads = T, mc_dropped = D\<rparr>"

inductive reachable :: "workflow_env \<Rightarrow> machine \<Rightarrow> bool" for env where
  initial: "reachable env \<lparr>mc_runner = runner_new (mutex_new workflow_state_default), mc_threads = {#}, mc_dropped = {}\<rparr>"
| step: "reachable env m \<Longrightarrow> runner_step env m m' \<Longrightarrow> reachable env m'"

section \<open>The invariant\<close>

text \<open>The call that will bring a stored run to an end.\<close>

fun owns :: "thread \<Rightarrow> workflow_run \<Rightarrow> bool" where
  "owns (Execution (Starting ps q)) r \<longleftrightarrow> wr_status r = Pending \<and> wr_id q = wr_id r \<and> wr_context q = wr_context r"
| "owns (Execution (Numbering ps aid q c)) r \<longleftrightarrow> q = r"
| "owns (Execution (Registering ps aid q c token)) r \<longleftrightarrow> q = r"
| "owns (Execution (Invoking fl)) r \<longleftrightarrow> fl_active fl = r"
| "owns (Execution (Deregistering q token)) r \<longleftrightarrow> q = r"
| "owns (Execution (Terminalizing q reason e)) r \<longleftrightarrow> q = r"
| "owns (Execution (Returned fl outcome)) r \<longleftrightarrow> fl_active fl = r"
| "owns (Execution (Closing q t err)) r \<longleftrightarrow> q = r"
| "owns _ r \<longleftrightarrow> False"

fun thread_ok :: "thread \<Rightarrow> bool" where
  "thread_ok (Execution (Starting ps q)) \<longleftrightarrow> wr_revision q = 0
     \<and> validate_invocation_policy (ip_ceiling (ps_policy ps)) (ip_policy_decision_digest (ps_policy ps)) = Inr ()"
| "thread_ok (Execution (Numbering ps aid q c)) \<longleftrightarrow> opened q \<and> collector_ok q c"
| "thread_ok (Execution (Registering ps aid q c token)) \<longleftrightarrow> opened q \<and> collector_ok q c"
| "thread_ok (Execution (Invoking fl)) \<longleftrightarrow> opened (fl_active fl) \<and> collector_ok (fl_active fl) (fl_evidence fl)"
| "thread_ok (Execution (Deregistering q token)) \<longleftrightarrow> opened q"
| "thread_ok (Execution (Terminalizing q reason e)) \<longleftrightarrow> opened q \<and> length reason \<le> 32"
| "thread_ok (Execution (Returned fl outcome)) \<longleftrightarrow> opened (fl_active fl) \<and> collector_ok (fl_active fl) (fl_evidence fl)"
| "thread_ok (Execution (Closing q t err)) \<longleftrightarrow> opened q \<and> transition_is_valid q Running t"
| "thread_ok _ \<longleftrightarrow> True"

definition machine_inv :: "machine \<Rightarrow> bool" where
  "machine_inv m \<longleftrightarrow> workflow_inv (rn_store (mc_runner m)) \<and> (\<forall>th\<in>#mc_threads m. thread_ok th)
     \<and> (\<forall>rid r. stored (mc_runner m) rid = Some r \<longrightarrow> 56 \<le> wr_max_evidence_bytes r
          \<and> (is_terminal (wr_status r) \<or> (\<exists>th\<in>#mc_threads m. owns th r) \<or> rid \<in> mc_dropped m))"

lemma machine_invD:
  assumes "machine_inv \<lparr>mc_runner = rn, mc_threads = T, mc_dropped = D\<rparr>"
  shows "workflow_inv (rn_store rn)" and "th \<in># T \<Longrightarrow> thread_ok th"
    and "stored rn rid = Some r \<Longrightarrow> 56 \<le> wr_max_evidence_bytes r \<and> wr_id r = rid \<and> run_ok r"
    and "stored rn rid = Some r \<Longrightarrow> is_terminal (wr_status r) \<or> (\<exists>th\<in>#T. owns th r) \<or> rid \<in> D"
  using assms by (auto simp: machine_inv_def workflow_inv_def state_inv_def)

section \<open>Stages that close runs\<close>

text \<open>The store after a stage that can only close runs.\<close>

definition shrinks :: "in_memory_workflow_store \<Rightarrow> in_memory_workflow_store \<Rightarrow> bool" where
  "shrinks s s' \<longleftrightarrow> workflow_inv s'
     \<and> (\<forall>rid r'. bt_get (ws_runs (guarded s')) rid = Some r' \<longrightarrow>
          (\<exists>r. bt_get (ws_runs (guarded s)) rid = Some r \<and> wr_max_evidence_bytes r = wr_max_evidence_bytes r'
            \<and> (is_terminal (wr_status r') \<or> r = r')))"

lemma shrinks_refl: "workflow_inv s \<Longrightarrow> shrinks s s"
  by (simp add: shrinks_def)

lemma running_transition_terminal: "transition_is_valid r Running t \<Longrightarrow> is_terminal (tr_status t)"
  by (auto simp: transition_is_valid_iff is_terminal_def elim: attempt_valid_cases)

lemma store_transition_shrinks:
  assumes "workflow_inv s" and "store_transition s tenant rid revision Running t = (res, s')"
  shows "shrinks s s'"
proof -
  have "workflow_inv s'" using store_transition_inv [OF assms(1), of tenant rid revision Running t] assms(2) by simp
  with assms show ?thesis
    by (auto simp: shrinks_def workflow_inv_def store_transition_def transition_state_def
        running_transition_terminal split: option.splits if_splits)
qed

lemma setup_failed_shrinks:
  assumes "workflow_inv (rn_store rn)" and "setup_failed rn r reason e = (res, rn')"
  shows "shrinks (rn_store rn) (rn_store rn')"
  using assms shrinks_refl store_transition_shrinks [OF assms(1)]
  by (auto simp: setup_failed_def terminalize_setup_failure_def split: option.splits prod.splits)

lemma cancel_step_shrinks:
  assumes "workflow_inv (rn_store rn)" and "cancel_step rn c = (c', rn')"
  shows "shrinks (rn_store rn) (rn_store rn')"
  using assms shrinks_refl store_transition_shrinks [OF assms(1)] by (cases c) (auto split: prod.splits)

lemma replace_inv:
  assumes "machine_inv \<lparr>mc_runner = rn, mc_threads = add_mset th T, mc_dropped = D\<rparr>"
    and "shrinks (rn_store rn) (rn_store rn')" and "thread_ok th'"
    and "\<And>r. owns th r \<Longrightarrow> stored rn (wr_id r) = Some r \<Longrightarrow> stored rn' (wr_id r) = Some r \<Longrightarrow> is_terminal (wr_status r) \<or> owns th' r"
  shows "machine_inv \<lparr>mc_runner = rn', mc_threads = add_mset th' T, mc_dropped = D\<rparr>"
proof -
  note inv = machine_invD [OF assms(1)]
  have "is_terminal (wr_status r') \<or> (\<exists>th\<in>#add_mset th' T. owns th r') \<or> rid \<in> D" if r': "stored rn' rid = Some r'" for rid r'
  proof -
    obtain r where r: "stored rn rid = Some r" "is_terminal (wr_status r') \<or> r = r'"
      using assms(2) r' by (auto simp: shrinks_def)
    show ?thesis
    proof (cases "r = r' \<and> owns th r")
      case True
      with assms(4) [of r] r r' inv(3) [OF r(1)] show ?thesis by auto
    next
      case False
      with r inv(4) [OF r(1)] show ?thesis by auto
    qed
  qed
  moreover have "56 \<le> wr_max_evidence_bytes r'" if "stored rn' rid = Some r'" for rid r'
    using assms(2) that inv(3) by (fastforce simp: shrinks_def)
  moreover have "workflow_inv (rn_store rn')" using assms(2) by (simp add: shrinks_def)
  ultimately show ?thesis using inv(2) assms(3) by (auto simp: machine_inv_def)
qed

lemma still_inv:
  assumes "machine_inv \<lparr>mc_runner = rn, mc_threads = add_mset th T, mc_dropped = D\<rparr>"
    and "rn_store rn' = rn_store rn" and "thread_ok th'" and "\<And>r. owns th r \<Longrightarrow> owns th' r"
  shows "machine_inv \<lparr>mc_runner = rn', mc_threads = add_mset th' T, mc_dropped = D\<rparr>"
  by (rule replace_inv [OF assms(1)]) (use assms shrinks_refl [OF machine_invD(1) [OF assms(1)]] in auto)

section \<open>Preservation\<close>

lemma created_inv:
  assumes "machine_inv \<lparr>mc_runner = rn, mc_threads = T, mc_dropped = D\<rparr>"
    and "start_prepare env context wid version key input policy = Inr ps"
    and "create_or_return (rn_store rn) (ps_identity ps) (ps_run ps) = (Inr (Created r), store)"
    and "\<forall>w v d. env_resolve env w v = Inr (Some d) \<longrightarrow> 56 \<le> wb_max_evidence_bytes (wd_budget d)"
  shows "machine_inv \<lparr>mc_runner = rn\<lparr>rn_store := store\<rparr>, mc_threads = add_mset (Execution (Starting ps r)) T, mc_dropped = D\<rparr>"
proof -
  note inv = machine_invD [OF assms(1)] and prepared = start_prepare_key [OF assms(2)]
  have r: "r = ps_run ps" "bt_get (ws_runs (guarded store)) = (stored rn)(wr_id r \<mapsto> r)"
    using assms(3) by (auto simp: create_or_return_def create_state_def result_simps split: option.splits if_splits)
  have "workflow_inv store"
    using workflow_step_inv [OF inv(1), of "OpCreate (ps_identity ps) (ps_run ps)"] assms(3) by simp
  moreover have "56 \<le> wr_max_evidence_bytes r" using prepared(5) assms(4) r(1) by auto
  moreover have "wr_status r = Pending" "wr_revision r = 0" using prepared(2) r(1) by (auto simp: fresh_run_def)
  ultimately show ?thesis using inv(2,3,4) prepared(3,4) r(2) by (auto simp: machine_inv_def)
qed

lemma execute_start_cases:
  assumes "workflow_inv (rn_store rn)" and "sha_ok env" and "execute_start env rn ps q = (res, rn')"
  obtains (applied) aid r active where "res = Inr (aid, active)" and "stored rn (wr_id q) = Some r"
      and "rc_tenant_id (wr_context r) = rc_tenant_id (wr_context q)" and "wr_revision r = wr_revision q"
      and "transition_is_valid r Pending (started_transition aid (ps_definition ps) (ps_policy ps))"
      and "active = apply_transition r (started_transition aid (ps_definition ps) (ps_policy ps))"
      and "stored rn' = (stored rn)(wr_id q \<mapsto> active)" and "workflow_inv (rn_store rn')"
  | (refused) e aid where "res = Inl e" and "rn' = rn"
      and "\<forall>r. stored rn (wr_id q) = Some r \<longrightarrow> rc_tenant_id (wr_context r) = rc_tenant_id (wr_context q)
        \<longrightarrow> wr_revision r = wr_revision q
        \<longrightarrow> \<not> transition_is_valid r Pending (started_transition aid (ps_definition ps) (ps_policy ps))"
proof -
  obtain aid where aid: "derived_id env ''attempt'' (wr_id q @ '':1'') = Inr aid" using attempt_id_ok [OF assms(2)] by blast
  have free: "\<not> poisoned (rn_store rn)" using assms(1) by (simp add: workflow_inv_def)
  have same: "rn\<lparr>rn_store := rn_store rn\<rparr> = rn" "(rn_store rn)\<lparr>guarded := guarded (rn_store rn)\<rparr> = rn_store rn" by simp_all
  let ?t = "started_transition aid (ps_definition ps) (ps_policy ps)"
  show thesis
  proof (cases "\<exists>r. stored rn (wr_id q) = Some r \<and> rc_tenant_id (wr_context r) = rc_tenant_id (wr_context q)
      \<and> wr_revision r = wr_revision q \<and> transition_is_valid r Pending ?t")
    case True
    then obtain r where r: "stored rn (wr_id q) = Some r" "rc_tenant_id (wr_context r) = rc_tenant_id (wr_context q)"
        "wr_revision r = wr_revision q" "transition_is_valid r Pending ?t" by blast
    have "workflow_inv (rn_store rn')"
      using execute_start_keeps [of rn env ps q] assms by (simp add: keeps_def)
    with r aid free assms(3) show thesis
      by (intro applied) (auto simp: execute_start_def store_transition_def transition_state_def)
  next
    case False
    with aid free assms(3) same have "\<exists>e. res = Inl e \<and> rn' = rn"
      by (auto simp: execute_start_def store_transition_def transition_state_def split: option.splits if_splits)
    with False refused show thesis by blast
  qed
qed

lemma started_opened:
  assumes "run_ok r" and "56 \<le> wr_max_evidence_bytes r"
    and "transition_is_valid r Pending (started_transition aid d p)"
  shows "opened (apply_transition r (started_transition aid d p))"
proof -
  have "wr_status r = Pending" using assms(3) by (simp add: transition_is_valid_iff)
  then have "wr_events r = []" using assms(1) by (auto simp: run_ok_def attempt_fits_def split: option.splits)
  then show ?thesis using apply_transition_ok [OF assms(1,3)] assms(2)
    by (simp add: opened_def started_transition_def)
qed

lemma started_inv:
  assumes "machine_inv \<lparr>mc_runner = rn, mc_threads = add_mset (Execution (Starting ps q)) T, mc_dropped = D\<rparr>" and "sha_ok env"
    and "execute_start env rn ps q = (Inr (aid, active), rn')" and "collector_ok active c"
  shows "machine_inv \<lparr>mc_runner = rn', mc_threads = add_mset (Execution (Numbering ps aid active c)) T, mc_dropped = D\<rparr>"
proof -
  note inv = machine_invD [OF assms(1)]
  show ?thesis
  proof (rule execute_start_cases [OF inv(1) assms(2,3)])
    fix aid' r active'
    assume step: "Inr (aid, active) = (Inr (aid', active') :: (string \<times> workflow_run, workflow_error) result)"
      "stored rn (wr_id q) = Some r"
      "transition_is_valid r Pending (started_transition aid' (ps_definition ps) (ps_policy ps))"
      "active' = apply_transition r (started_transition aid' (ps_definition ps) (ps_policy ps))"
      "stored rn' = (stored rn)(wr_id q \<mapsto> active')" "workflow_inv (rn_store rn')"
    have "opened active'" using started_opened [OF _ _ step(3)] inv(3) [OF step(2)] step(4) by simp
    moreover have "is_terminal (wr_status x) \<or> (\<exists>th\<in>#add_mset (Execution (Numbering ps aid' active' c)) T. owns th x) \<or> rid \<in> D"
      if "stored rn rid = Some x" "rid \<noteq> wr_id q" for rid x
      using inv(4) [OF that(1)] inv(3) [OF that(1)] that(2) by auto
    ultimately show ?thesis using step inv(2,3) assms(4) by (auto simp: machine_inv_def opened_def)
  qed simp
qed

lemma not_started_inv:
  assumes "machine_inv \<lparr>mc_runner = rn, mc_threads = add_mset (Execution (Starting ps q)) T, mc_dropped = D\<rparr>" and "sha_ok env"
    and "execute_start env rn ps q = (Inl e, rn')"
  shows "machine_inv \<lparr>mc_runner = rn', mc_threads = add_mset (Execution (Finished res)) T, mc_dropped = D\<rparr>"
proof -
  note inv = machine_invD [OF assms(1)]
  have ok: "thread_ok (Execution (Starting ps q))" by (rule inv(2)) simp
  show ?thesis
  proof (rule execute_start_cases [OF inv(1) assms(2,3)])
    fix aid
    assume step: "rn' = rn" "\<forall>r. stored rn (wr_id q) = Some r \<longrightarrow> rc_tenant_id (wr_context r) = rc_tenant_id (wr_context q)
        \<longrightarrow> wr_revision r = wr_revision q
        \<longrightarrow> \<not> transition_is_valid r Pending (started_transition aid (ps_definition ps) (ps_policy ps))"
    have "\<not> owns (Execution (Starting ps q)) r" if "stored rn (wr_id r) = Some r" for r
    proof
      assume "owns (Execution (Starting ps q)) r"
      then have own: "wr_status r = Pending" "wr_id q = wr_id r" "wr_context q = wr_context r" by simp_all
      have r: "run_ok r" "7 \<le> wr_max_evidence_bytes r" using inv(3) [OF that] by auto
      have "wr_revision r = 0" using r(1) own(1) by (simp add: run_ok_def)
      moreover have "transition_is_valid r Pending (started_transition aid (ps_definition ps) (ps_policy ps))"
        using started_valid [OF r(1) own(1) r(2)] ok by simp
      ultimately show False using step(2) own that ok by auto
    qed
    then show ?thesis by (intro replace_inv [OF assms(1)]) (use step(1) shrinks_refl [OF inv(1)] in auto)
  qed simp
qed

text \<open>The two stages that close the run of their call.\<close>

lemma terminalized_inv:
  assumes "machine_inv \<lparr>mc_runner = rn, mc_threads = add_mset (Execution (Terminalizing q reason e)) T, mc_dropped = D\<rparr>"
    and "setup_failed rn q reason e = (res, rn')"
  shows "machine_inv \<lparr>mc_runner = rn', mc_threads = add_mset (Execution (Finished res)) T, mc_dropped = D\<rparr>"
proof (rule replace_inv [OF assms(1)])
  have ok: "opened q" "length reason \<le> 32" using machine_invD(2) [OF assms(1), of "Execution (Terminalizing q reason e)"] by simp_all
  note inv = machine_invD(1) [OF assms(1)]
  show "shrinks (rn_store rn) (rn_store rn')" by (rule setup_failed_shrinks [OF inv assms(2)])
  fix r
  assume "owns (Execution (Terminalizing q reason e)) r" and here: "stored rn (wr_id r) = Some r" "stored rn' (wr_id r) = Some r"
  then have "q = r" by simp
  with here ok inv assms(2) show "is_terminal (wr_status r) \<or> owns (Execution (Finished res)) r"
    by (elim setup_failed_closes [where ?'a = run_summary, of rn r reason e]) (auto simp: is_terminal_def)
qed simp

lemma closed_inv:
  assumes "machine_inv \<lparr>mc_runner = rn, mc_threads = add_mset (Execution (Closing q t err)) T, mc_dropped = D\<rparr>"
    and "execute_step env instant_ok rn (Closing q t err) = (x', rn')"
  shows "machine_inv \<lparr>mc_runner = rn', mc_threads = add_mset (Execution x') T, mc_dropped = D\<rparr>"
proof (rule replace_inv [OF assms(1)])
  have ok: "opened q" "transition_is_valid q Running t" using machine_invD(2) [OF assms(1), of "Execution (Closing q t err)"] by simp_all
  note inv = machine_invD(1) [OF assms(1)]
  show "shrinks (rn_store rn) (rn_store rn')" using assms(2) store_transition_shrinks [OF inv] by (auto split: prod.splits)
  show "thread_ok (Execution x')" using assms(2) by (auto split: prod.splits sum.splits transition_result.splits)
  fix r
  assume "owns (Execution (Closing q t err)) r" and here: "stored rn (wr_id r) = Some r" "stored rn' (wr_id r) = Some r"
  then have q: "q = r" by simp
  obtain s' v' where "store_transition (rn_store rn) (rc_tenant_id (wr_context r)) (wr_id r) (wr_revision r) Running t
      = (Inr (if r = r then Applied v' else TransitionConflict), s')" "bt_get (ws_runs (guarded s')) (wr_id r) = Some v'" "closed_as r v'"
    using closing_once [OF inv here(1) _ ok(1) [unfolded q] ok(2) [unfolded q]] by metis
  with assms(2) q here(2) show "is_terminal (wr_status r) \<or> owns (Execution x') r" by (auto simp: closed_as_def)
qed

lemma executed_inv:
  assumes "machine_inv \<lparr>mc_runner = rn, mc_threads = add_mset (Execution x) T, mc_dropped = D\<rparr>" and "sha_ok env"
    and "execute_step env instant_ok rn x = (x', rn')"
  shows "machine_inv \<lparr>mc_runner = rn', mc_threads = add_mset (Execution x') T, mc_dropped = D\<rparr>"
proof -
  have ok: "thread_ok (Execution x)" by (rule machine_invD(2) [OF assms(1)]) simp
  show ?thesis
  proof (cases x)
    case (Starting ps q)
    obtain res rn1 where start: "execute_start env rn ps q = (res, rn1)" by fastforce
    show ?thesis
    proof (cases res)
      case (Inl e)
      with not_started_inv [OF assms(1) [unfolded Starting] assms(2)] start assms(3) Starting show ?thesis by auto
    next
      case (Inr p)
      obtain aid active where p: "p = (aid, active)" by fastforce
      have "run_ok active"
      proof (rule execute_start_cases [OF machine_invD(1) [OF assms(1)] assms(2) start])
        fix aid' r active'
        assume step: "res = Inr (aid', active')" "stored rn (wr_id q) = Some r"
          "transition_is_valid r Pending (started_transition aid' (ps_definition ps) (ps_policy ps))"
          "active' = apply_transition r (started_transition aid' (ps_definition ps) (ps_policy ps))"
        with apply_transition_ok [OF _ step(3)] machine_invD(3) [OF assms(1) step(2)] Inr p show "run_ok active" by auto
      qed (use Inr in simp)
      from collector_new_ok [OF this] obtain c where
        "evidence_collector_new (wr_max_evidence_bytes active) (wr_events active) = Inr c" "collector_ok active c" by metis
      with started_inv [OF assms(1) [unfolded Starting] assms(2)] start assms(3) Starting Inr p show ?thesis by auto
    qed
  next
    case (Returned fl outcome)
    obtain t err where "closing_transition (fl_active fl) outcome (fl_evidence fl) = (Some t, err)" "transition_is_valid (fl_active fl) Running t"
      by (rule closing_valid [of "fl_active fl" "fl_evidence fl"]) (use ok Returned in simp_all)
    with assms(3) Returned ok show ?thesis by (intro still_inv [OF assms(1)]) auto
  next
    case (Terminalizing q reason e)
    with assms(3) terminalized_inv [OF assms(1) [unfolded Terminalizing]] show ?thesis by (auto simp: map_prod_def split: prod.splits)
  next
    case (Closing q t err)
    with assms(3) closed_inv [OF assms(1) [unfolded Closing]] show ?thesis by auto
  qed (use assms(3) ok in \<open>auto simp: flight_of_def intro!: still_inv [OF assms(1)] split: option.splits if_splits sum.splits\<close>)
qed

lemma runner_step_inv:
  assumes "runner_step env m m'" and "machine_inv m" and "sha_ok env"
    and "\<forall>w v d. env_resolve env w v = Inr (Some d) \<longrightarrow> 56 \<le> wb_max_evidence_bytes (wd_budget d)"
  shows "machine_inv m'"
  using assms
proof (induction rule: runner_step.induct)
  case (emitted kind data item rn fl T D)
  then show ?case using emit_ok [OF _ evidence_new_kind] by (auto simp: machine_inv_def)
next
  case (answered rn fl T D outcome)
  then show ?case using machine_invD(2) [OF answered(1), of "Execution (Invoking fl)"] by (intro still_inv [OF answered(1)]) auto
next
  case (dropped rn fl T D)
  have "wr_id r = rid" if "stored rn rid = Some r" for rid r
    using machine_invD(3) [OF dropped(1)] that by blast
  with machine_invD(3,4) [OF dropped(1)]
  have "is_terminal (wr_status r) \<or> (\<exists>th\<in>#T. owns th r) \<or> rid \<in> insert (wr_id (fl_active fl)) D"
    if "stored rn rid = Some r" for rid r
    using that by fastforce
  with dropped(1) show ?case by (auto simp: machine_inv_def)
next
  case (cancelled rn c c' rn' T D)
  then show ?case by (intro replace_inv [OF cancelled(2) cancel_step_shrinks [OF machine_invD(1) [OF cancelled(2)] cancelled(1)]]) auto
next
  case (asked rn T D tenant rid)
  then show ?case by (auto simp: machine_inv_def)
next
  case (ended th res answer rn T D)
  then have "\<not> owns th r" for r by auto
  with machine_invD(4) [OF ended(2)] have "is_terminal (wr_status r) \<or> (\<exists>th\<in>#T. owns th r) \<or> rid \<in> D"
    if "stored rn rid = Some r" for rid r using that by fastforce
  with ended(2) show ?case by (simp add: machine_inv_def)
qed (blast intro: created_inv executed_inv)+

lemma reachable_inv:
  assumes "reachable env m" and "sha_ok env"
    and "\<forall>w v d. env_resolve env w v = Inr (Some d) \<longrightarrow> 56 \<le> wb_max_evidence_bytes (wd_budget d)"
  shows "machine_inv m"
  using assms
proof (induction rule: reachable.induct)
  case initial
  then show ?case using workflow_inv_new by (simp add: machine_inv_def runner_new_def workflow_state_default_def)
next
  case (step m m')
  then show ?case using runner_step_inv by blast
qed

section \<open>Registrations\<close>

text \<open>The call that has a registration and will drop it.\<close>

fun holds :: "thread \<Rightarrow> string \<Rightarrow> u64 \<Rightarrow> bool" where
  "holds (Execution (Invoking fl)) rid token \<longleftrightarrow> wr_id (fl_active fl) = rid \<and> fl_token fl = token"
| "holds (Execution (Returned fl outcome)) rid token \<longleftrightarrow> wr_id (fl_active fl) = rid \<and> fl_token fl = token"
| "holds (Execution (Deregistering q own)) rid token \<longleftrightarrow> wr_id q = rid \<and> own = token"
| "holds _ rid token \<longleftrightarrow> False"

abbreviation registered :: "runner \<Rightarrow> string \<Rightarrow> u64 option" where
  "registered rn \<equiv> bt_get (guarded (rn_cancellations rn))"

definition registrations_inv :: "machine \<Rightarrow> bool" where
  "registrations_inv m \<longleftrightarrow> \<not> poisoned (rn_cancellations (mc_runner m))
     \<and> (\<forall>rid token. registered (mc_runner m) rid = Some token \<longrightarrow> (\<exists>th\<in>#mc_threads m. holds th rid token))"

lemma execute_start_registry: "rn_cancellations (snd (execute_start env rn ps r)) = rn_cancellations rn"
  by (auto simp: execute_start_def split: sum.split prod.split)

lemma setup_failed_registry: "rn_cancellations (snd (setup_failed rn r reason e)) = rn_cancellations rn"
  by (auto simp: setup_failed_def terminalize_setup_failure_def split: option.split prod.split)

lemma cancel_step_registry: "cancel_step rn c = (c', rn') \<Longrightarrow> rn_cancellations rn' = rn_cancellations rn"
  by (cases c) (auto split: prod.splits)

lemma drop_registered:
  "\<not> poisoned (rn_cancellations rn) \<Longrightarrow> registered (drop_registration rn rid token) k = Some x
     \<longleftrightarrow> registered rn k = Some x \<and> (k, x) \<noteq> (rid, token)"
  "poisoned (rn_cancellations (drop_registration rn rid token)) = poisoned (rn_cancellations rn)"
  by (auto simp: drop_registration_def split: if_splits)

lemma register_registered:
  "registered (register rn rid token) = (registered rn)(rid \<mapsto> token)"
  "poisoned (rn_cancellations (register rn rid token)) = poisoned (rn_cancellations rn)"
  by (auto simp: register_def)

text \<open>A stage that keeps the registrations of all others: an entry afterwards is its own, or it was there
  before and the stage did not have it or has it still.\<close>

definition keeps_registered :: "thread \<Rightarrow> runner \<Rightarrow> thread \<Rightarrow> runner \<Rightarrow> bool" where
  "keeps_registered th rn th' rn' \<longleftrightarrow> poisoned (rn_cancellations rn') = poisoned (rn_cancellations rn)
     \<and> (\<forall>k x. registered rn' k = Some x \<longrightarrow> holds th' k x \<or> registered rn k = Some x \<and> \<not> holds th k x)"

lemma keeps_registered_inv:
  assumes "registrations_inv \<lparr>mc_runner = rn, mc_threads = add_mset th T, mc_dropped = D\<rparr>" and "keeps_registered th rn th' rn'"
  shows "registrations_inv \<lparr>mc_runner = rn', mc_threads = add_mset th' T, mc_dropped = D'\<rparr>"
proof -
  have "\<exists>h\<in>#add_mset th' T. holds h k x" if "registered rn' k = Some x" for k x
  proof (cases "holds th' k x")
    case False
    with assms(2) that have "registered rn k = Some x" "\<not> holds th k x" unfolding keeps_registered_def by blast+
    with assms(1) show ?thesis by (fastforce simp: registrations_inv_def)
  qed simp
  with assms show ?thesis by (simp add: registrations_inv_def keeps_registered_def)
qed

lemma unregistered_inv:
  assumes "registrations_inv \<lparr>mc_runner = rn, mc_threads = add_mset th T, mc_dropped = D\<rparr>" and "\<And>k x. \<not> holds th k x"
  shows "registrations_inv \<lparr>mc_runner = rn, mc_threads = T, mc_dropped = D'\<rparr>"
  using assms by (fastforce simp: registrations_inv_def)

lemma same_registered:
  assumes "registrations_inv \<lparr>mc_runner = rn, mc_threads = add_mset th T, mc_dropped = D\<rparr>"
    and "rn_cancellations rn' = rn_cancellations rn" and "\<And>k x. holds th k x \<Longrightarrow> holds th' k x"
  shows "registrations_inv \<lparr>mc_runner = rn', mc_threads = add_mset th' T, mc_dropped = D'\<rparr>"
  using assms by (auto intro!: keeps_registered_inv [OF assms(1)] simp: keeps_registered_def)

lemma execute_step_registry:
  assumes "execute_step env instant_ok rn x = (x', rn')" and "\<not> poisoned (rn_cancellations rn)"
  shows "keeps_registered (Execution x) rn (Execution x') rn' \<or> rn_cancellations rn' = rn_cancellations rn \<and> x' = x"
proof (cases x)
  case (Starting ps r)
  have "rn_cancellations rn' = rn_cancellations rn"
    using assms(1) execute_start_registry [of env rn ps r] by (auto simp: Starting split: prod.splits sum.splits)
  then show ?thesis by (simp add: keeps_registered_def Starting)
next
  case (Terminalizing r reason e)
  have "rn_cancellations rn' = rn_cancellations rn"
    using assms(1) setup_failed_registry [where ?'a = run_summary, of rn r reason e] by (auto simp: Terminalizing map_prod_def split: prod.splits)
  then show ?thesis by (simp add: keeps_registered_def Terminalizing)
next
  case (Registering ps aid r c token)
  then show ?thesis using assms
    by (auto simp: keeps_registered_def register_registered flight_of_def split: if_splits sum.splits)
qed (use assms in \<open>auto simp: keeps_registered_def drop_registered split: option.splits prod.splits\<close>)

lemma registrations_step:
  assumes "runner_step env m m'" and "registrations_inv m"
  shows "registrations_inv m'"
  using assms
proof (induction rule: runner_step.induct)
  case (executed instant_ok rn x x' rn' T D)
  then have "\<not> poisoned (rn_cancellations rn)" by (simp add: registrations_inv_def)
  from execute_step_registry [OF executed(1) this] show ?case
    using keeps_registered_inv [OF executed(2)] same_registered [OF executed(2)] by blast
next
  case (emitted kind data item rn fl T D)
  then show ?case by (intro same_registered [OF emitted(2)]) auto
next
  case (answered rn fl T D outcome)
  then show ?case by (intro same_registered [OF answered(1)]) auto
next
  case (dropped rn fl T D)
  have "keeps_registered (Execution (Invoking fl)) rn (Execution (Finished None)) (drop_registration rn (wr_id (fl_active fl)) (fl_token fl))"
    using dropped by (auto simp: keeps_registered_def drop_registered registrations_inv_def)
  from unregistered_inv [OF keeps_registered_inv [OF dropped(1) this]] show ?case by simp
next
  case (cancelled rn c c' rn' T D)
  then show ?case using cancel_step_registry [OF cancelled(1)] by (intro same_registered [OF cancelled(2)]) auto
next
  case (ended th res answer rn T D)
  then show ?case by (intro unregistered_inv [OF ended(2)]) auto
qed (auto simp: registrations_inv_def)

lemma reachable_registrations: "reachable env m \<Longrightarrow> registrations_inv m"
  by (induction rule: reachable.induct) (auto simp: registrations_inv_def runner_new_def dest: registrations_step)

lemma bt_get_empty: "(\<And>k. bt_get m k = None) \<Longrightarrow> m = []"
  by (metis list.exhaust map_of_eq_None_iff empty_iff image_is_empty list.set_cases set_empty equals0I)

section \<open>Property\<close>

text \<open>C8: No run is left behind. Calls of one runner interleave at every access to shared state, a
  start whose future is dropped while it awaits its invocation is remembered as dropped, and the
  rendered digest is 64 hexadecimal digits. If every definition of the catalog has an evidence
  budget of at least 56 bytes, a stored run that is not terminal is owned by a suspended call that
  has yet to close it, or its call was dropped; every cancellation registration is held by a
  suspended call that has yet to drop it; and once no call is suspended, no registration is left and
  every run whose call was not dropped is terminal.\<close>

theorem no_run_left_behind:
  assumes "reachable env m" and "sha_ok env"
    and "\<forall>w v d. env_resolve env w v = Inr (Some d) \<longrightarrow> 56 \<le> wb_max_evidence_bytes (wd_budget d)"
  shows "(\<forall>rid r. stored (mc_runner m) rid = Some r \<longrightarrow>
        is_terminal (wr_status r) \<or> (\<exists>th\<in>#mc_threads m. owns th r) \<or> rid \<in> mc_dropped m)
    \<and> (\<forall>rid token. registered (mc_runner m) rid = Some token \<longrightarrow> (\<exists>th\<in>#mc_threads m. holds th rid token))
    \<and> (mc_threads m = {#} \<longrightarrow> guarded (rn_cancellations (mc_runner m)) = []
        \<and> (\<forall>rid r. stored (mc_runner m) rid = Some r \<longrightarrow> rid \<notin> mc_dropped m \<longrightarrow> is_terminal (wr_status r)))"
proof -
  have held: "\<forall>rid token. registered (mc_runner m) rid = Some token \<longrightarrow> (\<exists>th\<in>#mc_threads m. holds th rid token)"
    using reachable_registrations [OF assms(1)] by (simp add: registrations_inv_def)
  then have "guarded (rn_cancellations (mc_runner m)) = []" if "mc_threads m = {#}"
    using that by (intro bt_get_empty) (metis empty_iff not_Some_eq set_mset_empty)
  moreover have "\<forall>rid r. stored (mc_runner m) rid = Some r \<longrightarrow>
      is_terminal (wr_status r) \<or> (\<exists>th\<in>#mc_threads m. owns th r) \<or> rid \<in> mc_dropped m"
    using reachable_inv [OF assms] by (simp add: machine_inv_def)
  ultimately show ?thesis using held by (metis empty_iff set_mset_empty)
qed

theorem no_run_left_behind_witness:
  "\<exists>m r. reachable (demo_env 100) m \<and> stored (mc_runner m) (''run-'' @ replicate 32 (CHR ''0'')) = Some r
     \<and> \<not> is_terminal (wr_status r) \<and> (\<exists>th\<in>#mc_threads m. owns th r)"
proof -
  have prep: "start_prepare (demo_env 100) demo_context ''w'' V1 ''k'' ''null'' default_policy = Inr (demo_prepared 100)"
    by (rule demo_start_prepare) simp_all
  let ?q = "ps_run (demo_prepared 100)"
  obtain store where store: "create_or_return (rn_store demo_runner) (ps_identity (demo_prepared 100)) ?q
      = (Inr (Created ?q), store)" "bt_get (ws_runs (guarded store)) (wr_id ?q) = Some ?q"
    using start_prepare_key(2) [OF prep]
    by (simp add: create_or_return_def create_state_def demo_runner_def runner_new_def workflow_state_default_def
        bt_contains_get)
  let ?m = "\<lparr>mc_runner = demo_runner\<lparr>rn_store := store\<rparr>, mc_threads = {#Execution (Starting (demo_prepared 100) ?q)#}, mc_dropped = {}\<rparr>"
  have m: "reachable (demo_env 100) ?m"
    using reachable.step [OF reachable.initial created [OF prep store(1) [unfolded demo_runner_def]]]
    by (simp add: demo_runner_def)
  moreover have here: "stored (mc_runner ?m) (wr_id ?q) = Some ?q" using store(2) by simp
  moreover have "wr_id ?q = ''run-'' @ replicate 32 (CHR ''0'')" "\<not> is_terminal (wr_status ?q)"
    by (simp_all add: demo_prepared_def is_terminal_def)
  moreover have "\<forall>w v d. env_resolve (demo_env 100) w v = Inr (Some d) \<longrightarrow> 56 \<le> wb_max_evidence_bytes (wd_budget d)"
    by (auto simp: demo_env_def demo_definition_def)
  ultimately show ?thesis using no_run_left_behind [OF m demo_sha] by (intro exI [of _ ?m] exI [of _ ?q]) auto
qed

end
