(* ===== verification/Spec2Isabelle.thy ===== *)
theory Spec2Isabelle
  imports Policy Storage_Properties Memory_Properties Knowledge Agent_Runtime_Properties
    Evaluation_Properties Auth_Properties Agentic_Properties Propagation Sandbox_Properties Sandbox_Mcp
    Tool_Surfaces Stdio Project_Mcp
    Workflow_Machine
begin

text \<open>
  Rust-Factory is a Cargo workspace of small crates (bricks) from which agent servers are put
  together: each brick has a framework-free core (model, validation, service, ports), in-process
  adapters, and optional adapters over a third-party library or the model context protocol. This
  development models the cores and the adapters whose behaviour is decided by code of the workspace.

  \<^bold>\<open>Shared theories.\<close> \<open>Prelude\<close> has results (\<open>Result<T, E>\<close> is a sum with the error on the left),
  checked arithmetic on machine words and lengths, byte classes and the mutex that may be
  poisoned. \<open>Collections\<close> has \<open>BTreeMap\<close> and \<open>BTreeSet\<close> as strictly ascending lists with the facts
  about insertion, removal, counting and summing. \<open>Contracts\<close> has the locales several components
  interpret: an invariant machine, a refinement machine, the frame and the isolation of tenants.
  \<open>Json\<close> has JSON values with parsing into sorted objects and duplicate rejection.

  \<^bold>\<open>Policy\<close> (\<open>crates/policy\<close>): contexts, capabilities, grants, the canonical bytes of a decision and
  the static resolver. Shown: the bytes bind a decision to its request, the resolver allows exactly
  the configured grants.

  \<^bold>\<open>Storage\<close> (\<open>crates/storage\<close>; theories \<open>Storage\<close>, \<open>Storage_Proofs\<close>, \<open>Storage_Properties\<close>): the
  object model, validation, settings, and the local adapter with its cached quota counters. Shown:
  refinement of a specification without counters, the quotas as an invariant, strictly increasing
  versions, compare-and-swap writes, pagination that ends and tiles a scope, separate tenants.

  \<^bold>\<open>Memory\<close> (\<open>crates/memory\<close>; \<open>Memory\<close>, \<open>Memory_Proofs\<close>, \<open>Memory_Properties\<close>, \<open>Agentic\<close>,
  \<open>Agentic_Properties\<close>): records, queries, the service, the in-process store and the adapter over the
  \<open>agentic-memory\<close> graph library. The port's contract is the locale \<open>memory_store\<close>. Shown: refinement
  of an abstract store, noninterference between tenants, capacity, round trips, exact search,
  containment of a hostile store, equality of the two adapters over every history, and the empty
  partition a failed insertion leaves behind.

  \<^bold>\<open>Knowledge\<close> (\<open>crates/knowledge\<close>): identifiers, the service and the static index; the search is exact.

  \<^bold>\<open>Agent\<close> (\<open>crates/agent/src/lib.rs\<close>; \<open>Agent\<close>, \<open>Agent_Properties\<close>, \<open>Agent_Runtime\<close>,
  \<open>Agent_Runtime_Properties\<close>): definitions, ceilings, registry, scopes and the local runtime over
  arbitrary ports. Shown: a ceiling never elevates, the registry serves the last registration, every
  effect of an invocation is authorized by definition and ceiling and follows a control reading,
  outputs are bounded, a denied call runs nothing.

  \<^bold>\<open>LLM gateway\<close> (\<open>crates/llm-gateway\<close>; \<open>Gateway\<close>): limits, requests, responses, the static provider.

  \<^bold>\<open>Workflow\<close> (\<open>crates/workflow\<close>; \<open>Workflow\<close>, \<open>Workflow_Proofs\<close>, \<open>Workflow_Properties\<close>,
  \<open>Workflow_Scan\<close>, \<open>Workflow_Runner\<close>, \<open>Workflow_Closing\<close>, \<open>Workflow_Starts\<close>, \<open>Workflow_Stages\<close>,
  \<open>Workflow_Machine\<close>): runs and transitions, the in-memory store, canonical input with its raw
  scanner, the runner and its concurrent calls. \<open>Workflow_Runner\<close> has each call of the runner
  uninterrupted; \<open>Workflow_Stages\<close> cuts an execution and a cancellation into stages of one access to
  the store or to the registrations each and shows that the stages in a row are the uninterrupted
  call; \<open>Workflow_Machine\<close> interleaves the stages of any number of calls. Shown: refinement of a
  two-map specification, the life cycle of a run, finality, the scanner decides exactly repeated
  keys, idempotent starts, termination of an execution whose budget covers the closing event and the
  gap where it does not, the outcome of cancelling against finishing in every schedule of their
  accesses (with the order in which the cancellation is told of a conflict), and that no
  interleaving leaves a run behind when every budget of the catalog covers the closing event.

  \<^bold>\<open>Evaluation\<close> (\<open>crates/evaluation\<close>; \<open>Evaluation\<close>, \<open>Evaluation_Properties\<close>): definitions, evidence,
  encodings, the evaluators, the service and the write-once store. Shown: total evaluation, agreement
  of the executors, write-once histories, exact and injective encodings.

  \<^bold>\<open>Auth\<close> (\<open>crates/auth\<close>; \<open>Auth\<close>, \<open>Auth_Properties\<close>): identifiers, grants, decisions and the Biscuit
  resolver over a parameter for the Biscuit library. Shown: allow decisions are sound, decisions are
  bound to their request, a minted token within the size a resolver reads round-trips.

  \<^bold>\<open>Observability\<close> (\<open>crates/observability\<close>; \<open>Observability\<close>, \<open>Propagation\<close>, \<open>Telemetry\<close>): telemetry
  events, spans, metrics and trace contexts, the W3C headers, the service and the local ring buffers.
  Shown: accepted trace headers are written back, the baggage header as its trimmed pairs without
  their metadata, and reading them again gives the same context; the buffers are windows of a log
  that keeps every accepted event.

  \<^bold>\<open>Sandbox\<close> (\<open>crates/sandbox\<close>; \<open>Sandbox\<close>, \<open>Docker\<close>, \<open>Docker_Properties\<close>,
  \<open>Sandbox_Properties\<close>; \<open>Effects\<close> and \<open>Text_Ops\<close> hold what they share with others): requests and
  limits, the service with its events, the Docker adapter down to its command lines, over a process
  library that answers arbitrarily. Shown: the adapter acts only on containers an inspection of the
  same call reported to be owned, accepted commands are bounded and stay below the workspace, and
  observed calls keep the adapter's results and send valid telemetry.

  \<^bold>\<open>Tool surfaces\<close> (the \<open>mcp.rs\<close> of each crate, \<open>crates/mcp-contract\<close> and \<open>crates/mcp-transport\<close>):
  \<open>Mcp_Access\<close> has the gate every surface passes (context, authorization, verification of the
  decision) and the locale \<open>tool_surface\<close> for a surface behind it; \<open>Mcp_Contract\<close> and \<open>Mcp_Router\<close>
  have names, contributions and the aggregate router; \<open>Json_Text\<close> measures printed JSON;
  \<open>Sandbox_Mcp\<close>, \<open>Memory_Mcp\<close>, \<open>Observability_Mcp\<close>, \<open>Evaluation_Mcp\<close>, \<open>Agent_Mcp\<close> and
  \<open>Workflow_Mcp\<close> have the tools, each with its inputs, ceilings, projections and public error codes.
  The agent runtime behind the workflow tools carries a state of its own, so that a runtime that
  records its calls shows every one of them.
  Shown (with \<open>Mcp_Router_Properties\<close>, \<open>Memory_Mcp_Properties\<close>, \<open>Agent_Mcp_Properties\<close>,
  \<open>Workflow_Mcp_Properties\<close>, \<open>Tool_Surfaces\<close>): no tool reads or acts before an allowed and verified
  decision, what an agent or a workflow runs through a tool is within the grant of that decision, a
  router serves exactly the declared tools, and a page of found memories fits its ceiling and says
  whether something was left for a further page. \<open>Stdio\<close> has the bounded
  decoder and the transport over it. Shown: the frames do not depend on how reads cut the stream, and
  an oversized line ends the session without a write.

  \<^bold>\<open>Project\<close> (\<open>crates/project\<close>; \<open>Project\<close>, \<open>Project_Properties\<close>, \<open>Project_Mcp\<close>): blueprints, the plan with
  the text of every generated file, the writer confined to an output directory, and the tools. Shown: a
  generated project touches nothing outside its target, which ASCII licences of the manifest read
  back as TOML (the reader of basic strings in \<open>Project_Properties\<close> is a specification after the TOML
  grammar, not code of the crate), and that the contribution to a shared router never writes.

  \<^bold>\<open>Parameters, bounds and fuel.\<close> SHA-256, the Biscuit library, the graph library, the ports of the
  runtime, clocks, cancellation, child processes, directories, JSON text and the line codec of the
  protocol library are arguments of the definitions. Lengths of strings and vectors
  are naturals; where an encoding writes a length in 64 bits, the theorems ask that it fits, as
  every object of a process does. Loops are structural recursion, except the pagination loop of a
  caller, whose fuel is shown to be enough, the scanner, whose termination is proved, and the stdio
  decoder, which skips malformed lines for as long as its codec yields them: it is a partial function
  into an option, shown to return over every codec that takes lines from its buffer. The source
  recurses once per malformed line; the depth of its stack is not modelled.

  \<^bold>\<open>Not modelled.\<close> Adapters that only translate to a third-party library or a service (redb files,
  OpenTelemetry, genai, tokio), serde derivations beyond the members they print, most \<open>Debug\<close> and
  \<open>Display\<close> instances, and the experiments.
\<close>

section \<open>Capabilities of auth and policy\<close>

fun auth_counterpart :: "Policy.capability_v1 \<Rightarrow> Auth.capability_v1 option" where
  "auth_counterpart Policy.AgentDefinitionValidate = Some Auth.AgentDefinitionValidate"
| "auth_counterpart Policy.AgentDefinitionGet = Some Auth.AgentDefinitionGet"
| "auth_counterpart Policy.AgentDefinitionList = Some Auth.AgentDefinitionList"
| "auth_counterpart Policy.AgentDefinitionRegister = Some Auth.AgentDefinitionRegister"
| "auth_counterpart Policy.AgentInvoke = Some Auth.AgentInvoke"
| "auth_counterpart Policy.WorkflowValidate = Some Auth.WorkflowValidate"
| "auth_counterpart Policy.WorkflowStart = Some Auth.WorkflowStart"
| "auth_counterpart Policy.WorkflowGet = Some Auth.WorkflowGet"
| "auth_counterpart Policy.WorkflowList = Some Auth.WorkflowList"
| "auth_counterpart Policy.WorkflowCancel = Some Auth.WorkflowCancel"
| "auth_counterpart Policy.EvaluationValidate = Some Auth.EvaluationValidate"
| "auth_counterpart Policy.EvaluationEvaluate = Some Auth.EvaluationEvaluate"
| "auth_counterpart Policy.EvaluationGet = Some Auth.EvaluationGet"
| "auth_counterpart Policy.ObservabilityTelemetryQuery = Some Auth.ObservabilityTelemetryQuery"
| "auth_counterpart Policy.ObservabilityTelemetryStatus = Some Auth.ObservabilityTelemetryStatus"
| "auth_counterpart Policy.MemoryRemember = Some Auth.MemoryRemember"
| "auth_counterpart Policy.MemoryRecall = Some Auth.MemoryRecall"
| "auth_counterpart Policy.MemorySearch = Some Auth.MemorySearch"
| "auth_counterpart Policy.MemoryForget = Some Auth.MemoryForget"
| "auth_counterpart Policy.MemoryStatus = Some Auth.MemoryStatus"
| "auth_counterpart _ = None"

lemma auth_counterpart_name:
  "auth_counterpart p = Some a \<Longrightarrow> Policy.capability_as_str p = Auth.capability_as_str a"
  by (cases p) auto

lemma auth_counterpart_onto: "\<exists>p. auth_counterpart p = Some a"
  by (cases a) (metis auth_counterpart.simps)+

lemma auth_counterpart_None:
  "auth_counterpart p = None \<longleftrightarrow> p \<in> {SandboxStart, SandboxExecute, SandboxStatus, SandboxStop}"
  by (cases p) auto

text \<open>C40: The wire names of the auth crate's capabilities are pairwise distinct and each is the wire
  name of a policy capability; the policy names without an auth counterpart are exactly those of
  the four sandbox capabilities.\<close>

theorem auth_capabilities_within_policy:
  "(Auth.capability_as_str a = Auth.capability_as_str b \<longleftrightarrow> a = b)
   \<and> (\<exists>p. Policy.capability_as_str p = Auth.capability_as_str a)
   \<and> ((\<nexists>c. Auth.capability_as_str c = Policy.capability_as_str p)
       \<longleftrightarrow> p \<in> {SandboxStart, SandboxExecute, SandboxStatus, SandboxStop})"
proof (intro conjI)
  from auth_counterpart_onto [of a] auth_counterpart_name
  show "\<exists>p. Policy.capability_as_str p = Auth.capability_as_str a" by blast
  show "(\<nexists>c. Auth.capability_as_str c = Policy.capability_as_str p)
       \<longleftrightarrow> p \<in> {SandboxStart, SandboxExecute, SandboxStatus, SandboxStop}"
  proof
    assume "\<nexists>c. Auth.capability_as_str c = Policy.capability_as_str p"
    then have "auth_counterpart p = None" using auth_counterpart_name [of p] by (cases "auth_counterpart p") auto
    then show "p \<in> {SandboxStart, SandboxExecute, SandboxStatus, SandboxStop}" by (simp only: auth_counterpart_None)
  next
    assume sandbox: "p \<in> {SandboxStart, SandboxExecute, SandboxStatus, SandboxStop}"
    show "\<nexists>c. Auth.capability_as_str c = Policy.capability_as_str p"
    proof
      assume "\<exists>c. Auth.capability_as_str c = Policy.capability_as_str p"
      then obtain c where c: "Auth.capability_as_str c = Policy.capability_as_str p" ..
      from auth_counterpart_onto obtain q where q: "auth_counterpart q = Some c" by blast
      with c auth_counterpart_name have "Policy.capability_as_str q = Policy.capability_as_str p" by simp
      then have "q = p" by simp
      with q sandbox show False using auth_counterpart_None [of p] by simp
    qed
  qed
qed simp

end
